(* ===== verification/Prelude.thy ===== *)
theory Prelude
  imports Main "HOL-Library.Word" "HOL-Library.Char_ord" "HOL-Library.List_Lexorder"
begin

text \<open>
  Shared vocabulary of the development.

  Go functions that can fail are modelled by two shapes. A validator (a function of
  type \<^verbatim>\<open>func(...) error\<close>) returns \<open>error option\<close>, \<open>None\<close> being Go's nil error. A function
  that returns a value and an error returns \<open>'a res\<close>, that is \<open>error + 'a\<close>, with \<open>Inl\<close>
  for the error. An error carries its message and the sentinel values reachable by
  \<^verbatim>\<open>errors.Is\<close>: a \<^verbatim>\<open>fmt.Errorf\<close> with \<^verbatim>\<open>%w\<close> keeps the sentinels of what it wraps, one
  with \<^verbatim>\<open>%v\<close> drops them.
  Machine integers keep their width: \<^verbatim>\<open>uint64\<close> is \<open>64 word\<close>, \<^verbatim>\<open>uint32\<close> is \<open>32 word\<close>. Go
  strings are byte sequences, which \<open>string\<close> (a list of 8-bit characters) is too.
\<close>

named_theorems res_simps \<open>when a combination of fallible steps succeeds\<close>
named_theorems go_defs \<open>definitions unfolded by the component proofs\<close>

type_synonym u64 = "64 word"
type_synonym u32 = "32 word"
type_synonym u8 = "8 word"

section \<open>Errors\<close>

datatype sentinel =
    ErrForeignHandle | ErrInvalidHandle
  | ErrInvalidContext | ErrContextMismatch
  | ErrCreateReplayIncompatible | ErrCapacityOutOfRange
  | ErrArithmeticOverflow | ErrInvalidStatFS
  | ErrNoLogicalCapacity | ErrNoFreshPhysicalSpace | ErrInsufficientPhysicalSpace
  | ErrPhysicalCapacityExhausted | ErrParentInventoryUnavailable | ErrNoNodeCompatibleParent
  | OtherSentinel string

datatype error = Errorf (message: string) (sentinels: "sentinel list")

definition errors_is :: "error \<Rightarrow> sentinel \<Rightarrow> bool" where
  "errors_is e s \<longleftrightarrow> s \<in> set (sentinels e)"

definition errorf :: "string \<Rightarrow> error" where
  "errorf msg = Errorf msg []"

text \<open>\<^verbatim>\<open>fmt.Errorf("msg: %w", err)\<close> and \<^verbatim>\<open>fmt.Errorf("%w: %v", sentinel, err)\<close>.\<close>

definition wrap :: "string \<Rightarrow> error \<Rightarrow> error" where
  "wrap msg e = Errorf (msg @ '': '' @ message e) (sentinels e)"

definition wrap_sentinel :: "sentinel \<Rightarrow> error \<Rightarrow> error" where
  "wrap_sentinel s e = Errorf (message e) [s]"

type_synonym 'a res = "error + 'a"

section \<open>Sequencing of checks\<close>

text \<open>
  \<open>ensure b msg\<close> is the guard \<^verbatim>\<open>if !b { return fmt.Errorf(msg) }\<close>; \<open>errs\<close> runs guards in
  source order and returns the first error; \<open>require\<close> is a guard in front of a
  computation with a value, and \<open>and_then\<close> is \<^verbatim>\<open>if err != nil { return ..., err }\<close>
  after a call.
\<close>

definition ensure :: "bool \<Rightarrow> string \<Rightarrow> error option" where
  "ensure b msg = (if b then None else Some (errorf msg))"

definition ensure_is :: "bool \<Rightarrow> sentinel \<Rightarrow> string \<Rightarrow> error option" where
  "ensure_is b s msg = (if b then None else Some (Errorf msg [s]))"

fun errs :: "error option list \<Rightarrow> error option" where
  "errs [] = None"
| "errs (None # cs) = errs cs"
| "errs (Some e # cs) = Some e"

definition require :: "error option \<Rightarrow> 'a res \<Rightarrow> 'a res" where
  "require c k = (case c of None \<Rightarrow> k | Some e \<Rightarrow> Inl e)"

fun and_then :: "'a res \<Rightarrow> ('a \<Rightarrow> 'b res) \<Rightarrow> 'b res" where
  "and_then (Inl e) f = Inl e"
| "and_then (Inr v) f = f v"

text \<open>The same call inside a validator.\<close>

fun and_check :: "'a res \<Rightarrow> ('a \<Rightarrow> error option) \<Rightarrow> error option" where
  "and_check (Inl e) f = Some e"
| "and_check (Inr v) f = f v"

definition wrap_err :: "string \<Rightarrow> error option \<Rightarrow> error option" where
  "wrap_err msg c = map_option (wrap msg) c"

text \<open>\<^verbatim>\<open>errors.Join\<close> keeps the sentinels of both errors.\<close>

definition join_errors :: "error \<Rightarrow> error \<Rightarrow> error" where
  "join_errors e f = Errorf (message e @ [CHR 0x0A] @ message f) (sentinels e @ sentinels f)"

definition wrap_res :: "string \<Rightarrow> 'a res \<Rightarrow> 'a res" where
  "wrap_res msg r = map_sum (wrap msg) id r"

text \<open>A Go pointer or interface argument that the callee compares with nil.\<close>

definition non_nil :: "string \<Rightarrow> 'a option \<Rightarrow> ('a \<Rightarrow> error option) \<Rightarrow> error option" where
  "non_nil msg p f = (case p of None \<Rightarrow> Some (errorf msg) | Some x \<Rightarrow> f x)"

lemma ensure_None [simp, res_simps]: "ensure b msg = None \<longleftrightarrow> b"
  by (simp add: ensure_def)

lemma ensure_is_None [simp, res_simps]: "ensure_is b s msg = None \<longleftrightarrow> b"
  by (simp add: ensure_is_def)

lemma ensure_True [simp]: "ensure True msg = None" "ensure_is True s msg = None"
  by simp_all

lemma errs_Cons_None [simp, res_simps]: "errs (c # cs) = None \<longleftrightarrow> c = None \<and> errs cs = None"
  by (cases c) simp_all

lemma errs_None_iff: "errs cs = None \<longleftrightarrow> (\<forall>c \<in> set cs. c = None)"
  by (induction cs) auto

lemma errs_map_None [simp, res_simps]:
  "errs (map f xs) = None \<longleftrightarrow> (\<forall>x \<in> set xs. f x = None)"
  by (simp add: errs_None_iff)

lemma errs_append [simp, res_simps]:
  "errs (cs @ ds) = None \<longleftrightarrow> errs cs = None \<and> errs ds = None"
  by (auto simp: errs_None_iff)

lemma require_Inr [simp, res_simps]: "require c k = Inr v \<longleftrightarrow> c = None \<and> k = Inr v"
  by (cases c) (simp_all add: require_def)

lemma require_None [simp]: "require None k = k"
  by (simp add: require_def)

lemma require_Some [simp]: "require (Some e) k = Inl e"
  by (simp add: require_def)

lemma and_then_Inr [simp, res_simps]:
  "and_then r f = Inr v \<longleftrightarrow> (\<exists>u. r = Inr u \<and> f u = Inr v)"
  by (cases r) simp_all

lemma and_check_None [simp, res_simps]:
  "and_check r f = None \<longleftrightarrow> (\<exists>u. r = Inr u \<and> f u = None)"
  by (cases r) simp_all

lemma wrap_err_None [simp, res_simps]: "wrap_err msg c = None \<longleftrightarrow> c = None"
  by (simp add: wrap_err_def)

lemma wrap_res_Inr [simp, res_simps]: "wrap_res msg r = Inr v \<longleftrightarrow> r = Inr v"
  by (cases r) (simp_all add: wrap_res_def)

text \<open>A guard that runs under a condition; keeps the simplifier from splitting on it.\<close>

lemma if_None_iff [simp, res_simps]:
  "((if b then c else None) = None) \<longleftrightarrow> (b \<longrightarrow> c = None)"
  "((if b then None else c) = None) \<longleftrightarrow> (\<not> b \<longrightarrow> c = None)"
  by simp_all

lemma non_nil_None [simp, res_simps]:
  "non_nil msg p f = None \<longleftrightarrow> (\<exists>x. p = Some x \<and> f x = None)"
  by (cases p) (simp_all add: non_nil_def)

lemma non_nil_Some [simp]: "non_nil msg (Some x) f = f x"
  by (simp add: non_nil_def)

lemma sentinels_wrap [simp]: "sentinels (wrap msg e) = sentinels e"
  by (simp add: wrap_def)

lemma sentinels_errorf [simp]: "sentinels (errorf msg) = []"
  by (simp add: errorf_def)

lemma errors_is_wrap [simp]: "errors_is (wrap msg e) s = errors_is e s"
  by (simp add: errors_is_def)

lemma errors_is_errorf [simp]: "\<not> errors_is (errorf msg) s"
  by (simp add: errors_is_def)

section \<open>Words and lists\<close>

text \<open>\<^verbatim>\<open>x + 1\<close> on \<^verbatim>\<open>uint64\<close> never yields the old value back, and is positive unless it wraps.\<close>

lemma word_succ_neq [simp]: "(x :: u64) \<noteq> x + 1"
  by simp

lemma unat_succ: "(x :: u64) + 1 \<noteq> 0 \<Longrightarrow> unat (x + 1) = Suc (unat x)"
  by (simp add: unatSuc add.commute)

lemma word_le_iff_unat: "(a :: 'a::len word) \<le> b \<longleftrightarrow> unat a \<le> unat b"
  by (rule word_le_nat_alt)

lemma word_less_iff_unat: "(a :: 'a::len word) < b \<longleftrightarrow> unat a < unat b"
  by (rule word_less_nat_alt)

lemma unat_u64_less: "unat (a :: u64) < 18446744073709551616"
  using unsigned_less [of a] by simp

lemma unat_u32_less: "unat (a :: u32) < 4294967296"
  using unsigned_less [of a] by simp

lemma distinct_remdups_adj_sorted: "sorted xs \<Longrightarrow> distinct (remdups_adj xs)"
  by (induction xs rule: remdups_adj.induct) auto

lemma sort_Nil_iff: "sort xs = [] \<longleftrightarrow> xs = []"
  by (metis length_0_conv length_sort)

lemma list_all_set_iff: "list_all P xs \<longleftrightarrow> (\<forall>x \<in> set xs. P x)"
  by (simp add: list_all_iff)

end
