(* ===== verification/GoLib.thy ===== *)
theory GoLib
  imports Prelude
begin

text \<open>
  The part of the Go standard library that the volume and pool packages use: byte and
  character classes, \<^verbatim>\<open>strings\<close> (prefixes, \<^verbatim>\<open>Split\<close>, \<^verbatim>\<open>Trim\<close>, \<^verbatim>\<open>ToLower\<close>), UTF-8 scanning as
  \<^verbatim>\<open>range\<close> over a string does it, \<^verbatim>\<open>path.Clean\<close> and \<^verbatim>\<open>path.Join\<close>, \<^verbatim>\<open>strconv\<close> on base-10
  unsigned integers, and the canonical RFC 3339 check behind \<^verbatim>\<open>time.Parse\<close> followed by
  \<^verbatim>\<open>Format\<close>.
\<close>

section \<open>Characters\<close>

definition byte :: "char \<Rightarrow> nat" where
  "byte c = of_char c"

definition in_range :: "nat \<Rightarrow> nat \<Rightarrow> nat \<Rightarrow> bool" where
  "in_range lo hi n \<longleftrightarrow> lo \<le> n \<and> n \<le> hi"

definition is_digit :: "char \<Rightarrow> bool" where
  "is_digit c \<longleftrightarrow> in_range 48 57 (byte c)"

definition is_lower :: "char \<Rightarrow> bool" where
  "is_lower c \<longleftrightarrow> in_range 97 122 (byte c)"

definition is_upper :: "char \<Rightarrow> bool" where
  "is_upper c \<longleftrightarrow> in_range 65 90 (byte c)"

definition is_lower_alnum :: "char \<Rightarrow> bool" where
  "is_lower_alnum c \<longleftrightarrow> is_lower c \<or> is_digit c"

definition is_hex :: "char \<Rightarrow> bool" where
  "is_hex c \<longleftrightarrow> is_digit c \<or> in_range 97 102 (byte c)"

lemmas char_class_defs = is_digit_def is_lower_def is_upper_def is_lower_alnum_def is_hex_def
  in_range_def byte_def

lemma is_hex_lower_alnum: "is_hex c \<Longrightarrow> is_lower_alnum c"
  by (auto simp: char_class_defs)

lemma byte_less: "byte c < 256"
  by (simp add: byte_def)

section \<open>Package strings\<close>

definition has_prefix :: "string \<Rightarrow> string \<Rightarrow> bool" where
  "has_prefix s p \<longleftrightarrow> take (length p) s = p"

definition has_suffix :: "string \<Rightarrow> string \<Rightarrow> bool" where
  "has_suffix s p \<longleftrightarrow> length p \<le> length s \<and> drop (length s - length p) s = p"

lemma has_suffix_iff: "has_suffix s p \<longleftrightarrow> (\<exists>r. s = r @ p)"
proof
  assume "has_suffix s p"
  then have "s = take (length s - length p) s @ p" unfolding has_suffix_def by (metis append_take_drop_id)
  then show "\<exists>r. s = r @ p" by blast
qed (auto simp: has_suffix_def)

lemma has_prefix_iff: "has_prefix s p \<longleftrightarrow> (\<exists>r. s = p @ r)"
  unfolding has_prefix_def by (metis append_eq_conv_conj append_take_drop_id)

lemma has_prefix_append [simp]: "has_prefix (p @ r) p"
  by (simp add: has_prefix_def)

lemma has_prefix_simps [simp]:
  "has_prefix s []"
  "has_prefix [] (d # p) = False"
  "has_prefix (c # s) (d # p) = (c = d \<and> has_prefix s p)"
  by (auto simp: has_prefix_def)

definition trim_prefix :: "string \<Rightarrow> string \<Rightarrow> string" where
  "trim_prefix s p = (if has_prefix s p then drop (length p) s else s)"

text \<open>\<^verbatim>\<open>strings.Contains\<close>, and \<^verbatim>\<open>strings.ContainsAny\<close> for an ASCII set of characters.\<close>

fun contains_sub :: "string \<Rightarrow> string \<Rightarrow> bool" where
  "contains_sub [] p = (p = [])"
| "contains_sub (c # s) p = (has_prefix (c # s) p \<or> contains_sub s p)"

definition contains_any :: "string \<Rightarrow> char list \<Rightarrow> bool" where
  "contains_any s cs \<longleftrightarrow> list_ex (\<lambda>c. c \<in> set cs) s"

text \<open>\<^verbatim>\<open>strings.Split(s, sep)\<close> for a one-byte separator.\<close>

fun split_on :: "char \<Rightarrow> string \<Rightarrow> string list" where
  "split_on sep [] = [[]]"
| "split_on sep (c # s) =
     (if c = sep then [] # split_on sep s
      else (case split_on sep s of [] \<Rightarrow> [[c]] | w # ws \<Rightarrow> (c # w) # ws))"

definition join_with :: "string \<Rightarrow> string list \<Rightarrow> string" where
  "join_with sep ws = (case ws of [] \<Rightarrow> [] | v # vs \<Rightarrow> v @ concat (map (\<lambda>w. sep @ w) vs))"

text \<open>\<^verbatim>\<open>TrimLeft\<close>, \<^verbatim>\<open>TrimRight\<close> and \<^verbatim>\<open>Trim\<close> with an ASCII cut set.\<close>

definition trim_left :: "char list \<Rightarrow> string \<Rightarrow> string" where
  "trim_left cset s = dropWhile (\<lambda>c. c \<in> set cset) s"

definition trim_right :: "char list \<Rightarrow> string \<Rightarrow> string" where
  "trim_right cset s = rev (dropWhile (\<lambda>c. c \<in> set cset) (rev s))"

definition trim :: "char list \<Rightarrow> string \<Rightarrow> string" where
  "trim cset s = trim_right cset (trim_left cset s)"

text \<open>\<^verbatim>\<open>strings.NewReplacer(":", "", ...)\<close> where every replacement is the empty string.\<close>

definition remove_chars :: "char list \<Rightarrow> string \<Rightarrow> string" where
  "remove_chars cs s = filter (\<lambda>c. c \<notin> set cs) s"

lemma split_on_neq_Nil [simp]: "split_on sep s \<noteq> []"
  by (induction s) (auto split: list.splits)

lemma split_on_no_sep: "sep \<notin> set s \<Longrightarrow> split_on sep s = [s]"
  by (induction s) auto

lemma split_on_append:
  "sep \<notin> set a \<Longrightarrow> split_on sep (a @ sep # s) = a # split_on sep s"
  by (induction a) auto

lemma join_split: "join_with [sep] (split_on sep s) = s"
proof (induction s)
  case Nil
  then show ?case by (simp add: join_with_def)
next
  case (Cons c s)
  obtain w ws where "split_on sep s = w # ws"
    using split_on_neq_Nil [of sep s] by (cases "split_on sep s") auto
  with Cons show ?case
    by (auto simp: join_with_def)
qed

lemma split_on_parts: "w \<in> set (split_on sep s) \<Longrightarrow> sep \<notin> set w \<and> set w \<subseteq> set s"
  by (induction s arbitrary: w) (fastforce split: list.splits if_splits)+

lemma split_on_join:
  "ws \<noteq> [] \<Longrightarrow> \<forall>w \<in> set ws. sep \<notin> set w \<Longrightarrow> split_on sep (join_with [sep] ws) = ws"
proof (induction ws)
  case Nil
  then show ?case by simp
next
  case (Cons w ws)
  show ?case
  proof (cases ws)
    case Nil
    with Cons.prems show ?thesis
      by (simp add: join_with_def split_on_no_sep)
  next
    case (Cons v vs)
    with Cons.IH Cons.prems have "split_on sep (join_with [sep] ws) = ws" by simp
    moreover have "join_with [sep] (w # ws) = w @ sep # join_with [sep] ws"
      using Cons by (simp add: join_with_def)
    ultimately show ?thesis
      using \<open>\<forall>w\<in>set (w # ws). sep \<notin> set w\<close> by (simp add: split_on_append)
  qed
qed

lemma dropWhile_hd: "dropWhile P xs \<noteq> [] \<Longrightarrow> \<not> P (hd (dropWhile P xs))"
  by (rule hd_dropWhile)

lemma set_trim: "set (trim cset s) \<subseteq> set s"
proof
  fix x assume "x \<in> set (trim cset s)"
  then have "x \<in> set (trim_left cset s)"
    by (auto simp: trim_def trim_right_def dest: set_dropWhileD)
  then show "x \<in> set s"
    by (auto simp: trim_left_def dest: set_dropWhileD)
qed

lemma trim_right_last:
  "trim_right cset s \<noteq> [] \<Longrightarrow> last (trim_right cset s) \<notin> set cset"
  unfolding trim_right_def using hd_dropWhile [of "\<lambda>c. c \<in> set cset" "rev s"]
  by (simp add: last_rev)

lemma trim_right_prefix: "\<exists>t. s = trim_right cset s @ t"
proof -
  let ?d = "dropWhile (\<lambda>c. c \<in> set cset) (rev s)"
  let ?t = "takeWhile (\<lambda>c. c \<in> set cset) (rev s)"
  have "s = rev ?d @ rev ?t"
    by (metis rev_append rev_rev_ident takeWhile_dropWhile_id)
  then show ?thesis unfolding trim_right_def by blast
qed

section \<open>UTF-8\<close>

text \<open>
  \<open>rune_width\<close> is the length of the well-formed UTF-8 sequence at the head of the bytes,
  \<open>0\<close> when there is none; \<open>rune_at\<close> its code point. \<open>scan\<close> splits a string the way \<^verbatim>\<open>range\<close>
  does: an ill-formed byte is one segment of width 1 with code point U+FFFD.
\<close>

definition cont :: "nat \<Rightarrow> bool" where
  "cont b \<longleftrightarrow> in_range 128 191 b"

fun rune_width :: "nat list \<Rightarrow> nat" where
  "rune_width [] = 0"
| "rune_width (b0 # r) =
     (if b0 < 128 then 1
      else if in_range 194 223 b0 then
        (case r of b1 # _ \<Rightarrow> if cont b1 then 2 else 0 | _ \<Rightarrow> 0)
      else if in_range 224 239 b0 then
        (case r of b1 # b2 # _ \<Rightarrow>
           if in_range (if b0 = 224 then 160 else 128) (if b0 = 237 then 159 else 191) b1 \<and> cont b2
           then 3 else 0
         | _ \<Rightarrow> 0)
      else if in_range 240 244 b0 then
        (case r of b1 # b2 # b3 # _ \<Rightarrow>
           if in_range (if b0 = 240 then 144 else 128) (if b0 = 244 then 143 else 191) b1
              \<and> cont b2 \<and> cont b3
           then 4 else 0
         | _ \<Rightarrow> 0)
      else 0)"

declare rune_width.simps(2) [simp del]

lemma rune_width_ascii: "b < 128 \<Longrightarrow> rune_width (b # r) = 1"
  by (simp add: rune_width.simps)

definition rune_at :: "nat list \<Rightarrow> nat" where
  "rune_at bs =
     (case rune_width bs of
        0 \<Rightarrow> 65533
      | Suc 0 \<Rightarrow> bs ! 0
      | Suc (Suc 0) \<Rightarrow> (bs ! 0 - 192) * 64 + (bs ! 1 - 128)
      | Suc (Suc (Suc 0)) \<Rightarrow> (bs ! 0 - 224) * 4096 + (bs ! 1 - 128) * 64 + (bs ! 2 - 128)
      | _ \<Rightarrow> (bs ! 0 - 240) * 262144 + (bs ! 1 - 128) * 4096 + (bs ! 2 - 128) * 64 + (bs ! 3 - 128))"

function scan :: "string \<Rightarrow> (nat \<times> string) list" where
  "scan [] = []"
| "scan (c # s) =
     (let bs = map byte (c # s); w = max 1 (rune_width bs)
      in (rune_at bs, take w (c # s)) # scan (drop w (c # s)))"
  by pat_completeness auto
termination
  by (relation "measure length") auto

declare scan.simps(2) [simp del]

definition ill_formed :: "nat \<times> string \<Rightarrow> bool" where
  "ill_formed seg \<longleftrightarrow> fst seg = 65533 \<and> length (snd seg) = 1"

definition valid_string :: "string \<Rightarrow> bool" where
  "valid_string s \<longleftrightarrow> \<not> list_ex ill_formed (scan s)"

definition runes :: "string \<Rightarrow> nat list" where
  "runes s = map fst (scan s)"

lemma concat_scan: "concat (map snd (scan s)) = s"
proof (induction s rule: scan.induct)
  case 1
  then show ?case by simp
next
  case (2 c s)
  then show ?case by (simp add: scan.simps Let_def)
qed

lemma scan_ascii_Cons: "byte c < 128 \<Longrightarrow> scan (c # s) = (byte c, [c]) # scan s"
  by (simp add: scan.simps Let_def rune_at_def rune_width_ascii)

lemma scan_ascii: "\<forall>c \<in> set s. byte c < 128 \<Longrightarrow> scan s = map (\<lambda>c. (byte c, [c])) s"
  by (induction s) (simp_all add: scan_ascii_Cons)

lemma valid_string_ascii: "\<forall>c \<in> set s. byte c < 128 \<Longrightarrow> valid_string s"
  by (auto simp: valid_string_def scan_ascii ill_formed_def list_ex_iff)

lemma is_lower_alnum_ascii: "is_lower_alnum c \<Longrightarrow> byte c < 128"
  by (auto simp: char_class_defs)

section \<open>strings.ToLower\<close>

text \<open>
  Every caller looks at the result only through comparisons with ASCII characters, so the
  case mapping is given on code points up to the identity of the non-ASCII ones: A to Z
  are lowered, U+0130 and U+212A are the only non-ASCII code points whose simple lower
  case is ASCII (\<^verbatim>\<open>i\<close> and \<^verbatim>\<open>k\<close>), and every other non-ASCII code point stays non-ASCII.
\<close>

definition lower_rune :: "nat \<Rightarrow> nat" where
  "lower_rune r =
     (if in_range 65 90 r then r + 32
      else if r = 304 then 105
      else if r = 8490 then 107
      else r)"

definition to_lower_runes :: "string \<Rightarrow> nat list" where
  "to_lower_runes s = map lower_rune (runes s)"

text \<open>Equality of \<^verbatim>\<open>strings.ToLower(s)\<close> with an ASCII literal.\<close>

definition lower_equals :: "string \<Rightarrow> string \<Rightarrow> bool" where
  "lower_equals s lit \<longleftrightarrow> to_lower_runes s = map byte lit"

lemma lower_rune_ascii_lower: "is_lower_alnum c \<Longrightarrow> lower_rune (byte c) = byte c"
  by (auto simp: char_class_defs lower_rune_def)

section \<open>Package path\<close>

text \<open>
  \<^verbatim>\<open>path.Clean\<close> works on the components between slashes: empty and \<^verbatim>\<open>.\<close> components vanish,
  \<^verbatim>\<open>..\<close> removes the component before it, is dropped at the root of an absolute path and is
  kept at the front of a relative one. The stack holds the kept components, last first.
\<close>

fun clean_step :: "bool \<Rightarrow> string list \<Rightarrow> string \<Rightarrow> string list" where
  "clean_step rooted stack w =
     (if w = [] \<or> w = ''.'' then stack
      else if w = ''..'' then
        (case stack of
           [] \<Rightarrow> if rooted then [] else [''..'']
         | t # rest \<Rightarrow> if t = ''..'' then ''..'' # stack else rest)
      else w # stack)"

definition clean_components :: "bool \<Rightarrow> string list \<Rightarrow> string list" where
  "clean_components rooted cs = rev (foldl (clean_step rooted) [] cs)"

definition path_clean :: "string \<Rightarrow> string" where
  "path_clean p =
     (if p = [] then ''.''
      else let rooted = has_prefix p ''/'';
               kept = clean_components rooted (split_on CHR ''/'' p)
           in if rooted then ''/'' @ join_with ''/'' kept
              else if kept = [] then ''.'' else join_with ''/'' kept)"

definition path_join :: "string list \<Rightarrow> string" where
  "path_join elems =
     (let kept = filter (\<lambda>e. e \<noteq> []) elems
      in if kept = [] then [] else path_clean (join_with ''/'' kept))"

definition plain_component :: "string \<Rightarrow> bool" where
  "plain_component w \<longleftrightarrow> w \<noteq> [] \<and> w \<noteq> ''.'' \<and> w \<noteq> ''..'' \<and> CHR ''/'' \<notin> set w"

lemma clean_plain:
  "\<forall>w \<in> set ws. plain_component w \<Longrightarrow> foldl (clean_step rooted) st ws = rev ws @ st"
  by (induction ws arbitrary: st) (auto simp: plain_component_def)

lemma clean_components_plain:
  "\<forall>w \<in> set ws. plain_component w \<Longrightarrow> clean_components rooted ws = ws"
  by (simp add: clean_components_def clean_plain)

text \<open>An absolute path made of plain components is its own normal form.\<close>

definition abs_path :: "string list \<Rightarrow> string" where
  "abs_path ws = ''/'' @ join_with ''/'' ws"

lemma split_abs_path:
  assumes "\<forall>w \<in> set ws. plain_component w" and "ws \<noteq> []"
  shows "split_on CHR ''/'' (abs_path ws) = [] # ws"
proof -
  have "split_on CHR ''/'' (join_with ''/'' ws) = ws"
    by (rule split_on_join) (use assms in \<open>auto simp: plain_component_def\<close>)
  then show ?thesis by (simp add: abs_path_def)
qed

lemma path_clean_abs_path:
  assumes "\<forall>w \<in> set ws. plain_component w" and "ws \<noteq> []"
  shows "path_clean (abs_path ws) = abs_path ws"
proof -
  have "clean_components True ([] # ws) = ws"
    using assms(1) by (simp add: clean_components_def clean_plain)
  moreover have "has_prefix (abs_path ws) ''/''"
    by (simp add: abs_path_def)
  ultimately show ?thesis
    using split_abs_path [OF assms] by (simp add: path_clean_def Let_def) (simp add: abs_path_def)
qed

lemma join_with_append:
  "vs \<noteq> [] \<Longrightarrow> ws \<noteq> [] \<Longrightarrow> join_with sep (vs @ ws) = join_with sep vs @ sep @ join_with sep ws"
  by (cases vs; cases ws) (simp_all add: join_with_def)

lemma abs_path_snoc: "vs \<noteq> [] \<Longrightarrow> ws \<noteq> [] \<Longrightarrow> abs_path (vs @ ws) = abs_path vs @ ''/'' @ join_with ''/'' ws"
  by (simp add: abs_path_def join_with_append)

section \<open>Package strconv\<close>

definition digit_char :: "nat \<Rightarrow> char" where
  "digit_char d = ''0123456789'' ! d"

fun format_uint :: "nat \<Rightarrow> string" where
  "format_uint n = (if n < 10 then [digit_char n] else format_uint (n div 10) @ [digit_char (n mod 10)])"

declare format_uint.simps [simp del]

definition digit_val :: "char \<Rightarrow> nat" where
  "digit_val c = byte c - 48"

definition decimal_value :: "string \<Rightarrow> nat" where
  "decimal_value s = foldl (\<lambda>n c. 10 * n + digit_val c) 0 s"

text \<open>\<^verbatim>\<open>strconv.ParseUint(s, 10, bits)\<close>: \<open>None\<close> is a syntax or range error.\<close>

definition parse_uint :: "nat \<Rightarrow> string \<Rightarrow> nat option" where
  "parse_uint bits s =
     (if s \<noteq> [] \<and> list_all is_digit s \<and> decimal_value s < 2 ^ bits then Some (decimal_value s)
      else None)"

lemma byte_digit_char: "d < 10 \<Longrightarrow> byte (digit_char d) = 48 + d"
  by (auto simp: byte_def digit_char_def less_Suc_eq numeral_eq_Suc)

lemma is_digit_digit_char [simp]: "d < 10 \<Longrightarrow> is_digit (digit_char d)"
  by (simp add: is_digit_def in_range_def byte_digit_char)

lemma digit_val_digit_char [simp]: "d < 10 \<Longrightarrow> digit_val (digit_char d) = d"
  by (simp add: digit_val_def byte_digit_char)

lemma decimal_value_snoc: "decimal_value (s @ [c]) = 10 * decimal_value s + digit_val c"
  by (simp add: decimal_value_def)

lemma format_uint_props:
  "format_uint n \<noteq> [] \<and> list_all is_digit (format_uint n) \<and> decimal_value (format_uint n) = n"
proof (induction n rule: format_uint.induct)
  case (1 n)
  show ?case
  proof (cases "n < 10")
    case True
    then show ?thesis
      by (simp add: format_uint.simps [of n] decimal_value_def)
  next
    case False
    with 1 show ?thesis
      by (simp add: format_uint.simps [of n] decimal_value_snoc)
  qed
qed

lemma format_uint_digits: "c \<in> set (format_uint n) \<Longrightarrow> is_digit c"
  using format_uint_props [of n] by (simp add: list_all_iff)

lemma parse_format_uint: "n < 2 ^ bits \<Longrightarrow> parse_uint bits (format_uint n) = Some n"
  using format_uint_props [of n] by (simp add: parse_uint_def)

lemma format_uint_inj: "format_uint m = format_uint n \<Longrightarrow> m = n"
  using format_uint_props by metis

section \<open>Package time\<close>

text \<open>
  \<open>canonical_rfc3339\<close> is the test of \<^verbatim>\<open>validateRequiredTimestamp\<close>: the value parses under
  \<^verbatim>\<open>time.RFC3339Nano\<close>, ends in \<^verbatim>\<open>Z\<close>, and formatting the parsed UTC time gives the value
  back. \<open>parse_rfc3339\<close> reads \<^verbatim>\<open>YYYY-MM-DDThh:mm:ss[.fraction]Z\<close> with the calendar ranges
  that \<^verbatim>\<open>time.Parse\<close> enforces and keeps nine fractional digits; every other spelling that
  \<^verbatim>\<open>time.Parse\<close> accepts (offsets, a comma, a one-digit hour) formats to a different string
  and is rejected by the comparison.
\<close>

record civil_time =
  t_year :: nat
  t_month :: nat
  t_day :: nat
  t_hour :: nat
  t_minute :: nat
  t_second :: nat
  t_nanos :: string \<comment> \<open>nine digits\<close>

definition leap_year :: "nat \<Rightarrow> bool" where
  "leap_year y \<longleftrightarrow> y mod 4 = 0 \<and> (y mod 100 \<noteq> 0 \<or> y mod 400 = 0)"

definition days_in :: "nat \<Rightarrow> nat \<Rightarrow> nat" where
  "days_in m y =
     (if m = 2 then (if leap_year y then 29 else 28)
      else if m \<in> {4, 6, 9, 11} then 30 else 31)"

definition pad_zeros :: "nat \<Rightarrow> string \<Rightarrow> string" where
  "pad_zeros n s = replicate (n - length s) CHR ''0'' @ s"

definition fraction_nanos :: "string \<Rightarrow> string" where
  "fraction_nanos f = take 9 f @ replicate (9 - length f) CHR ''0''"

definition parse_rfc3339 :: "string \<Rightarrow> civil_time option" where
  "parse_rfc3339 s =
     (let year = take 4 s; month = take 2 (drop 5 s); day = take 2 (drop 8 s);
          hour = take 2 (drop 11 s); minute = take 2 (drop 14 s); second = take 2 (drop 17 s);
          rest = drop 19 s;
          frac = (if length rest \<ge> 2 \<and> hd rest = CHR ''.'' then butlast (tl rest) else [])
      in if length s \<ge> 20
            \<and> list_all is_digit (year @ month @ day @ hour @ minute @ second @ frac)
            \<and> s ! 4 = CHR ''-'' \<and> s ! 7 = CHR ''-'' \<and> s ! 10 = CHR ''T''
            \<and> s ! 13 = CHR '':'' \<and> s ! 16 = CHR '':'' \<and> last s = CHR ''Z''
            \<and> (length rest = 1 \<or> (hd rest = CHR ''.'' \<and> frac \<noteq> []))
            \<and> in_range 1 12 (decimal_value month)
            \<and> in_range 1 (days_in (decimal_value month) (decimal_value year)) (decimal_value day)
            \<and> decimal_value hour < 24 \<and> decimal_value minute < 60 \<and> decimal_value second < 60
         then Some \<lparr>t_year = decimal_value year, t_month = decimal_value month,
                    t_day = decimal_value day, t_hour = decimal_value hour,
                    t_minute = decimal_value minute, t_second = decimal_value second,
                    t_nanos = fraction_nanos frac\<rparr>
         else None)"

text \<open>\<^verbatim>\<open>Format(time.RFC3339Nano)\<close> in UTC: trailing zeros of the fraction are dropped.\<close>

definition format_rfc3339 :: "civil_time \<Rightarrow> string" where
  "format_rfc3339 t =
     (let frac = trim_right ''0'' (t_nanos t)
      in pad_zeros 4 (format_uint (t_year t)) @ ''-'' @ pad_zeros 2 (format_uint (t_month t)) @ ''-'' @
         pad_zeros 2 (format_uint (t_day t)) @ ''T'' @ pad_zeros 2 (format_uint (t_hour t)) @ '':'' @
         pad_zeros 2 (format_uint (t_minute t)) @ '':'' @ pad_zeros 2 (format_uint (t_second t)) @
         (if frac = [] then [] else ''.'' @ frac) @ ''Z'')"

definition canonical_rfc3339 :: "string \<Rightarrow> bool" where
  "canonical_rfc3339 s \<longleftrightarrow>
     (case parse_rfc3339 s of None \<Rightarrow> False
      | Some t \<Rightarrow> has_suffix s ''Z'' \<and> format_rfc3339 t = s)"

lemma replicate_numeral_eq: "replicate (numeral k) x = x # replicate (pred_numeral k) x"
  by (simp add: numeral_eq_Suc)

text \<open>The facts that evaluate the timestamp test on a literal.\<close>

lemmas timestamp_eval = canonical_rfc3339_def parse_rfc3339_def Let_def decimal_value_def
  digit_val_def char_class_defs days_in_def leap_year_def format_rfc3339_def trim_right_def
  fraction_nanos_def format_uint.simps digit_char_def pad_zeros_def has_suffix_def
  replicate_numeral_eq

lemma canonical_rfc3339_nonempty: "canonical_rfc3339 s \<Longrightarrow> s \<noteq> []"
proof (rule notI)
  assume "canonical_rfc3339 s" and "s = []"
  moreover have "parse_rfc3339 [] = None"
    unfolding parse_rfc3339_def Let_def by simp
  ultimately show False by (simp add: canonical_rfc3339_def)
qed

lemma set_trim_right: "set (trim_right cset s) \<subseteq> set s"
  by (auto simp: trim_right_def dest: set_dropWhileD)

lemma prefix_le: "(xs :: string) \<le> xs @ ys"
  by (induction xs) simp_all

end
