(* ===== verification/Digest.thy ===== *)
theory Digest
  imports GoLib
begin

text \<open>
  Digests and canonical JSON. \<open>sha256\<close> is the function of Go's \<^verbatim>\<open>crypto/sha256\<close> (FIPS 180-4),
  \<open>hex_encode\<close> that of \<^verbatim>\<open>encoding/hex\<close>. \<open>Marshal\<close> is \<^verbatim>\<open>internal/canonicaljson.Marshal\<close>: the
  output of \<^verbatim>\<open>encoding/json\<close> with HTML escaping off and without the final newline, on JSON
  values whose objects list their members in output order. The injectivity of the
  string encoding is proved through a reader of encoded strings, \<open>read_string\<close>.
\<close>

unbundle bit_operations_syntax

section \<open>SHA-256\<close>

definition sha_k :: "32 word list" where
  "sha_k =
     [1116352408, 1899447441, 3049323471, 3921009573, 961987163, 1508970993,
      2453635748, 2870763221, 3624381080, 310598401, 607225278, 1426881987,
      1925078388, 2162078206, 2614888103, 3248222580, 3835390401, 4022224774,
      264347078, 604807628, 770255983, 1249150122, 1555081692, 1996064986,
      2554220882, 2821834349, 2952996808, 3210313671, 3336571891, 3584528711,
      113926993, 338241895, 666307205, 773529912, 1294757372, 1396182291,
      1695183700, 1986661051, 2177026350, 2456956037, 2730485921, 2820302411,
      3259730800, 3345764771, 3516065817, 3600352804, 4094571909, 275423344,
      430227734, 506948616, 659060556, 883997877, 958139571, 1322822218,
      1537002063, 1747873779, 1955562222, 2024104815, 2227730452, 2361852424,
      2428436474, 2756734187, 3204031479, 3329325298]"

definition sha_init :: "32 word list" where
  "sha_init =
     [1779033703, 3144134277, 1013904242, 2773480762, 1359893119, 2600822924, 528734635, 1541459225]"

definition rotr :: "nat \<Rightarrow> 32 word \<Rightarrow> 32 word" where
  "rotr n x = drop_bit n x OR push_bit (32 - n) x"

definition sigma0 :: "32 word \<Rightarrow> 32 word" where
  "sigma0 x = rotr 7 x XOR rotr 18 x XOR drop_bit 3 x"

definition sigma1 :: "32 word \<Rightarrow> 32 word" where
  "sigma1 x = rotr 17 x XOR rotr 19 x XOR drop_bit 10 x"

definition Sigma0 :: "32 word \<Rightarrow> 32 word" where
  "Sigma0 x = rotr 2 x XOR rotr 13 x XOR rotr 22 x"

definition Sigma1 :: "32 word \<Rightarrow> 32 word" where
  "Sigma1 x = rotr 6 x XOR rotr 11 x XOR rotr 25 x"

text \<open>The message schedule, newest word first.\<close>

fun schedule :: "nat \<Rightarrow> 32 word list \<Rightarrow> 32 word list" where
  "schedule 0 ws = ws"
| "schedule (Suc n) ws =
     schedule n ((sigma1 (ws ! 1) + ws ! 6 + sigma0 (ws ! 14) + ws ! 15) # ws)"

fun sha_round :: "32 word list \<Rightarrow> 32 word \<times> 32 word \<Rightarrow> 32 word list" where
  "sha_round [a, b, c, d, e, f, g, h] (k, w) =
     (let t1 = h + Sigma1 e + ((e AND f) XOR (NOT e AND g)) + k + w;
          t2 = Sigma0 a + ((a AND b) XOR (a AND c) XOR (b AND c))
      in [t1 + t2, a, b, c, d + t1, e, f, g])"
| "sha_round s kw = s"

definition be_word :: "8 word list \<Rightarrow> 32 word" where
  "be_word bs = foldl (\<lambda>acc b. push_bit 8 acc OR ucast b) 0 bs"

fun chunks :: "nat \<Rightarrow> nat \<Rightarrow> 'a list \<Rightarrow> 'a list list" where
  "chunks 0 n xs = []"
| "chunks (Suc k) n xs = take n xs # chunks k n (drop n xs)"

definition sha_block :: "32 word list \<Rightarrow> 8 word list \<Rightarrow> 32 word list" where
  "sha_block hs block =
     (let ws = rev (schedule 48 (rev (map be_word (chunks 16 4 block))))
      in map2 (+) hs (foldl sha_round hs (zip sha_k ws)))"

definition be_bytes :: "nat \<Rightarrow> 'a::len word \<Rightarrow> 8 word list" where
  "be_bytes n x = map (\<lambda>i. ucast (drop_bit (8 * (n - 1 - i)) x)) [0..<n]"

definition sha_pad :: "8 word list \<Rightarrow> 8 word list" where
  "sha_pad m = m @ [0x80] @ replicate ((119 - length m mod 64) mod 64) 0 @
     be_bytes 8 (of_nat (8 * length m) :: u64)"

definition sha256_bytes :: "8 word list \<Rightarrow> 8 word list" where
  "sha256_bytes m =
     (let p = sha_pad m
      in concat (map (\<lambda>w. be_bytes 4 w)
           (foldl sha_block sha_init (chunks (length p div 64) 64 p))))"

definition sha256 :: "string \<Rightarrow> 8 word list" where
  "sha256 s = sha256_bytes (map (\<lambda>c. of_nat (byte c)) s)"

definition hex_char :: "nat \<Rightarrow> char" where
  "hex_char n = ''0123456789abcdef'' ! n"

definition hex_encode :: "8 word list \<Rightarrow> string" where
  "hex_encode bs = concat (map (\<lambda>b. [hex_char (unat b div 16), hex_char (unat b mod 16)]) bs)"

lemma length_sha_round [simp]: "length (sha_round hs kw) = length hs"
  by (induction hs kw rule: sha_round.induct) (simp_all add: Let_def)

lemma length_foldl_sha_round [simp]: "length (foldl sha_round hs kws) = length hs"
  by (induction kws arbitrary: hs) simp_all

lemma length_sha_block [simp]: "length (sha_block hs b) = length hs"
  by (simp add: sha_block_def Let_def)

lemma length_foldl_sha_block [simp]: "length (foldl sha_block hs bs) = length hs"
  by (induction bs arbitrary: hs) simp_all

lemma length_be_bytes [simp]: "length (be_bytes n x) = n"
  by (simp add: be_bytes_def)

lemma length_concat_const: "(\<And>x. length (f x) = n) \<Longrightarrow> length (concat (map f xs)) = n * length xs"
  by (induction xs) simp_all

lemma length_sha256 [simp]: "length (sha256 s) = 32"
  by (simp add: sha256_def sha256_bytes_def Let_def length_concat_const [where n = 4] sha_init_def)

text \<open>The padded message is a whole number of blocks, so no byte of it is skipped.\<close>

lemma sha_pad_blocks: "length (sha_pad m) mod 64 = 0"
proof -
  define r where "r = length m mod 64"
  have "r < 64" by (simp add: r_def)
  have "length (sha_pad m) mod 64 = (r + 9 + (119 - r) mod 64) mod 64"
    by (simp add: sha_pad_def r_def mod_simps add.assoc)
  also have "\<dots> = 0"
  proof (cases "r \<le> 55")
    case True
    then have "(119 - r) mod 64 = 55 - r"
      using mod_add_self1 [of 64 "55 - r"] by simp
    with True show ?thesis by simp
  next
    case False
    then have "(119 - r) mod 64 = 119 - r" by simp
    with False \<open>r < 64\<close> show ?thesis by simp
  qed
  finally show ?thesis .
qed

lemma byte_hex_char: "n < 16 \<Longrightarrow> byte (hex_char n) = (if n < 10 then 48 + n else 87 + n)"
  by (auto simp: hex_char_def byte_def less_Suc_eq numeral_eq_Suc)

lemma is_hex_hex_char: "n < 16 \<Longrightarrow> is_hex (hex_char n)"
  by (auto simp: is_hex_def is_digit_def in_range_def byte_hex_char)

lemma hex_encode_hex: "list_all is_hex (hex_encode bs)"
  unfolding hex_encode_def list_all_iff
proof
  fix c assume "c \<in> set (concat (map (\<lambda>b. [hex_char (unat b div 16), hex_char (unat b mod 16)]) bs))"
  then obtain b :: u8 where "c = hex_char (unat b div 16) \<or> c = hex_char (unat b mod 16)" by auto
  moreover have "unat b div 16 < 16"
    using unsigned_less [of b, where 'a = nat] by (simp add: less_mult_imp_div_less)
  ultimately show "is_hex c" by (auto intro: is_hex_hex_char)
qed

lemma length_hex_encode [simp]: "length (hex_encode bs) = 2 * length bs"
  by (simp add: hex_encode_def length_concat_const)

lemma hex_char_inj:
  assumes "a < 16" and "b < 16" and "hex_char a = hex_char b"
  shows "a = b"
proof -
  have "(if a < 10 then 48 + a else 87 + a) = (if b < 10 then 48 + b else 87 + b)"
    using byte_hex_char [OF assms(1)] byte_hex_char [OF assms(2)] unfolding assms(3) by simp
  with assms(1,2) show ?thesis by (simp split: if_splits)
qed

lemma nibbles_inj:
  assumes "hex_char (unat a div 16) = hex_char (unat (b :: u8) div 16)"
    and "hex_char (unat a mod 16) = hex_char (unat b mod 16)"
  shows "a = b"
proof -
  have "unat a div 16 < 16" "unat b div 16 < 16"
    using unsigned_less [of a, where 'a = nat] unsigned_less [of b, where 'a = nat]
    by (simp_all add: less_mult_imp_div_less)
  then have "unat a div 16 = unat b div 16" using assms(1) by (rule hex_char_inj)
  moreover have "unat a mod 16 = unat b mod 16" using assms(2) by (intro hex_char_inj) simp_all
  ultimately have "unat a = unat b" by (metis div_mult_mod_eq)
  then show ?thesis by (simp add: word_unat_eq_iff)
qed

lemma hex_encode_inj: "hex_encode xs = hex_encode ys \<Longrightarrow> xs = ys"
proof (induction xs arbitrary: ys)
  case Nil
  then show ?case by (cases ys) (simp_all add: hex_encode_def)
next
  case (Cons x xs)
  then show ?case by (cases ys) (auto simp: hex_encode_def intro: nibbles_inj)
qed

section \<open>JSON values and their canonical text\<close>

datatype json =
    JNull
  | JBool bool
  | JNum nat
  | JStr string
  | JArr "json list"
  | JObj "(string \<times> json) list"

definition escape_u :: "nat \<Rightarrow> string" where
  "escape_u n = [CHR 0x5C, CHR ''u''] @
     map (\<lambda>i. hex_char (n div 16 ^ (3 - i) mod 16)) [0..<4]"

text \<open>One scanned segment of a string under \<^verbatim>\<open>encoding/json\<close> with HTML escaping off.\<close>

definition escape_segment :: "nat \<times> string \<Rightarrow> string" where
  "escape_segment seg =
     (let r = fst seg in
      if r = 34 then [CHR 0x5C, CHR 0x22]
      else if r = 92 then [CHR 0x5C, CHR 0x5C]
      else if r = 8 then [CHR 0x5C, CHR ''b'']
      else if r = 12 then [CHR 0x5C, CHR ''f'']
      else if r = 10 then [CHR 0x5C, CHR ''n'']
      else if r = 13 then [CHR 0x5C, CHR ''r'']
      else if r = 9 then [CHR 0x5C, CHR ''t'']
      else if r < 32 then escape_u r
      else if ill_formed seg then escape_u 65533
      else if r = 8232 \<or> r = 8233 then escape_u r
      else snd seg)"

definition print_string :: "string \<Rightarrow> string" where
  "print_string s = [CHR 0x22] @ concat (map escape_segment (scan s)) @ [CHR 0x22]"

fun print_json :: "json \<Rightarrow> string" where
  "print_json JNull = ''null''"
| "print_json (JBool b) = (if b then ''true'' else ''false'')"
| "print_json (JNum n) = format_uint n"
| "print_json (JStr s) = print_string s"
| "print_json (JArr vs) = ''['' @ join_with '','' (map print_json vs) @ '']''"
| "print_json (JObj kvs) =
     ''{'' @ join_with '','' (map (\<lambda>(k, v). print_string k @ '':'' @ print_json v) kvs) @ ''}''"

definition Marshal :: "json \<Rightarrow> string" where
  "Marshal v = print_json v"

text \<open>A Go map is encoded with its keys in byte order.\<close>

definition json_map :: "(string \<times> json) list \<Rightarrow> json" where
  "json_map kvs = JObj (sort_key fst kvs)"

text \<open>
  Decoding into \<^verbatim>\<open>map[string]any\<close> and encoding again, as \<^verbatim>\<open>contentChecksum\<close> does: every object
  becomes a map, so its keys are sorted at every depth, and a segment that was not UTF-8
  has become the three bytes of U+FFFD.
\<close>

definition repair_utf8 :: "string \<Rightarrow> string" where
  "repair_utf8 s = concat (map (\<lambda>seg. if ill_formed seg then [CHR 0xEF, CHR 0xBF, CHR 0xBD] else snd seg) (scan s))"

fun generic_json :: "json \<Rightarrow> json" where
  "generic_json (JStr s) = JStr (repair_utf8 s)"
| "generic_json (JArr vs) = JArr (map generic_json vs)"
| "generic_json (JObj kvs) = json_map (map (\<lambda>(k, v). (repair_utf8 k, generic_json v)) kvs)"
| "generic_json v = v"

section \<open>Reading a string literal\<close>

text \<open>
  The string literal of \<^verbatim>\<open>encoding/json\<close> after its opening quote: a control character or an unknown
  escape is refused, a surrogate pair is one code point, and an unpaired surrogate is U+FFFD.
\<close>

definition hex_digit_val :: "char \<Rightarrow> nat option" where
  "hex_digit_val c =
     (if is_digit c then Some (byte c - 48)
      else if in_range 97 102 (byte c) then Some (byte c - 87)
      else if in_range 65 70 (byte c) then Some (byte c - 55) else None)"

definition hex4 :: "char \<Rightarrow> char \<Rightarrow> char \<Rightarrow> char \<Rightarrow> nat option" where
  "hex4 h1 h2 h3 h4 =
     (case (hex_digit_val h1, hex_digit_val h2, hex_digit_val h3, hex_digit_val h4) of
        (Some a, Some b, Some c, Some d) \<Rightarrow> Some (((a * 16 + b) * 16 + c) * 16 + d)
      | _ \<Rightarrow> None)"

definition utf8_of_rune :: "nat \<Rightarrow> string" where
  "utf8_of_rune r =
     (if r < 128 then [char_of r]
      else if r < 2048 then [char_of (192 + r div 64), char_of (128 + r mod 64)]
      else if r < 65536 then [char_of (224 + r div 4096), char_of (128 + r div 64 mod 64), char_of (128 + r mod 64)]
      else [char_of (240 + r div 262144), char_of (128 + r div 4096 mod 64), char_of (128 + r div 64 mod 64),
            char_of (128 + r mod 64)])"

definition is_surrogate :: "nat \<Rightarrow> bool" where
  "is_surrogate r \<longleftrightarrow> in_range 55296 57343 r"

text \<open>\<^verbatim>\<open>utf16.DecodeRune\<close> on an escaped pair; \<open>None\<close> for its U+FFFD.\<close>

definition decode_pair :: "nat \<Rightarrow> nat \<Rightarrow> nat option" where
  "decode_pair r1 r2 =
     (if in_range 55296 56319 r1 \<and> in_range 56320 57343 r2
      then Some ((r1 - 55296) * 1024 + (r2 - 56320) + 65536) else None)"

definition pair_at :: "nat \<Rightarrow> string \<Rightarrow> nat option" where
  "pair_at r1 rest =
     (case rest of
        b # u # g1 # g2 # g3 # g4 # _ \<Rightarrow>
          if b = CHR 0x5C \<and> u = CHR ''u'' then Option.bind (hex4 g1 g2 g3 g4) (decode_pair r1) else None
      | _ \<Rightarrow> None)"

definition simple_escape :: "char \<Rightarrow> char option" where
  "simple_escape d =
     (if d = CHR 0x22 \<or> d = CHR 0x5C \<or> d = CHR ''/'' then Some d
      else if d = CHR ''b'' then Some CHR 0x08 else if d = CHR ''f'' then Some CHR 0x0C
      else if d = CHR ''n'' then Some CHR 0x0A else if d = CHR ''r'' then Some CHR 0x0D
      else if d = CHR ''t'' then Some CHR 0x09 else None)"

fun read_string :: "string \<Rightarrow> (string \<times> string) option" where
  "read_string [] = None"
| "read_string (c # s) =
     (if c = CHR 0x22 then Some ([], s)
      else if byte c < 32 then None
      else if c = CHR 0x5C then
        (case s of
           [] \<Rightarrow> None
         | d # s' \<Rightarrow>
             if d = CHR ''u'' then
               (case s' of
                  h1 # h2 # h3 # h4 # rest \<Rightarrow>
                    (case hex4 h1 h2 h3 h4 of
                       None \<Rightarrow> None
                     | Some r \<Rightarrow>
                         if is_surrogate r then
                           (case pair_at r rest of
                              Some p \<Rightarrow> map_option (apfst ((@) (utf8_of_rune p))) (read_string (drop 6 rest))
                            | None \<Rightarrow> map_option (apfst ((@) (utf8_of_rune 65533))) (read_string rest))
                         else map_option (apfst ((@) (utf8_of_rune r))) (read_string rest))
                | _ \<Rightarrow> None)
             else
               (case simple_escape d of
                  None \<Rightarrow> None
                | Some e \<Rightarrow> map_option (apfst ((#) e)) (read_string s')))
      else map_option (apfst ((#) c)) (read_string s))"

lemma char_of_byte [simp]: "char_of (byte c) = c"
  by (simp add: byte_def)

lemma byte_eq_iff: "byte c = byte d \<longleftrightarrow> c = d"
  by (simp add: byte_def)

definition good_segment :: "nat \<times> string \<Rightarrow> bool" where
  "good_segment seg \<longleftrightarrow>
     (\<exists>c. snd seg = [c] \<and> byte c = fst seg \<and> fst seg < 128)
     \<or> (128 \<le> fst seg \<and> (\<forall>c \<in> set (snd seg). 128 \<le> byte c)
        \<and> (fst seg = 8232 \<or> fst seg = 8233 \<longrightarrow> snd seg = utf8_of_rune (fst seg)))"

lemma rune_width_cases:
  assumes "rune_width (b # r) = w"
  obtains (bad) "w = 0"
  | (one) "w = 1" "b < 128"
  | (two) b1 t where "w = 2" "r = b1 # t" "in_range 194 223 b" "cont b1"
  | (three) b1 b2 t where "w = 3" "r = b1 # b2 # t" "in_range 224 239 b"
      "in_range (if b = 224 then 160 else 128) (if b = 237 then 159 else 191) b1" "cont b2"
  | (four) b1 b2 b3 t where "w = 4" "r = b1 # b2 # b3 # t" "in_range 240 244 b"
      "in_range (if b = 240 then 144 else 128) (if b = 244 then 143 else 191) b1" "cont b2" "cont b3"
proof -
  consider "r = []" | b1 where "r = [b1]" | b1 b2 where "r = [b1, b2]"
    | b1 b2 b3 t where "r = b1 # b2 # b3 # t"
    by (metis neq_Nil_conv)
  then show thesis
    using assms that
    by cases (auto simp: rune_width.simps split: if_splits)
qed

lemma three_byte_rune:
  fixes b0 b1 b2 :: nat
  assumes "(b0 - 224) * 4096 + (b1 - 128) * 64 + (b2 - 128) = r" and "r = 8232 \<or> r = 8233"
    and "in_range 224 239 b0" and "in_range 128 191 b1" and "in_range 128 191 b2"
  shows "b0 = 226 \<and> b1 = 128 \<and> b2 = 128 + r mod 64"
proof -
  define x y z where xyz: "x = b0 - 224" "y = b1 - 128" "z = b2 - 128"
  have "y < 64" "z < 64" "x < 16" using assms(3-5) by (auto simp: xyz in_range_def)
  moreover have "x * 4096 + y * 64 + z = r" using assms(1) by (simp add: xyz)
  moreover from calculation have "x = 2" using assms(2) by linarith
  moreover from calculation have "y = 0" using assms(2) by linarith
  ultimately have *: "x = 2 \<and> y = 0 \<and> z = r - 8192" by simp
  have "r - 8192 = r mod 64" using assms(2) by auto
  with * have "x = 2 \<and> y = 0 \<and> z = r mod 64" by simp
  then show ?thesis using assms(3-5) by (auto simp: xyz in_range_def)
qed

lemma head_segment:
  assumes "bs = map byte (c # s)" and "w = max 1 (rune_width bs)"
  shows "ill_formed (rune_at bs, take w (c # s)) \<or> good_segment (rune_at bs, take w (c # s))"
proof -
  have bs: "bs = byte c # map byte s" using assms(1) by simp
  show ?thesis
  proof (cases rule: rune_width_cases [OF refl, of "byte c" "map byte s", folded bs, case_names bad one two three four])
    case bad
    then show ?thesis using assms by (simp add: ill_formed_def rune_at_def)
  next
    case one
    then show ?thesis using assms by (simp add: good_segment_def rune_at_def)
  next
    case (two b1 t)
    then obtain c1 s1 where s: "s = c1 # s1" and b1: "b1 = byte c1" by auto
    have "128 \<le> rune_at bs \<and> rune_at bs < 8000"
      using two by (auto simp: rune_at_def bs in_range_def cont_def numeral_2_eq_2)
    then show ?thesis using two assms s b1
      by (auto simp: good_segment_def in_range_def cont_def)
  next
    case (three b1 b2 t)
    then obtain c1 c2 s2 where s: "s = c1 # c2 # s2" and b: "b1 = byte c1" "b2 = byte c2" by auto
    have r: "rune_at bs = (byte c - 224) * 4096 + (b1 - 128) * 64 + (b2 - 128)"
      using three by (simp add: rune_at_def bs numeral_3_eq_3)
    have "128 \<le> rune_at bs"
      using three r by (cases "byte c = 224") (auto simp: in_range_def cont_def)
    moreover have "rune_at bs = 8232 \<or> rune_at bs = 8233 \<Longrightarrow> [c, c1, c2] = utf8_of_rune (rune_at bs)"
    proof -
      assume "rune_at bs = 8232 \<or> rune_at bs = 8233"
      moreover have "byte c = 226 \<and> b1 = 128 \<and> b2 = 128 + rune_at bs mod 64"
        by (rule three_byte_rune [OF r [symmetric] calculation])
          (use three in \<open>auto simp: in_range_def cont_def split: if_splits\<close>)
      then have "c = char_of (226::nat)" "c1 = char_of (128::nat)" "c2 = char_of (128 + rune_at bs mod 64)"
        using b by (metis char_of_byte)+
      ultimately show ?thesis by (auto simp: utf8_of_rune_def)
    qed
    ultimately show ?thesis using three assms s b
      by (auto simp: good_segment_def in_range_def cont_def numeral_3_eq_3 split: if_splits)
  next
    case (four b1 b2 b3 t)
    then obtain c1 c2 c3 s3 where s: "s = c1 # c2 # c3 # s3"
      and b: "b1 = byte c1" "b2 = byte c2" "b3 = byte c3" by auto
    have r: "rune_at bs = (byte c - 240) * 262144 + (b1 - 128) * 4096 + (b2 - 128) * 64 + (b3 - 128)"
    proof -
      have "rune_width bs = Suc (Suc (Suc (Suc 0)))" using four by simp
      then show ?thesis using four by (simp add: rune_at_def bs)
    qed
    have "8300 < rune_at bs"
      using four r by (cases "byte c = 240") (auto simp: in_range_def cont_def)
    then show ?thesis using four assms s b
      by (auto simp: good_segment_def in_range_def cont_def split: if_splits)
  qed
qed

lemma scan_segments: "seg \<in> set (scan s) \<Longrightarrow> ill_formed seg \<or> good_segment seg"
proof (induction s arbitrary: seg rule: scan.induct)
  case 1
  then show ?case by simp
next
  case (2 c s)
  let ?w = "max 1 (rune_width (map byte (c # s)))"
  from "2.prems" have "seg = (rune_at (map byte (c # s)), take ?w (c # s))
      \<or> seg \<in> set (scan (drop ?w (c # s)))"
    by (simp only: scan.simps Let_def list.set insert_iff)
  then show ?case
    using head_segment [OF refl refl, of c s] "2.IH" [OF refl refl] by blast
qed

lemma read_raw:
  "\<forall>c \<in> set w. 128 \<le> byte c \<Longrightarrow>
   read_string (w @ rest) = map_option (apfst ((@) w)) (read_string rest)"
proof (induction w)
  case Nil
  then show ?case by (cases "read_string rest") auto
next
  case (Cons c w)
  then have "c \<noteq> CHR 0x22 \<and> c \<noteq> CHR 0x5C \<and> \<not> byte c < 32" by (auto simp: byte_def)
  with Cons show ?case
    by (simp add: option.map_comp o_def apfst_compose)
qed

lemma hex_digit_val_hex_char: "n < 16 \<Longrightarrow> hex_digit_val (hex_char n) = Some n"
  by (auto simp: hex_digit_val_def is_digit_def in_range_def byte_hex_char)

lemma nibbles: "(n :: nat) < 65536 \<Longrightarrow>
  ((n div 4096 mod 16 * 16 + n div 256 mod 16) * 16 + n div 16 mod 16) * 16 + n mod 16 = n"
proof -
  assume "n < 65536"
  then have "n div 4096 mod 16 = n div 4096" by (simp add: less_mult_imp_div_less)
  moreover have "n div 4096 = n div 256 div 16" "n div 256 = n div 16 div 16"
    by (simp_all add: div_mult2_eq [symmetric])
  ultimately show ?thesis
    by (metis div_mult_mod_eq)
qed

lemma read_hex4:
  assumes "h1 < 16" and "h2 < 16" and "h3 < 16" and "h4 < 16"
    and "\<not> is_surrogate (((h1 * 16 + h2) * 16 + h3) * 16 + h4)"
  shows "read_string ([CHR 0x5C, CHR ''u'', hex_char h1, hex_char h2, hex_char h3, hex_char h4] @ rest)
    = map_option (apfst ((@) (utf8_of_rune (((h1 * 16 + h2) * 16 + h3) * 16 + h4)))) (read_string rest)"
  using assms by (simp add: hex4_def hex_digit_val_hex_char byte_def)

lemma read_escape_u:
  assumes "r < 65536" and "\<not> is_surrogate r"
  shows "read_string (escape_u r @ rest) = map_option (apfst ((@) (utf8_of_rune r))) (read_string rest)"
proof -
  have "escape_u r = [CHR 0x5C, CHR ''u'', hex_char (r div 4096 mod 16), hex_char (r div 256 mod 16),
      hex_char (r div 16 mod 16), hex_char (r mod 16)]"
    by (simp add: escape_u_def upt_rec)
  moreover have "r div 4096 mod 16 < 16" "r div 256 mod 16 < 16" "r div 16 mod 16 < 16" "r mod 16 < 16"
    by simp_all
  ultimately show ?thesis
    using read_hex4 [of "r div 4096 mod 16" "r div 256 mod 16" "r div 16 mod 16" "r mod 16" rest] assms(2)
    by (simp only: nibbles [OF assms(1)] not_False_eq_True)
qed

lemma byte_values:
  "byte CHR 0x08 = 8" "byte CHR 0x09 = 9" "byte CHR 0x0A = 10" "byte CHR 0x0C = 12"
  "byte CHR 0x0D = 13" "byte CHR 0x22 = 34" "byte CHR 0x5C = 92"
  by (simp_all add: byte_def)

lemma byte_escapes:
  "byte c = 8 \<Longrightarrow> c = CHR 0x08" "byte c = 9 \<Longrightarrow> c = CHR 0x09" "byte c = 10 \<Longrightarrow> c = CHR 0x0A"
  "byte c = 12 \<Longrightarrow> c = CHR 0x0C" "byte c = 13 \<Longrightarrow> c = CHR 0x0D" "byte c = 34 \<Longrightarrow> c = CHR 0x22"
  "byte c = 92 \<Longrightarrow> c = CHR 0x5C"
  by (simp_all add: byte_eq_iff [symmetric] byte_values)

lemma read_control: "r < 32 \<Longrightarrow> utf8_of_rune r = [char_of r]"
  by (simp add: utf8_of_rune_def)

lemma read_good_segment:
  assumes "good_segment seg" and "\<not> ill_formed seg"
  shows "read_string (escape_segment seg @ rest) = map_option (apfst ((@) (snd seg))) (read_string rest)"
proof -
  consider (ascii) c where "seg = (byte c, [c])" "byte c < 128"
    | (sep) "fst seg = 8232 \<or> fst seg = 8233" "snd seg = utf8_of_rune (fst seg)"
    | (raw) "128 \<le> fst seg" "\<forall>c \<in> set (snd seg). 128 \<le> byte c" "fst seg \<noteq> 8232" "fst seg \<noteq> 8233"
    using assms(1) by (cases seg) (auto simp: good_segment_def)
  then show ?thesis
  proof cases
    case ascii
    show ?thesis
    proof (cases "byte c < 32")
      case True
      then show ?thesis
        using read_escape_u [of "byte c" rest] ascii
        by (cases "read_string rest")
          (auto simp: escape_segment_def Let_def read_control is_surrogate_def in_range_def simple_escape_def byte_values dest: byte_escapes)
    next
      case False
      then show ?thesis
        using ascii
        by (cases "read_string rest")
          (auto simp: escape_segment_def Let_def ill_formed_def byte_values simple_escape_def dest: byte_escapes)
    qed
  next
    case sep
    then show ?thesis
      using assms(2) read_escape_u [of "fst seg" rest]
      by (auto simp: escape_segment_def Let_def is_surrogate_def in_range_def)
  next
    case raw
    then show ?thesis
      using assms(2) read_raw [of "snd seg" rest] by (simp add: escape_segment_def Let_def)
  qed
qed

lemma read_segments:
  "\<forall>seg \<in> set segs. good_segment seg \<and> \<not> ill_formed seg \<Longrightarrow>
   read_string (concat (map escape_segment segs) @ [CHR 0x22] @ rest) = Some (concat (map snd segs), rest)"
  by (induction segs) (simp_all add: read_good_segment)

lemma read_print_string:
  assumes "valid_string s"
  shows "read_string (tl (print_string s @ rest)) = Some (s, rest)"
proof -
  have "\<forall>seg \<in> set (scan s). good_segment seg \<and> \<not> ill_formed seg"
    using assms scan_segments by (auto simp: valid_string_def list_ex_iff)
  from read_segments [OF this, of rest] show ?thesis
    by (simp add: print_string_def concat_scan)
qed

lemma print_string_prefix_free:
  assumes "valid_string s" and "valid_string t" and "print_string s @ x = print_string t @ y"
  shows "s = t \<and> x = y"
  using read_print_string [OF assms(1), of x] read_print_string [OF assms(2), of y]
  unfolding assms(3) by simp


end
