(* ===== verification/Identifiers.thy ===== *)
theory Identifiers
  imports Digest
begin

text \<open>
  \<^verbatim>\<open>pkg/volume/identifiers.go\<close> and \<^verbatim>\<open>pkg/volume/path.go\<close>: the closed formats of every identifier
  that may reach a path, a record or the CSI wire, and the derivation of directory names and
  lifecycle targets. A regular expression of the source is written as the predicate it
  denotes; a fixed-length one is a list of character classes (\<open>matches_classes\<close>).
\<close>

section \<open>Constants and patterns\<close>

definition SchemaVersionV1 :: string where
  "SchemaVersionV1 = ''1''"

definition MaxHandleBytes :: nat where
  "MaxHandleBytes = 128"

definition MaxContextEntryBytes :: nat where
  "MaxContextEntryBytes = 128"

definition MaxContextBytes :: nat where
  "MaxContextBytes = 4 * 1024"

definition MaxDirectoryNameBytes :: nat where
  "MaxDirectoryNameBytes = MaxContextEntryBytes"

fun matches_classes :: "(char \<Rightarrow> bool) list \<Rightarrow> string \<Rightarrow> bool" where
  "matches_classes [] [] = True"
| "matches_classes (p # ps) (c # s) = (p c \<and> matches_classes ps s)"
| "matches_classes _ _ = False"

definition lit :: "string \<Rightarrow> (char \<Rightarrow> bool) list" where
  "lit s = map (\<lambda>d c. c = d) s"

text \<open>\<^verbatim>\<open>^[a-z0-9](?:[a-z0-9-]*[a-z0-9])?$\<close>, one DNS label.\<close>

definition poolNamePattern :: "string \<Rightarrow> bool" where
  "poolNamePattern s \<longleftrightarrow>
     s \<noteq> [] \<and> list_all (\<lambda>c. is_lower_alnum c \<or> c = CHR ''-'') s
     \<and> is_lower_alnum (hd s) \<and> is_lower_alnum (last s)"

text \<open>Two or more such labels joined by dots.\<close>

definition driverNamePattern :: "string \<Rightarrow> bool" where
  "driverNamePattern s \<longleftrightarrow>
     2 \<le> length (split_on CHR ''.'' s) \<and> list_all poolNamePattern (split_on CHR ''.'' s)"

text \<open>\<^verbatim>\<open>^[0-9a-f]{8}-[0-9a-f]{4}-[1-5][0-9a-f]{3}-[89ab][0-9a-f]{3}-[0-9a-f]{12}$\<close>\<close>

definition uuidPattern :: "string \<Rightarrow> bool" where
  "uuidPattern s \<longleftrightarrow>
     matches_classes
       (replicate 8 is_hex @ lit ''-'' @ replicate 4 is_hex @ lit ''-''
        @ [\<lambda>c. in_range 49 53 (byte c)] @ replicate 3 is_hex @ lit ''-''
        @ [\<lambda>c. c \<in> set ''89ab''] @ replicate 3 is_hex @ lit ''-'' @ replicate 12 is_hex) s"

text \<open>\<^verbatim>\<open>^[A-Za-z0-9][A-Za-z0-9._:-]*$\<close>\<close>

definition is_alnum :: "char \<Rightarrow> bool" where
  "is_alnum c \<longleftrightarrow> is_lower_alnum c \<or> is_upper c"

definition providerIDPattern :: "string \<Rightarrow> bool" where
  "providerIDPattern s \<longleftrightarrow>
     s \<noteq> [] \<and> is_alnum (hd s) \<and> list_all (\<lambda>c. is_alnum c \<or> c \<in> set ''._:-'') s"

text \<open>\<^verbatim>\<open>^[a-z0-9]+(?:-[a-z0-9]+)*$\<close>\<close>

definition nodeZonePattern :: "string \<Rightarrow> bool" where
  "nodeZonePattern s \<longleftrightarrow>
     list_all (\<lambda>w. w \<noteq> [] \<and> list_all is_lower_alnum w) (split_on CHR ''-'' s)"

text \<open>\<^verbatim>\<open>^xx-[0-9a-f]{32}$\<close> for the prefixes \<^verbatim>\<open>lv\<close>, \<^verbatim>\<open>mh\<close>, \<^verbatim>\<open>rh\<close>, \<^verbatim>\<open>bp\<close> and \<^verbatim>\<open>vh\<close>.\<close>

definition hash_pattern :: "string \<Rightarrow> string \<Rightarrow> bool" where
  "hash_pattern prefix s \<longleftrightarrow> matches_classes (lit prefix @ replicate 32 is_hex) s"

section \<open>Validators\<close>

definition ValidateDriverName :: "string \<Rightarrow> error option" where
  "ValidateDriverName name = errs
     [ensure (valid_string name \<and> name \<noteq> [] \<and> length name \<le> 63)
        ''driver name must contain 1 to 63 UTF-8 bytes'',
      ensure (driverNamePattern name) ''driver name must be a lowercase reverse-domain name'']"

definition ValidateOperationID :: "string \<Rightarrow> error option" where
  "ValidateOperationID ident = ensure (uuidPattern ident) ''operation ID must be a lowercase RFC 4122 UUID''"

definition ValidateNodeID :: "string \<Rightarrow> error option" where
  "ValidateNodeID ident = errs
     [ensure (valid_string ident \<and> ident \<noteq> [] \<and> length ident \<le> MaxContextEntryBytes)
        ''node ID must contain 1 to 128 UTF-8 bytes'',
      ensure (case split_on CHR ''/'' ident of
                [zone, server] \<Rightarrow> nodeZonePattern zone \<and> providerIDPattern server
              | _ \<Rightarrow> False)
        ''node ID must match <zone>/<serverID>'']"

definition ValidateInstallationID :: "string \<Rightarrow> error option" where
  "ValidateInstallationID ident =
     ensure (uuidPattern ident) ''installation ID must be a lowercase RFC 4122 UUID''"

definition ValidateClusterUID :: "string \<Rightarrow> error option" where
  "ValidateClusterUID uid = errs
     [ensure (valid_string uid \<and> uid \<noteq> [] \<and> length uid \<le> MaxContextEntryBytes)
        ''active cluster UID must contain 1 to 128 UTF-8 bytes'',
      ensure (\<not> contains_any uid [CHR ''/'', CHR 0x00, CHR 0x0D, CHR 0x0A])
        ''active cluster UID contains a forbidden character'']"

definition ValidatePoolName :: "string \<Rightarrow> error option" where
  "ValidatePoolName name =
     ensure (name \<noteq> [] \<and> length name \<le> 63 \<and> poolNamePattern name)
       ''pool name must be a lowercase DNS label of at most 63 bytes''"

definition ValidateParentFilesystemID :: "string \<Rightarrow> error option" where
  "ValidateParentFilesystemID ident = errs
     [ensure (valid_string ident \<and> ident \<noteq> [] \<and> length ident \<le> MaxContextEntryBytes)
        ''parent filesystem ID must contain 1 to 128 UTF-8 bytes'',
      ensure (providerIDPattern ident) ''parent filesystem ID contains unsafe characters'']"

definition ValidateLogicalVolumeID :: "string \<Rightarrow> error option" where
  "ValidateLogicalVolumeID ident =
     ensure (hash_pattern ''lv-'' ident) ''logical volume ID does not match the v1 format''"

definition validateMappingHash :: "string \<Rightarrow> error option" where
  "validateMappingHash h = ensure (hash_pattern ''mh-'' h) ''mapping hash does not match the v1 format''"

definition validateRequestHash :: "string \<Rightarrow> error option" where
  "validateRequestHash h = ensure (hash_pattern ''rh-'' h) ''request hash does not match the v1 format''"

definition validateBasePathHash :: "string \<Rightarrow> error option" where
  "validateBasePathHash h = ensure (hash_pattern ''bp-'' h) ''base path hash does not match the v1 format''"

definition validateVolumeHandleHash :: "string \<Rightarrow> error option" where
  "validateVolumeHandleHash h =
     ensure (hash_pattern ''vh-'' h) ''volume handle hash does not match the v1 format''"

section \<open>Paths\<close>

definition directorySuffixBytes :: nat where
  "directorySuffixBytes = 12"

definition maxFilesystemComponentBytes :: nat where
  "maxFilesystemComponentBytes = 255"

definition reservedDirectoryNames :: "string list" where
  "reservedDirectoryNames = [''.archived'', ''.deleted'', ''.sfs-subdir-csi'']"

definition parentOwnerNamespace :: string where
  "parentOwnerNamespace = ''.sfs-subdir-csi-owner''"

text \<open>\<^verbatim>\<open>^[a-z0-9][a-z0-9._-]*$\<close>\<close>

definition safeDirectoryPattern :: "string \<Rightarrow> bool" where
  "safeDirectoryPattern s \<longleftrightarrow>
     s \<noteq> [] \<and> is_lower_alnum (hd s) \<and> list_all (\<lambda>c. is_lower_alnum c \<or> c \<in> set ''._-'') s"

definition ValidateBasePath :: "string \<Rightarrow> error option" where
  "ValidateBasePath basePath =
     (let components = split_on CHR ''/'' (trim_prefix basePath ''/'')
      in errs
        [ensure (valid_string basePath \<and> basePath \<noteq> []) ''base path must be non-empty valid UTF-8'',
         ensure (has_prefix basePath ''/'') ''base path must be absolute'',
         ensure (basePath \<noteq> ''/'') ''base path must not be the filesystem root'',
         ensure (path_clean basePath = basePath) ''base path must be normalized'',
         ensure (CHR 0x00 \<notin> set basePath) ''base path contains NUL'',
         ensure (length basePath \<le> MaxContextEntryBytes) ''base path exceeds CSI context limit'',
         ensure (\<not> has_prefix (hd components) parentOwnerNamespace)
           ''base path uses the reserved parent-owner namespace'',
         ensure (list_all (\<lambda>w. w \<noteq> [] \<and> w \<noteq> ''.'' \<and> w \<noteq> ''..'') components)
           ''base path contains an unsafe component''])"

definition ValidateDirectoryName :: "string \<Rightarrow> error option" where
  "ValidateDirectoryName name = errs
     [ensure (valid_string name \<and> name \<noteq> [] \<and> length name \<le> MaxDirectoryNameBytes)
        ''directory name must contain 1 to 128 UTF-8 bytes'',
      ensure (safeDirectoryPattern name) ''directory name contains unsupported characters'',
      ensure (\<not> contains_sub name ''..'' \<and> CHR ''/'' \<notin> set name) ''directory name contains path traversal'',
      ensure (name \<notin> set reservedDirectoryNames) ''directory name is reserved for driver state'']"

text \<open>
  \<^verbatim>\<open>sanitizeDirectorySegment\<close>: one pass over the lowered runes with the output built so far
  (newest character first) and the flag \<^verbatim>\<open>lastSeparator\<close>.
\<close>

definition safe_rune :: "nat \<Rightarrow> bool" where
  "safe_rune r \<longleftrightarrow> in_range 97 122 r \<or> in_range 48 57 r \<or> r = 45 \<or> r = 95 \<or> r = 46"

fun sanitize_step :: "string \<times> bool \<Rightarrow> nat \<Rightarrow> string \<times> bool" where
  "sanitize_step (out, lastSeparator) r =
     (if safe_rune r then
        (if r = 46 \<and> lastSeparator then (out, lastSeparator)
         else (char_of r # out, r = 46))
      else if out \<noteq> [] \<and> \<not> lastSeparator then (CHR ''-'' # out, True)
      else (out, lastSeparator))"

definition sanitizeDirectorySegment :: "string \<Rightarrow> string" where
  "sanitizeDirectorySegment input =
     trim ''.-_'' (rev (fst (foldl sanitize_step ([], False) (to_lower_runes input))))"

definition DirectoryName :: "string \<Rightarrow> string \<Rightarrow> string \<Rightarrow> string res" where
  "DirectoryName namespace pvcName logicalVolumeID =
     require (ValidateLogicalVolumeID logicalVolumeID)
       (if namespace = [] \<or> pvcName = [] then Inr logicalVolumeID
        else
          let suffix = take directorySuffixBytes (trim_prefix logicalVolumeID ''lv-'');
              prefix = sanitizeDirectorySegment namespace @ ''--'' @ sanitizeDirectorySegment pvcName;
              maxPrefix = MaxDirectoryNameBytes - length ''--'' - length suffix;
              prefix = (if length prefix > maxPrefix then trim_right ''.-_'' (take maxPrefix prefix)
                        else prefix);
              prefix = (if prefix = [] then ''volume'' else prefix);
              name = prefix @ ''--'' @ suffix
          in require (ValidateDirectoryName name) (Inr name))"

definition validateRequiredTimestamp :: "string \<Rightarrow> string \<Rightarrow> error option" where
  "validateRequiredTimestamp name value = errs
     [ensure (value \<noteq> []) (name @ '' is required''),
      ensure (canonical_rfc3339 value) (name @ '' must be canonical RFC 3339 UTC'')]"

text \<open>
  The timestamp is lowered before its punctuation is removed; a canonical one is ASCII, so
  lowering is the byte-wise map.
\<close>

definition lower_ascii :: "string \<Rightarrow> string" where
  "lower_ascii s = map (\<lambda>c. if is_upper c then char_of (byte c + 32) else c) s"

definition lifecycle_component :: "string \<Rightarrow> string \<Rightarrow> string \<Rightarrow> string \<Rightarrow> string" where
  "lifecycle_component directoryName logicalVolumeID timestamp operationID =
     directoryName @ ''-'' @ logicalVolumeID @ ''-''
       @ remove_chars '':.-'' (lower_ascii timestamp) @ ''-'' @ operationID"

definition ManagedLifecycleTarget ::
  "string \<Rightarrow> string \<Rightarrow> string \<Rightarrow> string \<Rightarrow> string \<Rightarrow> string \<Rightarrow> string res" where
  "ManagedLifecycleTarget basePath managedDirectory directoryName logicalVolumeID timestamp operationID =
     require (errs
       [ValidateBasePath basePath,
        ensure (managedDirectory = ''.archived'' \<or> managedDirectory = ''.deleted'')
          ''managed lifecycle directory is unsupported'',
        ValidateDirectoryName directoryName,
        ValidateLogicalVolumeID logicalVolumeID,
        validateRequiredTimestamp ''lifecycle timestamp'' timestamp,
        ValidateOperationID operationID,
        ensure (length (lifecycle_component directoryName logicalVolumeID timestamp operationID)
                  \<le> maxFilesystemComponentBytes)
          ''managed lifecycle component exceeds 255 bytes''])
     (Inr (path_join [basePath, managedDirectory,
             lifecycle_component directoryName logicalVolumeID timestamp operationID]))"

section \<open>Consequences of validation\<close>

lemma matches_classes_length: "matches_classes ps s \<Longrightarrow> length s = length ps"
  by (induction ps s rule: matches_classes.induct) simp_all

lemma matches_classes_append:
  "matches_classes (ps @ qs) s \<longleftrightarrow>
   matches_classes ps (take (length ps) s) \<and> matches_classes qs (drop (length ps) s)"
proof (induction ps arbitrary: s)
  case Nil
  then show ?case by simp
next
  case (Cons p ps)
  then show ?case by (cases s) simp_all
qed

lemma matches_classes_lit [simp]: "matches_classes (lit p) s \<longleftrightarrow> s = p"
proof (induction p arbitrary: s)
  case Nil
  then show ?case by (cases s) (simp_all add: lit_def)
next
  case (Cons c p)
  then show ?case by (cases s) (auto simp: lit_def)
qed

lemma matches_classes_replicate [simp]:
  "matches_classes (replicate n P) s \<longleftrightarrow> length s = n \<and> list_all P s"
proof (induction n arbitrary: s)
  case 0
  then show ?case by (cases s) simp_all
next
  case (Suc n)
  then show ?case by (cases s) auto
qed

lemma length_lit [simp]: "length (lit p) = length p"
  by (simp add: lit_def)

lemma hash_pattern_iff:
  "hash_pattern prefix s \<longleftrightarrow> (\<exists>h. s = prefix @ h \<and> length h = 32 \<and> list_all is_hex h)"
proof -
  have "hash_pattern prefix s \<longleftrightarrow>
      take (length prefix) s = prefix \<and> length (drop (length prefix) s) = 32
      \<and> list_all is_hex (drop (length prefix) s)"
    by (simp add: hash_pattern_def matches_classes_append del: length_drop)
  also have "\<dots> \<longleftrightarrow> (\<exists>h. s = prefix @ h \<and> length h = 32 \<and> list_all is_hex h)"
    by (metis append_eq_conv_conj append_take_drop_id)
  finally show ?thesis .
qed

lemma uuid_length: "uuidPattern s \<Longrightarrow> length s = 36"
  unfolding uuidPattern_def by (drule matches_classes_length) simp

text \<open>The characters of a UUID and of the hash identifiers contain no slash and no dot.\<close>

definition ident_char :: "char \<Rightarrow> bool" where
  "ident_char c \<longleftrightarrow> is_lower_alnum c \<or> c = CHR ''-''"

lemma matches_classes_all:
  "matches_classes ps s \<Longrightarrow> (\<And>p c. p \<in> set ps \<Longrightarrow> p c \<Longrightarrow> P c) \<Longrightarrow> list_all P s"
  by (induction ps s rule: matches_classes.induct) auto

lemma hex_ident_char: "is_hex c \<Longrightarrow> ident_char c"
  by (simp add: ident_char_def is_hex_lower_alnum)

lemma uuid_chars: "uuidPattern s \<Longrightarrow> list_all ident_char s"
  unfolding uuidPattern_def
  by (erule matches_classes_all)
     (auto simp: lit_def hex_ident_char ident_char_def char_class_defs)

lemma hash_pattern_chars: "hash_pattern p s \<Longrightarrow> list_all ident_char p \<Longrightarrow> list_all ident_char s"
  by (auto simp: hash_pattern_iff list_all_iff hex_ident_char)

lemma ident_char_not_slash: "ident_char c \<Longrightarrow> c \<noteq> CHR ''/'' \<and> c \<noteq> CHR ''.''"
  by (auto simp: ident_char_def char_class_defs)

lemma hash_pattern_length: "hash_pattern p s \<Longrightarrow> length s = length p + 32"
  by (auto simp: hash_pattern_iff)

text \<open>A validated base path is a non-empty list of plain components.\<close>

lemma valid_base_path:
  assumes "ValidateBasePath b = None"
  obtains ws where "b = abs_path ws" "ws \<noteq> []" "\<forall>w \<in> set ws. plain_component w"
    "\<not> has_prefix (hd ws) parentOwnerNamespace"
proof -
  let ?ws = "split_on CHR ''/'' (trim_prefix b ''/'')"
  from assms have slash: "has_prefix b ''/''"
    and comps: "list_all (\<lambda>w. w \<noteq> [] \<and> w \<noteq> ''.'' \<and> w \<noteq> ''..'') ?ws"
    and ns: "\<not> has_prefix (hd ?ws) parentOwnerNamespace"
    by (simp_all add: ValidateBasePath_def Let_def)
  from slash obtain r where b: "b = CHR ''/'' # r"
    by (cases b) auto
  then have "trim_prefix b ''/'' = r" by (simp add: trim_prefix_def)
  moreover have "b = abs_path (split_on CHR ''/'' r)"
    using join_split [of "CHR ''/''" r] by (simp add: abs_path_def b)
  moreover have "\<forall>w \<in> set ?ws. plain_component w"
    using comps split_on_parts by (fastforce simp: list_all_iff plain_component_def)
  ultimately show thesis using ns that by simp
qed

lemma valid_directory_name:
  assumes "ValidateDirectoryName n = None"
  shows "plain_component n" and "\<not> has_prefix n ''.''" and "length n \<le> 128"
proof -
  from assms have "safeDirectoryPattern n" "CHR ''/'' \<notin> set n" "length n \<le> 128"
    by (simp_all add: ValidateDirectoryName_def MaxDirectoryNameBytes_def MaxContextEntryBytes_def)
  moreover from this obtain c r where "n = c # r" "is_lower_alnum c"
    by (cases n) (auto simp: safeDirectoryPattern_def)
  ultimately show "plain_component n" "\<not> has_prefix n ''.''" "length n \<le> 128"
    by (auto simp: plain_component_def char_class_defs)
qed

lemma path_join_below:
  assumes "ValidateBasePath b = None" and "ws \<noteq> []" and "\<forall>w \<in> set ws. plain_component w"
  shows "path_join (b # ws) = b @ ''/'' @ join_with ''/'' ws"
    and "path_clean (b @ ''/'' @ join_with ''/'' ws) = b @ ''/'' @ join_with ''/'' ws"
proof -
  obtain vs where vs: "b = abs_path vs" "vs \<noteq> []" "\<forall>w \<in> set vs. plain_component w"
    using valid_base_path [OF assms(1)] by metis
  have all: "\<forall>w \<in> set (vs @ ws). plain_component w" using vs(3) assms(3) by auto
  have eq: "abs_path (vs @ ws) = b @ ''/'' @ join_with ''/'' ws"
    using abs_path_snoc [OF vs(2) assms(2)] vs(1) by simp
  show clean: "path_clean (b @ ''/'' @ join_with ''/'' ws) = b @ ''/'' @ join_with ''/'' ws"
    using path_clean_abs_path [OF all] vs(2) eq by simp
  have "filter (\<lambda>e. e \<noteq> []) (b # ws) = b # ws"
    using assms(3) vs(1) by (auto simp: filter_id_conv plain_component_def abs_path_def)
  moreover have "join_with ''/'' (b # ws) = b @ ''/'' @ join_with ''/'' ws"
    using assms(2) join_with_append [of "[b]" ws "''/''"] by (simp add: join_with_def)
  ultimately show "path_join (b # ws) = b @ ''/'' @ join_with ''/'' ws"
    using clean by (simp add: path_join_def Let_def)
qed

section \<open>Directory names\<close>

text \<open>\<open>no_dots\<close>: no two dots in a row, which is what \<^verbatim>\<open>strings.Contains(name, "..")\<close> rejects.\<close>

definition no_dots :: "string \<Rightarrow> bool" where
  "no_dots s \<longleftrightarrow> successively (\<lambda>a b. \<not> (a = CHR ''.'' \<and> b = CHR ''.'')) s"

lemma contains_dots_iff: "contains_sub s ''..'' \<longleftrightarrow> \<not> no_dots s"
  by (induction s rule: induct_list012) (auto simp: no_dots_def)

lemma no_dots_append:
  "no_dots (a @ b) \<longleftrightarrow> no_dots a \<and> no_dots b
     \<and> (a = [] \<or> b = [] \<or> \<not> (last a = CHR ''.'' \<and> hd b = CHR ''.''))"
  by (auto simp: no_dots_def successively_append_iff)

lemma no_dots_free: "CHR ''.'' \<notin> set s \<Longrightarrow> no_dots s"
  by (induction s rule: induct_list012) (auto simp: no_dots_def)

lemma no_dots_prefix: "no_dots (a @ b) \<Longrightarrow> no_dots a"
  by (simp add: no_dots_append)

lemma no_dots_Cons:
  "no_dots (c # s) \<longleftrightarrow> no_dots s \<and> (s = [] \<or> \<not> (c = CHR ''.'' \<and> hd s = CHR ''.''))"
  by (cases s) (auto simp: no_dots_def)

lemma no_dots_Nil [simp]: "no_dots []"
  by (simp add: no_dots_def)

lemma char_of_punctuation:
  "char_of (45 :: nat) = CHR ''-''" "char_of (46 :: nat) = CHR ''.''" "char_of (95 :: nat) = CHR ''_''"
  using char_of_byte [of "CHR ''-''"] char_of_byte [of "CHR ''.''"] char_of_byte [of "CHR ''_''"]
  by (simp_all add: byte_def)

definition dir_char :: "char \<Rightarrow> bool" where
  "dir_char c \<longleftrightarrow> is_lower_alnum c \<or> c \<in> set ''._-''"

text \<open>The invariant of the sanitising loop, on the output with its newest character first.\<close>

definition sanitize_inv :: "string \<times> bool \<Rightarrow> bool" where
  "sanitize_inv st \<longleftrightarrow>
     list_all dir_char (fst st) \<and> no_dots (rev (fst st))
     \<and> (snd st \<or> fst st = [] \<or> hd (fst st) \<noteq> CHR ''.'')"

lemma safe_rune_dir_char: "safe_rune r \<Longrightarrow> dir_char (char_of r)"
  by (auto simp: safe_rune_def dir_char_def char_class_defs char_of_punctuation)

lemma safe_rune_dot: "safe_rune r \<Longrightarrow> char_of r = CHR ''.'' \<longleftrightarrow> r = 46"
proof
  assume "safe_rune r" and "char_of r = CHR ''.''"
  then have "of_char (char_of r :: char) = (46 :: nat)" by simp
  with \<open>safe_rune r\<close> show "r = 46" by (auto simp: safe_rune_def in_range_def)
next
  assume "r = 46"
  then show "char_of r = CHR ''.''" by (simp add: char_of_punctuation)
qed

lemma dir_char_dash: "dir_char CHR ''-''"
  by (simp add: dir_char_def)

lemma sanitize_step_inv: "sanitize_inv st \<Longrightarrow> sanitize_inv (sanitize_step st r)"
  by (cases st)
    (auto simp: sanitize_inv_def safe_rune_dir_char safe_rune_dot dir_char_dash no_dots_append
      last_rev no_dots_Cons)

lemma sanitize_fold_inv: "sanitize_inv st \<Longrightarrow> sanitize_inv (foldl sanitize_step st rs)"
  by (induction rs arbitrary: st) (simp_all add: sanitize_step_inv)

lemma trim_infix: "\<exists>a b. s = a @ trim cset s @ b"
proof -
  obtain b where "trim_left cset s = trim cset s @ b"
    using trim_right_prefix [of "trim_left cset s" cset] by (auto simp: trim_def)
  moreover have "s = takeWhile (\<lambda>c. c \<in> set cset) s @ trim_left cset s"
    by (simp add: trim_left_def)
  ultimately show ?thesis by metis
qed

lemma trim_hd:
  assumes "trim cset s \<noteq> []"
  shows "hd (trim cset s) \<notin> set cset"
proof -
  obtain b where b: "trim_left cset s = trim cset s @ b"
    using trim_right_prefix [of "trim_left cset s" cset] by (auto simp: trim_def)
  with assms have "trim_left cset s \<noteq> []" by auto
  then have "hd (trim_left cset s) \<notin> set cset"
    unfolding trim_left_def using hd_dropWhile by blast
  with b assms show ?thesis by simp
qed

lemma trim_last: "trim cset s \<noteq> [] \<Longrightarrow> last (trim cset s) \<notin> set cset"
  unfolding trim_def by (rule trim_right_last)

lemma sanitize_segment_props:
  fixes s
  defines "seg \<equiv> sanitizeDirectorySegment s"
  shows "list_all dir_char seg" and "no_dots seg"
    and "seg \<noteq> [] \<Longrightarrow> is_lower_alnum (hd seg)" and "seg \<noteq> [] \<Longrightarrow> last seg \<noteq> CHR ''.''"
proof -
  let ?o = "fst (foldl sanitize_step ([], False) (to_lower_runes s))"
  have inv: "sanitize_inv (foldl sanitize_step ([], False) (to_lower_runes s))"
    by (rule sanitize_fold_inv) (simp add: sanitize_inv_def no_dots_def)
  then have o: "list_all dir_char ?o" "no_dots (rev ?o)"
    by (simp_all add: sanitize_inv_def)
  obtain a b where ab: "rev ?o = a @ seg @ b"
    using trim_infix unfolding seg_def sanitizeDirectorySegment_def by blast
  from o(1) have "list_all dir_char (rev ?o)" by simp
  then show chars: "list_all dir_char seg" by (simp add: ab)
  from o(2) show "no_dots seg" by (simp add: ab no_dots_append)
  show "is_lower_alnum (hd seg)" if "seg \<noteq> []"
  proof -
    have "hd seg \<notin> set ''.-_''"
      using trim_hd that unfolding seg_def sanitizeDirectorySegment_def by blast
    moreover have "dir_char (hd seg)"
      using chars that by (cases seg) auto
    ultimately show ?thesis by (auto simp: dir_char_def)
  qed
  show "last seg \<noteq> CHR ''.''" if "seg \<noteq> []"
    using trim_last [of "''.-_''"] that unfolding seg_def sanitizeDirectorySegment_def by fastforce
qed

lemma valid_directory_nameI:
  assumes "n \<noteq> []" and "length n \<le> 128" and "is_lower_alnum (hd n)"
    and "list_all dir_char n" and "no_dots n"
  shows "ValidateDirectoryName n = None"
proof -
  have "valid_string n"
    using assms(4) by (intro valid_string_ascii) (auto simp: list_all_iff dir_char_def char_class_defs)
  moreover have "safeDirectoryPattern n"
    using assms(1,3,4) by (simp add: safeDirectoryPattern_def dir_char_def [abs_def])
  moreover have "CHR ''/'' \<notin> set n"
    using assms(4) by (auto simp: list_all_iff dir_char_def char_class_defs)
  moreover have "n \<notin> set reservedDirectoryNames"
    using assms(3) by (auto simp: reservedDirectoryNames_def char_class_defs)
  ultimately show ?thesis
    using assms(1,2,5)
    by (simp add: ValidateDirectoryName_def MaxDirectoryNameBytes_def MaxContextEntryBytes_def contains_dots_iff)
qed

lemma no_dots_dash_append: "no_dots a \<Longrightarrow> no_dots b \<Longrightarrow> no_dots (a @ ''--'' @ b)"
  by (simp add: no_dots_append no_dots_Cons)

text \<open>A directory name is produced exactly when the namespace leaves something after sanitising.\<close>

lemma lv_suffix:
  assumes "ValidateLogicalVolumeID lv = None"
  shows "length (take directorySuffixBytes (trim_prefix lv ''lv-'')) = 12"
    and "list_all is_hex (take directorySuffixBytes (trim_prefix lv ''lv-''))"
proof -
  obtain h where h: "lv = ''lv-'' @ h" "length h = 32" "list_all is_hex h"
    using assms by (auto simp: ValidateLogicalVolumeID_def hash_pattern_iff)
  then have "trim_prefix lv ''lv-'' = h" by (simp add: trim_prefix_def)
  then show "length (take directorySuffixBytes (trim_prefix lv ''lv-'')) = 12"
    and "list_all is_hex (take directorySuffixBytes (trim_prefix lv ''lv-''))"
    using h by (auto simp: directorySuffixBytes_def list_all_iff dest: in_set_takeD)
qed

definition bounded_prefix :: "string \<Rightarrow> string" where
  "bounded_prefix p = (if length p > 114 then trim_right ''.-_'' (take 114 p) else p)"

lemma bounded_prefix_prefix: "\<exists>r. p = bounded_prefix p @ r"
proof -
  obtain r where "take 114 p = trim_right ''.-_'' (take 114 p) @ r"
    using trim_right_prefix by blast
  then have "p = trim_right ''.-_'' (take 114 p) @ (r @ drop 114 p)"
    by (metis append.assoc append_take_drop_id)
  then show ?thesis by (auto simp: bounded_prefix_def)
qed

lemma bounded_prefix_length: "length (bounded_prefix p) \<le> 114"
proof -
  have "length (trim_right ''.-_'' (take 114 p)) \<le> length (take 114 p)"
    using trim_right_prefix [of "take 114 p" "''.-_''"] by (metis le_add1 length_append)
  then show ?thesis by (simp add: bounded_prefix_def)
qed

lemma bounded_prefix_nonempty:
  assumes "p \<noteq> []" and "hd p \<notin> set ''.-_''"
  shows "bounded_prefix p \<noteq> []"
proof (cases "length p > 114")
  case True
  have "\<not> (\<forall>c \<in> set (take 114 p). c \<in> set ''.-_'')"
    using assms by (cases p) (auto simp: take_Cons')
  then have "trim_right ''.-_'' (take 114 p) \<noteq> []"
    by (auto simp: trim_right_def)
  with True show ?thesis by (simp add: bounded_prefix_def)
qed (use assms in \<open>simp add: bounded_prefix_def\<close>)

lemma valid_lv_directory: "ValidateLogicalVolumeID lv = None \<Longrightarrow> ValidateDirectoryName lv = None"
proof (rule valid_directory_nameI)
  assume "ValidateLogicalVolumeID lv = None"
  then obtain h where h: "lv = ''lv-'' @ h" "length h = 32" "list_all is_hex h"
    by (auto simp: ValidateLogicalVolumeID_def hash_pattern_iff)
  then have chars: "list_all ident_char lv"
    by (auto simp: list_all_iff hex_ident_char ident_char_def char_class_defs)
  show "lv \<noteq> []" "length lv \<le> 128" using h by simp_all
  show "is_lower_alnum (hd lv)" using h by (simp add: char_class_defs)
  show "list_all dir_char lv" using chars by (auto simp: list_all_iff ident_char_def dir_char_def)
  show "no_dots lv" using chars by (intro no_dots_free) (auto simp: list_all_iff dest: ident_char_not_slash)
qed

lemma directory_name_eq:
  assumes "ValidateLogicalVolumeID lv = None" and "ns \<noteq> []" and "pvc \<noteq> []"
  defines "p \<equiv> bounded_prefix (sanitizeDirectorySegment ns @ ''--'' @ sanitizeDirectorySegment pvc)"
  defines "name \<equiv> (if p = [] then ''volume'' else p) @ ''--'' @ take directorySuffixBytes (trim_prefix lv ''lv-'')"
  shows "DirectoryName ns pvc lv = require (ValidateDirectoryName name) (Inr name)"
  using assms(1-3) lv_suffix(1) [OF assms(1)]
  by (simp add: DirectoryName_def Let_def name_def p_def bounded_prefix_def MaxDirectoryNameBytes_def
      MaxContextEntryBytes_def)

lemma directory_name_valid:
  fixes pvc
  assumes "ValidateLogicalVolumeID lv = None" and "sanitizeDirectorySegment ns \<noteq> []"
  defines "p \<equiv> bounded_prefix (sanitizeDirectorySegment ns @ ''--'' @ sanitizeDirectorySegment pvc)"
  shows "p \<noteq> []"
    and "ValidateDirectoryName (p @ ''--'' @ take directorySuffixBytes (trim_prefix lv ''lv-'')) = None"
proof -
  let ?a = "sanitizeDirectorySegment ns" and ?b = "sanitizeDirectorySegment pvc"
  let ?s = "take directorySuffixBytes (trim_prefix lv ''lv-'')"
  note a = sanitize_segment_props [of ns] and b = sanitize_segment_props [of pvc]
  note suffix = lv_suffix [OF assms(1)]
  have "hd ?a \<notin> set ''.-_''"
    using a(3) [OF assms(2)] by (auto simp: char_class_defs)
  then show p: "p \<noteq> []"
    unfolding p_def using assms(2) by (intro bounded_prefix_nonempty) simp_all
  obtain r where r: "?a @ ''--'' @ ?b = p @ r"
    using bounded_prefix_prefix unfolding p_def by blast
  have "list_all dir_char (?a @ ''--'' @ ?b)"
    using a(1) b(1) by (simp add: dir_char_def)
  then have chars: "list_all dir_char p" unfolding r by simp
  have "no_dots (?a @ ''--'' @ ?b)"
    using a(2) b(2) by (rule no_dots_dash_append)
  then have dots: "no_dots p" unfolding r by (rule no_dots_prefix)
  have "hd p = hd (?a @ ''--'' @ ?b)" using p r by simp
  then have head: "is_lower_alnum (hd p)" using a(3) [OF assms(2)] assms(2) by simp
  show "ValidateDirectoryName (p @ ''--'' @ ?s) = None"
  proof (rule valid_directory_nameI)
    show "length (p @ ''--'' @ ?s) \<le> 128"
      using bounded_prefix_length suffix(1) unfolding p_def by simp
    show "list_all dir_char (p @ ''--'' @ ?s)"
      using chars suffix(2) by (auto simp: list_all_iff dir_char_def is_hex_lower_alnum)
    have "CHR ''.'' \<notin> set ?s"
      using suffix(2) by (auto simp: list_all_iff char_class_defs)
    then show "no_dots (p @ ''--'' @ ?s)"
      using dots by (simp add: no_dots_dash_append no_dots_free del: append_Cons append_Nil)
  qed (use p head in simp_all)
qed

lemma dashed_prefix:
  fixes pvc
  defines "p \<equiv> bounded_prefix (''--'' @ sanitizeDirectorySegment pvc)"
  shows "p \<noteq> []" and "hd p = CHR ''-''"
proof -
  let ?b = "sanitizeDirectorySegment pvc"
  show p: "p \<noteq> []"
  proof (cases "length (''--'' @ ?b) > 114")
    case True
    then obtain c r where b: "?b = c # r" by (cases ?b) auto
    then have "is_lower_alnum c" using sanitize_segment_props(3) [of pvc] by simp
    then have "c \<in> set (take 114 (''--'' @ ?b)) \<and> c \<notin> set ''.-_''"
      by (auto simp: b char_class_defs)
    then have "trim_right ''.-_'' (take 114 (''--'' @ ?b)) \<noteq> []"
      by (auto simp: trim_right_def)
    with True show ?thesis by (simp add: p_def bounded_prefix_def)
  qed (simp add: p_def bounded_prefix_def)
  obtain r where "''--'' @ ?b = p @ r"
    using bounded_prefix_prefix unfolding p_def by blast
  with p show "hd p = CHR ''-''" by (cases p) auto
qed

lemma directory_name_dashed:
  assumes "hd n = CHR ''-''"
  shows "ValidateDirectoryName n \<noteq> None"
  using assms by (auto simp: ValidateDirectoryName_def safeDirectoryPattern_def char_class_defs)

text \<open>
  (C36) Directory derivation. For a well-formed logical volume ID, \<^verbatim>\<open>DirectoryName\<close> returns a
  name exactly when PVC metadata is absent or the namespace keeps at least one character
  after sanitising, and every name it returns passes \<^verbatim>\<open>ValidateDirectoryName\<close>: at most 128
  bytes, no path traversal, not a reserved driver directory.
\<close>

theorem DirectoryName_correct:
  assumes "ValidateLogicalVolumeID lv = None"
  shows "(case DirectoryName ns pvc lv of
            Inl _ \<Rightarrow> ns \<noteq> [] \<and> pvc \<noteq> [] \<and> sanitizeDirectorySegment ns = []
          | Inr n \<Rightarrow> (ns = [] \<or> pvc = [] \<or> sanitizeDirectorySegment ns \<noteq> [])
                     \<and> ValidateDirectoryName n = None \<and> length n \<le> MaxDirectoryNameBytes)"
proof (cases "ns = [] \<or> pvc = []")
  case True
  then have "DirectoryName ns pvc lv = Inr lv"
    using assms by (auto simp: DirectoryName_def)
  with True show ?thesis
    using valid_lv_directory [OF assms] by (auto simp: ValidateDirectoryName_def)
next
  case False
  then have neq: "ns \<noteq> []" "pvc \<noteq> []" by simp_all
  note eq = directory_name_eq [OF assms neq]
  show ?thesis
  proof (cases "sanitizeDirectorySegment ns = []")
    case True
    note d = dashed_prefix [of pvc]
    have "ValidateDirectoryName (bounded_prefix (''--'' @ sanitizeDirectorySegment pvc) @ ''--''
        @ take directorySuffixBytes (trim_prefix lv ''lv-'')) \<noteq> None"
      by (rule directory_name_dashed) (use d in simp)
    with eq d True neq show ?thesis by (auto simp: require_def split: option.splits)
  next
    case False
    note v = directory_name_valid [OF assms False, of pvc]
    with eq have "DirectoryName ns pvc lv = Inr (bounded_prefix (sanitizeDirectorySegment ns @ ''--''
        @ sanitizeDirectorySegment pvc) @ ''--'' @ take directorySuffixBytes (trim_prefix lv ''lv-''))"
      by simp
    with v(2) False show ?thesis by (simp add: ValidateDirectoryName_def)
  qed
qed

theorem DirectoryName_correct_witness:
  "ValidateLogicalVolumeID ''lv-0123456789abcdef0123456789abcdef'' = None
   \<and> (case DirectoryName ''team'' ''data'' ''lv-0123456789abcdef0123456789abcdef'' of
        Inl _ \<Rightarrow> False | Inr n \<Rightarrow> ValidateDirectoryName n = None)"
proof -
  have v: "ValidateLogicalVolumeID ''lv-0123456789abcdef0123456789abcdef'' = None"
    by (simp add: ValidateLogicalVolumeID_def hash_pattern_iff char_class_defs)
  have s: "sanitizeDirectorySegment ''team'' \<noteq> []"
    by code_simp
  show ?thesis
    using v s DirectoryName_correct [OF v, of "''team''" "''data''"]
    by (auto split: sum.splits)
qed

section \<open>Lifecycle targets\<close>

lemma last_dash_unique:
  assumes "a @ CHR ''-'' # x = b @ CHR ''-'' # y" and "CHR ''-'' \<notin> set x" and "CHR ''-'' \<notin> set y"
  shows "a = b \<and> x = y"
proof -
  have "takeWhile (\<lambda>c. c \<noteq> CHR ''-'') (rev (a @ CHR ''-'' # x)) = rev x"
    and "takeWhile (\<lambda>c. c \<noteq> CHR ''-'') (rev (b @ CHR ''-'' # y)) = rev y"
    using assms(2,3) by (auto simp: takeWhile_append)
  with assms(1) have "rev x = rev y" by simp
  with assms(1) show ?thesis by simp
qed

lemma remove_chars_notin: "c \<in> set cs \<Longrightarrow> c \<notin> set (remove_chars cs s)"
  by (simp add: remove_chars_def)

lemma append_same_length: "a @ x = b @ y \<Longrightarrow> length x = length y \<Longrightarrow> a = b \<and> x = y"
  by simp

lemma fraction_nanos_digits: "list_all is_digit f \<Longrightarrow> list_all is_digit (fraction_nanos f)"
  by (auto simp: fraction_nanos_def list_all_iff char_class_defs dest: in_set_takeD)

lemma lifecycle_component_inj:
  assumes "lifecycle_component d lv ts op = lifecycle_component d' lv' ts' op'"
    and "length op = length op'" and "length lv = length lv'"
  shows "d = d' \<and> lv = lv' \<and> op = op'"
proof -
  let ?t = "remove_chars '':.-'' (lower_ascii ts)" and ?t' = "remove_chars '':.-'' (lower_ascii ts')"
  have "(d @ ''-'' @ lv @ ''-'' @ ?t @ ''-'') @ op = (d' @ ''-'' @ lv' @ ''-'' @ ?t' @ ''-'') @ op'"
    using assms(1) by (simp add: lifecycle_component_def)
  from append_same_length [OF this assms(2)] have op: "op = op'"
    and pre: "(d @ ''-'' @ lv) @ CHR ''-'' # ?t = (d' @ ''-'' @ lv') @ CHR ''-'' # ?t'"
    by simp_all
  have "d @ ''-'' @ lv = d' @ ''-'' @ lv'"
    using last_dash_unique [OF pre] remove_chars_notin [of "CHR ''-''" "'':.-''"] by simp
  then have "(d @ ''-'') @ lv = (d' @ ''-'') @ lv'" by simp
  from append_same_length [OF this assms(3)] op show ?thesis by simp
qed

lemma canonical_timestamp_no_slash:
  assumes "canonical_rfc3339 ts"
  shows "CHR ''/'' \<notin> set ts"
proof -
  obtain t where t: "format_rfc3339 t = ts" "parse_rfc3339 ts = Some t"
    using assms by (auto simp: canonical_rfc3339_def split: option.splits)
  have digits: "CHR ''/'' \<notin> set (pad_zeros k (format_uint n))" for k n
    using format_uint_digits [of "CHR ''/''" n] by (auto simp: pad_zeros_def char_class_defs)
  have "list_all is_digit (t_nanos t)"
    using t(2) unfolding parse_rfc3339_def Let_def
    by (auto simp: fraction_nanos_digits simp del: list_all_iff split: if_splits)
  then have "CHR ''/'' \<notin> set (trim_right ''0'' (t_nanos t))"
    using set_trim_right [of "''0''" "t_nanos t"] by (fastforce simp: list_all_iff char_class_defs)
  then show ?thesis
    using t(1) digits by (auto simp: format_rfc3339_def Let_def split: if_splits)
qed

lemma plain_lifecycle_component:
  assumes "ValidateDirectoryName d = None" and "ValidateLogicalVolumeID lv = None"
    and "canonical_rfc3339 ts" and "ValidateOperationID op = None"
  shows "plain_component (lifecycle_component d lv ts op)"
proof -
  have lv: "hash_pattern ''lv-'' lv" and op: "uuidPattern op"
    using assms(2,4) by (simp_all add: ValidateLogicalVolumeID_def ValidateOperationID_def)
  have "list_all ident_char lv"
    by (rule hash_pattern_chars [OF lv]) (simp add: ident_char_def char_class_defs)
  moreover have "list_all ident_char op" by (rule uuid_chars [OF op])
  moreover have "CHR ''/'' \<notin> set d"
    using valid_directory_name(1) [OF assms(1)] by (simp add: plain_component_def)
  moreover have "CHR ''/'' \<notin> set (remove_chars '':.-'' (lower_ascii ts))"
  proof -
    have "char_of (byte c + 32) = CHR ''/'' \<Longrightarrow> \<not> is_upper c" for c
      using byte_less [of c] by (auto simp: char_class_defs dest: arg_cong [where f = "of_char :: char \<Rightarrow> nat"])
    then show ?thesis
      using canonical_timestamp_no_slash [OF assms(3)]
      by (auto simp: remove_chars_def lower_ascii_def)
  qed
  ultimately have "CHR ''/'' \<notin> set (lifecycle_component d lv ts op)"
    by (auto simp: lifecycle_component_def list_all_iff dest: ident_char_not_slash)
  moreover have "length (lifecycle_component d lv ts op) \<ge> 36"
    using uuid_length [OF op] by (simp add: lifecycle_component_def)
  ultimately show ?thesis by (auto simp: plain_component_def)
qed

lemma lifecycle_target_eq:
  assumes "ManagedLifecycleTarget b m d lv ts op = Inr t"
  shows "t = b @ ''/'' @ m @ ''/'' @ lifecycle_component d lv ts op"
    and "path_clean t = t" and "ValidateBasePath b = None" and "ValidateDirectoryName d = None"
    and "m = ''.archived'' \<or> m = ''.deleted''" and "length lv = 35" and "length op = 36"
    and "plain_component (lifecycle_component d lv ts op)"
proof -
  let ?c = "lifecycle_component d lv ts op"
  from assms have b: "ValidateBasePath b = None" and d: "ValidateDirectoryName d = None"
    and m: "m = ''.archived'' \<or> m = ''.deleted''"
    and lv: "ValidateLogicalVolumeID lv = None" and op: "ValidateOperationID op = None"
    and ts: "canonical_rfc3339 ts" and t: "t = path_join [b, m, ?c]"
    by (simp_all add: ManagedLifecycleTarget_def validateRequiredTimestamp_def)
  have c: "plain_component ?c" by (rule plain_lifecycle_component [OF d lv ts op])
  have ws: "\<forall>w \<in> set [m, ?c]. plain_component w"
    using c m by (auto simp: plain_component_def)
  have j: "join_with ''/'' [m, ?c] = m @ ''/'' @ ?c" by (simp add: join_with_def)
  note below = path_join_below [OF b _ ws, unfolded j]
  show "t = b @ ''/'' @ m @ ''/'' @ ?c" "path_clean t = t"
    using below t by simp_all
  show "length lv = 35" "length op = 36"
    using lv op hash_pattern_length [of "''lv-''" lv] uuid_length [of op]
    by (simp_all add: ValidateLogicalVolumeID_def ValidateOperationID_def)
  show "ValidateBasePath b = None" "ValidateDirectoryName d = None"
    "m = ''.archived'' \<or> m = ''.deleted''" "plain_component ?c"
    by (fact b d m c)+
qed

text \<open>
  A lifecycle target stays inside its base path and away from live data. Every archive or
  quarantine path that \<^verbatim>\<open>ManagedLifecycleTarget\<close> returns is normalised, lies strictly below the
  base path in a reserved driver directory, and differs from the live directory of every
  logical volume of that base path.
\<close>

theorem lifecycle_target_contained:
  assumes "ManagedLifecycleTarget b m d lv ts op = Inr t"
  shows "path_clean t = t \<and> has_prefix t (b @ ''/'' @ m @ ''/'') \<and> m \<in> set reservedDirectoryNames
         \<and> (\<forall>n. ValidateDirectoryName n = None \<longrightarrow> t \<noteq> path_join [b, n])"
proof -
  note eq = lifecycle_target_eq [OF assms]
  have "t \<noteq> path_join [b, n]" if n: "ValidateDirectoryName n = None" for n
  proof
    assume "t = path_join [b, n]"
    moreover have "path_join [b, n] = b @ ''/'' @ n"
      using path_join_below(1) [OF eq(3), of "[n]"] valid_directory_name(1) [OF n]
      by (simp add: join_with_def)
    ultimately have "n = m @ ''/'' @ lifecycle_component d lv ts op" using eq(1) by simp
    then have "has_prefix n ''.''" using eq(5) by auto
    with valid_directory_name(2) [OF n] show False by simp
  qed
  then show ?thesis
    using eq(1,2,5) by (auto simp: reservedDirectoryNames_def has_prefix_iff)
qed

text \<open>
  Lifecycle targets never collide. Below one base path, two operations with the same
  archive or quarantine path act on the same managed directory, the same live directory, the
  same logical volume and carry the same operation ID.
\<close>

theorem lifecycle_target_unique:
  assumes "ManagedLifecycleTarget b m d lv ts op = Inr t"
    and "ManagedLifecycleTarget b m' d' lv' ts' op' = Inr t"
  shows "m = m' \<and> d = d' \<and> lv = lv' \<and> op = op'"
proof -
  note e = lifecycle_target_eq [OF assms(1)] and e' = lifecycle_target_eq [OF assms(2)]
  have "m @ ''/'' @ lifecycle_component d lv ts op = m' @ ''/'' @ lifecycle_component d' lv' ts' op'"
    using e(1) e'(1) by simp
  with e(5) e'(5) have "m = m'" and "lifecycle_component d lv ts op = lifecycle_component d' lv' ts' op'"
    by auto
  with lifecycle_component_inj e(6,7) e'(6,7) show ?thesis by metis
qed

section \<open>Sample identifiers\<close>

text \<open>Concrete well-formed identifiers, on which witnesses evaluate the development.\<close>

definition sample_base :: string where "sample_base = ''/volumes''"
definition sample_lv :: string where "sample_lv = ''lv-0123456789abcdef0123456789abcdef''"
definition sample_uuid :: string where "sample_uuid = ''01234567-89ab-4cde-8f01-23456789abcd''"
definition sample_uuid2 :: string where "sample_uuid2 = ''11234567-89ab-4cde-8f01-23456789abcd''"
definition sample_time :: string where "sample_time = ''2026-01-02T03:04:05Z''"
definition sample_dir :: string where "sample_dir = ''team--data--0123456789ab''"

lemmas ascii_eval = valid_string_ascii byte_def

lemma sample_base_ok: "ValidateBasePath sample_base = None"
  by (simp add: ValidateBasePath_def sample_base_def Let_def ascii_eval trim_prefix_def path_clean_def
      clean_components_def join_with_def MaxContextEntryBytes_def parentOwnerNamespace_def)

lemma sample_lv_ok: "ValidateLogicalVolumeID sample_lv = None"
  by (simp add: ValidateLogicalVolumeID_def sample_lv_def hash_pattern_iff char_class_defs)

lemma sample_uuid_ok: "uuidPattern sample_uuid"
  by (simp add: uuidPattern_def sample_uuid_def lit_def char_class_defs replicate_numeral_eq)

lemma sample_time_ok: "canonical_rfc3339 sample_time"
  by (simp add: sample_time_def timestamp_eval)

lemma sample_dir_ok: "ValidateDirectoryName sample_dir = None"
  by (rule valid_directory_nameI)
    (simp_all add: sample_dir_def char_class_defs dir_char_def no_dots_def)

lemma sample_target_ok:
  "\<exists>t. ManagedLifecycleTarget sample_base ''.archived'' sample_dir sample_lv sample_time sample_uuid = Inr t"
proof -
  have "length (lifecycle_component sample_dir sample_lv sample_time sample_uuid) \<le> maxFilesystemComponentBytes"
    by (simp add: lifecycle_component_def sample_dir_def sample_lv_def sample_time_def sample_uuid_def
        maxFilesystemComponentBytes_def remove_chars_def lower_ascii_def char_class_defs)
  then show ?thesis
    using sample_base_ok sample_dir_ok sample_lv_ok sample_uuid_ok sample_time_ok
    by (simp add: ManagedLifecycleTarget_def validateRequiredTimestamp_def ValidateOperationID_def
        canonical_rfc3339_nonempty)
qed

theorem lifecycle_target_contained_witness:
  "\<exists>t. ManagedLifecycleTarget sample_base ''.archived'' sample_dir sample_lv sample_time sample_uuid = Inr t
     \<and> path_clean t = t \<and> t \<noteq> path_join [sample_base, sample_dir]"
  using sample_target_ok lifecycle_target_contained sample_dir_ok by blast

lemma sample_uuid2_ok: "uuidPattern sample_uuid2"
  by (simp add: uuidPattern_def sample_uuid2_def lit_def char_class_defs replicate_numeral_eq)

theorem lifecycle_target_unique_witness:
  "ManagedLifecycleTarget sample_base ''.archived'' sample_dir sample_lv sample_time sample_uuid
   \<noteq> ManagedLifecycleTarget sample_base ''.archived'' sample_dir sample_lv sample_time sample_uuid2"
proof
  assume eq: "ManagedLifecycleTarget sample_base ''.archived'' sample_dir sample_lv sample_time sample_uuid
    = ManagedLifecycleTarget sample_base ''.archived'' sample_dir sample_lv sample_time sample_uuid2"
  obtain t where t: "ManagedLifecycleTarget sample_base ''.archived'' sample_dir sample_lv sample_time sample_uuid = Inr t"
    using sample_target_ok by blast
  from lifecycle_target_unique [OF t eq [symmetric, unfolded t]] show False
    by (simp add: sample_uuid_def sample_uuid2_def)
qed

end
