(* ===== verification/Handle.thy ===== *)
theory Handle
  imports Identifiers
begin

text \<open>
  \<^verbatim>\<open>pkg/volume/handle.go\<close>: logical volume identities, the immutable mapping and its hash, and
  the compact CSI volume handle \<^verbatim>\<open>sfs1:<logical volume>:<mapping hash>\<close>.
\<close>

definition handlePrefix :: string where
  "handlePrefix = ''sfs1''"

record Handle =
  h_LogicalVolumeID :: string
  h_MappingHash :: string

record Mapping =
  m_PoolName :: string
  m_ParentFilesystemID :: string
  m_BasePath :: string
  m_DirectoryName :: string
  m_LogicalVolumeID :: string

definition truncatedBytesHash :: "string \<Rightarrow> string \<Rightarrow> string" where
  "truncatedBytesHash prefix value = prefix @ hex_encode (take 16 (sha256 value))"

definition truncatedCanonicalHash :: "string \<Rightarrow> json \<Rightarrow> string" where
  "truncatedCanonicalHash prefix value = truncatedBytesHash prefix (Marshal value)"

definition LogicalVolumeID :: "string \<Rightarrow> string \<Rightarrow> string res" where
  "LogicalVolumeID driverName createVolumeRequestName =
     require (errs
       [ValidateDriverName driverName,
        ensure (createVolumeRequestName \<noteq> []) ''create volume request name is empty'',
        ensure (CHR 0x00 \<notin> set createVolumeRequestName) ''create volume request name contains NUL''])
     (Inr (truncatedBytesHash ''lv-'' (driverName @ [CHR 0x00] @ createVolumeRequestName)))"

definition Mapping_Validate :: "Mapping \<Rightarrow> error option" where
  "Mapping_Validate mapping = errs
     [ValidatePoolName (m_PoolName mapping),
      ValidateParentFilesystemID (m_ParentFilesystemID mapping),
      ValidateBasePath (m_BasePath mapping),
      ValidateDirectoryName (m_DirectoryName mapping),
      ValidateLogicalVolumeID (m_LogicalVolumeID mapping)]"

definition mapping_payload :: "Mapping \<Rightarrow> json" where
  "mapping_payload mapping = json_map
     [(''basePath'', JStr (m_BasePath mapping)),
      (''directoryName'', JStr (m_DirectoryName mapping)),
      (''logicalVolumeID'', JStr (m_LogicalVolumeID mapping)),
      (''parentFilesystemID'', JStr (m_ParentFilesystemID mapping)),
      (''poolName'', JStr (m_PoolName mapping))]"

definition MappingHash :: "Mapping \<Rightarrow> string res" where
  "MappingHash mapping =
     require (Mapping_Validate mapping) (Inr (truncatedCanonicalHash ''mh-'' (mapping_payload mapping)))"

definition NewHandle :: "Mapping \<Rightarrow> Handle res" where
  "NewHandle mapping =
     and_then (MappingHash mapping)
       (\<lambda>hash. Inr \<lparr>h_LogicalVolumeID = m_LogicalVolumeID mapping, h_MappingHash = hash\<rparr>)"

definition ParseHandle :: "string \<Rightarrow> Handle res" where
  "ParseHandle encoded =
     require (errs
       [ensure_is (encoded \<noteq> []) ErrInvalidHandle ''handle is empty'',
        ensure_is (length encoded \<le> MaxHandleBytes) ErrInvalidHandle ''handle length exceeds 128 bytes'',
        ensure_is (has_prefix encoded (handlePrefix @ '':'')) ErrForeignHandle ''unsupported prefix''])
     (case split_on CHR '':'' encoded of
        [p, lv, mh] \<Rightarrow>
          if p \<noteq> handlePrefix
          then Inl (Errorf ''expected three colon-separated fields'' [ErrInvalidHandle])
          else require (map_option (wrap_sentinel ErrInvalidHandle) (ValidateLogicalVolumeID lv))
              (require (map_option (wrap_sentinel ErrInvalidHandle) (validateMappingHash mh))
                (Inr \<lparr>h_LogicalVolumeID = lv, h_MappingHash = mh\<rparr>))
      | _ \<Rightarrow> Inl (Errorf ''expected three colon-separated fields'' [ErrInvalidHandle]))"

definition Handle_String :: "Handle \<Rightarrow> string" where
  "Handle_String handle = handlePrefix @ '':'' @ h_LogicalVolumeID handle @ '':'' @ h_MappingHash handle"

definition ValidateMapping :: "Handle \<Rightarrow> Mapping \<Rightarrow> error option" where
  "ValidateMapping handle mapping = errs
     [ensure (h_LogicalVolumeID handle = m_LogicalVolumeID mapping) ''logical volume ID mismatch'',
      and_check (MappingHash mapping)
        (\<lambda>want. ensure (h_MappingHash handle = want) ''mapping hash mismatch'')]"

definition BasePathHash :: "string \<Rightarrow> string res" where
  "BasePathHash basePath = require (ValidateBasePath basePath) (Inr (truncatedBytesHash ''bp-'' basePath))"

definition VolumeHandleHash :: "string \<Rightarrow> string res" where
  "VolumeHandleHash encoded = and_then (ParseHandle encoded) (\<lambda>_. Inr (truncatedBytesHash ''vh-'' encoded))"

section \<open>Hash formats\<close>

lemma truncatedBytesHash_pattern [simp]: "hash_pattern prefix (truncatedBytesHash prefix v)"
  using hex_encode_hex by (simp add: hash_pattern_iff truncatedBytesHash_def)

lemma logical_volume_id_valid: "LogicalVolumeID d n = Inr lv \<Longrightarrow> ValidateLogicalVolumeID lv = None"
  by (auto simp: LogicalVolumeID_def ValidateLogicalVolumeID_def)

lemma mapping_hash_valid: "MappingHash m = Inr h \<Longrightarrow> validateMappingHash h = None"
  by (auto simp: MappingHash_def validateMappingHash_def truncatedCanonicalHash_def)

lemma mapping_hash_eq: "Mapping_Validate m = None \<Longrightarrow>
    MappingHash m = Inr (truncatedCanonicalHash ''mh-'' (mapping_payload m))"
  by (simp add: MappingHash_def)

section \<open>Round trips\<close>

lemma ident_char_not_colon: "ident_char c \<Longrightarrow> c \<noteq> CHR '':''"
  by (auto simp: ident_char_def char_class_defs)

lemma hash_no_colon:
  assumes "hash_pattern p s" and "list_all ident_char p"
  shows "CHR '':'' \<notin> set s"
  using hash_pattern_chars [OF assms] by (auto simp: list_all_iff dest: ident_char_not_colon)

definition well_formed_handle :: "Handle \<Rightarrow> bool" where
  "well_formed_handle h \<longleftrightarrow>
     ValidateLogicalVolumeID (h_LogicalVolumeID h) = None \<and> validateMappingHash (h_MappingHash h) = None"

lemma split_handle_string:
  assumes "well_formed_handle h"
  shows "split_on CHR '':'' (Handle_String h) = [handlePrefix, h_LogicalVolumeID h, h_MappingHash h]"
proof -
  have lv: "CHR '':'' \<notin> set (h_LogicalVolumeID h)"
    by (rule hash_no_colon [of "''lv-''"])
      (use assms in \<open>simp_all add: well_formed_handle_def ValidateLogicalVolumeID_def ident_char_def char_class_defs\<close>)
  have mh: "CHR '':'' \<notin> set (h_MappingHash h)"
    by (rule hash_no_colon [of "''mh-''"])
      (use assms in \<open>simp_all add: well_formed_handle_def validateMappingHash_def ident_char_def char_class_defs\<close>)
  have p: "CHR '':'' \<notin> set handlePrefix" by (simp add: handlePrefix_def)
  have "Handle_String h = handlePrefix @ CHR '':'' # (h_LogicalVolumeID h @ CHR '':'' # h_MappingHash h)"
    by (simp add: Handle_String_def)
  then show ?thesis
    by (simp only: split_on_append [OF p] split_on_append [OF lv] split_on_no_sep [OF mh])
qed

lemma handle_string_length: "well_formed_handle h \<Longrightarrow> length (Handle_String h) = 76"
  using hash_pattern_length [of "''lv-''" "h_LogicalVolumeID h"] hash_pattern_length [of "''mh-''" "h_MappingHash h"]
  by (simp add: well_formed_handle_def Handle_String_def handlePrefix_def ValidateLogicalVolumeID_def
      validateMappingHash_def)

lemma parse_handle_iff:
  "ParseHandle encoded = Inr h \<longleftrightarrow> well_formed_handle h \<and> encoded = Handle_String h"
proof
  assume "well_formed_handle h \<and> encoded = Handle_String h"
  then show "ParseHandle encoded = Inr h"
    using split_handle_string [of h] handle_string_length [of h]
    by (auto simp: ParseHandle_def MaxHandleBytes_def Handle_String_def well_formed_handle_def
        has_prefix_iff)
next
  assume p: "ParseHandle encoded = Inr h"
  obtain lv mh where s: "split_on CHR '':'' encoded = [handlePrefix, lv, mh]"
    and h: "h = \<lparr>h_LogicalVolumeID = lv, h_MappingHash = mh\<rparr>"
    and v: "ValidateLogicalVolumeID lv = None" "validateMappingHash mh = None"
    using p by (auto simp: ParseHandle_def split: list.splits if_splits)
  have "encoded = join_with '':'' [handlePrefix, lv, mh]"
    using join_split [of "CHR '':''" encoded] s by simp
  with h v show "well_formed_handle h \<and> encoded = Handle_String h"
    by (simp add: Handle_String_def well_formed_handle_def join_with_def)
qed

text \<open>
  (C22) Handles round-trip. A text parses to a handle exactly when the handle's fields are
  well-formed and the text is the handle's printed form: what \<^verbatim>\<open>String\<close> emits for a valid handle
  is parsed back to it, and no other text denotes that handle.
\<close>

theorem handle_roundtrip:
  "ParseHandle encoded = Inr h \<longleftrightarrow> well_formed_handle h \<and> encoded = Handle_String h"
  by (rule parse_handle_iff)

section \<open>The mapping hash\<close>

lemma mapping_payload_sorted:
  "mapping_payload m = JObj
     [(''basePath'', JStr (m_BasePath m)),
      (''directoryName'', JStr (m_DirectoryName m)),
      (''logicalVolumeID'', JStr (m_LogicalVolumeID m)),
      (''parentFilesystemID'', JStr (m_ParentFilesystemID m)),
      (''poolName'', JStr (m_PoolName m))]"
  by (simp add: mapping_payload_def json_map_def less_list_code less_eq_list_code)

lemma valid_mapping_strings:
  assumes "Mapping_Validate m = None"
  shows "valid_string (m_BasePath m)" "valid_string (m_DirectoryName m)" "valid_string (m_LogicalVolumeID m)"
    "valid_string (m_ParentFilesystemID m)" "valid_string (m_PoolName m)"
proof -
  show "valid_string (m_BasePath m)" "valid_string (m_DirectoryName m)" "valid_string (m_ParentFilesystemID m)"
    using assms by (simp_all add: Mapping_Validate_def ValidateBasePath_def ValidateDirectoryName_def
        ValidateParentFilesystemID_def Let_def)
  from assms have lv: "hash_pattern ''lv-'' (m_LogicalVolumeID m)" and pool: "poolNamePattern (m_PoolName m)"
    by (simp_all add: Mapping_Validate_def ValidateLogicalVolumeID_def ValidatePoolName_def)
  have "list_all ident_char (m_LogicalVolumeID m)"
    by (rule hash_pattern_chars [OF lv]) (simp add: ident_char_def char_class_defs)
  then show "valid_string (m_LogicalVolumeID m)"
    by (intro valid_string_ascii) (auto simp: list_all_iff ident_char_def char_class_defs)
  show "valid_string (m_PoolName m)"
    using pool by (intro valid_string_ascii) (auto simp: poolNamePattern_def list_all_iff char_class_defs)
qed

lemma mapping_payload_inj:
  assumes "Mapping_Validate m = None" and "Mapping_Validate m' = None"
    and "Marshal (mapping_payload m) = Marshal (mapping_payload m')"
  shows "m = m'"
proof -
  note v = valid_mapping_strings [OF assms(1)] and v' = valid_mapping_strings [OF assms(2)]
  note free = print_string_prefix_free
  have eq: "print_string (m_BasePath m) @ '','' @ print_string ''directoryName'' @ '':''
      @ print_string (m_DirectoryName m) @ '','' @ print_string ''logicalVolumeID'' @ '':''
      @ print_string (m_LogicalVolumeID m) @ '','' @ print_string ''parentFilesystemID'' @ '':''
      @ print_string (m_ParentFilesystemID m) @ '','' @ print_string ''poolName'' @ '':''
      @ print_string (m_PoolName m) @ ''}''
    = print_string (m_BasePath m') @ '','' @ print_string ''directoryName'' @ '':''
      @ print_string (m_DirectoryName m') @ '','' @ print_string ''logicalVolumeID'' @ '':''
      @ print_string (m_LogicalVolumeID m') @ '','' @ print_string ''parentFilesystemID'' @ '':''
      @ print_string (m_ParentFilesystemID m') @ '','' @ print_string ''poolName'' @ '':''
      @ print_string (m_PoolName m') @ ''}''"
    using assms(3) by (simp add: Marshal_def mapping_payload_sorted join_with_def)
  note e1 = free [OF v(1) v'(1) eq]
  then have "print_string (m_DirectoryName m) @ '','' @ print_string ''logicalVolumeID'' @ '':''
      @ print_string (m_LogicalVolumeID m) @ '','' @ print_string ''parentFilesystemID'' @ '':''
      @ print_string (m_ParentFilesystemID m) @ '','' @ print_string ''poolName'' @ '':''
      @ print_string (m_PoolName m) @ ''}''
    = print_string (m_DirectoryName m') @ '','' @ print_string ''logicalVolumeID'' @ '':''
      @ print_string (m_LogicalVolumeID m') @ '','' @ print_string ''parentFilesystemID'' @ '':''
      @ print_string (m_ParentFilesystemID m') @ '','' @ print_string ''poolName'' @ '':''
      @ print_string (m_PoolName m') @ ''}''" by simp
  note e2 = free [OF v(2) v'(2) this]
  then have "print_string (m_LogicalVolumeID m) @ '','' @ print_string ''parentFilesystemID'' @ '':''
      @ print_string (m_ParentFilesystemID m) @ '','' @ print_string ''poolName'' @ '':''
      @ print_string (m_PoolName m) @ ''}''
    = print_string (m_LogicalVolumeID m') @ '','' @ print_string ''parentFilesystemID'' @ '':''
      @ print_string (m_ParentFilesystemID m') @ '','' @ print_string ''poolName'' @ '':''
      @ print_string (m_PoolName m') @ ''}''" by simp
  note e3 = free [OF v(3) v'(3) this]
  then have "print_string (m_ParentFilesystemID m) @ '','' @ print_string ''poolName'' @ '':''
      @ print_string (m_PoolName m) @ ''}''
    = print_string (m_ParentFilesystemID m') @ '','' @ print_string ''poolName'' @ '':''
      @ print_string (m_PoolName m') @ ''}''" by simp
  note e4 = free [OF v(4) v'(4) this]
  then have "print_string (m_PoolName m) @ ''}'' = print_string (m_PoolName m') @ ''}''" by simp
  note e5 = free [OF v(5) v'(5) this]
  show ?thesis using e1 e2 e3 e4 e5 by simp
qed

text \<open>
  A handle names at most one mapping. If the same handle validates against two mappings,
  then either the mappings agree in pool, parent, base path, directory and logical volume, or
  their distinct canonical payloads have SHA-256 digests that agree on the first 16 bytes. The
  encoding itself loses nothing.
\<close>

theorem handle_binds_mapping:
  assumes "ValidateMapping h m = None" and "ValidateMapping h m' = None"
  shows "m = m' \<or>
    (Marshal (mapping_payload m) \<noteq> Marshal (mapping_payload m')
     \<and> take 16 (sha256 (Marshal (mapping_payload m))) = take 16 (sha256 (Marshal (mapping_payload m'))))"
proof -
  have v: "Mapping_Validate m = None" "Mapping_Validate m' = None"
    using assms by (auto simp: ValidateMapping_def MappingHash_def)
  have "truncatedCanonicalHash ''mh-'' (mapping_payload m) = truncatedCanonicalHash ''mh-'' (mapping_payload m')"
    using assms by (auto simp: ValidateMapping_def MappingHash_def)
  then have "hex_encode (take 16 (sha256 (Marshal (mapping_payload m))))
      = hex_encode (take 16 (sha256 (Marshal (mapping_payload m'))))"
    by (simp add: truncatedCanonicalHash_def truncatedBytesHash_def)
  then have "take 16 (sha256 (Marshal (mapping_payload m))) = take 16 (sha256 (Marshal (mapping_payload m')))"
    by (rule hex_encode_inj)
  then show ?thesis using mapping_payload_inj [OF v] by blast
qed

definition sample_mapping :: Mapping where
  "sample_mapping = \<lparr>m_PoolName = ''standard'', m_ParentFilesystemID = ''fs-1'', m_BasePath = sample_base,
     m_DirectoryName = sample_dir, m_LogicalVolumeID = sample_lv\<rparr>"

lemma sample_mapping_ok: "Mapping_Validate sample_mapping = None"
  by (simp add: Mapping_Validate_def sample_mapping_def sample_base_ok sample_dir_ok sample_lv_ok
      ValidatePoolName_def poolNamePattern_def ValidateParentFilesystemID_def providerIDPattern_def
      is_alnum_def char_class_defs ascii_eval MaxContextEntryBytes_def)

theorem handle_binds_mapping_witness:
  "\<exists>h. ValidateMapping h sample_mapping = None
     \<and> (sample_mapping = sample_mapping \<or>
        (Marshal (mapping_payload sample_mapping) \<noteq> Marshal (mapping_payload sample_mapping)
         \<and> take 16 (sha256 (Marshal (mapping_payload sample_mapping)))
           = take 16 (sha256 (Marshal (mapping_payload sample_mapping)))))"
proof -
  obtain h where h: "NewHandle sample_mapping = Inr h"
    using sample_mapping_ok by (auto simp: NewHandle_def MappingHash_def)
  then have v: "ValidateMapping h sample_mapping = None"
    by (auto simp: NewHandle_def ValidateMapping_def)
  show ?thesis
    by (intro exI conjI, rule v, rule handle_binds_mapping [OF v v])
qed

end
