(* ===== verification/Request.thy ===== *)
theory Request
  imports Handle
begin

text \<open>
  \<^verbatim>\<open>pkg/volume/request.go\<close> and \<^verbatim>\<open>pkg/volume/capability.go\<close>: normalisation of creation parameters
  and capabilities, the request hash, capacity selection. \<^verbatim>\<open>ValidateCreateReplay\<close>, which reads
  an allocation record, is in the theory of allocation records.
\<close>

definition defaultLogicalReservationBytes :: u64 where
  "defaultLogicalReservationBytes = 1073741824"

definition DeletePolicyArchive :: string where "DeletePolicyArchive = ''archive''"
definition DeletePolicyDelete :: string where "DeletePolicyDelete = ''delete''"
definition DeletePolicyRetain :: string where "DeletePolicyRetain = ''retain''"

definition AccessModeSingleNodeWriter :: string where
  "AccessModeSingleNodeWriter = ''SINGLE_NODE_WRITER''"

definition AccessModeMultiNodeMultiWriter :: string where
  "AccessModeMultiNodeMultiWriter = ''MULTI_NODE_MULTI_WRITER''"

record CreateParameters =
  cp_PoolName :: string
  cp_DeletePolicy :: string
  cp_DirectoryUID :: u32
  cp_DirectoryGID :: u32
  cp_DirectoryMode :: string
  cp_AccessType :: string
  cp_FilesystemType :: string
  cp_AccessModes :: "string list"

record CreateRequestIdentity =
  ri_OriginalRequiredBytes :: u64
  ri_OriginalLimitBytes :: u64
  ri_SelectedCapacityBytes :: u64
  ri_Parameters :: CreateParameters

definition DeletePolicy_Validate :: "string \<Rightarrow> error option" where
  "DeletePolicy_Validate policy =
     ensure (policy \<in> {DeletePolicyArchive, DeletePolicyDelete, DeletePolicyRetain})
       ''delete policy is unsupported''"

definition AccessMode_Validate :: "string \<Rightarrow> error option" where
  "AccessMode_Validate mode =
     ensure (mode \<in> {AccessModeSingleNodeWriter, AccessModeMultiNodeMultiWriter})
       ''access mode is unsupported''"

text \<open>\<^verbatim>\<open>ValidateDirectoryMode\<close> (\<^verbatim>\<open>context.go\<close>): one canonical four-digit octal mode.\<close>

definition ValidateDirectoryMode :: "string \<Rightarrow> error option" where
  "ValidateDirectoryMode mode = errs
     [ensure (length mode = 4 \<and> hd mode = CHR ''0'') ''directory mode must match 0[0-7]{3}'',
      ensure (list_all (\<lambda>c. in_range 48 55 (byte c)) (tl mode)) ''directory mode must match 0[0-7]{3}'']"

text \<open>\<^verbatim>\<open>slices.Compact\<close> after \<^verbatim>\<open>slices.Sort\<close>.\<close>

definition sort_compact :: "string list \<Rightarrow> string list" where
  "sort_compact xs = remdups_adj (sort xs)"

text \<open>The filesystem type accepted by both normalisers: absent or \<^verbatim>\<open>virtiofs\<close> in any case.\<close>

definition supported_fs_type :: "string \<Rightarrow> bool" where
  "supported_fs_type t \<longleftrightarrow> t = [] \<or> lower_equals t ''virtiofs''"

definition Normalize :: "CreateParameters \<Rightarrow> CreateParameters res" where
  "Normalize parameters =
     require (errs
       [ValidatePoolName (cp_PoolName parameters),
        DeletePolicy_Validate (cp_DeletePolicy parameters),
        ensure (cp_DirectoryUID parameters \<le> 2147483647 \<and> cp_DirectoryGID parameters \<le> 2147483647)
          ''directory UID and GID must not exceed 2147483647'',
        ValidateDirectoryMode (cp_DirectoryMode parameters),
        ensure (cp_AccessType parameters = ''mount'') ''access type is unsupported; v1 requires mount'',
        ensure (supported_fs_type (cp_FilesystemType parameters)) ''filesystem type is unsupported'',
        ensure (cp_AccessModes parameters \<noteq> []) ''at least one access mode is required'',
        errs (map AccessMode_Validate (sort_compact (cp_AccessModes parameters)))])
     (Inr (parameters\<lparr>cp_FilesystemType := ''virtiofs'',
                       cp_AccessModes := sort_compact (cp_AccessModes parameters)\<rparr>))"

definition request_payload :: "CreateRequestIdentity \<Rightarrow> CreateParameters \<Rightarrow> json" where
  "request_payload ident parameters = json_map
     [(''accessModes'', JArr (map JStr (cp_AccessModes parameters))),
      (''accessType'', JStr (cp_AccessType parameters)),
      (''deletePolicy'', JStr (cp_DeletePolicy parameters)),
      (''directoryGid'', JNum (unat (cp_DirectoryGID parameters))),
      (''directoryMode'', JStr (cp_DirectoryMode parameters)),
      (''directoryUid'', JNum (unat (cp_DirectoryUID parameters))),
      (''filesystemType'', JStr (cp_FilesystemType parameters)),
      (''originalLimitBytes'', JNum (unat (ri_OriginalLimitBytes ident))),
      (''originalRequiredBytes'', JNum (unat (ri_OriginalRequiredBytes ident))),
      (''poolName'', JStr (cp_PoolName parameters)),
      (''selectedCapacityBytes'', JNum (unat (ri_SelectedCapacityBytes ident)))]"

definition RequestHash :: "CreateRequestIdentity \<Rightarrow> string res" where
  "RequestHash ident =
     and_then (Normalize (ri_Parameters ident))
       (\<lambda>parameters.
          require (errs
            [ensure (ri_SelectedCapacityBytes ident \<noteq> 0) ''selected capacity must be greater than zero'',
             ensure (\<not> (ri_OriginalLimitBytes ident > 0
                        \<and> ri_SelectedCapacityBytes ident > ri_OriginalLimitBytes ident))
               ''selected capacity exceeds original limit''])
          (Inr (truncatedCanonicalHash ''rh-'' (request_payload ident parameters))))"

definition CapacityCompatible :: "u64 \<Rightarrow> u64 \<Rightarrow> u64 \<Rightarrow> bool" where
  "CapacityCompatible selected required limit \<longleftrightarrow>
     (if selected < required then False else limit = 0 \<or> selected \<le> limit)"

definition SelectCapacity :: "u64 \<Rightarrow> u64 \<Rightarrow> u64 res" where
  "SelectCapacity required limit =
     (let selected = (if required = 0 then defaultLogicalReservationBytes else required)
      in if limit > 0 \<and> selected > limit
         then Inl (Errorf ''selected capacity exceeds limit'' [ErrCapacityOutOfRange])
         else Inr selected)"

definition EqualCreateParameters :: "CreateParameters \<Rightarrow> CreateParameters \<Rightarrow> bool" where
  "EqualCreateParameters left right \<longleftrightarrow>
     cp_PoolName left = cp_PoolName right
     \<and> cp_DeletePolicy left = cp_DeletePolicy right
     \<and> cp_DirectoryUID left = cp_DirectoryUID right
     \<and> cp_DirectoryGID left = cp_DirectoryGID right
     \<and> cp_DirectoryMode left = cp_DirectoryMode right
     \<and> cp_AccessType left = cp_AccessType right
     \<and> cp_FilesystemType left = cp_FilesystemType right
     \<and> cp_AccessModes left = cp_AccessModes right"

section \<open>Capabilities\<close>

record Capability =
  c_AccessMode :: string
  c_AccessType :: string
  c_FilesystemType :: string
  c_MountFlags :: "string list"

definition NormalizeCapability :: "Capability \<Rightarrow> Capability res" where
  "NormalizeCapability capability =
     require (errs
       [AccessMode_Validate (c_AccessMode capability),
        ensure (c_AccessType capability = ''mount'') ''access type is unsupported; v1 requires mount'',
        ensure (supported_fs_type (c_FilesystemType capability)) ''filesystem type is unsupported'',
        ensure (c_MountFlags capability = []) ''non-empty mount flags are unsupported for a shared parent mount''])
     (Inr (capability\<lparr>c_FilesystemType := ''virtiofs'', c_MountFlags := []\<rparr>))"

fun normalize_each :: "Capability list \<Rightarrow> Capability list res" where
  "normalize_each [] = Inr []"
| "normalize_each (c # cs) =
     and_then (NormalizeCapability c) (\<lambda>v. and_then (normalize_each cs) (\<lambda>vs. Inr (v # vs)))"

definition capability_key :: "Capability \<Rightarrow> string \<times> string \<times> string" where
  "capability_key c = (c_AccessMode c, c_AccessType c, c_FilesystemType c)"

text \<open>\<^verbatim>\<open>strings.Compare\<close> on access mode, then access type, then filesystem type.\<close>

definition capability_le :: "Capability \<Rightarrow> Capability \<Rightarrow> bool" where
  "capability_le l r \<longleftrightarrow>
     c_AccessMode l < c_AccessMode r \<or> c_AccessMode l = c_AccessMode r \<and>
       (c_AccessType l < c_AccessType r \<or> c_AccessType l = c_AccessType r \<and>
         c_FilesystemType l \<le> c_FilesystemType r)"

fun insert_capability :: "Capability \<Rightarrow> Capability list \<Rightarrow> Capability list" where
  "insert_capability c [] = [c]"
| "insert_capability c (d # ds) = (if capability_le c d then c # d # ds else d # insert_capability c ds)"

fun sort_capabilities :: "Capability list \<Rightarrow> Capability list" where
  "sort_capabilities [] = []"
| "sort_capabilities (c # cs) = insert_capability c (sort_capabilities cs)"

text \<open>\<^verbatim>\<open>slices.CompactFunc\<close>: of a run of equal keys the first element stays.\<close>

fun compact_capabilities :: "Capability list \<Rightarrow> Capability list" where
  "compact_capabilities [] = []"
| "compact_capabilities (c # cs) =
     (case compact_capabilities cs of
        [] \<Rightarrow> [c]
      | d # ds \<Rightarrow> if capability_key c = capability_key d then c # ds else c # d # ds)"

definition NormalizeCapabilities :: "Capability list \<Rightarrow> Capability list res" where
  "NormalizeCapabilities capabilities =
     require (ensure (capabilities \<noteq> []) ''at least one volume capability is required'')
       (and_then (normalize_each capabilities)
          (\<lambda>normalized. Inr (compact_capabilities (sort_capabilities normalized))))"

section \<open>Normalisation\<close>

lemma sort_compact_idem: "sort_compact (sort_compact xs) = sort_compact xs"
  by (simp add: sort_compact_def sorted_remdups_adj sorted_sort_id remdups_adj_distinct distinct_remdups_adj_sorted)

lemma set_sort_compact [simp]: "set (sort_compact xs) = set xs"
  by (simp add: sort_compact_def)

lemma sort_compact_empty [simp]: "sort_compact xs = [] \<longleftrightarrow> xs = []"
  by (simp add: sort_compact_def sort_Nil_iff)

lemma sort_compact_sorted: "sorted (sort_compact xs)" "distinct (sort_compact xs)"
  by (simp_all add: sort_compact_def sorted_remdups_adj distinct_remdups_adj_sorted)

lemma supported_virtiofs: "supported_fs_type ''virtiofs''"
  by (simp add: supported_fs_type_def lower_equals_def to_lower_runes_def runes_def scan_ascii byte_def
      lower_rune_def in_range_def)

lemma normalize_fixpoint:
  assumes "Normalize p = Inr q"
  shows "Normalize q = Inr q" and "cp_PoolName q = cp_PoolName p" and "sorted (cp_AccessModes q)"
    and "distinct (cp_AccessModes q)"
proof -
  have q: "q = p\<lparr>cp_FilesystemType := ''virtiofs'', cp_AccessModes := sort_compact (cp_AccessModes p)\<rparr>"
    using assms by (simp add: Normalize_def)
  show "Normalize q = Inr q"
    using assms by (auto simp: Normalize_def sort_compact_idem supported_virtiofs)
  show "cp_PoolName q = cp_PoolName p" "sorted (cp_AccessModes q)" "distinct (cp_AccessModes q)"
    using sort_compact_sorted by (simp_all add: q)
qed

lemma equal_create_parameters: "EqualCreateParameters l r \<longleftrightarrow> l = r"
  by (cases l; cases r) (auto simp: EqualCreateParameters_def)

lemma sort_compact_cong: "set xs = set ys \<Longrightarrow> sort_compact xs = sort_compact ys"
  using sort_compact_sorted [of xs] sort_compact_sorted [of ys]
  by (intro sorted_distinct_set_unique) simp_all

text \<open>
  Canonical creation parameters. Normalising is idempotent, does not depend on the order
  or multiplicity of the requested access modes, yields sorted distinct modes, and the request
  hash of any spelling of the parameters is the hash of their normal form.
\<close>

theorem Normalize_canonical:
  assumes "Normalize p = Inr q" and "set modes = set (cp_AccessModes p)"
  shows "Normalize q = Inr q \<and> Normalize (p\<lparr>cp_AccessModes := modes\<rparr>) = Inr q
    \<and> sorted (cp_AccessModes q) \<and> distinct (cp_AccessModes q)
    \<and> RequestHash (i\<lparr>ri_Parameters := p\<lparr>cp_AccessModes := modes\<rparr>\<rparr>) = RequestHash (i\<lparr>ri_Parameters := q\<rparr>)"
proof -
  note fix_q = normalize_fixpoint [OF assms(1)]
  have "modes = [] \<longleftrightarrow> cp_AccessModes p = []"
    using assms(2) by auto
  then have eq: "Normalize (p\<lparr>cp_AccessModes := modes\<rparr>) = Inr q"
    using assms(1) sort_compact_cong [OF assms(2)] by (simp add: Normalize_def)
  then show ?thesis
    using fix_q by (simp add: RequestHash_def request_payload_def)
qed

definition sample_parameters :: CreateParameters where
  "sample_parameters = \<lparr>cp_PoolName = ''standard'', cp_DeletePolicy = DeletePolicyArchive,
     cp_DirectoryUID = 1000, cp_DirectoryGID = 1000, cp_DirectoryMode = ''0770'',
     cp_AccessType = ''mount'', cp_FilesystemType = ''virtiofs'',
     cp_AccessModes = [AccessModeMultiNodeMultiWriter]\<rparr>"

lemma sample_parameters_ok: "Normalize sample_parameters = Inr sample_parameters"
  by (simp add: Normalize_def sample_parameters_def ValidatePoolName_def poolNamePattern_def char_class_defs
      DeletePolicy_Validate_def ValidateDirectoryMode_def supported_virtiofs sort_compact_def
      AccessMode_Validate_def)

theorem Normalize_canonical_witness:
  "Normalize (sample_parameters\<lparr>cp_AccessModes :=
      [AccessModeMultiNodeMultiWriter, AccessModeMultiNodeMultiWriter]\<rparr>) = Inr sample_parameters"
  using Normalize_canonical [OF sample_parameters_ok,
      of "[AccessModeMultiNodeMultiWriter, AccessModeMultiNodeMultiWriter]"]
  by (simp add: sample_parameters_def)

text \<open>
  Capacity selection. \<^verbatim>\<open>SelectCapacity\<close> fails, with \<^verbatim>\<open>ErrCapacityOutOfRange\<close>, exactly when a
  limit is given and lies below the required bytes (or below the 1 GiB default when none is
  required); otherwise it returns a positive capacity inside the requested CSI range, which the
  replay check therefore accepts for the same request.
\<close>

theorem SelectCapacity_correct:
  "(case SelectCapacity required limit of
      Inl e \<Rightarrow> errors_is e ErrCapacityOutOfRange \<and> limit \<noteq> 0
               \<and> unat limit < max (unat required) (if required = 0 then 2 ^ 30 else 0)
    | Inr s \<Rightarrow> 0 < unat s \<and> CapacityCompatible s required limit
               \<and> unat s = (if required = 0 then 2 ^ 30 else unat required))"
proof (cases "required = 0")
  case True
  then show ?thesis
    by (auto simp: SelectCapacity_def defaultLogicalReservationBytes_def CapacityCompatible_def
        errors_is_def not_less word_less_nat_alt word_le_nat_alt unat_eq_zero)
next
  case False
  then have "0 < unat required" by (simp add: unat_gt_0)
  with False show ?thesis
    by (auto simp: SelectCapacity_def CapacityCompatible_def errors_is_def not_less word_le_nat_alt
        word_less_nat_alt unat_eq_zero)
qed

section \<open>Capabilities\<close>

lemma set_insert_capability: "set (insert_capability c cs) = insert c (set cs)"
  by (induction cs) auto

lemma set_sort_capabilities: "set (sort_capabilities cs) = set cs"
  by (induction cs) (auto simp: set_insert_capability)

lemma normalize_each_Inr:
  "normalize_each cs = Inr vs \<Longrightarrow>
   (\<forall>v \<in> set vs. \<exists>c \<in> set cs. NormalizeCapability c = Inr v) \<and>
   (\<forall>c \<in> set cs. \<exists>v \<in> set vs. NormalizeCapability c = Inr v)"
  by (induction cs arbitrary: vs) fastforce+

lemma normalized_capability:
  "NormalizeCapability c = Inr v \<Longrightarrow>
   c_AccessMode v \<in> {AccessModeSingleNodeWriter, AccessModeMultiNodeMultiWriter}
   \<and> v = \<lparr>c_AccessMode = c_AccessMode v, c_AccessType = ''mount'', c_FilesystemType = ''virtiofs'', c_MountFlags = []\<rparr>"
  by (cases c) (auto simp: NormalizeCapability_def AccessMode_Validate_def)

end
