(* ===== verification/Context.thy ===== *)
theory Context
  imports Request "HOL-Library.Multiset"
begin

text \<open>
  \<^verbatim>\<open>pkg/volume/context.go\<close>: the immutable CSI volume context and its string map. A Go map is a
  list of key-value pairs with distinct keys, the list being one iteration order; results
  that inspect a map are shown not to depend on that order.
\<close>

type_synonym string_map = "(string \<times> string) list"

definition immutableContextKeys :: "string list" where
  "immutableContextKeys =
     [''schemaVersion'', ''installationID'', ''activeClusterUID'', ''poolName'', ''parentFilesystemID'',
      ''basePath'', ''basePathHash'', ''directoryName'', ''directoryMode'', ''directoryUid'',
      ''directoryGid'', ''onDelete'', ''logicalVolumeID'']"

definition ExternalProvisionerIdentityKey :: string where
  "ExternalProvisionerIdentityKey = ''storage.kubernetes.io/csiProvisionerIdentity''"

record ImmutableContext =
  x_SchemaVersion :: string
  x_InstallationID :: string
  x_ActiveClusterUID :: string
  x_PoolName :: string
  x_ParentFilesystemID :: string
  x_BasePath :: string
  x_BasePathHash :: string
  x_DirectoryName :: string
  x_DirectoryMode :: string
  x_DirectoryUID :: u32
  x_DirectoryGID :: u32
  x_DeletePolicy :: string
  x_LogicalVolumeID :: string

definition Context_Validate :: "ImmutableContext \<Rightarrow> error option" where
  "Context_Validate c = errs
     [ensure (x_SchemaVersion c = SchemaVersionV1) ''volume context schema version is unsupported'',
      ValidateInstallationID (x_InstallationID c),
      ValidateClusterUID (x_ActiveClusterUID c),
      ValidatePoolName (x_PoolName c),
      ValidateParentFilesystemID (x_ParentFilesystemID c),
      ValidateBasePath (x_BasePath c),
      and_check (BasePathHash (x_BasePath c))
        (\<lambda>want. ensure (x_BasePathHash c = want) ''base path hash mismatch''),
      ValidateDirectoryName (x_DirectoryName c),
      ValidateDirectoryMode (x_DirectoryMode c),
      ensure (x_DirectoryUID c \<le> 2147483647 \<and> x_DirectoryGID c \<le> 2147483647)
        ''directory UID and GID must not exceed 2147483647'',
      DeletePolicy_Validate (x_DeletePolicy c),
      ValidateLogicalVolumeID (x_LogicalVolumeID c)]"

text \<open>\<^verbatim>\<open>ValidateWireContext\<close>: the loop over the entries with its running total.\<close>

fun wire_loop :: "nat \<Rightarrow> string_map \<Rightarrow> error option" where
  "wire_loop tot [] = None"
| "wire_loop tot ((key, val) # rest) = errs
     [ensure (valid_string key \<and> valid_string val) ''volume context field is not valid UTF-8'',
      ensure (length key \<le> MaxContextEntryBytes) ''volume context key length exceeds 128 bytes'',
      ensure (length val \<le> MaxContextEntryBytes) ''volume context value exceeds 128 bytes'',
      ensure (tot + (length key + length val) \<le> MaxContextBytes) ''volume context size exceeds 4096 bytes'',
      wire_loop (tot + (length key + length val)) rest]"

definition ValidateWireContext :: "string_map \<Rightarrow> error option" where
  "ValidateWireContext values = wire_loop 0 values"

definition context_entries :: "ImmutableContext \<Rightarrow> string_map" where
  "context_entries c =
     [(''schemaVersion'', x_SchemaVersion c),
      (''installationID'', x_InstallationID c),
      (''activeClusterUID'', x_ActiveClusterUID c),
      (''poolName'', x_PoolName c),
      (''parentFilesystemID'', x_ParentFilesystemID c),
      (''basePath'', x_BasePath c),
      (''basePathHash'', x_BasePathHash c),
      (''directoryName'', x_DirectoryName c),
      (''directoryMode'', x_DirectoryMode c),
      (''directoryUid'', format_uint (unat (x_DirectoryUID c))),
      (''directoryGid'', format_uint (unat (x_DirectoryGID c))),
      (''onDelete'', x_DeletePolicy c),
      (''logicalVolumeID'', x_LogicalVolumeID c)]"

definition Context_Map :: "ImmutableContext \<Rightarrow> string_map res" where
  "Context_Map c =
     require (Context_Validate c)
       (require (ValidateWireContext (context_entries c)) (Inr (context_entries c)))"

definition parseDirectoryIdentity :: "string \<Rightarrow> u32 res" where
  "parseDirectoryIdentity val =
     (if val = [] then Inl (errorf ''volume context field is empty'')
      else case parse_uint 31 val of
          None \<Rightarrow> Inl (errorf ''volume context field is not a base-10 identity in [0,2147483647]'')
        | Some parsed \<Rightarrow>
            if format_uint parsed \<noteq> val
            then Inl (errorf ''volume context field is not canonically encoded'')
            else Inr (of_nat parsed))"

text \<open>\<^verbatim>\<open>values[key]\<close>: the empty string when the key is absent.\<close>

definition map_get :: "string_map \<Rightarrow> string \<Rightarrow> string" where
  "map_get values key = (case map_of values key of None \<Rightarrow> [] | Some v \<Rightarrow> v)"

definition parse_immutable_context :: "string_map \<Rightarrow> ImmutableContext res" where
  "parse_immutable_context values =
     (let identity = map_of values ExternalProvisionerIdentityKey;
          wantFields = length immutableContextKeys + (if identity = None then 0 else 1)
      in require (errs
           [ValidateWireContext values,
            ensure (identity \<noteq> Some []) ''volume context provisioner identity is empty'',
            ensure (length values = wantFields) ''volume context has the wrong number of fields'',
            ensure (list_all (\<lambda>kv. fst kv = ExternalProvisionerIdentityKey
                                   \<or> fst kv \<in> set immutableContextKeys) values)
              ''volume context field is unknown'',
            ensure (list_all (\<lambda>k. map_of values k \<noteq> None) immutableContextKeys)
              ''volume context field is missing''])
         (and_then (parseDirectoryIdentity (map_get values ''directoryUid'')) (\<lambda>uid.
          and_then (parseDirectoryIdentity (map_get values ''directoryGid'')) (\<lambda>gid.
          let c = \<lparr>x_SchemaVersion = map_get values ''schemaVersion'',
                   x_InstallationID = map_get values ''installationID'',
                   x_ActiveClusterUID = map_get values ''activeClusterUID'',
                   x_PoolName = map_get values ''poolName'',
                   x_ParentFilesystemID = map_get values ''parentFilesystemID'',
                   x_BasePath = map_get values ''basePath'',
                   x_BasePathHash = map_get values ''basePathHash'',
                   x_DirectoryName = map_get values ''directoryName'',
                   x_DirectoryMode = map_get values ''directoryMode'',
                   x_DirectoryUID = uid, x_DirectoryGID = gid,
                   x_DeletePolicy = map_get values ''onDelete'',
                   x_LogicalVolumeID = map_get values ''logicalVolumeID''\<rparr>
          in require (Context_Validate c) (Inr c)))))"

definition ParseImmutableContext :: "string_map \<Rightarrow> ImmutableContext res" where
  "ParseImmutableContext values = map_sum (wrap_sentinel ErrInvalidContext) id (parse_immutable_context values)"

definition DriverOwnedContextMap :: "string_map \<Rightarrow> string_map res" where
  "DriverOwnedContextMap values = and_then (ParseImmutableContext values) Context_Map"

section \<open>Wire limits\<close>

definition entry_size :: "string \<times> string \<Rightarrow> nat" where
  "entry_size kv = length (fst kv) + length (snd kv)"

definition entry_ok :: "string \<times> string \<Rightarrow> bool" where
  "entry_ok kv \<longleftrightarrow> valid_string (fst kv) \<and> valid_string (snd kv)
     \<and> length (fst kv) \<le> MaxContextEntryBytes \<and> length (snd kv) \<le> MaxContextEntryBytes"

lemma wire_loop_iff:
  "wire_loop tot kvs = None \<longleftrightarrow>
   (\<forall>kv \<in> set kvs. entry_ok kv) \<and> (kvs = [] \<or> tot + sum_list (map entry_size kvs) \<le> MaxContextBytes)"
  by (induction tot kvs rule: wire_loop.induct)
    (auto simp: entry_ok_def entry_size_def)

lemma ValidateWireContext_iff:
  "ValidateWireContext kvs = None \<longleftrightarrow>
   (\<forall>kv \<in> set kvs. entry_ok kv) \<and> sum_list (map entry_size kvs) \<le> MaxContextBytes"
  by (auto simp: ValidateWireContext_def wire_loop_iff)

text \<open>Every validated context fits the wire limits, so \<^verbatim>\<open>Map\<close> never fails on one.\<close>

lemma format_uint_length: "n < 10 ^ k \<Longrightarrow> 0 < k \<Longrightarrow> length (format_uint n) \<le> k"
proof (induction n arbitrary: k rule: format_uint.induct)
  case (1 n)
  show ?case
  proof (cases "n < 10")
    case True
    with 1 show ?thesis by (simp add: format_uint.simps [of n])
  next
    case False
    with 1 obtain j where k: "k = Suc j" "0 < j" by (cases k; cases "k - 1") auto
    with 1 False have "n div 10 < 10 ^ j" by (simp add: less_mult_imp_div_less mult.commute)
    with 1 False k show ?thesis by (simp add: format_uint.simps [of n])
  qed
qed

lemma valid_string_digits: "list_all is_digit s \<Longrightarrow> valid_string s"
  by (rule valid_string_ascii) (auto simp: list_all_iff char_class_defs)

lemma uid_entry:
  assumes "(u :: u32) \<le> 2147483647"
  shows "valid_string (format_uint (unat u))" and "length (format_uint (unat u)) \<le> 10"
proof -
  show "valid_string (format_uint (unat u))"
    using format_uint_props by (blast intro: valid_string_digits)
  have "unat u \<le> 2147483647" using assms by (simp add: word_le_nat_alt)
  then show "length (format_uint (unat u)) \<le> 10"
    by (intro format_uint_length) simp_all
qed

lemma hash_entry: "hash_pattern p s \<Longrightarrow> list_all ident_char p \<Longrightarrow> valid_string s \<and> length s = length p + 32"
  using hash_pattern_chars [of p s] hash_pattern_length [of p s]
  by (auto intro!: valid_string_ascii simp: list_all_iff ident_char_def char_class_defs)

lemma uuid_entry: "uuidPattern s \<Longrightarrow> valid_string s \<and> length s = 36"
  using uuid_chars [of s] uuid_length [of s]
  by (auto intro!: valid_string_ascii simp: list_all_iff ident_char_def char_class_defs)

lemma pool_entry: "ValidatePoolName s = None \<Longrightarrow> valid_string s \<and> length s \<le> 63"
  by (auto intro!: valid_string_ascii simp: ValidatePoolName_def poolNamePattern_def list_all_iff char_class_defs)

lemma mode_entry: "ValidateDirectoryMode s = None \<Longrightarrow> valid_string s \<and> length s = 4"
  by (cases s) (fastforce intro!: valid_string_ascii simp: ValidateDirectoryMode_def list_all_iff char_class_defs)+

lemma policy_entry: "DeletePolicy_Validate s = None \<Longrightarrow> valid_string s \<and> length s \<le> 7"
  by (auto intro!: valid_string_ascii simp: DeletePolicy_Validate_def DeletePolicyArchive_def
      DeletePolicyDelete_def DeletePolicyRetain_def byte_def)

lemma context_entries_ok:
  assumes "Context_Validate c = None"
  shows "\<forall>kv \<in> set (context_entries c). entry_ok kv"
    and "sum_list (map entry_size (context_entries c)) \<le> MaxContextBytes - 256"
proof -
  have v: "x_SchemaVersion c = SchemaVersionV1" "ValidateInstallationID (x_InstallationID c) = None"
    "ValidateClusterUID (x_ActiveClusterUID c) = None" "ValidatePoolName (x_PoolName c) = None"
    "ValidateParentFilesystemID (x_ParentFilesystemID c) = None" "ValidateBasePath (x_BasePath c) = None"
    "x_BasePathHash c = truncatedBytesHash ''bp-'' (x_BasePath c)"
    "ValidateDirectoryName (x_DirectoryName c) = None" "ValidateDirectoryMode (x_DirectoryMode c) = None"
    "x_DirectoryUID c \<le> 2147483647" "x_DirectoryGID c \<le> 2147483647"
    "DeletePolicy_Validate (x_DeletePolicy c) = None" "ValidateLogicalVolumeID (x_LogicalVolumeID c) = None"
    using assms by (auto simp: Context_Validate_def BasePathHash_def)
  have e: "valid_string (x_InstallationID c) \<and> length (x_InstallationID c) = 36"
    "valid_string (x_ActiveClusterUID c) \<and> length (x_ActiveClusterUID c) \<le> 128"
    "valid_string (x_ParentFilesystemID c) \<and> length (x_ParentFilesystemID c) \<le> 128"
    "valid_string (x_BasePath c) \<and> length (x_BasePath c) \<le> 128"
    "valid_string (x_DirectoryName c) \<and> length (x_DirectoryName c) \<le> 128"
    using v(2,3,5,6,8) uuid_entry
    by (simp_all add: ValidateInstallationID_def ValidateClusterUID_def ValidateParentFilesystemID_def
        ValidateBasePath_def ValidateDirectoryName_def Let_def MaxContextEntryBytes_def MaxDirectoryNameBytes_def)
  have f: "valid_string (x_BasePathHash c) \<and> length (x_BasePathHash c) = 35"
    using hash_entry [of "''bp-''" "x_BasePathHash c"] v(7)
    by (simp add: ident_char_def char_class_defs)
  have g: "valid_string (x_LogicalVolumeID c) \<and> length (x_LogicalVolumeID c) = 35"
    using hash_entry [of "''lv-''" "x_LogicalVolumeID c"] v(13)
    by (simp add: ValidateLogicalVolumeID_def ident_char_def char_class_defs)
  have keys: "\<forall>k \<in> set immutableContextKeys. valid_string k"
    by (auto intro!: valid_string_ascii simp: immutableContextKeys_def byte_def)
  note facts = e f g pool_entry [OF v(4)] mode_entry [OF v(9)] policy_entry [OF v(12)]
    uid_entry [OF v(10)] uid_entry [OF v(11)]
  show "\<forall>kv \<in> set (context_entries c). entry_ok kv"
    using facts keys v(1)
    by (simp add: context_entries_def entry_ok_def immutableContextKeys_def MaxContextEntryBytes_def
        SchemaVersionV1_def valid_string_ascii byte_def)
  show "sum_list (map entry_size (context_entries c)) \<le> MaxContextBytes - 256"
    using facts v(1)
    by (simp add: context_entries_def entry_size_def MaxContextBytes_def SchemaVersionV1_def)
qed

lemma context_map_total: "Context_Validate c = None \<Longrightarrow> Context_Map c = Inr (context_entries c)"
  using context_entries_ok [of c]
  by (simp add: Context_Map_def ValidateWireContext_iff)

section \<open>Round trips\<close>

lemma parse_directory_identity_format:
  "(u :: u32) \<le> 2147483647 \<Longrightarrow> parseDirectoryIdentity (format_uint (unat u)) = Inr u"
  using format_uint_props [of "unat u"]
  by (simp add: parseDirectoryIdentity_def parse_format_uint word_le_nat_alt)

lemma parse_directory_identity_inv:
  assumes "parseDirectoryIdentity s = Inr u"
  shows "s = format_uint (unat u) \<and> u \<le> 2147483647"
proof -
  obtain n where n: "parse_uint 31 s = Some n" "format_uint n = s" "u = of_nat n"
    using assms by (auto simp: parseDirectoryIdentity_def split: if_splits option.splits)
  then have "n < 2 ^ 31" by (auto simp: parse_uint_def split: if_splits)
  then have "unat u = n" using n(3) by (simp add: unat_of_nat)
  with n \<open>n < 2 ^ 31\<close> show ?thesis by (simp add: word_le_nat_alt)
qed

lemma parse_values:
  assumes "Context_Validate c = None"
    and look: "\<forall>(k, v) \<in> set (context_entries c). map_of values k = Some v"
    and "ValidateWireContext values = None" and "map_of values ExternalProvisionerIdentityKey \<noteq> Some []"
    and "length values = 13 + (if map_of values ExternalProvisionerIdentityKey = None then 0 else 1)"
    and "\<forall>kv \<in> set values. fst kv = ExternalProvisionerIdentityKey \<or> fst kv \<in> set immutableContextKeys"
  shows "ParseImmutableContext values = Inr c"
proof -
  have uid: "x_DirectoryUID c \<le> 2147483647" "x_DirectoryGID c \<le> 2147483647"
    using assms(1) by (simp_all add: Context_Validate_def)
  have "list_all (\<lambda>k. map_of values k \<noteq> None) immutableContextKeys"
    using look by (simp add: context_entries_def immutableContextKeys_def)
  moreover have "length immutableContextKeys = 13" by (simp add: immutableContextKeys_def)
  ultimately have "parse_immutable_context values = Inr c"
    using assms look parse_directory_identity_format [OF uid(1)] parse_directory_identity_format [OF uid(2)]
    by (cases c) (simp add: parse_immutable_context_def Let_def map_get_def list_all_iff context_entries_def)
  then show ?thesis by (simp add: ParseImmutableContext_def)
qed

lemma context_keys: "map fst (context_entries c) = immutableContextKeys"
  by (simp add: context_entries_def immutableContextKeys_def)

lemma distinct_context_keys: "distinct immutableContextKeys"
  "ExternalProvisionerIdentityKey \<notin> set immutableContextKeys"
  by (simp_all add: immutableContextKeys_def ExternalProvisionerIdentityKey_def)

definition identity_entries :: "string option \<Rightarrow> string_map" where
  "identity_entries identity =
     (case identity of None \<Rightarrow> [] | Some i \<Rightarrow> [(ExternalProvisionerIdentityKey, i)])"

definition identity_ok :: "string option \<Rightarrow> bool" where
  "identity_ok identity \<longleftrightarrow>
     (case identity of None \<Rightarrow> True
      | Some i \<Rightarrow> i \<noteq> [] \<and> valid_string i \<and> length i \<le> MaxContextEntryBytes)"

lemma delivered_wire_ok:
  assumes "Context_Validate c = None" and "identity_ok identity"
    and "mset values = mset (identity_entries identity @ context_entries c)"
  shows "ValidateWireContext values = None"
proof -
  note ok = context_entries_ok [OF assms(1)]
  have key: "valid_string ExternalProvisionerIdentityKey \<and> length ExternalProvisionerIdentityKey = 44"
    by (simp add: ExternalProvisionerIdentityKey_def valid_string_ascii byte_def)
  have set: "set values = set (identity_entries identity @ context_entries c)"
    using assms(3) by (rule mset_eq_setD)
  have "mset (map entry_size values) = mset (map entry_size (identity_entries identity @ context_entries c))"
    using assms(3) by (simp only: mset_map)
  then have "sum_list (map entry_size values)
      = sum_list (map entry_size (identity_entries identity @ context_entries c))"
    by (metis sum_mset_sum_list)
  also have "\<dots> \<le> MaxContextBytes"
    using ok(2) assms(2) key
    by (auto simp: identity_entries_def identity_ok_def entry_size_def MaxContextBytes_def MaxContextEntryBytes_def
        split: option.splits)
  finally show ?thesis
    using ok(1) assms(2) key set
    by (auto simp: ValidateWireContext_iff identity_entries_def identity_ok_def entry_ok_def
        MaxContextEntryBytes_def split: option.splits)
qed

text \<open>
  (C26) Volume contexts round-trip through Kubernetes. \<^verbatim>\<open>Map\<close> succeeds on every validated context,
  and parsing its entries gives the context back, whether they arrive as the driver sent them
  or with the one non-empty provisioner identity that external-provisioner adds, in any order.
\<close>

theorem context_roundtrip:
  assumes "Context_Validate c = None" and "identity_ok identity"
    and "mset values = mset (identity_entries identity @ context_entries c)"
  shows "Context_Map c = Inr (context_entries c) \<and> ParseImmutableContext values = Inr c
    \<and> DriverOwnedContextMap values = Inr (context_entries c)"
proof -
  let ?all = "identity_entries identity @ context_entries c"
  have map: "Context_Map c = Inr (context_entries c)" by (rule context_map_total [OF assms(1)])
  have "mset (map fst values) = mset (map fst ?all)"
    using assms(3) by (simp only: mset_map)
  moreover have "distinct (map fst ?all)"
    using distinct_context_keys by (auto simp: identity_entries_def context_keys split: option.splits)
  ultimately have dist: "distinct (map fst values)"
    by (metis mset_eq_imp_distinct_iff)
  have set: "set values = set ?all" using assms(3) by (rule mset_eq_setD)
  have look: "map_of values k = Some v" if "(k, v) \<in> set ?all" for k v
    using map_of_is_SomeI [OF dist] that set by blast
  have ident: "map_of values ExternalProvisionerIdentityKey = identity"
  proof (cases identity)
    case None
    then have "ExternalProvisionerIdentityKey \<notin> fst ` set values"
      using set distinct_context_keys(2) context_keys [of c] by (simp add: identity_entries_def flip: set_map)
    with None show ?thesis by (simp add: map_of_eq_None_iff)
  qed (use look in \<open>simp add: identity_entries_def\<close>)
  have len: "length values = 13 + (if identity = None then 0 else 1)"
    using mset_eq_length [OF assms(3)] by (auto simp: identity_entries_def context_entries_def)
  have "ParseImmutableContext values = Inr c"
  proof (rule parse_values [OF assms(1)])
    show "\<forall>(k, v) \<in> set (context_entries c). map_of values k = Some v" using look by auto
    show "ValidateWireContext values = None" by (rule delivered_wire_ok [OF assms])
    show "map_of values ExternalProvisionerIdentityKey \<noteq> Some []"
      using ident assms(2) by (auto simp: identity_ok_def)
    show "length values = 13 + (if map_of values ExternalProvisionerIdentityKey = None then 0 else 1)"
      using ident len by simp
    have "fst ` set (context_entries c) = set immutableContextKeys"
      by (metis context_keys set_map)
    then have "fst ` set values \<subseteq> insert ExternalProvisionerIdentityKey (set immutableContextKeys)"
      by (auto simp: set identity_entries_def split: option.splits)
    then show "\<forall>kv \<in> set values. fst kv = ExternalProvisionerIdentityKey \<or> fst kv \<in> set immutableContextKeys"
      by auto
  qed
  with map show ?thesis by (simp add: DriverOwnedContextMap_def)
qed

definition sample_context :: ImmutableContext where
  "sample_context = \<lparr>x_SchemaVersion = SchemaVersionV1, x_InstallationID = sample_uuid,
     x_ActiveClusterUID = ''cluster-1'', x_PoolName = ''standard'', x_ParentFilesystemID = ''fs-1'',
     x_BasePath = sample_base, x_BasePathHash = truncatedBytesHash ''bp-'' sample_base,
     x_DirectoryName = sample_dir, x_DirectoryMode = ''0770'', x_DirectoryUID = 1000, x_DirectoryGID = 1000,
     x_DeletePolicy = DeletePolicyArchive, x_LogicalVolumeID = sample_lv\<rparr>"

lemma sample_context_ok: "Context_Validate sample_context = None"
  using sample_mapping_ok sample_base_ok sample_dir_ok sample_lv_ok sample_uuid_ok
  by (simp add: Context_Validate_def sample_context_def sample_mapping_def Mapping_Validate_def BasePathHash_def
      ValidateInstallationID_def ValidateClusterUID_def contains_any_def ValidateDirectoryMode_def
      DeletePolicy_Validate_def char_class_defs ascii_eval MaxContextEntryBytes_def)

theorem context_roundtrip_witness:
  "ParseImmutableContext ((ExternalProvisionerIdentityKey, ''provisioner-1'') # context_entries sample_context)
   = Inr sample_context"
proof -
  have "identity_ok (Some ''provisioner-1'')"
    by (simp add: identity_ok_def ascii_eval MaxContextEntryBytes_def)
  from context_roundtrip [OF sample_context_ok this] show ?thesis
    by (simp add: identity_entries_def)
qed

text \<open>
  Nothing foreign enters a context. Whatever map the controller or node accepts as a volume
  context carries exactly the thirteen driver fields of the parsed context, with the values
  \<^verbatim>\<open>Map\<close> would send, and at most the provisioner identity beside them.
\<close>

theorem context_parse_sound:
  assumes "distinct (map fst values)" and "ParseImmutableContext values = Inr c"
  shows "Context_Validate c = None
    \<and> mset values = mset (identity_entries (map_of values ExternalProvisionerIdentityKey) @ context_entries c)"
proof -
  let ?i = "map_of values ExternalProvisionerIdentityKey"
  have p: "parse_immutable_context values = Inr c"
    using assms(2) by (cases "parse_immutable_context values") (simp_all add: ParseImmutableContext_def)
  then have val: "Context_Validate c = None"
    and len: "length values = 13 + (if ?i = None then 0 else 1)"
    and present: "\<forall>k \<in> set immutableContextKeys. map_of values k \<noteq> None"
    and uid: "parseDirectoryIdentity (map_get values ''directoryUid'') = Inr (x_DirectoryUID c)"
    and gid: "parseDirectoryIdentity (map_get values ''directoryGid'') = Inr (x_DirectoryGID c)"
    by (auto simp: parse_immutable_context_def Let_def list_all_iff immutableContextKeys_def)
  have c: "context_entries c = map (\<lambda>k. (k, map_get values k)) immutableContextKeys"
    using p parse_directory_identity_inv [OF uid] parse_directory_identity_inv [OF gid]
    by (auto simp: parse_immutable_context_def Let_def context_entries_def immutableContextKeys_def)
  have sub: "set (identity_entries ?i @ context_entries c) \<subseteq> set values"
  proof
    fix kv assume "kv \<in> set (identity_entries ?i @ context_entries c)"
    then have "map_of values (fst kv) = Some (snd kv)"
      using present by (auto simp: identity_entries_def c map_get_def split: option.splits)
    then show "kv \<in> set values" by (metis map_of_SomeD prod.collapse)
  qed
  have dist: "distinct (identity_entries ?i @ context_entries c)"
  proof -
    have "distinct (map fst (identity_entries ?i @ context_entries c))"
      using distinct_context_keys by (auto simp: identity_entries_def context_keys split: option.splits)
    then show ?thesis using distinct_map by blast
  qed
  have "card (set values) = length values" "distinct values"
    using assms(1) by (auto simp: distinct_map distinct_card)
  moreover have "card (set (identity_entries ?i @ context_entries c)) = length values"
    using distinct_card [OF dist] len by (simp add: identity_entries_def context_entries_def split: option.splits)
  ultimately have "set (identity_entries ?i @ context_entries c) = set values"
    using sub by (intro card_subset_eq) simp_all
  then have "mset values = mset (identity_entries ?i @ context_entries c)"
    using dist \<open>distinct values\<close> by (metis set_eq_iff_mset_eq_distinct)
  with val show ?thesis by simp
qed

theorem context_parse_sound_witness:
  "distinct (map fst (context_entries sample_context))
   \<and> mset (context_entries sample_context) = mset (identity_entries None @ context_entries sample_context)
   \<and> Context_Validate sample_context = None"
proof -
  have d: "distinct (map fst (context_entries sample_context))"
    using distinct_context_keys(1) by (simp add: context_keys)
  have p: "ParseImmutableContext (context_entries sample_context) = Inr sample_context"
    by (rule parse_values [OF sample_context_ok])
      (use context_entries_ok [OF sample_context_ok] in
        \<open>auto simp: ValidateWireContext_iff MaxContextBytes_def context_entries_def
          ExternalProvisionerIdentityKey_def immutableContextKeys_def\<close>)
  show ?thesis
    using d context_parse_sound [OF d p] by (simp add: identity_entries_def)
qed

end
