(* ===== verification/Allocation.thy ===== *)
theory Allocation
  imports Context
begin

text \<open>
  \<^verbatim>\<open>pkg/volume/allocation.go\<close>: the three durable allocation variants kept in Kubernetes, their
  validation and their canonical JSON, and \<^verbatim>\<open>ValidateCreateReplay\<close> of \<^verbatim>\<open>request.go\<close>. A Go slice that
  is compared with nil is an \<open>option\<close>. Validators take a record value; the nil receiver of the
  source is the \<open>None\<close> of the callers that take a pointer.
\<close>

section \<open>Closed string types\<close>

definition AllocationRecordDetailed :: string where "AllocationRecordDetailed = ''detailed''"
definition AllocationRecordCompactDeleted :: string where "AllocationRecordCompactDeleted = ''compactDeleted''"
definition AllocationRecordDeletedUnknown :: string where "AllocationRecordDeletedUnknown = ''deletedUnknown''"

definition StateReserved :: string where "StateReserved = ''Reserved''"
definition StateCreatingDirectory :: string where "StateCreatingDirectory = ''CreatingDirectory''"
definition StateReady :: string where "StateReady = ''Ready''"
definition StateDeleting :: string where "StateDeleting = ''Deleting''"
definition StateArchived :: string where "StateArchived = ''Archived''"
definition StateDeleted :: string where "StateDeleted = ''Deleted''"
definition StateRetained :: string where "StateRetained = ''Retained''"

definition DeleteOperationArchive :: string where "DeleteOperationArchive = ''archive''"
definition DeleteOperationDelete :: string where "DeleteOperationDelete = ''delete''"
definition DeleteOperationRetain :: string where "DeleteOperationRetain = ''retain''"

definition RecoverySourceOwnershipOnly :: string where "RecoverySourceOwnershipOnly = ''ownership-only''"
definition RecoverySourcePVAndOwnership :: string where "RecoverySourcePVAndOwnership = ''pv-and-ownership''"

lemmas state_defs = StateReserved_def StateCreatingDirectory_def StateReady_def StateDeleting_def
  StateArchived_def StateDeleted_def StateRetained_def

lemma state_neqs [simp]:
  "StateReserved \<noteq> StateCreatingDirectory" "StateReserved \<noteq> StateReady" "StateReserved \<noteq> StateDeleting"
  "StateReserved \<noteq> StateArchived" "StateReserved \<noteq> StateDeleted" "StateReserved \<noteq> StateRetained"
  "StateCreatingDirectory \<noteq> StateReserved" "StateCreatingDirectory \<noteq> StateReady" "StateCreatingDirectory \<noteq> StateDeleting"
  "StateCreatingDirectory \<noteq> StateArchived" "StateCreatingDirectory \<noteq> StateDeleted" "StateCreatingDirectory \<noteq> StateRetained"
  "StateReady \<noteq> StateReserved" "StateReady \<noteq> StateCreatingDirectory" "StateReady \<noteq> StateDeleting"
  "StateReady \<noteq> StateArchived" "StateReady \<noteq> StateDeleted" "StateReady \<noteq> StateRetained"
  "StateDeleting \<noteq> StateReserved" "StateDeleting \<noteq> StateCreatingDirectory" "StateDeleting \<noteq> StateReady"
  "StateDeleting \<noteq> StateArchived" "StateDeleting \<noteq> StateDeleted" "StateDeleting \<noteq> StateRetained"
  "StateArchived \<noteq> StateReserved" "StateArchived \<noteq> StateCreatingDirectory" "StateArchived \<noteq> StateReady"
  "StateArchived \<noteq> StateDeleting" "StateArchived \<noteq> StateDeleted" "StateArchived \<noteq> StateRetained"
  "StateDeleted \<noteq> StateReserved" "StateDeleted \<noteq> StateCreatingDirectory" "StateDeleted \<noteq> StateReady"
  "StateDeleted \<noteq> StateDeleting" "StateDeleted \<noteq> StateArchived" "StateDeleted \<noteq> StateRetained"
  "StateRetained \<noteq> StateReserved" "StateRetained \<noteq> StateCreatingDirectory" "StateRetained \<noteq> StateReady"
  "StateRetained \<noteq> StateDeleting" "StateRetained \<noteq> StateArchived" "StateRetained \<noteq> StateDeleted"
  by (simp_all add: state_defs)

lemma state_nonempty [simp]:
  "StateReserved \<noteq> []"
  "StateCreatingDirectory \<noteq> []"
  "StateReady \<noteq> []"
  "StateDeleting \<noteq> []"
  "StateArchived \<noteq> []"
  "StateDeleted \<noteq> []"
  "StateRetained \<noteq> []"
  by (simp_all add: state_defs)

lemma operation_neqs [simp]:
  "DeleteOperationArchive \<noteq> DeleteOperationDelete" "DeleteOperationArchive \<noteq> DeleteOperationRetain" "DeleteOperationDelete \<noteq> DeleteOperationArchive" "DeleteOperationDelete \<noteq> DeleteOperationRetain" "DeleteOperationRetain \<noteq> DeleteOperationArchive" "DeleteOperationRetain \<noteq> DeleteOperationDelete"
  "DeleteOperationArchive \<noteq> []" "DeleteOperationDelete \<noteq> []" "DeleteOperationRetain \<noteq> []"
  by (simp_all add: DeleteOperationArchive_def DeleteOperationDelete_def DeleteOperationRetain_def)

section \<open>Records\<close>

record DetailedAllocationRecord =
  a_SchemaVersion :: string
  a_RecordKind :: string
  a_RecordRevision :: u64
  a_DriverName :: string
  a_ActiveClusterUID :: string
  a_State :: string
  a_InstallationID :: string
  a_CreateVolumeRequestName :: string
  a_RequestHash :: string
  a_OriginalRequiredBytes :: u64
  a_OriginalLimitBytes :: u64
  a_SelectedCapacityBytes :: u64
  a_NormalizedCreateParameters :: CreateParameters
  a_LogicalVolumeID :: string
  a_VolumeHandle :: string
  a_VolumeHandleHash :: string
  a_MappingHash :: string
  a_PoolName :: string
  a_ParentFilesystemID :: string
  a_BasePath :: string
  a_BasePathHash :: string
  a_DirectoryName :: string
  a_ReservesCapacity :: bool
  a_DeletePolicy :: string
  a_DeleteResult :: string
  a_DeleteOperationID :: string
  a_DeleteOperation :: string
  a_DeleteSourcePath :: string
  a_DeleteTargetPath :: string
  a_DeletePreparedAt :: string
  a_DeleteRemoveStartedAt :: string
  a_DeleteCompletedAt :: string
  a_DirectoryUID :: u32
  a_DirectoryGID :: u32
  a_DirectoryMode :: string
  a_CreatedAt :: string
  a_UpdatedAt :: string
  a_DeletedAt :: string
  a_ArchivedPath :: string
  a_RetainedPath :: string
  a_QuarantinePath :: string
  a_PublishedNodeIDs :: "string list option"
  a_GCRequestID :: string
  a_GCRequestedMode :: string
  a_GCExpectedState :: string
  a_GCRequestedAt :: string
  a_GCOperationID :: string
  a_GCTargetPath :: string
  a_GCQuarantinePath :: string
  a_GCStartedAt :: string
  a_GCRemoveStartedAt :: string
  a_GCCompletedAt :: string
  a_RecoveryOperationID :: string
  a_RecoverySource :: string
  a_RecoveredAt :: string

record CompactDeletedAllocationRecord =
  ca_SchemaVersion :: string
  ca_RecordKind :: string
  ca_RecordRevision :: u64
  ca_DriverName :: string
  ca_InstallationID :: string
  ca_ActiveClusterUID :: string
  ca_CreateVolumeRequestName :: string
  ca_LogicalVolumeID :: string
  ca_VolumeHandleHash :: string
  ca_MappingHash :: string
  ca_State :: string
  ca_ParentFilesystemID :: string
  ca_DirectoryName :: string
  ca_ReservesCapacity :: bool
  ca_DeleteResult :: string
  ca_UpdatedAt :: string
  ca_DeletedAt :: string
  ca_DeleteOperationID :: string
  ca_DeleteOperation :: string
  ca_ArchivedPath :: string
  ca_RetainedPath :: string
  ca_QuarantinePath :: string
  ca_DeleteCompletedAt :: string
  ca_GCOperationID :: string
  ca_GCTargetPath :: string
  ca_GCQuarantinePath :: string
  ca_GCCompletedAt :: string

record DeletedUnknownAllocationRecord =
  ua_SchemaVersion :: string
  ua_RecordKind :: string
  ua_RecordRevision :: u64
  ua_DriverName :: string
  ua_InstallationID :: string
  ua_ActiveClusterUID :: string
  ua_LogicalVolumeID :: string
  ua_VolumeHandleHash :: string
  ua_MappingHash :: string
  ua_State :: string
  ua_ReservesCapacity :: bool
  ua_AbsenceReason :: string
  ua_CreatedAt :: string
  ua_UpdatedAt :: string
  ua_DeletedAt :: string

text \<open>The interface \<^verbatim>\<open>AllocationRecord\<close> and its methods.\<close>

datatype AllocationRecord =
    DetailedA DetailedAllocationRecord
  | CompactA CompactDeletedAllocationRecord
  | UnknownA DeletedUnknownAllocationRecord

fun Allocation_Kind :: "AllocationRecord \<Rightarrow> string" where
  "Allocation_Kind (DetailedA r) = a_RecordKind r"
| "Allocation_Kind (CompactA r) = ca_RecordKind r"
| "Allocation_Kind (UnknownA r) = ua_RecordKind r"

fun Allocation_LifecycleState :: "AllocationRecord \<Rightarrow> string" where
  "Allocation_LifecycleState (DetailedA r) = a_State r"
| "Allocation_LifecycleState (CompactA r) = ca_State r"
| "Allocation_LifecycleState (UnknownA r) = ua_State r"

fun Allocation_LogicalID :: "AllocationRecord \<Rightarrow> string" where
  "Allocation_LogicalID (DetailedA r) = a_LogicalVolumeID r"
| "Allocation_LogicalID (CompactA r) = ca_LogicalVolumeID r"
| "Allocation_LogicalID (UnknownA r) = ua_LogicalVolumeID r"

section \<open>Validation\<close>

definition Reserves :: "string \<Rightarrow> bool res" where
  "Reserves state =
     (if state \<in> {StateReserved, StateCreatingDirectory, StateReady, StateDeleting, StateArchived, StateRetained}
      then Inr True
      else if state = StateDeleted then Inr False
      else Inl (errorf ''allocation state is unsupported''))"

definition validateCommonRecordIdentity ::
  "string \<Rightarrow> string \<Rightarrow> string \<Rightarrow> string \<Rightarrow> string \<Rightarrow> string \<Rightarrow> error option" where
  "validateCommonRecordIdentity driverName installationID clusterUID logicalVolumeID handleHash mappingHash = errs
     [ValidateDriverName driverName,
      ValidateInstallationID installationID,
      ValidateClusterUID clusterUID,
      ValidateLogicalVolumeID logicalVolumeID,
      validateVolumeHandleHash handleHash,
      validateMappingHash mappingHash]"

fun nodes_loop :: "string option \<Rightarrow> string list \<Rightarrow> error option" where
  "nodes_loop prev [] = None"
| "nodes_loop prev (node # rest) = errs
     [ValidateNodeID node,
      ensure (prev \<noteq> Some node) ''published node ID is duplicated'',
      nodes_loop (Some node) rest]"

definition validatePublishedNodes :: "string list option \<Rightarrow> error option" where
  "validatePublishedNodes nodes =
     (case nodes of
        None \<Rightarrow> Some (errorf ''published node IDs must be an explicit array'')
      | Some ns \<Rightarrow> errs
          [ensure (sorted ns) ''published node IDs must be sorted canonically'', nodes_loop None ns])"

definition validateOptionalTimestampFields :: "(string \<times> string) list \<Rightarrow> error option" where
  "validateOptionalTimestampFields entries =
     errs (map (\<lambda>(name, val). if val \<noteq> [] then validateRequiredTimestamp name val else None) entries)"

definition validatePersistedPath :: "string \<Rightarrow> string \<Rightarrow> error option" where
  "validatePersistedPath basePath candidate = errs
     [ensure (candidate \<noteq> [] \<and> has_prefix candidate ''/'' \<and> path_clean candidate = candidate)
        ''path is empty, relative, or non-normalized'',
      ensure (candidate \<noteq> basePath \<and> has_prefix candidate (basePath @ ''/''))
        ''path is not strictly below base path'']"

definition present_count :: "string list \<Rightarrow> nat" where
  "present_count entries = length (filter (\<lambda>v. v \<noteq> []) entries)"

definition validateCompactAudit :: "string \<Rightarrow> string \<Rightarrow> string \<Rightarrow> string \<Rightarrow> string \<Rightarrow> error option" where
  "validateCompactAudit deleteOperationID deleteOperation deleteCompletedAt gcOperationID gcCompletedAt =
     (let deletePresent = (deleteOperationID \<noteq> [] \<or> deleteOperation \<noteq> [] \<or> deleteCompletedAt \<noteq> []);
          gcPresent = (gcOperationID \<noteq> [] \<or> gcCompletedAt \<noteq> [])
      in errs
        [ensure (\<not> (deleteOperationID = [] \<and> gcOperationID = []))
           ''compact tombstone must retain a delete or GC operation ID'',
         ensure (\<not> (deletePresent \<and> (deleteOperationID = [] \<or> deleteOperation = [] \<or> deleteCompletedAt = [])))
           ''compact delete audit fields must be all present or all absent'',
         (if deleteOperationID \<noteq> [] then errs
            [ValidateOperationID deleteOperationID,
             ensure (\<not> (deleteOperation = [] \<or> deleteCompletedAt = []))
               ''compact delete audit requires operation and completion timestamp'']
          else None),
         ensure (\<not> (gcPresent \<and> (gcOperationID = [] \<or> gcCompletedAt = [])))
           ''compact GC audit fields must be both present or both absent'',
         (if gcOperationID \<noteq> [] then errs
            [ValidateOperationID gcOperationID,
             ensure (gcCompletedAt \<noteq> []) ''compact GC audit requires completion timestamp'']
          else None),
         validateOptionalTimestampFields
           [(''deleteCompletedAt'', deleteCompletedAt), (''gcCompletedAt'', gcCompletedAt)]])"

definition hasDeleteFields :: "DetailedAllocationRecord \<Rightarrow> bool" where
  "hasDeleteFields r \<longleftrightarrow>
     a_DeleteResult r \<noteq> [] \<or> a_DeleteOperationID r \<noteq> [] \<or> a_DeleteOperation r \<noteq> []
     \<or> a_DeleteSourcePath r \<noteq> [] \<or> a_DeleteTargetPath r \<noteq> [] \<or> a_DeletePreparedAt r \<noteq> []
     \<or> a_DeleteRemoveStartedAt r \<noteq> [] \<or> a_DeleteCompletedAt r \<noteq> [] \<or> a_DeletedAt r \<noteq> []
     \<or> a_ArchivedPath r \<noteq> [] \<or> a_RetainedPath r \<noteq> [] \<or> a_QuarantinePath r \<noteq> []"

definition validatePreparedDelete :: "DetailedAllocationRecord \<Rightarrow> error option" where
  "validatePreparedDelete r =
     (let expectedSource = path_join [a_BasePath r, a_DirectoryName r]
      in errs
        [wrap_err ''delete operation'' (ValidateOperationID (a_DeleteOperationID r)),
         ensure (\<not> (a_DeletePreparedAt r = [] \<or> a_DeleteSourcePath r = [] \<or> a_DeleteTargetPath r = []))
           ''prepared delete requires source, target, and timestamp'',
         ensure (a_DeleteOperation r = a_DeletePolicy r) ''delete operation disagrees with policy'',
         ensure (a_DeleteSourcePath r = expectedSource) ''delete source path differs from immutable logical directory'',
         (if a_DeleteOperation r = DeleteOperationArchive then
            and_check (ManagedLifecycleTarget (a_BasePath r) ''.archived'' (a_DirectoryName r)
                (a_LogicalVolumeID r) (a_DeletePreparedAt r) (a_DeleteOperationID r))
              (\<lambda>expectedTarget.
                 ensure (\<not> (a_DeleteTargetPath r \<noteq> expectedTarget \<or> a_ArchivedPath r \<noteq> expectedTarget
                            \<or> a_RetainedPath r \<noteq> [] \<or> a_QuarantinePath r \<noteq> []))
                   ''archive target and operation-specific lifecycle paths differ'')
          else if a_DeleteOperation r = DeleteOperationDelete then
            and_check (ManagedLifecycleTarget (a_BasePath r) ''.deleted'' (a_DirectoryName r)
                (a_LogicalVolumeID r) (a_DeletePreparedAt r) (a_DeleteOperationID r))
              (\<lambda>expectedTarget.
                 ensure (\<not> (a_DeleteTargetPath r \<noteq> expectedTarget \<or> a_QuarantinePath r \<noteq> expectedTarget
                            \<or> a_ArchivedPath r \<noteq> [] \<or> a_RetainedPath r \<noteq> []))
                   ''delete quarantine and operation-specific lifecycle paths differ'')
          else if a_DeleteOperation r = DeleteOperationRetain then
            ensure (\<not> (a_DeleteTargetPath r \<noteq> expectedSource \<or> a_RetainedPath r \<noteq> expectedSource
                       \<or> a_ArchivedPath r \<noteq> [] \<or> a_QuarantinePath r \<noteq> []))
              ''retain target and operation-specific lifecycle paths differ''
          else Some (errorf ''delete operation is unsupported'')),
         ensure (\<not> (a_DeleteOperation r \<noteq> DeleteOperationDelete \<and> a_DeleteRemoveStartedAt r \<noteq> []))
           ''delete remove-start evidence is invalid for operation''])"

definition validateGCFields :: "DetailedAllocationRecord \<Rightarrow> error option" where
  "validateGCFields r =
     (let requestCount = present_count [a_GCRequestID r, a_GCRequestedMode r, a_GCExpectedState r, a_GCRequestedAt r];
          progressCount = present_count [a_GCOperationID r, a_GCTargetPath r, a_GCQuarantinePath r, a_GCStartedAt r];
          expectedTarget = (if a_GCExpectedState r = StateArchived then a_ArchivedPath r
                            else if a_GCExpectedState r = StateRetained then a_RetainedPath r else [])
      in errs
        [ensure (\<not> (requestCount \<noteq> 0 \<and> requestCount \<noteq> 4)) ''GC request fields must be all present or all absent'',
         (if requestCount \<noteq> 0 then errs
            [wrap_err ''GC request'' (ValidateOperationID (a_GCRequestID r)),
             ensure (\<not> (a_GCExpectedState r \<noteq> StateArchived \<and> a_GCExpectedState r \<noteq> StateRetained))
               ''GC expected state is not terminal data-bearing state'',
             ensure (\<not> (a_GCRequestedMode r \<noteq> ''dry-run'' \<and> a_GCRequestedMode r \<noteq> ''execute''))
               ''GC requested mode is unsupported'']
          else None),
         ensure (\<not> (progressCount \<noteq> 0 \<and> progressCount \<noteq> 4))
           ''GC operation identity, paths, and start timestamp must appear together'',
         (if progressCount \<noteq> 0 then errs
            [ensure (\<not> (requestCount = 0 \<or> a_GCRequestedMode r \<noteq> ''execute'')) ''GC progress requires an execute request'',
             wrap_err ''GC operation'' (ValidateOperationID (a_GCOperationID r)),
             ensure (\<not> (a_State r \<noteq> a_GCExpectedState r \<and> a_State r \<noteq> StateDeleted))
               ''GC progress state differs from expected predecessor'',
             ensure (\<not> (expectedTarget = [] \<or> a_GCTargetPath r \<noteq> expectedTarget))
               ''GC target path does not match the persisted path'',
             and_check (ManagedLifecycleTarget (a_BasePath r) ''.deleted'' (a_DirectoryName r)
                 (a_LogicalVolumeID r) (a_GCStartedAt r) (a_GCOperationID r))
               (\<lambda>expectedQuarantine. ensure (a_GCQuarantinePath r = expectedQuarantine)
                  ''GC quarantine path differs from the persisted operation identity'')]
          else if requestCount \<noteq> 0 then
            ensure (a_State r = a_GCExpectedState r) ''GC request expected state differs from allocation state''
          else None),
         ensure (\<not> (a_GCRemoveStartedAt r \<noteq> [] \<and> progressCount = 0))
           ''GC remove-start evidence requires prepared GC progress'',
         ensure (\<not> (a_GCCompletedAt r \<noteq> [] \<and> a_GCRemoveStartedAt r = []))
           ''GC completion requires remove-start evidence'',
         ensure (\<not> (a_GCCompletedAt r \<noteq> [] \<and> a_State r \<noteq> StateDeleted))
           ''GC completion requires Deleted allocation state''])"

text \<open>The length of a Go slice, nil included.\<close>

definition slice_len :: "'a list option \<Rightarrow> nat" where
  "slice_len s = (case s of None \<Rightarrow> 0 | Some xs \<Rightarrow> length xs)"

definition validateStateFields :: "DetailedAllocationRecord \<Rightarrow> error option" where
  "validateStateFields r =
     (if a_State r \<in> {StateReserved, StateCreatingDirectory, StateReady} then errs
        [ensure (\<not> (hasDeleteFields r \<or> a_GCOperationID r \<noteq> []))
           ''state must not contain delete or GC lifecycle progress'',
         ensure (\<not> ((a_State r = StateReserved \<or> a_State r = StateCreatingDirectory)
                    \<and> slice_len (a_PublishedNodeIDs r) \<noteq> 0))
           ''state must not contain published-node fences'']
      else if a_State r = StateDeleting then errs
        [validatePreparedDelete r,
         ensure (\<not> (a_DeleteCompletedAt r \<noteq> [] \<or> a_DeletedAt r \<noteq> [] \<or> a_DeleteResult r \<noteq> []))
           ''deleting record contains terminal delete evidence'']
      else if a_State r = StateArchived then errs
        [validatePreparedDelete r,
         ensure (\<not> (a_DeleteOperation r \<noteq> DeleteOperationArchive \<or> a_ArchivedPath r = []
                    \<or> a_ArchivedPath r \<noteq> a_DeleteTargetPath r \<or> a_DeleteCompletedAt r = [] \<or> a_DeleteResult r = []))
           ''archived record lacks matching archive completion evidence'']
      else if a_State r = StateRetained then errs
        [validatePreparedDelete r,
         ensure (\<not> (a_DeleteOperation r \<noteq> DeleteOperationRetain \<or> a_RetainedPath r = []
                    \<or> a_RetainedPath r \<noteq> a_DeleteTargetPath r \<or> a_DeleteCompletedAt r = [] \<or> a_DeleteResult r = []))
           ''retained record lacks matching retain completion evidence'']
      else if a_State r = StateDeleted then errs
        [ensure (\<not> (a_DeletedAt r = [] \<or> a_DeleteResult r = [])) ''deleted record lacks terminal timestamp or result'',
         (if a_GCOperationID r \<noteq> [] then
            ensure (\<not> (a_GCCompletedAt r = [] \<or> a_GCRemoveStartedAt r = []))
              ''GC-created deleted record lacks removal and completion evidence''
          else errs
            [validatePreparedDelete r,
             ensure (\<not> (a_DeleteOperation r \<noteq> DeleteOperationDelete \<or> a_QuarantinePath r = []
                        \<or> a_QuarantinePath r \<noteq> a_DeleteTargetPath r \<or> a_DeleteRemoveStartedAt r = []
                        \<or> a_DeleteCompletedAt r = []))
               ''delete-created Deleted record lacks matching removal evidence''])]
      else Some (errorf ''allocation state is unsupported''))"

definition validateLifecycle :: "DetailedAllocationRecord \<Rightarrow> error option" where
  "validateLifecycle r =
     (let recoveryFields = present_count [a_RecoveryOperationID r, a_RecoverySource r, a_RecoveredAt r]
      in errs
        [validateOptionalTimestampFields
           [(''deletePreparedAt'', a_DeletePreparedAt r), (''deleteRemoveStartedAt'', a_DeleteRemoveStartedAt r),
            (''deleteCompletedAt'', a_DeleteCompletedAt r), (''deletedAt'', a_DeletedAt r),
            (''gcRequestedAt'', a_GCRequestedAt r), (''gcStartedAt'', a_GCStartedAt r),
            (''gcRemoveStartedAt'', a_GCRemoveStartedAt r), (''gcCompletedAt'', a_GCCompletedAt r),
            (''recoveredAt'', a_RecoveredAt r)],
         ensure (\<not> (recoveryFields \<noteq> 0 \<and> recoveryFields \<noteq> 3))
           ''allocation recovery audit fields must be all present or all absent'',
         (if recoveryFields = 3 then errs
            [wrap_err ''recovery operation'' (ValidateOperationID (a_RecoveryOperationID r)),
             ensure (\<not> (a_RecoverySource r \<noteq> RecoverySourceOwnershipOnly
                        \<and> a_RecoverySource r \<noteq> RecoverySourcePVAndOwnership))
               ''recovery source is unsupported'']
          else None),
         errs (map (\<lambda>(field, val). if val \<noteq> [] then wrap_err field (validatePersistedPath (a_BasePath r) val) else None)
           [(''deleteSourcePath'', a_DeleteSourcePath r), (''deleteTargetPath'', a_DeleteTargetPath r),
            (''archivedPath'', a_ArchivedPath r), (''retainedPath'', a_RetainedPath r),
            (''quarantinePath'', a_QuarantinePath r), (''gcTargetPath'', a_GCTargetPath r),
            (''gcQuarantinePath'', a_GCQuarantinePath r)]),
         validateGCFields r,
         validateStateFields r])"

definition allocation_mapping :: "DetailedAllocationRecord \<Rightarrow> Mapping" where
  "allocation_mapping r = \<lparr>m_PoolName = a_PoolName r, m_ParentFilesystemID = a_ParentFilesystemID r,
     m_BasePath = a_BasePath r, m_DirectoryName = a_DirectoryName r, m_LogicalVolumeID = a_LogicalVolumeID r\<rparr>"

definition allocation_identity :: "DetailedAllocationRecord \<Rightarrow> CreateParameters \<Rightarrow> CreateRequestIdentity" where
  "allocation_identity r parameters = \<lparr>ri_OriginalRequiredBytes = a_OriginalRequiredBytes r,
     ri_OriginalLimitBytes = a_OriginalLimitBytes r, ri_SelectedCapacityBytes = a_SelectedCapacityBytes r,
     ri_Parameters = parameters\<rparr>"

definition Detailed_Validate :: "DetailedAllocationRecord \<Rightarrow> error option" where
  "Detailed_Validate r = errs
     [ensure (\<not> (a_SchemaVersion r \<noteq> SchemaVersionV1 \<or> a_RecordKind r \<noteq> AllocationRecordDetailed))
        ''detailed allocation record has wrong schema or kind'',
      ensure (a_RecordRevision r \<noteq> 0) ''allocation record revision must be positive'',
      validateCommonRecordIdentity (a_DriverName r) (a_InstallationID r) (a_ActiveClusterUID r)
        (a_LogicalVolumeID r) (a_VolumeHandleHash r) (a_MappingHash r),
      ensure (\<not> (a_CreateVolumeRequestName r = [] \<or> CHR 0x00 \<in> set (a_CreateVolumeRequestName r)))
        ''create volume request name is empty or contains NUL'',
      and_check (LogicalVolumeID (a_DriverName r) (a_CreateVolumeRequestName r))
        (\<lambda>want. ensure (a_LogicalVolumeID r = want)
           ''logical volume ID does not match the original create request name''),
      ensure (a_SelectedCapacityBytes r \<noteq> 0) ''selected capacity must be positive'',
      ensure (CapacityCompatible (a_SelectedCapacityBytes r) (a_OriginalRequiredBytes r) (a_OriginalLimitBytes r))
        ''selected capacity is outside the original capacity range'',
      and_check (Normalize (a_NormalizedCreateParameters r)) (\<lambda>parameters. errs
        [ensure (EqualCreateParameters parameters (a_NormalizedCreateParameters r))
           ''normalized create parameters are not canonical'',
         ensure (\<not> (a_PoolName r \<noteq> cp_PoolName parameters \<or> a_DeletePolicy r \<noteq> cp_DeletePolicy parameters
                    \<or> a_DirectoryUID r \<noteq> cp_DirectoryUID parameters
                    \<or> a_DirectoryGID r \<noteq> cp_DirectoryGID parameters
                    \<or> a_DirectoryMode r \<noteq> cp_DirectoryMode parameters))
           ''duplicated immutable create fields disagree with normalized parameters'',
         and_check (RequestHash (allocation_identity r parameters))
           (\<lambda>want. ensure (a_RequestHash r = want) ''request hash mismatch'')]),
      Mapping_Validate (allocation_mapping r),
      and_check (MappingHash (allocation_mapping r))
        (\<lambda>want. ensure (a_MappingHash r = want) ''mapping hash mismatch''),
      and_check (ParseHandle (a_VolumeHandle r)) (\<lambda>handle.
        ensure (\<not> (h_LogicalVolumeID handle \<noteq> a_LogicalVolumeID r \<or> h_MappingHash handle \<noteq> a_MappingHash r))
          ''volume handle disagrees with allocation identity''),
      and_check (VolumeHandleHash (a_VolumeHandle r))
        (\<lambda>want. ensure (a_VolumeHandleHash r = want) ''volume handle hash mismatch''),
      and_check (BasePathHash (a_BasePath r))
        (\<lambda>want. ensure (a_BasePathHash r = want) ''base path hash mismatch''),
      and_check (Reserves (a_State r))
        (\<lambda>reserves. ensure (reserves = a_ReservesCapacity r) ''state requires other reservesCapacity''),
      validatePublishedNodes (a_PublishedNodeIDs r),
      validateRequiredTimestamp ''createdAt'' (a_CreatedAt r),
      validateRequiredTimestamp ''updatedAt'' (a_UpdatedAt r),
      validateLifecycle r]"

definition Compact_Validate :: "CompactDeletedAllocationRecord \<Rightarrow> error option" where
  "Compact_Validate r = errs
     [ensure (\<not> (ca_SchemaVersion r \<noteq> SchemaVersionV1 \<or> ca_RecordKind r \<noteq> AllocationRecordCompactDeleted
                \<or> ca_State r \<noteq> StateDeleted \<or> ca_ReservesCapacity r))
        ''compact deleted allocation record has invalid schema, kind, state, or reservation'',
      ensure (\<not> (ca_RecordRevision r = 0 \<or> ca_CreateVolumeRequestName r = [] \<or> ca_DeleteResult r = []))
        ''compact deleted allocation record is missing required identity or result'',
      validateCommonRecordIdentity (ca_DriverName r) (ca_InstallationID r) (ca_ActiveClusterUID r)
        (ca_LogicalVolumeID r) (ca_VolumeHandleHash r) (ca_MappingHash r),
      ValidateParentFilesystemID (ca_ParentFilesystemID r),
      ValidateDirectoryName (ca_DirectoryName r),
      and_check (LogicalVolumeID (ca_DriverName r) (ca_CreateVolumeRequestName r))
        (\<lambda>want. ensure (ca_LogicalVolumeID r = want) ''compact logical volume ID does not match create request name''),
      validateRequiredTimestamp ''updatedAt'' (ca_UpdatedAt r),
      validateRequiredTimestamp ''deletedAt'' (ca_DeletedAt r),
      validateCompactAudit (ca_DeleteOperationID r) (ca_DeleteOperation r) (ca_DeleteCompletedAt r)
        (ca_GCOperationID r) (ca_GCCompletedAt r)]"

definition Unknown_Validate :: "DeletedUnknownAllocationRecord \<Rightarrow> error option" where
  "Unknown_Validate r = errs
     [ensure (\<not> (ua_SchemaVersion r \<noteq> SchemaVersionV1 \<or> ua_RecordKind r \<noteq> AllocationRecordDeletedUnknown
                \<or> ua_State r \<noteq> StateDeleted \<or> ua_ReservesCapacity r))
        ''deleted-unknown allocation record has invalid schema, kind, state, or reservation'',
      ensure (\<not> (ua_RecordRevision r = 0 \<or> ua_AbsenceReason r = [] \<or> length (ua_AbsenceReason r) > 512))
        ''deleted-unknown allocation record has invalid revision or absence reason'',
      validateCommonRecordIdentity (ua_DriverName r) (ua_InstallationID r) (ua_ActiveClusterUID r)
        (ua_LogicalVolumeID r) (ua_VolumeHandleHash r) (ua_MappingHash r),
      errs (map (\<lambda>(name, val). validateRequiredTimestamp name val)
        [(''createdAt'', ua_CreatedAt r), (''updatedAt'', ua_UpdatedAt r), (''deletedAt'', ua_DeletedAt r)])]"

fun Allocation_Validate :: "AllocationRecord \<Rightarrow> error option" where
  "Allocation_Validate (DetailedA r) = Detailed_Validate r"
| "Allocation_Validate (CompactA r) = Compact_Validate r"
| "Allocation_Validate (UnknownA r) = Unknown_Validate r"

section \<open>Canonical JSON\<close>

definition field :: "string \<Rightarrow> json \<Rightarrow> (string \<times> json) list" where
  "field key v = [(key, v)]"

definition omit_empty :: "string \<Rightarrow> string \<Rightarrow> (string \<times> json) list" where
  "omit_empty key v = (if v = [] then [] else [(key, JStr v)])"

definition slice_json :: "string list option \<Rightarrow> json" where
  "slice_json s = (case s of None \<Rightarrow> JNull | Some xs \<Rightarrow> JArr (map JStr xs))"

definition parameters_json :: "CreateParameters \<Rightarrow> json" where
  "parameters_json p = JObj
     [(''poolName'', JStr (cp_PoolName p)), (''deletePolicy'', JStr (cp_DeletePolicy p)),
      (''directoryUid'', JNum (unat (cp_DirectoryUID p))), (''directoryGid'', JNum (unat (cp_DirectoryGID p))),
      (''directoryMode'', JStr (cp_DirectoryMode p)), (''accessType'', JStr (cp_AccessType p)),
      (''filesystemType'', JStr (cp_FilesystemType p)), (''accessModes'', JArr (map JStr (cp_AccessModes p)))]"

definition detailed_allocation_json :: "DetailedAllocationRecord \<Rightarrow> (string \<times> json) list" where
  "detailed_allocation_json r = concat
     [field ''schemaVersion'' (JStr (a_SchemaVersion r)),
      field ''recordKind'' (JStr (a_RecordKind r)),
      field ''recordRevision'' (JNum (unat (a_RecordRevision r))),
      field ''driverName'' (JStr (a_DriverName r)),
      field ''activeClusterUID'' (JStr (a_ActiveClusterUID r)),
      field ''state'' (JStr (a_State r)),
      field ''installationID'' (JStr (a_InstallationID r)),
      field ''createVolumeRequestName'' (JStr (a_CreateVolumeRequestName r)),
      field ''requestHash'' (JStr (a_RequestHash r)),
      field ''originalRequiredBytes'' (JNum (unat (a_OriginalRequiredBytes r))),
      field ''originalLimitBytes'' (JNum (unat (a_OriginalLimitBytes r))),
      field ''selectedCapacityBytes'' (JNum (unat (a_SelectedCapacityBytes r))),
      field ''normalizedCreateParameters'' (parameters_json (a_NormalizedCreateParameters r)),
      field ''logicalVolumeID'' (JStr (a_LogicalVolumeID r)),
      field ''volumeHandle'' (JStr (a_VolumeHandle r)),
      field ''volumeHandleHash'' (JStr (a_VolumeHandleHash r)),
      field ''mappingHash'' (JStr (a_MappingHash r)),
      field ''poolName'' (JStr (a_PoolName r)),
      field ''parentFilesystemID'' (JStr (a_ParentFilesystemID r)),
      field ''basePath'' (JStr (a_BasePath r)),
      field ''basePathHash'' (JStr (a_BasePathHash r)),
      field ''directoryName'' (JStr (a_DirectoryName r)),
      field ''reservesCapacity'' (JBool (a_ReservesCapacity r)),
      field ''deletePolicy'' (JStr (a_DeletePolicy r)),
      omit_empty ''deleteResult'' (a_DeleteResult r),
      omit_empty ''deleteOperationID'' (a_DeleteOperationID r),
      omit_empty ''deleteOperation'' (a_DeleteOperation r),
      omit_empty ''deleteSourcePath'' (a_DeleteSourcePath r),
      omit_empty ''deleteTargetPath'' (a_DeleteTargetPath r),
      omit_empty ''deletePreparedAt'' (a_DeletePreparedAt r),
      omit_empty ''deleteRemoveStartedAt'' (a_DeleteRemoveStartedAt r),
      omit_empty ''deleteCompletedAt'' (a_DeleteCompletedAt r),
      field ''directoryUid'' (JNum (unat (a_DirectoryUID r))),
      field ''directoryGid'' (JNum (unat (a_DirectoryGID r))),
      field ''directoryMode'' (JStr (a_DirectoryMode r)),
      field ''createdAt'' (JStr (a_CreatedAt r)),
      field ''updatedAt'' (JStr (a_UpdatedAt r)),
      omit_empty ''deletedAt'' (a_DeletedAt r),
      omit_empty ''archivedPath'' (a_ArchivedPath r),
      omit_empty ''retainedPath'' (a_RetainedPath r),
      omit_empty ''quarantinePath'' (a_QuarantinePath r),
      field ''publishedNodeIDs'' (slice_json (a_PublishedNodeIDs r)),
      omit_empty ''gcRequestID'' (a_GCRequestID r),
      omit_empty ''gcRequestedMode'' (a_GCRequestedMode r),
      omit_empty ''gcExpectedState'' (a_GCExpectedState r),
      omit_empty ''gcRequestedAt'' (a_GCRequestedAt r),
      omit_empty ''gcOperationID'' (a_GCOperationID r),
      omit_empty ''gcTargetPath'' (a_GCTargetPath r),
      omit_empty ''gcQuarantinePath'' (a_GCQuarantinePath r),
      omit_empty ''gcStartedAt'' (a_GCStartedAt r),
      omit_empty ''gcRemoveStartedAt'' (a_GCRemoveStartedAt r),
      omit_empty ''gcCompletedAt'' (a_GCCompletedAt r),
      omit_empty ''recoveryOperationID'' (a_RecoveryOperationID r),
      omit_empty ''recoverySource'' (a_RecoverySource r),
      omit_empty ''recoveredAt'' (a_RecoveredAt r)]"

definition compact_allocation_json :: "CompactDeletedAllocationRecord \<Rightarrow> (string \<times> json) list" where
  "compact_allocation_json r = concat
     [field ''schemaVersion'' (JStr (ca_SchemaVersion r)),
      field ''recordKind'' (JStr (ca_RecordKind r)),
      field ''recordRevision'' (JNum (unat (ca_RecordRevision r))),
      field ''driverName'' (JStr (ca_DriverName r)),
      field ''installationID'' (JStr (ca_InstallationID r)),
      field ''activeClusterUID'' (JStr (ca_ActiveClusterUID r)),
      field ''createVolumeRequestName'' (JStr (ca_CreateVolumeRequestName r)),
      field ''logicalVolumeID'' (JStr (ca_LogicalVolumeID r)),
      field ''volumeHandleHash'' (JStr (ca_VolumeHandleHash r)),
      field ''mappingHash'' (JStr (ca_MappingHash r)),
      field ''state'' (JStr (ca_State r)),
      field ''parentFilesystemID'' (JStr (ca_ParentFilesystemID r)),
      field ''directoryName'' (JStr (ca_DirectoryName r)),
      field ''reservesCapacity'' (JBool (ca_ReservesCapacity r)),
      field ''deleteResult'' (JStr (ca_DeleteResult r)),
      field ''updatedAt'' (JStr (ca_UpdatedAt r)),
      field ''deletedAt'' (JStr (ca_DeletedAt r)),
      omit_empty ''deleteOperationID'' (ca_DeleteOperationID r),
      omit_empty ''deleteOperation'' (ca_DeleteOperation r),
      omit_empty ''archivedPath'' (ca_ArchivedPath r),
      omit_empty ''retainedPath'' (ca_RetainedPath r),
      omit_empty ''quarantinePath'' (ca_QuarantinePath r),
      omit_empty ''deleteCompletedAt'' (ca_DeleteCompletedAt r),
      omit_empty ''gcOperationID'' (ca_GCOperationID r),
      omit_empty ''gcTargetPath'' (ca_GCTargetPath r),
      omit_empty ''gcQuarantinePath'' (ca_GCQuarantinePath r),
      omit_empty ''gcCompletedAt'' (ca_GCCompletedAt r)]"

definition unknown_allocation_json :: "DeletedUnknownAllocationRecord \<Rightarrow> (string \<times> json) list" where
  "unknown_allocation_json r = concat
     [field ''schemaVersion'' (JStr (ua_SchemaVersion r)),
      field ''recordKind'' (JStr (ua_RecordKind r)),
      field ''recordRevision'' (JNum (unat (ua_RecordRevision r))),
      field ''driverName'' (JStr (ua_DriverName r)),
      field ''installationID'' (JStr (ua_InstallationID r)),
      field ''activeClusterUID'' (JStr (ua_ActiveClusterUID r)),
      field ''logicalVolumeID'' (JStr (ua_LogicalVolumeID r)),
      field ''volumeHandleHash'' (JStr (ua_VolumeHandleHash r)),
      field ''mappingHash'' (JStr (ua_MappingHash r)),
      field ''state'' (JStr (ua_State r)),
      field ''reservesCapacity'' (JBool (ua_ReservesCapacity r)),
      field ''absenceReason'' (JStr (ua_AbsenceReason r)),
      field ''createdAt'' (JStr (ua_CreatedAt r)),
      field ''updatedAt'' (JStr (ua_UpdatedAt r)),
      field ''deletedAt'' (JStr (ua_DeletedAt r))]"

fun allocation_json :: "AllocationRecord \<Rightarrow> json" where
  "allocation_json (DetailedA r) = JObj (detailed_allocation_json r)"
| "allocation_json (CompactA r) = JObj (compact_allocation_json r)"
| "allocation_json (UnknownA r) = JObj (unknown_allocation_json r)"

definition EncodeAllocationRecord :: "AllocationRecord option \<Rightarrow> string res" where
  "EncodeAllocationRecord record =
     (case record of
        None \<Rightarrow> Inl (errorf ''allocation record is nil'')
      | Some r \<Rightarrow> require (Allocation_Validate r) (Inr (Marshal (allocation_json r))))"

section \<open>Create replays\<close>

definition ValidateCreateReplay ::
  "DetailedAllocationRecord option \<Rightarrow> string \<Rightarrow> u64 \<Rightarrow> u64 \<Rightarrow> CreateParameters \<Rightarrow> error option" where
  "ValidateCreateReplay record requestName required limit parameters =
     non_nil ''existing allocation record is nil'' record (\<lambda>r. errs
       [wrap_err ''existing allocation record'' (Detailed_Validate r),
        and_check (LogicalVolumeID (a_DriverName r) requestName) (\<lambda>logicalID. errs
          [ensure_is (\<not> (logicalID \<noteq> a_LogicalVolumeID r \<or> requestName \<noteq> a_CreateVolumeRequestName r))
             ErrCreateReplayIncompatible ''request name resolves to different logical identity'',
           and_check (Normalize parameters) (\<lambda>normalized. errs
             [ensure_is (EqualCreateParameters normalized (a_NormalizedCreateParameters r))
                ErrCreateReplayIncompatible ''normalized immutable creation parameters differ'',
              ensure_is (CapacityCompatible (a_SelectedCapacityBytes r) required limit)
                ErrCreateReplayIncompatible ''persisted capacity is outside replay range''])])])"

section \<open>Anatomy of a valid detailed record\<close>

text \<open>The part of \<^verbatim>\<open>Validate\<close> that reads only the immutable identity of a record.\<close>

definition identity_check :: "DetailedAllocationRecord \<Rightarrow> bool" where
  "identity_check r \<longleftrightarrow>
     a_SchemaVersion r = SchemaVersionV1 \<and> a_RecordKind r = AllocationRecordDetailed
     \<and> validateCommonRecordIdentity (a_DriverName r) (a_InstallationID r) (a_ActiveClusterUID r)
         (a_LogicalVolumeID r) (a_VolumeHandleHash r) (a_MappingHash r) = None
     \<and> LogicalVolumeID (a_DriverName r) (a_CreateVolumeRequestName r) = Inr (a_LogicalVolumeID r)
     \<and> a_SelectedCapacityBytes r \<noteq> 0
     \<and> CapacityCompatible (a_SelectedCapacityBytes r) (a_OriginalRequiredBytes r) (a_OriginalLimitBytes r)
     \<and> Normalize (a_NormalizedCreateParameters r) = Inr (a_NormalizedCreateParameters r)
     \<and> a_PoolName r = cp_PoolName (a_NormalizedCreateParameters r)
     \<and> a_DeletePolicy r = cp_DeletePolicy (a_NormalizedCreateParameters r)
     \<and> a_DirectoryUID r = cp_DirectoryUID (a_NormalizedCreateParameters r)
     \<and> a_DirectoryGID r = cp_DirectoryGID (a_NormalizedCreateParameters r)
     \<and> a_DirectoryMode r = cp_DirectoryMode (a_NormalizedCreateParameters r)
     \<and> RequestHash (allocation_identity r (a_NormalizedCreateParameters r)) = Inr (a_RequestHash r)
     \<and> MappingHash (allocation_mapping r) = Inr (a_MappingHash r)
     \<and> a_VolumeHandle r = Handle_String \<lparr>h_LogicalVolumeID = a_LogicalVolumeID r, h_MappingHash = a_MappingHash r\<rparr>
     \<and> VolumeHandleHash (a_VolumeHandle r) = Inr (a_VolumeHandleHash r)
     \<and> BasePathHash (a_BasePath r) = Inr (a_BasePathHash r)
     \<and> validateRequiredTimestamp ''createdAt'' (a_CreatedAt r) = None"

lemma handle_matches_iff:
  "(\<exists>h. ParseHandle s = Inr h \<and> h_LogicalVolumeID h = lv \<and> h_MappingHash h = mh)
   \<longleftrightarrow> ValidateLogicalVolumeID lv = None \<and> validateMappingHash mh = None
       \<and> s = Handle_String \<lparr>h_LogicalVolumeID = lv, h_MappingHash = mh\<rparr>"
  by (auto simp: parse_handle_iff well_formed_handle_def Handle_String_def
      intro!: exI [of _ "\<lparr>h_LogicalVolumeID = lv, h_MappingHash = mh\<rparr>"])

lemma logical_volume_id_name:
  "LogicalVolumeID d n = Inr lv \<Longrightarrow> n \<noteq> [] \<and> CHR 0x00 \<notin> set n"
  by (simp add: LogicalVolumeID_def)

lemma mapping_hash_mapping: "MappingHash m = Inr h \<Longrightarrow> Mapping_Validate m = None"
  by (simp add: MappingHash_def)

lemma detailed_valid_iff:
  "Detailed_Validate r = None \<longleftrightarrow>
     identity_check r \<and> a_RecordRevision r \<noteq> 0 \<and> Reserves (a_State r) = Inr (a_ReservesCapacity r)
     \<and> validatePublishedNodes (a_PublishedNodeIDs r) = None
     \<and> validateRequiredTimestamp ''updatedAt'' (a_UpdatedAt r) = None \<and> validateLifecycle r = None"
  (is "?l \<longleftrightarrow> ?r")
proof
  assume ?l
  then show ?r
    using handle_matches_iff [of "a_VolumeHandle r" "a_LogicalVolumeID r" "a_MappingHash r"]
    unfolding Detailed_Validate_def identity_check_def by (auto simp: equal_create_parameters)
next
  assume ?r
  then show ?l
    using handle_matches_iff [of "a_VolumeHandle r" "a_LogicalVolumeID r" "a_MappingHash r"]
      logical_volume_id_name [of "a_DriverName r" "a_CreateVolumeRequestName r"]
      mapping_hash_mapping [of "allocation_mapping r"]
    unfolding Detailed_Validate_def identity_check_def
    by (auto simp: equal_create_parameters validateCommonRecordIdentity_def)
qed


text \<open>Lifecycle fields are outside the identity.\<close>

lemma identity_check_update [simp]:
  "identity_check (r\<lparr>a_RecordRevision := v0\<rparr>) = identity_check r"
  "identity_check (r\<lparr>a_State := v1\<rparr>) = identity_check r"
  "identity_check (r\<lparr>a_ReservesCapacity := v2\<rparr>) = identity_check r"
  "identity_check (r\<lparr>a_DeleteResult := v3\<rparr>) = identity_check r"
  "identity_check (r\<lparr>a_DeleteOperationID := v4\<rparr>) = identity_check r"
  "identity_check (r\<lparr>a_DeleteOperation := v5\<rparr>) = identity_check r"
  "identity_check (r\<lparr>a_DeleteSourcePath := v6\<rparr>) = identity_check r"
  "identity_check (r\<lparr>a_DeleteTargetPath := v7\<rparr>) = identity_check r"
  "identity_check (r\<lparr>a_DeletePreparedAt := v8\<rparr>) = identity_check r"
  "identity_check (r\<lparr>a_DeleteRemoveStartedAt := v9\<rparr>) = identity_check r"
  "identity_check (r\<lparr>a_DeleteCompletedAt := v10\<rparr>) = identity_check r"
  "identity_check (r\<lparr>a_UpdatedAt := v11\<rparr>) = identity_check r"
  "identity_check (r\<lparr>a_DeletedAt := v12\<rparr>) = identity_check r"
  "identity_check (r\<lparr>a_ArchivedPath := v13\<rparr>) = identity_check r"
  "identity_check (r\<lparr>a_RetainedPath := v14\<rparr>) = identity_check r"
  "identity_check (r\<lparr>a_QuarantinePath := v15\<rparr>) = identity_check r"
  "identity_check (r\<lparr>a_PublishedNodeIDs := v16\<rparr>) = identity_check r"
  "identity_check (r\<lparr>a_GCRequestID := v17\<rparr>) = identity_check r"
  "identity_check (r\<lparr>a_GCRequestedMode := v18\<rparr>) = identity_check r"
  "identity_check (r\<lparr>a_GCExpectedState := v19\<rparr>) = identity_check r"
  "identity_check (r\<lparr>a_GCRequestedAt := v20\<rparr>) = identity_check r"
  "identity_check (r\<lparr>a_GCOperationID := v21\<rparr>) = identity_check r"
  "identity_check (r\<lparr>a_GCTargetPath := v22\<rparr>) = identity_check r"
  "identity_check (r\<lparr>a_GCQuarantinePath := v23\<rparr>) = identity_check r"
  "identity_check (r\<lparr>a_GCStartedAt := v24\<rparr>) = identity_check r"
  "identity_check (r\<lparr>a_GCRemoveStartedAt := v25\<rparr>) = identity_check r"
  "identity_check (r\<lparr>a_GCCompletedAt := v26\<rparr>) = identity_check r"
  "identity_check (r\<lparr>a_RecoveryOperationID := v27\<rparr>) = identity_check r"
  "identity_check (r\<lparr>a_RecoverySource := v28\<rparr>) = identity_check r"
  "identity_check (r\<lparr>a_RecoveredAt := v29\<rparr>) = identity_check r"
  by (simp_all add: identity_check_def allocation_identity_def allocation_mapping_def)

section \<open>Sample records\<close>

definition sample_driver :: string where "sample_driver = ''sfs.csi.example.com''"
definition sample_request_name :: string where "sample_request_name = ''pvc-1''"

definition sample_volume :: string where
  "sample_volume = truncatedBytesHash ''lv-'' (sample_driver @ [CHR 0x00] @ sample_request_name)"

definition sample_volume_mapping :: Mapping where
  "sample_volume_mapping = sample_mapping\<lparr>m_LogicalVolumeID := sample_volume\<rparr>"

definition sample_mapping_hash :: string where
  "sample_mapping_hash = truncatedCanonicalHash ''mh-'' (mapping_payload sample_volume_mapping)"

definition sample_handle :: string where
  "sample_handle = Handle_String \<lparr>h_LogicalVolumeID = sample_volume, h_MappingHash = sample_mapping_hash\<rparr>"

definition sample_identity :: CreateRequestIdentity where
  "sample_identity = \<lparr>ri_OriginalRequiredBytes = 1000, ri_OriginalLimitBytes = 0,
     ri_SelectedCapacityBytes = 1000, ri_Parameters = sample_parameters\<rparr>"

definition sample_allocation :: DetailedAllocationRecord where
  "sample_allocation = \<lparr>a_SchemaVersion = SchemaVersionV1, a_RecordKind = AllocationRecordDetailed,
     a_RecordRevision = 3, a_DriverName = sample_driver, a_ActiveClusterUID = ''cluster-1'', a_State = StateReady,
     a_InstallationID = sample_uuid, a_CreateVolumeRequestName = sample_request_name,
     a_RequestHash = truncatedCanonicalHash ''rh-'' (request_payload sample_identity sample_parameters),
     a_OriginalRequiredBytes = 1000, a_OriginalLimitBytes = 0, a_SelectedCapacityBytes = 1000,
     a_NormalizedCreateParameters = sample_parameters, a_LogicalVolumeID = sample_volume,
     a_VolumeHandle = sample_handle, a_VolumeHandleHash = truncatedBytesHash ''vh-'' sample_handle,
     a_MappingHash = sample_mapping_hash, a_PoolName = ''standard'', a_ParentFilesystemID = ''fs-1'',
     a_BasePath = sample_base, a_BasePathHash = truncatedBytesHash ''bp-'' sample_base,
     a_DirectoryName = sample_dir, a_ReservesCapacity = True, a_DeletePolicy = DeletePolicyArchive,
     a_DeleteResult = [], a_DeleteOperationID = [], a_DeleteOperation = [], a_DeleteSourcePath = [],
     a_DeleteTargetPath = [], a_DeletePreparedAt = [], a_DeleteRemoveStartedAt = [], a_DeleteCompletedAt = [],
     a_DirectoryUID = 1000, a_DirectoryGID = 1000, a_DirectoryMode = ''0770'', a_CreatedAt = sample_time,
     a_UpdatedAt = sample_time, a_DeletedAt = [], a_ArchivedPath = [], a_RetainedPath = [],
     a_QuarantinePath = [], a_PublishedNodeIDs = Some [], a_GCRequestID = [], a_GCRequestedMode = [],
     a_GCExpectedState = [], a_GCRequestedAt = [], a_GCOperationID = [], a_GCTargetPath = [],
     a_GCQuarantinePath = [], a_GCStartedAt = [], a_GCRemoveStartedAt = [], a_GCCompletedAt = [],
     a_RecoveryOperationID = [], a_RecoverySource = [], a_RecoveredAt = []\<rparr>"

lemma sample_driver_ok: "ValidateDriverName sample_driver = None"
  by (simp add: ValidateDriverName_def driverNamePattern_def poolNamePattern_def sample_driver_def char_class_defs
      ascii_eval MaxContextEntryBytes_def)

lemma sample_volume_ok: "LogicalVolumeID sample_driver sample_request_name = Inr sample_volume"
  using sample_driver_ok by (simp add: LogicalVolumeID_def sample_volume_def sample_request_name_def)

lemma sample_volume_mapping_ok: "Mapping_Validate sample_volume_mapping = None"
  using sample_mapping_ok logical_volume_id_valid [OF sample_volume_ok]
  by (simp add: Mapping_Validate_def sample_volume_mapping_def)

lemma sample_mapping_hash_ok: "MappingHash sample_volume_mapping = Inr sample_mapping_hash"
  using sample_volume_mapping_ok by (simp add: mapping_hash_eq sample_mapping_hash_def)

lemma sample_handle_ok:
  "ParseHandle sample_handle = Inr \<lparr>h_LogicalVolumeID = sample_volume, h_MappingHash = sample_mapping_hash\<rparr>"
  using logical_volume_id_valid [OF sample_volume_ok] mapping_hash_valid [OF sample_mapping_hash_ok]
  by (simp add: parse_handle_iff well_formed_handle_def sample_handle_def)

lemma sample_allocation_mapping: "allocation_mapping sample_allocation = sample_volume_mapping"
  by (simp add: allocation_mapping_def sample_allocation_def sample_volume_mapping_def sample_mapping_def)

lemma sample_allocation_identity:
  "allocation_identity sample_allocation sample_parameters = sample_identity"
  by (simp add: allocation_identity_def sample_allocation_def sample_identity_def)

lemma sample_request_hash_ok:
  "RequestHash sample_identity = Inr (truncatedCanonicalHash ''rh-'' (request_payload sample_identity sample_parameters))"
  using sample_parameters_ok by (simp add: RequestHash_def sample_identity_def)

lemma sample_common_ok:
  "validateCommonRecordIdentity sample_driver sample_uuid ''cluster-1'' sample_volume
     (truncatedBytesHash ''vh-'' sample_handle) sample_mapping_hash = None"
  using sample_driver_ok logical_volume_id_valid [OF sample_volume_ok]
    mapping_hash_valid [OF sample_mapping_hash_ok] sample_uuid_ok
  by (simp add: validateCommonRecordIdentity_def ValidateInstallationID_def ValidateClusterUID_def
      validateVolumeHandleHash_def contains_any_def ascii_eval MaxContextEntryBytes_def)

lemma sample_timestamp_ok: "validateRequiredTimestamp name sample_time = None"
  using sample_time_ok by (simp add: validateRequiredTimestamp_def sample_time_def)

lemma sample_identity_check: "identity_check sample_allocation"
proof -
  have "MappingHash (allocation_mapping sample_allocation) = Inr (a_MappingHash sample_allocation)"
    using sample_mapping_hash_ok unfolding sample_allocation_mapping by (simp add: sample_allocation_def)
  moreover have "RequestHash (allocation_identity sample_allocation sample_parameters) = Inr (a_RequestHash sample_allocation)"
    using sample_request_hash_ok unfolding sample_allocation_identity by (simp add: sample_allocation_def)
  ultimately show ?thesis
    using sample_common_ok sample_volume_ok sample_parameters_ok sample_handle_ok sample_base_ok sample_timestamp_ok
    by (simp add: identity_check_def sample_allocation_def CapacityCompatible_def VolumeHandleHash_def
        BasePathHash_def sample_handle_def) (simp add: sample_parameters_def)
qed

lemma sample_lifecycle_ok: "validateLifecycle sample_allocation = None"
  by (simp add: validateLifecycle_def sample_allocation_def validateOptionalTimestampFields_def
      present_count_def validateGCFields_def validateStateFields_def hasDeleteFields_def slice_len_def)

lemma sample_allocation_ok: "Detailed_Validate sample_allocation = None"
  using sample_identity_check sample_lifecycle_ok sample_timestamp_ok
  by (simp add: detailed_valid_iff sample_allocation_def Reserves_def validatePublishedNodes_def)

section \<open>Properties of valid records\<close>

lemma reserves_iff: "Reserves s = Inr b \<Longrightarrow> b \<longleftrightarrow> s \<noteq> StateDeleted"
  by (auto simp: Reserves_def split: if_splits)

lemma valid_reserves: "Detailed_Validate r = None \<Longrightarrow> a_ReservesCapacity r \<longleftrightarrow> a_State r \<noteq> StateDeleted"
  using reserves_iff [of "a_State r" "a_ReservesCapacity r"] by (simp add: detailed_valid_iff)

lemma persisted_path_below:
  "validatePersistedPath b p = None \<longleftrightarrow>
     p \<noteq> [] \<and> has_prefix p ''/'' \<and> path_clean p = p \<and> p \<noteq> b \<and> has_prefix p (b @ ''/'')"
  by (auto simp: validatePersistedPath_def)

lemma nodes_loop_None:
  "nodes_loop prev ns = None \<Longrightarrow> sorted ns \<Longrightarrow> (\<forall>p. prev = Some p \<longrightarrow> (\<forall>n \<in> set ns. p \<le> n))
   \<Longrightarrow> distinct ns \<and> (\<forall>n \<in> set ns. ValidateNodeID n = None) \<and> (\<forall>p. prev = Some p \<longrightarrow> p \<notin> set ns)"
proof (induction ns arbitrary: prev)
  case (Cons n ns)
  then have "distinct ns" "\<forall>m \<in> set ns. ValidateNodeID m = None" "n \<notin> set ns"
    by (auto dest!: Cons.IH)
  with Cons.prems show ?case by force
qed simp

lemma published_nodes_valid:
  assumes "validatePublishedNodes nodes = None"
  obtains ns where "nodes = Some ns" "sorted ns" "distinct ns" "\<forall>n \<in> set ns. ValidateNodeID n = None"
  using assms nodes_loop_None [of None] by (auto simp: validatePublishedNodes_def split: option.splits)

lemma nodes_loop_distinct:
  "sorted ns \<Longrightarrow> distinct ns \<Longrightarrow> \<forall>n \<in> set ns. ValidateNodeID n = None \<Longrightarrow> prev \<notin> Some ` set ns
   \<Longrightarrow> nodes_loop prev ns = None"
  by (induction ns arbitrary: prev) auto

lemma published_nodes_iff:
  "validatePublishedNodes (Some ns) = None \<longleftrightarrow>
     sorted ns \<and> distinct ns \<and> (\<forall>n \<in> set ns. ValidateNodeID n = None)"
  using nodes_loop_None [of None ns] nodes_loop_distinct [of ns None]
  by (auto simp: validatePublishedNodes_def)

lemma detailed_valid_lifecycle:
  assumes "Detailed_Validate r = None"
  shows "identity_check r" and "validateLifecycle r = None" and "validateStateFields r = None"
    and "validateGCFields r = None"
  using assms by (simp_all add: detailed_valid_iff validateLifecycle_def Let_def)

lemma lifecycle_path_below:
  assumes "Detailed_Validate r = None"
    and "p \<in> {a_DeleteSourcePath r, a_DeleteTargetPath r, a_ArchivedPath r, a_RetainedPath r,
           a_QuarantinePath r, a_GCTargetPath r, a_GCQuarantinePath r}" and "p \<noteq> []"
  shows "path_clean p = p \<and> p \<noteq> a_BasePath r \<and> has_prefix p (a_BasePath r @ ''/'')"
  using detailed_valid_lifecycle(2) [OF assms(1)] assms(2,3)
  by (auto simp: validateLifecycle_def Let_def persisted_path_below)

lemma identity_handle:
  assumes "identity_check r"
  shows "ParseHandle (a_VolumeHandle r)
           = Inr \<lparr>h_LogicalVolumeID = a_LogicalVolumeID r, h_MappingHash = a_MappingHash r\<rparr>"
  using assms by (simp add: identity_check_def parse_handle_iff well_formed_handle_def validateCommonRecordIdentity_def)

text \<open>
  (C25) What a valid detailed allocation guarantees. Its handle parses and is bound to its mapping,
  it reserves capacity exactly while it is not \<^verbatim>\<open>Deleted\<close>, its capacity is positive and inside the
  requested range, its published-node fences are sorted and free of duplicates, every lifecycle
  path it records is normalised and strictly below its base path, and a record that is still
  being created or served carries no delete progress.
\<close>

theorem valid_allocation_invariant:
  assumes "Detailed_Validate r = None"
  shows "(\<exists>h. ParseHandle (a_VolumeHandle r) = Inr h \<and> ValidateMapping h (allocation_mapping r) = None)
    \<and> (a_ReservesCapacity r \<longleftrightarrow> a_State r \<noteq> StateDeleted)
    \<and> 0 < a_SelectedCapacityBytes r \<and> a_OriginalRequiredBytes r \<le> a_SelectedCapacityBytes r
    \<and> (a_OriginalLimitBytes r \<noteq> 0 \<longrightarrow> a_SelectedCapacityBytes r \<le> a_OriginalLimitBytes r)
    \<and> (\<exists>ns. a_PublishedNodeIDs r = Some ns \<and> sorted ns \<and> distinct ns)
    \<and> (\<forall>p \<in> {a_DeleteSourcePath r, a_DeleteTargetPath r, a_ArchivedPath r, a_RetainedPath r,
               a_QuarantinePath r, a_GCTargetPath r, a_GCQuarantinePath r}.
         p \<noteq> [] \<longrightarrow> path_clean p = p \<and> p \<noteq> a_BasePath r \<and> has_prefix p (a_BasePath r @ ''/''))
    \<and> (a_State r \<in> {StateReserved, StateCreatingDirectory, StateReady} \<longrightarrow> \<not> hasDeleteFields r)"
proof (intro conjI)
  note parts = detailed_valid_lifecycle [OF assms]
  show "\<exists>h. ParseHandle (a_VolumeHandle r) = Inr h \<and> ValidateMapping h (allocation_mapping r) = None"
    using identity_handle [OF parts(1)] parts(1)
    by (simp add: identity_check_def ValidateMapping_def) (simp add: allocation_mapping_def)
  show "a_ReservesCapacity r \<longleftrightarrow> a_State r \<noteq> StateDeleted"
    using valid_reserves [OF assms] .
  show "0 < a_SelectedCapacityBytes r" "a_OriginalRequiredBytes r \<le> a_SelectedCapacityBytes r"
    "a_OriginalLimitBytes r \<noteq> 0 \<longrightarrow> a_SelectedCapacityBytes r \<le> a_OriginalLimitBytes r"
    using parts(1) by (auto simp: identity_check_def CapacityCompatible_def word_gt_0 split: if_splits)
  show "\<exists>ns. a_PublishedNodeIDs r = Some ns \<and> sorted ns \<and> distinct ns"
    using assms published_nodes_valid by (metis detailed_valid_iff)
  show "\<forall>p \<in> {a_DeleteSourcePath r, a_DeleteTargetPath r, a_ArchivedPath r, a_RetainedPath r,
               a_QuarantinePath r, a_GCTargetPath r, a_GCQuarantinePath r}.
         p \<noteq> [] \<longrightarrow> path_clean p = p \<and> p \<noteq> a_BasePath r \<and> has_prefix p (a_BasePath r @ ''/'')"
    using lifecycle_path_below [OF assms] by blast
  show "a_State r \<in> {StateReserved, StateCreatingDirectory, StateReady} \<longrightarrow> \<not> hasDeleteFields r"
    using parts(3) by (auto simp: validateStateFields_def)
qed

theorem valid_allocation_invariant_witness:
  "a_ReservesCapacity sample_allocation \<longleftrightarrow> a_State sample_allocation \<noteq> StateDeleted"
  using valid_allocation_invariant [OF sample_allocation_ok] by blast

lemma prepared_delete_targets:
  assumes "validatePreparedDelete r = None"
  shows "a_DeleteSourcePath r = path_join [a_BasePath r, a_DirectoryName r]"
    and "a_DeleteOperation r = DeleteOperationArchive \<Longrightarrow>
         ManagedLifecycleTarget (a_BasePath r) ''.archived'' (a_DirectoryName r) (a_LogicalVolumeID r)
           (a_DeletePreparedAt r) (a_DeleteOperationID r) = Inr (a_DeleteTargetPath r)"
    and "a_DeleteOperation r = DeleteOperationDelete \<Longrightarrow>
         ManagedLifecycleTarget (a_BasePath r) ''.deleted'' (a_DirectoryName r) (a_LogicalVolumeID r)
           (a_DeletePreparedAt r) (a_DeleteOperationID r) = Inr (a_DeleteTargetPath r)"
    and "a_DeleteOperation r = DeleteOperationRetain \<Longrightarrow> a_DeleteTargetPath r = a_DeleteSourcePath r"
    and "a_DeleteOperation r \<in> {DeleteOperationArchive, DeleteOperationDelete, DeleteOperationRetain}"
  using assms by (auto simp: validatePreparedDelete_def Let_def split: if_splits)

text \<open>
  (C24) A record says \<^verbatim>\<open>Deleted\<close> only with evidence. A valid detailed record in that state reserves
  nothing, carries its terminal timestamp and result, and holds either the complete trail of a
  garbage collection (its execute request, the archived or retained path it targeted, a quarantine
  path derived from its own operation, removal started and completed) or that of a delete
  operation whose quarantine path was derived from its own operation, removal started and
  completed.
\<close>

theorem deleted_requires_evidence:
  assumes "Detailed_Validate r = None" and "a_State r = StateDeleted"
  shows "\<not> a_ReservesCapacity r \<and> a_DeletedAt r \<noteq> [] \<and> a_DeleteResult r \<noteq> []
    \<and> (if a_GCOperationID r \<noteq> [] then
         a_GCRequestedMode r = ''execute'' \<and> a_GCTargetPath r \<noteq> []
         \<and> a_GCTargetPath r = (if a_GCExpectedState r = StateArchived then a_ArchivedPath r else a_RetainedPath r)
         \<and> ManagedLifecycleTarget (a_BasePath r) ''.deleted'' (a_DirectoryName r) (a_LogicalVolumeID r)
             (a_GCStartedAt r) (a_GCOperationID r) = Inr (a_GCQuarantinePath r)
         \<and> a_GCRemoveStartedAt r \<noteq> [] \<and> a_GCCompletedAt r \<noteq> []
       else
         a_DeletePolicy r = DeletePolicyDelete
         \<and> ManagedLifecycleTarget (a_BasePath r) ''.deleted'' (a_DirectoryName r) (a_LogicalVolumeID r)
             (a_DeletePreparedAt r) (a_DeleteOperationID r) = Inr (a_QuarantinePath r)
         \<and> a_DeleteRemoveStartedAt r \<noteq> [] \<and> a_DeleteCompletedAt r \<noteq> [])"
proof -
  note parts = detailed_valid_lifecycle [OF assms(1)]
  have res: "\<not> a_ReservesCapacity r"
    using valid_reserves [OF assms(1)] assms(2) by simp
  show ?thesis
  proof (cases "a_GCOperationID r = []")
    case True
    then have prep: "validatePreparedDelete r = None" and op: "a_DeleteOperation r = DeleteOperationDelete"
      and rest: "a_QuarantinePath r = a_DeleteTargetPath r" "a_DeleteRemoveStartedAt r \<noteq> []"
        "a_DeleteCompletedAt r \<noteq> []" "a_DeletedAt r \<noteq> []" "a_DeleteResult r \<noteq> []"
      using parts(3) assms(2) by (simp_all add: validateStateFields_def)
    have "a_DeletePolicy r = DeletePolicyDelete"
      using prep op by (simp add: validatePreparedDelete_def Let_def DeletePolicyDelete_def DeleteOperationDelete_def)
    with True res rest prepared_delete_targets(3) [OF prep op] show ?thesis by simp
  next
    case False
    then have "a_GCRemoveStartedAt r \<noteq> []" "a_GCCompletedAt r \<noteq> []" "a_DeletedAt r \<noteq> []" "a_DeleteResult r \<noteq> []"
      using parts(3) assms(2) by (simp_all add: validateStateFields_def)
    moreover have "present_count [a_GCOperationID r, a_GCTargetPath r, a_GCQuarantinePath r, a_GCStartedAt r] \<noteq> 0"
      using False by (simp add: present_count_def)
    ultimately show ?thesis
      using False res parts(4) by (auto simp: validateGCFields_def Let_def split: if_splits)
  qed
qed

text \<open>
  The sample volume archived by its delete operation and then collected: \<open>sample_deleted\<close> is the
  record of a completed garbage collection.
\<close>

definition sample_target :: "string \<Rightarrow> string \<Rightarrow> string" where
  "sample_target managed op =
     path_join [sample_base, managed, lifecycle_component sample_dir sample_volume sample_time op]"

definition sample_deleting :: DetailedAllocationRecord where
  "sample_deleting = sample_allocation\<lparr>a_RecordRevision := 4, a_State := StateDeleting,
     a_DeleteOperationID := sample_uuid, a_DeleteOperation := DeleteOperationArchive,
     a_DeleteSourcePath := path_join [sample_base, sample_dir],
     a_DeleteTargetPath := sample_target ''.archived'' sample_uuid,
     a_ArchivedPath := sample_target ''.archived'' sample_uuid, a_DeletePreparedAt := sample_time\<rparr>"

definition sample_archived :: DetailedAllocationRecord where
  "sample_archived = sample_deleting\<lparr>a_RecordRevision := 5, a_State := StateArchived,
     a_DeleteCompletedAt := sample_time, a_DeleteResult := ''archived''\<rparr>"

definition sample_deleted :: DetailedAllocationRecord where
  "sample_deleted = sample_archived\<lparr>a_RecordRevision := 6, a_State := StateDeleted, a_ReservesCapacity := False,
     a_DeletedAt := sample_time, a_GCRequestID := sample_uuid2, a_GCRequestedMode := ''execute'',
     a_GCExpectedState := StateArchived, a_GCRequestedAt := sample_time, a_GCOperationID := sample_uuid2,
     a_GCTargetPath := sample_target ''.archived'' sample_uuid,
     a_GCQuarantinePath := sample_target ''.deleted'' sample_uuid2, a_GCStartedAt := sample_time,
     a_GCRemoveStartedAt := sample_time, a_GCCompletedAt := sample_time\<rparr>"

lemma sample_component_fits:
  "op \<in> {sample_uuid, sample_uuid2} \<Longrightarrow>
   length (lifecycle_component sample_dir sample_volume sample_time op) \<le> maxFilesystemComponentBytes"
  using hash_pattern_length [of "''lv-''" sample_volume]
  by (auto simp: lifecycle_component_def sample_dir_def sample_volume_def sample_time_def sample_uuid_def
      sample_uuid2_def maxFilesystemComponentBytes_def remove_chars_def lower_ascii_def char_class_defs)

lemma sample_target_managed:
  assumes "m \<in> {''.archived'', ''.deleted''}" and "op \<in> {sample_uuid, sample_uuid2}"
  shows "ManagedLifecycleTarget sample_base m sample_dir sample_volume sample_time op = Inr (sample_target m op)"
  using assms sample_base_ok sample_dir_ok logical_volume_id_valid [OF sample_volume_ok]
    sample_uuid_ok sample_uuid2_ok sample_timestamp_ok sample_component_fits [OF assms(2)]
  by (auto simp: ManagedLifecycleTarget_def ValidateOperationID_def sample_target_def)

lemma sample_target_path:
  assumes "m \<in> {''.archived'', ''.deleted''}" and "op \<in> {sample_uuid, sample_uuid2}"
  shows "validatePersistedPath sample_base (sample_target m op) = None" and "sample_target m op \<noteq> []"
  using lifecycle_target_eq(1,2) [OF sample_target_managed [OF assms]]
  by (simp_all add: persisted_path_below sample_base_def)

lemma sample_source_path:
  "validatePersistedPath sample_base (path_join [sample_base, sample_dir]) = None"
  "path_join [sample_base, sample_dir] \<noteq> []"
  using path_join_below(1,2) [OF sample_base_ok, of "[sample_dir]"] valid_directory_name(1) [OF sample_dir_ok]
  by (simp_all add: persisted_path_below join_with_def sample_base_def)

lemmas sample_lifecycle_facts = sample_target_managed sample_target_path sample_source_path sample_timestamp_ok
  sample_uuid_ok sample_uuid2_ok sample_identity_check

lemmas sample_lifecycle_defs = validateOptionalTimestampFields_def present_count_def validateGCFields_def
  validateStateFields_def validatePreparedDelete_def ValidateOperationID_def Reserves_def validatePublishedNodes_def

lemma sample_nonempty: "sample_time \<noteq> []" "sample_uuid \<noteq> []" "sample_uuid2 \<noteq> []"
  by (simp_all add: sample_time_def sample_uuid_def sample_uuid2_def)

lemma sample_deleting_ok: "Detailed_Validate sample_deleting = None"
proof -
  have "validateLifecycle sample_deleting = None"
    by (simp add: validateLifecycle_def sample_deleting_def)
      (simp add: sample_allocation_def sample_lifecycle_defs sample_lifecycle_facts sample_nonempty
        DeletePolicyArchive_def DeleteOperationArchive_def)
  then show ?thesis
    by (simp add: detailed_valid_iff sample_deleting_def sample_identity_check)
      (simp add: sample_allocation_def sample_lifecycle_defs sample_timestamp_ok)
qed

lemma sample_archived_ok: "Detailed_Validate sample_archived = None"
proof -
  have "validateLifecycle sample_archived = None"
    by (simp add: validateLifecycle_def sample_archived_def sample_deleting_def)
      (simp add: sample_allocation_def sample_lifecycle_defs sample_lifecycle_facts sample_nonempty
        DeletePolicyArchive_def DeleteOperationArchive_def)
  then show ?thesis
    by (simp add: detailed_valid_iff sample_archived_def sample_deleting_def sample_identity_check)
      (simp add: sample_allocation_def sample_lifecycle_defs sample_timestamp_ok)
qed

lemma sample_deleted_ok: "Detailed_Validate sample_deleted = None"
proof -
  have "validateLifecycle sample_deleted = None"
    by (simp add: validateLifecycle_def sample_deleted_def sample_archived_def sample_deleting_def)
      (simp add: sample_allocation_def sample_lifecycle_defs sample_lifecycle_facts sample_nonempty)
  then show ?thesis
    by (simp add: detailed_valid_iff sample_deleted_def sample_archived_def sample_deleting_def sample_identity_check)
      (simp add: sample_allocation_def sample_lifecycle_defs sample_timestamp_ok)
qed

text \<open>The archived sample volume with a request to collect it, and with the operation that executes the request.\<close>

definition sample_collectable :: DetailedAllocationRecord where
  "sample_collectable = sample_archived\<lparr>a_RecordRevision := 6, a_GCRequestID := sample_uuid2, a_GCRequestedMode := ''execute'',
     a_GCExpectedState := StateArchived, a_GCRequestedAt := sample_time\<rparr>"

definition sample_collecting :: DetailedAllocationRecord where
  "sample_collecting = sample_collectable\<lparr>a_RecordRevision := 7, a_GCOperationID := sample_uuid2,
     a_GCTargetPath := sample_target ''.archived'' sample_uuid,
     a_GCQuarantinePath := sample_target ''.deleted'' sample_uuid2, a_GCStartedAt := sample_time\<rparr>"

lemma sample_archived_fields:
  "a_State sample_archived = StateArchived" "a_BasePath sample_archived = sample_base" "a_DirectoryName sample_archived = sample_dir"
  "a_LogicalVolumeID sample_archived = sample_volume" "a_ArchivedPath sample_archived = sample_target ''.archived'' sample_uuid"
  "a_GCRequestID sample_archived = []" "a_GCRequestedMode sample_archived = []" "a_GCExpectedState sample_archived = []"
  "a_GCRequestedAt sample_archived = []" "a_GCOperationID sample_archived = []" "a_GCTargetPath sample_archived = []"
  "a_GCQuarantinePath sample_archived = []" "a_GCStartedAt sample_archived = []" "a_GCRemoveStartedAt sample_archived = []"
  "a_GCCompletedAt sample_archived = []" "a_RecordRevision sample_archived = 5"
  by (simp_all add: sample_archived_def sample_deleting_def sample_allocation_def)

lemma gc_fields_update:
  assumes "a_State r = StateArchived"
  shows "validateStateFields (r\<lparr>a_RecordRevision := v, a_GCRequestID := q, a_GCRequestedMode := m, a_GCExpectedState := e,
      a_GCRequestedAt := t\<rparr>) = validateStateFields r"
    and "validateStateFields (r\<lparr>a_RecordRevision := v, a_GCOperationID := q, a_GCTargetPath := m, a_GCQuarantinePath := e,
      a_GCStartedAt := t\<rparr>) = validateStateFields r"
  using assms by (simp_all add: validateStateFields_def validatePreparedDelete_def Let_def cong: if_cong)

lemma sample_collectable_ok: "Detailed_Validate sample_collectable = None"
proof -
  have gc: "validateGCFields sample_collectable = None"
    by (simp add: validateGCFields_def sample_collectable_def sample_archived_fields present_count_def sample_nonempty ValidateOperationID_def
        sample_uuid2_ok)
  have "validateStateFields sample_collectable = None"
    using detailed_valid_lifecycle(3) [OF sample_archived_ok] gc_fields_update(1) [OF sample_archived_fields(1)]
    by (simp add: sample_collectable_def)
  then show ?thesis using sample_archived_ok gc
    by (simp add: detailed_valid_iff validateLifecycle_def Let_def sample_collectable_def sample_archived_fields
        validateOptionalTimestampFields_def sample_timestamp_ok)
qed

lemma sample_collecting_ok: "Detailed_Validate sample_collecting = None"
proof -
  note target = sample_target_path [of "''.archived''" sample_uuid] sample_target_path [of "''.deleted''" sample_uuid2]
    sample_target_managed [of "''.deleted''" sample_uuid2]
  have gc: "validateGCFields sample_collecting = None"
    by (simp add: validateGCFields_def sample_collecting_def sample_collectable_def sample_archived_fields present_count_def
        sample_nonempty ValidateOperationID_def sample_uuid2_ok target)
  have "validateStateFields sample_collecting = None"
    using detailed_valid_lifecycle(3) [OF sample_collectable_ok] gc_fields_update(2) [of sample_collectable] sample_archived_fields(1)
    by (simp add: sample_collecting_def) (simp add: sample_collectable_def)
  then show ?thesis using sample_archived_ok gc
    by (simp add: detailed_valid_iff validateLifecycle_def Let_def sample_collecting_def sample_collectable_def sample_archived_fields
        validateOptionalTimestampFields_def sample_timestamp_ok target)
qed

theorem deleted_requires_evidence_witness:
  "\<not> a_ReservesCapacity sample_deleted \<and> a_GCRemoveStartedAt sample_deleted \<noteq> []"
  using deleted_requires_evidence [OF sample_deleted_ok]
  by (simp add: sample_deleted_def sample_nonempty)

text \<open>
  Create replays are idempotent and nothing else. A replay of \<^verbatim>\<open>CreateVolume\<close> is accepted
  exactly when the stored record is valid, the request name is the stored one, the parameters
  normalise to the stored parameters and the stored capacity is inside the replayed range; a
  replay against a valid record is refused either because its own name or parameters do not
  validate or with \<^verbatim>\<open>ErrCreateReplayIncompatible\<close>.
\<close>

theorem create_replay_iff:
  "(ValidateCreateReplay (Some r) name required limit parameters = None \<longleftrightarrow>
      Detailed_Validate r = None \<and> name = a_CreateVolumeRequestName r
      \<and> Normalize parameters = Inr (a_NormalizedCreateParameters r)
      \<and> CapacityCompatible (a_SelectedCapacityBytes r) required limit)
   \<and> (\<forall>e. ValidateCreateReplay (Some r) name required limit parameters = Some e \<longrightarrow> Detailed_Validate r = None \<longrightarrow>
        LogicalVolumeID (a_DriverName r) name = Inl e \<or> Normalize parameters = Inl e
        \<or> errors_is e ErrCreateReplayIncompatible)"
proof (intro conjI allI impI)
  have "LogicalVolumeID (a_DriverName r) (a_CreateVolumeRequestName r) = Inr (a_LogicalVolumeID r)"
    if "Detailed_Validate r = None"
    using detailed_valid_lifecycle(1) [OF that] by (simp add: identity_check_def)
  then show "ValidateCreateReplay (Some r) name required limit parameters = None \<longleftrightarrow>
      Detailed_Validate r = None \<and> name = a_CreateVolumeRequestName r
      \<and> Normalize parameters = Inr (a_NormalizedCreateParameters r)
      \<and> CapacityCompatible (a_SelectedCapacityBytes r) required limit"
    by (auto simp: ValidateCreateReplay_def equal_create_parameters)
next
  fix e
  assume "ValidateCreateReplay (Some r) name required limit parameters = Some e" "Detailed_Validate r = None"
  then show "LogicalVolumeID (a_DriverName r) name = Inl e \<or> Normalize parameters = Inl e
        \<or> errors_is e ErrCreateReplayIncompatible"
    by (cases "LogicalVolumeID (a_DriverName r) name"; cases "Normalize parameters")
      (auto simp: ValidateCreateReplay_def wrap_err_def ensure_is_def errors_is_def split: if_splits)
qed

theorem create_replay_iff_witness:
  "ValidateCreateReplay (Some sample_allocation) sample_request_name 500 0 sample_parameters = None"
  using create_replay_iff [of sample_allocation sample_request_name 500 0 sample_parameters]
    sample_allocation_ok sample_parameters_ok
  by (simp add: sample_allocation_def CapacityCompatible_def)

end
