(* ===== verification/Ownership.thy ===== *)
theory Ownership
  imports Allocation
begin

text \<open>
  \<^verbatim>\<open>pkg/volume/ownership.go\<close>: the parent claim and the per-volume ownership records kept on the
  filesystem, their payload validation, and the content checksum that \<^verbatim>\<open>Seal\<close> writes and
  \<^verbatim>\<open>Validate\<close> recomputes. The three record types share one sealing discipline, stated as the
  locale \<open>sealed_record\<close> and interpreted on each of them.
\<close>

section \<open>Records\<close>

definition ParentOwnerPath :: string where "ParentOwnerPath = ''/.sfs-subdir-csi-owner.json''"
definition LeadershipLeaseNameV1 :: string where "LeadershipLeaseNameV1 = ''scaleway-sfs-subdir-csi-controller''"
definition OwnershipMetadataDirectory :: string where "OwnershipMetadataDirectory = ''.sfs-subdir-csi/volumes''"
definition OwnershipRecordDetailed :: string where "OwnershipRecordDetailed = ''detailed''"
definition OwnershipRecordCompactDeleted :: string where "OwnershipRecordCompactDeleted = ''compactDeleted''"

record ParentOwnerRecord =
  p_SchemaVersion :: string
  p_Revision :: u64
  p_DriverName :: string
  p_InstallationID :: string
  p_ActiveClusterUID :: string
  p_ParentFilesystemID :: string
  p_BasePath :: string
  p_BasePathHash :: string
  p_ControllerNamespace :: string
  p_HelmReleaseName :: string
  p_LeadershipLeaseName :: string
  p_BootstrapAttemptID :: string
  p_ContentChecksum :: string
  p_CreatedAt :: string

record DetailedOwnershipRecord =
  o_SchemaVersion :: string
  o_RecordKind :: string
  o_DriverName :: string
  o_InstallationID :: string
  o_ActiveClusterUID :: string
  o_VolumeHandle :: string
  o_VolumeHandleHash :: string
  o_LogicalVolumeID :: string
  o_MappingHash :: string
  o_PoolName :: string
  o_ParentFilesystemID :: string
  o_BasePath :: string
  o_BasePathHash :: string
  o_DirectoryName :: string
  o_CreateVolumeRequestName :: string
  o_RequestHash :: string
  o_OriginalRequiredBytes :: u64
  o_OriginalLimitBytes :: u64
  o_SelectedCapacityBytes :: u64
  o_NormalizedCreateParameters :: CreateParameters
  o_DeletePolicy :: string
  o_DirectoryUID :: u32
  o_DirectoryGID :: u32
  o_DirectoryMode :: string
  o_PublishedNodeIDs :: "string list option"
  o_State :: string
  o_Revision :: u64
  o_ContentChecksum :: string
  o_CreatedAt :: string
  o_DeleteOperationID :: string
  o_DeleteOperation :: string
  o_DeleteSourcePath :: string
  o_DeleteTargetPath :: string
  o_DeletePreparedAt :: string
  o_DeleteRemoveStartedAt :: string
  o_DeleteCompletedAt :: string
  o_ArchivedPath :: string
  o_RetainedPath :: string
  o_QuarantinePath :: string
  o_GCRequestID :: string
  o_GCRequestedMode :: string
  o_GCExpectedState :: string
  o_GCRequestedAt :: string
  o_GCOperationID :: string
  o_GCTargetPath :: string
  o_GCQuarantinePath :: string
  o_GCStartedAt :: string
  o_GCRemoveStartedAt :: string
  o_GCCompletedAt :: string

record CompactDeletedOwnershipRecord =
  co_SchemaVersion :: string
  co_RecordKind :: string
  co_Revision :: u64
  co_DriverName :: string
  co_InstallationID :: string
  co_ActiveClusterUID :: string
  co_VolumeHandleHash :: string
  co_LogicalVolumeID :: string
  co_CreateVolumeRequestName :: string
  co_MappingHash :: string
  co_ParentFilesystemID :: string
  co_BasePathHash :: string
  co_DirectoryName :: string
  co_State :: string
  co_DeleteResult :: string
  co_UpdatedAt :: string
  co_DeletedAt :: string
  co_ContentChecksum :: string
  co_DeleteOperation :: string
  co_ArchivedPath :: string
  co_RetainedPath :: string
  co_QuarantinePath :: string
  co_DeleteOperationID :: string
  co_DeleteCompletedAt :: string
  co_GCOperationID :: string
  co_GCTargetPath :: string
  co_GCQuarantinePath :: string
  co_GCCompletedAt :: string

datatype OwnershipRecord =
    DetailedO DetailedOwnershipRecord
  | CompactO CompactDeletedOwnershipRecord

fun Ownership_Kind :: "OwnershipRecord \<Rightarrow> string" where
  "Ownership_Kind (DetailedO r) = o_RecordKind r"
| "Ownership_Kind (CompactO r) = co_RecordKind r"

fun Ownership_LifecycleState :: "OwnershipRecord \<Rightarrow> string" where
  "Ownership_LifecycleState (DetailedO r) = o_State r"
| "Ownership_LifecycleState (CompactO r) = co_State r"

fun Ownership_LogicalID :: "OwnershipRecord \<Rightarrow> string" where
  "Ownership_LogicalID (DetailedO r) = o_LogicalVolumeID r"
| "Ownership_LogicalID (CompactO r) = co_LogicalVolumeID r"

definition OwnershipRecordPath :: "string \<Rightarrow> string \<Rightarrow> string res" where
  "OwnershipRecordPath basePath logicalVolumeID =
     require (errs [ValidateBasePath basePath, ValidateLogicalVolumeID logicalVolumeID])
       (Inr (path_join [basePath, OwnershipMetadataDirectory, logicalVolumeID @ ''.json'']))"

section \<open>Payload validation\<close>

definition Parent_validatePayload :: "ParentOwnerRecord \<Rightarrow> error option" where
  "Parent_validatePayload r = errs
     [ensure (\<not> (p_SchemaVersion r \<noteq> SchemaVersionV1 \<or> p_Revision r = 0))
        ''parent owner schema version or revision is invalid'',
      ValidateDriverName (p_DriverName r),
      ValidateInstallationID (p_InstallationID r),
      ValidateClusterUID (p_ActiveClusterUID r),
      ValidateParentFilesystemID (p_ParentFilesystemID r),
      ValidateBasePath (p_BasePath r),
      and_check (BasePathHash (p_BasePath r))
        (\<lambda>want. ensure (p_BasePathHash r = want) ''parent owner base path hash mismatch''),
      wrap_err ''controller namespace'' (ValidatePoolName (p_ControllerNamespace r)),
      wrap_err ''helm release name'' (ValidatePoolName (p_HelmReleaseName r)),
      ensure (p_LeadershipLeaseName r = LeadershipLeaseNameV1)
        ''leadership Lease name does not match fixed v1 name'',
      wrap_err ''bootstrap attempt'' (ValidateOperationID (p_BootstrapAttemptID r)),
      validateRequiredTimestamp ''createdAt'' (p_CreatedAt r)]"

text \<open>
  The allocation record that \<^verbatim>\<open>DetailedOwnershipRecord.validatePayload\<close> and
  \<^verbatim>\<open>reconstructAllocationFromOwnership\<close> both build from an ownership record; the fields that
  neither literal sets are the empty strings of a zero struct.
\<close>

definition ownership_envelope :: "DetailedOwnershipRecord \<Rightarrow> DetailedAllocationRecord" where
  "ownership_envelope r = \<lparr>a_SchemaVersion = o_SchemaVersion r, a_RecordKind = AllocationRecordDetailed, 
     a_RecordRevision = o_Revision r, a_DriverName = o_DriverName r, 
     a_ActiveClusterUID = o_ActiveClusterUID r, a_State = o_State r, 
     a_InstallationID = o_InstallationID r, 
     a_CreateVolumeRequestName = o_CreateVolumeRequestName r, 
     a_RequestHash = o_RequestHash r, a_OriginalRequiredBytes = o_OriginalRequiredBytes r, 
     a_OriginalLimitBytes = o_OriginalLimitBytes r, 
     a_SelectedCapacityBytes = o_SelectedCapacityBytes r, 
     a_NormalizedCreateParameters = o_NormalizedCreateParameters r, 
     a_LogicalVolumeID = o_LogicalVolumeID r, a_VolumeHandle = o_VolumeHandle r, 
     a_VolumeHandleHash = o_VolumeHandleHash r, a_MappingHash = o_MappingHash r, 
     a_PoolName = o_PoolName r, a_ParentFilesystemID = o_ParentFilesystemID r, 
     a_BasePath = o_BasePath r, a_BasePathHash = o_BasePathHash r, 
     a_DirectoryName = o_DirectoryName r, a_ReservesCapacity = True, 
     a_DeletePolicy = o_DeletePolicy r, a_DeleteResult = [], 
     a_DeleteOperationID = o_DeleteOperationID r, a_DeleteOperation = o_DeleteOperation r, 
     a_DeleteSourcePath = o_DeleteSourcePath r, a_DeleteTargetPath = o_DeleteTargetPath r, 
     a_DeletePreparedAt = o_DeletePreparedAt r, 
     a_DeleteRemoveStartedAt = o_DeleteRemoveStartedAt r, 
     a_DeleteCompletedAt = o_DeleteCompletedAt r, a_DirectoryUID = o_DirectoryUID r, 
     a_DirectoryGID = o_DirectoryGID r, a_DirectoryMode = o_DirectoryMode r, 
     a_CreatedAt = o_CreatedAt r, a_UpdatedAt = o_CreatedAt r, a_DeletedAt = [], 
     a_ArchivedPath = o_ArchivedPath r, a_RetainedPath = o_RetainedPath r, 
     a_QuarantinePath = o_QuarantinePath r, a_PublishedNodeIDs = o_PublishedNodeIDs r, 
     a_GCRequestID = o_GCRequestID r, a_GCRequestedMode = o_GCRequestedMode r, 
     a_GCExpectedState = o_GCExpectedState r, a_GCRequestedAt = o_GCRequestedAt r, 
     a_GCOperationID = o_GCOperationID r, a_GCTargetPath = o_GCTargetPath r, 
     a_GCQuarantinePath = o_GCQuarantinePath r, a_GCStartedAt = o_GCStartedAt r, 
     a_GCRemoveStartedAt = o_GCRemoveStartedAt r, a_GCCompletedAt = o_GCCompletedAt r, 
     a_RecoveryOperationID = [], a_RecoverySource = [], a_RecoveredAt = []\<rparr>"

definition Detailed_validatePayload :: "DetailedOwnershipRecord \<Rightarrow> error option" where
  "Detailed_validatePayload r = errs
     [ensure (\<not> (o_SchemaVersion r \<noteq> SchemaVersionV1 \<or> o_RecordKind r \<noteq> OwnershipRecordDetailed
                \<or> o_Revision r = 0))
        ''detailed ownership schema, kind, or revision is invalid'',
      ensure (\<not> (o_State r = StateReserved \<or> o_State r = StateCreatingDirectory \<or> o_State r = StateDeleted))
        ''detailed ownership state is not a valid filesystem ownership state'',
      Detailed_Validate
        (if o_State r = StateArchived \<or> o_State r = StateRetained
         then (ownership_envelope r)\<lparr>a_DeleteResult := ''validated-by-ownership-state''\<rparr>
         else ownership_envelope r)]"

definition Compact_validatePayload :: "CompactDeletedOwnershipRecord \<Rightarrow> error option" where
  "Compact_validatePayload r = errs
     [ensure (\<not> (co_SchemaVersion r \<noteq> SchemaVersionV1 \<or> co_RecordKind r \<noteq> OwnershipRecordCompactDeleted
                \<or> co_Revision r = 0 \<or> co_State r \<noteq> StateDeleted))
        ''compact ownership schema, kind, revision, or state is invalid'',
      ensure (\<not> (co_DeleteResult r = [] \<or> co_CreateVolumeRequestName r = []))
        ''compact ownership record lacks terminal result or request identity'',
      validateCommonRecordIdentity (co_DriverName r) (co_InstallationID r) (co_ActiveClusterUID r)
        (co_LogicalVolumeID r) (co_VolumeHandleHash r) (co_MappingHash r),
      and_check (LogicalVolumeID (co_DriverName r) (co_CreateVolumeRequestName r))
        (\<lambda>want. ensure (co_LogicalVolumeID r = want) ''compact ownership logical ID does not match request name''),
      ValidateParentFilesystemID (co_ParentFilesystemID r),
      validateBasePathHash (co_BasePathHash r),
      ValidateDirectoryName (co_DirectoryName r),
      validateRequiredTimestamp ''updatedAt'' (co_UpdatedAt r),
      validateRequiredTimestamp ''deletedAt'' (co_DeletedAt r),
      validateCompactAudit (co_DeleteOperationID r) (co_DeleteOperation r) (co_DeleteCompletedAt r)
        (co_GCOperationID r) (co_GCCompletedAt r)]"

section \<open>Canonical JSON and the content checksum\<close>

definition parent_owner_json :: "ParentOwnerRecord \<Rightarrow> (string \<times> json) list" where
  "parent_owner_json r = concat
     [field ''schemaVersion'' (JStr (p_SchemaVersion r)),
      field ''revision'' (JNum (unat (p_Revision r))),
      field ''driverName'' (JStr (p_DriverName r)),
      field ''installationID'' (JStr (p_InstallationID r)),
      field ''activeClusterUID'' (JStr (p_ActiveClusterUID r)),
      field ''parentFilesystemID'' (JStr (p_ParentFilesystemID r)),
      field ''basePath'' (JStr (p_BasePath r)),
      field ''basePathHash'' (JStr (p_BasePathHash r)),
      field ''controllerNamespace'' (JStr (p_ControllerNamespace r)),
      field ''helmReleaseName'' (JStr (p_HelmReleaseName r)),
      field ''leadershipLeaseName'' (JStr (p_LeadershipLeaseName r)),
      field ''bootstrapAttemptID'' (JStr (p_BootstrapAttemptID r)),
      field ''contentChecksum'' (JStr (p_ContentChecksum r)),
      field ''createdAt'' (JStr (p_CreatedAt r))]"

definition detailed_ownership_json :: "DetailedOwnershipRecord \<Rightarrow> (string \<times> json) list" where
  "detailed_ownership_json r = concat
     [field ''schemaVersion'' (JStr (o_SchemaVersion r)),
      field ''recordKind'' (JStr (o_RecordKind r)),
      field ''driverName'' (JStr (o_DriverName r)),
      field ''installationID'' (JStr (o_InstallationID r)),
      field ''activeClusterUID'' (JStr (o_ActiveClusterUID r)),
      field ''volumeHandle'' (JStr (o_VolumeHandle r)),
      field ''volumeHandleHash'' (JStr (o_VolumeHandleHash r)),
      field ''logicalVolumeID'' (JStr (o_LogicalVolumeID r)),
      field ''mappingHash'' (JStr (o_MappingHash r)),
      field ''poolName'' (JStr (o_PoolName r)),
      field ''parentFilesystemID'' (JStr (o_ParentFilesystemID r)),
      field ''basePath'' (JStr (o_BasePath r)),
      field ''basePathHash'' (JStr (o_BasePathHash r)),
      field ''directoryName'' (JStr (o_DirectoryName r)),
      field ''createVolumeRequestName'' (JStr (o_CreateVolumeRequestName r)),
      field ''requestHash'' (JStr (o_RequestHash r)),
      field ''originalRequiredBytes'' (JNum (unat (o_OriginalRequiredBytes r))),
      field ''originalLimitBytes'' (JNum (unat (o_OriginalLimitBytes r))),
      field ''selectedCapacityBytes'' (JNum (unat (o_SelectedCapacityBytes r))),
      field ''normalizedCreateParameters'' (parameters_json (o_NormalizedCreateParameters r)),
      field ''deletePolicy'' (JStr (o_DeletePolicy r)),
      field ''directoryUid'' (JNum (unat (o_DirectoryUID r))),
      field ''directoryGid'' (JNum (unat (o_DirectoryGID r))),
      field ''directoryMode'' (JStr (o_DirectoryMode r)),
      field ''publishedNodeIDs'' (slice_json (o_PublishedNodeIDs r)),
      field ''state'' (JStr (o_State r)),
      field ''revision'' (JNum (unat (o_Revision r))),
      field ''contentChecksum'' (JStr (o_ContentChecksum r)),
      field ''createdAt'' (JStr (o_CreatedAt r)),
      omit_empty ''deleteOperationID'' (o_DeleteOperationID r),
      omit_empty ''deleteOperation'' (o_DeleteOperation r),
      omit_empty ''deleteSourcePath'' (o_DeleteSourcePath r),
      omit_empty ''deleteTargetPath'' (o_DeleteTargetPath r),
      omit_empty ''deletePreparedAt'' (o_DeletePreparedAt r),
      omit_empty ''deleteRemoveStartedAt'' (o_DeleteRemoveStartedAt r),
      omit_empty ''deleteCompletedAt'' (o_DeleteCompletedAt r),
      omit_empty ''archivedPath'' (o_ArchivedPath r),
      omit_empty ''retainedPath'' (o_RetainedPath r),
      omit_empty ''quarantinePath'' (o_QuarantinePath r),
      omit_empty ''gcRequestID'' (o_GCRequestID r),
      omit_empty ''gcRequestedMode'' (o_GCRequestedMode r),
      omit_empty ''gcExpectedState'' (o_GCExpectedState r),
      omit_empty ''gcRequestedAt'' (o_GCRequestedAt r),
      omit_empty ''gcOperationID'' (o_GCOperationID r),
      omit_empty ''gcTargetPath'' (o_GCTargetPath r),
      omit_empty ''gcQuarantinePath'' (o_GCQuarantinePath r),
      omit_empty ''gcStartedAt'' (o_GCStartedAt r),
      omit_empty ''gcRemoveStartedAt'' (o_GCRemoveStartedAt r),
      omit_empty ''gcCompletedAt'' (o_GCCompletedAt r)]"

definition compact_ownership_json :: "CompactDeletedOwnershipRecord \<Rightarrow> (string \<times> json) list" where
  "compact_ownership_json r = concat
     [field ''schemaVersion'' (JStr (co_SchemaVersion r)),
      field ''recordKind'' (JStr (co_RecordKind r)),
      field ''revision'' (JNum (unat (co_Revision r))),
      field ''driverName'' (JStr (co_DriverName r)),
      field ''installationID'' (JStr (co_InstallationID r)),
      field ''activeClusterUID'' (JStr (co_ActiveClusterUID r)),
      field ''volumeHandleHash'' (JStr (co_VolumeHandleHash r)),
      field ''logicalVolumeID'' (JStr (co_LogicalVolumeID r)),
      field ''createVolumeRequestName'' (JStr (co_CreateVolumeRequestName r)),
      field ''mappingHash'' (JStr (co_MappingHash r)),
      field ''parentFilesystemID'' (JStr (co_ParentFilesystemID r)),
      field ''basePathHash'' (JStr (co_BasePathHash r)),
      field ''directoryName'' (JStr (co_DirectoryName r)),
      field ''state'' (JStr (co_State r)),
      field ''deleteResult'' (JStr (co_DeleteResult r)),
      field ''updatedAt'' (JStr (co_UpdatedAt r)),
      field ''deletedAt'' (JStr (co_DeletedAt r)),
      field ''contentChecksum'' (JStr (co_ContentChecksum r)),
      omit_empty ''deleteOperation'' (co_DeleteOperation r),
      omit_empty ''archivedPath'' (co_ArchivedPath r),
      omit_empty ''retainedPath'' (co_RetainedPath r),
      omit_empty ''quarantinePath'' (co_QuarantinePath r),
      omit_empty ''deleteOperationID'' (co_DeleteOperationID r),
      omit_empty ''deleteCompletedAt'' (co_DeleteCompletedAt r),
      omit_empty ''gcOperationID'' (co_GCOperationID r),
      omit_empty ''gcTargetPath'' (co_GCTargetPath r),
      omit_empty ''gcQuarantinePath'' (co_GCQuarantinePath r),
      omit_empty ''gcCompletedAt'' (co_GCCompletedAt r)]"

text \<open>
  \<^verbatim>\<open>contentChecksum\<close> works on the members of the record's JSON object. The record types hold
  only strings, numbers, booleans and arrays of strings, so neither the encoder nor the
  decoder of the source can fail on them.
\<close>

definition generic_members :: "(string \<times> json) list \<Rightarrow> (string \<times> json) list" where
  "generic_members kvs = sort_key fst (map (\<lambda>(k, v). (repair_utf8 k, generic_json v)) kvs)"

definition checksum_payload :: "(string \<times> json) list \<Rightarrow> json" where
  "checksum_payload kvs = JObj (filter (\<lambda>(k, v). k \<noteq> ''contentChecksum'') (generic_members kvs))"

definition contentChecksum :: "(string \<times> json) list \<Rightarrow> string" where
  "contentChecksum kvs = ''sha256:'' @ hex_encode (sha256 (Marshal (checksum_payload kvs)))"

definition validateContentChecksum :: "string \<Rightarrow> (string \<times> json) list \<Rightarrow> error option" where
  "validateContentChecksum stored kvs = errs
     [ensure (\<not> (\<not> has_prefix stored ''sha256:'' \<or> length stored \<noteq> length ''sha256:'' + 32 * 2))
        ''content checksum is malformed'',
      ensure (stored = contentChecksum kvs) ''content checksum mismatch'']"

section \<open>Sealing, validation and encoding\<close>

definition Parent_Seal :: "ParentOwnerRecord \<Rightarrow> ParentOwnerRecord res" where
  "Parent_Seal r =
     (let cleared = r\<lparr>p_ContentChecksum := []\<rparr>
      in require (Parent_validatePayload cleared)
           (Inr (cleared\<lparr>p_ContentChecksum := contentChecksum (parent_owner_json cleared)\<rparr>)))"

definition Parent_Validate :: "ParentOwnerRecord \<Rightarrow> error option" where
  "Parent_Validate r = errs
     [Parent_validatePayload r, validateContentChecksum (p_ContentChecksum r) (parent_owner_json r)]"

definition EncodeParentOwnerRecord :: "ParentOwnerRecord \<Rightarrow> string res" where
  "EncodeParentOwnerRecord r = require (Parent_Validate r) (Inr (Marshal (JObj (parent_owner_json r))))"

definition DetailedOwnership_Seal :: "DetailedOwnershipRecord \<Rightarrow> DetailedOwnershipRecord res" where
  "DetailedOwnership_Seal r =
     (let cleared = r\<lparr>o_ContentChecksum := []\<rparr>
      in require (Detailed_validatePayload cleared)
           (Inr (cleared\<lparr>o_ContentChecksum := contentChecksum (detailed_ownership_json cleared)\<rparr>)))"

definition DetailedOwnership_Validate :: "DetailedOwnershipRecord \<Rightarrow> error option" where
  "DetailedOwnership_Validate r = errs
     [Detailed_validatePayload r, validateContentChecksum (o_ContentChecksum r) (detailed_ownership_json r)]"

definition CompactOwnership_Seal :: "CompactDeletedOwnershipRecord \<Rightarrow> CompactDeletedOwnershipRecord res" where
  "CompactOwnership_Seal r =
     (let cleared = r\<lparr>co_ContentChecksum := []\<rparr>
      in require (Compact_validatePayload cleared)
           (Inr (cleared\<lparr>co_ContentChecksum := contentChecksum (compact_ownership_json cleared)\<rparr>)))"

definition CompactOwnership_Validate :: "CompactDeletedOwnershipRecord \<Rightarrow> error option" where
  "CompactOwnership_Validate r = errs
     [Compact_validatePayload r, validateContentChecksum (co_ContentChecksum r) (compact_ownership_json r)]"

fun Ownership_Validate :: "OwnershipRecord \<Rightarrow> error option" where
  "Ownership_Validate (DetailedO r) = DetailedOwnership_Validate r"
| "Ownership_Validate (CompactO r) = CompactOwnership_Validate r"

fun ownership_json :: "OwnershipRecord \<Rightarrow> json" where
  "ownership_json (DetailedO r) = JObj (detailed_ownership_json r)"
| "ownership_json (CompactO r) = JObj (compact_ownership_json r)"

definition EncodeOwnershipRecord :: "OwnershipRecord option \<Rightarrow> string res" where
  "EncodeOwnershipRecord record =
     (case record of
        None \<Rightarrow> Inl (errorf ''ownership record is nil'')
      | Some r \<Rightarrow> require (Ownership_Validate r) (Inr (Marshal (ownership_json r))))"

section \<open>The sealing discipline\<close>

text \<open>What a sealed record type provides to the code that stores and reads it back.\<close>

locale sealed_record =
  fixes payload_check :: "'r \<Rightarrow> error option"
    and members :: "'r \<Rightarrow> (string \<times> json) list"
    and get :: "'r \<Rightarrow> string"
    and put :: "string \<Rightarrow> 'r \<Rightarrow> 'r"
    and seal :: "'r \<Rightarrow> 'r res"
    and validate :: "'r \<Rightarrow> error option"
  assumes get_put: "get (put c r) = c"
    and put_put: "put c (put d r) = put c r"
    and put_get: "put (get r) r = r"
    and payload_put: "payload_check (put c r) = payload_check r"
    and checksum_put: "contentChecksum (members (put c r)) = contentChecksum (members r)"
    and seal_eq: "seal r = require (payload_check (put [] r)) (Inr (put (contentChecksum (members (put [] r))) (put [] r)))"
    and validate_eq: "validate r = errs [payload_check r, validateContentChecksum (get r) (members r)]"
begin

lemma seal_iff: "seal r = Inr s \<longleftrightarrow> payload_check r = None \<and> s = put (contentChecksum (members r)) r"
  by (auto simp: seal_eq payload_put checksum_put put_put)

lemma content_checksum_form:
  "has_prefix (contentChecksum kvs) ''sha256:''" "length (contentChecksum kvs) = 71"
  by (simp_all add: contentChecksum_def has_prefix_append)

lemma validate_iff: "validate r = None \<longleftrightarrow> payload_check r = None \<and> get r = contentChecksum (members r)"
  using content_checksum_form [of "members r"]
  by (auto simp: validate_eq validateContentChecksum_def)

lemma seal_validates: "seal r = Inr s \<Longrightarrow> validate s = None"
  by (simp add: seal_iff validate_iff payload_put get_put checksum_put)

lemma validate_iff_sealed: "validate r = None \<longleftrightarrow> seal r = Inr r"
  by (metis get_put put_get seal_iff validate_iff)

lemma seal_put: "seal (put c r) = seal r"
  by (simp add: seal_eq put_put)

lemma seal_changes_checksum_only: "seal r = Inr s \<Longrightarrow> put c s = put c r"
  by (auto simp: seal_iff put_put)

lemma checksum_unique: "validate r = None \<Longrightarrow> validate (put c r) = None \<Longrightarrow> c = get r"
  by (simp add: validate_iff get_put checksum_put)

end

lemma repair_checksum_key: "repair_utf8 ''contentChecksum'' = ''contentChecksum''"
  by (simp add: repair_utf8_def ill_formed_def scan_ascii byte_def)

definition checksum_free :: "(string \<times> json) list \<Rightarrow> (string \<times> json) list" where
  "checksum_free kvs = filter (\<lambda>(k, v). repair_utf8 k \<noteq> ''contentChecksum'') kvs"

lemma checksum_free_cong:
  assumes "checksum_free kvs = checksum_free kvs'"
  shows "contentChecksum kvs = contentChecksum kvs'"
proof -
  have "filter (\<lambda>(k, v). k \<noteq> ''contentChecksum'') (generic_members xs)
        = sort_key fst (map (\<lambda>(k, v). (repair_utf8 k, generic_json v)) (checksum_free xs))" for xs
    by (simp add: generic_members_def checksum_free_def filter_sort filter_map comp_def case_prod_unfold)
  then show ?thesis
    using assms by (simp add: contentChecksum_def checksum_payload_def)
qed

lemma checksum_free_concat: "checksum_free (concat xss) = concat (map checksum_free xss)"
  by (induction xss) (simp_all add: checksum_free_def)

lemma checksum_free_checksum: "checksum_free (field ''contentChecksum'' v) = []"
  by (simp add: checksum_free_def field_def repair_checksum_key)

lemmas checksum_free_simps = checksum_free_concat checksum_free_checksum

lemmas seal_defs = Parent_Seal_def DetailedOwnership_Seal_def CompactOwnership_Seal_def
  Parent_Validate_def DetailedOwnership_Validate_def CompactOwnership_Validate_def

lemma parent_payload_checksum: "Parent_validatePayload (r\<lparr>p_ContentChecksum := c\<rparr>) = Parent_validatePayload r"
  by (simp add: Parent_validatePayload_def)

lemma detailed_payload_checksum:
  "Detailed_validatePayload (r\<lparr>o_ContentChecksum := c\<rparr>) = Detailed_validatePayload r"
  by (simp add: Detailed_validatePayload_def ownership_envelope_def)

lemma compact_payload_checksum:
  "Compact_validatePayload (r\<lparr>co_ContentChecksum := c\<rparr>) = Compact_validatePayload r"
  by (simp add: Compact_validatePayload_def)

lemma parent_checksum_free:
  "checksum_free (parent_owner_json (r\<lparr>p_ContentChecksum := c\<rparr>)) = checksum_free (parent_owner_json r)"
  by (simp add: parent_owner_json_def checksum_free_simps del: concat.simps)

lemma detailed_checksum_free:
  "checksum_free (detailed_ownership_json (r\<lparr>o_ContentChecksum := c\<rparr>)) = checksum_free (detailed_ownership_json r)"
  by (simp add: detailed_ownership_json_def checksum_free_simps del: concat.simps)

lemma compact_checksum_free:
  "checksum_free (compact_ownership_json (r\<lparr>co_ContentChecksum := c\<rparr>)) = checksum_free (compact_ownership_json r)"
  by (simp add: compact_ownership_json_def checksum_free_simps del: concat.simps)

interpretation parent: sealed_record Parent_validatePayload parent_owner_json p_ContentChecksum
    "\<lambda>c r. r\<lparr>p_ContentChecksum := c\<rparr>" Parent_Seal Parent_Validate
  by unfold_locales
    (simp_all add: seal_defs Let_def parent_payload_checksum checksum_free_cong [OF parent_checksum_free])

interpretation detailed: sealed_record Detailed_validatePayload detailed_ownership_json o_ContentChecksum
    "\<lambda>c r. r\<lparr>o_ContentChecksum := c\<rparr>" DetailedOwnership_Seal DetailedOwnership_Validate
  by unfold_locales
    (simp_all add: seal_defs Let_def detailed_payload_checksum checksum_free_cong [OF detailed_checksum_free])

interpretation compact: sealed_record Compact_validatePayload compact_ownership_json co_ContentChecksum
    "\<lambda>c r. r\<lparr>co_ContentChecksum := c\<rparr>" CompactOwnership_Seal CompactOwnership_Validate
  by unfold_locales
    (simp_all add: seal_defs Let_def compact_payload_checksum checksum_free_cong [OF compact_checksum_free])

section \<open>Properties of sealed records\<close>

text \<open>
  (C30) Sealing and validating ownership records are inverse. \<^verbatim>\<open>Seal\<close> succeeds exactly on a valid
  payload and changes the checksum field only; a record validates exactly when sealing it gives
  it back unchanged; hence what \<^verbatim>\<open>Seal\<close> returns validates, and no other checksum on the same
  payload does.
\<close>

theorem ownership_seal_validate:
  "(DetailedOwnership_Validate r = None \<longleftrightarrow> DetailedOwnership_Seal r = Inr r)
   \<and> (DetailedOwnership_Seal r = Inr s \<longleftrightarrow>
        Detailed_validatePayload r = None \<and> s = r\<lparr>o_ContentChecksum := contentChecksum (detailed_ownership_json r)\<rparr>)
   \<and> (DetailedOwnership_Seal r = Inr s \<longrightarrow>
        (DetailedOwnership_Validate (r\<lparr>o_ContentChecksum := c\<rparr>) = None \<longleftrightarrow> c = o_ContentChecksum s))"
proof (intro conjI impI)
  show "DetailedOwnership_Validate r = None \<longleftrightarrow> DetailedOwnership_Seal r = Inr r"
    by (rule detailed.validate_iff_sealed)
  show "DetailedOwnership_Seal r = Inr s \<longleftrightarrow>
        Detailed_validatePayload r = None \<and> s = r\<lparr>o_ContentChecksum := contentChecksum (detailed_ownership_json r)\<rparr>"
    by (rule detailed.seal_iff)
  assume "DetailedOwnership_Seal r = Inr s"
  then show "DetailedOwnership_Validate (r\<lparr>o_ContentChecksum := c\<rparr>) = None \<longleftrightarrow> c = o_ContentChecksum s"
    by (simp add: detailed.seal_iff detailed.validate_iff detailed.payload_put detailed.checksum_put)
qed

text \<open>
  The same discipline for the parent claim: it validates exactly when it is its own seal, and
  every sealed claim encodes.
\<close>

theorem parent_claim_seal_validate:
  "(Parent_Validate r = None \<longleftrightarrow> Parent_Seal r = Inr r)
   \<and> (Parent_Seal r = Inr s \<longrightarrow>
        Parent_Validate s = None \<and> EncodeParentOwnerRecord s = Inr (Marshal (JObj (parent_owner_json s))))"
  using parent.validate_iff_sealed parent.seal_validates
  by (simp add: EncodeParentOwnerRecord_def)

section \<open>Consequences of validation\<close>

lemma ownership_valid_iff:
  "DetailedOwnership_Validate r = None \<longleftrightarrow>
     Detailed_validatePayload r = None \<and> o_ContentChecksum r = contentChecksum (detailed_ownership_json r)"
  by (rule detailed.validate_iff)

lemma compact_ownership_valid_iff:
  "CompactOwnership_Validate r = None \<longleftrightarrow>
     Compact_validatePayload r = None \<and> co_ContentChecksum r = contentChecksum (compact_ownership_json r)"
  by (rule compact.validate_iff)

definition ownership_states :: "string set" where
  "ownership_states = {StateReady, StateDeleting, StateArchived, StateRetained}"

lemma reserves_states:
  "Reserves s = Inr True \<Longrightarrow> s \<noteq> StateReserved \<Longrightarrow> s \<noteq> StateCreatingDirectory \<Longrightarrow> s \<in> ownership_states"
  by (auto simp: Reserves_def ownership_states_def split: if_splits)

lemma envelope_fields [simp]:
  "a_State (ownership_envelope r) = o_State r" "a_ReservesCapacity (ownership_envelope r)"
  "a_DeleteResult (ownership_envelope r) = []" "a_DeletedAt (ownership_envelope r) = []"
  "a_RecordRevision (ownership_envelope r) = o_Revision r" "a_BasePath (ownership_envelope r) = o_BasePath r"
  by (simp_all add: ownership_envelope_def)

lemma detailed_payload_iff:
  "Detailed_validatePayload r = None \<longleftrightarrow>
     o_SchemaVersion r = SchemaVersionV1 \<and> o_RecordKind r = OwnershipRecordDetailed \<and> o_Revision r \<noteq> 0
     \<and> o_State r \<in> ownership_states
     \<and> Detailed_Validate ((ownership_envelope r)\<lparr>a_DeleteResult :=
          (if o_State r = StateArchived \<or> o_State r = StateRetained then ''validated-by-ownership-state'' else [])\<rparr>) = None"
  (is "?l \<longleftrightarrow> ?r")
proof -
  let ?e = "(ownership_envelope r)\<lparr>a_DeleteResult :=
    (if o_State r = StateArchived \<or> o_State r = StateRetained then ''validated-by-ownership-state'' else [])\<rparr>"
  have env: "(ownership_envelope r)\<lparr>a_DeleteResult := []\<rparr> = ownership_envelope r"
    by (simp add: ownership_envelope_def)
  have "o_State r \<in> ownership_states"
    if "Detailed_Validate ?e = None" "o_State r \<noteq> StateReserved" "o_State r \<noteq> StateCreatingDirectory"
    using reserves_states [of "o_State r"] that by (simp add: detailed_valid_iff)
  moreover have "o_State r \<in> ownership_states \<Longrightarrow>
      o_State r \<noteq> StateReserved \<and> o_State r \<noteq> StateCreatingDirectory \<and> o_State r \<noteq> StateDeleted"
    by (auto simp: ownership_states_def)
  ultimately show ?thesis
    by (auto simp: Detailed_validatePayload_def env)
qed

section \<open>A sample ownership record\<close>

definition ownership_payload :: "DetailedAllocationRecord \<Rightarrow> DetailedOwnershipRecord" where
  "ownership_payload a = \<lparr>o_SchemaVersion = a_SchemaVersion a, o_RecordKind = OwnershipRecordDetailed, 
     o_DriverName = a_DriverName a, o_InstallationID = a_InstallationID a, 
     o_ActiveClusterUID = a_ActiveClusterUID a, o_VolumeHandle = a_VolumeHandle a, 
     o_VolumeHandleHash = a_VolumeHandleHash a, o_LogicalVolumeID = a_LogicalVolumeID a, 
     o_MappingHash = a_MappingHash a, o_PoolName = a_PoolName a, 
     o_ParentFilesystemID = a_ParentFilesystemID a, o_BasePath = a_BasePath a, 
     o_BasePathHash = a_BasePathHash a, o_DirectoryName = a_DirectoryName a, 
     o_CreateVolumeRequestName = a_CreateVolumeRequestName a, 
     o_RequestHash = a_RequestHash a, o_OriginalRequiredBytes = a_OriginalRequiredBytes a, 
     o_OriginalLimitBytes = a_OriginalLimitBytes a, 
     o_SelectedCapacityBytes = a_SelectedCapacityBytes a, 
     o_NormalizedCreateParameters = a_NormalizedCreateParameters a, 
     o_DeletePolicy = a_DeletePolicy a, o_DirectoryUID = a_DirectoryUID a, 
     o_DirectoryGID = a_DirectoryGID a, o_DirectoryMode = a_DirectoryMode a, 
     o_PublishedNodeIDs = a_PublishedNodeIDs a, o_State = a_State a, 
     o_Revision = a_RecordRevision a, o_ContentChecksum = [], o_CreatedAt = a_CreatedAt a, 
     o_DeleteOperationID = a_DeleteOperationID a, o_DeleteOperation = a_DeleteOperation a, 
     o_DeleteSourcePath = a_DeleteSourcePath a, o_DeleteTargetPath = a_DeleteTargetPath a, 
     o_DeletePreparedAt = a_DeletePreparedAt a, 
     o_DeleteRemoveStartedAt = a_DeleteRemoveStartedAt a, 
     o_DeleteCompletedAt = a_DeleteCompletedAt a, o_ArchivedPath = a_ArchivedPath a, 
     o_RetainedPath = a_RetainedPath a, o_QuarantinePath = a_QuarantinePath a, 
     o_GCRequestID = a_GCRequestID a, o_GCRequestedMode = a_GCRequestedMode a, 
     o_GCExpectedState = a_GCExpectedState a, o_GCRequestedAt = a_GCRequestedAt a, 
     o_GCOperationID = a_GCOperationID a, o_GCTargetPath = a_GCTargetPath a, 
     o_GCQuarantinePath = a_GCQuarantinePath a, o_GCStartedAt = a_GCStartedAt a, 
     o_GCRemoveStartedAt = a_GCRemoveStartedAt a, o_GCCompletedAt = a_GCCompletedAt a\<rparr>"

definition sample_ownership :: "DetailedAllocationRecord \<Rightarrow> DetailedOwnershipRecord" where
  "sample_ownership a =
     (ownership_payload a)\<lparr>o_ContentChecksum := contentChecksum (detailed_ownership_json (ownership_payload a))\<rparr>"

lemma sample_ownership_envelope:
  "a_RecordKind a = AllocationRecordDetailed \<Longrightarrow> a_ReservesCapacity a \<Longrightarrow> a_UpdatedAt a = a_CreatedAt a \<Longrightarrow>
   a_DeletedAt a = [] \<Longrightarrow> a_RecoveryOperationID a = [] \<Longrightarrow> a_RecoverySource a = [] \<Longrightarrow> a_RecoveredAt a = [] \<Longrightarrow>
   ownership_envelope (sample_ownership a) = a\<lparr>a_DeleteResult := []\<rparr>"
  by (simp add: ownership_envelope_def sample_ownership_def ownership_payload_def)

lemma sample_ready_ownership_ok: "DetailedOwnership_Validate (sample_ownership sample_allocation) = None"
proof -
  have env: "ownership_envelope (sample_ownership sample_allocation) = sample_allocation"
    using sample_ownership_envelope [of sample_allocation] by (simp add: sample_allocation_def)
  have "Detailed_validatePayload (sample_ownership sample_allocation) = None"
    unfolding Detailed_validatePayload_def env using sample_allocation_ok
    by (simp add: sample_ownership_def ownership_payload_def) (simp add: sample_allocation_def)
  then show ?thesis
    by (simp add: ownership_valid_iff sample_ownership_def detailed.checksum_put)
qed

theorem ownership_seal_validate_witness:
  "DetailedOwnership_Validate ((sample_ownership sample_allocation)\<lparr>o_ContentChecksum := ''stale''\<rparr>) \<noteq> None"
proof -
  let ?r = "sample_ownership sample_allocation"
  have s: "DetailedOwnership_Seal ?r = Inr ?r"
    using sample_ready_ownership_ok ownership_seal_validate [of ?r ?r] by blast
  have "''stale'' \<noteq> o_ContentChecksum ?r"
    by (simp add: sample_ownership_def contentChecksum_def)
  with s ownership_seal_validate [of ?r ?r "''stale''"] show ?thesis by simp
qed

definition sample_claim_payload :: ParentOwnerRecord where
  "sample_claim_payload = \<lparr>p_SchemaVersion = SchemaVersionV1, p_Revision = 1, p_DriverName = sample_driver,
     p_InstallationID = sample_uuid, p_ActiveClusterUID = ''cluster-1'', p_ParentFilesystemID = ''fs-1'',
     p_BasePath = sample_base, p_BasePathHash = truncatedBytesHash ''bp-'' sample_base,
     p_ControllerNamespace = ''kube-system'', p_HelmReleaseName = ''sfs'',
     p_LeadershipLeaseName = LeadershipLeaseNameV1, p_BootstrapAttemptID = sample_uuid,
     p_ContentChecksum = [], p_CreatedAt = sample_time\<rparr>"

definition sample_claim :: ParentOwnerRecord where
  "sample_claim = sample_claim_payload\<lparr>p_ContentChecksum := contentChecksum (parent_owner_json sample_claim_payload)\<rparr>"

lemma sample_claim_ok: "Parent_Seal sample_claim = Inr sample_claim"
proof -
  have "Parent_validatePayload sample_claim = None"
    using sample_driver_ok sample_uuid_ok sample_base_ok sample_timestamp_ok sample_mapping_ok
    by (simp add: Parent_validatePayload_def sample_claim_def sample_claim_payload_def ValidateInstallationID_def ValidateClusterUID_def
        BasePathHash_def ValidateOperationID_def Mapping_Validate_def sample_mapping_def ValidatePoolName_def
        poolNamePattern_def char_class_defs contains_any_def ascii_eval MaxContextEntryBytes_def)
  then have "Parent_Validate sample_claim = None"
    by (simp add: parent.validate_iff sample_claim_def parent.checksum_put)
  then show ?thesis by (simp add: parent.validate_iff_sealed)
qed

theorem parent_claim_seal_validate_witness:
  "Parent_Validate sample_claim = None
   \<and> EncodeParentOwnerRecord sample_claim = Inr (Marshal (JObj (parent_owner_json sample_claim)))"
  using parent_claim_seal_validate [of sample_claim sample_claim] sample_claim_ok by simp

end
