(* ===== verification/Transition.thy ===== *)
theory Transition
  imports Ownership
begin

text \<open>
  \<^verbatim>\<open>pkg/volume/allocation_transition.go\<close> and \<^verbatim>\<open>ownership_transition.go\<close>: which successor a durable
  record may have. Both update relations are interpretations of \<open>update_chain\<close>, whose lemmas speak of whole
  histories of updates; both state graphs are interpretations of \<open>forward_graph\<close>.
\<close>

section \<open>Allocation updates\<close>

definition allowedAllocationStateTransition :: "string \<Rightarrow> string \<Rightarrow> bool" where
  "allowedAllocationStateTransition current next \<longleftrightarrow>
     (if current = next then True
      else if current = StateReserved then next = StateCreatingDirectory
      else if current = StateCreatingDirectory then next = StateReady
      else if current = StateReady then next = StateDeleting
      else if current = StateDeleting then next = StateArchived \<or> next = StateRetained \<or> next = StateDeleted
      else if current = StateArchived \<or> current = StateRetained then next = StateDeleted
      else False)"

definition validateDetailedImmutableEquality ::
  "DetailedAllocationRecord \<Rightarrow> DetailedAllocationRecord \<Rightarrow> error option" where
  "validateDetailedImmutableEquality current next =
     ensure
        (a_SchemaVersion current = a_SchemaVersion next
         \<and> a_RecordKind current = a_RecordKind next
         \<and> a_DriverName current = a_DriverName next
         \<and> a_ActiveClusterUID current = a_ActiveClusterUID next
         \<and> a_InstallationID current = a_InstallationID next
         \<and> a_CreateVolumeRequestName current = a_CreateVolumeRequestName next
         \<and> a_RequestHash current = a_RequestHash next
         \<and> a_OriginalRequiredBytes current = a_OriginalRequiredBytes next
         \<and> a_OriginalLimitBytes current = a_OriginalLimitBytes next
         \<and> a_SelectedCapacityBytes current = a_SelectedCapacityBytes next
         \<and> EqualCreateParameters (a_NormalizedCreateParameters current) (a_NormalizedCreateParameters next)
         \<and> a_LogicalVolumeID current = a_LogicalVolumeID next
         \<and> a_VolumeHandle current = a_VolumeHandle next
         \<and> a_VolumeHandleHash current = a_VolumeHandleHash next
         \<and> a_MappingHash current = a_MappingHash next
         \<and> a_PoolName current = a_PoolName next
         \<and> a_ParentFilesystemID current = a_ParentFilesystemID next
         \<and> a_BasePath current = a_BasePath next
         \<and> a_BasePathHash current = a_BasePathHash next
         \<and> a_DirectoryName current = a_DirectoryName next
         \<and> a_DeletePolicy current = a_DeletePolicy next
         \<and> a_DirectoryUID current = a_DirectoryUID next
         \<and> a_DirectoryGID current = a_DirectoryGID next
         \<and> a_DirectoryMode current = a_DirectoryMode next
         \<and> a_CreatedAt current = a_CreatedAt next
         \<and> a_RecoveryOperationID current = a_RecoveryOperationID next
         \<and> a_RecoverySource current = a_RecoverySource next
         \<and> a_RecoveredAt current = a_RecoveredAt next)
       ''allocation update changes immutable creation or mapping identity''"

definition validateCompactionEquality ::
  "DetailedAllocationRecord \<Rightarrow> CompactDeletedAllocationRecord \<Rightarrow> error option" where
  "validateCompactionEquality current next =
     ensure
        (a_SchemaVersion current = ca_SchemaVersion next
         \<and> a_DriverName current = ca_DriverName next
         \<and> a_InstallationID current = ca_InstallationID next
         \<and> a_ActiveClusterUID current = ca_ActiveClusterUID next
         \<and> a_CreateVolumeRequestName current = ca_CreateVolumeRequestName next
         \<and> a_LogicalVolumeID current = ca_LogicalVolumeID next
         \<and> a_VolumeHandleHash current = ca_VolumeHandleHash next
         \<and> a_MappingHash current = ca_MappingHash next
         \<and> a_ParentFilesystemID current = ca_ParentFilesystemID next
         \<and> a_DirectoryName current = ca_DirectoryName next
         \<and> a_DeleteResult current = ca_DeleteResult next
         \<and> a_DeletedAt current = ca_DeletedAt next
         \<and> a_DeleteOperationID current = ca_DeleteOperationID next
         \<and> a_DeleteOperation current = ca_DeleteOperation next
         \<and> a_ArchivedPath current = ca_ArchivedPath next
         \<and> a_RetainedPath current = ca_RetainedPath next
         \<and> a_QuarantinePath current = ca_QuarantinePath next
         \<and> a_DeleteCompletedAt current = ca_DeleteCompletedAt next
         \<and> a_GCOperationID current = ca_GCOperationID next
         \<and> a_GCTargetPath current = ca_GCTargetPath next
         \<and> a_GCQuarantinePath current = ca_GCQuarantinePath next
         \<and> a_GCCompletedAt current = ca_GCCompletedAt next)
       ''allocation compaction changes identity or terminal audit evidence''"

fun allocation_successor :: "AllocationRecord \<Rightarrow> AllocationRecord \<Rightarrow> error option" where
  "allocation_successor (DetailedA current) (DetailedA next) = errs
     [ensure (a_RecordRevision next = a_RecordRevision current + 1) ''allocation revision must advance exactly once'',
      validateDetailedImmutableEquality current next,
      ensure (allowedAllocationStateTransition (a_State current) (a_State next))
        ''allocation state transition is not allowed'']"
| "allocation_successor (DetailedA current) (CompactA next) = errs
     [ensure (a_State current = StateDeleted) ''only a detailed Deleted record may be compacted'',
      ensure (ca_RecordRevision next = a_RecordRevision current + 1) ''compaction revision must advance exactly once'',
      validateCompactionEquality current next]"
| "allocation_successor (DetailedA current) (UnknownA next) = Some (errorf ''detailed allocation cannot transition to kind'')"
| "allocation_successor (CompactA current) _ = Some (errorf ''compact Deleted allocation tombstones are immutable'')"
| "allocation_successor (UnknownA current) _ = Some (errorf ''deletedUnknown allocation tombstones are immutable'')"

definition ValidateAllocationUpdate :: "AllocationRecord option \<Rightarrow> AllocationRecord option \<Rightarrow> error option" where
  "ValidateAllocationUpdate currentRecord nextRecord =
     (case (currentRecord, nextRecord) of
        (Some current, Some next) \<Rightarrow> errs
          [wrap_err ''current allocation record'' (Allocation_Validate current),
           wrap_err ''next allocation record'' (Allocation_Validate next),
           ensure (Allocation_LogicalID current = Allocation_LogicalID next)
             ''allocation update changes logical volume ID'',
           allocation_successor current next]
      | _ \<Rightarrow> Some (errorf ''allocation update requires current and next records''))"

section \<open>Ownership updates\<close>

definition allowedDetailedOwnershipTransition :: "string \<Rightarrow> string \<Rightarrow> bool" where
  "allowedDetailedOwnershipTransition current next \<longleftrightarrow>
     (if current = next then True
      else if current = StateReady then next = StateDeleting
      else if current = StateDeleting then next = StateArchived \<or> next = StateRetained
      else False)"

definition validateDetailedOwnershipImmutableEquality ::
  "DetailedOwnershipRecord \<Rightarrow> DetailedOwnershipRecord \<Rightarrow> error option" where
  "validateDetailedOwnershipImmutableEquality current next =
     ensure
        (o_SchemaVersion current = o_SchemaVersion next
         \<and> o_RecordKind current = o_RecordKind next
         \<and> o_DriverName current = o_DriverName next
         \<and> o_InstallationID current = o_InstallationID next
         \<and> o_ActiveClusterUID current = o_ActiveClusterUID next
         \<and> o_VolumeHandle current = o_VolumeHandle next
         \<and> o_VolumeHandleHash current = o_VolumeHandleHash next
         \<and> o_LogicalVolumeID current = o_LogicalVolumeID next
         \<and> o_MappingHash current = o_MappingHash next
         \<and> o_PoolName current = o_PoolName next
         \<and> o_ParentFilesystemID current = o_ParentFilesystemID next
         \<and> o_BasePath current = o_BasePath next
         \<and> o_BasePathHash current = o_BasePathHash next
         \<and> o_DirectoryName current = o_DirectoryName next
         \<and> o_CreateVolumeRequestName current = o_CreateVolumeRequestName next
         \<and> o_RequestHash current = o_RequestHash next
         \<and> o_OriginalRequiredBytes current = o_OriginalRequiredBytes next
         \<and> o_OriginalLimitBytes current = o_OriginalLimitBytes next
         \<and> o_SelectedCapacityBytes current = o_SelectedCapacityBytes next
         \<and> EqualCreateParameters (o_NormalizedCreateParameters current) (o_NormalizedCreateParameters next)
         \<and> o_DeletePolicy current = o_DeletePolicy next
         \<and> o_DirectoryUID current = o_DirectoryUID next
         \<and> o_DirectoryGID current = o_DirectoryGID next
         \<and> o_DirectoryMode current = o_DirectoryMode next
         \<and> o_CreatedAt current = o_CreatedAt next)
       ''ownership update changes immutable creation or mapping identity''"

definition validateOwnershipCompactionEquality ::
  "DetailedOwnershipRecord \<Rightarrow> CompactDeletedOwnershipRecord \<Rightarrow> error option" where
  "validateOwnershipCompactionEquality current next =
     ensure
        (o_SchemaVersion current = co_SchemaVersion next
         \<and> o_DriverName current = co_DriverName next
         \<and> o_InstallationID current = co_InstallationID next
         \<and> o_ActiveClusterUID current = co_ActiveClusterUID next
         \<and> o_VolumeHandleHash current = co_VolumeHandleHash next
         \<and> o_LogicalVolumeID current = co_LogicalVolumeID next
         \<and> o_CreateVolumeRequestName current = co_CreateVolumeRequestName next
         \<and> o_MappingHash current = co_MappingHash next
         \<and> o_ParentFilesystemID current = co_ParentFilesystemID next
         \<and> o_BasePathHash current = co_BasePathHash next
         \<and> o_DirectoryName current = co_DirectoryName next
         \<and> o_DeleteOperation current = co_DeleteOperation next
         \<and> o_ArchivedPath current = co_ArchivedPath next
         \<and> o_RetainedPath current = co_RetainedPath next
         \<and> o_QuarantinePath current = co_QuarantinePath next
         \<and> o_DeleteOperationID current = co_DeleteOperationID next
         \<and> o_GCOperationID current = co_GCOperationID next
         \<and> o_GCTargetPath current = co_GCTargetPath next
         \<and> o_GCQuarantinePath current = co_GCQuarantinePath next)
       ''ownership compaction changes identity or operation evidence''"

fun ownership_successor :: "OwnershipRecord \<Rightarrow> OwnershipRecord \<Rightarrow> error option" where
  "ownership_successor (DetailedO current) (DetailedO next) = errs
     [ensure (o_Revision next = o_Revision current + 1) ''ownership revision must advance exactly once'',
      validateDetailedOwnershipImmutableEquality current next,
      ensure (allowedDetailedOwnershipTransition (o_State current) (o_State next))
        ''ownership state transition is not allowed'']"
| "ownership_successor (DetailedO current) (CompactO next) = errs
     [ensure (co_Revision next = o_Revision current + 1) ''ownership compaction revision must advance exactly once'',
      ensure (\<not> (o_State current \<noteq> StateDeleting \<and> o_State current \<noteq> StateArchived \<and> o_State current \<noteq> StateRetained))
        ''ownership state is not a terminal compaction predecessor'',
      validateOwnershipCompactionEquality current next]"
| "ownership_successor (CompactO current) _ = Some (errorf ''compact Deleted ownership tombstones are immutable'')"

definition ValidateOwnershipUpdate :: "OwnershipRecord option \<Rightarrow> OwnershipRecord option \<Rightarrow> error option" where
  "ValidateOwnershipUpdate currentRecord nextRecord =
     (case (currentRecord, nextRecord) of
        (Some current, Some next) \<Rightarrow> errs
          [wrap_err ''current ownership record'' (Ownership_Validate current),
           wrap_err ''next ownership record'' (Ownership_Validate next),
           ensure (Ownership_LogicalID current = Ownership_LogicalID next)
             ''ownership update changes logical volume ID'',
           ownership_successor current next]
      | _ \<Rightarrow> Some (errorf ''ownership update requires current and next records''))"

section \<open>Histories of updates\<close>

text \<open>\<open>chain upd n r s\<close>: \<open>n\<close> accepted updates lead from record \<open>r\<close> to record \<open>s\<close>.\<close>

inductive chain :: "('r \<Rightarrow> 'r \<Rightarrow> bool) \<Rightarrow> nat \<Rightarrow> 'r \<Rightarrow> 'r \<Rightarrow> bool" for upd where
  chain_refl: "chain upd 0 r r"
| chain_step: "chain upd n r s \<Longrightarrow> upd s t \<Longrightarrow> chain upd (Suc n) r t"

inductive_cases chain_SucE: "chain upd (Suc n) r t"
inductive_simps chain_zero: "chain upd 0 r t"

lemma chain_unfold: "chain upd n r t \<Longrightarrow> (n = 0 \<and> t = r) \<or> (\<exists>s. upd r s)"
  by (induction rule: chain.induct) auto

text \<open>A state graph in which every edge but a self-loop goes up.\<close>

locale forward_graph =
  fixes allowed :: "'s \<Rightarrow> 's \<Rightarrow> bool" and rank :: "'s \<Rightarrow> nat"
  assumes allowed_rank: "allowed s t \<Longrightarrow> s = t \<or> rank s < rank t"
begin

lemma reachable_rank: "allowed\<^sup>*\<^sup>* s t \<Longrightarrow> s = t \<or> rank s < rank t"
  by (induction rule: rtranclp_induct) (auto dest: allowed_rank)

lemma no_return: "allowed\<^sup>*\<^sup>* s t \<Longrightarrow> allowed\<^sup>*\<^sup>* t s \<Longrightarrow> s = t"
  using reachable_rank [of s t] reachable_rank [of t s] by auto

end

text \<open>
  A store whose updates advance a 64-bit revision by one without wrapping, keep an identity and
  follow a forward state graph.
\<close>

locale update_chain = forward_graph allowed rank
  for allowed :: "'s \<Rightarrow> 's \<Rightarrow> bool" and rank :: "'s \<Rightarrow> nat" +
  fixes upd :: "'r \<Rightarrow> 'r \<Rightarrow> bool" and revision :: "'r \<Rightarrow> u64" and ident :: "'r \<Rightarrow> 'i" and state :: "'r \<Rightarrow> 's"
  assumes upd_revision: "upd r s \<Longrightarrow> revision s = revision r + 1 \<and> revision s \<noteq> 0"
    and upd_ident: "upd r s \<Longrightarrow> ident s = ident r"
    and upd_state: "upd r s \<Longrightarrow> allowed (state r) (state s)"
begin

lemma chain_revision: "chain upd n r s \<Longrightarrow> unat (revision s) = unat (revision r) + n"
  by (induction rule: chain.induct) (auto dest!: upd_revision simp: unat_succ)

lemma chain_ident: "chain upd n r s \<Longrightarrow> ident s = ident r"
  by (induction rule: chain.induct) (auto dest: upd_ident)

lemma chain_state: "chain upd n r s \<Longrightarrow> allowed\<^sup>*\<^sup>* (state r) (state s)"
  by (induction rule: chain.induct) (auto dest: upd_state rtranclp.rtrancl_into_rtrancl)

lemma chain_rank: "chain upd n r s \<Longrightarrow> state s = state r \<or> rank (state r) < rank (state s)"
  using reachable_rank [OF chain_state] by metis

lemma chain_no_return: "chain upd n r s \<Longrightarrow> chain upd m s t \<Longrightarrow> state t = state r \<Longrightarrow> state s = state r"
  using chain_state [of n r s] chain_state [of m s t] no_return [of "state r" "state s"] by simp

lemma chain_length_bound: "chain upd n r s \<Longrightarrow> n < 2 ^ 64"
  using chain_revision [of n r s] unat_u64_less [of "revision s"] by simp

end

section \<open>The two state graphs\<close>

definition state_rank :: "string \<Rightarrow> nat" where
  "state_rank s =
     (if s = StateReserved then 0 else if s = StateCreatingDirectory then 1 else if s = StateReady then 2
      else if s = StateDeleting then 3 else if s = StateArchived \<or> s = StateRetained then 4 else 5)"

lemma allocation_rank: "allowedAllocationStateTransition s t \<Longrightarrow> s = t \<or> state_rank s < state_rank t"
  by (auto simp: allowedAllocationStateTransition_def state_rank_def split: if_splits)

lemma allowed_refl: "allowedAllocationStateTransition s s"
  by (simp add: allowedAllocationStateTransition_def)

text \<open>On the filesystem the last edge leads from a detailed record to its compact tombstone.\<close>

definition ownership_graph :: "string \<Rightarrow> string \<Rightarrow> bool" where
  "ownership_graph s t \<longleftrightarrow> allowedDetailedOwnershipTransition s t
     \<or> (s \<in> {StateDeleting, StateArchived, StateRetained} \<and> t = StateDeleted)"

lemma ownership_rank: "ownership_graph s t \<Longrightarrow> s = t \<or> state_rank s < state_rank t"
  by (auto simp: ownership_graph_def allowedDetailedOwnershipTransition_def state_rank_def split: if_splits)

section \<open>Allocation histories\<close>

definition allocation_update :: "AllocationRecord \<Rightarrow> AllocationRecord \<Rightarrow> bool" where
  "allocation_update current next \<longleftrightarrow> ValidateAllocationUpdate (Some current) (Some next) = None"

fun allocation_revision :: "AllocationRecord \<Rightarrow> u64" where
  "allocation_revision (DetailedA r) = a_RecordRevision r"
| "allocation_revision (CompactA r) = ca_RecordRevision r"
| "allocation_revision (UnknownA r) = ua_RecordRevision r"

text \<open>The identity that survives compaction, and the wider one of a detailed record.\<close>

fun allocation_anchor :: "AllocationRecord \<Rightarrow> string list" where
  "allocation_anchor (DetailedA r) = [a_SchemaVersion r, a_DriverName r, a_InstallationID r, a_ActiveClusterUID r,
     a_CreateVolumeRequestName r, a_LogicalVolumeID r, a_VolumeHandleHash r, a_MappingHash r,
     a_ParentFilesystemID r, a_DirectoryName r]"
| "allocation_anchor (CompactA r) = [ca_SchemaVersion r, ca_DriverName r, ca_InstallationID r, ca_ActiveClusterUID r,
     ca_CreateVolumeRequestName r, ca_LogicalVolumeID r, ca_VolumeHandleHash r, ca_MappingHash r,
     ca_ParentFilesystemID r, ca_DirectoryName r]"
| "allocation_anchor (UnknownA r) = [ua_SchemaVersion r, ua_DriverName r, ua_InstallationID r, ua_ActiveClusterUID r,
     ua_LogicalVolumeID r, ua_VolumeHandleHash r, ua_MappingHash r]"

lemma allocation_update_iff:
  "allocation_update r s \<longleftrightarrow> Allocation_Validate r = None \<and> Allocation_Validate s = None
     \<and> Allocation_LogicalID r = Allocation_LogicalID s \<and> allocation_successor r s = None"
  by (simp add: allocation_update_def ValidateAllocationUpdate_def)

lemma valid_revision: "Allocation_Validate r = None \<Longrightarrow> allocation_revision r \<noteq> 0"
  by (cases r) (auto simp: detailed_valid_iff Compact_Validate_def Unknown_Validate_def)

lemma valid_compact_state: "Compact_Validate c = None \<Longrightarrow> ca_State c = StateDeleted \<and> \<not> ca_ReservesCapacity c"
  by (auto simp: Compact_Validate_def)

fun_cases allocation_successorE: "allocation_successor r s = None"

interpretation allocations: update_chain allowedAllocationStateTransition state_rank allocation_update
    allocation_revision allocation_anchor Allocation_LifecycleState
proof unfold_locales
  fix s t assume "allowedAllocationStateTransition s t"
  then show "s = t \<or> state_rank s < state_rank t" by (rule allocation_rank)
next
  fix r s assume u: "allocation_update r s"
  then have succ: "allocation_successor r s = None" and valid: "Allocation_Validate s = None"
    by (simp_all add: allocation_update_iff)
  from succ have "allocation_revision s = allocation_revision r + 1"
    by (cases "(r, s)" rule: allocation_successor.cases) auto
  with valid_revision [OF valid] show "allocation_revision s = allocation_revision r + 1 \<and> allocation_revision s \<noteq> 0"
    by simp
  from succ show "allocation_anchor s = allocation_anchor r"
    by (cases "(r, s)" rule: allocation_successor.cases)
      (auto simp: validateDetailedImmutableEquality_def validateCompactionEquality_def)
  from succ valid show "allowedAllocationStateTransition (Allocation_LifecycleState r) (Allocation_LifecycleState s)"
    by (cases "(r, s)" rule: allocation_successor.cases)
      (auto simp: allowed_refl dest: valid_compact_state)
qed


lemma deleted_final: "allowedAllocationStateTransition StateDeleted t \<longleftrightarrow> t = StateDeleted"
  by (auto simp: allowedAllocationStateTransition_def)

lemma deleted_reachable: "allowedAllocationStateTransition\<^sup>*\<^sup>* StateDeleted t \<Longrightarrow> t = StateDeleted"
  by (induction rule: rtranclp_induct) (simp_all add: deleted_final)

fun allocation_reserves :: "AllocationRecord \<Rightarrow> bool" where
  "allocation_reserves (DetailedA r) = a_ReservesCapacity r"
| "allocation_reserves (CompactA r) = ca_ReservesCapacity r"
| "allocation_reserves (UnknownA r) = ua_ReservesCapacity r"

lemma valid_deleted_reserves:
  "Allocation_Validate r = None \<Longrightarrow> allocation_reserves r \<longleftrightarrow> Allocation_LifecycleState r \<noteq> StateDeleted"
  by (cases r) (auto simp: valid_reserves Unknown_Validate_def dest: valid_compact_state)

lemma chain_valid: "chain allocation_update n r s \<Longrightarrow> Allocation_Validate r = None \<Longrightarrow> Allocation_Validate s = None"
  by (induction rule: chain.induct) (simp_all add: allocation_update_iff)

text \<open>
  (C19) Every history of accepted allocation updates moves forward. After \<open>n\<close> updates the record is
  valid, its revision has grown by exactly \<open>n\<close> without wrapping, its identity is the one it
  started with, its state is the old one or strictly later in the lifecycle, and a record that
  reserves capacity at the end reserved it at the start: capacity, once released by \<^verbatim>\<open>Deleted\<close>,
  is never taken again under the same record.
\<close>

theorem allocation_history_forward:
  assumes "chain allocation_update n r s" and "Allocation_Validate r = None"
  shows "Allocation_Validate s = None
    \<and> unat (allocation_revision s) = unat (allocation_revision r) + n
    \<and> allocation_anchor s = allocation_anchor r
    \<and> (Allocation_LifecycleState s = Allocation_LifecycleState r
       \<or> state_rank (Allocation_LifecycleState r) < state_rank (Allocation_LifecycleState s))
    \<and> (allocation_reserves s \<longrightarrow> allocation_reserves r)"
proof (intro conjI impI)
  show v: "Allocation_Validate s = None" using chain_valid assms by blast
  show "unat (allocation_revision s) = unat (allocation_revision r) + n"
    by (rule allocations.chain_revision [OF assms(1)])
  show "allocation_anchor s = allocation_anchor r"
    by (rule allocations.chain_ident [OF assms(1)])
  show "Allocation_LifecycleState s = Allocation_LifecycleState r
       \<or> state_rank (Allocation_LifecycleState r) < state_rank (Allocation_LifecycleState s)"
    by (rule allocations.chain_rank [OF assms(1)])
  assume "allocation_reserves s"
  with v valid_deleted_reserves have "Allocation_LifecycleState s \<noteq> StateDeleted" by blast
  with allocations.chain_state [OF assms(1)] deleted_reachable
  have "Allocation_LifecycleState r \<noteq> StateDeleted" by metis
  with assms(2) valid_deleted_reserves show "allocation_reserves r" by blast
qed

lemma sample_archived_update: "allocation_update (DetailedA sample_deleting) (DetailedA sample_archived)"
  using sample_deleting_ok sample_archived_ok
  by (simp add: allocation_update_iff sample_archived_def validateDetailedImmutableEquality_def
      equal_create_parameters) (simp add: sample_deleting_def allowedAllocationStateTransition_def)

lemma sample_deleted_update: "allocation_update (DetailedA sample_archived) (DetailedA sample_deleted)"
  using sample_archived_ok sample_deleted_ok
  by (simp add: allocation_update_iff sample_deleted_def validateDetailedImmutableEquality_def
      equal_create_parameters) (simp add: sample_archived_def allowedAllocationStateTransition_def)

theorem allocation_history_forward_witness:
  "unat (a_RecordRevision sample_deleted) = unat (a_RecordRevision sample_deleting) + 2"
proof -
  have "chain allocation_update (Suc (Suc 0)) (DetailedA sample_deleting) (DetailedA sample_deleted)"
    by (rule chain_step [of allocation_update, OF chain_step [of allocation_update, OF chain_refl sample_archived_update]
          sample_deleted_update])
  from allocation_history_forward [OF this] sample_deleting_ok show ?thesis by simp
qed

text \<open>What an update may not touch of a detailed record: the record with every lifecycle field emptied.\<close>

definition frozen_part :: "DetailedAllocationRecord \<Rightarrow> DetailedAllocationRecord" where
  "frozen_part r = r\<lparr>a_RecordRevision := 0, a_State := [], a_ReservesCapacity := False, a_DeleteResult := [],
     a_DeleteOperationID := [], a_DeleteOperation := [], a_DeleteSourcePath := [], a_DeleteTargetPath := [],
     a_DeletePreparedAt := [], a_DeleteRemoveStartedAt := [], a_DeleteCompletedAt := [], a_UpdatedAt := [],
     a_DeletedAt := [], a_ArchivedPath := [], a_RetainedPath := [], a_QuarantinePath := [], a_PublishedNodeIDs := None,
     a_GCRequestID := [], a_GCRequestedMode := [], a_GCExpectedState := [], a_GCRequestedAt := [],
     a_GCOperationID := [], a_GCTargetPath := [], a_GCQuarantinePath := [], a_GCStartedAt := [],
     a_GCRemoveStartedAt := [], a_GCCompletedAt := []\<rparr>"

text \<open>The tombstone that a detailed record determines, up to its update time.\<close>

definition tombstone_of :: "DetailedAllocationRecord \<Rightarrow> string \<Rightarrow> CompactDeletedAllocationRecord" where
  "tombstone_of r updatedAt = \<lparr>ca_SchemaVersion = a_SchemaVersion r, ca_RecordKind = AllocationRecordCompactDeleted,
     ca_RecordRevision = a_RecordRevision r + 1, ca_DriverName = a_DriverName r, ca_InstallationID = a_InstallationID r,
     ca_ActiveClusterUID = a_ActiveClusterUID r, ca_CreateVolumeRequestName = a_CreateVolumeRequestName r,
     ca_LogicalVolumeID = a_LogicalVolumeID r, ca_VolumeHandleHash = a_VolumeHandleHash r, ca_MappingHash = a_MappingHash r,
     ca_State = StateDeleted, ca_ParentFilesystemID = a_ParentFilesystemID r, ca_DirectoryName = a_DirectoryName r,
     ca_ReservesCapacity = False, ca_DeleteResult = a_DeleteResult r, ca_UpdatedAt = updatedAt, ca_DeletedAt = a_DeletedAt r,
     ca_DeleteOperationID = a_DeleteOperationID r, ca_DeleteOperation = a_DeleteOperation r, ca_ArchivedPath = a_ArchivedPath r,
     ca_RetainedPath = a_RetainedPath r, ca_QuarantinePath = a_QuarantinePath r, ca_DeleteCompletedAt = a_DeleteCompletedAt r,
     ca_GCOperationID = a_GCOperationID r, ca_GCTargetPath = a_GCTargetPath r, ca_GCQuarantinePath = a_GCQuarantinePath r,
     ca_GCCompletedAt = a_GCCompletedAt r\<rparr>"

lemma immutable_frozen: "validateDetailedImmutableEquality a b = None \<longleftrightarrow> frozen_part b = frozen_part a"
  by (cases a, cases b) (auto simp: validateDetailedImmutableEquality_def frozen_part_def equal_create_parameters)

lemma compaction_tombstone:
  assumes "Compact_Validate c = None"
  shows "ca_RecordRevision c = a_RecordRevision a + 1 \<and> validateCompactionEquality a c = None \<longleftrightarrow> c = tombstone_of a (ca_UpdatedAt c)"
  using assms by (cases c) (auto simp: validateCompactionEquality_def tombstone_of_def Compact_Validate_def)

text \<open>
  (C31) Which successor a durable allocation may have. An update is accepted exactly when both records are
  valid, the current one is detailed, and the next one is either the tombstone of a detailed \<^verbatim>\<open>Deleted\<close>
  record (every identity, operation, path and collection field carried over, the revision one higher, only
  the update time free) or a detailed record of the next revision, of an allowed state, that differs in lifecycle
  fields only: every creation, mapping, capacity, policy, directory and recovery field is kept. In
  particular a tombstone has no successor and no record is followed by a deleted-unknown one.
\<close>

theorem allocation_update_exact:
  "ValidateAllocationUpdate (Some r) (Some s) = None \<longleftrightarrow>
     Allocation_Validate r = None \<and> Allocation_Validate s = None
     \<and> (\<exists>a. r = DetailedA a
        \<and> ((\<exists>t. s = CompactA (tombstone_of a t) \<and> a_State a = StateDeleted)
           \<or> (\<exists>b. s = DetailedA b \<and> a_RecordRevision b = a_RecordRevision a + 1 \<and> frozen_part b = frozen_part a
                \<and> allowedAllocationStateTransition (a_State a) (a_State b))))"
proof (cases "(r, s)" rule: allocation_successor.cases)
  case (1 a b)
  have "frozen_part b = frozen_part a \<Longrightarrow> a_LogicalVolumeID a = a_LogicalVolumeID b"
    using immutable_frozen [of a b] by (simp add: validateDetailedImmutableEquality_def)
  then show ?thesis using 1 by (auto simp: ValidateAllocationUpdate_def immutable_frozen)
next
  case (2 a c)
  have "c = tombstone_of a t \<Longrightarrow> c = tombstone_of a (ca_UpdatedAt c) \<and> ca_LogicalVolumeID c = a_LogicalVolumeID a" for t
    by (simp add: tombstone_of_def)
  then show ?thesis
    using 2 compaction_tombstone [of c a] by (auto simp: ValidateAllocationUpdate_def)
qed (simp_all add: ValidateAllocationUpdate_def)

definition sample_redirected :: DetailedAllocationRecord where
  "sample_redirected = sample_deleting\<lparr>a_RecordRevision := 5, a_DeleteOperationID := sample_uuid2,
     a_DeleteTargetPath := sample_target ''.archived'' sample_uuid2,
     a_ArchivedPath := sample_target ''.archived'' sample_uuid2\<rparr>"

lemma sample_redirected_ok: "Detailed_Validate sample_redirected = None"
proof -
  have "validateLifecycle sample_redirected = None"
    by (simp add: validateLifecycle_def sample_redirected_def sample_deleting_def)
      (simp add: sample_allocation_def sample_lifecycle_defs sample_lifecycle_facts sample_nonempty
        DeletePolicyArchive_def DeleteOperationArchive_def)
  then show ?thesis
    by (simp add: detailed_valid_iff sample_redirected_def sample_deleting_def sample_identity_check)
      (simp add: sample_allocation_def sample_lifecycle_defs sample_timestamp_ok)
qed

text \<open>
  A prepared delete is not frozen by the update check. The comment on
  \<^verbatim>\<open>DetailedAllocationRecord\<close> calls the optional transition fields immutable once their operation
  begins, but \<^verbatim>\<open>ValidateAllocationUpdate\<close> accepts a successor in state \<^verbatim>\<open>Deleting\<close> that names another
  delete operation and another archive target.
\<close>

theorem prepared_delete_not_frozen:
  "ValidateAllocationUpdate (Some (DetailedA sample_deleting)) (Some (DetailedA sample_redirected)) = None
   \<and> a_State sample_deleting = StateDeleting \<and> a_State sample_redirected = StateDeleting
   \<and> a_DeleteOperationID sample_redirected \<noteq> a_DeleteOperationID sample_deleting"
proof (intro conjI)
  show "ValidateAllocationUpdate (Some (DetailedA sample_deleting)) (Some (DetailedA sample_redirected)) = None"
    using sample_deleting_ok sample_redirected_ok
    by (simp add: ValidateAllocationUpdate_def sample_redirected_def validateDetailedImmutableEquality_def
        equal_create_parameters allowed_refl) (simp add: sample_deleting_def)
  show "a_DeleteOperationID sample_redirected \<noteq> a_DeleteOperationID sample_deleting"
    by (simp add: sample_redirected_def sample_deleting_def sample_uuid_def sample_uuid2_def)
qed (simp_all add: sample_redirected_def sample_deleting_def)

section \<open>Ownership histories\<close>

definition ownership_update :: "OwnershipRecord \<Rightarrow> OwnershipRecord \<Rightarrow> bool" where
  "ownership_update current next \<longleftrightarrow> ValidateOwnershipUpdate (Some current) (Some next) = None"

fun ownership_revision :: "OwnershipRecord \<Rightarrow> u64" where
  "ownership_revision (DetailedO r) = o_Revision r"
| "ownership_revision (CompactO r) = co_Revision r"

fun ownership_anchor :: "OwnershipRecord \<Rightarrow> string list" where
  "ownership_anchor (DetailedO r) = [o_SchemaVersion r, o_DriverName r, o_InstallationID r, o_ActiveClusterUID r,
     o_VolumeHandleHash r, o_LogicalVolumeID r, o_CreateVolumeRequestName r, o_MappingHash r,
     o_ParentFilesystemID r, o_BasePathHash r, o_DirectoryName r]"
| "ownership_anchor (CompactO r) = [co_SchemaVersion r, co_DriverName r, co_InstallationID r, co_ActiveClusterUID r,
     co_VolumeHandleHash r, co_LogicalVolumeID r, co_CreateVolumeRequestName r, co_MappingHash r,
     co_ParentFilesystemID r, co_BasePathHash r, co_DirectoryName r]"

lemma ownership_update_iff:
  "ownership_update r s \<longleftrightarrow> Ownership_Validate r = None \<and> Ownership_Validate s = None
     \<and> Ownership_LogicalID r = Ownership_LogicalID s \<and> ownership_successor r s = None"
  by (simp add: ownership_update_def ValidateOwnershipUpdate_def)

lemma valid_ownership_revision: "Ownership_Validate r = None \<Longrightarrow> ownership_revision r \<noteq> 0"
  by (cases r) (auto simp: ownership_valid_iff compact_ownership_valid_iff detailed_payload_iff
      Compact_validatePayload_def)

lemma valid_compact_ownership_state: "CompactOwnership_Validate c = None \<Longrightarrow> co_State c = StateDeleted"
  by (auto simp: compact_ownership_valid_iff Compact_validatePayload_def)

interpretation ownerships: update_chain ownership_graph state_rank ownership_update
    ownership_revision ownership_anchor Ownership_LifecycleState
proof unfold_locales
  fix s t assume "ownership_graph s t"
  then show "s = t \<or> state_rank s < state_rank t" by (rule ownership_rank)
next
  fix r s assume u: "ownership_update r s"
  then have succ: "ownership_successor r s = None" and valid: "Ownership_Validate s = None"
    by (simp_all add: ownership_update_iff)
  from succ have "ownership_revision s = ownership_revision r + 1"
    by (cases "(r, s)" rule: ownership_successor.cases) auto
  with valid_ownership_revision [OF valid]
  show "ownership_revision s = ownership_revision r + 1 \<and> ownership_revision s \<noteq> 0" by simp
  from succ show "ownership_anchor s = ownership_anchor r"
    by (cases "(r, s)" rule: ownership_successor.cases)
      (auto simp: validateDetailedOwnershipImmutableEquality_def validateOwnershipCompactionEquality_def)
  from succ valid show "ownership_graph (Ownership_LifecycleState r) (Ownership_LifecycleState s)"
    by (cases "(r, s)" rule: ownership_successor.cases)
      (auto simp: ownership_graph_def dest: valid_compact_ownership_state)
qed

lemma ownership_chain_valid:
  "chain ownership_update n r s \<Longrightarrow> Ownership_Validate r = None \<Longrightarrow> Ownership_Validate s = None"
  by (induction rule: chain.induct) (simp_all add: ownership_update_iff)

text \<open>
  (C28) Every history of accepted ownership updates moves forward on the filesystem side too. After
  \<open>n\<close> replacements the record is authentic, its revision has grown by exactly \<open>n\<close>, its identity is
  unchanged, its state never moved back, and a history that starts at a compact tombstone
  has no step.
\<close>

theorem ownership_history_forward:
  assumes "chain ownership_update n r s" and "Ownership_Validate r = None"
  shows "Ownership_Validate s = None
    \<and> unat (ownership_revision s) = unat (ownership_revision r) + n
    \<and> ownership_anchor s = ownership_anchor r
    \<and> (Ownership_LifecycleState s = Ownership_LifecycleState r
       \<or> state_rank (Ownership_LifecycleState r) < state_rank (Ownership_LifecycleState s))
    \<and> (\<forall>c. r = CompactO c \<longrightarrow> n = 0 \<and> s = r)"
proof (intro conjI allI impI)
  fix c assume "r = CompactO c"
  then have "\<not> ownership_update r t" for t by (simp add: ownership_update_iff)
  with chain_unfold [OF assms(1)] show "n = 0" and "s = r" by blast+
qed (use ownership_chain_valid [OF assms] ownerships.chain_revision [OF assms(1)]
      ownerships.chain_ident [OF assms(1)] ownerships.chain_rank [OF assms(1)] in simp_all)

lemma sample_deleting_ownership_ok: "DetailedOwnership_Validate (sample_ownership sample_deleting) = None"
proof -
  have env: "ownership_envelope (sample_ownership sample_deleting) = sample_deleting"
    using sample_ownership_envelope [of sample_deleting] by (simp add: sample_deleting_def sample_allocation_def)
  have "Detailed_validatePayload (sample_ownership sample_deleting) = None"
    unfolding Detailed_validatePayload_def env using sample_deleting_ok
    by (simp add: sample_ownership_def ownership_payload_def)
      (simp add: sample_deleting_def sample_allocation_def)
  then show ?thesis
    by (simp add: ownership_valid_iff sample_ownership_def detailed.checksum_put)
qed

lemma sample_ownership_update:
  "ownership_update (DetailedO (sample_ownership sample_allocation)) (DetailedO (sample_ownership sample_deleting))"
  using sample_ready_ownership_ok sample_deleting_ownership_ok
  by (simp add: ownership_update_iff)
    (simp add: sample_ownership_def ownership_payload_def sample_deleting_def
      validateDetailedOwnershipImmutableEquality_def equal_create_parameters,
     simp add: sample_allocation_def allowedDetailedOwnershipTransition_def)

theorem ownership_history_forward_witness:
  "ownership_anchor (DetailedO (sample_ownership sample_deleting))
   = ownership_anchor (DetailedO (sample_ownership sample_allocation))"
  using ownership_history_forward [OF chain_step [of ownership_update, OF chain_refl sample_ownership_update]]
    sample_ready_ownership_ok by simp

end
