(* ===== verification/Pairing.thy ===== *)
theory Pairing
  imports Transition
begin

text \<open>
  \<^verbatim>\<open>pkg/volume/pairing.go\<close>, \<^verbatim>\<open>recovery.go\<close> and \<^verbatim>\<open>context_match.go\<close>: when the Kubernetes allocation and the
  filesystem ownership record describe one volume, when a wire context names it, and how a
  missing allocation is rebuilt from its ownership record.
\<close>

section \<open>Pairs of allocation and ownership\<close>

definition detailed_pair_identity :: "DetailedAllocationRecord \<Rightarrow> DetailedOwnershipRecord \<Rightarrow> bool" where
  "detailed_pair_identity allocation ownership \<longleftrightarrow>
         a_SchemaVersion allocation = o_SchemaVersion ownership
         \<and> a_DriverName allocation = o_DriverName ownership
         \<and> a_InstallationID allocation = o_InstallationID ownership
         \<and> a_ActiveClusterUID allocation = o_ActiveClusterUID ownership
         \<and> a_VolumeHandle allocation = o_VolumeHandle ownership
         \<and> a_VolumeHandleHash allocation = o_VolumeHandleHash ownership
         \<and> a_LogicalVolumeID allocation = o_LogicalVolumeID ownership
         \<and> a_MappingHash allocation = o_MappingHash ownership
         \<and> a_PoolName allocation = o_PoolName ownership
         \<and> a_ParentFilesystemID allocation = o_ParentFilesystemID ownership
         \<and> a_BasePath allocation = o_BasePath ownership
         \<and> a_BasePathHash allocation = o_BasePathHash ownership
         \<and> a_DirectoryName allocation = o_DirectoryName ownership
         \<and> a_CreateVolumeRequestName allocation = o_CreateVolumeRequestName ownership
         \<and> a_RequestHash allocation = o_RequestHash ownership
         \<and> a_OriginalRequiredBytes allocation = o_OriginalRequiredBytes ownership
         \<and> a_OriginalLimitBytes allocation = o_OriginalLimitBytes ownership
         \<and> a_SelectedCapacityBytes allocation = o_SelectedCapacityBytes ownership
         \<and> EqualCreateParameters (a_NormalizedCreateParameters allocation) (o_NormalizedCreateParameters ownership)
         \<and> a_DeletePolicy allocation = o_DeletePolicy ownership
         \<and> a_DirectoryUID allocation = o_DirectoryUID ownership
         \<and> a_DirectoryGID allocation = o_DirectoryGID ownership
         \<and> a_DirectoryMode allocation = o_DirectoryMode ownership
         \<and> a_CreatedAt allocation = o_CreatedAt ownership"

text \<open>\<^verbatim>\<open>slices.Equal\<close> compares lengths and elements, so a nil and an empty slice are equal.\<close>

definition slices_equal :: "'a list option \<Rightarrow> 'a list option \<Rightarrow> bool" where
  "slices_equal s t \<longleftrightarrow> (case s of None \<Rightarrow> [] | Some xs \<Rightarrow> xs) = (case t of None \<Rightarrow> [] | Some ys \<Rightarrow> ys)"

definition validateDetailedPair ::
  "DetailedAllocationRecord option \<Rightarrow> DetailedOwnershipRecord option \<Rightarrow> string \<Rightarrow> bool \<Rightarrow> error option" where
  "validateDetailedPair allocationRecord ownershipRecord expectedOwnerState comparePublishedNodes =
     (case (allocationRecord, ownershipRecord) of
        (Some allocation, Some ownership) \<Rightarrow> errs
          [wrap_err ''allocation record'' (Detailed_Validate allocation),
           wrap_err ''ownership record'' (DetailedOwnership_Validate ownership),
           ensure (o_State ownership = expectedOwnerState) ''unexpected ownership state'',
           ensure (detailed_pair_identity allocation ownership
               \<and> \<not> (comparePublishedNodes
                    \<and> \<not> slices_equal (a_PublishedNodeIDs allocation) (o_PublishedNodeIDs ownership)))
             ''allocation and ownership immutable identity or published-node fence differs'']
      | _ \<Rightarrow> Some (errorf ''detailed allocation/ownership pair is nil''))"

definition ValidateDetailedPair ::
  "DetailedAllocationRecord option \<Rightarrow> DetailedOwnershipRecord option \<Rightarrow> string \<Rightarrow> error option" where
  "ValidateDetailedPair allocation ownership expectedOwnerState =
     validateDetailedPair allocation ownership expectedOwnerState True"

definition ValidateDetailedIdentityPair ::
  "DetailedAllocationRecord option \<Rightarrow> DetailedOwnershipRecord option \<Rightarrow> string \<Rightarrow> error option" where
  "ValidateDetailedIdentityPair allocation ownership expectedOwnerState =
     validateDetailedPair allocation ownership expectedOwnerState False"

definition compact_pair_identity :: "CompactDeletedAllocationRecord \<Rightarrow> CompactDeletedOwnershipRecord \<Rightarrow> bool" where
  "compact_pair_identity allocation ownership \<longleftrightarrow>
         ca_SchemaVersion allocation = co_SchemaVersion ownership
         \<and> ca_DriverName allocation = co_DriverName ownership
         \<and> ca_InstallationID allocation = co_InstallationID ownership
         \<and> ca_ActiveClusterUID allocation = co_ActiveClusterUID ownership
         \<and> ca_CreateVolumeRequestName allocation = co_CreateVolumeRequestName ownership
         \<and> ca_LogicalVolumeID allocation = co_LogicalVolumeID ownership
         \<and> ca_VolumeHandleHash allocation = co_VolumeHandleHash ownership
         \<and> ca_MappingHash allocation = co_MappingHash ownership
         \<and> ca_ParentFilesystemID allocation = co_ParentFilesystemID ownership
         \<and> ca_DirectoryName allocation = co_DirectoryName ownership
         \<and> ca_State allocation = co_State ownership
         \<and> ca_DeleteResult allocation = co_DeleteResult ownership
         \<and> ca_DeletedAt allocation = co_DeletedAt ownership
         \<and> ca_DeleteOperation allocation = co_DeleteOperation ownership
         \<and> ca_ArchivedPath allocation = co_ArchivedPath ownership
         \<and> ca_RetainedPath allocation = co_RetainedPath ownership
         \<and> ca_QuarantinePath allocation = co_QuarantinePath ownership
         \<and> ca_DeleteOperationID allocation = co_DeleteOperationID ownership
         \<and> ca_DeleteCompletedAt allocation = co_DeleteCompletedAt ownership
         \<and> ca_GCOperationID allocation = co_GCOperationID ownership
         \<and> ca_GCTargetPath allocation = co_GCTargetPath ownership
         \<and> ca_GCQuarantinePath allocation = co_GCQuarantinePath ownership
         \<and> ca_GCCompletedAt allocation = co_GCCompletedAt ownership"

definition ValidateCompactPair ::
  "CompactDeletedAllocationRecord option \<Rightarrow> CompactDeletedOwnershipRecord option \<Rightarrow> error option" where
  "ValidateCompactPair allocationRecord ownershipRecord =
     (case (allocationRecord, ownershipRecord) of
        (Some allocation, Some ownership) \<Rightarrow> errs
          [wrap_err ''compact allocation'' (Compact_Validate allocation),
           wrap_err ''compact ownership'' (CompactOwnership_Validate ownership),
           ensure (compact_pair_identity allocation ownership)
             ''compact allocation and ownership tombstones differ'']
      | _ \<Rightarrow> Some (errorf ''compact allocation/ownership pair is nil''))"

definition compact_projection :: "DetailedAllocationRecord \<Rightarrow> CompactDeletedAllocationRecord" where
  "compact_projection r = \<lparr>ca_SchemaVersion = a_SchemaVersion r, ca_RecordKind = AllocationRecordCompactDeleted, 
     ca_RecordRevision = a_RecordRevision r, ca_DriverName = a_DriverName r, 
     ca_InstallationID = a_InstallationID r, ca_ActiveClusterUID = a_ActiveClusterUID r, 
     ca_CreateVolumeRequestName = a_CreateVolumeRequestName r, 
     ca_LogicalVolumeID = a_LogicalVolumeID r, ca_VolumeHandleHash = a_VolumeHandleHash r, 
     ca_MappingHash = a_MappingHash r, ca_State = StateDeleted, 
     ca_ParentFilesystemID = a_ParentFilesystemID r, ca_DirectoryName = a_DirectoryName r, 
     ca_ReservesCapacity = False, ca_DeleteResult = a_DeleteResult r, 
     ca_UpdatedAt = a_UpdatedAt r, ca_DeletedAt = a_DeletedAt r, 
     ca_DeleteOperationID = a_DeleteOperationID r, 
     ca_DeleteOperation = a_DeleteOperation r, ca_ArchivedPath = a_ArchivedPath r, 
     ca_RetainedPath = a_RetainedPath r, ca_QuarantinePath = a_QuarantinePath r, 
     ca_DeleteCompletedAt = a_DeleteCompletedAt r, ca_GCOperationID = a_GCOperationID r, 
     ca_GCTargetPath = a_GCTargetPath r, ca_GCQuarantinePath = a_GCQuarantinePath r, 
     ca_GCCompletedAt = a_GCCompletedAt r\<rparr>"

definition CompactDeletedProjection :: "DetailedAllocationRecord option \<Rightarrow> CompactDeletedAllocationRecord res" where
  "CompactDeletedProjection record =
     (case record of
        None \<Rightarrow> Inl (errorf ''detailed Deleted allocation is nil'')
      | Some r \<Rightarrow>
          require (errs
            [Detailed_Validate r,
             ensure (\<not> (a_State r \<noteq> StateDeleted \<or> a_ReservesCapacity r \<or> slice_len (a_PublishedNodeIDs r) \<noteq> 0))
               ''compact projection requires a non-reserving unfenced Deleted allocation'',
             wrap_err ''validate compact Deleted projection'' (Compact_Validate (compact_projection r))])
          (Inr (compact_projection r)))"

section \<open>Wire contexts against durable records\<close>

definition ValidateContextAgainstAllocation ::
  "string \<Rightarrow> ImmutableContext \<Rightarrow> DetailedAllocationRecord option \<Rightarrow> error option" where
  "ValidateContextAgainstAllocation encodedHandle ctx record =
     non_nil ''allocation record is nil'' record (\<lambda>allocation. errs
       [Detailed_Validate allocation,
        Context_Validate ctx,
        and_check (ParseHandle encodedHandle) (\<lambda>handle. errs
          [ensure_is (\<not> (encodedHandle \<noteq> a_VolumeHandle allocation
                        \<or> h_LogicalVolumeID handle \<noteq> a_LogicalVolumeID allocation
                        \<or> h_MappingHash handle \<noteq> a_MappingHash allocation))
             ErrContextMismatch ''volume handle disagrees with allocation record'',
           ensure_is
        (x_SchemaVersion ctx = a_SchemaVersion allocation
         \<and> x_InstallationID ctx = a_InstallationID allocation
         \<and> x_ActiveClusterUID ctx = a_ActiveClusterUID allocation
         \<and> x_PoolName ctx = a_PoolName allocation
         \<and> x_ParentFilesystemID ctx = a_ParentFilesystemID allocation
         \<and> x_BasePath ctx = a_BasePath allocation
         \<and> x_BasePathHash ctx = a_BasePathHash allocation
         \<and> x_DirectoryName ctx = a_DirectoryName allocation
         \<and> x_DirectoryMode ctx = a_DirectoryMode allocation
         \<and> x_DirectoryUID ctx = a_DirectoryUID allocation
         \<and> x_DirectoryGID ctx = a_DirectoryGID allocation
         \<and> x_DeletePolicy ctx = a_DeletePolicy allocation
         \<and> x_LogicalVolumeID ctx = a_LogicalVolumeID allocation)
             ErrContextMismatch ''immutable volume context disagrees with allocation record''])])"

definition ValidateContextAgainstOwnership ::
  "string \<Rightarrow> ImmutableContext \<Rightarrow> DetailedOwnershipRecord option \<Rightarrow> error option" where
  "ValidateContextAgainstOwnership encodedHandle ctx record =
     non_nil ''ownership record is nil'' record (\<lambda>ownership. errs
       [DetailedOwnership_Validate ownership,
        Context_Validate ctx,
        and_check (ParseHandle encodedHandle) (\<lambda>handle. errs
          [ensure_is (\<not> (encodedHandle \<noteq> o_VolumeHandle ownership
                        \<or> h_LogicalVolumeID handle \<noteq> o_LogicalVolumeID ownership
                        \<or> h_MappingHash handle \<noteq> o_MappingHash ownership))
             ErrContextMismatch ''volume handle disagrees with ownership record'',
           ensure_is
        (x_SchemaVersion ctx = o_SchemaVersion ownership
         \<and> x_InstallationID ctx = o_InstallationID ownership
         \<and> x_ActiveClusterUID ctx = o_ActiveClusterUID ownership
         \<and> x_PoolName ctx = o_PoolName ownership
         \<and> x_ParentFilesystemID ctx = o_ParentFilesystemID ownership
         \<and> x_BasePath ctx = o_BasePath ownership
         \<and> x_BasePathHash ctx = o_BasePathHash ownership
         \<and> x_DirectoryName ctx = o_DirectoryName ownership
         \<and> x_DirectoryMode ctx = o_DirectoryMode ownership
         \<and> x_DirectoryUID ctx = o_DirectoryUID ownership
         \<and> x_DirectoryGID ctx = o_DirectoryGID ownership
         \<and> x_DeletePolicy ctx = o_DeletePolicy ownership
         \<and> x_LogicalVolumeID ctx = o_LogicalVolumeID ownership)
             ErrContextMismatch ''immutable volume context disagrees with ownership record''])])"

section \<open>Recovery from ownership\<close>

definition reconstructed_allocation ::
  "DetailedOwnershipRecord \<Rightarrow> string \<Rightarrow> string \<Rightarrow> string \<Rightarrow> DetailedAllocationRecord" where
  "reconstructed_allocation ownership recoverySource recoveryOperationID recoveredAt =
     (ownership_envelope ownership)\<lparr>a_UpdatedAt := recoveredAt,
        a_RecoveryOperationID := recoveryOperationID, a_RecoverySource := recoverySource,
        a_RecoveredAt := recoveredAt,
        a_DeleteResult := (if o_State ownership = StateArchived then ''archived''
                           else if o_State ownership = StateRetained then ''retained'' else [])\<rparr>"

definition reconstructAllocationFromOwnership ::
  "DetailedOwnershipRecord option \<Rightarrow> string \<Rightarrow> string \<Rightarrow> string \<Rightarrow> DetailedAllocationRecord res" where
  "reconstructAllocationFromOwnership ownershipRecord recoverySource recoveryOperationID recoveredAt =
     (case ownershipRecord of
        None \<Rightarrow> Inl (errorf ''recovery record is nil'')
      | Some ownership \<Rightarrow>
          require (errs
            [DetailedOwnership_Validate ownership,
             wrap_err ''recovery operation'' (ValidateOperationID recoveryOperationID),
             validateRequiredTimestamp ''recoveredAt'' recoveredAt,
             ensure (\<not> (o_State ownership \<noteq> StateReady \<and> o_State ownership \<noteq> StateDeleting
                        \<and> o_State ownership \<noteq> StateArchived \<and> o_State ownership \<noteq> StateRetained))
               ''ownership state cannot reconstruct a detailed allocation'',
             wrap_err ''validate ownership-only reconstructed allocation''
               (Detailed_Validate (reconstructed_allocation ownership recoverySource recoveryOperationID recoveredAt))])
          (Inr (reconstructed_allocation ownership recoverySource recoveryOperationID recoveredAt)))"

definition ReconstructAllocationFromOwnership ::
  "DetailedOwnershipRecord option \<Rightarrow> string \<Rightarrow> string \<Rightarrow> DetailedAllocationRecord res" where
  "ReconstructAllocationFromOwnership ownership recoveryOperationID recoveredAt =
     reconstructAllocationFromOwnership ownership RecoverySourceOwnershipOnly recoveryOperationID recoveredAt"

definition ReconstructAllocationFromPVAndOwnership ::
  "DetailedOwnershipRecord option \<Rightarrow> string \<Rightarrow> ImmutableContext \<Rightarrow> string \<Rightarrow> string \<Rightarrow> DetailedAllocationRecord res" where
  "ReconstructAllocationFromPVAndOwnership ownership volumeHandle immutableContext recoveryOperationID recoveredAt =
     (if ownership = None then Inl (errorf ''PV-and-ownership recovery record is nil'')
      else require (wrap_err ''validate surviving PV against ownership''
               (ValidateContextAgainstOwnership volumeHandle immutableContext ownership))
             (reconstructAllocationFromOwnership ownership RecoverySourcePVAndOwnership recoveryOperationID recoveredAt))"

definition reconstructed_compact :: "CompactDeletedOwnershipRecord \<Rightarrow> CompactDeletedAllocationRecord" where
  "reconstructed_compact ownership = \<lparr>ca_SchemaVersion = co_SchemaVersion ownership, 
     ca_RecordKind = AllocationRecordCompactDeleted, 
     ca_RecordRevision = co_Revision ownership, ca_DriverName = co_DriverName ownership, 
     ca_InstallationID = co_InstallationID ownership, 
     ca_ActiveClusterUID = co_ActiveClusterUID ownership, 
     ca_CreateVolumeRequestName = co_CreateVolumeRequestName ownership, 
     ca_LogicalVolumeID = co_LogicalVolumeID ownership, 
     ca_VolumeHandleHash = co_VolumeHandleHash ownership, 
     ca_MappingHash = co_MappingHash ownership, ca_State = StateDeleted, 
     ca_ParentFilesystemID = co_ParentFilesystemID ownership, 
     ca_DirectoryName = co_DirectoryName ownership, ca_ReservesCapacity = False, 
     ca_DeleteResult = co_DeleteResult ownership, ca_UpdatedAt = co_UpdatedAt ownership, 
     ca_DeletedAt = co_DeletedAt ownership, 
     ca_DeleteOperationID = co_DeleteOperationID ownership, 
     ca_DeleteOperation = co_DeleteOperation ownership, 
     ca_ArchivedPath = co_ArchivedPath ownership, 
     ca_RetainedPath = co_RetainedPath ownership, 
     ca_QuarantinePath = co_QuarantinePath ownership, 
     ca_DeleteCompletedAt = co_DeleteCompletedAt ownership, 
     ca_GCOperationID = co_GCOperationID ownership, 
     ca_GCTargetPath = co_GCTargetPath ownership, 
     ca_GCQuarantinePath = co_GCQuarantinePath ownership, 
     ca_GCCompletedAt = co_GCCompletedAt ownership\<rparr>"

definition ReconstructCompactAllocationFromOwnership ::
  "CompactDeletedOwnershipRecord option \<Rightarrow> CompactDeletedAllocationRecord res" where
  "ReconstructCompactAllocationFromOwnership ownershipRecord =
     (case ownershipRecord of
        None \<Rightarrow> Inl (errorf ''compact ownership-only recovery record is nil'')
      | Some ownership \<Rightarrow>
          require (errs
            [CompactOwnership_Validate ownership,
             wrap_err ''validate compact ownership-only reconstructed allocation''
               (Compact_Validate (reconstructed_compact ownership)),
             ValidateCompactPair (Some (reconstructed_compact ownership)) (Some ownership)])
          (Inr (reconstructed_compact ownership)))"

section \<open>Recovery is total on authentic ownership\<close>

lemma lifecycle_audit_updates:
  "validateGCFields (r\<lparr>a_UpdatedAt := t\<rparr>) = validateGCFields r"
  "validateGCFields (r\<lparr>a_RecoveryOperationID := i\<rparr>) = validateGCFields r"
  "validateGCFields (r\<lparr>a_RecoverySource := s\<rparr>) = validateGCFields r"
  "validateGCFields (r\<lparr>a_RecoveredAt := u\<rparr>) = validateGCFields r"
  "validateGCFields (r\<lparr>a_DeleteResult := d\<rparr>) = validateGCFields r"
  "validatePreparedDelete (r\<lparr>a_UpdatedAt := t\<rparr>) = validatePreparedDelete r"
  "validatePreparedDelete (r\<lparr>a_RecoveryOperationID := i\<rparr>) = validatePreparedDelete r"
  "validatePreparedDelete (r\<lparr>a_RecoverySource := s\<rparr>) = validatePreparedDelete r"
  "validatePreparedDelete (r\<lparr>a_RecoveredAt := u\<rparr>) = validatePreparedDelete r"
  "validatePreparedDelete (r\<lparr>a_DeleteResult := d\<rparr>) = validatePreparedDelete r"
  by (simp_all add: validateGCFields_def validatePreparedDelete_def cong: if_cong)

lemma state_fields_audit_updates:
  assumes "d = [] \<longleftrightarrow> d' = []"
  shows "validateStateFields (r\<lparr>a_UpdatedAt := t, a_RecoveryOperationID := i, a_RecoverySource := s, a_RecoveredAt := u,
      a_DeleteResult := d'\<rparr>) = validateStateFields (r\<lparr>a_DeleteResult := d\<rparr>)"
  using assms by (simp add: validateStateFields_def hasDeleteFields_def lifecycle_audit_updates)

lemma detailed_valid_recovered:
  assumes "Detailed_Validate (r\<lparr>a_DeleteResult := d\<rparr>) = None" and "d = [] \<longleftrightarrow> d' = []"
    and "ValidateOperationID i = None" and "validateRequiredTimestamp ''recoveredAt'' u = None"
    and "s = RecoverySourceOwnershipOnly \<or> s = RecoverySourcePVAndOwnership"
  shows "Detailed_Validate (r\<lparr>a_UpdatedAt := u, a_RecoveryOperationID := i, a_RecoverySource := s,
      a_RecoveredAt := u, a_DeleteResult := d'\<rparr>) = None"
proof -
  have u: "u \<noteq> []" "validateRequiredTimestamp n u = None" for n
    using assms(4) by (simp_all add: validateRequiredTimestamp_def)
  have i: "i \<noteq> []"
    using assms(3) uuid_length [of i] by (auto simp: ValidateOperationID_def)
  have s: "s \<noteq> []"
    using assms(5) by (auto simp: RecoverySourceOwnershipOnly_def RecoverySourcePVAndOwnership_def)
  show ?thesis
    using assms(1,3,5) u i s state_fields_audit_updates [OF assms(2), where r = r and t = u and i = i and s = s and u = u]
    by (simp add: detailed_valid_iff validateLifecycle_def Let_def lifecycle_audit_updates
        validateOptionalTimestampFields_def present_count_def)
qed

lemma ownership_valid_envelope:
  assumes "DetailedOwnership_Validate r = None"
  shows "o_State r \<in> ownership_states"
    and "Detailed_Validate ((ownership_envelope r)\<lparr>a_DeleteResult :=
          (if o_State r = StateArchived \<or> o_State r = StateRetained then ''validated-by-ownership-state'' else [])\<rparr>) = None"
  using assms by (simp_all add: ownership_valid_iff detailed_payload_iff)

lemma reconstructed_valid:
  assumes "DetailedOwnership_Validate r = None" and "ValidateOperationID i = None"
    and "validateRequiredTimestamp ''recoveredAt'' u = None"
    and "s = RecoverySourceOwnershipOnly \<or> s = RecoverySourcePVAndOwnership"
  shows "Detailed_Validate (reconstructed_allocation r s i u) = None"
  unfolding reconstructed_allocation_def
  by (rule detailed_valid_recovered [OF ownership_valid_envelope(2) [OF assms(1)] _ assms(2-4)]) simp

lemma reconstruct_total:
  assumes "DetailedOwnership_Validate r = None" and "ValidateOperationID i = None"
    and "validateRequiredTimestamp ''recoveredAt'' u = None"
    and "s = RecoverySourceOwnershipOnly \<or> s = RecoverySourcePVAndOwnership"
  shows "reconstructAllocationFromOwnership (Some r) s i u = Inr (reconstructed_allocation r s i u)"
  using assms reconstructed_valid [OF assms] ownership_valid_envelope(1) [OF assms(1)]
  by (auto simp: reconstructAllocationFromOwnership_def ownership_states_def)

lemma pair_iff:
  "validateDetailedPair (Some a) (Some r) st cmp = None \<longleftrightarrow>
     Detailed_Validate a = None \<and> DetailedOwnership_Validate r = None \<and> o_State r = st
     \<and> detailed_pair_identity a r \<and> (cmp \<longrightarrow> slices_equal (a_PublishedNodeIDs a) (o_PublishedNodeIDs r))"
  by (auto simp: validateDetailedPair_def)

text \<open>
  (C21) A lost allocation can always be rebuilt. For every authentic detailed ownership record, a
  valid operation identifier and a canonical timestamp, reconstruction succeeds; the result is a
  valid allocation in the ownership's state that pairs with that ownership record, published-node
  fences included, and carries the recovery audit.
\<close>

theorem reconstruct_pairs:
  assumes "DetailedOwnership_Validate r = None" and "ValidateOperationID i = None"
    and "validateRequiredTimestamp ''recoveredAt'' u = None"
  shows "\<exists>a. ReconstructAllocationFromOwnership (Some r) i u = Inr a
     \<and> ValidateDetailedPair (Some a) (Some r) (o_State r) = None
     \<and> a_State a = o_State r \<and> a_RecoverySource a = RecoverySourceOwnershipOnly
     \<and> a_RecoveryOperationID a = i \<and> a_RecoveredAt a = u"
proof -
  let ?a = "reconstructed_allocation r RecoverySourceOwnershipOnly i u"
  have "detailed_pair_identity ?a r"
    by (simp add: detailed_pair_identity_def reconstructed_allocation_def ownership_envelope_def equal_create_parameters)
  moreover have "slices_equal (a_PublishedNodeIDs ?a) (o_PublishedNodeIDs r)"
    by (simp add: slices_equal_def reconstructed_allocation_def ownership_envelope_def)
  ultimately have "ValidateDetailedPair (Some ?a) (Some r) (o_State r) = None"
    using reconstructed_valid [OF assms] assms(1) by (simp add: ValidateDetailedPair_def pair_iff)
  moreover have "a_State ?a = o_State r \<and> a_RecoverySource ?a = RecoverySourceOwnershipOnly
      \<and> a_RecoveryOperationID ?a = i \<and> a_RecoveredAt ?a = u"
    by (simp add: reconstructed_allocation_def)
  ultimately show ?thesis
    using reconstruct_total [OF assms] by (auto simp: ReconstructAllocationFromOwnership_def)
qed

theorem reconstruct_pairs_witness:
  "\<exists>a. ReconstructAllocationFromOwnership (Some (sample_ownership sample_allocation)) sample_uuid2 sample_time = Inr a
     \<and> a_RecoveryOperationID a = sample_uuid2"
  using reconstruct_pairs [OF sample_ready_ownership_ok, of sample_uuid2 sample_time]
    sample_uuid2_ok sample_timestamp_ok by (auto simp: ValidateOperationID_def)

lemma compact_pair_iff:
  "ValidateCompactPair (Some a) (Some r) = None \<longleftrightarrow>
     Compact_Validate a = None \<and> CompactOwnership_Validate r = None \<and> compact_pair_identity a r"
  by (simp add: ValidateCompactPair_def)

lemma reconstructed_compact_valid:
  assumes "CompactOwnership_Validate r = None"
  shows "Compact_Validate (reconstructed_compact r) = None"
  using assms
  by (simp add: compact_ownership_valid_iff Compact_validatePayload_def Compact_Validate_def
      reconstructed_compact_def)

text \<open>
  A lost tombstone can always be rebuilt. For every authentic compact ownership record the
  reconstruction succeeds, and the result pairs with it and reserves nothing.
\<close>

theorem reconstruct_compact_pairs:
  assumes "CompactOwnership_Validate r = None"
  shows "\<exists>c. ReconstructCompactAllocationFromOwnership (Some r) = Inr c
     \<and> ValidateCompactPair (Some c) (Some r) = None \<and> \<not> ca_ReservesCapacity c"
proof -
  have "compact_pair_identity (reconstructed_compact r) r"
    using valid_compact_ownership_state [OF assms]
    by (simp add: compact_pair_identity_def reconstructed_compact_def)
  then show ?thesis
    using assms reconstructed_compact_valid [OF assms]
    by (simp add: ReconstructCompactAllocationFromOwnership_def compact_pair_iff)
      (simp add: reconstructed_compact_def)
qed

section \<open>Compaction and its projection\<close>

lemma identity_parts:
  assumes "identity_check r"
  shows "Mapping_Validate (allocation_mapping r) = None" and "ValidateParentFilesystemID (a_ParentFilesystemID r) = None"
    and "ValidateDirectoryName (a_DirectoryName r) = None" and "ValidateBasePath (a_BasePath r) = None"
    and "ValidatePoolName (a_PoolName r) = None" and "ValidateLogicalVolumeID (a_LogicalVolumeID r) = None"
proof -
  show m: "Mapping_Validate (allocation_mapping r) = None"
    using assms mapping_hash_mapping [of "allocation_mapping r" "a_MappingHash r"] by (simp add: identity_check_def)
  show "ValidateParentFilesystemID (a_ParentFilesystemID r) = None"
    "ValidateDirectoryName (a_DirectoryName r) = None" "ValidateBasePath (a_BasePath r) = None"
    "ValidatePoolName (a_PoolName r) = None" "ValidateLogicalVolumeID (a_LogicalVolumeID r) = None"
    using m by (simp_all add: Mapping_Validate_def allocation_mapping_def)
qed

lemma compact_projection_valid:
  assumes v: "Detailed_Validate r = None" and d: "a_State r = StateDeleted"
  shows "Compact_Validate (compact_projection r) = None \<longleftrightarrow>
     validateCompactAudit (a_DeleteOperationID r) (a_DeleteOperation r) (a_DeleteCompletedAt r)
       (a_GCOperationID r) (a_GCCompletedAt r) = None"
proof -
  note idc = detailed_valid_lifecycle(1) [OF v]
  have "validateRequiredTimestamp ''deletedAt'' (a_DeletedAt r) = None" and "a_DeleteResult r \<noteq> []"
    using detailed_valid_lifecycle(2,3) [OF v] d
    by (simp_all add: validateLifecycle_def Let_def validateOptionalTimestampFields_def validateStateFields_def)
  moreover have "a_CreateVolumeRequestName r \<noteq> []"
    using idc logical_volume_id_name by (auto simp: identity_check_def)
  ultimately show ?thesis
    using v idc identity_parts [OF idc]
    by (simp add: Compact_Validate_def compact_projection_def detailed_valid_iff identity_check_def)
qed

lemma compaction_projects:
  assumes "Compact_Validate c = None" and "validateCompactionEquality r c = None"
  shows "compact_projection r = c\<lparr>ca_RecordRevision := a_RecordRevision r, ca_UpdatedAt := a_UpdatedAt r\<rparr>"
  using assms by (simp add: Compact_Validate_def validateCompactionEquality_def compact_projection_def)

lemma compact_valid_update:
  "Compact_Validate c = None \<Longrightarrow> n \<noteq> 0 \<Longrightarrow> validateRequiredTimestamp ''updatedAt'' u = None \<Longrightarrow>
   Compact_Validate (c\<lparr>ca_RecordRevision := n, ca_UpdatedAt := u\<rparr>) = None"
  by (simp add: Compact_Validate_def)

text \<open>
  (C33) The in-memory projection of a detailed \<^verbatim>\<open>Deleted\<close> record stands for the tombstone that
  compaction will write. Whenever the compaction of an unfenced record is an accepted update,
  \<^verbatim>\<open>CompactDeletedProjection\<close> succeeds, differs from the tombstone in revision and update time
  only, and pairs with exactly the ownership records the tombstone pairs with.
\<close>

theorem projection_matches_compaction:
  assumes "ValidateAllocationUpdate (Some (DetailedA r)) (Some (CompactA c)) = None"
    and "a_PublishedNodeIDs r = Some []"
  shows "\<exists>p. CompactDeletedProjection (Some r) = Inr p
     \<and> p = c\<lparr>ca_RecordRevision := a_RecordRevision r, ca_UpdatedAt := a_UpdatedAt r\<rparr>
     \<and> (\<forall>own. ValidateCompactPair (Some p) (Some own) = None \<longleftrightarrow> ValidateCompactPair (Some c) (Some own) = None)"
proof -
  let ?p = "c\<lparr>ca_RecordRevision := a_RecordRevision r, ca_UpdatedAt := a_UpdatedAt r\<rparr>"
  from assms(1) have v: "Detailed_Validate r = None" and c: "Compact_Validate c = None"
    and d: "a_State r = StateDeleted" and eq: "validateCompactionEquality r c = None"
    by (simp_all add: ValidateAllocationUpdate_def)
  have p: "compact_projection r = ?p" by (rule compaction_projects [OF c eq])
  have pv: "Compact_Validate ?p = None"
    using compact_valid_update [OF c] v by (simp add: detailed_valid_iff)
  have "CompactDeletedProjection (Some r) = Inr ?p"
    using v d valid_reserves [OF v] pv assms(2)
    by (simp add: CompactDeletedProjection_def p slice_len_def)
  moreover have "ValidateCompactPair (Some ?p) (Some own) = None \<longleftrightarrow> ValidateCompactPair (Some c) (Some own) = None" for own
    using c pv by (simp add: compact_pair_iff compact_pair_identity_def)
  ultimately show ?thesis by blast
qed

text \<open>The tombstones of the collected sample volume.\<close>

definition sample_tombstone :: CompactDeletedAllocationRecord where
  "sample_tombstone = (compact_projection sample_deleted)\<lparr>ca_RecordRevision := 7\<rparr>"

lemma sample_projection_ok: "Compact_Validate (compact_projection sample_deleted) = None"
proof -
  have "a_State sample_deleted = StateDeleted" by (simp add: sample_deleted_def)
  moreover have "validateCompactAudit (a_DeleteOperationID sample_deleted) (a_DeleteOperation sample_deleted)
      (a_DeleteCompletedAt sample_deleted) (a_GCOperationID sample_deleted) (a_GCCompletedAt sample_deleted) = None"
    using sample_uuid_ok sample_uuid2_ok sample_timestamp_ok
    by (simp add: sample_deleted_def sample_archived_def sample_deleting_def validateCompactAudit_def
        validateOptionalTimestampFields_def sample_nonempty ValidateOperationID_def)
  ultimately show ?thesis using compact_projection_valid [OF sample_deleted_ok] by blast
qed

lemma sample_tombstone_ok: "Compact_Validate sample_tombstone = None"
  using sample_projection_ok by (simp add: sample_tombstone_def Compact_Validate_def)

lemma sample_compaction_update:
  "ValidateAllocationUpdate (Some (DetailedA sample_deleted)) (Some (CompactA sample_tombstone)) = None"
  using sample_deleted_ok sample_tombstone_ok
  by (simp add: ValidateAllocationUpdate_def sample_tombstone_def compact_projection_def validateCompactionEquality_def)
    (simp add: sample_deleted_def)

theorem projection_matches_compaction_witness:
  "CompactDeletedProjection (Some sample_deleted)
   = Inr (sample_tombstone\<lparr>ca_RecordRevision := a_RecordRevision sample_deleted,
       ca_UpdatedAt := a_UpdatedAt sample_deleted\<rparr>)"
  using projection_matches_compaction [OF sample_compaction_update]
  by (simp add: sample_deleted_def sample_archived_def sample_deleting_def sample_allocation_def)

definition tombstone_payload :: "CompactDeletedAllocationRecord \<Rightarrow> CompactDeletedOwnershipRecord" where
  "tombstone_payload c = \<lparr>co_SchemaVersion = ca_SchemaVersion c, co_RecordKind = OwnershipRecordCompactDeleted, 
     co_Revision = ca_RecordRevision c, co_DriverName = ca_DriverName c, 
     co_InstallationID = ca_InstallationID c, co_ActiveClusterUID = ca_ActiveClusterUID c, 
     co_VolumeHandleHash = ca_VolumeHandleHash c, 
     co_LogicalVolumeID = ca_LogicalVolumeID c, 
     co_CreateVolumeRequestName = ca_CreateVolumeRequestName c, 
     co_MappingHash = ca_MappingHash c, co_ParentFilesystemID = ca_ParentFilesystemID c, 
     co_BasePathHash = truncatedBytesHash ''bp-'' sample_base, 
     co_DirectoryName = ca_DirectoryName c, co_State = ca_State c, 
     co_DeleteResult = ca_DeleteResult c, co_UpdatedAt = ca_UpdatedAt c, 
     co_DeletedAt = ca_DeletedAt c, co_ContentChecksum = [], 
     co_DeleteOperation = ca_DeleteOperation c, co_ArchivedPath = ca_ArchivedPath c, 
     co_RetainedPath = ca_RetainedPath c, co_QuarantinePath = ca_QuarantinePath c, 
     co_DeleteOperationID = ca_DeleteOperationID c, 
     co_DeleteCompletedAt = ca_DeleteCompletedAt c, co_GCOperationID = ca_GCOperationID c, 
     co_GCTargetPath = ca_GCTargetPath c, co_GCQuarantinePath = ca_GCQuarantinePath c, 
     co_GCCompletedAt = ca_GCCompletedAt c\<rparr>"

definition sample_tombstone_ownership :: CompactDeletedOwnershipRecord where
  "sample_tombstone_ownership = (tombstone_payload sample_tombstone)\<lparr>co_ContentChecksum :=
     contentChecksum (compact_ownership_json (tombstone_payload sample_tombstone))\<rparr>"

lemma sample_tombstone_ownership_ok: "CompactOwnership_Validate sample_tombstone_ownership = None"
proof -
  have "Compact_validatePayload (tombstone_payload sample_tombstone) = None"
    using sample_tombstone_ok
    by (simp add: Compact_validatePayload_def tombstone_payload_def Compact_Validate_def validateBasePathHash_def)
  then show ?thesis
    by (simp add: compact_ownership_valid_iff sample_tombstone_ownership_def compact.checksum_put compact.payload_put)
qed

theorem reconstruct_compact_pairs_witness:
  "\<exists>c. ReconstructCompactAllocationFromOwnership (Some sample_tombstone_ownership) = Inr c
     \<and> ValidateCompactPair (Some c) (Some sample_tombstone_ownership) = None"
  using reconstruct_compact_pairs [OF sample_tombstone_ownership_ok] by blast

section \<open>Contexts name exactly one volume\<close>

definition allocation_context :: "DetailedAllocationRecord \<Rightarrow> ImmutableContext" where
  "allocation_context a = \<lparr>x_SchemaVersion = a_SchemaVersion a, x_InstallationID = a_InstallationID a,
     x_ActiveClusterUID = a_ActiveClusterUID a, x_PoolName = a_PoolName a,
     x_ParentFilesystemID = a_ParentFilesystemID a, x_BasePath = a_BasePath a, x_BasePathHash = a_BasePathHash a,
     x_DirectoryName = a_DirectoryName a, x_DirectoryMode = a_DirectoryMode a, x_DirectoryUID = a_DirectoryUID a,
     x_DirectoryGID = a_DirectoryGID a, x_DeletePolicy = a_DeletePolicy a, x_LogicalVolumeID = a_LogicalVolumeID a\<rparr>"

lemma allocation_context_valid:
  assumes "Detailed_Validate a = None"
  shows "Context_Validate (allocation_context a) = None"
proof -
  note idc = detailed_valid_lifecycle(1) [OF assms]
  then have "Normalize (a_NormalizedCreateParameters a) = Inr (a_NormalizedCreateParameters a)"
    by (simp add: identity_check_def)
  then have "ValidateDirectoryMode (cp_DirectoryMode (a_NormalizedCreateParameters a)) = None
      \<and> DeletePolicy_Validate (cp_DeletePolicy (a_NormalizedCreateParameters a)) = None
      \<and> cp_DirectoryUID (a_NormalizedCreateParameters a) \<le> 2147483647
      \<and> cp_DirectoryGID (a_NormalizedCreateParameters a) \<le> 2147483647"
    by (simp add: Normalize_def) 
  then show ?thesis
    using idc identity_parts [OF idc]
    by (simp add: Context_Validate_def allocation_context_def identity_check_def validateCommonRecordIdentity_def)
qed

lemma context_fields_iff:
  "(x_SchemaVersion c = a_SchemaVersion a \<and> x_InstallationID c = a_InstallationID a
    \<and> x_ActiveClusterUID c = a_ActiveClusterUID a \<and> x_PoolName c = a_PoolName a
    \<and> x_ParentFilesystemID c = a_ParentFilesystemID a \<and> x_BasePath c = a_BasePath a
    \<and> x_BasePathHash c = a_BasePathHash a \<and> x_DirectoryName c = a_DirectoryName a
    \<and> x_DirectoryMode c = a_DirectoryMode a \<and> x_DirectoryUID c = a_DirectoryUID a
    \<and> x_DirectoryGID c = a_DirectoryGID a \<and> x_DeletePolicy c = a_DeletePolicy a
    \<and> x_LogicalVolumeID c = a_LogicalVolumeID a) \<longleftrightarrow> c = allocation_context a"
  by (auto simp: allocation_context_def intro!: ImmutableContext.equality)

lemma context_match_iff:
  "ValidateContextAgainstAllocation h c (Some a) = None \<longleftrightarrow>
     Detailed_Validate a = None \<and> h = a_VolumeHandle a \<and> c = allocation_context a"
proof -
  have "Detailed_Validate a = None \<Longrightarrow> ParseHandle (a_VolumeHandle a)
      = Inr \<lparr>h_LogicalVolumeID = a_LogicalVolumeID a, h_MappingHash = a_MappingHash a\<rparr>"
    using identity_handle detailed_valid_lifecycle(1) by blast
  then show ?thesis
    using allocation_context_valid [of a]
    by (auto simp: ValidateContextAgainstAllocation_def context_fields_iff)
qed

text \<open>
  A handle and a context name exactly one allocation. The controller accepts them for a record
  exactly when the record is valid, the handle is the record's handle and the context is the
  record's projection, field by field; a well-formed handle and context that do not match a valid
  record are refused with \<^verbatim>\<open>ErrContextMismatch\<close>.
\<close>

theorem context_names_allocation:
  "(ValidateContextAgainstAllocation h c (Some a) = None \<longleftrightarrow>
      Detailed_Validate a = None \<and> h = a_VolumeHandle a \<and> c = allocation_context a)
   \<and> (\<forall>e parsed. ValidateContextAgainstAllocation h c (Some a) = Some e \<longrightarrow> Detailed_Validate a = None \<longrightarrow>
        Context_Validate c = None \<longrightarrow> ParseHandle h = Inr parsed \<longrightarrow> errors_is e ErrContextMismatch)"
proof (intro conjI allI impI)
  fix e parsed
  assume "ValidateContextAgainstAllocation h c (Some a) = Some e" "Detailed_Validate a = None"
    "Context_Validate c = None" "ParseHandle h = Inr parsed"
  then show "errors_is e ErrContextMismatch"
    by (auto simp: ValidateContextAgainstAllocation_def ensure_is_def errors_is_def split: if_splits)
qed (rule context_match_iff)

theorem context_names_allocation_witness:
  "ValidateContextAgainstAllocation sample_handle (allocation_context sample_allocation) (Some sample_allocation) = None"
  using context_names_allocation [of sample_handle "allocation_context sample_allocation" sample_allocation]
    sample_allocation_ok by (simp add: sample_allocation_def)

text \<open>
  (C32) Controller and node agree on contexts. For an allocation and an ownership record that form a
  valid pair, a handle and context are accepted against the Kubernetes record exactly when they
  are accepted against the filesystem record.
\<close>

theorem controller_node_agree:
  assumes "validateDetailedPair (Some a) (Some r) st cmp = None"
  shows "ValidateContextAgainstAllocation h c (Some a) = None \<longleftrightarrow> ValidateContextAgainstOwnership h c (Some r) = None"
  using assms unfolding pair_iff detailed_pair_identity_def
  by (simp add: ValidateContextAgainstAllocation_def ValidateContextAgainstOwnership_def)

lemma sample_pair: "validateDetailedPair (Some sample_allocation) (Some (sample_ownership sample_allocation)) StateReady True = None"
  using sample_allocation_ok sample_ready_ownership_ok
  by (simp add: pair_iff)
    (simp add: detailed_pair_identity_def sample_ownership_def ownership_payload_def equal_create_parameters
      slices_equal_def, simp add: sample_allocation_def)

theorem controller_node_agree_witness:
  "ValidateContextAgainstOwnership sample_handle (allocation_context sample_allocation)
     (Some (sample_ownership sample_allocation)) = None"
  using controller_node_agree [OF sample_pair, of sample_handle "allocation_context sample_allocation"]
    context_match_iff [of sample_handle "allocation_context sample_allocation" sample_allocation] sample_allocation_ok
  by (simp add: sample_allocation_def)

end
