(* ===== verification/Accounting.thy ===== *)
theory Accounting
  imports Identifiers
begin

text \<open>
  \<^verbatim>\<open>pkg/pool/accounting.go\<close>: exact logical capacity and physical space accounting on 64-bit
  counters. Words keep their width; the theorems read them with \<open>unat\<close> and \<open>sint\<close> and state
  the results over the natural numbers. A \<^verbatim>\<open>time.Time\<close> is an \<open>instant\<close>, the number of nanoseconds
  since Go's zero time. The error of \<^verbatim>\<open>CheckPhysicalSpace\<close> below the threshold comes with a space
  value in the source, which its callers do not read; here it is the error alone.
\<close>

type_synonym i64 = "64 word"
type_synonym instant = int

section \<open>Standard library\<close>

text \<open>\<^verbatim>\<open>unicode.IsSpace\<close> and \<^verbatim>\<open>strings.TrimSpace\<close>.\<close>

definition is_space_rune :: "nat \<Rightarrow> bool" where
  "is_space_rune r \<longleftrightarrow> (0x09 \<le> r \<and> r \<le> 0x0D) \<or> r \<in> {0x20, 0x85, 0xA0, 0x1680, 0x2028, 0x2029, 0x202F, 0x205F, 0x3000}
     \<or> (0x2000 \<le> r \<and> r \<le> 0x200A)"

definition trim_space :: "string \<Rightarrow> string" where
  "trim_space s = concat (map snd
     (rev (dropWhile (\<lambda>seg. is_space_rune (fst seg)) (rev (dropWhile (\<lambda>seg. is_space_rune (fst seg)) (scan s))))))"

text \<open>\<^verbatim>\<open>bits.Mul64\<close> and \<^verbatim>\<open>bits.Div64\<close>; the latter panics unless the high word is below the divisor.\<close>

definition Mul64 :: "u64 \<Rightarrow> u64 \<Rightarrow> u64 \<times> u64" where
  "Mul64 x y = (of_nat (unat x * unat y div 2 ^ 64), x * y)"

definition Div64 :: "u64 \<Rightarrow> u64 \<Rightarrow> u64 \<Rightarrow> (u64 \<times> u64) option" where
  "Div64 high low y =
     (if y = 0 \<or> y \<le> high then None
      else Some (of_nat ((unat high * 2 ^ 64 + unat low) div unat y),
                 of_nat ((unat high * 2 ^ 64 + unat low) mod unat y)))"

definition MaxUint64 :: u64 where "MaxUint64 = - 1"

section \<open>Ratios\<close>

record Ratio =
  r_numerator :: u64
  r_denominator :: u64

function greatestCommonDivisor :: "u64 \<Rightarrow> u64 \<Rightarrow> u64" where
  "greatestCommonDivisor left right =
     (if right = 0 then left else greatestCommonDivisor right (left mod right))"
  by pat_completeness auto

termination
  by (relation "measure (\<lambda>(left, right). unat right)")
    (auto simp: unat_mod unat_gt_0)

declare greatestCommonDivisor.simps [simp del]

text \<open>The loop that computes the denominator, one multiplication per fraction digit.\<close>

fun denominator_loop :: "nat \<Rightarrow> u64 \<Rightarrow> u64 res" where
  "denominator_loop 0 d = Inr d"
| "denominator_loop (Suc n) d =
     (if d > MaxUint64 div 10 then Inl (Errorf ''ratio denominator'' [ErrArithmeticOverflow])
      else denominator_loop n (d * 10))"

definition ParseRatio :: "string \<Rightarrow> Ratio res" where
  "ParseRatio value =
     (let parts = split_on CHR ''.'' value;
          whole = hd parts;
          fraction = (if length parts = 2 then parts ! 1 else [])
      in require (errs
        [ensure (value \<noteq> [] \<and> trim_space value = value) ''ratio must be a non-empty canonical decimal'',
         ensure (\<not> (length parts > 2 \<or> whole = [])) ''ratio is not a decimal'',
         ensure (\<not> (length whole > 1 \<and> hd whole = CHR ''0'')) ''ratio has a non-canonical leading zero'',
         ensure (\<not> (length parts = 2 \<and> fraction = [])) ''ratio has an empty fractional part'',
         ensure (length whole + length fraction \<le> 18) ''ratio exceeds 18 decimal digits'',
         ensure (list_all is_digit (whole @ fraction)) ''ratio contains a non-decimal character'',
         ensure (trim_left ''0'' (whole @ fraction) \<noteq> []) ''ratio must be greater than zero''])
      (case parse_uint 64 (trim_left ''0'' (whole @ fraction)) of
         None \<Rightarrow> Inl (errorf ''parse ratio numerator'')
       | Some n \<Rightarrow>
           and_then (denominator_loop (length fraction) 1) (\<lambda>denominator.
             (let numerator = of_nat n;
                  divisor = greatestCommonDivisor numerator denominator
              in Inr \<lparr>r_numerator = numerator div divisor, r_denominator = denominator div divisor\<rparr>))))"

definition Ratio_Validate :: "Ratio \<Rightarrow> error option" where
  "Ratio_Validate ratio =
     ensure (\<not> (r_numerator ratio = 0 \<or> r_denominator ratio = 0)) ''ratio must be greater than zero''"

definition Ratio_String :: "Ratio \<Rightarrow> string" where
  "Ratio_String ratio =
     (if r_denominator ratio = 0 then ''invalid''
      else if r_denominator ratio = 1 then format_uint (unat (r_numerator ratio))
      else format_uint (unat (r_numerator ratio)) @ ''/'' @ format_uint (unat (r_denominator ratio)))"

section \<open>Logical capacity\<close>

definition ceilPercent :: "u64 \<Rightarrow> u32 \<Rightarrow> u64 res" where
  "ceilPercent value percent =
     (if percent > 100 then Inl (errorf ''percent is outside [0,100]'')
      else
        (let whole = value div 100;
             remainder = value mod 100;
             first = whole * ucast percent;
             partial = remainder * ucast percent;
             second = (if partial mod 100 \<noteq> 0 then partial div 100 + 1 else partial div 100)
         in if first > MaxUint64 - second then Inl (Errorf ''percentage reserve'' [ErrArithmeticOverflow])
            else Inr (first + second)))"

definition floorMultiplyRatio :: "u64 \<Rightarrow> Ratio \<Rightarrow> u64 res" where
  "floorMultiplyRatio value ratio =
     (let (high, low) = Mul64 value (r_numerator ratio)
      in if high \<ge> r_denominator ratio then Inl (Errorf ''logical capacity'' [ErrArithmeticOverflow])
         else (case Div64 high low (r_denominator ratio) of
                 None \<Rightarrow> Inl (Errorf ''runtime panic'' [OtherSentinel ''panic''])
               | Some (quot, _) \<Rightarrow> Inr quot))"

record Capacity =
  k_ObservedSizeBytes :: u64
  k_ReserveBytes :: u64
  k_UsableBytes :: u64
  k_LogicalCapacityBytes :: u64
  k_LogicalAllocatedBytes :: u64
  k_LogicalAvailableBytes :: u64

fun allocation_sum :: "u64 \<Rightarrow> u64 list \<Rightarrow> u64 res" where
  "allocation_sum allocated [] = Inr allocated"
| "allocation_sum allocated (a # rest) =
     (if a > MaxUint64 - allocated then Inl (Errorf ''sum logical allocations'' [ErrArithmeticOverflow])
      else allocation_sum (allocated + a) rest)"

definition CalculateCapacity :: "u64 \<Rightarrow> u64 \<Rightarrow> u32 \<Rightarrow> Ratio \<Rightarrow> u64 list \<Rightarrow> Capacity res" where
  "CalculateCapacity observedSize minFreeBytes minFreePercent ratio allocations =
     require (errs
       [ensure (observedSize \<noteq> 0) ''observed parent size must be greater than zero'',
        ensure (minFreePercent \<le> 100) ''minimum free percent is outside [0,100]'',
        Ratio_Validate ratio])
     (and_then (ceilPercent observedSize minFreePercent) (\<lambda>percentageReserve.
        (let reserve = max minFreeBytes percentageReserve;
             usable = (if observedSize > reserve then observedSize - reserve else 0)
         in and_then (floorMultiplyRatio usable ratio) (\<lambda>logicalCapacity.
              and_then (allocation_sum 0 allocations) (\<lambda>allocated.
                (let available = (if logicalCapacity > allocated then logicalCapacity - allocated else 0)
                 in Inr \<lparr>k_ObservedSizeBytes = observedSize, k_ReserveBytes = reserve, k_UsableBytes = usable,
                          k_LogicalCapacityBytes = logicalCapacity, k_LogicalAllocatedBytes = allocated,
                          k_LogicalAvailableBytes = available\<rparr>))))))"

section \<open>Physical space\<close>

record StatFSSample =
  f_BlockSizeBytes :: i64
  f_AvailableBlocks :: i64
  f_ObservedAt :: instant

record PhysicalSpace =
  s_ActualAvailableBytes :: u64
  s_PhysicalSafetyThresholdBytes :: u64
  s_PostRequestAvailableBytes :: u64
  s_ObservedAt :: instant

definition MeasurePhysicalSpace :: "StatFSSample \<Rightarrow> u64 \<Rightarrow> u64 \<Rightarrow> u32 \<Rightarrow> PhysicalSpace res" where
  "MeasurePhysicalSpace sample observedSize minFreeBytes minFreePercent =
     (let blockSize = f_BlockSizeBytes sample;
          availableBlocks = f_AvailableBlocks sample;
          available = availableBlocks * blockSize
      in require (errs
        [ensure_is (\<not> sint (f_BlockSizeBytes sample) \<le> 0) ErrInvalidStatFS ''block size must be positive'',
         ensure_is (\<not> sint (f_AvailableBlocks sample) < 0) ErrInvalidStatFS ''available block count is negative'',
         ensure_is (observedSize \<noteq> 0) ErrInvalidStatFS ''observed parent size is zero'',
         ensure (minFreePercent \<le> 100) ''minimum free percent is outside [0,100]'',
         (if availableBlocks \<noteq> 0 \<and> blockSize > MaxUint64 div availableBlocks
          then Some (Errorf ''available byte multiplication'' [ErrInvalidStatFS, ErrArithmeticOverflow]) else None),
         ensure_is (available \<le> observedSize) ErrInvalidStatFS ''available bytes exceed observed size''])
      (and_then (ceilPercent observedSize minFreePercent) (\<lambda>percentageThreshold.
         Inr \<lparr>s_ActualAvailableBytes = available,
               s_PhysicalSafetyThresholdBytes = max minFreeBytes percentageThreshold,
               s_PostRequestAvailableBytes = available,
               s_ObservedAt = f_ObservedAt sample\<rparr>)))"

definition CheckPhysicalSpace :: "StatFSSample \<Rightarrow> u64 \<Rightarrow> u64 \<Rightarrow> u64 \<Rightarrow> u32 \<Rightarrow> PhysicalSpace res" where
  "CheckPhysicalSpace sample observedSize requested minFreeBytes minFreePercent =
     and_then (MeasurePhysicalSpace sample observedSize minFreeBytes minFreePercent) (\<lambda>space.
       (let post = s_ActualAvailableBytes space - requested
        in require (errs
          [ensure_is (requested \<le> s_ActualAvailableBytes space) ErrInsufficientPhysicalSpace
             ''requested bytes exceed actual available bytes'',
           ensure_is (s_PhysicalSafetyThresholdBytes space \<le> post) ErrInsufficientPhysicalSpace
             ''post-request available bytes are below safety threshold''])
          (Inr (space\<lparr>s_PostRequestAvailableBytes := post\<rparr>))))"

section \<open>Exactness of the arithmetic\<close>

lemma unat_max [simp]: "unat MaxUint64 = 18446744073709551615"
  by (simp add: MaxUint64_def unsigned_minus_1_eq_mask mask_eq_exp_minus_1)

lemma unat_of_nat_u64: "n < 18446744073709551616 \<Longrightarrow> unat (of_nat n :: u64) = n"
  by (simp add: unsigned_of_nat take_bit_nat_eq_self)

lemma unat_add_u64: "unat a + unat b < 18446744073709551616 \<Longrightarrow> unat (a + b :: u64) = unat a + unat b"
  by (simp add: unat_add_lem [symmetric])

lemma unat_mult_u64: "unat a * unat b < 18446744073709551616 \<Longrightarrow> unat (a * b :: u64) = unat a * unat b"
  by (simp add: unat_mult_lem [symmetric])

lemma unat_sub_u64: "b \<le> a \<Longrightarrow> unat (a - b :: u64) = unat a - unat b"
  by (rule unat_sub)

lemma unat_ucast_u32: "unat (ucast (p :: u32) :: u64) = unat p"
  using unat_u32_less [of p] by (simp add: unsigned_ucast_eq take_bit_nat_eq_self)

lemma max_minus_less: "unat s \<le> 18446744073709551615 \<Longrightarrow> f > MaxUint64 - s \<longleftrightarrow> unat f + unat s > 18446744073709551615"
  for f s :: u64
  by (simp add: word_less_iff_unat unat_sub_u64 word_le_iff_unat) (use unat_u64_less [of s] in linarith)

lemma unat_max_word: "unat (max a b :: u64) = max (unat a) (unat b)"
  by (simp add: max_def word_le_iff_unat)

text \<open>Euclid's loop computes the greatest common divisor.\<close>

lemma greatestCommonDivisor_gcd: "unat (greatestCommonDivisor l r) = gcd (unat l) (unat r)"
proof (induction l r rule: greatestCommonDivisor.induct)
  case (1 l r)
  show ?case
  proof (cases "r = 0")
    case False
    then have "unat (greatestCommonDivisor l r) = gcd (unat r) (unat (l mod r))"
      using 1 by (simp add: greatestCommonDivisor.simps [of l r])
    then show ?thesis by (simp add: unat_mod gcd_red_nat [of "unat l" "unat r"])
  qed (simp add: greatestCommonDivisor.simps)
qed

lemma ceil_hundred: "(x + 99) div 100 = (if x mod 100 \<noteq> 0 then x div 100 + 1 else x div 100)" for x :: nat
proof -
  define q r where "q = x div 100" and "r = x mod 100"
  have "x = 100 * q + r" and r: "r < 100" by (simp_all add: q_def r_def)
  then have "(x + 99) div 100 = q + (r + 99) div 100"
    using div_mult_self2 [of 100 "r + 99" q] by (simp add: algebra_simps)
  moreover have "(r + 99) div 100 = (if r \<noteq> 0 then 1 else 0)"
    using r by (auto intro: div_nat_eqI)
  ultimately show ?thesis by (simp add: q_def r_def)
qed

lemma ceil_split:
  fixes v p :: nat
  shows "(v div 100) * p + (if (v mod 100) * p mod 100 \<noteq> 0 then (v mod 100) * p div 100 + 1 else (v mod 100) * p div 100)
       = (v * p + 99) div 100"
proof -
  let ?s = "(v mod 100) * p"
  have "v * p = 100 * ((v div 100) * p) + ?s"
    by (metis add_mult_distrib div_mult_mod_eq mult.assoc mult.commute)
  then have "v * p + 99 = (?s + 99) + ((v div 100) * p) * 100" by simp
  then have "(v * p + 99) div 100 = (v div 100) * p + (?s + 99) div 100"
    by simp
  moreover have "(?s + 99) div 100 = (if ?s mod 100 \<noteq> 0 then ?s div 100 + 1 else ?s div 100)"
    by (rule ceil_hundred)
  ultimately show ?thesis by simp
qed

lemma ceil_percent_exact:
  assumes "p \<le> 100"
  obtains w where "ceilPercent v p = Inr w" and "unat w = (unat v * unat p + 99) div 100"
proof -
  let ?v = "unat v" and ?p = "unat p"
  have p: "?p \<le> 100" using assms by (simp add: word_le_iff_unat)
  have v: "?v < 18446744073709551616" by (rule unat_u64_less)
  let ?first = "(v div 100) * ucast p :: u64" and ?partial = "(v mod 100) * ucast p :: u64"
  have le: "(?v div 100) * ?p \<le> ?v"
    by (rule order.trans [OF mult_le_mono2 [OF p]]) simp
  have le2: "(?v mod 100) * ?p \<le> 9900"
    using p mult_le_mono [of "?v mod 100" 99 ?p 100] by simp
  from le have f: "unat ?first = (?v div 100) * ?p"
    using v by (subst unat_mult_u64) (simp_all add: unat_div unat_ucast_u32)
  have pa: "unat ?partial = (?v mod 100) * ?p"
    using le2 by (subst unat_mult_u64) (simp_all add: unat_mod unat_ucast_u32)
  let ?second = "(if ?partial mod 100 \<noteq> 0 then ?partial div 100 + 1 else ?partial div 100) :: u64"
  have d: "unat (?partial div 100) = (?v mod 100) * ?p div 100" by (simp add: unat_div pa)
  then have "unat (?partial div 100 + 1) = (?v mod 100) * ?p div 100 + 1"
    using le2 by (subst unat_add_u64) simp_all
  moreover have "?partial mod 100 = 0 \<longleftrightarrow> (?v mod 100) * ?p mod 100 = 0"
    by (simp add: unat_eq_zero [symmetric] unat_mod pa del: unat_eq_zero)
  ultimately have s: "unat ?second
      = (if (?v mod 100) * ?p mod 100 \<noteq> 0 then (?v mod 100) * ?p div 100 + 1 else (?v mod 100) * ?p div 100)"
    using d by simp
  have tot: "unat ?first + unat ?second = (?v * ?p + 99) div 100"
    unfolding f s by (rule ceil_split)
  have "?v * ?p \<le> ?v * 100" using p by simp
  then have "(?v * ?p + 99) div 100 < 18446744073709551616" using v by linarith
  then have "\<not> ?first > MaxUint64 - ?second" and "unat (?first + ?second) = (?v * ?p + 99) div 100"
    using tot unat_u64_less [of ?second] by (simp_all add: max_minus_less unat_add_u64)
  moreover have "\<not> p > 100" using assms by simp
  ultimately show thesis
    by (intro that [of "?first + ?second"]) (simp_all add: ceilPercent_def Let_def)
qed

lemma unat_product: "unat (fst (Mul64 v n)) * 2 ^ 64 + unat (snd (Mul64 v n)) = unat v * unat n"
proof -
  have "unat v * unat n < 2 ^ 64 * 2 ^ 64"
    using unat_u64_less [of v] unat_u64_less [of n] by (intro mult_strict_mono) simp_all
  then have "unat v * unat n div 2 ^ 64 < 2 ^ 64" by (simp add: less_mult_imp_div_less)
  then have "unat (fst (Mul64 v n)) = unat v * unat n div 2 ^ 64"
    by (simp add: Mul64_def unat_of_nat_u64)
  moreover have "unat (snd (Mul64 v n)) = unat v * unat n mod 2 ^ 64"
    by (simp add: Mul64_def unat_word_ariths)
  ultimately show ?thesis by simp
qed

lemma floor_multiply_cases:
  fixes v :: u64
  assumes d: "r_denominator ratio \<noteq> 0"
  defines "n \<equiv> unat v * unat (r_numerator ratio)"
  shows "n div unat (r_denominator ratio) < 2 ^ 64 \<Longrightarrow>
           \<exists>w. floorMultiplyRatio v ratio = Inr w \<and> unat w = n div unat (r_denominator ratio)"
    and "\<not> n div unat (r_denominator ratio) < 2 ^ 64 \<Longrightarrow>
           floorMultiplyRatio v ratio = Inl (Errorf ''logical capacity'' [ErrArithmeticOverflow])"
proof -
  let ?d = "unat (r_denominator ratio)"
  obtain high low where m: "Mul64 v (r_numerator ratio) = (high, low)" by fastforce
  have n: "unat high * 2 ^ 64 + unat low = n"
    using unat_product [of v "r_numerator ratio"] by (simp add: m n_def)
  have d0: "0 < ?d" using d by (simp add: unat_gt_0)
  have "n div ?d < 2 ^ 64 \<longleftrightarrow> n < 2 ^ 64 * ?d" using d0 by (rule div_less_iff_less_mult)
  also have "\<dots> \<longleftrightarrow> unat high < ?d"
    using n unat_u64_less [of low] by auto
  finally have guard: "n div ?d < 2 ^ 64 \<longleftrightarrow> high < r_denominator ratio"
    by (simp add: word_less_iff_unat)
  show "\<exists>w. floorMultiplyRatio v ratio = Inr w \<and> unat w = n div ?d" if "n div ?d < 2 ^ 64"
    using that guard d n unat_of_nat_u64 [of "n div ?d"]
    by (auto simp: floorMultiplyRatio_def m Div64_def)
  show "floorMultiplyRatio v ratio = Inl (Errorf ''logical capacity'' [ErrArithmeticOverflow])"
    if "\<not> n div ?d < 2 ^ 64"
    using that guard by (simp add: floorMultiplyRatio_def m linorder_not_less)
qed

text \<open>
  Multiplication by the overcommit ratio is exact. For a ratio with a positive denominator
  the product is the floor of the rational product whenever that fits 64 bits, the arithmetic
  overflow error exactly when it does not, and the 128-bit division never panics.
\<close>

theorem floorMultiplyRatio_exact:
  assumes "r_denominator ratio \<noteq> 0"
  shows "(if unat v * unat (r_numerator ratio) div unat (r_denominator ratio) < 2 ^ 64
          then \<exists>w. floorMultiplyRatio v ratio = Inr w
               \<and> unat w = unat v * unat (r_numerator ratio) div unat (r_denominator ratio)
          else floorMultiplyRatio v ratio = Inl (Errorf ''logical capacity'' [ErrArithmeticOverflow]))"
  using floor_multiply_cases [OF assms, of v] by simp

theorem floorMultiplyRatio_exact_witness:
  "floorMultiplyRatio 1000 \<lparr>r_numerator = 3, r_denominator = 2\<rparr> = Inr 1500"
proof -
  obtain w where "floorMultiplyRatio 1000 \<lparr>r_numerator = 3, r_denominator = 2\<rparr> = Inr w" and "unat w = 1500"
    using floorMultiplyRatio_exact [of "\<lparr>r_numerator = 3, r_denominator = 2\<rparr>" 1000] by auto
  moreover have "unat (1500 :: u64) = 1500" by simp
  ultimately show ?thesis by (metis word_unat_eq_iff)
qed

lemma allocation_sum_cases:
  "unat a + sum_list (map unat xs) < 18446744073709551616 \<Longrightarrow>
     \<exists>w. allocation_sum a xs = Inr w \<and> unat w = unat a + sum_list (map unat xs)"
  "\<not> unat a + sum_list (map unat xs) < 18446744073709551616 \<Longrightarrow>
     allocation_sum a xs = Inl (Errorf ''sum logical allocations'' [ErrArithmeticOverflow])"
proof (induction xs arbitrary: a)
  case (Cons x xs)
  have guard: "x > MaxUint64 - a \<longleftrightarrow> unat x + unat a > 18446744073709551615" for a
    using unat_u64_less [of a] by (intro max_minus_less) simp
  {
    case 1
    then have fits: "unat a + unat x < 18446744073709551616" by simp
    then have "\<not> x > MaxUint64 - a" and "unat (a + x) = unat a + unat x"
      by (simp_all add: guard unat_add_u64)
    with 1 Cons.IH(1) [of "a + x"] show ?case by auto
  next
    case 2
    show ?case
    proof (cases "x > MaxUint64 - a")
      case False
      with guard have "unat (a + x) = unat a + unat x" by (simp add: unat_add_u64)
      with 2 False Cons.IH(2) [of "a + x"] show ?thesis by simp
    qed simp
  }
qed (use unat_u64_less in auto)

lemma sub_or_zero: "unat (if b < a then a - b else 0) = unat a - unat b" for a b :: u64
  using unat_sub_u64 [of b a] by (auto simp: word_less_iff_unat word_le_iff_unat not_less)

text \<open>The tail of \<^verbatim>\<open>CalculateCapacity\<close> after the reserve is known.\<close>

definition capacity_tail :: "u64 \<Rightarrow> u64 \<Rightarrow> u64 \<Rightarrow> Ratio \<Rightarrow> u64 list \<Rightarrow> Capacity res" where
  "capacity_tail observed reserve usable ratio allocations =
     and_then (floorMultiplyRatio usable ratio) (\<lambda>c. and_then (allocation_sum 0 allocations) (\<lambda>a.
        Inr \<lparr>k_ObservedSizeBytes = observed, k_ReserveBytes = reserve, k_UsableBytes = usable,
             k_LogicalCapacityBytes = c, k_LogicalAllocatedBytes = a,
             k_LogicalAvailableBytes = (if a < c then c - a else 0)\<rparr>))"

lemma capacity_tail_cases:
  assumes d: "r_denominator ratio \<noteq> 0"
  defines "run \<equiv> \<lambda>observed reserve usable allocations. capacity_tail observed reserve usable ratio allocations"
    and "cap \<equiv> \<lambda>usable. unat usable * unat (r_numerator ratio) div unat (r_denominator ratio)"
    and "tot \<equiv> \<lambda>allocations. sum_list (map unat allocations)"
  shows "cap usable < 2 ^ 64 \<Longrightarrow> tot allocations < 2 ^ 64 \<Longrightarrow>
      \<exists>k. run observed reserve usable allocations = Inr k
        \<and> k_ObservedSizeBytes k = observed \<and> k_ReserveBytes k = reserve \<and> k_UsableBytes k = usable
        \<and> unat (k_LogicalCapacityBytes k) = cap usable \<and> unat (k_LogicalAllocatedBytes k) = tot allocations
        \<and> unat (k_LogicalAvailableBytes k) = cap usable - tot allocations"
    and "\<not> (cap usable < 2 ^ 64 \<and> tot allocations < 2 ^ 64) \<Longrightarrow>
      \<exists>e. run observed reserve usable allocations = Inl e \<and> errors_is e ErrArithmeticOverflow"
proof -
  assume fit: "cap usable < 2 ^ 64" "tot allocations < 2 ^ 64"
  obtain c where c: "floorMultiplyRatio usable ratio = Inr c" "unat c = cap usable"
    using floor_multiply_cases(1) [OF d, of usable] fit(1) unfolding cap_def by blast
  obtain a where a: "allocation_sum 0 allocations = Inr a" "unat a = tot allocations"
    using allocation_sum_cases(1) [of 0 allocations] fit(2) unfolding tot_def by auto
  show "\<exists>k. run observed reserve usable allocations = Inr k
        \<and> k_ObservedSizeBytes k = observed \<and> k_ReserveBytes k = reserve \<and> k_UsableBytes k = usable
        \<and> unat (k_LogicalCapacityBytes k) = cap usable \<and> unat (k_LogicalAllocatedBytes k) = tot allocations
        \<and> unat (k_LogicalAvailableBytes k) = cap usable - tot allocations"
    unfolding run_def capacity_tail_def c(1) a(1) using c(2) a(2) sub_or_zero [of a c] by simp
next
  assume "\<not> (cap usable < 2 ^ 64 \<and> tot allocations < 2 ^ 64)"
  then show "\<exists>e. run observed reserve usable allocations = Inl e \<and> errors_is e ErrArithmeticOverflow"
    using floor_multiply_cases [OF d, of usable] allocation_sum_cases(2) [of 0 allocations]
    by (cases "cap usable < 2 ^ 64") (auto simp: cap_def tot_def run_def capacity_tail_def errors_is_def)
qed

text \<open>
  (C23) Logical capacity is computed exactly. On a positive size, a percentage of at most 100 and a
  valid ratio, the reserve is the larger of the absolute and the rounded-up percentage reserve,
  the capacity is the floor of the usable bytes times the ratio, the allocated bytes are the sum
  of the allocations and the available bytes their difference cut at zero, all in unbounded
  arithmetic; the only failure is the overflow error, when the capacity or the sum exceeds 64 bits.
\<close>

theorem CalculateCapacity_exact:
  assumes "observed \<noteq> 0" and "pct \<le> 100" and "Ratio_Validate ratio = None"
  shows "let reserve = max (unat minFree) ((unat observed * unat pct + 99) div 100);
             usable = unat observed - reserve;
             cap = usable * unat (r_numerator ratio) div unat (r_denominator ratio);
             allocated = sum_list (map unat allocations)
         in if cap < 2 ^ 64 \<and> allocated < 2 ^ 64 then
              \<exists>k. CalculateCapacity observed minFree pct ratio allocations = Inr k
                \<and> k_ObservedSizeBytes k = observed \<and> unat (k_ReserveBytes k) = reserve \<and> unat (k_UsableBytes k) = usable
                \<and> unat (k_LogicalCapacityBytes k) = cap \<and> unat (k_LogicalAllocatedBytes k) = allocated
                \<and> unat (k_LogicalAvailableBytes k) = cap - allocated
            else \<exists>e. CalculateCapacity observed minFree pct ratio allocations = Inl e \<and> errors_is e ErrArithmeticOverflow"
proof -
  obtain p where p: "ceilPercent observed pct = Inr p" and up: "unat p = (unat observed * unat pct + 99) div 100"
    using ceil_percent_exact [OF assms(2)] .
  have d: "r_denominator ratio \<noteq> 0" using assms(3) by (simp add: Ratio_Validate_def)
  define reserve where "reserve = max minFree p"
  define usable where "usable = (if reserve < observed then observed - reserve else 0)"
  have ur: "unat reserve = max (unat minFree) ((unat observed * unat pct + 99) div 100)"
    by (simp add: reserve_def unat_max_word up)
  have uu: "unat usable = unat observed - unat reserve" unfolding usable_def by (rule sub_or_zero)
  have "CalculateCapacity observed minFree pct ratio allocations = capacity_tail observed reserve usable ratio allocations"
    using assms by (simp add: CalculateCapacity_def capacity_tail_def p Let_def ensure_def reserve_def usable_def)
  then show ?thesis
    using capacity_tail_cases [OF d, of usable allocations observed reserve]
    by (auto simp: ur [symmetric] uu [symmetric] Let_def split: if_splits)
qed

theorem CalculateCapacity_exact_witness:
  "\<exists>k. CalculateCapacity 1000 0 10 \<lparr>r_numerator = 3, r_denominator = 2\<rparr> [500, 100] = Inr k
     \<and> unat (k_LogicalAvailableBytes k) = 750"
  using CalculateCapacity_exact [of 1000 10 "\<lparr>r_numerator = 3, r_denominator = 2\<rparr>" 0 "[500, 100]"]
  by (auto simp: Ratio_Validate_def Let_def)

section \<open>Ratios are exact decimals\<close>

lemma decimal_value_Cons_zero: "decimal_value (CHR ''0'' # s) = decimal_value s"
  by (simp add: decimal_value_def digit_val_def byte_def)

lemma decimal_value_trim: "decimal_value (trim_left ''0'' s) = decimal_value s"
  by (induction s) (simp_all add: trim_left_def decimal_value_Cons_zero)

lemma trim_left_head: "trim_left ''0'' s = c # t \<Longrightarrow> c \<noteq> CHR ''0''"
  by (induction s) (auto simp: trim_left_def split: if_splits)

lemma decimal_value_append: "decimal_value (s @ t) = decimal_value s * 10 ^ length t + decimal_value t"
proof (induction t rule: rev_induct)
  case (snoc c t)
  then show ?case
    by (simp only: append_assoc [symmetric] decimal_value_snoc) (simp add: algebra_simps)
qed (simp add: decimal_value_def)

lemma decimal_value_positive: "trim_left ''0'' s \<noteq> [] \<Longrightarrow> list_all is_digit s \<Longrightarrow> 0 < decimal_value s"
proof -
  assume ne: "trim_left ''0'' s \<noteq> []" and d: "list_all is_digit s"
  then obtain c t where t: "trim_left ''0'' s = c # t" by (cases "trim_left ''0'' s") auto
  have "c \<in> set s"
    using t by (metis list.set_intros(1) set_dropWhileD trim_left_def)
  with d have "is_digit c" by (simp add: list_all_iff)
  moreover have "byte c \<noteq> byte CHR ''0''" using trim_left_head [OF t] by (simp add: byte_eq_iff)
  ultimately have "0 < digit_val c"
    by (simp add: digit_val_def is_digit_def in_range_def byte_def)
  moreover have "decimal_value s = digit_val c * 10 ^ length t + decimal_value t"
    using decimal_value_trim [of s] decimal_value_append [of "[c]" t] by (simp add: t decimal_value_def)
  ultimately show ?thesis by simp
qed

lemma denominator_loop_power:
  "unat d * 10 ^ n < 18446744073709551616 \<Longrightarrow> \<exists>e. denominator_loop n d = Inr e \<and> unat e = unat d * 10 ^ n"
proof (induction n arbitrary: d)
  case (Suc n)
  have "unat d * 10 \<le> unat d * 10 ^ Suc n" by (intro mult_le_mono2) simp
  then have fits: "unat d * 10 < 18446744073709551616" using Suc.prems by (rule le_less_trans)
  then have "\<not> d > MaxUint64 div 10" by (simp add: word_less_iff_unat unat_div)
  moreover from fits have "unat (d * 10) = unat d * 10" by (simp add: unat_mult_u64)
  ultimately show ?case using Suc.IH [of "d * 10"] Suc.prems by (simp add: mult.assoc)
qed simp

lemma reduced_fraction:
  fixes n d :: u64
  assumes n: "0 < unat n" and d: "0 < unat d"
  defines "g \<equiv> greatestCommonDivisor n d"
  shows "unat (n div g) * unat d = unat n * unat (d div g)"
    and "coprime (unat (n div g)) (unat (d div g))" and "0 < unat (n div g)" and "0 < unat (d div g)"
proof -
  have g: "unat g = gcd (unat n) (unat d)" by (simp add: g_def greatestCommonDivisor_gcd)
  obtain a where a: "unat n = a * unat g"
    using dvd_div_mult_self [OF gcd_dvd1 [of "unat n" "unat d"]] by (metis g)
  obtain b where b: "unat d = b * unat g"
    using dvd_div_mult_self [OF gcd_dvd2 [of "unat n" "unat d"]] by (metis g)
  have g0: "0 < unat g" using n a by (cases "unat g") auto
  then have q: "unat (n div g) = a" "unat (d div g) = b" unfolding unat_div a b by simp_all
  show "unat (n div g) * unat d = unat n * unat (d div g)" by (simp add: q a b)
  show "coprime (unat (n div g)) (unat (d div g))"
    using div_gcd_coprime [of "unat n" "unat d"] n unfolding unat_div g by simp
  show "0 < unat (n div g)" "0 < unat (d div g)" using n d a b by (simp_all add: q)
qed

text \<open>
  Ratios are parsed exactly. A text that \<^verbatim>\<open>ParseRatio\<close> accepts is a decimal \<open>w\<close> or \<open>w.f\<close> over at
  most 18 digits, and the result is the reduced fraction equal to that decimal: numerator times
  ten to the number of fraction digits equals the digits' value times the denominator, the two
  are coprime and both positive.
\<close>

theorem ParseRatio_exact:
  assumes "ParseRatio input = Inr ratio"
  shows "\<exists>w f. input = (if f = [] then w else w @ ''.'' @ f) \<and> list_all is_digit (w @ f) \<and> w \<noteq> []
     \<and> length (w @ f) \<le> 18
     \<and> unat (r_numerator ratio) * 10 ^ length f = decimal_value (w @ f) * unat (r_denominator ratio)
     \<and> coprime (unat (r_numerator ratio)) (unat (r_denominator ratio))
     \<and> Ratio_Validate ratio = None"
proof -
  let ?parts = "split_on CHR ''.'' input"
  define w f where "w = hd ?parts" and "f = (if length ?parts = 2 then ?parts ! 1 else [])"
  let ?t = "trim_left ''0'' (w @ f)"
  from assms have len: "length ?parts \<le> 2" "w \<noteq> []" "length ?parts = 2 \<longrightarrow> f \<noteq> []" "length (w @ f) \<le> 18"
    and dig: "list_all is_digit (w @ f)" and ne: "?t \<noteq> []"
    by (simp_all add: ParseRatio_def Let_def w_def f_def not_less)
  from assms obtain n where n: "parse_uint 64 ?t = Some n"
    by (auto simp: ParseRatio_def Let_def w_def f_def split: option.splits)
  obtain d where d: "denominator_loop (length f) 1 = Inr d" "unat d = 10 ^ length f"
  proof -
    have "(10::nat) ^ length f \<le> 10 ^ 18" using len(4) by (intro power_increasing) simp_all
    then show thesis using that denominator_loop_power [of 1 "length f"] by auto
  qed
  from assms n d have ratio: "ratio = \<lparr>r_numerator = of_nat n div greatestCommonDivisor (of_nat n) d,
      r_denominator = d div greatestCommonDivisor (of_nat n) d\<rparr>"
    unfolding ParseRatio_def Let_def w_def [symmetric] f_def [symmetric] by simp
  have nv: "unat (of_nat n :: u64) = decimal_value (w @ f)"
    using n decimal_value_trim [of "w @ f"] by (auto simp: parse_uint_def unat_of_nat_u64 split: if_splits)
  have pos: "0 < unat (of_nat n :: u64)" "0 < unat d"
    using decimal_value_positive [OF ne dig] by (simp_all add: nv d(2))
  have "input = (if f = [] then w else w @ ''.'' @ f)"
  proof -
    have "input = join_with ''.'' ?parts" using join_split [of "CHR ''.''" "input"] by simp
    moreover have "?parts = (if f = [] then [w] else [w, f])"
      using len(1,3) unfolding w_def f_def by (cases ?parts; cases "tl ?parts") auto
    ultimately show ?thesis by (simp add: join_with_def split: if_splits)
  qed
  then show ?thesis
    using reduced_fraction [OF pos] dig len(2,4) d(2) nv
    by (intro exI [of _ w] exI [of _ f]) (simp add: ratio Ratio_Validate_def unat_gt_0)
qed

theorem ParseRatio_exact_witness:
  "\<exists>ratio. ParseRatio ''1.5'' = Inr ratio \<and> Ratio_Validate ratio = None"
proof -
  have "trim_space ''1.5'' = ''1.5''"
    by (simp add: trim_space_def scan_ascii byte_def is_space_rune_def)
  then obtain ratio where "ParseRatio ''1.5'' = Inr ratio"
    by (simp add: ParseRatio_def Let_def trim_left_def char_class_defs parse_uint_def decimal_value_def digit_val_def
        byte_def word_less_iff_unat unat_div)
  with ParseRatio_exact [OF this] show ?thesis by blast
qed

section \<open>Physical space\<close>

lemma unat_nonneg: "0 \<le> sint w \<Longrightarrow> unat w = nat (sint w)" for w :: i64
  using sint_lt [of w] by (simp add: unat_eq_nat_uint uint_sint take_bit_int_eq_self)

lemma mult_guard:
  fixes n b :: u64
  assumes "n \<noteq> 0"
  shows "b > MaxUint64 div n \<longleftrightarrow> \<not> unat n * unat b < 18446744073709551616"
proof -
  have n: "0 < unat n" using assms by (simp add: unat_gt_0)
  have "b > MaxUint64 div n \<longleftrightarrow> \<not> unat b \<le> 18446744073709551615 div unat n"
    by (simp add: word_less_iff_unat unat_div not_le)
  also have "\<dots> \<longleftrightarrow> \<not> unat b * unat n \<le> 18446744073709551615"
    using n by (simp add: less_eq_div_iff_mult_less_eq)
  finally show ?thesis by (auto simp: mult.commute)
qed

lemma measure_iff:
  assumes "pct \<le> 100"
  defines "avail \<equiv> \<lambda>sample. nat (sint (f_AvailableBlocks sample)) * nat (sint (f_BlockSizeBytes sample))"
  shows "(\<exists>sp. MeasurePhysicalSpace sample observed minFree pct = Inr sp) \<longleftrightarrow>
      0 < sint (f_BlockSizeBytes sample) \<and> 0 \<le> sint (f_AvailableBlocks sample) \<and> observed \<noteq> 0
      \<and> avail sample \<le> unat observed"
    and "MeasurePhysicalSpace sample observed minFree pct = Inr sp \<Longrightarrow>
      unat (s_ActualAvailableBytes sp) = avail sample
      \<and> unat (s_PhysicalSafetyThresholdBytes sp) = max (unat minFree) ((unat observed * unat pct + 99) div 100)"
proof -
  let ?n = "f_AvailableBlocks sample" and ?b = "f_BlockSizeBytes sample"
  obtain p where p: "ceilPercent observed pct = Inr p" and up: "unat p = (unat observed * unat pct + 99) div 100"
    using ceil_percent_exact [OF assms(1)] .
  have prod: "unat ?n * unat ?b = avail sample" if "0 < sint ?b" "0 \<le> sint ?n"
    using that by (simp add: avail_def unat_nonneg)
  have small: "unat (?n * ?b) = unat ?n * unat ?b" if "\<not> (?n \<noteq> 0 \<and> ?b > MaxUint64 div ?n)"
    using that mult_guard [of ?n ?b] by (cases "?n = 0") (simp_all add: unat_mult_u64)
  have fits: "\<not> (?n \<noteq> 0 \<and> ?b > MaxUint64 div ?n)" if "unat ?n * unat ?b \<le> unat observed"
    using that mult_guard [of ?n ?b] unat_u64_less [of observed] by auto
  show "(\<exists>sp. MeasurePhysicalSpace sample observed minFree pct = Inr sp) \<longleftrightarrow>
      0 < sint ?b \<and> 0 \<le> sint ?n \<and> observed \<noteq> 0 \<and> avail sample \<le> unat observed"
    using assms(1) p prod small fits
    by (auto simp: MeasurePhysicalSpace_def Let_def word_le_iff_unat not_less)
  show "unat (s_ActualAvailableBytes sp) = avail sample
      \<and> unat (s_PhysicalSafetyThresholdBytes sp) = max (unat minFree) ((unat observed * unat pct + 99) div 100)"
    if "MeasurePhysicalSpace sample observed minFree pct = Inr sp"
    using that p up prod small by (auto simp: MeasurePhysicalSpace_def Let_def unat_max_word not_less)
qed

text \<open>
  (C29) The physical guard admits exactly the requests that leave the reserve. With a percentage of
  at most 100, \<^verbatim>\<open>CheckPhysicalSpace\<close> succeeds exactly when the \<^verbatim>\<open>statfs\<close> sample is sane (positive block
  size, non-negative block count, available bytes no larger than the parent) and the available
  bytes cover the request plus the larger of the absolute and percentage reserve, computed without
  wrap-around; on success the remaining bytes are the difference, and on a sane sample the only
  refusal is \<^verbatim>\<open>ErrInsufficientPhysicalSpace\<close>.
\<close>

theorem CheckPhysicalSpace_exact:
  assumes "pct \<le> 100"
  shows "let avail = nat (sint (f_AvailableBlocks sample)) * nat (sint (f_BlockSizeBytes sample));
             threshold = max (unat minFree) ((unat observed * unat pct + 99) div 100);
             sane = (0 < sint (f_BlockSizeBytes sample) \<and> 0 \<le> sint (f_AvailableBlocks sample)
                     \<and> observed \<noteq> 0 \<and> avail \<le> unat observed);
             run = CheckPhysicalSpace sample observed requested minFree pct
         in ((\<exists>sp. run = Inr sp) \<longleftrightarrow> sane \<and> unat requested + threshold \<le> avail)
          \<and> (\<forall>sp. run = Inr sp \<longrightarrow> unat (s_PostRequestAvailableBytes sp) = avail - unat requested)
          \<and> (sane \<longrightarrow> (\<forall>e. run = Inl e \<longrightarrow> errors_is e ErrInsufficientPhysicalSpace))"
proof -
  note iff = measure_iff(1) [OF assms, of sample observed minFree]
  note vals = measure_iff(2) [OF assms, of sample observed minFree]
  show ?thesis
  proof (cases "MeasurePhysicalSpace sample observed minFree pct")
    case (Inl e)
    with iff show ?thesis by (auto simp: CheckPhysicalSpace_def Let_def)
  next
    case (Inr m)
    let ?a = "s_ActualAvailableBytes m" and ?t = "s_PhysicalSafetyThresholdBytes m"
    have ok: "requested \<le> ?a \<and> ?t \<le> ?a - requested \<longleftrightarrow> unat requested + unat ?t \<le> unat ?a"
      by (auto simp: word_le_iff_unat unat_sub_u64)
    have res: "CheckPhysicalSpace sample observed requested minFree pct =
        (if requested \<le> ?a \<and> ?t \<le> ?a - requested then Inr (m\<lparr>s_PostRequestAvailableBytes := ?a - requested\<rparr>)
         else CheckPhysicalSpace sample observed requested minFree pct)"
      by (simp add: CheckPhysicalSpace_def Inr Let_def)
    have err: "\<exists>e. CheckPhysicalSpace sample observed requested minFree pct = Inl e
        \<and> errors_is e ErrInsufficientPhysicalSpace" if "\<not> (requested \<le> ?a \<and> ?t \<le> ?a - requested)"
      using that by (auto simp: CheckPhysicalSpace_def Inr Let_def ensure_is_def errors_is_def)
    from iff Inr vals [OF Inr] res err ok unat_sub_u64 [of requested ?a] show ?thesis
      by (cases "requested \<le> ?a \<and> ?t \<le> ?a - requested") (auto simp: Let_def)
  qed
qed

theorem CheckPhysicalSpace_exact_witness:
  "\<exists>sp. CheckPhysicalSpace \<lparr>f_BlockSizeBytes = 10, f_AvailableBlocks = 50, f_ObservedAt = 1\<rparr> 1000 300 100 20 = Inr sp
     \<and> unat (s_PostRequestAvailableBytes sp) = 200"
  using CheckPhysicalSpace_exact [of 20 "\<lparr>f_BlockSizeBytes = 10, f_AvailableBlocks = 50, f_ObservedAt = 1\<rparr>" 100 1000 300]
  by (auto simp: Let_def)

end
