(* ===== verification/PoolConfig.thy ===== *)
theory PoolConfig
  imports Accounting Request
begin

text \<open>
  \<^verbatim>\<open>pkg/pool/config.go\<close> and \<^verbatim>\<open>refresh.go\<close>: the policy of a pool, the exclusivity of parents across
  pools, and the tracker that accepts parent sizes. A Go map that only records membership is
  the list of the keys seen so far. The tracker's mutex makes each \<^verbatim>\<open>Observe\<close> atomic, so its
  history is a sequence of steps.
\<close>

section \<open>Configuration\<close>

definition SelectionLeastAllocated :: string where "SelectionLeastAllocated = ''least-allocated''"
definition ParentActive :: string where "ParentActive = ''active''"
definition ParentDraining :: string where "ParentDraining = ''draining''"

record ParentConfig =
  pc_ID :: string
  pc_Name :: string
  pc_State :: string

record Config =
  cfg_Name :: string
  cfg_BasePath :: string
  cfg_SelectionPolicy :: string
  cfg_MaxParentsPerEligibleNode :: u32
  cfg_MaxLogicalOvercommitRatio :: Ratio
  cfg_MinFreeBytes :: u64
  cfg_MinFreePercent :: u32
  cfg_DeletePolicy :: string
  cfg_DirectoryMode :: string
  cfg_DirectoryUID :: u32
  cfg_DirectoryGID :: u32
  cfg_Filesystems :: "ParentConfig list"

fun parents_loop :: "string list \<Rightarrow> ParentConfig list \<Rightarrow> error option" where
  "parents_loop seen [] = None"
| "parents_loop seen (parent # rest) = errs
     [wrap_err ''pool parent'' (ValidateParentFilesystemID (pc_ID parent)),
      ensure (pc_ID parent \<notin> set seen) ''pool contains duplicate parent filesystem ID'',
      ensure (\<not> (pc_State parent \<noteq> ParentActive \<and> pc_State parent \<noteq> ParentDraining))
        ''pool parent has unsupported state'',
      parents_loop (pc_ID parent # seen) rest]"

definition Config_Validate :: "Config \<Rightarrow> error option" where
  "Config_Validate config = errs
     [ValidatePoolName (cfg_Name config),
      ValidateBasePath (cfg_BasePath config),
      ensure (cfg_SelectionPolicy config = SelectionLeastAllocated) ''pool selection policy is unsupported'',
      ensure (cfg_MaxParentsPerEligibleNode config \<noteq> 0) ''pool max parents per eligible node must be positive'',
      wrap_err ''pool overcommit ratio'' (Ratio_Validate (cfg_MaxLogicalOvercommitRatio config)),
      ensure (cfg_MinFreePercent config \<le> 100) ''pool minimum free percent is outside [0,100]'',
      wrap_err ''pool'' (DeletePolicy_Validate (cfg_DeletePolicy config)),
      wrap_err ''pool'' (ValidateDirectoryMode (cfg_DirectoryMode config)),
      ensure (\<not> (cfg_DirectoryUID config > 2147483647 \<or> cfg_DirectoryGID config > 2147483647))
        ''pool directory UID and GID must not exceed 2147483647'',
      ensure (cfg_Filesystems config \<noteq> []) ''pool must contain at least one parent filesystem'',
      ensure (length (cfg_Filesystems config) \<le> unat (cfg_MaxParentsPerEligibleNode config))
        ''pool has more parents than maxParentsPerEligibleNode'',
      parents_loop [] (cfg_Filesystems config)]"

fun parent_pools_loop :: "string list \<Rightarrow> ParentConfig list \<Rightarrow> string list res" where
  "parent_pools_loop parentPools [] = Inr parentPools"
| "parent_pools_loop parentPools (parent # rest) =
     (if pc_ID parent \<in> set parentPools then Inl (errorf ''parent filesystem ID appears in two pools'')
      else parent_pools_loop (pc_ID parent # parentPools) rest)"

fun configs_loop :: "string list \<Rightarrow> string list \<Rightarrow> Config list \<Rightarrow> error option" where
  "configs_loop poolNames parentPools [] = None"
| "configs_loop poolNames parentPools (config # rest) = errs
     [Config_Validate config,
      ensure (cfg_Name config \<notin> set poolNames) ''duplicate pool name'',
      and_check (parent_pools_loop parentPools (cfg_Filesystems config))
        (\<lambda>pools. configs_loop (cfg_Name config # poolNames) pools rest)]"

definition ValidateConfigs :: "Config list \<Rightarrow> error option" where
  "ValidateConfigs configs = errs
     [ensure (configs \<noteq> []) ''at least one pool is required'', configs_loop [] [] configs]"

definition ParentIDs :: "Config list \<Rightarrow> string list" where
  "ParentIDs configs = remdups_adj (sort (concat (map (\<lambda>config. map pc_ID (cfg_Filesystems config)) configs)))"

section \<open>Accepted parent sizes\<close>

definition ParentConditionHealthy :: string where "ParentConditionHealthy = ''healthy''"
definition ParentConditionCriticalSizeRegression :: string where
  "ParentConditionCriticalSizeRegression = ''critical-size-regression''"

record ParentMetadataObservation =
  ob_SizeBytes :: u64
  ob_ObservedAt :: instant

record ParentMetadataSnapshot =
  sn_AcceptedSizeBytes :: u64
  sn_ObservedSizeBytes :: u64
  sn_PreviousSizeBytes :: u64
  sn_Condition :: string
  sn_ObservedAt :: instant

text \<open>The zero tracker, and \<^verbatim>\<open>Observe\<close>: the new tracker snapshot together with the call's result.\<close>

definition zero_snapshot :: ParentMetadataSnapshot where
  "zero_snapshot = \<lparr>sn_AcceptedSizeBytes = 0, sn_ObservedSizeBytes = 0, sn_PreviousSizeBytes = 0,
     sn_Condition = [], sn_ObservedAt = 0\<rparr>"

definition Observe ::
  "ParentMetadataSnapshot \<Rightarrow> ParentMetadataObservation \<Rightarrow> ParentMetadataSnapshot \<times> ParentMetadataSnapshot res" where
  "Observe current observation =
     (let size' = ob_SizeBytes observation; at = ob_ObservedAt observation
      in if size' = 0 \<or> at = 0
         then (current, Inl (errorf ''parent metadata observation requires positive size and timestamp''))
         else if sn_AcceptedSizeBytes current = 0 then
           (let fresh = \<lparr>sn_AcceptedSizeBytes = size', sn_ObservedSizeBytes = size', sn_PreviousSizeBytes = size',
                         sn_Condition = ParentConditionHealthy, sn_ObservedAt = at\<rparr>
            in (fresh, Inr fresh))
         else if at = sn_ObservedAt current \<and> size' = sn_ObservedSizeBytes current then (current, Inr current)
         else if \<not> at > sn_ObservedAt current
         then (current, Inl (errorf ''parent metadata observation is stale or not monotonic''))
         else if size' < sn_AcceptedSizeBytes current then
           (let shrunk = \<lparr>sn_AcceptedSizeBytes = sn_AcceptedSizeBytes current, sn_ObservedSizeBytes = size',
                          sn_PreviousSizeBytes = sn_AcceptedSizeBytes current,
                          sn_Condition = ParentConditionCriticalSizeRegression, sn_ObservedAt = at\<rparr>
            in (shrunk, Inr shrunk))
         else
           (let grown = \<lparr>sn_AcceptedSizeBytes = size', sn_ObservedSizeBytes = size',
                         sn_PreviousSizeBytes = sn_AcceptedSizeBytes current,
                         sn_Condition = ParentConditionHealthy, sn_ObservedAt = at\<rparr>
            in (grown, Inr grown)))"

definition PlacementAllowed :: "ParentMetadataSnapshot \<Rightarrow> bool" where
  "PlacementAllowed snapshot \<longleftrightarrow>
     sn_Condition snapshot = ParentConditionHealthy \<and> sn_AcceptedSizeBytes snapshot > 0
     \<and> sn_ObservedSizeBytes snapshot \<ge> sn_AcceptedSizeBytes snapshot"

section \<open>Exclusivity\<close>

lemma parents_loop_iff:
  "parents_loop seen ps = None \<longleftrightarrow>
     distinct (map pc_ID ps) \<and> set (map pc_ID ps) \<inter> set seen = {}
     \<and> (\<forall>p \<in> set ps. ValidateParentFilesystemID (pc_ID p) = None \<and> pc_State p \<in> {ParentActive, ParentDraining})"
  by (induction ps arbitrary: seen) auto

lemma parent_pools_loop_iff:
  "parent_pools_loop seen ps = Inr all \<longleftrightarrow>
     distinct (map pc_ID ps) \<and> set (map pc_ID ps) \<inter> set seen = {} \<and> all = rev (map pc_ID ps) @ seen"
  by (induction ps arbitrary: seen) auto

definition all_parents :: "Config list \<Rightarrow> string list" where
  "all_parents configs = concat (map (\<lambda>config. map pc_ID (cfg_Filesystems config)) configs)"

lemma configs_loop_iff:
  "configs_loop names seen cs = None \<longleftrightarrow>
     (\<forall>c \<in> set cs. Config_Validate c = None) \<and> distinct (map cfg_Name cs) \<and> set (map cfg_Name cs) \<inter> set names = {}
     \<and> distinct (all_parents cs) \<and> set (all_parents cs) \<inter> set seen = {}"
proof (induction cs arbitrary: names seen)
  case (Cons c cs)
  let ?ids = "map pc_ID (cfg_Filesystems c)"
  have "all_parents (c # cs) = ?ids @ all_parents cs" by (simp add: all_parents_def)
  then show ?case by (auto simp: Cons.IH parent_pools_loop_iff)
qed (simp add: all_parents_def)

text \<open>
  Parents are exclusive across the installation. A configuration validates exactly when it is
  not empty, every pool validates, no two pools share a name and no parent filesystem is listed
  twice in any pools; \<^verbatim>\<open>ParentIDs\<close> of any configuration is the sorted list of its parents without
  repetition.
\<close>

theorem ValidateConfigs_exclusive:
  "(ValidateConfigs cs = None \<longleftrightarrow>
      cs \<noteq> [] \<and> (\<forall>c \<in> set cs. Config_Validate c = None) \<and> distinct (map cfg_Name cs) \<and> distinct (all_parents cs))
   \<and> sorted (ParentIDs cs) \<and> distinct (ParentIDs cs) \<and> set (ParentIDs cs) = set (all_parents cs)"
  by (auto simp: ValidateConfigs_def configs_loop_iff ParentIDs_def all_parents_def distinct_remdups_adj_sorted
      sorted_remdups_adj)

section \<open>Size histories\<close>

lemma observe_step:
  assumes "Observe s ob = (s', r)"
  shows "sn_AcceptedSizeBytes s \<le> sn_AcceptedSizeBytes s'"
    and "sn_AcceptedSizeBytes s \<noteq> 0 \<Longrightarrow> sn_ObservedAt s \<le> sn_ObservedAt s'"
    and "r = Inr t \<Longrightarrow> t = s' \<and> sn_ObservedSizeBytes s' = ob_SizeBytes ob"
    and "r = Inl e \<Longrightarrow> s' = s"
  using assms by (auto simp: Observe_def Let_def split: if_splits)

text \<open>A snapshot that came out of the tracker.\<close>

definition snapshot_ok :: "ParentMetadataSnapshot \<Rightarrow> bool" where
  "snapshot_ok s \<longleftrightarrow> s = zero_snapshot \<or>
     (0 < sn_ObservedSizeBytes s \<and> 0 < sn_AcceptedSizeBytes s \<and> sn_ObservedSizeBytes s \<le> sn_AcceptedSizeBytes s
      \<and> sn_PreviousSizeBytes s \<le> sn_AcceptedSizeBytes s
      \<and> sn_Condition s = (if sn_ObservedSizeBytes s = sn_AcceptedSizeBytes s then ParentConditionHealthy
                          else ParentConditionCriticalSizeRegression))"

lemma observe_ok: "snapshot_ok s \<Longrightarrow> Observe s ob = (s', r) \<Longrightarrow> snapshot_ok s'"
  by (auto simp: Observe_def Let_def snapshot_ok_def zero_snapshot_def word_gt_0 split: if_splits)

fun observe_all :: "ParentMetadataSnapshot \<Rightarrow> ParentMetadataObservation list \<Rightarrow> ParentMetadataSnapshot" where
  "observe_all s [] = s"
| "observe_all s (ob # obs) = observe_all (fst (Observe s ob)) obs"

lemma observe_all_ok: "snapshot_ok s \<Longrightarrow> snapshot_ok (observe_all s obs)"
proof (induction obs arbitrary: s)
  case (Cons ob obs)
  then show ?case using observe_ok [of s ob] by (cases "Observe s ob") auto
qed simp

lemma observe_all_mono: "sn_AcceptedSizeBytes s \<le> sn_AcceptedSizeBytes (observe_all s obs)"
proof (induction obs arbitrary: s)
  case (Cons ob obs)
  then show ?case using observe_step(1) [of s ob] by (cases "Observe s ob") (auto intro: order.trans)
qed simp

lemma placement_iff:
  "snapshot_ok s \<Longrightarrow> PlacementAllowed s \<longleftrightarrow> 0 < sn_AcceptedSizeBytes s \<and> sn_ObservedSizeBytes s = sn_AcceptedSizeBytes s"
  by (auto simp: snapshot_ok_def PlacementAllowed_def zero_snapshot_def ParentConditionHealthy_def
      ParentConditionCriticalSizeRegression_def)

text \<open>
  A shrunken parent never drives placement. From the zero tracker through any observations,
  the accepted size never decreases, and placement is allowed exactly when the last accepted
  observation equals the accepted size; so after a smaller size was observed, placement stays
  forbidden until the parent is seen again at its old size or larger.
\<close>

theorem parent_size_monotone:
  "sn_AcceptedSizeBytes (observe_all zero_snapshot obs) \<le> sn_AcceptedSizeBytes (observe_all zero_snapshot (obs @ later))
   \<and> (PlacementAllowed (observe_all zero_snapshot obs) \<longleftrightarrow>
        0 < sn_AcceptedSizeBytes (observe_all zero_snapshot obs)
        \<and> sn_ObservedSizeBytes (observe_all zero_snapshot obs) = sn_AcceptedSizeBytes (observe_all zero_snapshot obs))
   \<and> sn_ObservedSizeBytes (observe_all zero_snapshot obs) \<le> sn_AcceptedSizeBytes (observe_all zero_snapshot obs)"
proof -
  have app: "observe_all s (obs @ later) = observe_all (observe_all s obs) later" for s
    by (induction obs arbitrary: s) simp_all
  have ok: "snapshot_ok (observe_all zero_snapshot obs)"
    by (rule observe_all_ok) (simp add: snapshot_ok_def)
  then have "sn_ObservedSizeBytes (observe_all zero_snapshot obs) \<le> sn_AcceptedSizeBytes (observe_all zero_snapshot obs)"
    by (auto simp: snapshot_ok_def zero_snapshot_def)
  with placement_iff [OF ok] observe_all_mono show ?thesis by (simp add: app)
qed

end
