(* ===== verification/Decommission.thy ===== *)
theory Decommission
  imports Pairing PoolConfig
begin

text \<open>
  \<^verbatim>\<open>pkg/pool/decommission.go\<close>: the proof that a draining parent holds nothing but paired tombstones.
  The diagnostics quote identifiers with the verb \<open>%q\<close>; the quoting function is the parameter \<open>quote\<close>
  of the definitions, and every theorem holds for each choice of it. The Go maps keyed by logical
  identifier are association lists, newest entry first.
\<close>

record DecommissionReferences =
  dr_PersistentVolumes :: "string list"
  dr_VolumeAttachments :: "string list"
  dr_StagingMountPaths :: "string list"
  dr_WorkloadTargetPaths :: "string list"
  dr_ChildBindMountPaths :: "string list"

record DecommissionRecordSnapshot =
  ds_ParentFilesystemID :: string
  ds_ParentState :: string
  ds_Allocations :: "AllocationRecord option list"
  ds_Ownerships :: "OwnershipRecord option list"
  ds_References :: DecommissionReferences

fun allocationParentID :: "AllocationRecord \<Rightarrow> string" where
  "allocationParentID (DetailedA r) = a_ParentFilesystemID r"
| "allocationParentID (CompactA r) = ca_ParentFilesystemID r"
| "allocationParentID (UnknownA r) = []"

fun ownershipParentID :: "OwnershipRecord \<Rightarrow> string" where
  "ownershipParentID (DetailedO r) = o_ParentFilesystemID r"
| "ownershipParentID (CompactO r) = co_ParentFilesystemID r"

definition reference_ok :: "string \<Rightarrow> bool" where
  "reference_ok v \<longleftrightarrow> \<not> (v = [] \<or> length v > 512 \<or> \<not> valid_string v \<or> contains_any v [CHR 0x00, CHR 0x0D, CHR 0x0A])"

definition reference_kinds :: "DecommissionReferences \<Rightarrow> (string \<times> string list) list" where
  "reference_kinds references =
     [(''PersistentVolume'', dr_PersistentVolumes references), (''VolumeAttachment'', dr_VolumeAttachments references),
      (''staging mount'', dr_StagingMountPaths references), (''workload target'', dr_WorkloadTargetPaths references),
      (''child bind mount'', dr_ChildBindMountPaths references)]"

definition decommissionReferenceBlockers :: "(string \<Rightarrow> string) \<Rightarrow> DecommissionReferences \<Rightarrow> string list res" where
  "decommissionReferenceBlockers quote references =
     require (errs (concat (map (\<lambda>(kind, vs). map (\<lambda>v.
         ensure (reference_ok v) ''decommission identity is not bounded single-line UTF-8'') vs) (reference_kinds references))))
     (Inr (sort (concat (map (\<lambda>(kind, vs). map (\<lambda>v. kind @ '' '' @ quote v) vs) (reference_kinds references)))))"

section \<open>Allocations of the parent\<close>

type_synonym allocation_scan = "string list \<times> (string \<times> AllocationRecord) list \<times> string list"

text \<open>The \<^verbatim>\<open>switch\<close> over one allocation of the parent: the blockers it adds and whether it is blocked.\<close>

fun parent_allocation :: "(string \<Rightarrow> string) \<Rightarrow> AllocationRecord \<Rightarrow> (string list \<times> bool) res" where
  "parent_allocation quote (DetailedA r) =
     (if a_State r \<noteq> StateDeleted \<or> a_ReservesCapacity r then
        Inr ([''allocation '' @ quote (a_LogicalVolumeID r) @ '' in state '' @ quote (a_State r)], True)
      else if slice_len (a_PublishedNodeIDs r) \<noteq> 0 then
        Inr (map (\<lambda>nodeID. ''published-node fence for allocation '' @ quote (a_LogicalVolumeID r) @ '' on node ''
                    @ quote nodeID) (case a_PublishedNodeIDs r of None \<Rightarrow> [] | Some ns \<Rightarrow> ns), True)
      else and_then (wrap_res ''parent allocation terminal projection'' (CompactDeletedProjection (Some r)))
             (\<lambda>_. Inr ([], False)))"
| "parent_allocation quote (CompactA r) =
     (if ca_State r \<noteq> StateDeleted \<or> ca_ReservesCapacity r
      then Inl (errorf ''parent allocation is not a non-reserving Deleted tombstone'') else Inr ([], False))"
| "parent_allocation quote (UnknownA r) = Inl (errorf ''parent allocation has unsupported kind'')"

fun allocations_loop ::
  "(string \<Rightarrow> string) \<Rightarrow> string \<Rightarrow> string list \<Rightarrow> allocation_scan \<Rightarrow> AllocationRecord option list \<Rightarrow> allocation_scan res" where
  "allocations_loop quote parent seen scanned [] = Inr scanned"
| "allocations_loop quote parent seen scanned (None # rest) = Inl (errorf ''decommission allocation is nil'')"
| "allocations_loop quote parent seen (blockers, allocations, blocked) (Some allocation # rest) =
     require (errs
       [wrap_err ''decommission allocation'' (Allocation_Validate allocation),
        ensure (Allocation_LogicalID allocation \<notin> set seen) ''decommission allocation is duplicated''])
     (let ident = Allocation_LogicalID allocation
      in if allocationParentID allocation = parent then
           and_then (parent_allocation quote allocation) (\<lambda>(new, isBlocked).
             allocations_loop quote parent (ident # seen)
               (blockers @ new, (ident, allocation) # allocations, if isBlocked then ident # blocked else blocked) rest)
         else allocations_loop quote parent (ident # seen) (blockers, allocations, blocked) rest)"

section \<open>Ownerships of the parent\<close>

text \<open>The projection a compact ownership record is paired with; \<open>None\<close> means the record is skipped.\<close>

fun paired_projection :: "string list \<Rightarrow> AllocationRecord \<Rightarrow> CompactDeletedAllocationRecord option res" where
  "paired_projection blocked (CompactA r) = Inr (Some r)"
| "paired_projection blocked (DetailedA r) =
     (case CompactDeletedProjection (Some r) of
        Inr p \<Rightarrow> Inr (Some p)
      | Inl e \<Rightarrow> if a_LogicalVolumeID r \<in> set blocked then Inr None else Inl e)"
| "paired_projection blocked (UnknownA r) = Inl (errorf ''allocation cannot pair with compact ownership'')"

type_synonym ownership_scan = "string list \<times> string list \<times> string list"

fun ownerships_loop ::
  "(string \<Rightarrow> string) \<Rightarrow> string \<Rightarrow> (string \<times> AllocationRecord) list \<Rightarrow> string list \<Rightarrow> string list \<Rightarrow> ownership_scan
   \<Rightarrow> OwnershipRecord option list \<Rightarrow> ownership_scan res" where
  "ownerships_loop quote parent allocations blocked seen scanned [] = Inr scanned"
| "ownerships_loop quote parent allocations blocked seen scanned (None # rest) =
     Inl (errorf ''decommission ownership is nil'')"
| "ownerships_loop quote parent allocations blocked seen (blockers, paired, detailed) (Some ownership # rest) =
     require (errs
       [wrap_err ''decommission ownership'' (Ownership_Validate ownership),
        ensure (ownershipParentID ownership = parent) ''decommission ownership belongs to another parent'',
        ensure (Ownership_LogicalID ownership \<notin> set seen) ''decommission ownership is duplicated''])
     (let ident = Ownership_LogicalID ownership
      in case ownership of
           DetailedO r \<Rightarrow>
             ownerships_loop quote parent allocations blocked (ident # seen)
               (blockers @ [''live detailed ownership '' @ quote ident], paired, ident # detailed) rest
         | CompactO compactRecord \<Rightarrow>
             if co_LogicalVolumeID compactRecord \<in> set paired then Inl (errorf ''decommission ownership is duplicated'')
             else (case map_of allocations (co_LogicalVolumeID compactRecord) of
                None \<Rightarrow> Inl (errorf ''compact ownership has no allocation tombstone'')
              | Some allocation \<Rightarrow>
                  and_then (paired_projection blocked allocation) (\<lambda>projection.
                    case projection of
                      None \<Rightarrow> ownerships_loop quote parent allocations blocked (ident # seen)
                                (blockers, paired, detailed) rest
                    | Some p \<Rightarrow>
                        require (wrap_err ''decommission tombstone pair'' (ValidateCompactPair (Some p) (Some compactRecord)))
                        (ownerships_loop quote parent allocations blocked (ident # seen)
                           (blockers, co_LogicalVolumeID compactRecord # paired, detailed) rest))))"

definition DecommissionRecordBlockers :: "(string \<Rightarrow> string) \<Rightarrow> DecommissionRecordSnapshot \<Rightarrow> string list res" where
  "DecommissionRecordBlockers quote snapshot =
     require (errs
       [ValidateParentFilesystemID (ds_ParentFilesystemID snapshot),
        ensure (ds_ParentState snapshot = ParentDraining) ''parent must be draining before offline decommission''])
     (and_then (decommissionReferenceBlockers quote (ds_References snapshot)) (\<lambda>references.
        and_then (allocations_loop quote (ds_ParentFilesystemID snapshot) [] (references, [], []) (ds_Allocations snapshot))
          (\<lambda>(blockers, allocations, blocked).
             and_then (ownerships_loop quote (ds_ParentFilesystemID snapshot) allocations blocked [] (blockers, [], [])
                 (ds_Ownerships snapshot))
               (\<lambda>(blockers', paired, detailed).
                  require (errs (map (\<lambda>(ident, allocation).
                      ensure (ident \<in> set paired \<or> ident \<in> set blocked \<or> ident \<in> set detailed)
                        ''allocation tombstone has no compact ownership pair'') allocations))
                    (Inr (sort blockers'))))))"

definition ValidateDecommissionRecords :: "(string \<Rightarrow> string) \<Rightarrow> DecommissionRecordSnapshot \<Rightarrow> error option" where
  "ValidateDecommissionRecords quote snapshot =
     and_check (DecommissionRecordBlockers quote snapshot)
       (\<lambda>blockers. ensure (blockers = []) ''parent has decommission blocker(s)'')"

record DecommissionOfflineEvidence =
  de_DriverProcessesStopped :: bool
  de_InventoryFresh :: bool
  de_ControllerMountPaths :: "string list"
  de_NodeMountPaths :: "string list"
  de_ChildBindMountPaths :: "string list"
  de_RegionalAttachmentIDs :: "string list"
  de_InstanceAttachmentIDs :: "string list"

definition ValidateDecommissionOfflineEvidence :: "DecommissionOfflineEvidence \<Rightarrow> error option" where
  "ValidateDecommissionOfflineEvidence evidence = errs
     ([ensure (de_DriverProcessesStopped evidence) ''driver processes are not conclusively stopped'',
       ensure (de_InventoryFresh evidence) ''provider attachment inventories are not fresh and complete'']
      @ map (\<lambda>vs. ensure (vs = []) ''offline decommission still has an attachment or mount'')
          [de_ControllerMountPaths evidence, de_NodeMountPaths evidence, de_ChildBindMountPaths evidence,
           de_RegionalAttachmentIDs evidence, de_InstanceAttachmentIDs evidence])"

section \<open>Soundness\<close>

lemma reference_blockers_empty:
  "decommissionReferenceBlockers quote refs = Inr [] \<Longrightarrow> \<forall>(kind, vs) \<in> set (reference_kinds refs). vs = []"
  by (auto simp: decommissionReferenceBlockers_def sort_Nil_iff)

text \<open>An allocation whose scan adds no blocker.\<close>

definition terminal_allocation :: "AllocationRecord \<Rightarrow> CompactDeletedAllocationRecord \<Rightarrow> bool" where
  "terminal_allocation a p \<longleftrightarrow>
     (case a of DetailedA r \<Rightarrow> CompactDeletedProjection (Some r) = Inr p | CompactA c \<Rightarrow> p = c | UnknownA u \<Rightarrow> False)"

lemma parent_allocation_quiet:
  "parent_allocation quote a = Inr ([], b) \<Longrightarrow> \<not> b \<and> (\<exists>p. terminal_allocation a p)"
  by (cases a) (auto simp: terminal_allocation_def slice_len_def split: if_splits option.splits)

lemma allocations_loop_quiet:
  assumes "allocations_loop quote parent seen (bl, al, bk) as = Inr ([], al', bk')"
  shows "bl = [] \<and> bk' = bk \<and> (\<exists>new. al' = new @ al
     \<and> (\<forall>i a. (i, a) \<in> set new \<longleftrightarrow> Some a \<in> set as \<and> i = Allocation_LogicalID a \<and> allocationParentID a = parent)
     \<and> (\<forall>i a. (i, a) \<in> set new \<longrightarrow> (\<exists>p. terminal_allocation a p))
     \<and> distinct (map fst new) \<and> set (map fst new) \<inter> set seen = {})"
  using assms
proof (induction "as" arbitrary: seen bl al bk)
  case Nil
  then show ?case by auto
next
  case (Cons x xs)
  from Cons.prems obtain a where x: "x = Some a" by (cases x) auto
  let ?i = "Allocation_LogicalID a"
  from Cons.prems x have fresh: "?i \<notin> set seen" by (simp add: Let_def)
  show ?case
  proof (cases "allocationParentID a = parent")
    case True
    with Cons.prems x obtain added b where p: "parent_allocation quote a = Inr (added, b)"
      and run: "allocations_loop quote parent (?i # seen) (bl @ added, (?i, a) # al, if b then ?i # bk else bk) xs
        = Inr ([], al', bk')"
      by (auto simp: Let_def)
    from Cons.IH [OF run] obtain new where new: "bl = []" "added = []" "bk' = (if b then ?i # bk else bk)"
      "al' = new @ (?i, a) # al"
      "\<forall>j c. (j, c) \<in> set new \<longleftrightarrow> Some c \<in> set xs \<and> j = Allocation_LogicalID c \<and> allocationParentID c = parent"
      "\<forall>j c. (j, c) \<in> set new \<longrightarrow> (\<exists>p. terminal_allocation c p)"
      "distinct (map fst new)" "set (map fst new) \<inter> set (?i # seen) = {}" by auto
    with p parent_allocation_quiet [of quote a b] have t: "\<not> b" "\<exists>p. terminal_allocation a p" by auto
    with new fresh True x show ?thesis
      by (intro conjI exI [of _ "new @ [(?i, a)]"]) auto
  next
    case False
    with Cons.prems x have run: "allocations_loop quote parent (?i # seen) (bl, al, bk) xs = Inr ([], al', bk')"
      by (simp add: Let_def)
    from Cons.IH [OF run] False x show ?thesis by auto
  qed
qed

lemma ownerships_loop_blockers:
  "ownerships_loop quote parent al bk seen (bl, paired, det) os = Inr ([], paired', det') \<Longrightarrow> bl = []"
proof (induction os arbitrary: seen bl paired det)
  case (Cons x xs)
  then obtain own where x: "x = Some own" by (cases x) auto
  show ?case
  proof (cases own)
    case (DetailedO r)
    with Cons.prems x obtain b where
      "ownerships_loop quote parent al bk (Ownership_LogicalID own # seen) (bl @ [b], paired, Ownership_LogicalID own # det) xs
       = Inr ([], paired', det')" by (auto simp: Let_def)
    from Cons.IH [OF this] show ?thesis by simp
  next
    case (CompactO c)
    with Cons.prems Cons.IH x show ?thesis by (auto simp: Let_def split: option.splits if_splits)
  qed
qed simp

text \<open>What a run over the ownership records that adds no blocker has established.\<close>

lemma ownerships_loop_quiet:
  assumes "ownerships_loop quote parent al [] seen (bl, paired, det) os = Inr ([], paired', det')"
  shows "bl = [] \<and> det' = det
     \<and> (\<forall>i \<in> set paired' - set paired. \<exists>c a p. Some (CompactO c) \<in> set os \<and> co_LogicalVolumeID c = i
          \<and> map_of al i = Some a \<and> terminal_allocation a p \<and> ValidateCompactPair (Some p) (Some c) = None)
     \<and> (\<forall>own. Some own \<in> set os \<longrightarrow> (\<exists>c a p. own = CompactO c
          \<and> map_of al (co_LogicalVolumeID c) = Some a \<and> terminal_allocation a p
          \<and> ValidateCompactPair (Some p) (Some c) = None))
     \<and> set paired \<subseteq> set paired'"
  using assms
proof (induction os arbitrary: seen bl paired det)
  case Nil
  then show ?case by simp
next
  case (Cons x xs)
  from Cons.prems obtain own where x: "x = Some own" by (cases x) auto
  show ?case
  proof (cases own)
    case (DetailedO r)
    with Cons.prems x obtain b where
      "ownerships_loop quote parent al [] (Ownership_LogicalID own # seen) (bl @ [b], paired, Ownership_LogicalID own # det) xs
       = Inr ([], paired', det')" by (auto simp: Let_def)
    from Cons.IH [OF this] show ?thesis by simp
  next
    case (CompactO c)
    let ?i = "co_LogicalVolumeID c"
    from Cons.prems x CompactO obtain a pr where a: "map_of al ?i = Some a" and pr: "paired_projection [] a = Inr pr"
      and rest: "(case pr of None \<Rightarrow> ownerships_loop quote parent al [] (?i # seen) (bl, paired, det) xs
        | Some p \<Rightarrow> require (wrap_err ''decommission tombstone pair'' (ValidateCompactPair (Some p) (Some c)))
            (ownerships_loop quote parent al [] (?i # seen) (bl, ?i # paired, det) xs)) = Inr ([], paired', det')"
      by (cases "map_of al ?i") (auto simp: Let_def split: if_splits)
    have "pr \<noteq> None" using pr by (cases a) (auto split: sum.splits)
    with rest obtain p where p: "paired_projection [] a = Inr (Some p)"
      and pair: "ValidateCompactPair (Some p) (Some c) = None"
      and run: "ownerships_loop quote parent al [] (?i # seen) (bl, ?i # paired, det) xs = Inr ([], paired', det')"
      using pr by auto
    have "terminal_allocation a p"
      using p by (cases a) (auto simp: terminal_allocation_def split: sum.splits)
    note step = this Cons.IH [OF run] a pair x CompactO
    have "\<exists>c a p. Some (CompactO c) \<in> set (x # xs) \<and> co_LogicalVolumeID c = i
          \<and> map_of al i = Some a \<and> terminal_allocation a p \<and> ValidateCompactPair (Some p) (Some c) = None"
      if "i \<in> set paired' - set paired" for i
    proof (cases "i = ?i")
      case True
      then show ?thesis using step by (intro exI [of _ c] exI [of _ a] exI [of _ p]) simp
    next
      case False
      with that have "i \<in> set paired' - set (?i # paired)" by simp
      then show ?thesis using step(2) by fastforce
    qed
    with step show ?thesis by auto
  qed
qed

text \<open>
  (C27) A parent is released only when nothing but paired tombstones is left. If the decommission
  check passes, the parent is draining, no volume, attachment or mount refers to it, every
  allocation placed on it is a deleted record whose compact form pairs with a compact ownership
  record found on the parent, and every ownership record found there is such a tombstone.
\<close>

theorem decommission_sound:
  assumes "ValidateDecommissionRecords quote snapshot = None"
  shows "ds_ParentState snapshot = ParentDraining
    \<and> (\<forall>(kind, vs) \<in> set (reference_kinds (ds_References snapshot)). vs = [])
    \<and> (\<forall>a. Some a \<in> set (ds_Allocations snapshot) \<and> allocationParentID a = ds_ParentFilesystemID snapshot \<longrightarrow>
         (\<exists>c p. Some (CompactO c) \<in> set (ds_Ownerships snapshot) \<and> terminal_allocation a p
            \<and> ValidateCompactPair (Some p) (Some c) = None))
    \<and> (\<forall>own. Some own \<in> set (ds_Ownerships snapshot) \<longrightarrow>
         (\<exists>c a p. own = CompactO c \<and> Some a \<in> set (ds_Allocations snapshot) \<and> terminal_allocation a p
            \<and> ValidateCompactPair (Some p) (Some c) = None))"
proof -
  let ?P = "ds_ParentFilesystemID snapshot"
  from assms obtain refs bl al bk paired det where
    state: "ds_ParentState snapshot = ParentDraining"
    and refs: "decommissionReferenceBlockers quote (ds_References snapshot) = Inr refs"
    and run1: "allocations_loop quote ?P [] (refs, [], []) (ds_Allocations snapshot) = Inr (bl, al, bk)"
    and run2: "ownerships_loop quote ?P al bk [] (bl, [], []) (ds_Ownerships snapshot) = Inr ([], paired, det)"
    and closed: "\<forall>i a. (i, a) \<in> set al \<longrightarrow> i \<in> set paired \<or> i \<in> set bk \<or> i \<in> set det"
    by (auto simp: ValidateDecommissionRecords_def DecommissionRecordBlockers_def sort_Nil_iff split: prod.splits) blast
  have bl: "bl = []" by (rule ownerships_loop_blockers [OF run2])
  from allocations_loop_quiet [OF run1 [unfolded bl]] have refs0: "refs = []" and bk: "bk = []"
    and al: "\<And>i a. (i, a) \<in> set al \<longleftrightarrow>
        Some a \<in> set (ds_Allocations snapshot) \<and> i = Allocation_LogicalID a \<and> allocationParentID a = ?P"
    and dist: "distinct (map fst al)" by auto
  note own = ownerships_loop_quiet [OF run2 [unfolded bk]]
  have tomb: "\<exists>c p. Some (CompactO c) \<in> set (ds_Ownerships snapshot) \<and> terminal_allocation a p
      \<and> ValidateCompactPair (Some p) (Some c) = None"
    if "Some a \<in> set (ds_Allocations snapshot)" "allocationParentID a = ?P" for a
  proof -
    have mem: "(Allocation_LogicalID a, a) \<in> set al" using that al by blast
    then have "map_of al (Allocation_LogicalID a) = Some a" using dist by (simp add: map_of_is_SomeI)
    moreover have "Allocation_LogicalID a \<in> set paired" using closed mem bk own by auto
    ultimately show ?thesis using own by fastforce
  qed
  have "\<exists>c a p. own = CompactO c \<and> Some a \<in> set (ds_Allocations snapshot) \<and> terminal_allocation a p
            \<and> ValidateCompactPair (Some p) (Some c) = None" if "Some own \<in> set (ds_Ownerships snapshot)" for own
  proof -
    from own that obtain c a p where "own = CompactO c" "map_of al (co_LogicalVolumeID c) = Some a"
      "terminal_allocation a p" "ValidateCompactPair (Some p) (Some c) = None" by blast
    moreover from this(2) have "Some a \<in> set (ds_Allocations snapshot)" using al map_of_SomeD by metis
    ultimately show ?thesis by blast
  qed
  then show ?thesis using tomb state reference_blockers_empty refs refs0 by blast
qed


definition sample_decommission :: DecommissionRecordSnapshot where
  "sample_decommission = \<lparr>ds_ParentFilesystemID = ''fs-1'', ds_ParentState = ParentDraining,
     ds_Allocations = [Some (CompactA sample_tombstone)], ds_Ownerships = [Some (CompactO sample_tombstone_ownership)],
     ds_References = \<lparr>dr_PersistentVolumes = [], dr_VolumeAttachments = [], dr_StagingMountPaths = [],
       dr_WorkloadTargetPaths = [], dr_ChildBindMountPaths = []\<rparr>\<rparr>"

lemma sample_tombstone_pair: "ValidateCompactPair (Some sample_tombstone) (Some sample_tombstone_ownership) = None"
proof -
  have "ca_State sample_tombstone = StateDeleted" using valid_compact_state [OF sample_tombstone_ok] by simp
  then show ?thesis
    using sample_tombstone_ok sample_tombstone_ownership_ok
    by (simp add: compact_pair_iff compact_pair_identity_def sample_tombstone_ownership_def tombstone_payload_def)
qed

lemma sample_tombstone_parent:
  "ca_ParentFilesystemID sample_tombstone = ''fs-1''" "co_ParentFilesystemID sample_tombstone_ownership = ''fs-1''"
  "co_LogicalVolumeID sample_tombstone_ownership = ca_LogicalVolumeID sample_tombstone"
  by (simp_all add: sample_tombstone_ownership_def tombstone_payload_def)
    (simp_all add: sample_tombstone_def compact_projection_def sample_deleted_def sample_archived_def sample_deleting_def
      sample_allocation_def)

lemma sample_decommission_ok: "ValidateDecommissionRecords quote sample_decommission = None"
proof -
  have "ValidateParentFilesystemID ''fs-1'' = None"
    using sample_mapping_ok by (simp add: Mapping_Validate_def sample_mapping_def)
  then show ?thesis
    using sample_tombstone_pair sample_tombstone_ok sample_tombstone_ownership_ok valid_compact_state [OF sample_tombstone_ok]
    by (simp add: ValidateDecommissionRecords_def DecommissionRecordBlockers_def sample_decommission_def
        decommissionReferenceBlockers_def reference_kinds_def sample_tombstone_parent ensure_def)
qed

theorem decommission_sound_witness:
  "\<exists>c p. Some (CompactO c) \<in> set (ds_Ownerships sample_decommission)
     \<and> terminal_allocation (CompactA sample_tombstone) p \<and> ValidateCompactPair (Some p) (Some c) = None"
  using decommission_sound [OF sample_decommission_ok [of "\<lambda>s. s"]]
  by (simp add: sample_decommission_def sample_tombstone_parent)

end
