(* ===== verification/Selection.thy ===== *)
theory Selection
  imports PoolConfig Digest "HOL-Library.Multiset"
begin

text \<open>
  \<^verbatim>\<open>pkg/pool/selection.go\<close>: the placement decision. The first loop of \<^verbatim>\<open>Select\<close> is \<open>snapshot_loop\<close>, the
  second one folds \<open>select_step\<close> over the candidates with the Go variables as a \<open>tally\<close>. That the
  fold keeps a best candidate is a fact about every strict preference, stated as the locale
  \<open>strict_preference\<close> and interpreted on \<open>betterCandidate\<close>.
\<close>

section \<open>Placement\<close>

record Candidate =
  cd_Parent :: ParentConfig
  cd_Capacity :: Capacity
  cd_StatFS :: StatFSSample
  cd_StatFSFresh :: bool
  cd_ProviderAvailable :: bool
  cd_ProviderFailure :: "error option"
  cd_ProviderFailureTransient :: bool
  cd_NodeCompatible :: bool

record Selection =
  sel_Parent :: ParentConfig
  sel_Capacity :: Capacity
  sel_PhysicalSpace :: PhysicalSpace

definition zero_capacity :: Capacity where
  "zero_capacity = \<lparr>k_ObservedSizeBytes = 0, k_ReserveBytes = 0, k_UsableBytes = 0, k_LogicalCapacityBytes = 0,
     k_LogicalAllocatedBytes = 0, k_LogicalAvailableBytes = 0\<rparr>"

definition validateCandidateCapacity :: "Config \<Rightarrow> Capacity \<Rightarrow> error option" where
  "validateCandidateCapacity config capacity =
     and_check (CalculateCapacity (k_ObservedSizeBytes capacity) (cfg_MinFreeBytes config) (cfg_MinFreePercent config)
         (cfg_MaxLogicalOvercommitRatio config) [k_LogicalAllocatedBytes capacity])
       (\<lambda>want. ensure (capacity = want) ''snapshot is inconsistent with configured exact accounting'')"

definition tie_hash :: "string \<Rightarrow> string \<Rightarrow> u8 list" where
  "tie_hash requestName parentID = sha256 (requestName @ [CHR 0x00] @ parentID)"

definition betterCandidate :: "string \<Rightarrow> Selection \<Rightarrow> Selection \<Rightarrow> bool" where
  "betterCandidate requestName candidate current \<longleftrightarrow>
     (if k_LogicalAvailableBytes (sel_Capacity candidate) \<noteq> k_LogicalAvailableBytes (sel_Capacity current)
      then k_LogicalAvailableBytes (sel_Capacity candidate) > k_LogicalAvailableBytes (sel_Capacity current)
      else tie_hash requestName (pc_ID (sel_Parent candidate)) < tie_hash requestName (pc_ID (sel_Parent current)))"

text \<open>The map \<^verbatim>\<open>configured\<close>: a later parent with the same identifier overwrites an earlier one.\<close>

definition configured :: "Config \<Rightarrow> string \<rightharpoonup> ParentConfig" where
  "configured config = map_of (rev (map (\<lambda>parent. (pc_ID parent, parent)) (cfg_Filesystems config)))"

definition candidate_check :: "Config \<Rightarrow> Candidate \<Rightarrow> ParentConfig \<Rightarrow> error option" where
  "candidate_check config candidate configuredParent = errs
     [ensure (pc_State (cd_Parent candidate) = pc_State configuredParent)
        ''placement candidate parent state differs from configured state'',
      (if k_ObservedSizeBytes (cd_Capacity candidate) = 0 then errs
         [ensure (\<not> cd_ProviderAvailable candidate) ''placement candidate parent is available without known capacity'',
          ensure (cd_Capacity candidate = zero_capacity)
            ''placement candidate parent has a partial unknown capacity snapshot'']
       else wrap_err ''placement candidate parent capacity'' (validateCandidateCapacity config (cd_Capacity candidate)))]"

fun snapshot_loop :: "Config \<Rightarrow> string list \<Rightarrow> Candidate list \<Rightarrow> string list res" where
  "snapshot_loop config seen [] = Inr seen"
| "snapshot_loop config seen (candidate # rest) =
     (case configured config (pc_ID (cd_Parent candidate)) of
        None \<Rightarrow> Inl (errorf ''placement candidate parent is not configured'')
      | Some configuredParent \<Rightarrow>
          require (errs
            [ensure (pc_ID (cd_Parent candidate) \<notin> set seen) ''placement candidate parent is duplicated'',
             candidate_check config candidate configuredParent])
          (snapshot_loop config (pc_ID (cd_Parent candidate) # seen) rest))"

record tally =
  t_logicalCandidates :: nat
  t_physicalFailures :: nat
  t_physicalExhausted :: nat
  t_providerUnavailable :: nat
  t_providerTerminal :: "error option"
  t_nodeIncompatible :: nat
  t_selected :: "Selection option"

definition zero_tally :: tally where
  "zero_tally = \<lparr>t_logicalCandidates = 0, t_physicalFailures = 0, t_physicalExhausted = 0, t_providerUnavailable = 0,
     t_providerTerminal = None, t_nodeIncompatible = 0, t_selected = None\<rparr>"

definition count_unavailable :: "Candidate \<Rightarrow> tally \<Rightarrow> tally" where
  "count_unavailable candidate t =
     (if cd_ProviderFailure candidate = None \<or> cd_ProviderFailureTransient candidate
      then t\<lparr>t_providerUnavailable := t_providerUnavailable t + 1\<rparr>
      else if t_providerTerminal t = None then t\<lparr>t_providerTerminal := cd_ProviderFailure candidate\<rparr>
      else t)"

definition keep_better :: "('a \<Rightarrow> 'a \<Rightarrow> bool) \<Rightarrow> 'a option \<Rightarrow> 'a \<Rightarrow> 'a option" where
  "keep_better better selected current =
     (case selected of None \<Rightarrow> Some current | Some best \<Rightarrow> if better current best then Some current else Some best)"

definition select_step :: "Config \<Rightarrow> string \<Rightarrow> u64 \<Rightarrow> tally \<Rightarrow> Candidate \<Rightarrow> tally" where
  "select_step config requestName requested t candidate =
     (case configured config (pc_ID (cd_Parent candidate)) of
        None \<Rightarrow> t
      | Some configuredParent \<Rightarrow>
          if pc_State configuredParent \<noteq> ParentActive \<or> pc_State (cd_Parent candidate) \<noteq> ParentActive then t
          else if k_ObservedSizeBytes (cd_Capacity candidate) = 0 then count_unavailable candidate t
          else if \<not> cd_ProviderAvailable candidate then count_unavailable candidate t
          else if k_LogicalAvailableBytes (cd_Capacity candidate) < requested then t
          else if \<not> cd_NodeCompatible candidate then t\<lparr>t_nodeIncompatible := t_nodeIncompatible t + 1\<rparr>
          else
            (let t' = t\<lparr>t_logicalCandidates := t_logicalCandidates t + 1\<rparr>
             in if \<not> cd_StatFSFresh candidate then t'\<lparr>t_physicalFailures := t_physicalFailures t' + 1\<rparr>
                else
                  (case CheckPhysicalSpace (cd_StatFS candidate) (k_ObservedSizeBytes (cd_Capacity candidate)) requested
                          (cfg_MinFreeBytes config) (cfg_MinFreePercent config) of
                     Inl err \<Rightarrow>
                       if errors_is err ErrInsufficientPhysicalSpace
                       then t'\<lparr>t_physicalExhausted := t_physicalExhausted t' + 1\<rparr>
                       else t'\<lparr>t_physicalFailures := t_physicalFailures t' + 1\<rparr>
                   | Inr physical \<Rightarrow>
                       t'\<lparr>t_selected := keep_better (betterCandidate requestName) (t_selected t')
                            \<lparr>sel_Parent = configuredParent, sel_Capacity = cd_Capacity candidate,
                              sel_PhysicalSpace = physical\<rparr>\<rparr>)))"

definition sentinel_error :: "sentinel \<Rightarrow> error" where
  "sentinel_error s = Errorf [] [s]"

definition select_result :: "tally \<Rightarrow> Selection res" where
  "select_result t =
     (case t_selected t of
        Some selected \<Rightarrow> Inr selected
      | None \<Rightarrow>
          if t_providerUnavailable t > 0 then Inl (sentinel_error ErrParentInventoryUnavailable)
          else (case t_providerTerminal t of
             Some terminal \<Rightarrow> Inl terminal
           | None \<Rightarrow>
               if t_nodeIncompatible t > 0 then Inl (sentinel_error ErrNoNodeCompatibleParent)
               else if t_logicalCandidates t > 0 \<and> t_physicalFailures t > 0
                       \<and> t_physicalFailures t + t_physicalExhausted t = t_logicalCandidates t
                    then Inl (sentinel_error ErrNoFreshPhysicalSpace)
               else if t_logicalCandidates t > 0 \<and> t_physicalExhausted t = t_logicalCandidates t
                    then Inl (sentinel_error ErrPhysicalCapacityExhausted)
               else Inl (sentinel_error ErrNoLogicalCapacity)))"

definition Select :: "Config \<Rightarrow> string \<Rightarrow> u64 \<Rightarrow> Candidate list \<Rightarrow> Selection res" where
  "Select config requestName requested candidates =
     require (errs
       [Config_Validate config,
        ensure (requestName \<noteq> []) ''request name is empty'',
        ensure (requested \<noteq> 0) ''requested capacity must be greater than zero'',
        and_check (snapshot_loop config [] candidates) (\<lambda>seenCandidates.
          ensure (length seenCandidates = length (remdups (map pc_ID (cfg_Filesystems config))))
            ''placement snapshot does not contain every configured parent'')])
     (select_result (fold (\<lambda>candidate t. select_step config requestName requested t candidate) candidates zero_tally))"

section \<open>Folding a strict preference\<close>

fun pick :: "('a \<Rightarrow> 'a \<Rightarrow> bool) \<Rightarrow> 'a option \<Rightarrow> 'a list \<Rightarrow> 'a option" where
  "pick better best [] = best"
| "pick better best (x # xs) = pick better (keep_better better best x) xs"

locale strict_preference =
  fixes better :: "'a \<Rightarrow> 'a \<Rightarrow> bool"
  assumes asym: "better a b \<Longrightarrow> \<not> better b a"
    and negative_trans: "\<not> better a b \<Longrightarrow> \<not> better b c \<Longrightarrow> \<not> better a c"
begin

lemma irrefl: "\<not> better a a"
  using asym by blast

lemma pick_from_some:
  "\<exists>m. pick better (Some b) xs = Some m \<and> (m = b \<or> m \<in> set xs) \<and> \<not> better b m \<and> (\<forall>x \<in> set xs. \<not> better x m)"
proof (induction xs arbitrary: b)
  case Nil
  show ?case using irrefl by simp
next
  case (Cons x xs)
  show ?case
  proof (cases "better x b")
    case True
    obtain m where "pick better (Some x) xs = Some m" "m = x \<or> m \<in> set xs" "\<not> better x m" "\<forall>y \<in> set xs. \<not> better y m"
      using Cons.IH [of x] by blast
    moreover from this have "\<not> better b m"
      using asym [OF True] negative_trans by blast
    ultimately show ?thesis using True by (auto simp: keep_better_def)
  next
    case False
    obtain m where "pick better (Some b) xs = Some m" "m = b \<or> m \<in> set xs" "\<not> better b m" "\<forall>y \<in> set xs. \<not> better y m"
      using Cons.IH [of b] by blast
    moreover from this have "\<not> better x m"
      using False negative_trans by blast
    ultimately show ?thesis using False by (auto simp: keep_better_def)
  qed
qed

lemma pick_best:
  assumes "xs \<noteq> []"
  shows "\<exists>m. pick better None xs = Some m \<and> m \<in> set xs \<and> (\<forall>x \<in> set xs. \<not> better x m)"
  using assms pick_from_some [of "hd xs" "tl xs"] by (cases xs) (auto simp: keep_better_def irrefl)

lemma pick_unique:
  assumes "set xs = set ys" and "\<And>x y. x \<in> set xs \<Longrightarrow> y \<in> set xs \<Longrightarrow> x \<noteq> y \<Longrightarrow> better x y \<or> better y x"
  shows "pick better None xs = pick better None ys"
proof (cases "xs = []")
  case False
  with assms(1) have "ys \<noteq> []" by auto
  with False pick_best [of xs] pick_best [of ys] assms show ?thesis by metis
qed (use assms in simp)

end

lemma better_negative_trans:
  assumes "\<not> betterCandidate n a b" and "\<not> betterCandidate n b c"
  shows "\<not> betterCandidate n a c"
  using assms by (auto simp: betterCandidate_def not_less split: if_splits)

interpretation placement: strict_preference "betterCandidate n" for n
proof unfold_locales
  show "betterCandidate n a b \<Longrightarrow> \<not> betterCandidate n b a" for a b
    by (auto simp: betterCandidate_def split: if_splits)
  show "\<not> betterCandidate n a b \<Longrightarrow> \<not> betterCandidate n b c \<Longrightarrow> \<not> betterCandidate n a c" for a b c
    by (rule better_negative_trans)
qed

section \<open>What the tally counts\<close>

definition active_candidate :: "Config \<Rightarrow> Candidate \<Rightarrow> bool" where
  "active_candidate config c \<longleftrightarrow>
     (\<exists>p. configured config (pc_ID (cd_Parent c)) = Some p \<and> pc_State p = ParentActive) \<and> pc_State (cd_Parent c) = ParentActive"

definition usable_candidate :: "Config \<Rightarrow> Candidate \<Rightarrow> bool" where
  "usable_candidate config c \<longleftrightarrow>
     active_candidate config c \<and> k_ObservedSizeBytes (cd_Capacity c) \<noteq> 0 \<and> cd_ProviderAvailable c"

definition roomy_candidate :: "Config \<Rightarrow> u64 \<Rightarrow> Candidate \<Rightarrow> bool" where
  "roomy_candidate config requested c \<longleftrightarrow>
     usable_candidate config c \<and> requested \<le> k_LogicalAvailableBytes (cd_Capacity c)"

definition physical_check :: "Config \<Rightarrow> u64 \<Rightarrow> Candidate \<Rightarrow> PhysicalSpace res" where
  "physical_check config requested c =
     CheckPhysicalSpace (cd_StatFS c) (k_ObservedSizeBytes (cd_Capacity c)) requested (cfg_MinFreeBytes config)
       (cfg_MinFreePercent config)"

definition exhausted_candidate :: "Config \<Rightarrow> u64 \<Rightarrow> Candidate \<Rightarrow> bool" where
  "exhausted_candidate config requested c \<longleftrightarrow>
     cd_StatFSFresh c \<and> (case physical_check config requested c of
        Inl e \<Rightarrow> errors_is e ErrInsufficientPhysicalSpace | Inr _ \<Rightarrow> False)"

definition selection_of :: "Config \<Rightarrow> u64 \<Rightarrow> Candidate \<Rightarrow> Selection option" where
  "selection_of config requested c =
     (if roomy_candidate config requested c \<and> cd_NodeCompatible c \<and> cd_StatFSFresh c then
        (case (configured config (pc_ID (cd_Parent c)), physical_check config requested c) of
           (Some p, Inr physical) \<Rightarrow> Some \<lparr>sel_Parent = p, sel_Capacity = cd_Capacity c, sel_PhysicalSpace = physical\<rparr>
         | _ \<Rightarrow> None)
      else None)"

definition failing_candidate :: "Config \<Rightarrow> u64 \<Rightarrow> Candidate \<Rightarrow> bool" where
  "failing_candidate config requested c \<longleftrightarrow>
     roomy_candidate config requested c \<and> cd_NodeCompatible c
     \<and> selection_of config requested c = None \<and> \<not> exhausted_candidate config requested c"

lemmas candidate_defs = active_candidate_def usable_candidate_def roomy_candidate_def physical_check_def
  exhausted_candidate_def selection_of_def failing_candidate_def

definition failure_is :: "bool \<Rightarrow> Candidate \<Rightarrow> bool" where
  "failure_is transient c \<longleftrightarrow> (cd_ProviderFailure c = None \<or> cd_ProviderFailureTransient c) = transient"

text \<open>One step of the loop, read off each counter.\<close>

lemma select_step_counts:
  fixes config n requested t c
  defines "t' \<equiv> select_step config n requested t c"
  shows "t_selected t' = (case selection_of config requested c of None \<Rightarrow> t_selected t
           | Some s \<Rightarrow> keep_better (betterCandidate n) (t_selected t) s)"
    and "t_providerUnavailable t' = t_providerUnavailable t
           + (if active_candidate config c \<and> \<not> usable_candidate config c \<and> failure_is True c then 1 else 0)"
    and "t_providerTerminal t' =
           (if active_candidate config c \<and> \<not> usable_candidate config c \<and> failure_is False c \<and> t_providerTerminal t = None
            then cd_ProviderFailure c else t_providerTerminal t)"
    and "t_nodeIncompatible t' = t_nodeIncompatible t
           + (if roomy_candidate config requested c \<and> \<not> cd_NodeCompatible c then 1 else 0)"
    and "t_logicalCandidates t' = t_logicalCandidates t
           + (if roomy_candidate config requested c \<and> cd_NodeCompatible c then 1 else 0)"
    and "t_physicalFailures t' = t_physicalFailures t + (if failing_candidate config requested c then 1 else 0)"
    and "t_physicalExhausted t' = t_physicalExhausted t
           + (if roomy_candidate config requested c \<and> cd_NodeCompatible c \<and> exhausted_candidate config requested c
              then 1 else 0)"
  unfolding t'_def
  by (auto simp: select_step_def candidate_defs count_unavailable_def failure_is_def Let_def
      split: option.splits sum.splits)

abbreviation select_loop :: "Config \<Rightarrow> string \<Rightarrow> u64 \<Rightarrow> Candidate list \<Rightarrow> tally \<Rightarrow> tally" where
  "select_loop config n requested \<equiv> fold (\<lambda>c t. select_step config n requested t c)"

lemma loop_selected:
  "t_selected (select_loop config n requested cs t)
   = pick (betterCandidate n) (t_selected t) (List.map_filter (selection_of config requested) cs)"
  by (induction cs arbitrary: t) (auto simp: select_step_counts map_filter_simps split: option.splits)

lemma loop_counts:
  shows "t_providerUnavailable (select_loop config n requested cs t) = t_providerUnavailable t
           + length (filter (\<lambda>c. active_candidate config c \<and> \<not> usable_candidate config c \<and> failure_is True c) cs)"
    and "t_nodeIncompatible (select_loop config n requested cs t) = t_nodeIncompatible t
           + length (filter (\<lambda>c. roomy_candidate config requested c \<and> \<not> cd_NodeCompatible c) cs)"
    and "t_logicalCandidates (select_loop config n requested cs t) = t_logicalCandidates t
           + length (filter (\<lambda>c. roomy_candidate config requested c \<and> cd_NodeCompatible c) cs)"
    and "t_physicalFailures (select_loop config n requested cs t) = t_physicalFailures t
           + length (filter (failing_candidate config requested) cs)"
    and "t_physicalExhausted (select_loop config n requested cs t) = t_physicalExhausted t
           + length (filter (\<lambda>c. roomy_candidate config requested c \<and> cd_NodeCompatible c
               \<and> exhausted_candidate config requested c) cs)"
  by (induction cs arbitrary: t) (simp_all add: select_step_counts)

lemma loop_terminal_mono:
  "t_providerTerminal (select_loop config n requested cs t) = None \<Longrightarrow> t_providerTerminal t = None"
proof (induction cs arbitrary: t)
  case (Cons c cs)
  then have "t_providerTerminal (select_step config n requested t c) = None" by simp
  then show ?case by (simp add: select_step_counts split: if_splits)
qed simp

lemma loop_terminal:
  "t_providerTerminal (select_loop config n requested cs t) = None \<Longrightarrow>
     (\<forall>c \<in> set cs. active_candidate config c \<longrightarrow> usable_candidate config c \<or> failure_is True c)"
  "t_providerTerminal (select_loop config n requested cs t) = Some e \<Longrightarrow>
     t_providerTerminal t = Some e \<or> (\<exists>c \<in> set cs. cd_ProviderFailure c = Some e)"
proof (induction cs arbitrary: t)
  case (Cons c cs)
  {
    case 1
    then have rest: "\<forall>c \<in> set cs. active_candidate config c \<longrightarrow> usable_candidate config c \<or> failure_is True c"
      and "t_providerTerminal (select_step config n requested t c) = None"
      using Cons.IH by (auto dest: loop_terminal_mono)
    then show ?case by (auto simp: select_step_counts failure_is_def split: if_splits)
  next
    case 2
    then show ?case using Cons.IH(2) by (fastforce simp: select_step_counts split: if_splits)
  }
qed simp_all

section \<open>The decision\<close>

text \<open>What the guards of \<^verbatim>\<open>Select\<close> ask of its arguments.\<close>

definition complete_snapshot :: "Config \<Rightarrow> string \<Rightarrow> u64 \<Rightarrow> Candidate list \<Rightarrow> bool" where
  "complete_snapshot config n requested cs \<longleftrightarrow>
     Config_Validate config = None \<and> n \<noteq> [] \<and> requested \<noteq> 0
     \<and> distinct (map (\<lambda>c. pc_ID (cd_Parent c)) cs) \<and> length cs = length (cfg_Filesystems config)
     \<and> (\<forall>c \<in> set cs. \<exists>p. configured config (pc_ID (cd_Parent c)) = Some p \<and> candidate_check config c p = None)"

lemma snapshot_loop_iff:
  "snapshot_loop config seen cs = Inr out \<longleftrightarrow>
     distinct (map (\<lambda>c. pc_ID (cd_Parent c)) cs) \<and> set (map (\<lambda>c. pc_ID (cd_Parent c)) cs) \<inter> set seen = {}
     \<and> (\<forall>c \<in> set cs. \<exists>p. configured config (pc_ID (cd_Parent c)) = Some p \<and> candidate_check config c p = None)
     \<and> out = rev (map (\<lambda>c. pc_ID (cd_Parent c)) cs) @ seen"
  by (induction cs arbitrary: seen) (auto split: option.splits)

lemma valid_config_distinct: "Config_Validate config = None \<Longrightarrow> distinct (map pc_ID (cfg_Filesystems config))"
  by (simp add: Config_Validate_def parents_loop_iff)

lemma guards_iff:
  "errs [Config_Validate config, ensure (n \<noteq> []) m1, ensure (requested \<noteq> 0) m2,
      and_check (snapshot_loop config [] cs) (\<lambda>seen.
        ensure (length seen = length (remdups (map pc_ID (cfg_Filesystems config)))) m3)] = None
   \<longleftrightarrow> complete_snapshot config n requested cs"
  by (auto simp: complete_snapshot_def snapshot_loop_iff distinct_remdups_id dest: valid_config_distinct)

lemma Select_iff:
  "Select config n requested cs = Inr s \<longleftrightarrow>
     complete_snapshot config n requested cs
     \<and> pick (betterCandidate n) None (List.map_filter (selection_of config requested) cs) = Some s"
proof -
  have "select_result t = Inr s \<longleftrightarrow> t_selected t = Some s" for t
    by (auto simp: select_result_def split: option.splits if_splits)
  then show ?thesis
    unfolding Select_def require_Inr guards_iff by (simp add: loop_selected zero_tally_def)
qed

lemma Select_complete:
  "complete_snapshot config n requested cs \<Longrightarrow>
   Select config n requested cs = select_result (select_loop config n requested cs zero_tally)"
  unfolding Select_def by (simp only: guards_iff [THEN iffD2] require_None)

lemma configured_parent: "configured config i = Some p \<Longrightarrow> p \<in> set (cfg_Filesystems config) \<and> pc_ID p = i"
  by (auto simp: configured_def dest!: map_of_SomeD)

lemma selection_of_iff:
  "selection_of config requested c = Some s \<longleftrightarrow>
     roomy_candidate config requested c \<and> cd_NodeCompatible c \<and> cd_StatFSFresh c
     \<and> configured config (pc_ID (cd_Parent c)) = Some (sel_Parent s) \<and> sel_Capacity s = cd_Capacity c
     \<and> physical_check config requested c = Inr (sel_PhysicalSpace s)"
  by (auto simp: selection_of_def split: option.splits sum.splits intro: Selection.equality)

lemma set_map_filter_selection: "s \<in> set (List.map_filter f cs) \<longleftrightarrow> (\<exists>c \<in> set cs. f c = Some s)"
  by (induction cs) (auto simp: map_filter_simps split: option.splits)

text \<open>
  (C20) Placement is sound, optimal and complete. When \<^verbatim>\<open>Select\<close> returns a parent, that parent is
  configured and active, its candidate is provider-confirmed and node-compatible, has the
  requested logical bytes and a fresh \<^verbatim>\<open>statfs\<close> sample that leaves the reserve, and no other
  placeable candidate has more logical capacity available; and on a complete snapshot \<^verbatim>\<open>Select\<close>
  returns a parent as soon as one candidate is placeable.
\<close>

theorem Select_correct:
  "(\<forall>s. Select config n requested cs = Inr s \<longrightarrow>
      (\<exists>c \<in> set cs. sel_Parent s \<in> set (cfg_Filesystems config) \<and> pc_ID (sel_Parent s) = pc_ID (cd_Parent c)
         \<and> pc_State (sel_Parent s) = ParentActive \<and> cd_ProviderAvailable c \<and> cd_NodeCompatible c \<and> cd_StatFSFresh c
         \<and> sel_Capacity s = cd_Capacity c \<and> requested \<le> k_LogicalAvailableBytes (cd_Capacity c)
         \<and> CheckPhysicalSpace (cd_StatFS c) (k_ObservedSizeBytes (cd_Capacity c)) requested (cfg_MinFreeBytes config)
             (cfg_MinFreePercent config) = Inr (sel_PhysicalSpace s))
      \<and> (\<forall>c \<in> set cs. \<forall>s'. selection_of config requested c = Some s' \<longrightarrow>
           k_LogicalAvailableBytes (sel_Capacity s') \<le> k_LogicalAvailableBytes (sel_Capacity s)))
   \<and> (complete_snapshot config n requested cs \<longrightarrow> (\<exists>c \<in> set cs. selection_of config requested c \<noteq> None) \<longrightarrow>
      (\<exists>s. Select config n requested cs = Inr s))"
proof (intro conjI allI impI)
  let ?xs = "List.map_filter (selection_of config requested) cs"
  fix s assume "Select config n requested cs = Inr s"
  then have pick: "pick (betterCandidate n) None ?xs = Some s" by (simp add: Select_iff)
  then have "?xs \<noteq> []" by auto
  with placement.pick_best [of ?xs n] pick
  have s: "s \<in> set ?xs" and best: "\<forall>x \<in> set ?xs. \<not> betterCandidate n x s" by auto
  from s obtain c where c: "c \<in> set cs" "selection_of config requested c = Some s"
    by (auto simp: set_map_filter_selection)
  then show "\<exists>c \<in> set cs. sel_Parent s \<in> set (cfg_Filesystems config) \<and> pc_ID (sel_Parent s) = pc_ID (cd_Parent c)
         \<and> pc_State (sel_Parent s) = ParentActive \<and> cd_ProviderAvailable c \<and> cd_NodeCompatible c \<and> cd_StatFSFresh c
         \<and> sel_Capacity s = cd_Capacity c \<and> requested \<le> k_LogicalAvailableBytes (cd_Capacity c)
         \<and> CheckPhysicalSpace (cd_StatFS c) (k_ObservedSizeBytes (cd_Capacity c)) requested (cfg_MinFreeBytes config)
             (cfg_MinFreePercent config) = Inr (sel_PhysicalSpace s)"
    by (intro bexI [of _ c]) (auto simp: selection_of_iff roomy_candidate_def usable_candidate_def
        active_candidate_def physical_check_def dest: configured_parent)
  show "\<forall>c \<in> set cs. \<forall>s'. selection_of config requested c = Some s' \<longrightarrow>
           k_LogicalAvailableBytes (sel_Capacity s') \<le> k_LogicalAvailableBytes (sel_Capacity s)"
    using best unfolding Ball_def set_map_filter_selection betterCandidate_def by (metis linorder_not_less order.refl)
next
  let ?xs = "List.map_filter (selection_of config requested) cs"
  assume "complete_snapshot config n requested cs" "\<exists>c \<in> set cs. selection_of config requested c \<noteq> None"
  moreover from this have "?xs \<noteq> []"
    using set_map_filter_selection by (metis empty_iff empty_set not_None_eq)
  ultimately show "\<exists>s. Select config n requested cs = Inr s"
    using placement.pick_best [of ?xs n] by (auto simp: Select_iff)
qed

text \<open>
  (C35) Placement does not depend on the order of the snapshot. If the tie-breaking digests of the
  configured parents differ, every permutation of the candidates gives the same selection.
\<close>

theorem Select_order_independent:
  assumes "Select config n requested cs = Inr s" and "mset cs' = mset cs"
    and "inj_on (tie_hash n) (set (map pc_ID (cfg_Filesystems config)))"
  shows "Select config n requested cs' = Inr s"
proof -
  let ?f = "selection_of config requested"
  from assms(1) have snap: "complete_snapshot config n requested cs"
    and pick: "pick (betterCandidate n) None (List.map_filter ?f cs) = Some s" by (simp_all add: Select_iff)
  have sets: "set cs' = set cs" using assms(2) by (rule mset_eq_setD)
  have "distinct (map (\<lambda>c. pc_ID (cd_Parent c)) cs') = distinct (map (\<lambda>c. pc_ID (cd_Parent c)) cs)"
    using assms(2) by (intro mset_eq_imp_distinct_iff) simp
  with snap have snap': "complete_snapshot config n requested cs'"
    using sets mset_eq_length [OF assms(2)] by (simp add: complete_snapshot_def)
  have total: "betterCandidate n x y \<or> betterCandidate n y x"
    if x: "x \<in> set (List.map_filter ?f cs)" and y: "y \<in> set (List.map_filter ?f cs)" and "x \<noteq> y" for x y
  proof -
    obtain c d where c: "c \<in> set cs" "?f c = Some x" and d: "d \<in> set cs" "?f d = Some y"
      using x y by (auto simp: set_map_filter_selection)
    with \<open>x \<noteq> y\<close> have "c \<noteq> d" by auto
    with c(1) d(1) snap have "pc_ID (cd_Parent c) \<noteq> pc_ID (cd_Parent d)"
      by (auto simp: complete_snapshot_def distinct_map dest: inj_onD)
    moreover have "pc_ID (sel_Parent x) = pc_ID (cd_Parent c)" "pc_ID (sel_Parent y) = pc_ID (cd_Parent d)"
      and "sel_Parent x \<in> set (cfg_Filesystems config)" "sel_Parent y \<in> set (cfg_Filesystems config)"
      using c(2) d(2) by (auto simp: selection_of_iff dest: configured_parent)
    ultimately have "tie_hash n (pc_ID (sel_Parent x)) \<noteq> tie_hash n (pc_ID (sel_Parent y))"
      using inj_onD [OF assms(3), of "pc_ID (sel_Parent x)" "pc_ID (sel_Parent y)"]
      by (metis image_eqI set_map)
    then show ?thesis by (auto simp: betterCandidate_def)
  qed
  have "set (List.map_filter ?f cs') = set (List.map_filter ?f cs)"
    using sets by (auto simp: set_map_filter_selection)
  then have "pick (betterCandidate n) None (List.map_filter ?f cs') = Some s"
    using placement.pick_unique [of "List.map_filter ?f cs" "List.map_filter ?f cs'" n] total pick by metis
  with snap' show ?thesis by (simp add: Select_iff)
qed

text \<open>The two refusals that claim a full pool.\<close>

definition conclusive_refusal :: "error \<Rightarrow> bool" where
  "conclusive_refusal e \<longleftrightarrow> e = sentinel_error ErrNoLogicalCapacity \<or> e = sentinel_error ErrPhysicalCapacityExhausted"

lemma conclusive_result:
  assumes "select_result t = Inl e" and "conclusive_refusal e" and "t_providerTerminal t \<noteq> Some e"
    and "t_physicalFailures t + t_physicalExhausted t = t_logicalCandidates t \<or> t_selected t \<noteq> None"
  shows "t_selected t = None" and "t_providerUnavailable t = 0" and "t_providerTerminal t = None"
    and "t_nodeIncompatible t = 0" and "t_physicalFailures t = 0"
    and "e = sentinel_error ErrNoLogicalCapacity \<Longrightarrow> t_logicalCandidates t = 0"
  using assms
  by (auto simp: select_result_def conclusive_refusal_def sentinel_error_def split: option.splits if_splits)

lemma selection_exhausted: "selection_of config requested c = Some s \<Longrightarrow> \<not> exhausted_candidate config requested c"
  by (simp add: selection_of_iff exhausted_candidate_def)

lemma no_selection_counts:
  "\<forall>c \<in> set cs. selection_of config requested c = None \<Longrightarrow>
   length (filter (failing_candidate config requested) cs)
   + length (filter (\<lambda>c. roomy_candidate config requested c \<and> cd_NodeCompatible c \<and> exhausted_candidate config requested c) cs)
   = length (filter (\<lambda>c. roomy_candidate config requested c \<and> cd_NodeCompatible c) cs)"
  by (induction cs) (auto simp: failing_candidate_def)

lemma pick_none: "pick (betterCandidate n) None xs = None \<longleftrightarrow> xs = []"
  using placement.pick_best [of xs n] by (cases "xs = []") auto

lemma no_selection:
  "t_selected (select_loop config n requested cs zero_tally) = None \<longleftrightarrow>
     (\<forall>c \<in> set cs. selection_of config requested c = None)"
proof -
  have "List.map_filter f cs = [] \<longleftrightarrow> (\<forall>c \<in> set cs. f c = None)" for f :: "Candidate \<Rightarrow> Selection option"
    by (induction cs) (auto simp: map_filter_simps split: option.splits)
  then show ?thesis by (simp add: loop_selected zero_tally_def pick_none)
qed

text \<open>
  (C34) Conclusive refusals rest on conclusive evidence. On a complete snapshot whose provider
  failures are not these sentinels, \<^verbatim>\<open>ErrNoLogicalCapacity\<close> is returned only when every active
  parent was confirmed by the provider and has too few logical bytes, and
  \<^verbatim>\<open>ErrPhysicalCapacityExhausted\<close> only when every active parent was confirmed and each one with
  enough logical bytes was rejected by a fresh physical observation: a transient failure is never
  reported as a full pool.
\<close>

theorem Select_refusal_conclusive:
  assumes snap: "complete_snapshot config n requested cs" and fail: "Select config n requested cs = Inl e"
    and foreign: "\<forall>c \<in> set cs. cd_ProviderFailure c \<noteq> Some e"
  shows "(e = sentinel_error ErrNoLogicalCapacity \<longrightarrow>
      (\<forall>c \<in> set cs. active_candidate config c \<longrightarrow>
         usable_candidate config c \<and> k_LogicalAvailableBytes (cd_Capacity c) < requested))
    \<and> (e = sentinel_error ErrPhysicalCapacityExhausted \<longrightarrow>
      (\<forall>c \<in> set cs. active_candidate config c \<longrightarrow>
         usable_candidate config c \<and> (k_LogicalAvailableBytes (cd_Capacity c) < requested
           \<or> cd_NodeCompatible c \<and> exhausted_candidate config requested c)))"
proof -
  let ?t = "select_loop config n requested cs zero_tally"
  have res: "select_result ?t = Inl e" using fail Select_complete [OF snap] by simp
  note counts = loop_counts [of config n requested cs zero_tally, simplified zero_tally_def tally.select_convs add_0, folded zero_tally_def]
  have foreign': "t_providerTerminal ?t \<noteq> Some e"
    using loop_terminal(2) [of config n requested cs zero_tally e] foreign by (auto simp: zero_tally_def)
  have sums: "t_physicalFailures ?t + t_physicalExhausted ?t = t_logicalCandidates ?t \<or> t_selected ?t \<noteq> None"
    using no_selection_counts [of cs config requested] no_selection [of config n requested cs] by (auto simp: counts)
  have main: "usable_candidate config c \<and> (k_LogicalAvailableBytes (cd_Capacity c) < requested
      \<or> cd_NodeCompatible c \<and> exhausted_candidate config requested c \<and> e \<noteq> sentinel_error ErrNoLogicalCapacity)"
    if con: "conclusive_refusal e" and c: "c \<in> set cs" and act: "active_candidate config c" for c
  proof -
    note tally = conclusive_result [OF res con foreign' sums]
    have "usable_candidate config c"
      using tally(2,3) loop_terminal(1) [of config n requested cs zero_tally] c act
      by (auto simp: counts filter_empty_conv)
    moreover have "cd_NodeCompatible c \<and> exhausted_candidate config requested c \<and> e \<noteq> sentinel_error ErrNoLogicalCapacity"
      if "roomy_candidate config requested c"
      using tally(1,4,5,6) no_selection [of config n requested cs] c that
      by (auto simp: counts filter_empty_conv failing_candidate_def)
    ultimately show ?thesis
      by (cases "requested \<le> k_LogicalAvailableBytes (cd_Capacity c)") (simp_all add: roomy_candidate_def linorder_not_le)
  qed
  then show ?thesis by (auto simp: conclusive_refusal_def)
qed


section \<open>A sample pool\<close>

definition sample_pool :: Config where
  "sample_pool = \<lparr>cfg_Name = ''standard'', cfg_BasePath = sample_base, cfg_SelectionPolicy = SelectionLeastAllocated,
     cfg_MaxParentsPerEligibleNode = 2, cfg_MaxLogicalOvercommitRatio = \<lparr>r_numerator = 1, r_denominator = 1\<rparr>,
     cfg_MinFreeBytes = 0, cfg_MinFreePercent = 10, cfg_DeletePolicy = DeletePolicyArchive, cfg_DirectoryMode = ''0770'',
     cfg_DirectoryUID = 1000, cfg_DirectoryGID = 1000,
     cfg_Filesystems = [\<lparr>pc_ID = ''fs-1'', pc_Name = ''one'', pc_State = ParentActive\<rparr>]\<rparr>"

definition sample_capacity :: Capacity where
  "sample_capacity = \<lparr>k_ObservedSizeBytes = 1000, k_ReserveBytes = 100, k_UsableBytes = 900,
     k_LogicalCapacityBytes = 900, k_LogicalAllocatedBytes = 400, k_LogicalAvailableBytes = 500\<rparr>"

definition sample_candidate :: Candidate where
  "sample_candidate = \<lparr>cd_Parent = \<lparr>pc_ID = ''fs-1'', pc_Name = ''one'', pc_State = ParentActive\<rparr>,
     cd_Capacity = sample_capacity,
     cd_StatFS = \<lparr>f_BlockSizeBytes = 10, f_AvailableBlocks = 60, f_ObservedAt = 1\<rparr>, cd_StatFSFresh = True,
     cd_ProviderAvailable = True, cd_ProviderFailure = None, cd_ProviderFailureTransient = False,
     cd_NodeCompatible = True\<rparr>"

lemma sample_pool_ok: "Config_Validate sample_pool = None"
  using sample_base_ok
  by (simp add: Config_Validate_def sample_pool_def ValidatePoolName_def poolNamePattern_def char_class_defs
      Ratio_Validate_def DeletePolicy_Validate_def ValidateDirectoryMode_def ValidateParentFilesystemID_def
      providerIDPattern_def is_alnum_def ascii_eval MaxContextEntryBytes_def)

theorem ValidateConfigs_exclusive_witness: "ValidateConfigs [sample_pool] = None \<and> ParentIDs [sample_pool] = [''fs-1'']"
  using ValidateConfigs_exclusive [of "[sample_pool]"] sample_pool_ok
  by (simp add: all_parents_def) (simp add: sample_pool_def ParentIDs_def)

lemma sample_capacity_ok:
  "CalculateCapacity 1000 0 10 \<lparr>r_numerator = 1, r_denominator = 1\<rparr> [400] = Inr sample_capacity"
  by (simp add: CalculateCapacity_def ceilPercent_def floorMultiplyRatio_def Mul64_def Div64_def Ratio_Validate_def
      MaxUint64_def Let_def sample_capacity_def)

lemma sample_snapshot: "requested \<noteq> 0 \<Longrightarrow> complete_snapshot sample_pool ''pvc-1'' requested [sample_candidate]"
  using sample_pool_ok sample_capacity_ok
  by (simp add: complete_snapshot_def sample_candidate_def configured_def candidate_check_def validateCandidateCapacity_def)
    (simp add: sample_pool_def sample_capacity_def)

definition sample_space :: PhysicalSpace where
  "sample_space = \<lparr>s_ActualAvailableBytes = 600, s_PhysicalSafetyThresholdBytes = 100,
     s_PostRequestAvailableBytes = 300, s_ObservedAt = 1\<rparr>"

lemma sample_check:
  "CheckPhysicalSpace \<lparr>f_BlockSizeBytes = 10, f_AvailableBlocks = 60, f_ObservedAt = 1\<rparr> 1000 300 0 10 = Inr sample_space"
  by (simp add: CheckPhysicalSpace_def MeasurePhysicalSpace_def ceilPercent_def MaxUint64_def Let_def sample_space_def)

lemma sample_selection:
  "selection_of sample_pool 300 sample_candidate
   = Some \<lparr>sel_Parent = \<lparr>pc_ID = ''fs-1'', pc_Name = ''one'', pc_State = ParentActive\<rparr>,
       sel_Capacity = sample_capacity, sel_PhysicalSpace = sample_space\<rparr>"
  using sample_check
  by (simp add: selection_of_iff roomy_candidate_def usable_candidate_def active_candidate_def physical_check_def
      configured_def) (simp add: sample_pool_def sample_candidate_def sample_capacity_def)

theorem Select_correct_witness: "\<exists>s. Select sample_pool ''pvc-1'' 300 [sample_candidate] = Inr s"
  using Select_correct [of sample_pool "''pvc-1''" 300 "[sample_candidate]"] sample_snapshot [of 300] sample_selection
  by simp

theorem Select_order_independent_witness:
  "\<exists>s. Select sample_pool ''pvc-1'' 300 [sample_candidate] = Inr s"
proof -
  have "pick (betterCandidate ''pvc-1'') None (List.map_filter (selection_of sample_pool 300) [sample_candidate]) \<noteq> None"
    using sample_selection by (simp add: map_filter_simps keep_better_def)
  then obtain s where s: "Select sample_pool ''pvc-1'' 300 [sample_candidate] = Inr s"
    using sample_snapshot [of 300] by (auto simp: Select_iff)
  moreover have "inj_on (tie_hash ''pvc-1'') (set (map pc_ID (cfg_Filesystems sample_pool)))"
    by (simp add: sample_pool_def)
  ultimately show ?thesis
    using Select_order_independent [OF s, of "[sample_candidate]"] by blast
qed

lemma sample_refusal: "Select sample_pool ''pvc-1'' 800 [sample_candidate] = Inl (sentinel_error ErrNoLogicalCapacity)"
proof -
  have "select_step sample_pool ''pvc-1'' 800 zero_tally sample_candidate = zero_tally"
    by (simp add: select_step_def configured_def sample_pool_def sample_candidate_def sample_capacity_def)
  then show ?thesis
    using Select_complete [OF sample_snapshot [of 800]] by (simp add: select_result_def zero_tally_def)
qed

theorem Select_refusal_conclusive_witness:
  "k_LogicalAvailableBytes (cd_Capacity sample_candidate) < 800"
proof -
  have "active_candidate sample_pool sample_candidate"
    by (simp add: active_candidate_def configured_def sample_pool_def sample_candidate_def)
  then show ?thesis
    using Select_refusal_conclusive [OF sample_snapshot [of 800] sample_refusal] by (simp add: sample_candidate_def)
qed

end
