(* ===== verification/LifecyclePairs.thy ===== *)
theory LifecyclePairs
  imports Pairing
begin

text \<open>
  The pure part of the lifecycle controllers in \<^verbatim>\<open>pkg/driver\<close>: the runtime identity fence
  (\<^verbatim>\<open>runtime_identity.go\<close>), the sorted node sets of \<^verbatim>\<open>publish.go\<close>, the successor records that
  \<^verbatim>\<open>create_filesystem.go\<close>, \<^verbatim>\<open>delete.go\<close>, \<^verbatim>\<open>gc.go\<close> and \<^verbatim>\<open>compaction.go\<close> write, and the pair checks of
  \<^verbatim>\<open>delete.go\<close>, \<^verbatim>\<open>gc.go\<close> and \<^verbatim>\<open>lifecycle_pair.go\<close>. A crash between the two writes of a step leaves
  an allocation one step ahead of its ownership record; the lemmas show that every such window
  is one that \<^verbatim>\<open>ValidateLifecyclePairForStartup\<close> accepts.
\<close>

section \<open>Runtime identity\<close>

fun record_runtime_identity :: "AllocationRecord \<Rightarrow> string \<times> string \<times> string" where
  "record_runtime_identity (DetailedA r) = (a_DriverName r, a_InstallationID r, a_ActiveClusterUID r)"
| "record_runtime_identity (CompactA r) = (ca_DriverName r, ca_InstallationID r, ca_ActiveClusterUID r)"
| "record_runtime_identity (UnknownA r) = (ua_DriverName r, ua_InstallationID r, ua_ActiveClusterUID r)"

definition validateAllocationRuntimeIdentity ::
  "AllocationRecord option \<Rightarrow> string \<Rightarrow> string \<Rightarrow> string \<Rightarrow> error option" where
  "validateAllocationRuntimeIdentity record driverName installationID clusterUID =
     (case record of
        None \<Rightarrow> Some (errorf ''allocation runtime identity record is nil'')
      | Some r \<Rightarrow> ensure (record_runtime_identity r = (driverName, installationID, clusterUID))
          ''allocation belongs to another driver installation or active cluster'')"

section \<open>Sorted node sets\<close>

text \<open>
  \<^verbatim>\<open>slices.BinarySearch\<close> as the library runs it: the smallest index of \<open>[i, j)\<close> whose element is
  not below the target on a sorted slice, and some index in range on any other slice.
\<close>

function search_loop :: "string list \<Rightarrow> string \<Rightarrow> nat \<Rightarrow> nat \<Rightarrow> nat" where
  "search_loop xs target i j =
     (if i < j then
        (let h = (i + j) div 2
         in if xs ! h < target then search_loop xs target (h + 1) j else search_loop xs target i h)
      else i)"
  by pat_completeness auto
termination by (relation "measure (\<lambda>(xs, target, i, j). j - i)") auto

declare search_loop.simps [simp del]

definition BinarySearch :: "string list \<Rightarrow> string \<Rightarrow> nat \<times> bool" where
  "BinarySearch xs target =
     (let i = search_loop xs target 0 (length xs) in (i, i < length xs \<and> xs ! i = target))"

text \<open>The elements of a slice, a nil slice having none.\<close>

definition slice_elems :: "'a list option \<Rightarrow> 'a list" where
  "slice_elems s = (case s of None \<Rightarrow> [] | Some xs \<Rightarrow> xs)"

definition insertSortedUnique :: "string list option \<Rightarrow> string \<Rightarrow> string list option" where
  "insertSortedUnique values v =
     (let xs = slice_elems values
      in case BinarySearch xs v of
           (index, True) \<Rightarrow> values
         | (index, False) \<Rightarrow> Some (take index xs @ [v] @ drop index xs))"

definition removeSorted :: "string list option \<Rightarrow> string \<Rightarrow> string list option" where
  "removeSorted values v =
     (let xs = slice_elems values
      in case BinarySearch xs v of
           (index, False) \<Rightarrow> values
         | (index, True) \<Rightarrow> Some (take index xs @ drop (index + 1) xs))"

definition sortedUnion :: "string list option \<Rightarrow> string list option \<Rightarrow> string list option" where
  "sortedUnion left right = foldl insertSortedUnique left (slice_elems right)"

section \<open>Successor records\<close>

text \<open>\<^verbatim>\<open>cloneDetailedAllocation\<close> copies the record and its slices, which is the record itself here.\<close>

definition ownership_of_creating :: "DetailedAllocationRecord \<Rightarrow> DetailedOwnershipRecord" where
  "ownership_of_creating allocation = \<lparr>
     o_SchemaVersion = a_SchemaVersion allocation, o_RecordKind = OwnershipRecordDetailed,
     o_DriverName = a_DriverName allocation, o_InstallationID = a_InstallationID allocation,
     o_ActiveClusterUID = a_ActiveClusterUID allocation, o_VolumeHandle = a_VolumeHandle allocation,
     o_VolumeHandleHash = a_VolumeHandleHash allocation, o_LogicalVolumeID = a_LogicalVolumeID allocation,
     o_MappingHash = a_MappingHash allocation, o_PoolName = a_PoolName allocation,
     o_ParentFilesystemID = a_ParentFilesystemID allocation, o_BasePath = a_BasePath allocation,
     o_BasePathHash = a_BasePathHash allocation, o_DirectoryName = a_DirectoryName allocation,
     o_CreateVolumeRequestName = a_CreateVolumeRequestName allocation,
     o_RequestHash = a_RequestHash allocation, o_OriginalRequiredBytes = a_OriginalRequiredBytes allocation,
     o_OriginalLimitBytes = a_OriginalLimitBytes allocation,
     o_SelectedCapacityBytes = a_SelectedCapacityBytes allocation,
     o_NormalizedCreateParameters = a_NormalizedCreateParameters allocation,
     o_DeletePolicy = a_DeletePolicy allocation, o_DirectoryUID = a_DirectoryUID allocation,
     o_DirectoryGID = a_DirectoryGID allocation, o_DirectoryMode = a_DirectoryMode allocation,
     o_PublishedNodeIDs = a_PublishedNodeIDs allocation, o_State = StateReady, o_Revision = 1,
     o_ContentChecksum = [], o_CreatedAt = a_CreatedAt allocation,
     o_DeleteOperationID = [], o_DeleteOperation = [], o_DeleteSourcePath = [], o_DeleteTargetPath = [],
     o_DeletePreparedAt = [], o_DeleteRemoveStartedAt = [], o_DeleteCompletedAt = [], o_ArchivedPath = [],
     o_RetainedPath = [], o_QuarantinePath = [], o_GCRequestID = [], o_GCRequestedMode = [],
     o_GCExpectedState = [], o_GCRequestedAt = [], o_GCOperationID = [], o_GCTargetPath = [],
     o_GCQuarantinePath = [], o_GCStartedAt = [], o_GCRemoveStartedAt = [], o_GCCompletedAt = []\<rparr>"

definition ownershipFromCreatingAllocation :: "DetailedAllocationRecord \<Rightarrow> DetailedOwnershipRecord res" where
  "ownershipFromCreatingAllocation allocation = DetailedOwnership_Seal (ownership_of_creating allocation)"

definition mirrorDeleteLifecycle ::
  "DetailedOwnershipRecord \<Rightarrow> DetailedAllocationRecord \<Rightarrow> DetailedOwnershipRecord res" where
  "mirrorDeleteLifecycle current allocation = DetailedOwnership_Seal
     (current\<lparr>o_Revision := o_Revision current + 1,
        o_PublishedNodeIDs := a_PublishedNodeIDs allocation,
        o_State := a_State allocation,
        o_DeleteOperationID := a_DeleteOperationID allocation,
        o_DeleteOperation := a_DeleteOperation allocation,
        o_DeleteSourcePath := a_DeleteSourcePath allocation,
        o_DeleteTargetPath := a_DeleteTargetPath allocation,
        o_DeletePreparedAt := a_DeletePreparedAt allocation,
        o_DeleteRemoveStartedAt := a_DeleteRemoveStartedAt allocation,
        o_DeleteCompletedAt := a_DeleteCompletedAt allocation,
        o_ArchivedPath := a_ArchivedPath allocation,
        o_RetainedPath := a_RetainedPath allocation,
        o_QuarantinePath := a_QuarantinePath allocation\<rparr>)"

definition mirrorGCLifecycle ::
  "DetailedOwnershipRecord \<Rightarrow> DetailedAllocationRecord \<Rightarrow> DetailedOwnershipRecord res" where
  "mirrorGCLifecycle current allocation = DetailedOwnership_Seal
     (current\<lparr>o_Revision := o_Revision current + 1,
        o_PublishedNodeIDs := a_PublishedNodeIDs allocation,
        o_GCRequestID := a_GCRequestID allocation,
        o_GCRequestedMode := a_GCRequestedMode allocation,
        o_GCExpectedState := a_GCExpectedState allocation,
        o_GCRequestedAt := a_GCRequestedAt allocation,
        o_GCOperationID := a_GCOperationID allocation,
        o_GCTargetPath := a_GCTargetPath allocation,
        o_GCQuarantinePath := a_GCQuarantinePath allocation,
        o_GCStartedAt := a_GCStartedAt allocation,
        o_GCRemoveStartedAt := a_GCRemoveStartedAt allocation,
        o_GCCompletedAt := a_GCCompletedAt allocation\<rparr>)"

definition ownershipWithPublishedNodes ::
  "DetailedOwnershipRecord \<Rightarrow> string list option \<Rightarrow> DetailedOwnershipRecord res" where
  "ownershipWithPublishedNodes current nodes = DetailedOwnership_Seal
     (current\<lparr>o_Revision := o_Revision current + 1, o_PublishedNodeIDs := nodes\<rparr>)"

definition compactOwnershipFromDeleted ::
  "DetailedAllocationRecord \<Rightarrow> DetailedOwnershipRecord \<Rightarrow> CompactDeletedOwnershipRecord res" where
  "compactOwnershipFromDeleted allocation current = CompactOwnership_Seal \<lparr>
     co_SchemaVersion = a_SchemaVersion allocation, co_RecordKind = OwnershipRecordCompactDeleted,
     co_Revision = o_Revision current + 1, co_DriverName = a_DriverName allocation,
     co_InstallationID = a_InstallationID allocation, co_ActiveClusterUID = a_ActiveClusterUID allocation,
     co_VolumeHandleHash = a_VolumeHandleHash allocation, co_LogicalVolumeID = a_LogicalVolumeID allocation,
     co_CreateVolumeRequestName = a_CreateVolumeRequestName allocation,
     co_MappingHash = a_MappingHash allocation, co_ParentFilesystemID = a_ParentFilesystemID allocation,
     co_BasePathHash = a_BasePathHash allocation, co_DirectoryName = a_DirectoryName allocation,
     co_State = StateDeleted, co_DeleteResult = a_DeleteResult allocation,
     co_UpdatedAt = a_UpdatedAt allocation, co_DeletedAt = a_DeletedAt allocation, co_ContentChecksum = [],
     co_DeleteOperation = a_DeleteOperation allocation, co_ArchivedPath = a_ArchivedPath allocation,
     co_RetainedPath = a_RetainedPath allocation, co_QuarantinePath = a_QuarantinePath allocation,
     co_DeleteOperationID = a_DeleteOperationID allocation,
     co_DeleteCompletedAt = a_DeleteCompletedAt allocation, co_GCOperationID = a_GCOperationID allocation,
     co_GCTargetPath = a_GCTargetPath allocation, co_GCQuarantinePath = a_GCQuarantinePath allocation,
     co_GCCompletedAt = a_GCCompletedAt allocation\<rparr>"

text \<open>
  \<^verbatim>\<open>compactAllocationProjection\<close> builds the literal of \<^verbatim>\<open>CompactDeletedProjection\<close> without its checks;
  \<^verbatim>\<open>compactAllocationFromDetailed\<close> is the same literal with the next revision.
\<close>

definition compactAllocationProjection :: "DetailedAllocationRecord \<Rightarrow> CompactDeletedAllocationRecord" where
  "compactAllocationProjection allocation = compact_projection allocation"

definition compactAllocationFromDetailed :: "DetailedAllocationRecord \<Rightarrow> CompactDeletedAllocationRecord" where
  "compactAllocationFromDetailed r = (compact_projection r)\<lparr>ca_RecordRevision := a_RecordRevision r + 1\<rparr>"

definition terminalDataPath :: "DetailedAllocationRecord \<Rightarrow> string" where
  "terminalDataPath allocation =
     (if a_GCExpectedState allocation = StateArchived then a_ArchivedPath allocation
      else if a_GCExpectedState allocation = StateRetained then a_RetainedPath allocation
      else [])"

section \<open>Pair checks\<close>

definition validateDeleteProgressPair ::
  "DetailedAllocationRecord \<Rightarrow> DetailedOwnershipRecord \<Rightarrow> error option" where
  "validateDeleteProgressPair allocation ownership = errs
     [ValidateDetailedIdentityPair (Some allocation) (Some ownership) (o_State ownership),
      ensure (a_DeleteOperationID allocation = o_DeleteOperationID ownership
          \<and> a_DeleteOperation allocation = o_DeleteOperation ownership
          \<and> a_DeleteSourcePath allocation = o_DeleteSourcePath ownership
          \<and> a_DeleteTargetPath allocation = o_DeleteTargetPath ownership
          \<and> a_DeletePreparedAt allocation = o_DeletePreparedAt ownership)
        ''allocation and ownership delete intent differs'',
      ensure (\<not> (o_DeleteRemoveStartedAt ownership \<noteq> []
                 \<and> a_DeleteRemoveStartedAt allocation \<noteq> o_DeleteRemoveStartedAt ownership))
        ''ownership contains conflicting remove-start evidence'']"

definition validatePhysicalDeleteTerminalPredecessor ::
  "DetailedAllocationRecord \<Rightarrow> DetailedOwnershipRecord \<Rightarrow> error option" where
  "validatePhysicalDeleteTerminalPredecessor allocation ownership = errs
     [ensure (\<not> (a_State allocation \<noteq> StateDeleted \<or> a_GCOperationID allocation \<noteq> []
                 \<or> a_DeleteOperation allocation \<noteq> DeleteOperationDelete))
        ''physical delete terminal predecessor called for another lifecycle outcome'',
      ensure (\<not> (a_DeleteRemoveStartedAt allocation = []
                 \<or> o_DeleteRemoveStartedAt ownership \<noteq> a_DeleteRemoveStartedAt allocation))
        ''physical delete ownership predecessor lacks matching remove-start evidence'']"

definition validateDeleteTerminalEvidence ::
  "DetailedAllocationRecord \<Rightarrow> DetailedOwnershipRecord \<Rightarrow> error option" where
  "validateDeleteTerminalEvidence allocation ownership = ensure
     (a_DeleteOperationID allocation = o_DeleteOperationID ownership
      \<and> a_DeleteOperation allocation = o_DeleteOperation ownership
      \<and> a_DeleteSourcePath allocation = o_DeleteSourcePath ownership
      \<and> a_DeleteTargetPath allocation = o_DeleteTargetPath ownership
      \<and> a_DeletePreparedAt allocation = o_DeletePreparedAt ownership
      \<and> a_DeleteRemoveStartedAt allocation = o_DeleteRemoveStartedAt ownership
      \<and> a_DeleteCompletedAt allocation = o_DeleteCompletedAt ownership
      \<and> a_ArchivedPath allocation = o_ArchivedPath ownership
      \<and> a_RetainedPath allocation = o_RetainedPath ownership
      \<and> a_QuarantinePath allocation = o_QuarantinePath ownership)
     ''allocation and ownership terminal delete evidence differs''"

definition ownershipHasGCState :: "DetailedOwnershipRecord \<Rightarrow> bool" where
  "ownershipHasGCState ownership \<longleftrightarrow>
     o_GCRequestID ownership \<noteq> [] \<or> o_GCRequestedMode ownership \<noteq> []
     \<or> o_GCExpectedState ownership \<noteq> [] \<or> o_GCRequestedAt ownership \<noteq> []
     \<or> o_GCOperationID ownership \<noteq> [] \<or> o_GCTargetPath ownership \<noteq> []
     \<or> o_GCQuarantinePath ownership \<noteq> [] \<or> o_GCStartedAt ownership \<noteq> []
     \<or> o_GCRemoveStartedAt ownership \<noteq> [] \<or> o_GCCompletedAt ownership \<noteq> []"

definition validateInitialGCPair ::
  "DetailedAllocationRecord \<Rightarrow> DetailedOwnershipRecord \<Rightarrow> error option" where
  "validateInitialGCPair allocation ownership = errs
     [ensure (\<not> (a_State allocation \<noteq> a_GCExpectedState allocation
                 \<or> (a_State allocation \<noteq> StateArchived \<and> a_State allocation \<noteq> StateRetained)))
        ''GC request state differs from expected state'',
      ensure (\<not> (o_GCRequestID ownership \<noteq> [] \<or> o_GCRequestedMode ownership \<noteq> []
                 \<or> o_GCExpectedState ownership \<noteq> [] \<or> o_GCRequestedAt ownership \<noteq> []
                 \<or> o_GCOperationID ownership \<noteq> [] \<or> o_GCTargetPath ownership \<noteq> []
                 \<or> o_GCQuarantinePath ownership \<noteq> [] \<or> o_GCStartedAt ownership \<noteq> []
                 \<or> o_GCRemoveStartedAt ownership \<noteq> [] \<or> o_GCCompletedAt ownership \<noteq> []))
        ''ownership contains GC progress absent from allocation'',
      ValidateDetailedIdentityPair (Some allocation) (Some ownership) (a_State allocation),
      validateDeleteTerminalEvidence allocation ownership]"

definition validateGCProgressPair ::
  "DetailedAllocationRecord \<Rightarrow> DetailedOwnershipRecord \<Rightarrow> error option" where
  "validateGCProgressPair allocation ownership = errs
     [ValidateDetailedIdentityPair (Some allocation) (Some ownership) (a_GCExpectedState allocation),
      validateDeleteTerminalEvidence allocation ownership,
      (if o_GCOperationID ownership = [] then
         ensure (\<not> (o_GCRequestID ownership \<noteq> [] \<or> o_GCTargetPath ownership \<noteq> []
                    \<or> o_GCQuarantinePath ownership \<noteq> [] \<or> o_GCStartedAt ownership \<noteq> []
                    \<or> o_GCRemoveStartedAt ownership \<noteq> [] \<or> o_GCCompletedAt ownership \<noteq> []))
           ''ownership contains partial GC predecessor fields''
       else errs
         [ensure (a_GCRequestID allocation = o_GCRequestID ownership
              \<and> a_GCRequestedMode allocation = o_GCRequestedMode ownership
              \<and> a_GCExpectedState allocation = o_GCExpectedState ownership
              \<and> a_GCRequestedAt allocation = o_GCRequestedAt ownership
              \<and> a_GCOperationID allocation = o_GCOperationID ownership
              \<and> a_GCTargetPath allocation = o_GCTargetPath ownership
              \<and> a_GCQuarantinePath allocation = o_GCQuarantinePath ownership
              \<and> a_GCStartedAt allocation = o_GCStartedAt ownership)
            ''allocation and ownership GC intent differs'',
          ensure (\<not> (o_GCRemoveStartedAt ownership \<noteq> []
                     \<and> a_GCRemoveStartedAt allocation \<noteq> o_GCRemoveStartedAt ownership))
            ''ownership contains conflicting GC remove-start evidence''])]"

definition validateGCOwnershipPredecessor ::
  "DetailedAllocationRecord \<Rightarrow> DetailedOwnershipRecord \<Rightarrow> error option" where
  "validateGCOwnershipPredecessor allocation ownership = errs
     [ensure (\<not> (a_State allocation \<noteq> StateDeleted \<or> a_GCExpectedState allocation \<noteq> o_State ownership))
        ''deleted allocation and GC ownership predecessor states differ'',
      validateGCProgressPair allocation ownership,
      ensure (\<not> (a_GCRemoveStartedAt allocation = []
                 \<or> o_GCRemoveStartedAt ownership \<noteq> a_GCRemoveStartedAt allocation
                 \<or> a_GCCompletedAt allocation = []))
        ''GC ownership predecessor lacks matching removal evidence'']"

definition validateStartupGCPair ::
  "DetailedAllocationRecord \<Rightarrow> DetailedOwnershipRecord \<Rightarrow> error option" where
  "validateStartupGCPair allocation ownership =
     (if a_GCRequestID allocation = [] then
        ensure (\<not> ownershipHasGCState ownership) ''ownership contains GC state absent from allocation''
      else if a_GCOperationID allocation = [] then validateInitialGCPair allocation ownership
      else validateGCProgressPair allocation ownership)"

definition startup_detailed_pair ::
  "DetailedAllocationRecord \<Rightarrow> DetailedOwnershipRecord \<Rightarrow> error option" where
  "startup_detailed_pair allocation detailed =
     (if a_State allocation = StateReserved then
        Some (errorf ''reserved allocation must not have an ownership record'')
      else if a_State allocation = StateCreatingDirectory then errs
        [ensure (o_State detailed = StateReady) ''CreatingDirectory allocation has ownership state, want Ready successor'',
         ValidateDetailedIdentityPair (Some allocation) (Some detailed) StateReady]
      else if a_State allocation = StateReady then errs
        [ensure (o_State detailed = StateReady) ''ready allocation has ownership state'',
         ValidateDetailedIdentityPair (Some allocation) (Some detailed) StateReady]
      else if a_State allocation = StateDeleting then
        (if o_State detailed = StateReady then
           ValidateDetailedIdentityPair (Some allocation) (Some detailed) StateReady
         else if o_State detailed = StateDeleting then validateDeleteProgressPair allocation detailed
         else Some (errorf ''deleting allocation has ownership state''))
      else if a_State allocation = StateArchived \<or> a_State allocation = StateRetained then
        (if o_State detailed = StateDeleting then validateDeleteProgressPair allocation detailed
         else errs
           [ensure (o_State detailed = a_State allocation) ''terminal allocation state has ownership state'',
            ValidateDetailedIdentityPair (Some allocation) (Some detailed) (a_State allocation),
            validateDeleteTerminalEvidence allocation detailed,
            validateStartupGCPair allocation detailed])
      else if a_State allocation = StateDeleted then
        (if a_GCOperationID allocation \<noteq> [] then validateGCOwnershipPredecessor allocation detailed
         else errs
           [ensure (o_State detailed = StateDeleting) ''delete-created Deleted allocation has ownership state'',
            validateDeleteProgressPair allocation detailed,
            validatePhysicalDeleteTerminalPredecessor allocation detailed])
      else Some (errorf ''startup allocation state is unsupported''))"

definition ValidateLifecyclePairForStartup ::
  "DetailedAllocationRecord option \<Rightarrow> OwnershipRecord option \<Rightarrow> error option" where
  "ValidateLifecyclePairForStartup allocationRecord ownershipRecord =
     (case allocationRecord of
        None \<Rightarrow> Some (errorf ''startup lifecycle allocation is nil'')
      | Some allocation \<Rightarrow> errs
          [wrap_err ''startup allocation'' (Detailed_Validate allocation),
           (case ownershipRecord of
              None \<Rightarrow> ensure (a_State allocation = StateReserved \<or> a_State allocation = StateCreatingDirectory)
                ''allocation state requires an ownership record''
            | Some ownership \<Rightarrow> errs
                [wrap_err ''startup ownership'' (Ownership_Validate ownership),
                 (case ownership of
                    CompactO compact \<Rightarrow> errs
                      [ensure (a_State allocation = StateDeleted) ''compact ownership is paired with non-Deleted allocation state'',
                       and_check (CompactDeletedProjection (Some allocation))
                         (\<lambda>projection. ValidateCompactPair (Some projection) (Some compact))]
                  | DetailedO detailed \<Rightarrow> startup_detailed_pair allocation detailed)])])"

section \<open>Sorted node sets are sets\<close>

lemma search_loop_bounds: "i \<le> j \<Longrightarrow> i \<le> search_loop xs t i j \<and> search_loop xs t i j \<le> j"
proof (induction xs t i j rule: search_loop.induct)
  case (1 xs t i j)
  show ?case
  proof (cases "i < j")
    case True
    then have "i \<le> (i + j) div 2" "Suc ((i + j) div 2) \<le> j" by auto
    then show ?thesis
      using "1.IH"(1) [OF True refl] "1.IH"(2) [OF True refl] True
      by (cases "xs ! ((i + j) div 2) < t") (simp_all add: search_loop.simps [of xs t i j] Let_def)
  next
    case False
    then have "search_loop xs t i j = i" by (subst search_loop.simps) simp
    then show ?thesis using "1.prems" False by simp
  qed
qed

lemma search_loop_sorted:
  assumes "sorted xs" "i \<le> j" "j \<le> length xs" "\<forall>m < i. xs ! m < t" "\<forall>m. j \<le> m \<longrightarrow> m < length xs \<longrightarrow> t \<le> xs ! m"
  shows "(\<forall>m < search_loop xs t i j. xs ! m < t)
    \<and> (\<forall>m. search_loop xs t i j \<le> m \<longrightarrow> m < length xs \<longrightarrow> t \<le> xs ! m)"
  using assms
proof (induction xs t i j rule: search_loop.induct)
  case (1 xs t i j)
  show ?case
  proof (cases "i < j")
    case True
    define h where "h = (i + j) div 2"
    have h: "i \<le> h" "h < j" using True by (auto simp: h_def)
    show ?thesis
    proof (cases "xs ! h < t")
      case small: True
      have "\<forall>m < h + 1. xs ! m < t"
        using small sorted_nth_mono [OF "1.prems"(1), of _ h] "1.prems"(3) h
        by (metis Suc_eq_plus1 le_less_trans less_Suc_eq_le less_le_trans)
      then show ?thesis
        using "1.IH"(1) [OF True h_def small] "1.prems" h True small
        by (simp add: search_loop.simps [of xs t i j] Let_def h_def [symmetric])
    next
      case False
      have "\<forall>m. h \<le> m \<longrightarrow> m < length xs \<longrightarrow> t \<le> xs ! m"
        using False sorted_nth_mono [OF "1.prems"(1), of h] by (meson leI order_trans)
      moreover have "search_loop xs t i j = search_loop xs t i h"
        using True False by (subst search_loop.simps) (simp add: Let_def h_def)
      ultimately show ?thesis
        using "1.IH"(2) [OF True h_def False "1.prems"(1) h(1) _ "1.prems"(4)] h "1.prems"(3) by simp
    qed
  next
    case False
    then have "search_loop xs t i j = i" by (subst search_loop.simps) simp
    then show ?thesis using "1.prems" False by simp
  qed
qed

lemma binary_search_sorted:
  assumes "sorted xs"
  obtains i where "BinarySearch xs t = (i, t \<in> set xs)" "i \<le> length xs" "\<forall>m < i. xs ! m < t"
    "\<forall>m. i \<le> m \<longrightarrow> m < length xs \<longrightarrow> t \<le> xs ! m" "t \<in> set xs \<Longrightarrow> i < length xs \<and> xs ! i = t"
proof -
  let ?i = "search_loop xs t 0 (length xs)"
  have b: "?i \<le> length xs" using search_loop_bounds [of 0 "length xs" xs t] by simp
  have s: "\<forall>m < ?i. xs ! m < t" "\<forall>m. ?i \<le> m \<longrightarrow> m < length xs \<longrightarrow> t \<le> xs ! m"
    using search_loop_sorted [OF assms, of 0 "length xs" t] by simp_all
  have "?i < length xs \<and> xs ! ?i = t" if mem: "t \<in> set xs"
  proof -
    obtain m where m: "m < length xs" "xs ! m = t" using mem by (auto simp: in_set_conv_nth)
    have le: "?i \<le> m" using s(1) m by (metis linorder_not_le order_less_irrefl)
    then have "xs ! ?i \<le> t" using sorted_nth_mono [OF assms le] m by simp
    then show ?thesis using le m(1) s(2) by (metis le_less_trans order_antisym order_refl)
  qed
  then have "(?i < length xs \<and> xs ! ?i = t) = (t \<in> set xs)" by (metis nth_mem)
  then show thesis
    using that [of ?i] b s \<open>t \<in> set xs \<Longrightarrow> ?i < length xs \<and> xs ! ?i = t\<close>
    by (simp add: BinarySearch_def Let_def)
qed

lemma sorted_insert_at:
  assumes "sorted xs" "i \<le> length xs" "\<forall>m < i. xs ! m < t" "\<forall>m. i \<le> m \<longrightarrow> m < length xs \<longrightarrow> t \<le> xs ! m"
  shows "sorted (take i xs @ t # drop i xs)"
proof -
  have "\<forall>x \<in> set (take i xs). x < t" using assms(2,3) by (auto simp: in_set_conv_nth)
  moreover have "\<forall>x \<in> set (drop i xs). t \<le> x" using assms(4) by (auto simp: in_set_conv_nth)
  ultimately show ?thesis
    using assms(1) by (force simp: sorted_append sorted_wrt_take sorted_wrt_drop less_imp_le)
qed

lemma insertSortedUnique_sorted:
  assumes "sorted xs" "distinct xs"
  obtains ys where "insertSortedUnique (Some xs) v = Some ys" "sorted ys" "distinct ys" "set ys = insert v (set xs)"
proof -
  obtain i where i: "BinarySearch xs v = (i, v \<in> set xs)" "i \<le> length xs" "\<forall>m < i. xs ! m < v"
    "\<forall>m. i \<le> m \<longrightarrow> m < length xs \<longrightarrow> v \<le> xs ! m"
    using binary_search_sorted [OF assms(1), of v] by metis
  show thesis
  proof (cases "v \<in> set xs")
    case True
    then show ?thesis
      using that [of xs] assms i(1) by (auto simp: insertSortedUnique_def slice_elems_def)
  next
    case False
    have "set (take i xs) \<union> set (drop i xs) = set xs" by (metis append_take_drop_id set_append)
    moreover have "distinct (take i xs @ v # drop i xs)"
      using False assms(2) by (metis append_take_drop_id distinct.simps(2) distinct_append disjoint_insert(1)
          inf_commute list.simps(15) set_append Un_iff)
    ultimately show ?thesis
      using that [of "take i xs @ v # drop i xs"] False i(1) sorted_insert_at [OF assms(1) i(2-4)]
      by (auto simp: insertSortedUnique_def slice_elems_def)
  qed
qed

lemma sortedUnion_sorted:
  assumes "sorted xs" "distinct xs"
  obtains ys where "sortedUnion (Some xs) right = Some ys" "sorted ys" "distinct ys"
    "set ys = set xs \<union> set (slice_elems right)"
proof -
  have "\<exists>ys. foldl insertSortedUnique (Some xs) rs = Some ys \<and> sorted ys \<and> distinct ys \<and> set ys = set xs \<union> set rs" for rs
    using assms
  proof (induction rs arbitrary: xs)
    case (Cons r rs)
    obtain ys where "insertSortedUnique (Some xs) r = Some ys" "sorted ys" "distinct ys" "set ys = insert r (set xs)"
      using insertSortedUnique_sorted [OF Cons.prems] by metis
    then show ?case using Cons.IH [of ys] by auto
  qed simp
  then show thesis using that by (metis sortedUnion_def)
qed

lemma removeSorted_sorted:
  assumes "sorted xs" "distinct xs"
  shows "removeSorted (Some xs) v = Some (removeAll v xs)"
proof -
  obtain i where i: "BinarySearch xs v = (i, v \<in> set xs)" "v \<in> set xs \<Longrightarrow> i < length xs \<and> xs ! i = v"
    using binary_search_sorted [OF assms(1), of v] by metis
  show ?thesis
  proof (cases "v \<in> set xs")
    case True
    then have xs: "xs = take i xs @ v # drop (Suc i) xs"
      using i(2) id_take_nth_drop by metis
    then have "v \<notin> set (take i xs)" "v \<notin> set (drop (Suc i) xs)"
      using assms(2) by (metis distinct_append distinct.simps(2) disjoint_insert(1) list.simps(15))+
    then have "removeAll v xs = take i xs @ drop (Suc i) xs"
      by (subst xs) (simp add: removeAll_id)
    then show ?thesis using True i(1) by (simp add: removeSorted_def slice_elems_def)
  next
    case False
    then show ?thesis using i(1) by (simp add: removeSorted_def slice_elems_def removeAll_id)
  qed
qed

section \<open>Crash windows\<close>

text \<open>What a restart may find for one volume: the startup check of its records passes.\<close>

fun startup_consistent :: "AllocationRecord option \<Rightarrow> OwnershipRecord option \<Rightarrow> bool" where
  "startup_consistent (Some (DetailedA a)) own \<longleftrightarrow> ValidateLifecyclePairForStartup (Some a) own = None
     \<and> (a_State a = StateDeleted \<longrightarrow> slice_len (a_PublishedNodeIDs a) = 0)"
| "startup_consistent (Some (CompactA c)) own \<longleftrightarrow>
     (\<exists>k. own = Some (CompactO k) \<and> ValidateCompactPair (Some c) (Some k) = None)"
| "startup_consistent (Some (UnknownA u)) own \<longleftrightarrow> own = None"
| "startup_consistent None own \<longleftrightarrow> True"

lemma identity_pair_iff:
  "ValidateDetailedIdentityPair (Some a) (Some r) st = None \<longleftrightarrow>
     Detailed_Validate a = None \<and> DetailedOwnership_Validate r = None \<and> o_State r = st \<and> detailed_pair_identity a r"
  by (simp add: ValidateDetailedIdentityPair_def pair_iff)

lemma startup_pair_detailed:
  "ValidateLifecyclePairForStartup (Some a) (Some (DetailedO r)) = None \<longleftrightarrow>
     Detailed_Validate a = None \<and> DetailedOwnership_Validate r = None \<and> startup_detailed_pair a r = None"
  by (simp add: ValidateLifecyclePairForStartup_def)

lemma startup_pair_none:
  "ValidateLifecyclePairForStartup (Some a) None = None \<longleftrightarrow>
     Detailed_Validate a = None \<and> (a_State a = StateReserved \<or> a_State a = StateCreatingDirectory)"
  by (simp add: ValidateLifecyclePairForStartup_def)

lemma detailed_update_iff:
  "ValidateAllocationUpdate (Some (DetailedA a)) (Some (DetailedA b)) = None \<longleftrightarrow>
     Detailed_Validate a = None \<and> Detailed_Validate b = None \<and> a_RecordRevision b = a_RecordRevision a + 1
     \<and> validateDetailedImmutableEquality a b = None \<and> allowedAllocationStateTransition (a_State a) (a_State b)"
  by (auto simp: ValidateAllocationUpdate_def validateDetailedImmutableEquality_def)

lemma ownership_detailed_update_iff:
  "ValidateOwnershipUpdate (Some (DetailedO r)) (Some (DetailedO s)) = None \<longleftrightarrow>
     DetailedOwnership_Validate r = None \<and> DetailedOwnership_Validate s = None \<and> o_Revision s = o_Revision r + 1
     \<and> validateDetailedOwnershipImmutableEquality r s = None \<and> allowedDetailedOwnershipTransition (o_State r) (o_State s)"
  by (auto simp: ValidateOwnershipUpdate_def validateDetailedOwnershipImmutableEquality_def)

lemma pair_identity_alloc_update:
  "validateDetailedImmutableEquality a b = None \<Longrightarrow> detailed_pair_identity a r \<longleftrightarrow> detailed_pair_identity b r"
  by (simp add: validateDetailedImmutableEquality_def detailed_pair_identity_def equal_create_parameters)

lemma pair_identity_ownership_update:
  "validateDetailedOwnershipImmutableEquality r s = None \<Longrightarrow> detailed_pair_identity a r \<longleftrightarrow> detailed_pair_identity a s"
  by (simp add: validateDetailedOwnershipImmutableEquality_def detailed_pair_identity_def equal_create_parameters)

text \<open>Garbage collection starts only from terminal data-bearing states.\<close>

definition gc_free :: "DetailedAllocationRecord \<Rightarrow> bool" where
  "gc_free a \<longleftrightarrow> a_GCRequestID a = [] \<and> a_GCRequestedMode a = [] \<and> a_GCExpectedState a = []
     \<and> a_GCRequestedAt a = [] \<and> a_GCOperationID a = [] \<and> a_GCTargetPath a = [] \<and> a_GCQuarantinePath a = []
     \<and> a_GCStartedAt a = [] \<and> a_GCRemoveStartedAt a = [] \<and> a_GCCompletedAt a = []"

lemma present_count_0: "present_count xs = 0 \<longleftrightarrow> (\<forall>x \<in> set xs. x = [])"
  by (auto simp: present_count_def filter_empty_conv)

lemma gc_fields_nonterminal:
  assumes "validateGCFields a = None" "a_State a \<noteq> StateArchived" "a_State a \<noteq> StateRetained" "a_State a \<noteq> StateDeleted"
  shows "gc_free a"
proof -
  let ?q = "present_count [a_GCRequestID a, a_GCRequestedMode a, a_GCExpectedState a, a_GCRequestedAt a]"
  let ?p = "present_count [a_GCOperationID a, a_GCTargetPath a, a_GCQuarantinePath a, a_GCStartedAt a]"
  have p: "?p = 0" and q: "?q = 0"
    using assms by (auto simp: validateGCFields_def Let_def split: if_splits)
  then have "a_GCRemoveStartedAt a = []" "a_GCCompletedAt a = []"
    using assms(1) by (auto simp: validateGCFields_def Let_def)
  with p q show ?thesis by (simp add: present_count_0 gc_free_def)
qed

lemma ownership_gc_nonterminal:
  assumes "DetailedOwnership_Validate r = None" "o_State r = StateReady \<or> o_State r = StateDeleting"
  shows "\<not> ownershipHasGCState r"
proof -
  let ?e = "(ownership_envelope r)\<lparr>a_DeleteResult := []\<rparr>"
  have "Detailed_Validate ?e = None" using ownership_valid_envelope(2) [OF assms(1)] assms(2) by auto
  then have "gc_free ?e"
    using assms(2) gc_fields_nonterminal [OF detailed_valid_lifecycle(4)] by auto
  then show ?thesis by (simp add: gc_free_def ownershipHasGCState_def ownership_envelope_def)
qed

lemma allocation_gc_nonterminal:
  assumes "Detailed_Validate a = None" "a_State a \<noteq> StateArchived" "a_State a \<noteq> StateRetained" "a_State a \<noteq> StateDeleted"
  shows "gc_free a"
  using gc_fields_nonterminal [OF detailed_valid_lifecycle(4) [OF assms(1)]] assms(2-4) by blast

text \<open>A request on a terminal allocation names its state; progress needs a request.\<close>

lemma gc_request_state:
  assumes "Detailed_Validate a = None"
  shows "a_GCRequestID a \<noteq> [] \<Longrightarrow> a_State a \<noteq> StateDeleted \<Longrightarrow> a_GCExpectedState a = a_State a"
    and "a_GCOperationID a \<noteq> [] \<Longrightarrow> a_GCRequestID a \<noteq> [] \<and> a_GCRequestedMode a = ''execute''
      \<and> (a_State a = a_GCExpectedState a \<or> a_State a = StateDeleted)
      \<and> (a_GCExpectedState a = StateArchived \<or> a_GCExpectedState a = StateRetained)"
proof -
  let ?q = "present_count [a_GCRequestID a, a_GCRequestedMode a, a_GCExpectedState a, a_GCRequestedAt a]"
  let ?p = "present_count [a_GCOperationID a, a_GCTargetPath a, a_GCQuarantinePath a, a_GCStartedAt a]"
  note g = detailed_valid_lifecycle(4) [OF assms, unfolded validateGCFields_def Let_def]
  show "a_GCExpectedState a = a_State a" if "a_GCRequestID a \<noteq> []" "a_State a \<noteq> StateDeleted"
  proof -
    have "?q \<noteq> 0" using that(1) by (simp add: present_count_def)
    with g that(2) show ?thesis by (auto split: if_splits)
  qed
  show "a_GCRequestID a \<noteq> [] \<and> a_GCRequestedMode a = ''execute''
      \<and> (a_State a = a_GCExpectedState a \<or> a_State a = StateDeleted)
      \<and> (a_GCExpectedState a = StateArchived \<or> a_GCExpectedState a = StateRetained)" if "a_GCOperationID a \<noteq> []"
  proof -
    have p: "?p \<noteq> 0" using that by (simp add: present_count_def)
    with g have q: "?q \<noteq> 0" by (auto split: if_splits)
    with g have "?q = 4" by auto
    then have "a_GCRequestID a \<noteq> []" by (simp add: present_count_def split: if_splits)
    with p q g show ?thesis by (auto split: if_splits)
  qed
qed

lemma seal_valid: "DetailedOwnership_Seal r = Inr s \<Longrightarrow> DetailedOwnership_Validate s = None"
  by (rule detailed.seal_validates)

lemma seal_form:
  "DetailedOwnership_Seal r = Inr s \<Longrightarrow> \<exists>c. s = r\<lparr>o_ContentChecksum := c\<rparr>"
  by (auto simp: DetailedOwnership_Seal_def Let_def)

lemma compact_seal_form:
  "CompactOwnership_Seal r = Inr s \<Longrightarrow> (\<exists>c. s = r\<lparr>co_ContentChecksum := c\<rparr>) \<and> CompactOwnership_Validate s = None
     \<and> Compact_validatePayload s = None"
  using compact.seal_validates [of r s] by (auto simp: CompactOwnership_Seal_def Let_def compact_payload_checksum compact_ownership_valid_iff)

lemma startup_pair_identity:
  assumes "startup_detailed_pair a r = None"
  shows "detailed_pair_identity a r" and "Detailed_Validate a = None" and "DetailedOwnership_Validate r = None"
  using assms
  by (auto simp: startup_detailed_pair_def identity_pair_iff validateDeleteProgressPair_def
      validateGCOwnershipPredecessor_def validateGCProgressPair_def split: if_splits)

lemmas delete_pair_defs = validateDeleteProgressPair_def identity_pair_iff validateDeleteTerminalEvidence_def
  validatePhysicalDeleteTerminalPredecessor_def

text \<open>Writing the mirrored ownership record closes the window that the allocation update opened.\<close>

lemma mirror_delete_window:
  assumes pair: "startup_detailed_pair a r = None"
    and st: "a_State a = StateDeleting \<or> a_State a = StateArchived \<or> a_State a = StateRetained"
    and ost: "o_State r = StateReady \<or> o_State r = StateDeleting"
    and mirror: "mirrorDeleteLifecycle r a = Inr s"
  shows "startup_detailed_pair a s = None" and "o_State s = a_State a"
    and "o_PublishedNodeIDs s = a_PublishedNodeIDs a" and "o_DeleteRemoveStartedAt s = a_DeleteRemoveStartedAt a"
proof -
  note base = startup_pair_identity [OF pair]
  obtain c where s: "s = r\<lparr>o_Revision := o_Revision r + 1, o_PublishedNodeIDs := a_PublishedNodeIDs a,
        o_State := a_State a, o_DeleteOperationID := a_DeleteOperationID a, o_DeleteOperation := a_DeleteOperation a,
        o_DeleteSourcePath := a_DeleteSourcePath a, o_DeleteTargetPath := a_DeleteTargetPath a,
        o_DeletePreparedAt := a_DeletePreparedAt a, o_DeleteRemoveStartedAt := a_DeleteRemoveStartedAt a,
        o_DeleteCompletedAt := a_DeleteCompletedAt a, o_ArchivedPath := a_ArchivedPath a,
        o_RetainedPath := a_RetainedPath a, o_QuarantinePath := a_QuarantinePath a, o_ContentChecksum := c\<rparr>"
    using seal_form mirror unfolding mirrorDeleteLifecycle_def by fastforce
  have v: "DetailedOwnership_Validate s = None" using seal_valid mirror by (simp add: mirrorDeleteLifecycle_def)
  show os: "o_State s = a_State a" and "o_PublishedNodeIDs s = a_PublishedNodeIDs a"
    and "o_DeleteRemoveStartedAt s = a_DeleteRemoveStartedAt a" by (simp_all add: s)
  have id: "detailed_pair_identity a s" using base(1) by (simp add: s detailed_pair_identity_def)
  have gc: "\<not> ownershipHasGCState s"
    using ownership_gc_nonterminal [OF base(3) ost] by (simp add: s ownershipHasGCState_def)
  have evidence: "validateDeleteTerminalEvidence a s = None"
    by (simp add: s validateDeleteTerminalEvidence_def)
  show "startup_detailed_pair a s = None"
  proof (cases "a_State a = StateDeleting")
    case True
    then show ?thesis
      using v id os base(2) by (simp add: startup_detailed_pair_def delete_pair_defs) (simp add: s)
  next
    case False
    then have fin: "a_State a = StateArchived \<or> a_State a = StateRetained" using st by blast
    have "validateStartupGCPair a s = None"
    proof (cases "a_GCRequestID a = []")
      case True
      then show ?thesis using gc by (simp add: validateStartupGCPair_def)
    next
      case req: False
      then have "a_GCExpectedState a = a_State a" using gc_request_state(1) [OF base(2)] fin by auto
      then show ?thesis
        using req gc fin v id os base(2) evidence
        by (auto simp: validateStartupGCPair_def validateInitialGCPair_def validateGCProgressPair_def
            ownershipHasGCState_def identity_pair_iff)
    qed
    then show ?thesis
      using False fin v id os base(2) evidence by (auto simp: startup_detailed_pair_def identity_pair_iff)
  qed
qed

text \<open>An allocation update keeps a window open only towards its own successor.\<close>

lemma allocation_update_parts:
  assumes "ValidateAllocationUpdate (Some (DetailedA a)) (Some (DetailedA b)) = None" "detailed_pair_identity a r"
  shows "detailed_pair_identity b r" and "Detailed_Validate b = None" and "Detailed_Validate a = None"
  using assms pair_identity_alloc_update [of a b r] by (simp_all add: detailed_update_iff)

lemma prepare_delete_window:
  assumes pair: "startup_detailed_pair a r = None" and "a_State a = StateReady" and "o_State r = StateReady"
    and upd: "ValidateAllocationUpdate (Some (DetailedA a)) (Some (DetailedA b)) = None" and "a_State b = StateDeleting"
  shows "startup_detailed_pair b r = None"
  using allocation_update_parts [OF upd startup_pair_identity(1) [OF pair]] startup_pair_identity(3) [OF pair] assms
  by (simp add: startup_detailed_pair_def identity_pair_iff)

lemma complete_archive_window:
  assumes pair: "startup_detailed_pair a r = None" and "a_State a = StateDeleting" and "o_State r = StateDeleting"
    and upd: "ValidateAllocationUpdate (Some (DetailedA a)) (Some (DetailedA b)) = None"
    and "a_State b = StateArchived \<or> a_State b = StateRetained"
    and "a_DeleteOperationID b = a_DeleteOperationID a" "a_DeleteOperation b = a_DeleteOperation a"
      "a_DeleteSourcePath b = a_DeleteSourcePath a" "a_DeleteTargetPath b = a_DeleteTargetPath a"
      "a_DeletePreparedAt b = a_DeletePreparedAt a" "a_DeleteRemoveStartedAt b = a_DeleteRemoveStartedAt a"
  shows "startup_detailed_pair b r = None"
  using allocation_update_parts [OF upd startup_pair_identity(1) [OF pair]] startup_pair_identity(3) [OF pair] assms
  by (auto simp: startup_detailed_pair_def delete_pair_defs)

lemma remove_start_window:
  assumes pair: "startup_detailed_pair a r = None" and "a_State a = StateDeleting" and "o_State r = StateDeleting"
    and "a_DeleteRemoveStartedAt a = []"
    and upd: "ValidateAllocationUpdate (Some (DetailedA a)) (Some (DetailedA b)) = None"
    and "a_State b = StateDeleting"
    and "a_DeleteOperationID b = a_DeleteOperationID a" "a_DeleteOperation b = a_DeleteOperation a"
      "a_DeleteSourcePath b = a_DeleteSourcePath a" "a_DeleteTargetPath b = a_DeleteTargetPath a"
      "a_DeletePreparedAt b = a_DeletePreparedAt a"
  shows "startup_detailed_pair b r = None"
  using allocation_update_parts [OF upd startup_pair_identity(1) [OF pair]] startup_pair_identity(3) [OF pair] assms
  by (auto simp: startup_detailed_pair_def delete_pair_defs)

lemma complete_delete_window:
  assumes pair: "startup_detailed_pair a r = None" and "a_State a = StateDeleting" and "o_State r = StateDeleting"
    and "a_DeleteRemoveStartedAt a \<noteq> []" and "o_DeleteRemoveStartedAt r = a_DeleteRemoveStartedAt a"
    and "a_DeleteOperation a = DeleteOperationDelete"
    and upd: "ValidateAllocationUpdate (Some (DetailedA a)) (Some (DetailedA b)) = None"
    and "a_State b = StateDeleted" and "a_GCOperationID b = a_GCOperationID a"
    and "a_DeleteOperationID b = a_DeleteOperationID a" "a_DeleteOperation b = a_DeleteOperation a"
      "a_DeleteSourcePath b = a_DeleteSourcePath a" "a_DeleteTargetPath b = a_DeleteTargetPath a"
      "a_DeletePreparedAt b = a_DeletePreparedAt a" "a_DeleteRemoveStartedAt b = a_DeleteRemoveStartedAt a"
  shows "startup_detailed_pair b r = None"
proof -
  have "gc_free a"
    using allocation_gc_nonterminal startup_pair_identity(2) [OF pair] assms(2) by simp
  then show ?thesis
    using allocation_update_parts [OF upd startup_pair_identity(1) [OF pair]] startup_pair_identity(3) [OF pair] assms
    by (auto simp: startup_detailed_pair_def delete_pair_defs gc_free_def)
qed

lemmas pair_check_defs = startup_detailed_pair_def validateDeleteProgressPair_def
  validateDeleteTerminalEvidence_def validatePhysicalDeleteTerminalPredecessor_def validateStartupGCPair_def validateInitialGCPair_def
  validateGCProgressPair_def validateGCOwnershipPredecessor_def ownershipHasGCState_def

text \<open>Published-node fences are outside every pair check.\<close>

lemma fence_allocation_window:
  assumes pair: "startup_detailed_pair a r = None"
    and upd: "ValidateAllocationUpdate (Some (DetailedA a)) (Some (DetailedA b)) = None"
    and b: "b = a\<lparr>a_RecordRevision := v, a_UpdatedAt := u, a_PublishedNodeIDs := ns\<rparr>"
  shows "startup_detailed_pair b r = None"
proof -
  have "Detailed_Validate b = None" using upd by (simp add: detailed_update_iff)
  then have id: "ValidateDetailedIdentityPair (Some b) (Some r) st = ValidateDetailedIdentityPair (Some a) (Some r) st" for st
    using startup_pair_identity(2) [OF pair]
    by (simp add: ValidateDetailedIdentityPair_def validateDetailedPair_def b detailed_pair_identity_def)
  have "startup_detailed_pair b r = startup_detailed_pair a r"
    unfolding pair_check_defs id by (simp add: b)
  then show ?thesis using pair by simp
qed

lemma fence_ownership_window:
  assumes pair: "startup_detailed_pair a r = None" and upd: "ownershipWithPublishedNodes r ns = Inr s"
  shows "startup_detailed_pair a s = None" and "o_State s = o_State r" and "o_PublishedNodeIDs s = ns"
    and "o_DeleteRemoveStartedAt s = o_DeleteRemoveStartedAt r" and "o_GCRemoveStartedAt s = o_GCRemoveStartedAt r"
    and "o_GCOperationID s = o_GCOperationID r"
proof -
  obtain c where s: "s = r\<lparr>o_Revision := o_Revision r + 1, o_PublishedNodeIDs := ns, o_ContentChecksum := c\<rparr>"
    using seal_form upd unfolding ownershipWithPublishedNodes_def by fastforce
  have "DetailedOwnership_Validate s = None" using seal_valid upd by (simp add: ownershipWithPublishedNodes_def)
  then have id: "ValidateDetailedIdentityPair (Some a) (Some s) st = ValidateDetailedIdentityPair (Some a) (Some r) st" for st
    using startup_pair_identity(3) [OF pair]
    by (simp add: ValidateDetailedIdentityPair_def validateDetailedPair_def s detailed_pair_identity_def)
  have "startup_detailed_pair a s = startup_detailed_pair a r"
    unfolding pair_check_defs id by (simp add: s)
  then show "startup_detailed_pair a s = None" using pair by simp
qed (use seal_form upd in \<open>fastforce simp: ownershipWithPublishedNodes_def\<close>)+

text \<open>The compact tombstone pairs with the projection of the \<^verbatim>\<open>Deleted\<close> allocation it was built from.\<close>

lemma compact_window:
  assumes v: "Detailed_Validate a = None" and st: "a_State a = StateDeleted" and f: "slice_len (a_PublishedNodeIDs a) = 0"
    and c: "compactOwnershipFromDeleted a r = Inr c"
  shows "ValidateLifecyclePairForStartup (Some a) (Some (CompactO c)) = None"
    and "ValidateCompactPair (Some (compactAllocationProjection a)) (Some c) = None"
proof -
  have res: "\<not> a_ReservesCapacity a" using valid_reserves [OF v] st by simp
  obtain k where form: "c = \<lparr>
     co_SchemaVersion = a_SchemaVersion a, co_RecordKind = OwnershipRecordCompactDeleted,
     co_Revision = o_Revision r + 1, co_DriverName = a_DriverName a,
     co_InstallationID = a_InstallationID a, co_ActiveClusterUID = a_ActiveClusterUID a,
     co_VolumeHandleHash = a_VolumeHandleHash a, co_LogicalVolumeID = a_LogicalVolumeID a,
     co_CreateVolumeRequestName = a_CreateVolumeRequestName a,
     co_MappingHash = a_MappingHash a, co_ParentFilesystemID = a_ParentFilesystemID a,
     co_BasePathHash = a_BasePathHash a, co_DirectoryName = a_DirectoryName a,
     co_State = StateDeleted, co_DeleteResult = a_DeleteResult a,
     co_UpdatedAt = a_UpdatedAt a, co_DeletedAt = a_DeletedAt a, co_ContentChecksum = k,
     co_DeleteOperation = a_DeleteOperation a, co_ArchivedPath = a_ArchivedPath a,
     co_RetainedPath = a_RetainedPath a, co_QuarantinePath = a_QuarantinePath a,
     co_DeleteOperationID = a_DeleteOperationID a, co_DeleteCompletedAt = a_DeleteCompletedAt a,
     co_GCOperationID = a_GCOperationID a, co_GCTargetPath = a_GCTargetPath a,
     co_GCQuarantinePath = a_GCQuarantinePath a, co_GCCompletedAt = a_GCCompletedAt a\<rparr>"
    and valid: "CompactOwnership_Validate c = None" and payload: "Compact_validatePayload c = None"
    using compact_seal_form c unfolding compactOwnershipFromDeleted_def by fastforce
  have "Compact_Validate (compact_projection a) = None"
    using compact_projection_valid [OF v st] payload by (simp add: Compact_validatePayload_def form)
  moreover have "compact_pair_identity (compact_projection a) c"
    by (simp add: compact_pair_identity_def compact_projection_def form)
  ultimately show pair: "ValidateCompactPair (Some (compactAllocationProjection a)) (Some c) = None"
    and "ValidateLifecyclePairForStartup (Some a) (Some (CompactO c)) = None"
    using v st f res valid
    by (simp_all add: compact_pair_iff compactAllocationProjection_def ValidateLifecyclePairForStartup_def
        CompactDeletedProjection_def)
qed

text \<open>Replacing the detailed \<^verbatim>\<open>Deleted\<close> allocation by its compact form keeps the pair.\<close>

lemma compaction_window:
  assumes upd: "ValidateAllocationUpdate (Some (DetailedA a)) (Some (CompactA (compactAllocationFromDetailed a))) = None"
    and pair: "ValidateCompactPair (Some (compactAllocationProjection a)) (Some k) = None"
  shows "ValidateCompactPair (Some (compactAllocationFromDetailed a)) (Some k) = None"
proof -
  have "Compact_Validate (compactAllocationFromDetailed a) = None"
    using upd by (simp add: ValidateAllocationUpdate_def)
  then show ?thesis
    using pair by (simp add: compact_pair_iff compact_pair_identity_def compactAllocationFromDetailed_def
        compactAllocationProjection_def)
qed

section \<open>Creation windows\<close>

lemma creation_window:
  assumes v: "Detailed_Validate a = None" and st: "a_State a = StateCreatingDirectory"
    and s: "ownershipFromCreatingAllocation a = Inr s"
  shows "startup_detailed_pair a s = None" and "ValidateDetailedPair (Some a) (Some s) StateReady = None"
proof -
  obtain c where form: "s = (ownership_of_creating a)\<lparr>o_ContentChecksum := c\<rparr>"
    using seal_form s unfolding ownershipFromCreatingAllocation_def by fastforce
  have valid: "DetailedOwnership_Validate s = None" using seal_valid s by (simp add: ownershipFromCreatingAllocation_def)
  have os: "o_State s = StateReady" "slices_equal (a_PublishedNodeIDs a) (o_PublishedNodeIDs s)"
    by (simp_all add: form ownership_of_creating_def slices_equal_def)
  have id: "detailed_pair_identity a s"
    by (simp add: form detailed_pair_identity_def ownership_of_creating_def equal_create_parameters)
  show "startup_detailed_pair a s = None"
    using v st valid os id by (simp add: startup_detailed_pair_def identity_pair_iff)
  show "ValidateDetailedPair (Some a) (Some s) StateReady = None"
    using v valid os id by (simp add: ValidateDetailedPair_def pair_iff)
qed

lemma created_window:
  assumes pair: "startup_detailed_pair a r = None" and "a_State a = StateCreatingDirectory"
    and upd: "ValidateAllocationUpdate (Some (DetailedA a)) (Some (DetailedA b)) = None" and "a_State b = StateReady"
  shows "startup_detailed_pair b r = None"
  using allocation_update_parts [OF upd startup_pair_identity(1) [OF pair]] startup_pair_identity(3) [OF pair] assms
  by (simp add: startup_detailed_pair_def identity_pair_iff)

section \<open>Garbage-collection windows\<close>

lemma gc_prepare_window:
  assumes pair: "startup_detailed_pair a r = None" and st: "a_State a = StateArchived \<or> a_State a = StateRetained"
    and ost: "o_State r = a_State a" and req: "a_GCRequestID a \<noteq> []" and "a_GCOperationID a = []"
    and upd: "ValidateAllocationUpdate (Some (DetailedA a)) (Some (DetailedA b)) = None"
    and b: "b = a\<lparr>a_RecordRevision := v, a_UpdatedAt := u, a_GCOperationID := i, a_GCTargetPath := t,
              a_GCQuarantinePath := q, a_GCStartedAt := u\<rparr>" and i: "i \<noteq> []"
  shows "startup_detailed_pair b r = None"
proof -
  note parts = allocation_update_parts [OF upd startup_pair_identity(1) [OF pair]]
  have "validateInitialGCPair a r = None"
    using assms by (auto simp: startup_detailed_pair_def validateStartupGCPair_def)
  moreover have "a_GCExpectedState a = a_State a" using gc_request_state(1) [OF parts(3) req] st by auto
  ultimately show ?thesis
    using parts startup_pair_identity(3) [OF pair] st ost i req
    by (auto simp: startup_detailed_pair_def validateStartupGCPair_def validateInitialGCPair_def
        validateGCProgressPair_def identity_pair_iff validateDeleteTerminalEvidence_def b)
qed

lemma gc_remove_start_window:
  assumes pair: "startup_detailed_pair a r = None" and st: "a_State a = StateArchived \<or> a_State a = StateRetained"
    and ost: "o_State r = a_State a" and gc: "a_GCOperationID a \<noteq> []" and "a_GCRemoveStartedAt a = []"
    and upd: "ValidateAllocationUpdate (Some (DetailedA a)) (Some (DetailedA b)) = None"
    and b: "b = a\<lparr>a_RecordRevision := v, a_UpdatedAt := u, a_GCRemoveStartedAt := u\<rparr>"
  shows "startup_detailed_pair b r = None"
proof -
  note parts = allocation_update_parts [OF upd startup_pair_identity(1) [OF pair]]
  have "a_GCRequestID a \<noteq> []" using gc_request_state(2) [OF parts(3) gc] by blast
  then show ?thesis
    using parts startup_pair_identity(3) [OF pair] assms
    by (auto simp: startup_detailed_pair_def validateStartupGCPair_def validateGCProgressPair_def identity_pair_iff
        validateDeleteTerminalEvidence_def)
qed

lemma mirror_gc_window:
  assumes pair: "startup_detailed_pair a r = None" and st: "a_State a = StateArchived \<or> a_State a = StateRetained"
    and ost: "o_State r = a_State a" and gc: "a_GCOperationID a \<noteq> []" and mirror: "mirrorGCLifecycle r a = Inr s"
  shows "startup_detailed_pair a s = None" and "o_State s = a_State a"
    and "o_GCRemoveStartedAt s = a_GCRemoveStartedAt a" and "o_PublishedNodeIDs s = a_PublishedNodeIDs a"
    and "o_GCOperationID s = a_GCOperationID a"
proof -
  note base = startup_pair_identity [OF pair]
  obtain c where s: "s = r\<lparr>o_Revision := o_Revision r + 1, o_PublishedNodeIDs := a_PublishedNodeIDs a,
      o_GCRequestID := a_GCRequestID a, o_GCRequestedMode := a_GCRequestedMode a,
      o_GCExpectedState := a_GCExpectedState a, o_GCRequestedAt := a_GCRequestedAt a,
      o_GCOperationID := a_GCOperationID a, o_GCTargetPath := a_GCTargetPath a,
      o_GCQuarantinePath := a_GCQuarantinePath a, o_GCStartedAt := a_GCStartedAt a,
      o_GCRemoveStartedAt := a_GCRemoveStartedAt a, o_GCCompletedAt := a_GCCompletedAt a, o_ContentChecksum := c\<rparr>"
    using seal_form mirror unfolding mirrorGCLifecycle_def by fastforce
  have valid: "DetailedOwnership_Validate s = None" using seal_valid mirror by (simp add: mirrorGCLifecycle_def)
  have id: "detailed_pair_identity a s" using base(1) by (simp add: s detailed_pair_identity_def)
  show os: "o_State s = a_State a" and "o_GCRemoveStartedAt s = a_GCRemoveStartedAt a"
    and "o_PublishedNodeIDs s = a_PublishedNodeIDs a" and "o_GCOperationID s = a_GCOperationID a"
    using ost by (simp_all add: s)
  have "a_GCRequestID a \<noteq> []" "a_GCExpectedState a = a_State a"
    using gc_request_state(2) [OF base(2) gc] st by auto
  moreover have "validateDeleteTerminalEvidence a s = None"
    using pair st ost by (auto simp: startup_detailed_pair_def validateDeleteTerminalEvidence_def s)
  ultimately show "startup_detailed_pair a s = None"
    using st os valid id base(2) gc
    by (auto simp: startup_detailed_pair_def validateStartupGCPair_def validateGCProgressPair_def identity_pair_iff)
      (simp_all add: s)
qed

lemma complete_gc_window:
  assumes pair: "startup_detailed_pair a r = None" and st: "a_State a = StateArchived \<or> a_State a = StateRetained"
    and ost: "o_State r = a_State a" and gc: "a_GCOperationID a \<noteq> []" and "a_GCRemoveStartedAt a \<noteq> []"
    and "o_GCRemoveStartedAt r = a_GCRemoveStartedAt a"
    and upd: "ValidateAllocationUpdate (Some (DetailedA a)) (Some (DetailedA b)) = None"
    and b: "b = a\<lparr>a_RecordRevision := v, a_State := StateDeleted, a_ReservesCapacity := False, a_UpdatedAt := u,
              a_DeletedAt := u, a_DeleteResult := ''garbage-collected'', a_GCCompletedAt := u\<rparr>" and u: "u \<noteq> []"
  shows "startup_detailed_pair b r = None"
proof -
  note parts = allocation_update_parts [OF upd startup_pair_identity(1) [OF pair]]
  have q: "a_GCRequestID a \<noteq> []" "a_GCExpectedState a = a_State a"
    using gc_request_state(2) [OF parts(3) gc] st by auto
  then have "validateGCProgressPair a r = None"
    using pair st ost gc by (auto simp: startup_detailed_pair_def validateStartupGCPair_def)
  then show ?thesis
    using parts startup_pair_identity(3) [OF pair] assms q
    by (auto simp: startup_detailed_pair_def validateGCOwnershipPredecessor_def validateGCProgressPair_def
        identity_pair_iff validateDeleteTerminalEvidence_def)
qed

end
