(* ===== verification/StrictJson.thy ===== *)
theory StrictJson
  imports Digest "HOL-Library.Monad_Syntax"
begin

text \<open>
  \<^verbatim>\<open>internal/strictjson\<close> and the part of \<^verbatim>\<open>encoding/json\<close> below it: the JSON grammar over bytes, the
  inspection that refuses duplicate keys and deep nesting, and the assignment of a value to a Go
  struct with unknown fields refused. A number keeps its literal, as \<^verbatim>\<open>UseNumber\<close> does.
\<close>

section \<open>The grammar\<close>

datatype jvalue =
    VNull
  | VBool bool
  | VNumber string
  | VString string
  | VArray "jvalue list"
  | VObject "(string \<times> jvalue) list"

definition is_ws :: "char \<Rightarrow> bool" where
  "is_ws c \<longleftrightarrow> byte c = 32 \<or> byte c = 9 \<or> byte c = 10 \<or> byte c = 13"

definition skip_ws :: "string \<Rightarrow> string" where
  "skip_ws s = dropWhile is_ws s"

text \<open>The rest of the input after an expected character.\<close>

definition expect :: "char \<Rightarrow> string \<Rightarrow> string option" where
  "expect c s = (case skip_ws s of [] \<Rightarrow> None | d # r \<Rightarrow> if d = c then Some r else None)"

definition read_word :: "string \<Rightarrow> jvalue \<Rightarrow> string \<Rightarrow> (jvalue \<times> string) option" where
  "read_word w v s = (if has_prefix s w then Some (v, drop (length w) s) else None)"

definition read_digits :: "string \<Rightarrow> (string \<times> string) option" where
  "read_digits s = (let ds = takeWhile is_digit s in if ds = [] then None else Some (ds, drop (length ds) s))"

definition read_integer :: "string \<Rightarrow> (string \<times> string) option" where
  "read_integer s =
     (case s of c # r \<Rightarrow> if c = CHR ''0'' then Some ([c], r) else read_digits s | [] \<Rightarrow> None)"

definition read_fraction :: "string \<Rightarrow> (string \<times> string) option" where
  "read_fraction s =
     (case s of
        c # r \<Rightarrow> if c = CHR ''.'' then map_option (apfst ((#) c)) (read_digits r) else Some ([], s)
      | [] \<Rightarrow> Some ([], s))"

definition read_exponent :: "string \<Rightarrow> (string \<times> string) option" where
  "read_exponent s =
     (case s of
        c # r \<Rightarrow>
          if c = CHR ''e'' \<or> c = CHR ''E'' then
            (case r of
               d # r' \<Rightarrow>
                 if d = CHR ''+'' \<or> d = CHR ''-'' then map_option (apfst ((@) [c, d])) (read_digits r')
                 else map_option (apfst ((#) c)) (read_digits r)
             | [] \<Rightarrow> None)
          else Some ([], s)
      | [] \<Rightarrow> Some ([], s))"

definition read_number :: "string \<Rightarrow> (jvalue \<times> string) option" where
  "read_number s =
     (let (sign, s0) = (if has_prefix s ''-'' then (''-'', drop 1 s) else ('''', s))
      in do {
        (int, s1) \<leftarrow> read_integer s0;
        (frac, s2) \<leftarrow> read_fraction s1;
        (expo, s3) \<leftarrow> read_exponent s2;
        Some (VNumber (sign @ int @ frac @ expo), s3)
      })"

fun parse_value :: "nat \<Rightarrow> string \<Rightarrow> (jvalue \<times> string) option"
  and parse_elements :: "nat \<Rightarrow> string \<Rightarrow> (jvalue list \<times> string) option"
  and parse_members :: "nat \<Rightarrow> string \<Rightarrow> ((string \<times> jvalue) list \<times> string) option" where
  "parse_value 0 s = None"
| "parse_value (Suc n) s =
     (case skip_ws s of
        [] \<Rightarrow> None
      | c # r \<Rightarrow>
          if c = CHR 0x22 then map_option (apfst VString) (read_string r)
          else if c = CHR ''{'' then
            (case expect CHR ''}'' r of
               Some r' \<Rightarrow> Some (VObject [], r')
             | None \<Rightarrow> map_option (apfst VObject) (parse_members n r))
          else if c = CHR ''['' then
            (case expect CHR '']'' r of
               Some r' \<Rightarrow> Some (VArray [], r')
             | None \<Rightarrow> map_option (apfst VArray) (parse_elements n r))
          else if c = CHR ''t'' then read_word ''true'' (VBool True) (c # r)
          else if c = CHR ''f'' then read_word ''false'' (VBool False) (c # r)
          else if c = CHR ''n'' then read_word ''null'' VNull (c # r)
          else read_number (c # r))"
| "parse_elements 0 s = None"
| "parse_elements (Suc n) s = do {
     (v, r) \<leftarrow> parse_value n s;
     (case expect CHR '','' r of
        Some r' \<Rightarrow> map_option (apfst ((#) v)) (parse_elements n r')
      | None \<Rightarrow> map_option (Pair [v]) (expect CHR '']'' r))
   }"
| "parse_members 0 s = None"
| "parse_members (Suc n) s = do {
     r0 \<leftarrow> expect CHR 0x22 s;
     (k, r1) \<leftarrow> read_string r0;
     r2 \<leftarrow> expect CHR '':'' r1;
     (v, r) \<leftarrow> parse_value n r2;
     (case expect CHR '','' r of
        Some r' \<Rightarrow> map_option (apfst ((#) (k, v))) (parse_members n r')
      | None \<Rightarrow> map_option (Pair [(k, v)]) (expect CHR ''}'' r))
   }"

text \<open>Exactly one value, and nothing but white space after it (\<^verbatim>\<open>requireEOF\<close>).\<close>

definition parse_json :: "string \<Rightarrow> jvalue option" where
  "parse_json s = do {
     (v, r) \<leftarrow> parse_value (2 * length s + 1) s;
     if skip_ws r = [] then Some v else None
   }"

section \<open>Inspection\<close>

definition maxNestingDepth :: nat where "maxNestingDepth = 100"

fun inspectValue :: "nat \<Rightarrow> jvalue \<Rightarrow> error option"
  and inspect_elements :: "nat \<Rightarrow> jvalue list \<Rightarrow> error option"
  and inspect_members :: "nat \<Rightarrow> string list \<Rightarrow> (string \<times> jvalue) list \<Rightarrow> error option" where
  "inspectValue depth (VArray vs) = errs
     [ensure (depth < maxNestingDepth) ''nesting exceeds the maximum'', inspect_elements depth vs]"
| "inspectValue depth (VObject kvs) = errs
     [ensure (depth < maxNestingDepth) ''nesting exceeds the maximum'', inspect_members depth [] kvs]"
| "inspectValue depth _ = None"
| "inspect_elements depth [] = None"
| "inspect_elements depth (v # vs) = errs [inspectValue (depth + 1) v, inspect_elements depth vs]"
| "inspect_members depth seen [] = None"
| "inspect_members depth seen ((k, v) # kvs) = errs
     [ensure (k \<notin> set seen) ''duplicate key'', inspectValue (depth + 1) v, inspect_members depth (k # seen) kvs]"

section \<open>Assignment to Go values\<close>

text \<open>
  A setter assigns a value to one destination; \<open>None\<close> is an \<^verbatim>\<open>UnmarshalTypeError\<close>. A JSON null
  leaves a string, number, boolean or struct as it is and makes a slice nil.
\<close>

type_synonym 'r setter = "jvalue \<Rightarrow> 'r \<Rightarrow> 'r option"

definition set_string :: "((string \<Rightarrow> string) \<Rightarrow> 'r \<Rightarrow> 'r) \<Rightarrow> 'r setter" where
  "set_string upd v r = (case v of VString s \<Rightarrow> Some (upd (\<lambda>_. s) r) | VNull \<Rightarrow> Some r | _ \<Rightarrow> None)"

definition set_bool :: "((bool \<Rightarrow> bool) \<Rightarrow> 'r \<Rightarrow> 'r) \<Rightarrow> 'r setter" where
  "set_bool upd v r = (case v of VBool b \<Rightarrow> Some (upd (\<lambda>_. b) r) | VNull \<Rightarrow> Some r | _ \<Rightarrow> None)"

definition set_uint :: "(('n::len word \<Rightarrow> 'n word) \<Rightarrow> 'r \<Rightarrow> 'r) \<Rightarrow> 'r setter" where
  "set_uint upd v r =
     (case v of
        VNumber lit \<Rightarrow> map_option (\<lambda>n. upd (\<lambda>_. word_of_nat n) r) (parse_uint LENGTH('n) lit)
      | VNull \<Rightarrow> Some r
      | _ \<Rightarrow> None)"

text \<open>Elements of an array are decoded over the elements the slice already has.\<close>

fun string_elements :: "string list \<Rightarrow> jvalue list \<Rightarrow> string list option" where
  "string_elements old [] = Some []"
| "string_elements old (v # vs) = do {
     s \<leftarrow> (case v of VString s \<Rightarrow> Some s | VNull \<Rightarrow> Some (case old of [] \<Rightarrow> [] | x # _ \<Rightarrow> x) | _ \<Rightarrow> None);
     ss \<leftarrow> string_elements (tl old) vs;
     Some (s # ss)
   }"

definition set_slice :: "((string list option \<Rightarrow> string list option) \<Rightarrow> 'r \<Rightarrow> 'r) \<Rightarrow> ('r \<Rightarrow> string list option) \<Rightarrow> 'r setter" where
  "set_slice upd get v r =
     (case v of
        VArray vs \<Rightarrow> map_option (\<lambda>ss. upd (\<lambda>_. Some ss) r) (string_elements (case get r of None \<Rightarrow> [] | Some xs \<Rightarrow> xs) vs)
      | VNull \<Rightarrow> Some (upd (\<lambda>_. None) r)
      | _ \<Rightarrow> None)"

text \<open>
  A field is found by its exact name or, failing that, by the name with case folded the way
  \<^verbatim>\<open>encoding/json\<close> folds it: to upper case in ASCII, with U+017F and U+212A folding to S and K.
\<close>

definition fold_rune :: "nat \<Rightarrow> nat" where
  "fold_rune r = (if in_range 97 122 r then r - 32 else if r = 383 then 83 else if r = 8490 then 75 else r)"

definition fold_name :: "string \<Rightarrow> nat list" where
  "fold_name s = map fold_rune (runes s)"

definition find_field :: "(string \<times> 'r setter) list \<Rightarrow> string \<Rightarrow> 'r setter option" where
  "find_field schema key =
     (case map_of schema key of
        Some s \<Rightarrow> Some s
      | None \<Rightarrow> map_of (map (\<lambda>(name, s). (fold_name name, s)) schema) (fold_name key))"

text \<open>\<^verbatim>\<open>DisallowUnknownFields\<close>: a member without a field is an error.\<close>

fun assign_members :: "(string \<times> 'r setter) list \<Rightarrow> (string \<times> jvalue) list \<Rightarrow> 'r \<Rightarrow> 'r option" where
  "assign_members schema [] r = Some r"
| "assign_members schema ((k, v) # kvs) r = do {
     s \<leftarrow> find_field schema k;
     r' \<leftarrow> s v r;
     assign_members schema kvs r'
   }"

definition assign_struct :: "(string \<times> 'r setter) list \<Rightarrow> jvalue \<Rightarrow> 'r \<Rightarrow> 'r option" where
  "assign_struct schema v r =
     (case v of VObject kvs \<Rightarrow> assign_members schema kvs r | VNull \<Rightarrow> Some r | _ \<Rightarrow> None)"

definition set_struct :: "(('s \<Rightarrow> 's) \<Rightarrow> 'r \<Rightarrow> 'r) \<Rightarrow> ('r \<Rightarrow> 's) \<Rightarrow> (string \<times> 's setter) list \<Rightarrow> 'r setter" where
  "set_struct upd get schema v r = map_option (\<lambda>s. upd (\<lambda>_. s) r) (assign_struct schema v (get r))"

section \<open>Decode\<close>

text \<open>
  Both passes over the data fail on the same inputs outside the grammar, so the model parses once.
\<close>

definition Decode :: "(jvalue \<Rightarrow> 'r option) \<Rightarrow> string \<Rightarrow> 'r res" where
  "Decode assign data =
     require (ensure (valid_string data) ''input is not valid UTF-8'')
       (case parse_json data of
          None \<Rightarrow> Inl (errorf ''invalid JSON or trailing data'')
        | Some v \<Rightarrow>
            require (inspectValue 0 v)
              (case assign v of None \<Rightarrow> Inl (errorf ''value does not fit the closed schema'') | Some r \<Rightarrow> Inr r))"


section \<open>Reading consumes input\<close>

lemma length_drop_skip: "length (skip_ws s) \<le> length s"
  by (simp add: skip_ws_def length_dropWhile_le)

lemma expect_shorter: "expect c s = Some r \<Longrightarrow> length r < length s"
  using length_drop_skip [of s] by (auto simp: expect_def split: list.splits if_splits)

lemma read_string_shorter: "read_string s = Some (x, r) \<Longrightarrow> length r < length s"
proof (induction s arbitrary: x r rule: read_string.induct)
  case 1
  then show ?case by simp
next
  case (2 c s)
  then show ?case
    by (fastforce split: if_splits list.splits option.splits)
qed

lemma read_digits_shorter: "read_digits s = Some (x, r) \<Longrightarrow> length r < length s"
proof -
  assume "read_digits s = Some (x, r)"
  then have "r = drop (length x) s" "x = takeWhile is_digit s" "x \<noteq> []" by (auto simp: read_digits_def Let_def split: if_splits)
  then show ?thesis by (cases s) auto
qed

lemma read_number_shorter: "read_number s = Some (v, r) \<Longrightarrow> length r < length s"
proof -
  have int: "read_integer s = Some (x, r) \<Longrightarrow> length r < length s" for s x r
    by (auto simp: read_integer_def dest: read_digits_shorter split: list.splits if_splits)
  have frac: "read_fraction s = Some (x, r) \<Longrightarrow> length r \<le> length s" for s x r
    by (fastforce simp: read_fraction_def dest: read_digits_shorter split: list.splits if_splits)
  have expo: "read_exponent s = Some (x, r) \<Longrightarrow> length r \<le> length s" for s x r
    by (fastforce simp: read_exponent_def dest: read_digits_shorter split: list.splits if_splits)
  assume "read_number s = Some (v, r)"
  then show ?thesis
    by (fastforce simp: read_number_def Let_def bind_eq_Some_conv split: if_splits prod.splits dest!: int frac expo)
qed

lemma read_word_shorter: "read_word w v s = Some (x, r) \<Longrightarrow> w \<noteq> [] \<Longrightarrow> length r < length s"
  by (cases s) (auto simp: read_word_def has_prefix_def split: if_splits)

lemma parse_shorter:
  "parse_value n s = Some (v, r) \<Longrightarrow> length r < length s"
  "parse_elements n s = Some (vs, r) \<Longrightarrow> length r < length s"
  "parse_members n s = Some (kvs, r) \<Longrightarrow> length r < length s"
proof (induction n s and n s and n s arbitrary: v r and vs r and kvs r
    rule: parse_value_parse_elements_parse_members.induct)
  case (2 n s)
  show ?case
  proof (cases "skip_ws s")
    case Nil
    then show ?thesis using "2.prems" by simp
  next
    case (Cons c t)
    then have "length t < length s" using length_drop_skip [of s] by simp
    moreover have "parse_members n t = Some (kvs, r) \<Longrightarrow> c = CHR ''{'' \<Longrightarrow> expect CHR ''}'' t = None \<Longrightarrow> length r < length t"
      and "parse_elements n t = Some (vs, r) \<Longrightarrow> c = CHR ''['' \<Longrightarrow> expect CHR '']'' t = None \<Longrightarrow> length r < length t" for kvs vs
      using "2.IH" Cons by simp_all
    ultimately show ?thesis
      using "2.prems" Cons
      by (auto split: if_splits option.splits
          dest: read_string_shorter expect_shorter read_number_shorter less_trans
            read_word_shorter [where w = "''true''"] read_word_shorter [where w = "''false''"]
            read_word_shorter [where w = "''null''"])
  qed
next
  case (4 n s)
  then show ?case
    by (fastforce simp: bind_eq_Some_conv split: option.splits dest: expect_shorter)
next
  case (6 n s)
  then show ?case
    by (fastforce simp: bind_eq_Some_conv split: option.splits dest: expect_shorter read_string_shorter)
qed simp_all

text \<open>The fuel of \<open>parse_json\<close> is enough: more of it gives the same result.\<close>

lemma parse_fuel:
  "2 * length s + 1 \<le> n \<Longrightarrow> parse_value (Suc n) s = parse_value n s"
  "2 * length s + 2 \<le> n \<Longrightarrow> parse_elements (Suc n) s = parse_elements n s"
  "2 * length s + 2 \<le> n \<Longrightarrow> parse_members (Suc n) s = parse_members n s"
proof (induction n arbitrary: s)
  case (Suc n)
  {
    case 1
    show ?case
    proof (cases "skip_ws s")
      case Nil
      then show ?thesis by simp
    next
      case (Cons c t)
      then have "2 * length t + 2 \<le> n" using length_drop_skip [of s] 1 by simp
      then show ?thesis using Cons Suc.IH(2,3) [of t] by (simp split: option.split)
    qed
  next
    case 2
    have v: "parse_value (Suc n) s = parse_value n s" using 2 Suc.IH(1) [of s] by simp
    show ?case
    proof (cases "parse_value n s")
      case None
      then show ?thesis using v by simp
    next
      case (Some p)
      then obtain x r where p: "parse_value n s = Some (x, r)" by (cases p) simp
      have "parse_elements (Suc n) r' = parse_elements n r'" if "expect CHR '','' r = Some r'" for r'
        using Suc.IH(2) [of r'] expect_shorter [OF that] parse_shorter(1) [OF p] 2 by simp
      then show ?thesis using v p by (auto split: option.split)
    qed
  next
    case 3
    have v: "parse_value (Suc n) t = parse_value n t" if "length t < length s" for t
      using that 3 Suc.IH(1) [of t] by simp
    have m: "parse_members (Suc n) t = parse_members n t" if "length t < length s" for t
      using that 3 Suc.IH(3) [of t] by simp
    have step: "parse_members (Suc k) s = do {
       r0 \<leftarrow> expect CHR 0x22 s; (k', r1) \<leftarrow> read_string r0; r2 \<leftarrow> expect CHR '':'' r1; (v, r) \<leftarrow> parse_value k r2;
       (case expect CHR '','' r of Some r' \<Rightarrow> map_option (apfst ((#) (k', v))) (parse_members k r')
        | None \<Rightarrow> map_option (Pair [(k', v)]) (expect CHR ''}'' r)) }" for k
      by (rule parse_members.simps)
    show ?case
      unfolding step
    proof (intro Option.bind_cong refl, clarify, intro Option.bind_cong refl, goal_cases)
      case (1 r0 k r1 r2)
      then have "length r2 < length s"
        using expect_shorter [of "CHR 0x22" s r0] expect_shorter [of "CHR '':''" r1 r2] read_string_shorter [of r0 k r1] by simp
      then show ?case using v by simp
    next
      case (2 r0 k r1 r2 p)
      then have "length r2 < length s"
        using expect_shorter [of "CHR 0x22" s r0] expect_shorter [of "CHR '':''" r1 r2] read_string_shorter [of r0 k r1] by simp
      then have "length (snd p) < length s" using parse_shorter(1) [of n r2 "fst p" "snd p"] 2 by simp
      then show ?case
        using m by (cases p) (auto split: option.split dest!: expect_shorter)
    qed
  }
qed simp_all

section \<open>Printed values are read back\<close>

fun value_of :: "json \<Rightarrow> jvalue" where
  "value_of JNull = VNull"
| "value_of (JBool b) = VBool b"
| "value_of (JNum n) = VNumber (format_uint n)"
| "value_of (JStr s) = VString s"
| "value_of (JArr vs) = VArray (map value_of vs)"
| "value_of (JObj kvs) = VObject (map (\<lambda>(k, v). (k, value_of v)) kvs)"

text \<open>The strings of the value are UTF-8.\<close>

fun text_json :: "json \<Rightarrow> bool" where
  "text_json (JStr s) = valid_string s"
| "text_json (JArr vs) = list_all text_json vs"
| "text_json (JObj kvs) = list_all (\<lambda>(k, v). valid_string k \<and> text_json v) kvs"
| "text_json _ = True"

definition number_end :: "string \<Rightarrow> bool" where
  "number_end rest \<longleftrightarrow> (case rest of [] \<Rightarrow> True | c # _ \<Rightarrow> \<not> is_digit c \<and> c \<notin> {CHR ''.'', CHR ''e'', CHR ''E''})"

lemma number_end_simps [simp]:
  "number_end []" "number_end (CHR '','' # r)" "number_end (CHR '']'' # r)" "number_end (CHR ''}'' # r)"
  by (simp_all add: number_end_def is_digit_def in_range_def byte_def)

lemma skip_ws_Cons [simp]: "\<not> is_ws c \<Longrightarrow> skip_ws (c # s) = c # s"
  by (simp add: skip_ws_def)

lemma expect_Cons: "\<not> is_ws d \<Longrightarrow> expect c (d # s) = (if d = c then Some s else None)"
  by (simp add: expect_def)

lemma not_ws [simp]:
  "\<not> is_ws CHR 0x22" "\<not> is_ws CHR ''{''" "\<not> is_ws CHR ''}''" "\<not> is_ws CHR ''[''" "\<not> is_ws CHR '']''"
  "\<not> is_ws CHR '',''" "\<not> is_ws CHR '':''" "\<not> is_ws CHR ''t''" "\<not> is_ws CHR ''f''" "\<not> is_ws CHR ''n''"
  by (simp_all add: is_ws_def byte_def)

lemma format_uint_head: "format_uint n = c # r \<Longrightarrow> c = CHR ''0'' \<Longrightarrow> r = []"
proof (induction n arbitrary: c r rule: format_uint.induct)
  case (1 n)
  show ?case
  proof (cases "n < 10")
    case True
    then show ?thesis using "1.prems" by (simp add: format_uint.simps [of n])
  next
    case False
    then obtain d t where d: "format_uint (n div 10) = d # t"
      using format_uint_props [of "n div 10"] by (cases "format_uint (n div 10)") auto
    then have "c = d" using "1.prems" False by (simp add: format_uint.simps [of n])
    then have "t = []" using "1.IH" [OF False d] "1.prems" by simp
    with d \<open>c = d\<close> "1.prems"(2) have "format_uint (n div 10) = ''0''" by simp
    then have "decimal_value (format_uint (n div 10)) = 0"
      by (simp add: decimal_value_def digit_val_def byte_def)
    then have "n div 10 = 0" using format_uint_props [of "n div 10"] by simp
    then show ?thesis using False by simp
  qed
qed

lemma digits_before:
  assumes "\<forall>c \<in> set ds. is_digit c" and "ds \<noteq> []" and "number_end rest"
  shows "read_digits (ds @ rest) = Some (ds, rest)"
proof -
  have "takeWhile is_digit (ds @ rest) = ds"
    using assms(1,3) by (cases rest) (auto simp: takeWhile_append number_end_def)
  then show ?thesis using assms(2) by (simp add: read_digits_def)
qed

lemma read_number_format:
  assumes "number_end rest"
  shows "read_number (format_uint n @ rest) = Some (VNumber (format_uint n), rest)"
proof -
  obtain c t where f: "format_uint n = c # t" using format_uint_props [of n] by (cases "format_uint n") auto
  have d: "\<forall>x \<in> set (c # t). is_digit x" using format_uint_digits [of _ n] f by simp
  then have "\<not> has_prefix (format_uint n @ rest) ''-''"
    by (auto simp: f is_digit_def in_range_def byte_def)
  moreover have "read_integer (format_uint n @ rest) = Some (format_uint n, rest)"
    using digits_before [OF d _ assms] format_uint_head [OF f] f by (auto simp: read_integer_def)
  moreover have "read_fraction rest = Some ([], rest)" "read_exponent rest = Some ([], rest)"
    using assms by (auto simp: read_fraction_def read_exponent_def number_end_def split: list.splits)
  ultimately show ?thesis by (simp add: read_number_def)
qed

lemma print_json_head:
  obtains c t where "print_json j = c # t" "\<not> is_ws c" "c \<noteq> CHR '']''" "c \<noteq> CHR ''}''"
proof (cases j)
  case (JBool b)
  then show ?thesis using that by (cases b) auto
next
  case (JNum n)
  obtain c t where f: "format_uint n = c # t" using format_uint_props [of n] by (cases "format_uint n") auto
  then have "is_digit c" using format_uint_digits [of c n] by simp
  then have "\<not> is_ws c" "c \<noteq> CHR '']''" "c \<noteq> CHR ''}''" by (auto simp: is_ws_def is_digit_def in_range_def byte_def)
  then show ?thesis using that [of c t] JNum f by simp
qed (use that in \<open>auto simp: print_string_def split: if_splits\<close>)

lemma join_with_Cons2: "join_with sep (x # y # ys) = x @ sep @ join_with sep (y # ys)"
  by (simp add: join_with_def)

lemma read_elements:
  assumes "vs \<noteq> []"
    and "\<And>v n rest. v \<in> set vs \<Longrightarrow> number_end rest \<Longrightarrow> 2 * length (print_json v) \<le> n \<Longrightarrow>
      parse_value n (print_json v @ rest) = Some (value_of v, rest)"
    and "2 * length (join_with '','' (map print_json vs)) < n"
  shows "parse_elements n (join_with '','' (map print_json vs) @ CHR '']'' # rest) = Some (map value_of vs, rest)"
  using assms
proof (induction vs arbitrary: n)
  case (Cons v vs)
  then obtain m where n: "n = Suc m" by (cases n) auto
  show ?case
  proof (cases vs)
    case Nil
    then show ?thesis using Cons.prems(2) [of v "CHR '']'' # rest" m] Cons.prems(3) n
      by (simp add: join_with_def expect_Cons)
  next
    case (Cons w ws)
    let ?t = "join_with '','' (map print_json vs)"
    have j: "join_with '','' (map print_json (v # vs)) = print_json v @ CHR '','' # ?t"
      using Cons by (simp add: join_with_Cons2)
    have "parse_elements m (?t @ CHR '']'' # rest) = Some (map value_of vs, rest)"
      using Cons.IH [of m] Cons Cons.prems n j by auto
    moreover have "parse_value m (print_json v @ CHR '','' # ?t @ CHR '']'' # rest) = Some (value_of v, CHR '','' # ?t @ CHR '']'' # rest)"
      using Cons.prems(2) [of v _ m] Cons.prems(3) n j by simp
    ultimately show ?thesis
      unfolding j by (simp add: n expect_Cons)
  qed
qed simp

abbreviation print_member :: "string \<times> json \<Rightarrow> string" where
  "print_member \<equiv> \<lambda>(k, v). print_string k @ '':'' @ print_json v"

lemma read_members:
  assumes "kvs \<noteq> []"
    and "\<And>k v n rest. (k, v) \<in> set kvs \<Longrightarrow> number_end rest \<Longrightarrow> 2 * length (print_json v) \<le> n \<Longrightarrow>
      parse_value n (print_json v @ rest) = Some (value_of v, rest)"
    and "\<forall>(k, v) \<in> set kvs. valid_string k"
    and "2 * length (join_with '','' (map print_member kvs)) < n"
  shows "parse_members n (join_with '','' (map print_member kvs) @ CHR ''}'' # rest)
    = Some (map (\<lambda>(k, v). (k, value_of v)) kvs, rest)"
  using assms
proof (induction kvs arbitrary: n)
  case (Cons kv kvs)
  obtain k v where kv: "kv = (k, v)" by (cases kv)
  obtain m where n: "n = Suc m" using Cons.prems by (cases n) auto
  have key: "expect CHR 0x22 (print_string k @ r) = Some (tl (print_string k @ r))"
    "read_string (tl (print_string k @ r)) = Some (k, r)" for r
    using read_print_string [of k] Cons.prems(3) kv by (auto simp: print_string_def expect_Cons)
  show ?case
  proof (cases kvs)
    case Nil
    then show ?thesis using Cons.prems(2) [of k v "CHR ''}'' # rest" m] Cons.prems(4) n kv
      by (simp add: join_with_def expect_Cons key)
  next
    case (Cons w ws)
    let ?t = "join_with '','' (map print_member kvs)"
    have j: "join_with '','' (map print_member (kv # kvs)) = print_string k @ CHR '':'' # print_json v @ CHR '','' # ?t"
      using Cons kv by (simp add: join_with_Cons2)
    have "parse_members m (?t @ CHR ''}'' # rest) = Some (map (\<lambda>(k, v). (k, value_of v)) kvs, rest)"
      using Cons.IH [of m] Cons Cons.prems n j by auto
    moreover have "parse_value m (print_json v @ CHR '','' # ?t @ CHR ''}'' # rest) = Some (value_of v, CHR '','' # ?t @ CHR ''}'' # rest)"
      using Cons.prems(2) [of k v _ m] Cons.prems(4) n j kv by simp
    ultimately show ?thesis
      unfolding j by (simp add: n expect_Cons key kv)
  qed
qed simp

lemma parse_print:
  "text_json j \<Longrightarrow> number_end rest \<Longrightarrow> 2 * length (print_json j) \<le> n \<Longrightarrow>
   parse_value n (print_json j @ rest) = Some (value_of j, rest)"
proof (induction j arbitrary: n rest)
  case JNull
  then obtain m where "n = Suc m" by (cases n) auto
  then show ?case by (simp add: read_word_def)
next
  case (JBool b)
  then obtain m where "n = Suc m" by (cases n; cases b) auto
  then show ?case by (simp add: read_word_def)
next
  case (JNum x)
  obtain c t where f: "format_uint x = c # t" using format_uint_props [of x] by (cases "format_uint x") auto
  then have "is_digit c" using format_uint_digits [of c x] by simp
  then have "\<not> is_ws c" "c \<notin> {CHR 0x22, CHR ''{'', CHR ''['', CHR ''t'', CHR ''f'', CHR ''n''}"
    by (auto simp: is_ws_def is_digit_def in_range_def byte_def)
  moreover obtain m where "n = Suc m" using JNum f by (cases n) auto
  ultimately show ?case using read_number_format [OF JNum(2), of x] f by simp
next
  case (JStr s)
  then obtain m where "n = Suc m" by (cases n) (auto simp: print_string_def)
  then show ?case using read_print_string [of s rest] JStr by (simp add: print_string_def)
next
  case (JArr vs)
  then obtain m where n: "n = Suc m" by (cases n) auto
  show ?case
  proof (cases "vs = []")
    case True
    then show ?thesis using n by (simp add: join_with_def expect_Cons)
  next
    case False
    then obtain v ws where vs: "vs = v # ws" by (cases vs) auto
    obtain c t where c: "print_json v = c # t" "\<not> is_ws c" "c \<noteq> CHR '']''" by (rule print_json_head [of v])
    have "parse_elements m (join_with '','' (map print_json vs) @ CHR '']'' # rest) = Some (map value_of vs, rest)"
      by (rule read_elements [OF False]) (use JArr n in \<open>auto simp: list_all_iff\<close>)
    then show ?thesis
      using n c vs by (simp add: expect_Cons join_with_def)
  qed
next
  case (JObj kvs)
  then obtain m where n: "n = Suc m" by (cases n) auto
  show ?case
  proof (cases "kvs = []")
    case True
    then show ?thesis using n by (simp add: join_with_def expect_Cons)
  next
    case False
    then obtain k v ws where kvs: "kvs = (k, v) # ws" by (cases kvs) auto
    have "parse_members m (join_with '','' (map print_member kvs) @ CHR ''}'' # rest)
        = Some (map (\<lambda>(k, v). (k, value_of v)) kvs, rest)"
    proof (rule read_members [OF False])
      show "parse_value n' (print_json v' @ rest') = Some (value_of v', rest')"
        if "(k', v') \<in> set kvs" "number_end rest'" "2 * length (print_json v') \<le> n'" for k' v' n' rest'
        using JObj.IH [OF that(1), of v' rest' n'] that JObj.prems(1) by (auto simp: list_all_iff)
    qed (use JObj.prems n in \<open>auto simp: list_all_iff\<close>)
    then show ?thesis
      using n kvs by (simp add: expect_Cons join_with_def print_string_def)
  qed
qed

lemma parse_json_print: "text_json j \<Longrightarrow> parse_json (print_json j) = Some (value_of j)"
  using parse_print [of j "[]" "2 * length (print_json j) + 1"] by (simp add: parse_json_def skip_ws_def)

section \<open>Printed values are UTF-8\<close>

lemma rune_width_prefix:
  assumes "rune_width bs \<noteq> 0"
  shows "rune_width (bs @ cs) = rune_width bs" "rune_width (take (rune_width bs) bs) = rune_width bs"
    "rune_width bs \<le> length bs"
proof -
  obtain b r where Cons: "bs = b # r" using assms by (cases bs) auto
  have "rune_width (bs @ cs) = rune_width bs \<and> rune_width (take (rune_width bs) bs) = rune_width bs
      \<and> rune_width bs \<le> length bs"
  proof (cases rule: rune_width_cases [OF refl, of b r, folded Cons, case_names bad one two three four])
    case bad
    then show ?thesis using assms by simp
  next
    case one
    then show ?thesis by (simp add: Cons rune_width_ascii)
  next
    case (two b1 t)
    then have "\<not> b < 128" by (simp add: in_range_def)
    with two show ?thesis by (simp add: Cons rune_width.simps)
  next
    case (three b1 b2 t)
    then have "\<not> b < 128" "\<not> in_range 194 223 b" by (simp_all add: in_range_def)
    with three show ?thesis by (simp add: Cons rune_width.simps)
  next
    case (four b1 b2 b3 t)
    then have "\<not> b < 128" "\<not> in_range 194 223 b" "\<not> in_range 224 239 b" by (simp_all add: in_range_def)
    with four show ?thesis by (simp add: Cons rune_width.simps)
  qed
  then show "rune_width (bs @ cs) = rune_width bs" "rune_width (take (rune_width bs) bs) = rune_width bs"
    "rune_width bs \<le> length bs" by simp_all
qed

lemma rune_at_cong:
  assumes "rune_width bs = rune_width cs" and "\<And>i. i < rune_width cs \<Longrightarrow> bs ! i = cs ! i"
  shows "rune_at bs = rune_at cs"
  using assms by (simp add: rune_at_def split: nat.split)

lemma rune_at_prefix:
  assumes "rune_width bs \<noteq> 0"
  shows "rune_at (bs @ cs) = rune_at bs" "rune_at (take (rune_width bs) bs) = rune_at bs"
  using rune_width_prefix [OF assms] by (auto intro!: rune_at_cong simp: nth_append)

text \<open>The first segment of a string is either a lone ill-formed byte or a whole code point.\<close>

lemma scan_head:
  assumes "\<not> ill_formed (rune_at (map byte (c # s)), take (max 1 (rune_width (map byte (c # s)))) (c # s))"
  shows "rune_width (map byte (c # s)) \<noteq> 0"
proof
  assume "rune_width (map byte (c # s)) = 0"
  moreover from this have "rune_at (map byte (c # s)) = 65533" by (simp add: rune_at_def)
  ultimately show False using assms by (simp add: ill_formed_def)
qed

lemma scan_append: "valid_string s \<Longrightarrow> scan (s @ t) = scan s @ scan t"
proof (induction s rule: scan.induct)
  case (2 c s)
  let ?bs = "map byte (c # s)"
  have ok: "\<not> ill_formed (rune_at ?bs, take (max 1 (rune_width ?bs)) (c # s))"
    and rest: "valid_string (drop (max 1 (rune_width ?bs)) (c # s))"
    using "2.prems" by (auto simp: valid_string_def scan.simps Let_def)
  note w = rune_width_prefix [OF scan_head [OF ok]] rune_at_prefix [OF scan_head [OF ok]]
  let ?w = "max 1 (rune_width ?bs)"
  have "?w \<le> length (c # s)" using w(3) by simp
  then have "take ?w ((c # s) @ t) = take ?w (c # s)" "drop ?w ((c # s) @ t) = drop ?w (c # s) @ t"
    unfolding take_append drop_append by (auto simp del: drop_Cons' take_Cons')
  then show ?case
    using w(1) [of "map byte t"] w(4) [of "map byte t"] "2.IH" [OF refl refl rest] by (simp add: scan.simps Let_def)
qed simp

lemma valid_append [simp]: "valid_string s \<Longrightarrow> valid_string (s @ t) \<longleftrightarrow> valid_string t"
  by (auto simp: valid_string_def scan_append [unfolded valid_string_def])

lemma valid_Nil [simp]: "valid_string []"
  by (simp add: valid_string_def)

lemma valid_ascii_Cons: "byte c < 128 \<Longrightarrow> valid_string (c # s) \<longleftrightarrow> valid_string s"
  by (auto simp: valid_string_def scan_ascii_Cons ill_formed_def)

lemma valid_concat: "\<forall>s \<in> set ss. valid_string s \<Longrightarrow> valid_string (concat ss)"
  by (induction ss) auto

lemma valid_segment: "seg \<in> set (scan s) \<Longrightarrow> \<not> ill_formed seg \<Longrightarrow> valid_string (snd seg)"
proof (induction s rule: scan.induct)
  case (2 c s)
  let ?bs = "map byte (c # s)"
  let ?w = "max 1 (rune_width ?bs)"
  show ?case
  proof (cases "seg \<in> set (scan (drop ?w (c # s)))")
    case False
    then have seg: "seg = (rune_at ?bs, take ?w (c # s))" using "2.prems"(1) by (simp add: scan.simps Let_def)
    have nz: "rune_width ?bs \<noteq> 0" using scan_head [of c s] "2.prems"(2) seg by simp
    then have max: "?w = rune_width ?bs" by simp
    obtain r where r: "take ?w (c # s) = c # r" by (cases ?w) auto
    then have b: "map byte (c # r) = take (rune_width ?bs) ?bs" using max by (metis take_map)
    have len: "rune_width ?bs = length (c # r)"
      using rune_width_prefix(3) [OF nz] b by (metis length_map length_take min_absorb2)
    have "rune_width (map byte (c # r)) = rune_width ?bs" "rune_at (map byte (c # r)) = rune_at ?bs"
      unfolding b using rune_width_prefix(2) [OF nz] rune_at_prefix(2) [OF nz] by simp_all
    then have "scan (c # r) = [seg]"
      using seg r len by (simp add: scan.simps Let_def)
    then show ?thesis using "2.prems"(2) seg r by (simp add: valid_string_def)
  qed (use 2 in blast)
qed simp

lemma escape_u_ascii: "c \<in> set (escape_u n) \<Longrightarrow> byte c < 128"
proof -
  assume "c \<in> set (escape_u n)"
  then consider "c = CHR 0x5C" | "c = CHR ''u''" | i where "c = hex_char (n div 16 ^ (3 - i) mod 16)"
    by (auto simp: escape_u_def)
  then show ?thesis
  proof cases
    case (3 i)
    have "n div 16 ^ (3 - i) mod 16 < 16" by simp
    then show ?thesis using byte_hex_char [of "n div 16 ^ (3 - i) mod 16"] 3 by simp linarith
  qed (simp_all add: byte_def)
qed

lemma valid_escape_segment:
  assumes "seg \<in> set (scan s)"
  shows "valid_string (escape_segment seg)"
proof (cases "ill_formed seg")
  case True
  then show ?thesis
    using valid_string_ascii [of "escape_u 65533"] escape_u_ascii
    by (auto simp: escape_segment_def Let_def ill_formed_def)
next
  case False
  have u: "valid_string (escape_u n)" for n by (rule valid_string_ascii) (auto dest: escape_u_ascii)
  show ?thesis
    using valid_segment [OF assms False] False u
    by (auto simp: escape_segment_def Let_def valid_ascii_Cons byte_def)
qed

lemma valid_print_string: "valid_string (print_string s)"
proof -
  have "valid_string (concat (map escape_segment (scan s)))"
    by (rule valid_concat) (auto intro: valid_escape_segment)
  then show ?thesis by (simp add: print_string_def valid_ascii_Cons byte_values)
qed

lemma valid_join: "\<forall>w \<in> set ws. valid_string w \<Longrightarrow> valid_string (join_with '','' ws)"
  by (cases ws) (auto simp: join_with_def valid_ascii_Cons byte_def intro!: valid_concat)

lemma valid_print_json: "valid_string (print_json j)"
proof (induction j)
  case (JNum n)
  have "\<forall>c \<in> set (format_uint n). byte c < 128"
    using format_uint_digits [of _ n] by (fastforce simp: is_digit_def in_range_def)
  then show ?case by (simp add: valid_string_ascii)
next
  case (JArr vs)
  then have "valid_string (join_with '','' (map print_json vs))" by (auto intro!: valid_join)
  then show ?case by (simp add: valid_ascii_Cons byte_def)
next
  case (JObj kvs)
  have "valid_string (join_with '','' (map print_member kvs))"
    by (rule valid_join) (use JObj in \<open>fastforce simp: valid_print_string valid_ascii_Cons byte_def\<close>)
  then show ?case by (simp add: valid_ascii_Cons byte_def)
qed (simp_all add: valid_print_string valid_ascii_Cons byte_def)

text \<open>Decoding a printed value whose strings are UTF-8 is assigning that value.\<close>

lemma Decode_Marshal:
  assumes "text_json j" and "inspectValue 0 (value_of j) = None"
  shows "Decode assign (Marshal j) =
    (case assign (value_of j) of None \<Rightarrow> Inl (errorf ''value does not fit the closed schema'') | Some r \<Rightarrow> Inr r)"
  using assms by (simp add: Decode_def Marshal_def valid_print_json parse_json_print)

end
