(* ===== verification/Codec.thy ===== *)
theory Codec
  imports Ownership StrictJson
begin

text \<open>
  Decoding of the durable records of \<^verbatim>\<open>pkg/volume\<close>: \<^verbatim>\<open>DecodeAllocationRecord\<close>,
  \<^verbatim>\<open>DecodeOwnershipRecord\<close> and \<^verbatim>\<open>DecodeParentOwnerRecord\<close>, with the JSON field tags of each struct
  as its schema. The round trip is proved once, in the locale \<open>record_codec\<close>, and instantiated for
  the six record types.
\<close>

section \<open>Schemas\<close>

definition set_list :: "((string list \<Rightarrow> string list) \<Rightarrow> 'r \<Rightarrow> 'r) \<Rightarrow> ('r \<Rightarrow> string list) \<Rightarrow> 'r setter" where
  "set_list upd get v r =
     (case v of
        VArray vs \<Rightarrow> map_option (\<lambda>ss. upd (\<lambda>_. ss) r) (string_elements (get r) vs)
      | VNull \<Rightarrow> Some (upd (\<lambda>_. []) r)
      | _ \<Rightarrow> None)"

definition zero_parameters :: CreateParameters where
  "zero_parameters = \<lparr>cp_PoolName = [], cp_DeletePolicy = [], cp_DirectoryUID = 0, cp_DirectoryGID = 0,
     cp_DirectoryMode = [], cp_AccessType = [], cp_FilesystemType = [], cp_AccessModes = []\<rparr>"

definition parameters_schema :: "(string \<times> CreateParameters setter) list" where
  "parameters_schema =
    [(''poolName'', set_string cp_PoolName_update),
     (''deletePolicy'', set_string cp_DeletePolicy_update),
     (''directoryUid'', set_uint cp_DirectoryUID_update),
     (''directoryGid'', set_uint cp_DirectoryGID_update),
     (''directoryMode'', set_string cp_DirectoryMode_update),
     (''accessType'', set_string cp_AccessType_update),
     (''filesystemType'', set_string cp_FilesystemType_update),
     (''accessModes'', set_list cp_AccessModes_update cp_AccessModes)]"

definition zero_parent_owner :: ParentOwnerRecord where
  "zero_parent_owner = \<lparr>p_SchemaVersion = [], p_Revision = 0, p_DriverName = [], p_InstallationID = [],
     p_ActiveClusterUID = [], p_ParentFilesystemID = [], p_BasePath = [], p_BasePathHash = [],
     p_ControllerNamespace = [], p_HelmReleaseName = [], p_LeadershipLeaseName = [],
     p_BootstrapAttemptID = [], p_ContentChecksum = [], p_CreatedAt = []\<rparr>"

definition parent_owner_schema :: "(string \<times> ParentOwnerRecord setter) list" where
  "parent_owner_schema =
    [(''schemaVersion'', set_string p_SchemaVersion_update),
     (''revision'', set_uint p_Revision_update),
     (''driverName'', set_string p_DriverName_update),
     (''installationID'', set_string p_InstallationID_update),
     (''activeClusterUID'', set_string p_ActiveClusterUID_update),
     (''parentFilesystemID'', set_string p_ParentFilesystemID_update),
     (''basePath'', set_string p_BasePath_update),
     (''basePathHash'', set_string p_BasePathHash_update),
     (''controllerNamespace'', set_string p_ControllerNamespace_update),
     (''helmReleaseName'', set_string p_HelmReleaseName_update),
     (''leadershipLeaseName'', set_string p_LeadershipLeaseName_update),
     (''bootstrapAttemptID'', set_string p_BootstrapAttemptID_update),
     (''contentChecksum'', set_string p_ContentChecksum_update),
     (''createdAt'', set_string p_CreatedAt_update)]"

definition zero_detailed_allocation :: DetailedAllocationRecord where
  "zero_detailed_allocation = \<lparr>a_SchemaVersion = [], a_RecordKind = [], a_RecordRevision = 0, a_DriverName = [],
     a_ActiveClusterUID = [], a_State = [], a_InstallationID = [], a_CreateVolumeRequestName = [],
     a_RequestHash = [], a_OriginalRequiredBytes = 0, a_OriginalLimitBytes = 0, a_SelectedCapacityBytes = 0,
     a_NormalizedCreateParameters = zero_parameters, a_LogicalVolumeID = [], a_VolumeHandle = [],
     a_VolumeHandleHash = [], a_MappingHash = [], a_PoolName = [], a_ParentFilesystemID = [],
     a_BasePath = [], a_BasePathHash = [], a_DirectoryName = [], a_ReservesCapacity = False,
     a_DeletePolicy = [], a_DeleteResult = [], a_DeleteOperationID = [], a_DeleteOperation = [],
     a_DeleteSourcePath = [], a_DeleteTargetPath = [], a_DeletePreparedAt = [],
     a_DeleteRemoveStartedAt = [], a_DeleteCompletedAt = [], a_DirectoryUID = 0, a_DirectoryGID = 0,
     a_DirectoryMode = [], a_CreatedAt = [], a_UpdatedAt = [], a_DeletedAt = [], a_ArchivedPath = [],
     a_RetainedPath = [], a_QuarantinePath = [], a_PublishedNodeIDs = None, a_GCRequestID = [],
     a_GCRequestedMode = [], a_GCExpectedState = [], a_GCRequestedAt = [], a_GCOperationID = [],
     a_GCTargetPath = [], a_GCQuarantinePath = [], a_GCStartedAt = [], a_GCRemoveStartedAt = [],
     a_GCCompletedAt = [], a_RecoveryOperationID = [], a_RecoverySource = [], a_RecoveredAt = []\<rparr>"

definition detailed_allocation_schema :: "(string \<times> DetailedAllocationRecord setter) list" where
  "detailed_allocation_schema =
    [(''schemaVersion'', set_string a_SchemaVersion_update),
     (''recordKind'', set_string a_RecordKind_update),
     (''recordRevision'', set_uint a_RecordRevision_update),
     (''driverName'', set_string a_DriverName_update),
     (''activeClusterUID'', set_string a_ActiveClusterUID_update),
     (''state'', set_string a_State_update),
     (''installationID'', set_string a_InstallationID_update),
     (''createVolumeRequestName'', set_string a_CreateVolumeRequestName_update),
     (''requestHash'', set_string a_RequestHash_update),
     (''originalRequiredBytes'', set_uint a_OriginalRequiredBytes_update),
     (''originalLimitBytes'', set_uint a_OriginalLimitBytes_update),
     (''selectedCapacityBytes'', set_uint a_SelectedCapacityBytes_update),
     (''normalizedCreateParameters'', set_struct a_NormalizedCreateParameters_update a_NormalizedCreateParameters parameters_schema),
     (''logicalVolumeID'', set_string a_LogicalVolumeID_update),
     (''volumeHandle'', set_string a_VolumeHandle_update),
     (''volumeHandleHash'', set_string a_VolumeHandleHash_update),
     (''mappingHash'', set_string a_MappingHash_update),
     (''poolName'', set_string a_PoolName_update),
     (''parentFilesystemID'', set_string a_ParentFilesystemID_update),
     (''basePath'', set_string a_BasePath_update),
     (''basePathHash'', set_string a_BasePathHash_update),
     (''directoryName'', set_string a_DirectoryName_update),
     (''reservesCapacity'', set_bool a_ReservesCapacity_update),
     (''deletePolicy'', set_string a_DeletePolicy_update),
     (''deleteResult'', set_string a_DeleteResult_update),
     (''deleteOperationID'', set_string a_DeleteOperationID_update),
     (''deleteOperation'', set_string a_DeleteOperation_update),
     (''deleteSourcePath'', set_string a_DeleteSourcePath_update),
     (''deleteTargetPath'', set_string a_DeleteTargetPath_update),
     (''deletePreparedAt'', set_string a_DeletePreparedAt_update),
     (''deleteRemoveStartedAt'', set_string a_DeleteRemoveStartedAt_update),
     (''deleteCompletedAt'', set_string a_DeleteCompletedAt_update),
     (''directoryUid'', set_uint a_DirectoryUID_update),
     (''directoryGid'', set_uint a_DirectoryGID_update),
     (''directoryMode'', set_string a_DirectoryMode_update),
     (''createdAt'', set_string a_CreatedAt_update),
     (''updatedAt'', set_string a_UpdatedAt_update),
     (''deletedAt'', set_string a_DeletedAt_update),
     (''archivedPath'', set_string a_ArchivedPath_update),
     (''retainedPath'', set_string a_RetainedPath_update),
     (''quarantinePath'', set_string a_QuarantinePath_update),
     (''publishedNodeIDs'', set_slice a_PublishedNodeIDs_update a_PublishedNodeIDs),
     (''gcRequestID'', set_string a_GCRequestID_update),
     (''gcRequestedMode'', set_string a_GCRequestedMode_update),
     (''gcExpectedState'', set_string a_GCExpectedState_update),
     (''gcRequestedAt'', set_string a_GCRequestedAt_update),
     (''gcOperationID'', set_string a_GCOperationID_update),
     (''gcTargetPath'', set_string a_GCTargetPath_update),
     (''gcQuarantinePath'', set_string a_GCQuarantinePath_update),
     (''gcStartedAt'', set_string a_GCStartedAt_update),
     (''gcRemoveStartedAt'', set_string a_GCRemoveStartedAt_update),
     (''gcCompletedAt'', set_string a_GCCompletedAt_update),
     (''recoveryOperationID'', set_string a_RecoveryOperationID_update),
     (''recoverySource'', set_string a_RecoverySource_update),
     (''recoveredAt'', set_string a_RecoveredAt_update)]"

definition zero_compact_allocation :: CompactDeletedAllocationRecord where
  "zero_compact_allocation = \<lparr>ca_SchemaVersion = [], ca_RecordKind = [], ca_RecordRevision = 0, ca_DriverName = [],
     ca_InstallationID = [], ca_ActiveClusterUID = [], ca_CreateVolumeRequestName = [],
     ca_LogicalVolumeID = [], ca_VolumeHandleHash = [], ca_MappingHash = [], ca_State = [],
     ca_ParentFilesystemID = [], ca_DirectoryName = [], ca_ReservesCapacity = False, ca_DeleteResult = [],
     ca_UpdatedAt = [], ca_DeletedAt = [], ca_DeleteOperationID = [], ca_DeleteOperation = [],
     ca_ArchivedPath = [], ca_RetainedPath = [], ca_QuarantinePath = [], ca_DeleteCompletedAt = [],
     ca_GCOperationID = [], ca_GCTargetPath = [], ca_GCQuarantinePath = [], ca_GCCompletedAt = []\<rparr>"

definition compact_allocation_schema :: "(string \<times> CompactDeletedAllocationRecord setter) list" where
  "compact_allocation_schema =
    [(''schemaVersion'', set_string ca_SchemaVersion_update),
     (''recordKind'', set_string ca_RecordKind_update),
     (''recordRevision'', set_uint ca_RecordRevision_update),
     (''driverName'', set_string ca_DriverName_update),
     (''installationID'', set_string ca_InstallationID_update),
     (''activeClusterUID'', set_string ca_ActiveClusterUID_update),
     (''createVolumeRequestName'', set_string ca_CreateVolumeRequestName_update),
     (''logicalVolumeID'', set_string ca_LogicalVolumeID_update),
     (''volumeHandleHash'', set_string ca_VolumeHandleHash_update),
     (''mappingHash'', set_string ca_MappingHash_update),
     (''state'', set_string ca_State_update),
     (''parentFilesystemID'', set_string ca_ParentFilesystemID_update),
     (''directoryName'', set_string ca_DirectoryName_update),
     (''reservesCapacity'', set_bool ca_ReservesCapacity_update),
     (''deleteResult'', set_string ca_DeleteResult_update),
     (''updatedAt'', set_string ca_UpdatedAt_update),
     (''deletedAt'', set_string ca_DeletedAt_update),
     (''deleteOperationID'', set_string ca_DeleteOperationID_update),
     (''deleteOperation'', set_string ca_DeleteOperation_update),
     (''archivedPath'', set_string ca_ArchivedPath_update),
     (''retainedPath'', set_string ca_RetainedPath_update),
     (''quarantinePath'', set_string ca_QuarantinePath_update),
     (''deleteCompletedAt'', set_string ca_DeleteCompletedAt_update),
     (''gcOperationID'', set_string ca_GCOperationID_update),
     (''gcTargetPath'', set_string ca_GCTargetPath_update),
     (''gcQuarantinePath'', set_string ca_GCQuarantinePath_update),
     (''gcCompletedAt'', set_string ca_GCCompletedAt_update)]"

definition zero_unknown_allocation :: DeletedUnknownAllocationRecord where
  "zero_unknown_allocation = \<lparr>ua_SchemaVersion = [], ua_RecordKind = [], ua_RecordRevision = 0, ua_DriverName = [],
     ua_InstallationID = [], ua_ActiveClusterUID = [], ua_LogicalVolumeID = [], ua_VolumeHandleHash = [],
     ua_MappingHash = [], ua_State = [], ua_ReservesCapacity = False, ua_AbsenceReason = [],
     ua_CreatedAt = [], ua_UpdatedAt = [], ua_DeletedAt = []\<rparr>"

definition unknown_allocation_schema :: "(string \<times> DeletedUnknownAllocationRecord setter) list" where
  "unknown_allocation_schema =
    [(''schemaVersion'', set_string ua_SchemaVersion_update),
     (''recordKind'', set_string ua_RecordKind_update),
     (''recordRevision'', set_uint ua_RecordRevision_update),
     (''driverName'', set_string ua_DriverName_update),
     (''installationID'', set_string ua_InstallationID_update),
     (''activeClusterUID'', set_string ua_ActiveClusterUID_update),
     (''logicalVolumeID'', set_string ua_LogicalVolumeID_update),
     (''volumeHandleHash'', set_string ua_VolumeHandleHash_update),
     (''mappingHash'', set_string ua_MappingHash_update),
     (''state'', set_string ua_State_update),
     (''reservesCapacity'', set_bool ua_ReservesCapacity_update),
     (''absenceReason'', set_string ua_AbsenceReason_update),
     (''createdAt'', set_string ua_CreatedAt_update),
     (''updatedAt'', set_string ua_UpdatedAt_update),
     (''deletedAt'', set_string ua_DeletedAt_update)]"

definition zero_detailed_ownership :: DetailedOwnershipRecord where
  "zero_detailed_ownership = \<lparr>o_SchemaVersion = [], o_RecordKind = [], o_DriverName = [], o_InstallationID = [],
     o_ActiveClusterUID = [], o_VolumeHandle = [], o_VolumeHandleHash = [], o_LogicalVolumeID = [],
     o_MappingHash = [], o_PoolName = [], o_ParentFilesystemID = [], o_BasePath = [], o_BasePathHash = [],
     o_DirectoryName = [], o_CreateVolumeRequestName = [], o_RequestHash = [], o_OriginalRequiredBytes = 0,
     o_OriginalLimitBytes = 0, o_SelectedCapacityBytes = 0, o_NormalizedCreateParameters = zero_parameters,
     o_DeletePolicy = [], o_DirectoryUID = 0, o_DirectoryGID = 0, o_DirectoryMode = [],
     o_PublishedNodeIDs = None, o_State = [], o_Revision = 0, o_ContentChecksum = [], o_CreatedAt = [],
     o_DeleteOperationID = [], o_DeleteOperation = [], o_DeleteSourcePath = [], o_DeleteTargetPath = [],
     o_DeletePreparedAt = [], o_DeleteRemoveStartedAt = [], o_DeleteCompletedAt = [], o_ArchivedPath = [],
     o_RetainedPath = [], o_QuarantinePath = [], o_GCRequestID = [], o_GCRequestedMode = [],
     o_GCExpectedState = [], o_GCRequestedAt = [], o_GCOperationID = [], o_GCTargetPath = [],
     o_GCQuarantinePath = [], o_GCStartedAt = [], o_GCRemoveStartedAt = [], o_GCCompletedAt = []\<rparr>"

definition detailed_ownership_schema :: "(string \<times> DetailedOwnershipRecord setter) list" where
  "detailed_ownership_schema =
    [(''schemaVersion'', set_string o_SchemaVersion_update),
     (''recordKind'', set_string o_RecordKind_update),
     (''driverName'', set_string o_DriverName_update),
     (''installationID'', set_string o_InstallationID_update),
     (''activeClusterUID'', set_string o_ActiveClusterUID_update),
     (''volumeHandle'', set_string o_VolumeHandle_update),
     (''volumeHandleHash'', set_string o_VolumeHandleHash_update),
     (''logicalVolumeID'', set_string o_LogicalVolumeID_update),
     (''mappingHash'', set_string o_MappingHash_update),
     (''poolName'', set_string o_PoolName_update),
     (''parentFilesystemID'', set_string o_ParentFilesystemID_update),
     (''basePath'', set_string o_BasePath_update),
     (''basePathHash'', set_string o_BasePathHash_update),
     (''directoryName'', set_string o_DirectoryName_update),
     (''createVolumeRequestName'', set_string o_CreateVolumeRequestName_update),
     (''requestHash'', set_string o_RequestHash_update),
     (''originalRequiredBytes'', set_uint o_OriginalRequiredBytes_update),
     (''originalLimitBytes'', set_uint o_OriginalLimitBytes_update),
     (''selectedCapacityBytes'', set_uint o_SelectedCapacityBytes_update),
     (''normalizedCreateParameters'', set_struct o_NormalizedCreateParameters_update o_NormalizedCreateParameters parameters_schema),
     (''deletePolicy'', set_string o_DeletePolicy_update),
     (''directoryUid'', set_uint o_DirectoryUID_update),
     (''directoryGid'', set_uint o_DirectoryGID_update),
     (''directoryMode'', set_string o_DirectoryMode_update),
     (''publishedNodeIDs'', set_slice o_PublishedNodeIDs_update o_PublishedNodeIDs),
     (''state'', set_string o_State_update),
     (''revision'', set_uint o_Revision_update),
     (''contentChecksum'', set_string o_ContentChecksum_update),
     (''createdAt'', set_string o_CreatedAt_update),
     (''deleteOperationID'', set_string o_DeleteOperationID_update),
     (''deleteOperation'', set_string o_DeleteOperation_update),
     (''deleteSourcePath'', set_string o_DeleteSourcePath_update),
     (''deleteTargetPath'', set_string o_DeleteTargetPath_update),
     (''deletePreparedAt'', set_string o_DeletePreparedAt_update),
     (''deleteRemoveStartedAt'', set_string o_DeleteRemoveStartedAt_update),
     (''deleteCompletedAt'', set_string o_DeleteCompletedAt_update),
     (''archivedPath'', set_string o_ArchivedPath_update),
     (''retainedPath'', set_string o_RetainedPath_update),
     (''quarantinePath'', set_string o_QuarantinePath_update),
     (''gcRequestID'', set_string o_GCRequestID_update),
     (''gcRequestedMode'', set_string o_GCRequestedMode_update),
     (''gcExpectedState'', set_string o_GCExpectedState_update),
     (''gcRequestedAt'', set_string o_GCRequestedAt_update),
     (''gcOperationID'', set_string o_GCOperationID_update),
     (''gcTargetPath'', set_string o_GCTargetPath_update),
     (''gcQuarantinePath'', set_string o_GCQuarantinePath_update),
     (''gcStartedAt'', set_string o_GCStartedAt_update),
     (''gcRemoveStartedAt'', set_string o_GCRemoveStartedAt_update),
     (''gcCompletedAt'', set_string o_GCCompletedAt_update)]"

definition zero_compact_ownership :: CompactDeletedOwnershipRecord where
  "zero_compact_ownership = \<lparr>co_SchemaVersion = [], co_RecordKind = [], co_Revision = 0, co_DriverName = [], co_InstallationID = [],
     co_ActiveClusterUID = [], co_VolumeHandleHash = [], co_LogicalVolumeID = [],
     co_CreateVolumeRequestName = [], co_MappingHash = [], co_ParentFilesystemID = [], co_BasePathHash = [],
     co_DirectoryName = [], co_State = [], co_DeleteResult = [], co_UpdatedAt = [], co_DeletedAt = [],
     co_ContentChecksum = [], co_DeleteOperation = [], co_ArchivedPath = [], co_RetainedPath = [],
     co_QuarantinePath = [], co_DeleteOperationID = [], co_DeleteCompletedAt = [], co_GCOperationID = [],
     co_GCTargetPath = [], co_GCQuarantinePath = [], co_GCCompletedAt = []\<rparr>"

definition compact_ownership_schema :: "(string \<times> CompactDeletedOwnershipRecord setter) list" where
  "compact_ownership_schema =
    [(''schemaVersion'', set_string co_SchemaVersion_update),
     (''recordKind'', set_string co_RecordKind_update),
     (''revision'', set_uint co_Revision_update),
     (''driverName'', set_string co_DriverName_update),
     (''installationID'', set_string co_InstallationID_update),
     (''activeClusterUID'', set_string co_ActiveClusterUID_update),
     (''volumeHandleHash'', set_string co_VolumeHandleHash_update),
     (''logicalVolumeID'', set_string co_LogicalVolumeID_update),
     (''createVolumeRequestName'', set_string co_CreateVolumeRequestName_update),
     (''mappingHash'', set_string co_MappingHash_update),
     (''parentFilesystemID'', set_string co_ParentFilesystemID_update),
     (''basePathHash'', set_string co_BasePathHash_update),
     (''directoryName'', set_string co_DirectoryName_update),
     (''state'', set_string co_State_update),
     (''deleteResult'', set_string co_DeleteResult_update),
     (''updatedAt'', set_string co_UpdatedAt_update),
     (''deletedAt'', set_string co_DeletedAt_update),
     (''contentChecksum'', set_string co_ContentChecksum_update),
     (''deleteOperation'', set_string co_DeleteOperation_update),
     (''archivedPath'', set_string co_ArchivedPath_update),
     (''retainedPath'', set_string co_RetainedPath_update),
     (''quarantinePath'', set_string co_QuarantinePath_update),
     (''deleteOperationID'', set_string co_DeleteOperationID_update),
     (''deleteCompletedAt'', set_string co_DeleteCompletedAt_update),
     (''gcOperationID'', set_string co_GCOperationID_update),
     (''gcTargetPath'', set_string co_GCTargetPath_update),
     (''gcQuarantinePath'', set_string co_GCQuarantinePath_update),
     (''gcCompletedAt'', set_string co_GCCompletedAt_update)]"

section \<open>Decoders\<close>

text \<open>
  The first pass decodes into \<^verbatim>\<open>map[string]json.RawMessage\<close>; the raw \<^verbatim>\<open>recordKind\<close> is then decoded
  into a string. Its text is the member's, so the model decodes the member's value.
\<close>

definition object_members :: "jvalue \<Rightarrow> (string \<times> jvalue) list option" where
  "object_members v = (case v of VObject kvs \<Rightarrow> Some kvs | VNull \<Rightarrow> Some [] | _ \<Rightarrow> None)"

definition kind_string :: "jvalue \<Rightarrow> string res" where
  "kind_string v = (case v of VString s \<Rightarrow> Inr s | VNull \<Rightarrow> Inr [] | _ \<Rightarrow> Inl (errorf ''decode record kind''))"

definition record_kind :: "string \<Rightarrow> string res" where
  "record_kind data =
     and_then (Decode object_members data) (\<lambda>members.
       case map_of members ''recordKind'' of
         None \<Rightarrow> Inl (errorf ''record kind is missing'')
       | Some raw \<Rightarrow> kind_string raw)"

definition decode_struct :: "(string \<times> 'r setter) list \<Rightarrow> 'r \<Rightarrow> string \<Rightarrow> 'r res" where
  "decode_struct schema zero data = Decode (\<lambda>v. assign_struct schema v zero) data"

definition DecodeAllocationRecord :: "string \<Rightarrow> AllocationRecord res" where
  "DecodeAllocationRecord data =
     and_then (record_kind data) (\<lambda>kind.
     and_then
       (if kind = AllocationRecordDetailed then
          map_sum id DetailedA (decode_struct detailed_allocation_schema zero_detailed_allocation data)
        else if kind = AllocationRecordCompactDeleted then
          map_sum id CompactA (decode_struct compact_allocation_schema zero_compact_allocation data)
        else if kind = AllocationRecordDeletedUnknown then
          map_sum id UnknownA (decode_struct unknown_allocation_schema zero_unknown_allocation data)
        else Inl (errorf ''allocation record kind is unsupported'')) (\<lambda>record.
     require (Allocation_Validate record) (Inr record)))"

definition DecodeOwnershipRecord :: "string \<Rightarrow> OwnershipRecord res" where
  "DecodeOwnershipRecord data =
     and_then (record_kind data) (\<lambda>kind.
     and_then
       (if kind = OwnershipRecordDetailed then
          map_sum id DetailedO (decode_struct detailed_ownership_schema zero_detailed_ownership data)
        else if kind = OwnershipRecordCompactDeleted then
          map_sum id CompactO (decode_struct compact_ownership_schema zero_compact_ownership data)
        else Inl (errorf ''ownership record kind is unsupported'')) (\<lambda>record.
     require (Ownership_Validate record) (Inr record)))"

definition DecodeParentOwnerRecord :: "string \<Rightarrow> ParentOwnerRecord res" where
  "DecodeParentOwnerRecord data =
     and_then (decode_struct parent_owner_schema zero_parent_owner data) (\<lambda>record.
     require (Parent_Validate record) (Inr record))"

section \<open>The round trip of one record type\<close>

abbreviation value_member :: "string \<times> json \<Rightarrow> string \<times> jvalue" where
  "value_member \<equiv> \<lambda>(k, v). (k, value_of v)"

lemma inspect_members_None:
  "inspect_members d seen kvs = None \<longleftrightarrow>
     distinct (map fst kvs) \<and> (\<forall>m \<in> set kvs. fst m \<notin> set seen \<and> inspectValue (d + 1) (snd m) = None)"
proof (induction kvs arbitrary: seen)
  case (Cons m kvs)
  obtain k v where m: "m = (k, v)" by (cases m)
  have "k \<notin> fst ` set kvs \<longleftrightarrow> (\<forall>x \<in> set kvs. fst x \<noteq> k)" by auto
  with Cons show ?case by (auto simp: m)
qed simp

lemma distinct_pieces:
  assumes "list_all2 (\<lambda>p k. p = [] \<or> map fst p = [k]) pieces names" and "distinct names"
  shows "distinct (map fst (concat pieces))"
proof -
  have "distinct (map fst (concat pieces)) \<and> set (map fst (concat pieces)) \<subseteq> set names"
    using assms by (induction pieces names rule: list_all2_induct) force+
  then show ?thesis by simp
qed

lemma piece_keys [simp]:
  "field k v = [] \<or> map fst (field k v) = [k]" "omit_empty k s = [] \<or> map fst (omit_empty k s) = [k]"
  by (simp_all add: field_def omit_empty_def)

locale record_codec =
  fixes schema :: "(string \<times> 'r setter) list" and zero :: 'r and members :: "'r \<Rightarrow> (string \<times> json) list"
  assumes keys: "distinct (map fst (members r))"
    and flat: "(k, v) \<in> set (members r) \<Longrightarrow> inspectValue 1 (value_of v) = None"
    and fits: "assign_members schema (map value_member (members r)) zero = Some r"
begin

lemma inspected: "inspectValue 0 (value_of (JObj (members r))) = None"
proof -
  have "fst \<circ> value_member = fst" by auto
  then show ?thesis
    using keys [of r] flat [of _ _ r] by (auto simp: inspect_members_None maxNestingDepth_def)
qed

lemma decode_marshal:
  "text_json (JObj (members r)) \<Longrightarrow> decode_struct schema zero (Marshal (JObj (members r))) = Inr r"
  unfolding decode_struct_def
  using fits [of r] by (subst Decode_Marshal [OF _ inspected]) (auto simp: assign_struct_def)

lemma kind_marshal:
  assumes "text_json (JObj (members r))" and "(''recordKind'', JStr kind) \<in> set (members r)"
  shows "record_kind (Marshal (JObj (members r))) = Inr kind"
proof -
  have "map_of (members r) ''recordKind'' = Some (JStr kind)" using keys assms(2) by simp
  moreover have "map_of (map value_member kvs) k = map_option value_of (map_of kvs k)" for kvs k
    by (induction kvs) auto
  ultimately show ?thesis
    unfolding record_kind_def Decode_Marshal [OF assms(1) inspected] by (simp add: object_members_def kind_string_def)
qed

end

section \<open>The six record types\<close>

text \<open>The members hold strings, numbers, booleans, an array of strings or the create parameters.\<close>

definition flat_member :: "json \<Rightarrow> bool" where
  "flat_member v \<longleftrightarrow> inspectValue 1 (value_of v) = None"

lemma flat_members: "(k, v) \<in> set (concat pieces) \<Longrightarrow> list_all (list_all (\<lambda>m. flat_member (snd m))) pieces \<Longrightarrow> inspectValue 1 (value_of v) = None"
  by (fastforce simp: list_all_iff flat_member_def)

lemma find_field_known: "map_of schema k = Some s \<Longrightarrow> find_field schema k = Some s"
  by (simp add: find_field_def)

text \<open>One member at a time; an omitted empty string leaves the field as it is.\<close>

lemma step_string:
  "find_field schema k = Some (set_string upd) \<Longrightarrow>
   assign_members schema (map value_member (field k (JStr v)) @ kvs) r = assign_members schema kvs (upd (\<lambda>_. v) r)"
  by (simp add: field_def set_string_def)

lemma step_omit:
  "find_field schema k = Some (set_string upd) \<Longrightarrow> (\<And>r. upd (\<lambda>x. x) r = r) \<Longrightarrow>
   assign_members schema (map value_member (omit_empty k v) @ kvs) r
     = assign_members schema kvs (upd (\<lambda>x. if v = [] then x else v) r)"
  by (simp add: omit_empty_def set_string_def)

lemma step_bool:
  "find_field schema k = Some (set_bool upd) \<Longrightarrow>
   assign_members schema (map value_member (field k (JBool v)) @ kvs) r = assign_members schema kvs (upd (\<lambda>_. v) r)"
  by (simp add: field_def set_bool_def)

lemma set_uint_value:
  fixes v :: "'n::len word"
  shows "set_uint upd (VNumber (format_uint (unat v))) r = Some (upd (\<lambda>_. v) r)"
  using unsigned_less [of v] by (simp add: set_uint_def parse_format_uint)

lemma step_uint:
  fixes v :: "'n::len word"
  shows "find_field schema k = Some (set_uint upd) \<Longrightarrow>
   assign_members schema (map value_member (field k (JNum (unat v))) @ kvs) r = assign_members schema kvs (upd (\<lambda>_. v) r)"
  by (simp add: field_def set_uint_value)

lemma string_elements_values: "string_elements old (map (value_of \<circ> JStr) ss) = Some ss"
  by (induction ss arbitrary: old) simp_all

lemma step_slice:
  "find_field schema k = Some (set_slice upd get) \<Longrightarrow>
   assign_members schema (map value_member (field k (slice_json v)) @ kvs) r = assign_members schema kvs (upd (\<lambda>_. v) r)"
  by (cases v) (simp_all add: field_def set_slice_def slice_json_def string_elements_values)

lemma inspect_strings: "inspect_elements d (map (value_of \<circ> JStr) ss) = None"
  by (induction ss) simp_all

lemma flat_simps [simp]:
  "flat_member (JStr s)" "flat_member (JNum n)" "flat_member (JBool b)" "flat_member (slice_json ns)"
  "flat_member (parameters_json p)"
  by (simp_all add: flat_member_def slice_json_def parameters_json_def maxNestingDepth_def inspect_strings split: option.split)

lemma flat_pieces [simp]:
  "list_all (\<lambda>m. flat_member (snd m)) (field k v) \<longleftrightarrow> flat_member v" "list_all (\<lambda>m. flat_member (snd m)) (omit_empty k s)"
  by (simp_all add: field_def omit_empty_def)

lemma parameters_fields:
  "map_of parameters_schema ''poolName'' = Some (set_string cp_PoolName_update)"
  "map_of parameters_schema ''deletePolicy'' = Some (set_string cp_DeletePolicy_update)"
  "map_of parameters_schema ''directoryUid'' = Some (set_uint cp_DirectoryUID_update)"
  "map_of parameters_schema ''directoryGid'' = Some (set_uint cp_DirectoryGID_update)"
  "map_of parameters_schema ''directoryMode'' = Some (set_string cp_DirectoryMode_update)"
  "map_of parameters_schema ''accessType'' = Some (set_string cp_AccessType_update)"
  "map_of parameters_schema ''filesystemType'' = Some (set_string cp_FilesystemType_update)"
  "map_of parameters_schema ''accessModes'' = Some (set_list cp_AccessModes_update cp_AccessModes)"
  by (simp_all add: parameters_schema_def)

lemma step_parameters:
  "find_field schema k = Some (set_struct upd get parameters_schema) \<Longrightarrow>
   assign_members schema (map value_member (field k (parameters_json v)) @ kvs) r = assign_members schema kvs (upd (\<lambda>_. v) r)"
proof -
  have "assign_struct parameters_schema (value_of (parameters_json v)) p = Some v" for p
    by (cases v; cases p) (simp add: assign_struct_def parameters_json_def parameters_fields [THEN find_field_known]
        set_string_def set_uint_value set_list_def string_elements_values)
  then show "find_field schema k = Some (set_struct upd get parameters_schema) \<Longrightarrow> ?thesis"
    by (simp add: field_def set_struct_def)
qed

lemma lookup_all: "distinct (map fst xs) \<Longrightarrow> ys = xs \<Longrightarrow> list_all (\<lambda>(k, s). map_of xs k = Some s) ys"
  by (auto simp: list_all_iff)

lemma overwritten [simp]: "(if v = [] then [] else v) = v"
  by simp

lemma parent_owner_names: "distinct (map fst parent_owner_schema)"
  by (simp add: parent_owner_schema_def)

lemma parent_owner_fields:
  "map_of parent_owner_schema ''schemaVersion'' = Some (set_string p_SchemaVersion_update)"
  "map_of parent_owner_schema ''revision'' = Some (set_uint p_Revision_update)"
  "map_of parent_owner_schema ''driverName'' = Some (set_string p_DriverName_update)"
  "map_of parent_owner_schema ''installationID'' = Some (set_string p_InstallationID_update)"
  "map_of parent_owner_schema ''activeClusterUID'' = Some (set_string p_ActiveClusterUID_update)"
  "map_of parent_owner_schema ''parentFilesystemID'' = Some (set_string p_ParentFilesystemID_update)"
  "map_of parent_owner_schema ''basePath'' = Some (set_string p_BasePath_update)"
  "map_of parent_owner_schema ''basePathHash'' = Some (set_string p_BasePathHash_update)"
  "map_of parent_owner_schema ''controllerNamespace'' = Some (set_string p_ControllerNamespace_update)"
  "map_of parent_owner_schema ''helmReleaseName'' = Some (set_string p_HelmReleaseName_update)"
  "map_of parent_owner_schema ''leadershipLeaseName'' = Some (set_string p_LeadershipLeaseName_update)"
  "map_of parent_owner_schema ''bootstrapAttemptID'' = Some (set_string p_BootstrapAttemptID_update)"
  "map_of parent_owner_schema ''contentChecksum'' = Some (set_string p_ContentChecksum_update)"
  "map_of parent_owner_schema ''createdAt'' = Some (set_string p_CreatedAt_update)"
  using lookup_all [OF parent_owner_names parent_owner_schema_def [symmetric]]
  unfolding list.pred_inject prod.case by safe

lemmas parent_owner_steps =
  parent_owner_fields(1,3-14) [THEN find_field_known, THEN step_string]
  parent_owner_fields(2) [THEN find_field_known, THEN step_uint]

interpretation parent_owner: record_codec parent_owner_schema zero_parent_owner parent_owner_json
proof
  fix r :: ParentOwnerRecord and k :: string and v :: json
  show "distinct (map fst (parent_owner_json r))"
    unfolding parent_owner_json_def
    by (rule distinct_pieces [OF _ parent_owner_names]) (simp add: parent_owner_schema_def)
  show "(k, v) \<in> set (parent_owner_json r) \<Longrightarrow> inspectValue 1 (value_of v) = None"
    unfolding parent_owner_json_def by (erule flat_members) simp_all
  have "assign_members parent_owner_schema (map value_member (parent_owner_json r)) zero_parent_owner
      = assign_members parent_owner_schema [] r"
    unfolding parent_owner_json_def
    by (simp only: concat.simps map_append list.map parent_owner_steps) (cases r, simp add: zero_parent_owner_def)
  then show "assign_members parent_owner_schema (map value_member (parent_owner_json r)) zero_parent_owner = Some r" by simp
qed

lemma detailed_allocation_names: "distinct (map fst detailed_allocation_schema)"
  by (simp add: detailed_allocation_schema_def)

lemma detailed_allocation_fields:
  "map_of detailed_allocation_schema ''schemaVersion'' = Some (set_string a_SchemaVersion_update)"
  "map_of detailed_allocation_schema ''recordKind'' = Some (set_string a_RecordKind_update)"
  "map_of detailed_allocation_schema ''recordRevision'' = Some (set_uint a_RecordRevision_update)"
  "map_of detailed_allocation_schema ''driverName'' = Some (set_string a_DriverName_update)"
  "map_of detailed_allocation_schema ''activeClusterUID'' = Some (set_string a_ActiveClusterUID_update)"
  "map_of detailed_allocation_schema ''state'' = Some (set_string a_State_update)"
  "map_of detailed_allocation_schema ''installationID'' = Some (set_string a_InstallationID_update)"
  "map_of detailed_allocation_schema ''createVolumeRequestName'' = Some (set_string a_CreateVolumeRequestName_update)"
  "map_of detailed_allocation_schema ''requestHash'' = Some (set_string a_RequestHash_update)"
  "map_of detailed_allocation_schema ''originalRequiredBytes'' = Some (set_uint a_OriginalRequiredBytes_update)"
  "map_of detailed_allocation_schema ''originalLimitBytes'' = Some (set_uint a_OriginalLimitBytes_update)"
  "map_of detailed_allocation_schema ''selectedCapacityBytes'' = Some (set_uint a_SelectedCapacityBytes_update)"
  "map_of detailed_allocation_schema ''normalizedCreateParameters'' = Some (set_struct a_NormalizedCreateParameters_update a_NormalizedCreateParameters parameters_schema)"
  "map_of detailed_allocation_schema ''logicalVolumeID'' = Some (set_string a_LogicalVolumeID_update)"
  "map_of detailed_allocation_schema ''volumeHandle'' = Some (set_string a_VolumeHandle_update)"
  "map_of detailed_allocation_schema ''volumeHandleHash'' = Some (set_string a_VolumeHandleHash_update)"
  "map_of detailed_allocation_schema ''mappingHash'' = Some (set_string a_MappingHash_update)"
  "map_of detailed_allocation_schema ''poolName'' = Some (set_string a_PoolName_update)"
  "map_of detailed_allocation_schema ''parentFilesystemID'' = Some (set_string a_ParentFilesystemID_update)"
  "map_of detailed_allocation_schema ''basePath'' = Some (set_string a_BasePath_update)"
  "map_of detailed_allocation_schema ''basePathHash'' = Some (set_string a_BasePathHash_update)"
  "map_of detailed_allocation_schema ''directoryName'' = Some (set_string a_DirectoryName_update)"
  "map_of detailed_allocation_schema ''reservesCapacity'' = Some (set_bool a_ReservesCapacity_update)"
  "map_of detailed_allocation_schema ''deletePolicy'' = Some (set_string a_DeletePolicy_update)"
  "map_of detailed_allocation_schema ''deleteResult'' = Some (set_string a_DeleteResult_update)"
  "map_of detailed_allocation_schema ''deleteOperationID'' = Some (set_string a_DeleteOperationID_update)"
  "map_of detailed_allocation_schema ''deleteOperation'' = Some (set_string a_DeleteOperation_update)"
  "map_of detailed_allocation_schema ''deleteSourcePath'' = Some (set_string a_DeleteSourcePath_update)"
  "map_of detailed_allocation_schema ''deleteTargetPath'' = Some (set_string a_DeleteTargetPath_update)"
  "map_of detailed_allocation_schema ''deletePreparedAt'' = Some (set_string a_DeletePreparedAt_update)"
  "map_of detailed_allocation_schema ''deleteRemoveStartedAt'' = Some (set_string a_DeleteRemoveStartedAt_update)"
  "map_of detailed_allocation_schema ''deleteCompletedAt'' = Some (set_string a_DeleteCompletedAt_update)"
  "map_of detailed_allocation_schema ''directoryUid'' = Some (set_uint a_DirectoryUID_update)"
  "map_of detailed_allocation_schema ''directoryGid'' = Some (set_uint a_DirectoryGID_update)"
  "map_of detailed_allocation_schema ''directoryMode'' = Some (set_string a_DirectoryMode_update)"
  "map_of detailed_allocation_schema ''createdAt'' = Some (set_string a_CreatedAt_update)"
  "map_of detailed_allocation_schema ''updatedAt'' = Some (set_string a_UpdatedAt_update)"
  "map_of detailed_allocation_schema ''deletedAt'' = Some (set_string a_DeletedAt_update)"
  "map_of detailed_allocation_schema ''archivedPath'' = Some (set_string a_ArchivedPath_update)"
  "map_of detailed_allocation_schema ''retainedPath'' = Some (set_string a_RetainedPath_update)"
  "map_of detailed_allocation_schema ''quarantinePath'' = Some (set_string a_QuarantinePath_update)"
  "map_of detailed_allocation_schema ''publishedNodeIDs'' = Some (set_slice a_PublishedNodeIDs_update a_PublishedNodeIDs)"
  "map_of detailed_allocation_schema ''gcRequestID'' = Some (set_string a_GCRequestID_update)"
  "map_of detailed_allocation_schema ''gcRequestedMode'' = Some (set_string a_GCRequestedMode_update)"
  "map_of detailed_allocation_schema ''gcExpectedState'' = Some (set_string a_GCExpectedState_update)"
  "map_of detailed_allocation_schema ''gcRequestedAt'' = Some (set_string a_GCRequestedAt_update)"
  "map_of detailed_allocation_schema ''gcOperationID'' = Some (set_string a_GCOperationID_update)"
  "map_of detailed_allocation_schema ''gcTargetPath'' = Some (set_string a_GCTargetPath_update)"
  "map_of detailed_allocation_schema ''gcQuarantinePath'' = Some (set_string a_GCQuarantinePath_update)"
  "map_of detailed_allocation_schema ''gcStartedAt'' = Some (set_string a_GCStartedAt_update)"
  "map_of detailed_allocation_schema ''gcRemoveStartedAt'' = Some (set_string a_GCRemoveStartedAt_update)"
  "map_of detailed_allocation_schema ''gcCompletedAt'' = Some (set_string a_GCCompletedAt_update)"
  "map_of detailed_allocation_schema ''recoveryOperationID'' = Some (set_string a_RecoveryOperationID_update)"
  "map_of detailed_allocation_schema ''recoverySource'' = Some (set_string a_RecoverySource_update)"
  "map_of detailed_allocation_schema ''recoveredAt'' = Some (set_string a_RecoveredAt_update)"
  using lookup_all [OF detailed_allocation_names detailed_allocation_schema_def [symmetric]]
  unfolding list.pred_inject prod.case by safe

lemma detailed_allocation_ids:
  fixes r :: DetailedAllocationRecord
  shows "a_DeleteResult_update (\<lambda>x. x) r = r"
    "a_DeleteOperationID_update (\<lambda>x. x) r = r"
    "a_DeleteOperation_update (\<lambda>x. x) r = r"
    "a_DeleteSourcePath_update (\<lambda>x. x) r = r"
    "a_DeleteTargetPath_update (\<lambda>x. x) r = r"
    "a_DeletePreparedAt_update (\<lambda>x. x) r = r"
    "a_DeleteRemoveStartedAt_update (\<lambda>x. x) r = r"
    "a_DeleteCompletedAt_update (\<lambda>x. x) r = r"
    "a_DeletedAt_update (\<lambda>x. x) r = r"
    "a_ArchivedPath_update (\<lambda>x. x) r = r"
    "a_RetainedPath_update (\<lambda>x. x) r = r"
    "a_QuarantinePath_update (\<lambda>x. x) r = r"
    "a_GCRequestID_update (\<lambda>x. x) r = r"
    "a_GCRequestedMode_update (\<lambda>x. x) r = r"
    "a_GCExpectedState_update (\<lambda>x. x) r = r"
    "a_GCRequestedAt_update (\<lambda>x. x) r = r"
    "a_GCOperationID_update (\<lambda>x. x) r = r"
    "a_GCTargetPath_update (\<lambda>x. x) r = r"
    "a_GCQuarantinePath_update (\<lambda>x. x) r = r"
    "a_GCStartedAt_update (\<lambda>x. x) r = r"
    "a_GCRemoveStartedAt_update (\<lambda>x. x) r = r"
    "a_GCCompletedAt_update (\<lambda>x. x) r = r"
    "a_RecoveryOperationID_update (\<lambda>x. x) r = r"
    "a_RecoverySource_update (\<lambda>x. x) r = r"
    "a_RecoveredAt_update (\<lambda>x. x) r = r"
  by (cases r; simp)+

lemmas detailed_allocation_steps =
  detailed_allocation_fields(1-2,4-9,14-22,24,35-37) [THEN find_field_known, THEN step_string]
  detailed_allocation_fields(3,10-12,33-34) [THEN find_field_known, THEN step_uint]
  detailed_allocation_fields(13) [THEN find_field_known, THEN step_parameters]
  detailed_allocation_fields(23) [THEN find_field_known, THEN step_bool]
  detailed_allocation_fields(42) [THEN find_field_known, THEN step_slice]
  detailed_allocation_fields(25) [THEN find_field_known, THEN step_omit, OF detailed_allocation_ids(1)]
  detailed_allocation_fields(26) [THEN find_field_known, THEN step_omit, OF detailed_allocation_ids(2)]
  detailed_allocation_fields(27) [THEN find_field_known, THEN step_omit, OF detailed_allocation_ids(3)]
  detailed_allocation_fields(28) [THEN find_field_known, THEN step_omit, OF detailed_allocation_ids(4)]
  detailed_allocation_fields(29) [THEN find_field_known, THEN step_omit, OF detailed_allocation_ids(5)]
  detailed_allocation_fields(30) [THEN find_field_known, THEN step_omit, OF detailed_allocation_ids(6)]
  detailed_allocation_fields(31) [THEN find_field_known, THEN step_omit, OF detailed_allocation_ids(7)]
  detailed_allocation_fields(32) [THEN find_field_known, THEN step_omit, OF detailed_allocation_ids(8)]
  detailed_allocation_fields(38) [THEN find_field_known, THEN step_omit, OF detailed_allocation_ids(9)]
  detailed_allocation_fields(39) [THEN find_field_known, THEN step_omit, OF detailed_allocation_ids(10)]
  detailed_allocation_fields(40) [THEN find_field_known, THEN step_omit, OF detailed_allocation_ids(11)]
  detailed_allocation_fields(41) [THEN find_field_known, THEN step_omit, OF detailed_allocation_ids(12)]
  detailed_allocation_fields(43) [THEN find_field_known, THEN step_omit, OF detailed_allocation_ids(13)]
  detailed_allocation_fields(44) [THEN find_field_known, THEN step_omit, OF detailed_allocation_ids(14)]
  detailed_allocation_fields(45) [THEN find_field_known, THEN step_omit, OF detailed_allocation_ids(15)]
  detailed_allocation_fields(46) [THEN find_field_known, THEN step_omit, OF detailed_allocation_ids(16)]
  detailed_allocation_fields(47) [THEN find_field_known, THEN step_omit, OF detailed_allocation_ids(17)]
  detailed_allocation_fields(48) [THEN find_field_known, THEN step_omit, OF detailed_allocation_ids(18)]
  detailed_allocation_fields(49) [THEN find_field_known, THEN step_omit, OF detailed_allocation_ids(19)]
  detailed_allocation_fields(50) [THEN find_field_known, THEN step_omit, OF detailed_allocation_ids(20)]
  detailed_allocation_fields(51) [THEN find_field_known, THEN step_omit, OF detailed_allocation_ids(21)]
  detailed_allocation_fields(52) [THEN find_field_known, THEN step_omit, OF detailed_allocation_ids(22)]
  detailed_allocation_fields(53) [THEN find_field_known, THEN step_omit, OF detailed_allocation_ids(23)]
  detailed_allocation_fields(54) [THEN find_field_known, THEN step_omit, OF detailed_allocation_ids(24)]
  detailed_allocation_fields(55) [THEN find_field_known, THEN step_omit, OF detailed_allocation_ids(25)]

interpretation detailed_allocation: record_codec detailed_allocation_schema zero_detailed_allocation detailed_allocation_json
proof
  fix r :: DetailedAllocationRecord and k :: string and v :: json
  show "distinct (map fst (detailed_allocation_json r))"
    unfolding detailed_allocation_json_def
    by (rule distinct_pieces [OF _ detailed_allocation_names]) (simp add: detailed_allocation_schema_def)
  show "(k, v) \<in> set (detailed_allocation_json r) \<Longrightarrow> inspectValue 1 (value_of v) = None"
    unfolding detailed_allocation_json_def by (erule flat_members) simp_all
  have "assign_members detailed_allocation_schema (map value_member (detailed_allocation_json r)) zero_detailed_allocation
      = assign_members detailed_allocation_schema [] r"
    unfolding detailed_allocation_json_def
    by (simp only: concat.simps map_append list.map detailed_allocation_steps) (cases r, simp add: zero_detailed_allocation_def)
  then show "assign_members detailed_allocation_schema (map value_member (detailed_allocation_json r)) zero_detailed_allocation = Some r" by simp
qed

lemma compact_allocation_names: "distinct (map fst compact_allocation_schema)"
  by (simp add: compact_allocation_schema_def)

lemma compact_allocation_fields:
  "map_of compact_allocation_schema ''schemaVersion'' = Some (set_string ca_SchemaVersion_update)"
  "map_of compact_allocation_schema ''recordKind'' = Some (set_string ca_RecordKind_update)"
  "map_of compact_allocation_schema ''recordRevision'' = Some (set_uint ca_RecordRevision_update)"
  "map_of compact_allocation_schema ''driverName'' = Some (set_string ca_DriverName_update)"
  "map_of compact_allocation_schema ''installationID'' = Some (set_string ca_InstallationID_update)"
  "map_of compact_allocation_schema ''activeClusterUID'' = Some (set_string ca_ActiveClusterUID_update)"
  "map_of compact_allocation_schema ''createVolumeRequestName'' = Some (set_string ca_CreateVolumeRequestName_update)"
  "map_of compact_allocation_schema ''logicalVolumeID'' = Some (set_string ca_LogicalVolumeID_update)"
  "map_of compact_allocation_schema ''volumeHandleHash'' = Some (set_string ca_VolumeHandleHash_update)"
  "map_of compact_allocation_schema ''mappingHash'' = Some (set_string ca_MappingHash_update)"
  "map_of compact_allocation_schema ''state'' = Some (set_string ca_State_update)"
  "map_of compact_allocation_schema ''parentFilesystemID'' = Some (set_string ca_ParentFilesystemID_update)"
  "map_of compact_allocation_schema ''directoryName'' = Some (set_string ca_DirectoryName_update)"
  "map_of compact_allocation_schema ''reservesCapacity'' = Some (set_bool ca_ReservesCapacity_update)"
  "map_of compact_allocation_schema ''deleteResult'' = Some (set_string ca_DeleteResult_update)"
  "map_of compact_allocation_schema ''updatedAt'' = Some (set_string ca_UpdatedAt_update)"
  "map_of compact_allocation_schema ''deletedAt'' = Some (set_string ca_DeletedAt_update)"
  "map_of compact_allocation_schema ''deleteOperationID'' = Some (set_string ca_DeleteOperationID_update)"
  "map_of compact_allocation_schema ''deleteOperation'' = Some (set_string ca_DeleteOperation_update)"
  "map_of compact_allocation_schema ''archivedPath'' = Some (set_string ca_ArchivedPath_update)"
  "map_of compact_allocation_schema ''retainedPath'' = Some (set_string ca_RetainedPath_update)"
  "map_of compact_allocation_schema ''quarantinePath'' = Some (set_string ca_QuarantinePath_update)"
  "map_of compact_allocation_schema ''deleteCompletedAt'' = Some (set_string ca_DeleteCompletedAt_update)"
  "map_of compact_allocation_schema ''gcOperationID'' = Some (set_string ca_GCOperationID_update)"
  "map_of compact_allocation_schema ''gcTargetPath'' = Some (set_string ca_GCTargetPath_update)"
  "map_of compact_allocation_schema ''gcQuarantinePath'' = Some (set_string ca_GCQuarantinePath_update)"
  "map_of compact_allocation_schema ''gcCompletedAt'' = Some (set_string ca_GCCompletedAt_update)"
  using lookup_all [OF compact_allocation_names compact_allocation_schema_def [symmetric]]
  unfolding list.pred_inject prod.case by safe

lemma compact_allocation_ids:
  fixes r :: CompactDeletedAllocationRecord
  shows "ca_DeleteOperationID_update (\<lambda>x. x) r = r"
    "ca_DeleteOperation_update (\<lambda>x. x) r = r"
    "ca_ArchivedPath_update (\<lambda>x. x) r = r"
    "ca_RetainedPath_update (\<lambda>x. x) r = r"
    "ca_QuarantinePath_update (\<lambda>x. x) r = r"
    "ca_DeleteCompletedAt_update (\<lambda>x. x) r = r"
    "ca_GCOperationID_update (\<lambda>x. x) r = r"
    "ca_GCTargetPath_update (\<lambda>x. x) r = r"
    "ca_GCQuarantinePath_update (\<lambda>x. x) r = r"
    "ca_GCCompletedAt_update (\<lambda>x. x) r = r"
  by (cases r; simp)+

lemmas compact_allocation_steps =
  compact_allocation_fields(1-2,4-13,15-17) [THEN find_field_known, THEN step_string]
  compact_allocation_fields(3) [THEN find_field_known, THEN step_uint]
  compact_allocation_fields(14) [THEN find_field_known, THEN step_bool]
  compact_allocation_fields(18) [THEN find_field_known, THEN step_omit, OF compact_allocation_ids(1)]
  compact_allocation_fields(19) [THEN find_field_known, THEN step_omit, OF compact_allocation_ids(2)]
  compact_allocation_fields(20) [THEN find_field_known, THEN step_omit, OF compact_allocation_ids(3)]
  compact_allocation_fields(21) [THEN find_field_known, THEN step_omit, OF compact_allocation_ids(4)]
  compact_allocation_fields(22) [THEN find_field_known, THEN step_omit, OF compact_allocation_ids(5)]
  compact_allocation_fields(23) [THEN find_field_known, THEN step_omit, OF compact_allocation_ids(6)]
  compact_allocation_fields(24) [THEN find_field_known, THEN step_omit, OF compact_allocation_ids(7)]
  compact_allocation_fields(25) [THEN find_field_known, THEN step_omit, OF compact_allocation_ids(8)]
  compact_allocation_fields(26) [THEN find_field_known, THEN step_omit, OF compact_allocation_ids(9)]
  compact_allocation_fields(27) [THEN find_field_known, THEN step_omit, OF compact_allocation_ids(10)]

interpretation compact_allocation: record_codec compact_allocation_schema zero_compact_allocation compact_allocation_json
proof
  fix r :: CompactDeletedAllocationRecord and k :: string and v :: json
  show "distinct (map fst (compact_allocation_json r))"
    unfolding compact_allocation_json_def
    by (rule distinct_pieces [OF _ compact_allocation_names]) (simp add: compact_allocation_schema_def)
  show "(k, v) \<in> set (compact_allocation_json r) \<Longrightarrow> inspectValue 1 (value_of v) = None"
    unfolding compact_allocation_json_def by (erule flat_members) simp_all
  have "assign_members compact_allocation_schema (map value_member (compact_allocation_json r)) zero_compact_allocation
      = assign_members compact_allocation_schema [] r"
    unfolding compact_allocation_json_def
    by (simp only: concat.simps map_append list.map compact_allocation_steps) (cases r, simp add: zero_compact_allocation_def)
  then show "assign_members compact_allocation_schema (map value_member (compact_allocation_json r)) zero_compact_allocation = Some r" by simp
qed

lemma unknown_allocation_names: "distinct (map fst unknown_allocation_schema)"
  by (simp add: unknown_allocation_schema_def)

lemma unknown_allocation_fields:
  "map_of unknown_allocation_schema ''schemaVersion'' = Some (set_string ua_SchemaVersion_update)"
  "map_of unknown_allocation_schema ''recordKind'' = Some (set_string ua_RecordKind_update)"
  "map_of unknown_allocation_schema ''recordRevision'' = Some (set_uint ua_RecordRevision_update)"
  "map_of unknown_allocation_schema ''driverName'' = Some (set_string ua_DriverName_update)"
  "map_of unknown_allocation_schema ''installationID'' = Some (set_string ua_InstallationID_update)"
  "map_of unknown_allocation_schema ''activeClusterUID'' = Some (set_string ua_ActiveClusterUID_update)"
  "map_of unknown_allocation_schema ''logicalVolumeID'' = Some (set_string ua_LogicalVolumeID_update)"
  "map_of unknown_allocation_schema ''volumeHandleHash'' = Some (set_string ua_VolumeHandleHash_update)"
  "map_of unknown_allocation_schema ''mappingHash'' = Some (set_string ua_MappingHash_update)"
  "map_of unknown_allocation_schema ''state'' = Some (set_string ua_State_update)"
  "map_of unknown_allocation_schema ''reservesCapacity'' = Some (set_bool ua_ReservesCapacity_update)"
  "map_of unknown_allocation_schema ''absenceReason'' = Some (set_string ua_AbsenceReason_update)"
  "map_of unknown_allocation_schema ''createdAt'' = Some (set_string ua_CreatedAt_update)"
  "map_of unknown_allocation_schema ''updatedAt'' = Some (set_string ua_UpdatedAt_update)"
  "map_of unknown_allocation_schema ''deletedAt'' = Some (set_string ua_DeletedAt_update)"
  using lookup_all [OF unknown_allocation_names unknown_allocation_schema_def [symmetric]]
  unfolding list.pred_inject prod.case by safe

lemmas unknown_allocation_steps =
  unknown_allocation_fields(1-2,4-10,12-15) [THEN find_field_known, THEN step_string]
  unknown_allocation_fields(3) [THEN find_field_known, THEN step_uint]
  unknown_allocation_fields(11) [THEN find_field_known, THEN step_bool]

interpretation unknown_allocation: record_codec unknown_allocation_schema zero_unknown_allocation unknown_allocation_json
proof
  fix r :: DeletedUnknownAllocationRecord and k :: string and v :: json
  show "distinct (map fst (unknown_allocation_json r))"
    unfolding unknown_allocation_json_def
    by (rule distinct_pieces [OF _ unknown_allocation_names]) (simp add: unknown_allocation_schema_def)
  show "(k, v) \<in> set (unknown_allocation_json r) \<Longrightarrow> inspectValue 1 (value_of v) = None"
    unfolding unknown_allocation_json_def by (erule flat_members) simp_all
  have "assign_members unknown_allocation_schema (map value_member (unknown_allocation_json r)) zero_unknown_allocation
      = assign_members unknown_allocation_schema [] r"
    unfolding unknown_allocation_json_def
    by (simp only: concat.simps map_append list.map unknown_allocation_steps) (cases r, simp add: zero_unknown_allocation_def)
  then show "assign_members unknown_allocation_schema (map value_member (unknown_allocation_json r)) zero_unknown_allocation = Some r" by simp
qed

lemma detailed_ownership_names: "distinct (map fst detailed_ownership_schema)"
  by (simp add: detailed_ownership_schema_def)

lemma detailed_ownership_fields:
  "map_of detailed_ownership_schema ''schemaVersion'' = Some (set_string o_SchemaVersion_update)"
  "map_of detailed_ownership_schema ''recordKind'' = Some (set_string o_RecordKind_update)"
  "map_of detailed_ownership_schema ''driverName'' = Some (set_string o_DriverName_update)"
  "map_of detailed_ownership_schema ''installationID'' = Some (set_string o_InstallationID_update)"
  "map_of detailed_ownership_schema ''activeClusterUID'' = Some (set_string o_ActiveClusterUID_update)"
  "map_of detailed_ownership_schema ''volumeHandle'' = Some (set_string o_VolumeHandle_update)"
  "map_of detailed_ownership_schema ''volumeHandleHash'' = Some (set_string o_VolumeHandleHash_update)"
  "map_of detailed_ownership_schema ''logicalVolumeID'' = Some (set_string o_LogicalVolumeID_update)"
  "map_of detailed_ownership_schema ''mappingHash'' = Some (set_string o_MappingHash_update)"
  "map_of detailed_ownership_schema ''poolName'' = Some (set_string o_PoolName_update)"
  "map_of detailed_ownership_schema ''parentFilesystemID'' = Some (set_string o_ParentFilesystemID_update)"
  "map_of detailed_ownership_schema ''basePath'' = Some (set_string o_BasePath_update)"
  "map_of detailed_ownership_schema ''basePathHash'' = Some (set_string o_BasePathHash_update)"
  "map_of detailed_ownership_schema ''directoryName'' = Some (set_string o_DirectoryName_update)"
  "map_of detailed_ownership_schema ''createVolumeRequestName'' = Some (set_string o_CreateVolumeRequestName_update)"
  "map_of detailed_ownership_schema ''requestHash'' = Some (set_string o_RequestHash_update)"
  "map_of detailed_ownership_schema ''originalRequiredBytes'' = Some (set_uint o_OriginalRequiredBytes_update)"
  "map_of detailed_ownership_schema ''originalLimitBytes'' = Some (set_uint o_OriginalLimitBytes_update)"
  "map_of detailed_ownership_schema ''selectedCapacityBytes'' = Some (set_uint o_SelectedCapacityBytes_update)"
  "map_of detailed_ownership_schema ''normalizedCreateParameters'' = Some (set_struct o_NormalizedCreateParameters_update o_NormalizedCreateParameters parameters_schema)"
  "map_of detailed_ownership_schema ''deletePolicy'' = Some (set_string o_DeletePolicy_update)"
  "map_of detailed_ownership_schema ''directoryUid'' = Some (set_uint o_DirectoryUID_update)"
  "map_of detailed_ownership_schema ''directoryGid'' = Some (set_uint o_DirectoryGID_update)"
  "map_of detailed_ownership_schema ''directoryMode'' = Some (set_string o_DirectoryMode_update)"
  "map_of detailed_ownership_schema ''publishedNodeIDs'' = Some (set_slice o_PublishedNodeIDs_update o_PublishedNodeIDs)"
  "map_of detailed_ownership_schema ''state'' = Some (set_string o_State_update)"
  "map_of detailed_ownership_schema ''revision'' = Some (set_uint o_Revision_update)"
  "map_of detailed_ownership_schema ''contentChecksum'' = Some (set_string o_ContentChecksum_update)"
  "map_of detailed_ownership_schema ''createdAt'' = Some (set_string o_CreatedAt_update)"
  "map_of detailed_ownership_schema ''deleteOperationID'' = Some (set_string o_DeleteOperationID_update)"
  "map_of detailed_ownership_schema ''deleteOperation'' = Some (set_string o_DeleteOperation_update)"
  "map_of detailed_ownership_schema ''deleteSourcePath'' = Some (set_string o_DeleteSourcePath_update)"
  "map_of detailed_ownership_schema ''deleteTargetPath'' = Some (set_string o_DeleteTargetPath_update)"
  "map_of detailed_ownership_schema ''deletePreparedAt'' = Some (set_string o_DeletePreparedAt_update)"
  "map_of detailed_ownership_schema ''deleteRemoveStartedAt'' = Some (set_string o_DeleteRemoveStartedAt_update)"
  "map_of detailed_ownership_schema ''deleteCompletedAt'' = Some (set_string o_DeleteCompletedAt_update)"
  "map_of detailed_ownership_schema ''archivedPath'' = Some (set_string o_ArchivedPath_update)"
  "map_of detailed_ownership_schema ''retainedPath'' = Some (set_string o_RetainedPath_update)"
  "map_of detailed_ownership_schema ''quarantinePath'' = Some (set_string o_QuarantinePath_update)"
  "map_of detailed_ownership_schema ''gcRequestID'' = Some (set_string o_GCRequestID_update)"
  "map_of detailed_ownership_schema ''gcRequestedMode'' = Some (set_string o_GCRequestedMode_update)"
  "map_of detailed_ownership_schema ''gcExpectedState'' = Some (set_string o_GCExpectedState_update)"
  "map_of detailed_ownership_schema ''gcRequestedAt'' = Some (set_string o_GCRequestedAt_update)"
  "map_of detailed_ownership_schema ''gcOperationID'' = Some (set_string o_GCOperationID_update)"
  "map_of detailed_ownership_schema ''gcTargetPath'' = Some (set_string o_GCTargetPath_update)"
  "map_of detailed_ownership_schema ''gcQuarantinePath'' = Some (set_string o_GCQuarantinePath_update)"
  "map_of detailed_ownership_schema ''gcStartedAt'' = Some (set_string o_GCStartedAt_update)"
  "map_of detailed_ownership_schema ''gcRemoveStartedAt'' = Some (set_string o_GCRemoveStartedAt_update)"
  "map_of detailed_ownership_schema ''gcCompletedAt'' = Some (set_string o_GCCompletedAt_update)"
  using lookup_all [OF detailed_ownership_names detailed_ownership_schema_def [symmetric]]
  unfolding list.pred_inject prod.case by safe

lemma detailed_ownership_ids:
  fixes r :: DetailedOwnershipRecord
  shows "o_DeleteOperationID_update (\<lambda>x. x) r = r"
    "o_DeleteOperation_update (\<lambda>x. x) r = r"
    "o_DeleteSourcePath_update (\<lambda>x. x) r = r"
    "o_DeleteTargetPath_update (\<lambda>x. x) r = r"
    "o_DeletePreparedAt_update (\<lambda>x. x) r = r"
    "o_DeleteRemoveStartedAt_update (\<lambda>x. x) r = r"
    "o_DeleteCompletedAt_update (\<lambda>x. x) r = r"
    "o_ArchivedPath_update (\<lambda>x. x) r = r"
    "o_RetainedPath_update (\<lambda>x. x) r = r"
    "o_QuarantinePath_update (\<lambda>x. x) r = r"
    "o_GCRequestID_update (\<lambda>x. x) r = r"
    "o_GCRequestedMode_update (\<lambda>x. x) r = r"
    "o_GCExpectedState_update (\<lambda>x. x) r = r"
    "o_GCRequestedAt_update (\<lambda>x. x) r = r"
    "o_GCOperationID_update (\<lambda>x. x) r = r"
    "o_GCTargetPath_update (\<lambda>x. x) r = r"
    "o_GCQuarantinePath_update (\<lambda>x. x) r = r"
    "o_GCStartedAt_update (\<lambda>x. x) r = r"
    "o_GCRemoveStartedAt_update (\<lambda>x. x) r = r"
    "o_GCCompletedAt_update (\<lambda>x. x) r = r"
  by (cases r; simp)+

lemmas detailed_ownership_steps =
  detailed_ownership_fields(1-16,21,24,26,28-29) [THEN find_field_known, THEN step_string]
  detailed_ownership_fields(17-19,22-23,27) [THEN find_field_known, THEN step_uint]
  detailed_ownership_fields(20) [THEN find_field_known, THEN step_parameters]
  detailed_ownership_fields(25) [THEN find_field_known, THEN step_slice]
  detailed_ownership_fields(30) [THEN find_field_known, THEN step_omit, OF detailed_ownership_ids(1)]
  detailed_ownership_fields(31) [THEN find_field_known, THEN step_omit, OF detailed_ownership_ids(2)]
  detailed_ownership_fields(32) [THEN find_field_known, THEN step_omit, OF detailed_ownership_ids(3)]
  detailed_ownership_fields(33) [THEN find_field_known, THEN step_omit, OF detailed_ownership_ids(4)]
  detailed_ownership_fields(34) [THEN find_field_known, THEN step_omit, OF detailed_ownership_ids(5)]
  detailed_ownership_fields(35) [THEN find_field_known, THEN step_omit, OF detailed_ownership_ids(6)]
  detailed_ownership_fields(36) [THEN find_field_known, THEN step_omit, OF detailed_ownership_ids(7)]
  detailed_ownership_fields(37) [THEN find_field_known, THEN step_omit, OF detailed_ownership_ids(8)]
  detailed_ownership_fields(38) [THEN find_field_known, THEN step_omit, OF detailed_ownership_ids(9)]
  detailed_ownership_fields(39) [THEN find_field_known, THEN step_omit, OF detailed_ownership_ids(10)]
  detailed_ownership_fields(40) [THEN find_field_known, THEN step_omit, OF detailed_ownership_ids(11)]
  detailed_ownership_fields(41) [THEN find_field_known, THEN step_omit, OF detailed_ownership_ids(12)]
  detailed_ownership_fields(42) [THEN find_field_known, THEN step_omit, OF detailed_ownership_ids(13)]
  detailed_ownership_fields(43) [THEN find_field_known, THEN step_omit, OF detailed_ownership_ids(14)]
  detailed_ownership_fields(44) [THEN find_field_known, THEN step_omit, OF detailed_ownership_ids(15)]
  detailed_ownership_fields(45) [THEN find_field_known, THEN step_omit, OF detailed_ownership_ids(16)]
  detailed_ownership_fields(46) [THEN find_field_known, THEN step_omit, OF detailed_ownership_ids(17)]
  detailed_ownership_fields(47) [THEN find_field_known, THEN step_omit, OF detailed_ownership_ids(18)]
  detailed_ownership_fields(48) [THEN find_field_known, THEN step_omit, OF detailed_ownership_ids(19)]
  detailed_ownership_fields(49) [THEN find_field_known, THEN step_omit, OF detailed_ownership_ids(20)]

interpretation detailed_ownership: record_codec detailed_ownership_schema zero_detailed_ownership detailed_ownership_json
proof
  fix r :: DetailedOwnershipRecord and k :: string and v :: json
  show "distinct (map fst (detailed_ownership_json r))"
    unfolding detailed_ownership_json_def
    by (rule distinct_pieces [OF _ detailed_ownership_names]) (simp add: detailed_ownership_schema_def)
  show "(k, v) \<in> set (detailed_ownership_json r) \<Longrightarrow> inspectValue 1 (value_of v) = None"
    unfolding detailed_ownership_json_def by (erule flat_members) simp_all
  have "assign_members detailed_ownership_schema (map value_member (detailed_ownership_json r)) zero_detailed_ownership
      = assign_members detailed_ownership_schema [] r"
    unfolding detailed_ownership_json_def
    by (simp only: concat.simps map_append list.map detailed_ownership_steps) (cases r, simp add: zero_detailed_ownership_def)
  then show "assign_members detailed_ownership_schema (map value_member (detailed_ownership_json r)) zero_detailed_ownership = Some r" by simp
qed

lemma compact_ownership_names: "distinct (map fst compact_ownership_schema)"
  by (simp add: compact_ownership_schema_def)

lemma compact_ownership_fields:
  "map_of compact_ownership_schema ''schemaVersion'' = Some (set_string co_SchemaVersion_update)"
  "map_of compact_ownership_schema ''recordKind'' = Some (set_string co_RecordKind_update)"
  "map_of compact_ownership_schema ''revision'' = Some (set_uint co_Revision_update)"
  "map_of compact_ownership_schema ''driverName'' = Some (set_string co_DriverName_update)"
  "map_of compact_ownership_schema ''installationID'' = Some (set_string co_InstallationID_update)"
  "map_of compact_ownership_schema ''activeClusterUID'' = Some (set_string co_ActiveClusterUID_update)"
  "map_of compact_ownership_schema ''volumeHandleHash'' = Some (set_string co_VolumeHandleHash_update)"
  "map_of compact_ownership_schema ''logicalVolumeID'' = Some (set_string co_LogicalVolumeID_update)"
  "map_of compact_ownership_schema ''createVolumeRequestName'' = Some (set_string co_CreateVolumeRequestName_update)"
  "map_of compact_ownership_schema ''mappingHash'' = Some (set_string co_MappingHash_update)"
  "map_of compact_ownership_schema ''parentFilesystemID'' = Some (set_string co_ParentFilesystemID_update)"
  "map_of compact_ownership_schema ''basePathHash'' = Some (set_string co_BasePathHash_update)"
  "map_of compact_ownership_schema ''directoryName'' = Some (set_string co_DirectoryName_update)"
  "map_of compact_ownership_schema ''state'' = Some (set_string co_State_update)"
  "map_of compact_ownership_schema ''deleteResult'' = Some (set_string co_DeleteResult_update)"
  "map_of compact_ownership_schema ''updatedAt'' = Some (set_string co_UpdatedAt_update)"
  "map_of compact_ownership_schema ''deletedAt'' = Some (set_string co_DeletedAt_update)"
  "map_of compact_ownership_schema ''contentChecksum'' = Some (set_string co_ContentChecksum_update)"
  "map_of compact_ownership_schema ''deleteOperation'' = Some (set_string co_DeleteOperation_update)"
  "map_of compact_ownership_schema ''archivedPath'' = Some (set_string co_ArchivedPath_update)"
  "map_of compact_ownership_schema ''retainedPath'' = Some (set_string co_RetainedPath_update)"
  "map_of compact_ownership_schema ''quarantinePath'' = Some (set_string co_QuarantinePath_update)"
  "map_of compact_ownership_schema ''deleteOperationID'' = Some (set_string co_DeleteOperationID_update)"
  "map_of compact_ownership_schema ''deleteCompletedAt'' = Some (set_string co_DeleteCompletedAt_update)"
  "map_of compact_ownership_schema ''gcOperationID'' = Some (set_string co_GCOperationID_update)"
  "map_of compact_ownership_schema ''gcTargetPath'' = Some (set_string co_GCTargetPath_update)"
  "map_of compact_ownership_schema ''gcQuarantinePath'' = Some (set_string co_GCQuarantinePath_update)"
  "map_of compact_ownership_schema ''gcCompletedAt'' = Some (set_string co_GCCompletedAt_update)"
  using lookup_all [OF compact_ownership_names compact_ownership_schema_def [symmetric]]
  unfolding list.pred_inject prod.case by safe

lemma compact_ownership_ids:
  fixes r :: CompactDeletedOwnershipRecord
  shows "co_DeleteOperation_update (\<lambda>x. x) r = r"
    "co_ArchivedPath_update (\<lambda>x. x) r = r"
    "co_RetainedPath_update (\<lambda>x. x) r = r"
    "co_QuarantinePath_update (\<lambda>x. x) r = r"
    "co_DeleteOperationID_update (\<lambda>x. x) r = r"
    "co_DeleteCompletedAt_update (\<lambda>x. x) r = r"
    "co_GCOperationID_update (\<lambda>x. x) r = r"
    "co_GCTargetPath_update (\<lambda>x. x) r = r"
    "co_GCQuarantinePath_update (\<lambda>x. x) r = r"
    "co_GCCompletedAt_update (\<lambda>x. x) r = r"
  by (cases r; simp)+

lemmas compact_ownership_steps =
  compact_ownership_fields(1-2,4-18) [THEN find_field_known, THEN step_string]
  compact_ownership_fields(3) [THEN find_field_known, THEN step_uint]
  compact_ownership_fields(19) [THEN find_field_known, THEN step_omit, OF compact_ownership_ids(1)]
  compact_ownership_fields(20) [THEN find_field_known, THEN step_omit, OF compact_ownership_ids(2)]
  compact_ownership_fields(21) [THEN find_field_known, THEN step_omit, OF compact_ownership_ids(3)]
  compact_ownership_fields(22) [THEN find_field_known, THEN step_omit, OF compact_ownership_ids(4)]
  compact_ownership_fields(23) [THEN find_field_known, THEN step_omit, OF compact_ownership_ids(5)]
  compact_ownership_fields(24) [THEN find_field_known, THEN step_omit, OF compact_ownership_ids(6)]
  compact_ownership_fields(25) [THEN find_field_known, THEN step_omit, OF compact_ownership_ids(7)]
  compact_ownership_fields(26) [THEN find_field_known, THEN step_omit, OF compact_ownership_ids(8)]
  compact_ownership_fields(27) [THEN find_field_known, THEN step_omit, OF compact_ownership_ids(9)]
  compact_ownership_fields(28) [THEN find_field_known, THEN step_omit, OF compact_ownership_ids(10)]

interpretation compact_ownership: record_codec compact_ownership_schema zero_compact_ownership compact_ownership_json
proof
  fix r :: CompactDeletedOwnershipRecord and k :: string and v :: json
  show "distinct (map fst (compact_ownership_json r))"
    unfolding compact_ownership_json_def
    by (rule distinct_pieces [OF _ compact_ownership_names]) (simp add: compact_ownership_schema_def)
  show "(k, v) \<in> set (compact_ownership_json r) \<Longrightarrow> inspectValue 1 (value_of v) = None"
    unfolding compact_ownership_json_def by (erule flat_members) simp_all
  have "assign_members compact_ownership_schema (map value_member (compact_ownership_json r)) zero_compact_ownership
      = assign_members compact_ownership_schema [] r"
    unfolding compact_ownership_json_def
    by (simp only: concat.simps map_append list.map compact_ownership_steps) (cases r, simp add: zero_compact_ownership_def)
  then show "assign_members compact_ownership_schema (map value_member (compact_ownership_json r)) zero_compact_ownership = Some r" by simp
qed

section \<open>Records whose strings are UTF-8\<close>

definition text_parameters :: "CreateParameters \<Rightarrow> bool" where
  "text_parameters p \<longleftrightarrow> list_all valid_string
     ([cp_PoolName p, cp_DeletePolicy p, cp_DirectoryMode p, cp_AccessType p, cp_FilesystemType p] @ cp_AccessModes p)"

definition text_slice :: "string list option \<Rightarrow> bool" where
  "text_slice ns \<longleftrightarrow> (case ns of None \<Rightarrow> True | Some xs \<Rightarrow> list_all valid_string xs)"

definition text_parent_owner :: "ParentOwnerRecord \<Rightarrow> bool" where
  "text_parent_owner r \<longleftrightarrow> list_all valid_string
     [p_SchemaVersion r, p_DriverName r, p_InstallationID r, p_ActiveClusterUID r,
      p_ParentFilesystemID r, p_BasePath r, p_BasePathHash r, p_ControllerNamespace r,
      p_HelmReleaseName r, p_LeadershipLeaseName r, p_BootstrapAttemptID r, p_ContentChecksum r,
      p_CreatedAt r]"

definition text_detailed_allocation :: "DetailedAllocationRecord \<Rightarrow> bool" where
  "text_detailed_allocation r \<longleftrightarrow> list_all valid_string
     [a_SchemaVersion r, a_RecordKind r, a_DriverName r, a_ActiveClusterUID r, a_State r,
      a_InstallationID r, a_CreateVolumeRequestName r, a_RequestHash r, a_LogicalVolumeID r,
      a_VolumeHandle r, a_VolumeHandleHash r, a_MappingHash r, a_PoolName r, a_ParentFilesystemID r,
      a_BasePath r, a_BasePathHash r, a_DirectoryName r, a_DeletePolicy r, a_DeleteResult r,
      a_DeleteOperationID r, a_DeleteOperation r, a_DeleteSourcePath r, a_DeleteTargetPath r,
      a_DeletePreparedAt r, a_DeleteRemoveStartedAt r, a_DeleteCompletedAt r, a_DirectoryMode r,
      a_CreatedAt r, a_UpdatedAt r, a_DeletedAt r, a_ArchivedPath r, a_RetainedPath r,
      a_QuarantinePath r, a_GCRequestID r, a_GCRequestedMode r, a_GCExpectedState r, a_GCRequestedAt r,
      a_GCOperationID r, a_GCTargetPath r, a_GCQuarantinePath r, a_GCStartedAt r, a_GCRemoveStartedAt r,
      a_GCCompletedAt r, a_RecoveryOperationID r, a_RecoverySource r, a_RecoveredAt r] \<and> text_parameters (a_NormalizedCreateParameters r) \<and> text_slice (a_PublishedNodeIDs r)"

definition text_compact_allocation :: "CompactDeletedAllocationRecord \<Rightarrow> bool" where
  "text_compact_allocation r \<longleftrightarrow> list_all valid_string
     [ca_SchemaVersion r, ca_RecordKind r, ca_DriverName r, ca_InstallationID r, ca_ActiveClusterUID r,
      ca_CreateVolumeRequestName r, ca_LogicalVolumeID r, ca_VolumeHandleHash r, ca_MappingHash r,
      ca_State r, ca_ParentFilesystemID r, ca_DirectoryName r, ca_DeleteResult r, ca_UpdatedAt r,
      ca_DeletedAt r, ca_DeleteOperationID r, ca_DeleteOperation r, ca_ArchivedPath r,
      ca_RetainedPath r, ca_QuarantinePath r, ca_DeleteCompletedAt r, ca_GCOperationID r,
      ca_GCTargetPath r, ca_GCQuarantinePath r, ca_GCCompletedAt r]"

definition text_unknown_allocation :: "DeletedUnknownAllocationRecord \<Rightarrow> bool" where
  "text_unknown_allocation r \<longleftrightarrow> list_all valid_string
     [ua_SchemaVersion r, ua_RecordKind r, ua_DriverName r, ua_InstallationID r, ua_ActiveClusterUID r,
      ua_LogicalVolumeID r, ua_VolumeHandleHash r, ua_MappingHash r, ua_State r, ua_AbsenceReason r,
      ua_CreatedAt r, ua_UpdatedAt r, ua_DeletedAt r]"

definition text_detailed_ownership :: "DetailedOwnershipRecord \<Rightarrow> bool" where
  "text_detailed_ownership r \<longleftrightarrow> list_all valid_string
     [o_SchemaVersion r, o_RecordKind r, o_DriverName r, o_InstallationID r, o_ActiveClusterUID r,
      o_VolumeHandle r, o_VolumeHandleHash r, o_LogicalVolumeID r, o_MappingHash r, o_PoolName r,
      o_ParentFilesystemID r, o_BasePath r, o_BasePathHash r, o_DirectoryName r,
      o_CreateVolumeRequestName r, o_RequestHash r, o_DeletePolicy r, o_DirectoryMode r, o_State r,
      o_ContentChecksum r, o_CreatedAt r, o_DeleteOperationID r, o_DeleteOperation r,
      o_DeleteSourcePath r, o_DeleteTargetPath r, o_DeletePreparedAt r, o_DeleteRemoveStartedAt r,
      o_DeleteCompletedAt r, o_ArchivedPath r, o_RetainedPath r, o_QuarantinePath r, o_GCRequestID r,
      o_GCRequestedMode r, o_GCExpectedState r, o_GCRequestedAt r, o_GCOperationID r, o_GCTargetPath r,
      o_GCQuarantinePath r, o_GCStartedAt r, o_GCRemoveStartedAt r, o_GCCompletedAt r] \<and> text_parameters (o_NormalizedCreateParameters r) \<and> text_slice (o_PublishedNodeIDs r)"

definition text_compact_ownership :: "CompactDeletedOwnershipRecord \<Rightarrow> bool" where
  "text_compact_ownership r \<longleftrightarrow> list_all valid_string
     [co_SchemaVersion r, co_RecordKind r, co_DriverName r, co_InstallationID r, co_ActiveClusterUID r,
      co_VolumeHandleHash r, co_LogicalVolumeID r, co_CreateVolumeRequestName r, co_MappingHash r,
      co_ParentFilesystemID r, co_BasePathHash r, co_DirectoryName r, co_State r, co_DeleteResult r,
      co_UpdatedAt r, co_DeletedAt r, co_ContentChecksum r, co_DeleteOperation r, co_ArchivedPath r,
      co_RetainedPath r, co_QuarantinePath r, co_DeleteOperationID r, co_DeleteCompletedAt r,
      co_GCOperationID r, co_GCTargetPath r, co_GCQuarantinePath r, co_GCCompletedAt r]"

abbreviation text_member :: "string \<times> json \<Rightarrow> bool" where
  "text_member \<equiv> \<lambda>(k, v). valid_string k \<and> text_json v"

lemma text_pieces:
  "valid_string k \<Longrightarrow> list_all text_member (field k v) \<longleftrightarrow> text_json v"
  "valid_string k \<Longrightarrow> list_all text_member (omit_empty k s) \<longleftrightarrow> valid_string s"
  by (simp_all add: field_def omit_empty_def)

lemma list_all_concat: "list_all P (concat xss) \<longleftrightarrow> list_all (list_all P) xss"
  by (induction xss) simp_all

lemma ascii_names: "list_all (\<lambda>c. byte c < 128) k \<Longrightarrow> valid_string k"
  by (rule valid_string_ascii) (simp add: list_all_iff)

lemma text_parameters_json: "text_json (parameters_json p) \<longleftrightarrow> text_parameters p"
  by (simp add: parameters_json_def text_parameters_def list.pred_map comp_def ascii_names byte_def)

lemma text_slice_json: "text_json (slice_json ns) \<longleftrightarrow> text_slice ns"
  by (cases ns) (simp_all add: slice_json_def text_slice_def list.pred_map comp_def)

lemma text_parent_owner_json: "text_json (JObj (parent_owner_json r)) \<longleftrightarrow> text_parent_owner r"
  unfolding parent_owner_json_def text_json.simps list_all_concat
  by (simp add: text_pieces ascii_names byte_def text_parameters_json text_slice_json text_parent_owner_def conj_ac)

lemma text_detailed_allocation_json: "text_json (JObj (detailed_allocation_json r)) \<longleftrightarrow> text_detailed_allocation r"
  unfolding detailed_allocation_json_def text_json.simps list_all_concat
  by (simp add: text_pieces ascii_names byte_def text_parameters_json text_slice_json text_detailed_allocation_def conj_ac)

lemma text_compact_allocation_json: "text_json (JObj (compact_allocation_json r)) \<longleftrightarrow> text_compact_allocation r"
  unfolding compact_allocation_json_def text_json.simps list_all_concat
  by (simp add: text_pieces ascii_names byte_def text_parameters_json text_slice_json text_compact_allocation_def conj_ac)

lemma text_unknown_allocation_json: "text_json (JObj (unknown_allocation_json r)) \<longleftrightarrow> text_unknown_allocation r"
  unfolding unknown_allocation_json_def text_json.simps list_all_concat
  by (simp add: text_pieces ascii_names byte_def text_parameters_json text_slice_json text_unknown_allocation_def conj_ac)

lemma text_detailed_ownership_json: "text_json (JObj (detailed_ownership_json r)) \<longleftrightarrow> text_detailed_ownership r"
  unfolding detailed_ownership_json_def text_json.simps list_all_concat
  by (simp add: text_pieces ascii_names byte_def text_parameters_json text_slice_json text_detailed_ownership_def conj_ac)

lemma text_compact_ownership_json: "text_json (JObj (compact_ownership_json r)) \<longleftrightarrow> text_compact_ownership r"
  unfolding compact_ownership_json_def text_json.simps list_all_concat
  by (simp add: text_pieces ascii_names byte_def text_parameters_json text_slice_json text_compact_ownership_def conj_ac)


section \<open>Round trips\<close>

lemma DecodeAllocation_Encode:
  assumes "EncodeAllocationRecord (Some r) = Inr bytes" and "text_json (allocation_json r)"
  shows "DecodeAllocationRecord bytes = Inr r"
proof (cases r)
  case (DetailedA a)
  have v: "Detailed_Validate a = None" and b: "bytes = Marshal (JObj (detailed_allocation_json a))"
    using assms(1) by (simp_all add: DetailedA EncodeAllocationRecord_def)
  have k: "(''recordKind'', JStr AllocationRecordDetailed) \<in> set (detailed_allocation_json a)"
    using v by (simp add: Detailed_Validate_def detailed_allocation_json_def field_def)
  show ?thesis
    using detailed_allocation.kind_marshal [OF _ k] detailed_allocation.decode_marshal [of a] assms(2) v
    by (simp add: DecodeAllocationRecord_def DetailedA b)
next
  case (CompactA a)
  have v: "Compact_Validate a = None" and b: "bytes = Marshal (JObj (compact_allocation_json a))"
    using assms(1) by (simp_all add: CompactA EncodeAllocationRecord_def)
  have k: "(''recordKind'', JStr AllocationRecordCompactDeleted) \<in> set (compact_allocation_json a)"
    using v by (simp add: Compact_Validate_def compact_allocation_json_def field_def)
  show ?thesis
    using compact_allocation.kind_marshal [OF _ k] compact_allocation.decode_marshal [of a] assms(2) v
    by (simp add: DecodeAllocationRecord_def CompactA b AllocationRecordCompactDeleted_def AllocationRecordDetailed_def)
next
  case (UnknownA a)
  have v: "Unknown_Validate a = None" and b: "bytes = Marshal (JObj (unknown_allocation_json a))"
    using assms(1) by (simp_all add: UnknownA EncodeAllocationRecord_def)
  have k: "(''recordKind'', JStr AllocationRecordDeletedUnknown) \<in> set (unknown_allocation_json a)"
    using v by (simp add: Unknown_Validate_def unknown_allocation_json_def field_def)
  show ?thesis
    using unknown_allocation.kind_marshal [OF _ k] unknown_allocation.decode_marshal [of a] assms(2) v
    by (simp add: DecodeAllocationRecord_def UnknownA b AllocationRecordCompactDeleted_def AllocationRecordDetailed_def
        AllocationRecordDeletedUnknown_def)
qed

lemma DecodeOwnership_Encode:
  assumes "EncodeOwnershipRecord (Some r) = Inr bytes" and "text_json (ownership_json r)"
  shows "DecodeOwnershipRecord bytes = Inr r"
proof (cases r)
  case (DetailedO a)
  have v: "DetailedOwnership_Validate a = None" and b: "bytes = Marshal (JObj (detailed_ownership_json a))"
    using assms(1) by (simp_all add: DetailedO EncodeOwnershipRecord_def)
  have k: "(''recordKind'', JStr OwnershipRecordDetailed) \<in> set (detailed_ownership_json a)"
    using v by (simp add: DetailedOwnership_Validate_def Detailed_validatePayload_def detailed_ownership_json_def field_def)
  show ?thesis
    using detailed_ownership.kind_marshal [OF _ k] detailed_ownership.decode_marshal [of a] assms(2) v
    by (simp add: DecodeOwnershipRecord_def DetailedO b)
next
  case (CompactO a)
  have v: "CompactOwnership_Validate a = None" and b: "bytes = Marshal (JObj (compact_ownership_json a))"
    using assms(1) by (simp_all add: CompactO EncodeOwnershipRecord_def)
  have k: "(''recordKind'', JStr OwnershipRecordCompactDeleted) \<in> set (compact_ownership_json a)"
    using v by (simp add: CompactOwnership_Validate_def Compact_validatePayload_def compact_ownership_json_def field_def)
  show ?thesis
    using compact_ownership.kind_marshal [OF _ k] compact_ownership.decode_marshal [of a] assms(2) v
    by (simp add: DecodeOwnershipRecord_def CompactO b OwnershipRecordCompactDeleted_def OwnershipRecordDetailed_def)
qed

text \<open>
  (C11) A durable record survives storage. Whatever bytes \<^verbatim>\<open>EncodeAllocationRecord\<close>,
  \<^verbatim>\<open>EncodeOwnershipRecord\<close> and \<^verbatim>\<open>EncodeParentOwnerRecord\<close> produce for a record whose strings are UTF-8,
  the decoder of that family returns exactly that record, for every variant: the strict JSON reader,
  the duplicate-key and depth inspection, the closed schema and the validation all accept the
  canonical text, and no field is lost, defaulted or reordered into another.
\<close>

theorem record_codec_roundtrip:
  assumes "EncodeAllocationRecord (Some a) = Inr abytes" and "text_json (allocation_json a)"
    and "EncodeOwnershipRecord (Some d) = Inr dbytes" and "text_json (ownership_json d)"
    and "EncodeParentOwnerRecord p = Inr pbytes" and "text_json (JObj (parent_owner_json p))"
  shows "DecodeAllocationRecord abytes = Inr a \<and> DecodeOwnershipRecord dbytes = Inr d
    \<and> DecodeParentOwnerRecord pbytes = Inr p"
  using DecodeAllocation_Encode [OF assms(1,2)] DecodeOwnership_Encode [OF assms(3,4)] assms(5,6)
    parent_owner.decode_marshal [of p]
  by (simp add: EncodeParentOwnerRecord_def DecodeParentOwnerRecord_def)

lemma text_hex: "valid_string (hex_encode bs)"
  by (rule valid_string_ascii) (use hex_encode_hex [of bs] in \<open>auto simp: list_all_iff is_hex_def is_digit_def in_range_def\<close>)

lemma text_hashes:
  "list_all (\<lambda>c. byte c < 128) p \<Longrightarrow> valid_string (truncatedBytesHash p s)"
  "list_all (\<lambda>c. byte c < 128) p \<Longrightarrow> valid_string (truncatedCanonicalHash p j)"
  "valid_string (contentChecksum kvs)"
  by (simp_all add: truncatedBytesHash_def truncatedCanonicalHash_def contentChecksum_def ascii_names text_hex byte_def valid_ascii_Cons)

lemmas sample_text_defs = sample_driver_def sample_request_name_def sample_uuid_def sample_base_def sample_dir_def
  sample_time_def sample_volume_def sample_mapping_hash_def sample_parameters_def

lemma sample_handle_text: "valid_string sample_handle"
  by (simp add: sample_handle_def Handle_String_def handlePrefix_def text_hashes sample_text_defs ascii_names byte_def valid_ascii_Cons)

lemma sample_allocation_text: "text_json (allocation_json (DetailedA sample_allocation))"
  by (simp only: allocation_json.simps text_detailed_allocation_json)
    (simp add: text_detailed_allocation_def sample_allocation_def text_hashes sample_handle_text sample_text_defs
      text_parameters_def text_slice_def ascii_names byte_def SchemaVersionV1_def AllocationRecordDetailed_def
      state_defs DeletePolicyArchive_def AccessModeMultiNodeMultiWriter_def)

lemma sample_ownership_text: "text_json (ownership_json (DetailedO (sample_ownership sample_allocation)))"
  using sample_allocation_text
  by (simp only: allocation_json.simps ownership_json.simps text_detailed_allocation_json text_detailed_ownership_json)
    (simp add: text_detailed_allocation_def text_detailed_ownership_def sample_ownership_def ownership_payload_def text_hashes
      ascii_names byte_def OwnershipRecordDetailed_def)

lemma sample_claim_text: "text_json (JObj (parent_owner_json sample_claim))"
  by (simp only: text_parent_owner_json)
    (simp add: text_parent_owner_def sample_claim_def sample_claim_payload_def text_hashes sample_text_defs ascii_names
      byte_def SchemaVersionV1_def LeadershipLeaseNameV1_def)

text \<open>The paths that a record is filled with are text when the base path is.\<close>

lemma canonical_timestamp_ascii:
  assumes "canonical_rfc3339 ts" and "c \<in> set ts"
  shows "byte c < 128"
proof -
  obtain t where t: "format_rfc3339 t = ts" "parse_rfc3339 ts = Some t"
    using assms by (auto simp: canonical_rfc3339_def split: option.splits)
  have digits: "c \<in> set (pad_zeros k (format_uint n)) \<Longrightarrow> byte c < 128" for k n c
    using format_uint_digits [of c n] by (auto simp: pad_zeros_def char_class_defs)
  have "list_all is_digit (t_nanos t)"
    using t(2) unfolding parse_rfc3339_def Let_def
    by (auto simp: fraction_nanos_digits simp del: list_all_iff split: if_splits)
  then have "c \<in> set (trim_right ''0'' (t_nanos t)) \<Longrightarrow> byte c < 128" for c
    using set_trim_right [of "''0''" "t_nanos t"] by (fastforce simp: list_all_iff char_class_defs)
  then show ?thesis
    using assms(2) digits t(1) [symmetric] by (auto simp: format_rfc3339_def Let_def byte_def split: if_splits)
qed

lemma ident_chars_ascii: "list_all ident_char s \<Longrightarrow> c \<in> set s \<Longrightarrow> byte c < 128"
  by (auto simp: list_all_iff ident_char_def char_class_defs)

lemma lifecycle_target_text:
  assumes "ManagedLifecycleTarget b m d lv ts op = Inr t"
  shows "valid_string t"
proof -
  have ok: "ValidateBasePath b = None" "ValidateDirectoryName d = None" "ValidateLogicalVolumeID lv = None"
    "canonical_rfc3339 ts" "ValidateOperationID op = None" "m = ''.archived'' \<or> m = ''.deleted''"
    using assms by (simp_all add: ManagedLifecycleTarget_def validateRequiredTimestamp_def)
  have "list_all ident_char ''lv-''" by (simp add: ident_char_def char_class_defs)
  then have "list_all ident_char lv" using ok(3) hash_pattern_chars by (simp add: ValidateLogicalVolumeID_def)
  moreover have "list_all ident_char op" using ok(5) uuid_chars by (simp add: ValidateOperationID_def)
  ultimately have "valid_string lv" "valid_string op" using ident_chars_ascii by (blast intro: valid_string_ascii)+
  moreover have "valid_string (remove_chars '':.-'' (lower_ascii ts))"
    by (rule valid_string_ascii)
      (use canonical_timestamp_ascii [OF ok(4)] in \<open>auto simp: remove_chars_def lower_ascii_def char_class_defs byte_def\<close>)
  ultimately show ?thesis
    unfolding lifecycle_target_eq(1) [OF assms] lifecycle_component_def using ok
    by (auto simp: ValidateBasePath_def ValidateDirectoryName_def Let_def valid_ascii_Cons byte_def)
qed

lemma sample_deleting_paths_text:
  "valid_string (sample_target ''.archived'' sample_uuid)" "valid_string (path_join [sample_base, sample_dir])"
proof -
  show "valid_string (sample_target ''.archived'' sample_uuid)"
    by (rule lifecycle_target_text [OF sample_target_managed]) simp_all
  show "valid_string (path_join [sample_base, sample_dir])"
    using path_join_below(1) [OF sample_base_ok, of "[sample_dir]"] valid_directory_name(1) [OF sample_dir_ok]
    by (simp add: join_with_def sample_base_def sample_dir_def ascii_names byte_def)
qed

lemma sample_deleting_allocation_text: "text_json (allocation_json (DetailedA sample_deleting))"
  using sample_allocation_text sample_deleting_paths_text
  by (simp only: allocation_json.simps text_detailed_allocation_json)
    (simp add: text_detailed_allocation_def sample_deleting_def sample_uuid_def sample_time_def ascii_names byte_def state_defs
      DeleteOperationArchive_def DeletePolicyArchive_def)

lemma sample_deleting_text: "text_json (ownership_json (DetailedO (sample_ownership sample_deleting)))"
  using sample_ownership_text sample_deleting_paths_text
  by (simp only: ownership_json.simps text_detailed_ownership_json)
    (simp add: text_detailed_ownership_def sample_ownership_def ownership_payload_def text_hashes sample_deleting_def
        sample_uuid_def sample_time_def ascii_names byte_def state_defs DeleteOperationArchive_def DeletePolicyArchive_def)

theorem record_codec_roundtrip_witness:
  "DecodeAllocationRecord (Marshal (allocation_json (DetailedA sample_allocation))) = Inr (DetailedA sample_allocation)
   \<and> DecodeOwnershipRecord (Marshal (ownership_json (DetailedO (sample_ownership sample_allocation))))
      = Inr (DetailedO (sample_ownership sample_allocation))
   \<and> DecodeParentOwnerRecord (Marshal (JObj (parent_owner_json sample_claim))) = Inr sample_claim"
  by (rule record_codec_roundtrip [OF _ sample_allocation_text _ sample_ownership_text _ sample_claim_text])
    (use sample_allocation_ok sample_ready_ownership_ok sample_claim_ok in
      \<open>simp_all add: EncodeAllocationRecord_def EncodeOwnershipRecord_def EncodeParentOwnerRecord_def parent.validate_iff_sealed\<close>)

text \<open>
  Case variants of a field pass the duplicate-key check. \<^verbatim>\<open>rejectDuplicateKeys\<close> compares keys
  byte by byte, while the struct decoder matches a key to a field without regard to case, so an
  object with \<^verbatim>\<open>revision\<close> and \<^verbatim>\<open>Revision\<close> is accepted under the closed schema and the later value wins.
\<close>

theorem case_variant_keys_accepted:
  "decode_struct parent_owner_schema zero_parent_owner
     (Marshal (JObj [(''revision'', JNum 1), (''Revision'', JNum 2)]))
   = Inr (zero_parent_owner\<lparr>p_Revision := 2\<rparr>)"
proof -
  have "find_field parent_owner_schema ''Revision'' = Some (set_uint p_Revision_update)"
    by (simp add: find_field_def parent_owner_schema_def fold_name_def runes_def scan_ascii_Cons byte_def fold_rune_def
        in_range_def)
  moreover have "find_field parent_owner_schema ''revision'' = Some (set_uint p_Revision_update)"
    by (rule find_field_known [OF parent_owner_fields(2)])
  moreover have "set_uint upd (VNumber (format_uint 2)) r = Some (upd (\<lambda>_. 2 :: u64) r)"
    "set_uint upd (VNumber (format_uint (Suc 0))) r = Some (upd (\<lambda>_. 1 :: u64) r)" for upd :: "_ \<Rightarrow> ParentOwnerRecord \<Rightarrow> _" and r
    using parse_format_uint [of 2 64] parse_format_uint [of 1 64] by (simp_all add: set_uint_def)
  ultimately show ?thesis
    unfolding decode_struct_def
    by (subst Decode_Marshal)
      (simp_all add: assign_struct_def maxNestingDepth_def ascii_names byte_def)
qed

end
