(* ===== verification/Effects.thy ===== *)
theory Effects
  imports Prelude
begin

text \<open>
  Operations that call out of the process. An action runs in a world of type \<open>'w\<close> (whatever the
  Go interfaces behind the controllers read and write) and returns a result or an error with the
  world it leaves. A call that fails may have changed the world, so a run that stops at any call,
  by an error or by a crash of the process, is one of the runs of the model. \<open>triple\<close> is the
  Hoare triple of an action with one postcondition for errors and one for results.
\<close>

named_theorems triple_rules \<open>introduction rules for Hoare triples, one per combinator\<close>

type_synonym ('w, 'a) act = "'w \<Rightarrow> 'a res \<times> 'w"

section \<open>Combinators\<close>

definition ret :: "'a \<Rightarrow> ('w, 'a) act" where
  "ret x = (\<lambda>w. (Inr x, w))"

definition fail :: "error \<Rightarrow> ('w, 'a) act" where
  "fail e = (\<lambda>w. (Inl e, w))"

definition lift :: "'a res \<Rightarrow> ('w, 'a) act" where
  "lift r = (\<lambda>w. (r, w))"

text \<open>\<^verbatim>\<open>x, err := m(); if err != nil { return err }\<close> followed by the rest.\<close>

definition andthen :: "('w, 'a) act \<Rightarrow> ('a \<Rightarrow> ('w, 'b) act) \<Rightarrow> ('w, 'b) act" where
  "andthen m f = (\<lambda>w. case m w of (Inl e, w') \<Rightarrow> (Inl e, w') | (Inr x, w') \<Rightarrow> f x w')"

text \<open>\<^verbatim>\<open>if err := check(); err != nil { return err }\<close> followed by the rest.\<close>

definition guard :: "error option \<Rightarrow> ('w, 'a) act \<Rightarrow> ('w, 'a) act" where
  "guard c m = (case c of None \<Rightarrow> m | Some e \<Rightarrow> fail e)"

text \<open>A call whose error is inspected: \<open>attempt m\<close> itself never fails.\<close>

definition attempt :: "('w, 'a) act \<Rightarrow> ('w, 'a res) act" where
  "attempt m = (\<lambda>w. case m w of (r, w') \<Rightarrow> (Inr r, w'))"

text \<open>\<^verbatim>\<open>defer release()\<close>: runs after the body, on every path.\<close>

definition deferred :: "('w \<Rightarrow> 'w) \<Rightarrow> ('w, 'a) act \<Rightarrow> ('w, 'a) act" where
  "deferred release m = (\<lambda>w. case m w of (r, w') \<Rightarrow> (r, release w'))"

text \<open>\<^verbatim>\<open>fmt.Errorf("msg: %w", err)\<close> around a call.\<close>

definition wrapped :: "string \<Rightarrow> ('w, 'a) act \<Rightarrow> ('w, 'a) act" where
  "wrapped msg m = (\<lambda>w. case m w of (r, w') \<Rightarrow> (wrap_res msg r, w'))"

lemma andthen_lift_Inr [simp]: "andthen (lift (Inr x)) f = f x"
  by (simp add: andthen_def lift_def)

lemma andthen_ret [simp]: "andthen (ret x) f = f x"
  by (simp add: andthen_def ret_def)

lemma guard_None [simp]: "guard None m = m"
  by (simp add: guard_def)

lemma andthen_Inr:
  assumes "andthen m f w = (Inr y, w')"
  obtains x w1 where "m w = (Inr x, w1)" "f x w1 = (Inr y, w')"
  using assms by (auto simp: andthen_def split: prod.splits sum.splits)

lemma guard_Inr: "guard c m w = (Inr y, w') \<longleftrightarrow> c = None \<and> m w = (Inr y, w')"
  by (auto simp: guard_def fail_def split: option.splits)

lemma lift_Inr: "lift r w = (Inr y, w') \<longleftrightarrow> r = Inr y \<and> w' = w"
  by (auto simp: lift_def)

lemma wrapped_Inr: "wrapped msg m w = (Inr y, w') \<longleftrightarrow> m w = (Inr y, w')"
  by (auto simp: wrapped_def wrap_res_Inr split: prod.splits)

section \<open>Triples\<close>

definition triple :: "('w \<Rightarrow> bool) \<Rightarrow> ('w, 'a) act \<Rightarrow> (error \<Rightarrow> 'w \<Rightarrow> bool) \<Rightarrow> ('a \<Rightarrow> 'w \<Rightarrow> bool) \<Rightarrow> bool" where
  "triple P m E Q \<longleftrightarrow> (\<forall>w. P w \<longrightarrow> (case m w of (Inl e, w') \<Rightarrow> E e w' | (Inr x, w') \<Rightarrow> Q x w'))"

lemma tripleI:
  "(\<And>w r w'. P w \<Longrightarrow> m w = (r, w') \<Longrightarrow> (case r of Inl e \<Rightarrow> E e w' | Inr x \<Rightarrow> Q x w')) \<Longrightarrow> triple P m E Q"
  by (fastforce simp: triple_def split: prod.splits sum.splits)

lemma tripleD:
  "triple P m E Q \<Longrightarrow> P w \<Longrightarrow> m w = (r, w') \<Longrightarrow> (case r of Inl e \<Rightarrow> E e w' | Inr x \<Rightarrow> Q x w')"
  by (fastforce simp: triple_def split: prod.splits sum.splits)

lemma triple_pre: "triple P' m E Q \<Longrightarrow> (\<And>w. P w \<Longrightarrow> P' w) \<Longrightarrow> triple P m E Q"
  by (auto simp: triple_def)

lemma triple_post:
  "triple P m E' Q' \<Longrightarrow> (\<And>e w. E' e w \<Longrightarrow> E e w) \<Longrightarrow> (\<And>x w. Q' x w \<Longrightarrow> Q x w) \<Longrightarrow> triple P m E Q"
  by (fastforce simp: triple_def split: prod.splits sum.splits)

lemma triple_fact: "triple (\<lambda>w. A \<and> P w) m E Q \<longleftrightarrow> (A \<longrightarrow> triple P m E Q)"
  by (auto simp: triple_def)

lemma triple_fact2: "(A \<Longrightarrow> triple P m E Q) \<Longrightarrow> triple (\<lambda>w. P w \<and> A) m E Q"
  by (auto simp: triple_def)

lemma triple_ex: "(\<And>x. triple (P x) m E Q) \<Longrightarrow> triple (\<lambda>w. \<exists>x. P x w) m E Q"
  by (rule tripleI) (auto dest: tripleD)

lemma triple_ret [triple_rules]: "(\<And>w. P w \<Longrightarrow> Q x w) \<Longrightarrow> triple P (ret x) E Q"
  by (simp add: triple_def ret_def)

lemma triple_fail [triple_rules]: "(\<And>w. P w \<Longrightarrow> E e w) \<Longrightarrow> triple P (fail e) E Q"
  by (simp add: triple_def fail_def)

lemma triple_lift [triple_rules]:
  "(\<And>e w. r = Inl e \<Longrightarrow> P w \<Longrightarrow> E e w) \<Longrightarrow> (\<And>x w. r = Inr x \<Longrightarrow> P w \<Longrightarrow> Q x w) \<Longrightarrow> triple P (lift r) E Q"
  by (cases r) (simp_all add: triple_def lift_def)

lemma triple_andthen:
  "triple P m E R \<Longrightarrow> (\<And>x. triple (R x) (f x) E Q) \<Longrightarrow> triple P (andthen m f) E Q"
  by (fastforce simp: triple_def andthen_def split: prod.splits sum.splits)

lemma triple_lift_andthen [triple_rules]:
  "(\<And>e w. r = Inl e \<Longrightarrow> P w \<Longrightarrow> E e w) \<Longrightarrow> (\<And>x. r = Inr x \<Longrightarrow> triple P (f x) E Q) \<Longrightarrow> triple P (andthen (lift r) f) E Q"
  by (cases r) (simp_all add: triple_def andthen_def lift_def)

lemma triple_guard [triple_rules]:
  "(\<And>e w. c = Some e \<Longrightarrow> P w \<Longrightarrow> E e w) \<Longrightarrow> (c = None \<Longrightarrow> triple P m E Q) \<Longrightarrow> triple P (guard c m) E Q"
  by (cases c) (simp_all add: guard_def triple_def fail_def)

lemma triple_if [triple_rules]:
  "(b \<Longrightarrow> triple P m E Q) \<Longrightarrow> (\<not> b \<Longrightarrow> triple P n E Q) \<Longrightarrow> triple P (if b then m else n) E Q"
  by simp

lemma triple_attempt:
  "triple P m (\<lambda>e. Q (Inl e)) (\<lambda>x. Q (Inr x)) \<Longrightarrow> triple P (attempt m) E Q"
  unfolding triple_def attempt_def by (metis (mono_tags, lifting) case_prod_conv old.sum.simps(5,6) prod.exhaust sum.exhaust)

lemma triple_deferred:
  "triple P m (\<lambda>e w. E e (release w)) (\<lambda>x w. Q x (release w)) \<Longrightarrow> triple P (deferred release m) E Q"
  by (fastforce simp: triple_def deferred_def split: prod.splits sum.splits)

lemma triple_wrapped [triple_rules]:
  "triple P m (\<lambda>e. E (wrap msg e)) Q \<Longrightarrow> triple P (wrapped msg m) E Q"
  by (rule tripleI) (auto simp: wrapped_def wrap_res_def split: prod.splits sum.splits dest: tripleD)

text \<open>A property that holds in the world whatever the outcome.\<close>

abbreviation keeps :: "('w \<Rightarrow> bool) \<Rightarrow> ('w, 'a) act \<Rightarrow> bool" where
  "keeps I m \<equiv> triple I m (\<lambda>_. I) (\<lambda>_. I)"

end
