(* ===== verification/KubernetesStore.thy ===== *)
theory KubernetesStore
  imports Codec Transition Effects "HOL-Library.AList" "HOL-Library.Product_Lexorder"
begin

text \<open>
  \<^verbatim>\<open>pkg/k8s/configmap.go\<close>, \<^verbatim>\<open>allocation_store.go\<close> and \<^verbatim>\<open>fake.go\<close>: the store of allocation records in
  ConfigMaps, over the client interface, and the in-memory client with injected faults. A Go map is
  an association list with distinct keys; a missing key reads as the empty string. The locale
  \<open>configmap_client\<close> states what the store needs of a client for one object: create if absent and
  compare-and-swap on the resource version, where a call that fails may have been applied.
\<close>

section \<open>Objects and clients\<close>

definition ErrNotFound :: sentinel where "ErrNotFound = OtherSentinel ''kubernetes object not found''"
definition ErrAlreadyExists :: sentinel where "ErrAlreadyExists = OtherSentinel ''kubernetes object already exists''"
definition ErrConflict :: sentinel where "ErrConflict = OtherSentinel ''kubernetes resource version conflict''"
definition ErrUnavailable :: sentinel where
  "ErrUnavailable = OtherSentinel ''kubernetes API unavailable or result ambiguous''"

definition sentinel_err :: "sentinel \<Rightarrow> error" where
  "sentinel_err s = Errorf [] [s]"

record ConfigMap =
  cm_Namespace :: string
  cm_Name :: string
  cm_UID :: string
  cm_ResourceVersion :: string
  cm_Labels :: "(string \<times> string) list"
  cm_Data :: "(string \<times> string) list"

record 'w ConfigMapClient =
  client_Create :: "ConfigMap \<Rightarrow> ('w, ConfigMap) act"
  client_Get :: "string \<Rightarrow> string \<Rightarrow> ('w, ConfigMap) act"
  client_Update :: "ConfigMap \<Rightarrow> ('w, ConfigMap) act"
  client_List :: "string \<Rightarrow> (string \<times> string) list \<Rightarrow> ('w, ConfigMap list) act"

section \<open>The allocation store\<close>

definition allocationNamePrefix :: string where "allocationNamePrefix = ''sfs-subdir-volume-''"
definition allocationDataKey :: string where "allocationDataKey = ''record.json''"
definition applicationName :: string where "applicationName = ''scaleway-sfs-subdir-csi''"

record StoredAllocation =
  sa_Record :: AllocationRecord
  sa_UID :: string
  sa_ResourceVersion :: string

record 'w KubernetesAllocationStore =
  ks_client :: "'w ConfigMapClient"
  ks_namespace :: string
  ks_driverName :: string
  ks_installationID :: string

definition NewAllocationStore ::
  "'w ConfigMapClient option \<Rightarrow> string \<Rightarrow> string \<Rightarrow> string \<Rightarrow> 'w KubernetesAllocationStore res" where
  "NewAllocationStore client namespace driverName installationID =
     (case client of
        None \<Rightarrow> Inl (errorf ''ConfigMap client is nil'')
      | Some c \<Rightarrow>
          require (errs
            [ensure (\<not> (namespace = [] \<or> length namespace > 63)) ''driver namespace must contain 1 to 63 bytes'',
             ValidateDriverName driverName,
             ValidateInstallationID installationID])
          (Inr \<lparr>ks_client = c, ks_namespace = namespace, ks_driverName = driverName, ks_installationID = installationID\<rparr>))"

definition AllocationName :: "string \<Rightarrow> string res" where
  "AllocationName logicalVolumeID =
     require (ValidateLogicalVolumeID logicalVolumeID) (Inr (allocationNamePrefix @ logicalVolumeID))"

definition labelHash :: "string \<Rightarrow> string \<Rightarrow> string" where
  "labelHash prefix val = prefix @ hex_encode (take 16 (sha256 val))"

definition base_labels :: "'w KubernetesAllocationStore \<Rightarrow> AllocationRecord \<Rightarrow> (string \<times> string) list" where
  "base_labels store record =
     [(''app.kubernetes.io/name'', applicationName),
      (ks_driverName store @ ''/installation-id'', ks_installationID store),
      (ks_driverName store @ ''/logical-volume-id'', Allocation_LogicalID record),
      (ks_driverName store @ ''/request-name-hash'', ''unknown''),
      (ks_driverName store @ ''/volume-handle-hash'', ''unknown''),
      (ks_driverName store @ ''/pool-name-hash'', ''unknown''),
      (ks_driverName store @ ''/parent-filesystem-id-hash'', ''unknown''),
      (ks_driverName store @ ''/state'', Allocation_LifecycleState record)]"

definition in_scope :: "'w KubernetesAllocationStore \<Rightarrow> string \<Rightarrow> string \<Rightarrow> error option" where
  "in_scope store driverName installationID =
     ensure (\<not> (driverName \<noteq> ks_driverName store \<or> installationID \<noteq> ks_installationID store))
       ''allocation record identity does not match store scope''"

definition recordLabels :: "'w KubernetesAllocationStore \<Rightarrow> AllocationRecord \<Rightarrow> (string \<times> string) list res" where
  "recordLabels store record =
     (let put = (\<lambda>suffix val labels. AList.update (ks_driverName store @ suffix) val labels);
          labels = base_labels store record
      in case record of
           DetailedA typed \<Rightarrow>
             require (in_scope store (a_DriverName typed) (a_InstallationID typed))
               (Inr (put ''/parent-filesystem-id-hash'' (labelHash ''pf-'' (a_ParentFilesystemID typed))
                 (put ''/pool-name-hash'' (labelHash ''pn-'' (a_PoolName typed))
                 (put ''/volume-handle-hash'' (a_VolumeHandleHash typed)
                 (put ''/request-name-hash'' (labelHash ''rn-'' (a_CreateVolumeRequestName typed)) labels)))))
         | CompactA typed \<Rightarrow>
             require (in_scope store (ca_DriverName typed) (ca_InstallationID typed))
               (Inr (put ''/parent-filesystem-id-hash'' (labelHash ''pf-'' (ca_ParentFilesystemID typed))
                 (put ''/volume-handle-hash'' (ca_VolumeHandleHash typed)
                 (put ''/request-name-hash'' (labelHash ''rn-'' (ca_CreateVolumeRequestName typed)) labels))))
         | UnknownA typed \<Rightarrow>
             require (in_scope store (ua_DriverName typed) (ua_InstallationID typed))
               (Inr (put ''/volume-handle-hash'' (ua_VolumeHandleHash typed) labels)))"

definition objectForRecord :: "'w KubernetesAllocationStore \<Rightarrow> AllocationRecord \<Rightarrow> string \<Rightarrow> ConfigMap res" where
  "objectForRecord store record resourceVersion =
     require (Allocation_Validate record)
       (and_then (recordLabels store record) (\<lambda>ident.
        and_then (AllocationName (Allocation_LogicalID record)) (\<lambda>name.
        and_then (EncodeAllocationRecord (Some record)) (\<lambda>encoded.
        Inr \<lparr>cm_Namespace = ks_namespace store, cm_Name = name, cm_UID = [], cm_ResourceVersion = resourceVersion,
          cm_Labels = ident, cm_Data = [(allocationDataKey, encoded)]\<rparr>))))"

definition go_lookup :: "(string \<times> string) list \<Rightarrow> string \<Rightarrow> string" where
  "go_lookup m key = (case map_of m key of None \<Rightarrow> [] | Some v \<Rightarrow> v)"

definition decodeObject :: "'w KubernetesAllocationStore \<Rightarrow> ConfigMap \<Rightarrow> StoredAllocation res" where
  "decodeObject store object =
     require (errs
       [ensure (cm_Namespace object = ks_namespace store) ''allocation ConfigMap is in another namespace'',
        ensure (cm_ResourceVersion object \<noteq> []) ''allocation ConfigMap has no resourceVersion'',
        ensure (length (cm_Data object) = 1) ''allocation ConfigMap must contain exactly one data key''])
     (case map_of (cm_Data object) allocationDataKey of
        None \<Rightarrow> Inl (errorf ''allocation ConfigMap is missing its data key'')
      | Some encoded \<Rightarrow>
          and_then (wrap_res ''decode allocation ConfigMap'' (DecodeAllocationRecord encoded)) (\<lambda>record.
          and_then (AllocationName (Allocation_LogicalID record)) (\<lambda>wantName.
          require (ensure (cm_Name object = wantName) ''allocation ConfigMap name does not match logical ID'')
            (and_then (recordLabels store record) (\<lambda>wantLabels.
             require (errs (map (\<lambda>(key, want). ensure (go_lookup (cm_Labels object) key = want)
                 ''allocation ConfigMap label differs'') wantLabels))
               (Inr \<lparr>sa_Record = record, sa_UID = cm_UID object, sa_ResourceVersion = cm_ResourceVersion object\<rparr>))))))"

definition Store_Create :: "'w KubernetesAllocationStore \<Rightarrow> AllocationRecord \<Rightarrow> ('w, StoredAllocation) act" where
  "Store_Create store record =
     andthen (lift (objectForRecord store record [])) (\<lambda>object.
     andthen (wrapped ''create allocation ConfigMap'' (client_Create (ks_client store) object)) (\<lambda>created.
     lift (decodeObject store created)))"

definition Store_Get :: "'w KubernetesAllocationStore \<Rightarrow> string \<Rightarrow> ('w, StoredAllocation) act" where
  "Store_Get store logicalVolumeID =
     andthen (lift (AllocationName logicalVolumeID)) (\<lambda>name.
     andthen (wrapped ''get allocation ConfigMap'' (client_Get (ks_client store) (ks_namespace store) name)) (\<lambda>object.
     lift (decodeObject store object)))"

definition Store_Update ::
  "'w KubernetesAllocationStore \<Rightarrow> StoredAllocation \<Rightarrow> AllocationRecord \<Rightarrow> ('w, StoredAllocation) act" where
  "Store_Update store current nxt =
     guard (ensure (sa_ResourceVersion current \<noteq> []) ''allocation update requires a resource version'')
     (guard (ValidateAllocationUpdate (Some (sa_Record current)) (Some nxt))
     (andthen (lift (objectForRecord store nxt (sa_ResourceVersion current))) (\<lambda>object.
      andthen (wrapped ''update allocation ConfigMap'' (client_Update (ks_client store) object)) (\<lambda>updated.
      lift (decodeObject store updated)))))"

fun list_loop :: "'w KubernetesAllocationStore \<Rightarrow> string list \<Rightarrow> ConfigMap list \<Rightarrow> StoredAllocation list res" where
  "list_loop store seen [] = Inr []"
| "list_loop store seen (object # objects) =
     and_then (decodeObject store object) (\<lambda>decoded.
     require (ensure (Allocation_LogicalID (sa_Record decoded) \<notin> set seen)
         ''multiple allocation ConfigMaps resolve to one logical ID'')
       (and_then (list_loop store (Allocation_LogicalID (sa_Record decoded) # seen) objects) (\<lambda>rest.
        Inr (decoded # rest))))"

definition Store_List :: "'w KubernetesAllocationStore \<Rightarrow> ('w, StoredAllocation list) act" where
  "Store_List store =
     andthen (wrapped ''list allocation ConfigMaps'' (client_List (ks_client store) (ks_namespace store)
         [(''app.kubernetes.io/name'', applicationName),
          (ks_driverName store @ ''/installation-id'', ks_installationID store)])) (\<lambda>objects.
     lift (list_loop store [] (sort_key cm_Name objects)))"

section \<open>The in-memory client\<close>

definition FakeCreate :: string where "FakeCreate = ''create''"
definition FakeGet :: string where "FakeGet = ''get''"
definition FakeUpdate :: string where "FakeUpdate = ''update''"
definition FakeList :: string where "FakeList = ''list''"

record FakeFault =
  ff_Operation :: string
  ff_Err :: "error option"
  ff_ApplyBeforeError :: bool

record FakeConfigMapClient =
  fk_objects :: "(string \<times> ConfigMap) list"
  fk_revision :: u64
  fk_faults :: "FakeFault list"

definition objectKey :: "string \<Rightarrow> string \<Rightarrow> string" where
  "objectKey namespace name = namespace @ [CHR 0x00] @ name"

definition fault_err :: "FakeFault \<Rightarrow> error" where
  "fault_err fault = (case ff_Err fault of Some e \<Rightarrow> e | None \<Rightarrow> errorf (''injected '' @ ff_Operation fault @ '' fault''))"

text \<open>The first fault of the operation, consumed from the script.\<close>

definition takeFault :: "string \<Rightarrow> FakeConfigMapClient \<Rightarrow> FakeFault option \<times> FakeConfigMapClient" where
  "takeFault operation client =
     (case dropWhile (\<lambda>f. ff_Operation f \<noteq> operation) (fk_faults client) of
        [] \<Rightarrow> (None, client)
      | fault # rest \<Rightarrow>
          (Some fault, client\<lparr>fk_faults := takeWhile (\<lambda>f. ff_Operation f \<noteq> operation) (fk_faults client) @ rest\<rparr>))"

text \<open>What happens to a checked write: refused, applied and then lost, or applied.\<close>

definition commit :: "FakeFault option \<Rightarrow> FakeConfigMapClient \<Rightarrow> ConfigMap \<Rightarrow> string \<Rightarrow> ConfigMap res \<times> FakeConfigMapClient" where
  "commit fault client object uid =
     (let revision = fk_revision client + 1;
          version = format_uint (unat revision);
          stored = object\<lparr>cm_UID := (if cm_UID object = [] then uid else cm_UID object), cm_ResourceVersion := version\<rparr>;
          applied = client\<lparr>fk_revision := revision,
            fk_objects := AList.update (objectKey (cm_Namespace object) (cm_Name object)) stored (fk_objects client)\<rparr>
      in case fault of
           None \<Rightarrow> (Inr stored, applied)
         | Some f \<Rightarrow> (Inl (fault_err f), if ff_ApplyBeforeError f then applied else client))"

definition Fake_Create :: "ConfigMap \<Rightarrow> (FakeConfigMapClient, ConfigMap) act" where
  "Fake_Create object client =
     (case takeFault FakeCreate client of
        (fault, client) \<Rightarrow>
          if map_of (fk_objects client) (objectKey (cm_Namespace object) (cm_Name object)) \<noteq> None
          then (Inl (sentinel_err ErrAlreadyExists), client)
          else commit fault client object (''fake-configmap-'' @ format_uint (unat (fk_revision client + 1))))"

definition Fake_Get :: "string \<Rightarrow> string \<Rightarrow> (FakeConfigMapClient, ConfigMap) act" where
  "Fake_Get namespace name client =
     (case takeFault FakeGet client of
        (Some fault, client) \<Rightarrow> (Inl (fault_err fault), client)
      | (None, client) \<Rightarrow>
          (case map_of (fk_objects client) (objectKey namespace name) of
             None \<Rightarrow> (Inl (sentinel_err ErrNotFound), client)
           | Some object \<Rightarrow> (Inr object, client)))"

definition Fake_Update :: "ConfigMap \<Rightarrow> (FakeConfigMapClient, ConfigMap) act" where
  "Fake_Update object client =
     (case takeFault FakeUpdate client of
        (fault, client) \<Rightarrow>
          (case map_of (fk_objects client) (objectKey (cm_Namespace object) (cm_Name object)) of
             None \<Rightarrow> (Inl (sentinel_err ErrNotFound), client)
           | Some current \<Rightarrow>
               if cm_ResourceVersion object = [] \<or> cm_ResourceVersion object \<noteq> cm_ResourceVersion current
               then (Inl (sentinel_err ErrConflict), client)
               else commit fault client object (cm_UID current)))"

definition labelsMatch :: "(string \<times> string) list \<Rightarrow> (string \<times> string) list \<Rightarrow> bool" where
  "labelsMatch object selector = list_all (\<lambda>(key, val). go_lookup object key = val) selector"

definition Fake_List :: "string \<Rightarrow> (string \<times> string) list \<Rightarrow> (FakeConfigMapClient, ConfigMap list) act" where
  "Fake_List namespace labels client =
     (case takeFault FakeList client of
        (Some fault, client) \<Rightarrow> (Inl (fault_err fault), client)
      | (None, client) \<Rightarrow>
          (Inr (sort_key (\<lambda>object. (cm_Namespace object, cm_Name object))
            (filter (\<lambda>object. cm_Namespace object = namespace \<and> labelsMatch (cm_Labels object) labels)
              (map snd (fk_objects client)))), client))"

definition fake_client :: "FakeConfigMapClient ConfigMapClient" where
  "fake_client = \<lparr>client_Create = Fake_Create, client_Get = Fake_Get, client_Update = Fake_Update, client_List = Fake_List\<rparr>"

section \<open>Stored objects read back\<close>

lemma map_of_AList_update_self [simp]: "map_of (AList.update k v m) k = Some v"
  by (simp add: update_conv')

lemma distinct_base_labels: "distinct (map fst (base_labels store record))"
  by (simp add: base_labels_def)

lemma recordLabels_distinct: "recordLabels store record = Inr labels \<Longrightarrow> distinct (map fst labels)"
  using distinct_base_labels [of store "record"]
  by (auto simp: recordLabels_def Let_def distinct_update split: AllocationRecord.splits)

lemma labels_match_self:
  assumes "distinct (map fst labels)"
  shows "errs (map (\<lambda>(key, want). ensure (go_lookup labels key = want) msg) labels) = None"
  using assms by (auto simp: go_lookup_def)

lemma decode_object_for_record:
  assumes obj: "objectForRecord store record rv0 = Inr obj" and tx: "text_json (allocation_json record)" and rv: "rv \<noteq> []"
  shows "decodeObject store (obj\<lparr>cm_UID := uid, cm_ResourceVersion := rv\<rparr>)
    = Inr \<lparr>sa_Record = record, sa_UID = uid, sa_ResourceVersion = rv\<rparr>"
proof -
  obtain labels name encoded where parts: "recordLabels store record = Inr labels"
      "AllocationName (Allocation_LogicalID record) = Inr name" "EncodeAllocationRecord (Some record) = Inr encoded"
    and o: "obj = \<lparr>cm_Namespace = ks_namespace store, cm_Name = name, cm_UID = [], cm_ResourceVersion = rv0,
        cm_Labels = labels, cm_Data = [(allocationDataKey, encoded)]\<rparr>"
    using obj by (auto simp: objectForRecord_def)
  then show ?thesis
    using rv DecodeAllocation_Encode [OF parts(3) tx] labels_match_self [OF recordLabels_distinct [OF parts(1)]]
    by (simp add: decodeObject_def wrap_res_def)
qed

lemma object_for_record_name:
  "objectForRecord store record rv = Inr obj \<Longrightarrow>
   cm_Namespace obj = ks_namespace store \<and> AllocationName (Allocation_LogicalID record) = Inr (cm_Name obj)
   \<and> cm_ResourceVersion obj = rv"
  by (auto simp: objectForRecord_def)

lemma decode_object_name:
  "decodeObject store obj = Inr s \<Longrightarrow>
   AllocationName (Allocation_LogicalID (sa_Record s)) = Inr (cm_Name obj) \<and> sa_ResourceVersion s = cm_ResourceVersion obj"
  by (auto simp: decodeObject_def split: option.splits)

section \<open>The contract of a client for one object\<close>

text \<open>The object as a server stores it: the written content with a UID and a new resource version.\<close>

definition stamped :: "ConfigMap \<Rightarrow> ConfigMap \<Rightarrow> bool" where
  "stamped written stored \<longleftrightarrow> cm_ResourceVersion stored \<noteq> []
     \<and> stored = written\<lparr>cm_UID := cm_UID stored, cm_ResourceVersion := cm_ResourceVersion stored\<rparr>"

lemma decode_stamped:
  assumes "objectForRecord store record rv0 = Inr obj" and "text_json (allocation_json record)" and "stamped obj x"
  obtains s where "decodeObject store x = Inr s" "sa_Record s = record"
  using decode_object_for_record [OF assms(1,2), of "cm_ResourceVersion x" "cm_UID x"] assms(3)
  by (auto simp: stamped_def)

locale configmap_client =
  fixes client :: "'w ConfigMapClient" and ns :: string and nm :: string and object :: "'w \<Rightarrow> ConfigMap option"
  assumes client_create: "cm_Namespace o' = ns \<Longrightarrow> cm_Name o' = nm \<Longrightarrow> client_Create client o' w = (r, w') \<Longrightarrow>
      object w' = object w \<and> (\<exists>e. r = Inl e)
      \<or> (\<exists>x. object w = None \<and> object w' = Some x \<and> stamped o' x \<and> (\<forall>y. r = Inr y \<longrightarrow> y = x))"
    and client_get: "client_Get client ns nm w = (r, w') \<Longrightarrow>
      object w' = object w \<and> (\<forall>x. r = Inr x \<longrightarrow> object w = Some x)"
    and client_update: "cm_Namespace o' = ns \<Longrightarrow> cm_Name o' = nm \<Longrightarrow> client_Update client o' w = (r, w') \<Longrightarrow>
      object w' = object w \<and> (\<exists>e. r = Inl e)
      \<or> (\<exists>x current. object w = Some current \<and> cm_ResourceVersion current = cm_ResourceVersion o'
          \<and> object w' = Some x \<and> stamped o' x \<and> (\<forall>y. r = Inr y \<longrightarrow> y = x))"
begin

text \<open>The allocation that the object holds, as the store reads it.\<close>

definition allocation_in :: "'w KubernetesAllocationStore \<Rightarrow> 'w \<Rightarrow> StoredAllocation option" where
  "allocation_in store w = (case object w of None \<Rightarrow> None
     | Some obj \<Rightarrow> (case decodeObject store obj of Inl e \<Rightarrow> None | Inr s \<Rightarrow> Some s))"

lemma store_get:
  assumes "ks_client store = client" "ks_namespace store = ns" "AllocationName vid = Inr nm"
    and "Store_Get store vid w = (r, w')"
  shows "object w' = object w \<and> (\<forall>s. r = Inr s \<longrightarrow> allocation_in store w = Some s)"
  using assms client_get [of w]
  by (auto simp: Store_Get_def andthen_def lift_def wrapped_def allocation_in_def split: prod.splits sum.splits)

lemma store_create:
  assumes st: "ks_client store = client" "ks_namespace store = ns"
    and nm: "AllocationName (Allocation_LogicalID record) = Inr nm" and tx: "text_json (allocation_json record)"
    and run: "Store_Create store record w = (r, w')"
  shows "object w' = object w \<and> (\<exists>e. r = Inl e)
    \<or> (\<exists>s. object w = None \<and> allocation_in store w' = Some s \<and> sa_Record s = record \<and> (\<forall>x. r = Inr x \<longrightarrow> x = s))"
proof (cases "objectForRecord store record []")
  case (Inl e)
  then show ?thesis using run by (auto simp: Store_Create_def andthen_def lift_def)
next
  case (Inr obj)
  obtain q v where q: "client_Create client obj w = (q, v)" by (cases "client_Create client obj w")
  have w': "w' = v" "r = (case q of Inl e \<Rightarrow> Inl (wrap ''create allocation ConfigMap'' e) | Inr x \<Rightarrow> decodeObject store x)"
    using run q Inr st by (auto simp: Store_Create_def andthen_def lift_def wrapped_def wrap_res_def split: sum.splits)
  have "cm_Namespace obj = ns" "cm_Name obj = nm" using object_for_record_name [OF Inr] st nm by auto
  from client_create [OF this q] consider "object v = object w" "\<exists>e. q = Inl e"
    | x where "object w = None" "object v = Some x" "stamped obj x" "\<forall>y. q = Inr y \<longrightarrow> y = x"
    by blast
  then show ?thesis
  proof cases
    case 1
    then show ?thesis using w' by auto
  next
    case 2
    obtain s where "decodeObject store x = Inr s" "sa_Record s = record" by (rule decode_stamped [OF Inr tx 2(3)])
    then show ?thesis using w' 2 by (auto simp: allocation_in_def split: sum.splits)
  qed
qed

lemma store_update:
  assumes st: "ks_client store = client" "ks_namespace store = ns"
    and nm: "AllocationName (Allocation_LogicalID nxt) = Inr nm" and tx: "text_json (allocation_json nxt)"
    and run: "Store_Update store s nxt w = (r, w')"
  shows "object w' = object w \<and> (\<exists>e. r = Inl e)
    \<or> (\<exists>s'. allocation_in store w' = Some s' \<and> sa_Record s' = nxt
        \<and> ValidateAllocationUpdate (Some (sa_Record s)) (Some nxt) = None
        \<and> (\<exists>current. object w = Some current \<and> cm_ResourceVersion current = sa_ResourceVersion s)
        \<and> (\<forall>x. r = Inr x \<longrightarrow> x = s'))"
proof (cases "sa_ResourceVersion s \<noteq> [] \<and> ValidateAllocationUpdate (Some (sa_Record s)) (Some nxt) = None
    \<and> (\<exists>obj. objectForRecord store nxt (sa_ResourceVersion s) = Inr obj)")
  case False
  then show ?thesis using run
    by (cases "objectForRecord store nxt (sa_ResourceVersion s)")
      (auto simp: Store_Update_def guard_def ensure_def andthen_def lift_def fail_def split: option.splits if_splits)
next
  case True
  then obtain obj where Inr: "objectForRecord store nxt (sa_ResourceVersion s) = Inr obj"
    and ok: "sa_ResourceVersion s \<noteq> []" "ValidateAllocationUpdate (Some (sa_Record s)) (Some nxt) = None" by auto
  obtain q v where q: "client_Update client obj w = (q, v)" by (cases "client_Update client obj w")
  have w': "w' = v" "r = (case q of Inl e \<Rightarrow> Inl (wrap ''update allocation ConfigMap'' e) | Inr x \<Rightarrow> decodeObject store x)"
    using run q Inr ok st
    by (auto simp: Store_Update_def ensure_def andthen_def lift_def wrapped_def wrap_res_def split: sum.splits)
  have on: "cm_Namespace obj = ns" "cm_Name obj = nm" "cm_ResourceVersion obj = sa_ResourceVersion s"
    using object_for_record_name [OF Inr] st nm by auto
  from client_update [OF on(1,2) q] consider "object v = object w" "\<exists>e. q = Inl e"
    | x current where "object w = Some current" "cm_ResourceVersion current = cm_ResourceVersion obj"
        "object v = Some x" "stamped obj x" "\<forall>y. q = Inr y \<longrightarrow> y = x"
    by blast
  then show ?thesis
  proof cases
    case 1
    then show ?thesis using w' by auto
  next
    case 2
    obtain s' where "decodeObject store x = Inr s'" "sa_Record s' = nxt" by (rule decode_stamped [OF Inr tx 2(4)])
    then show ?thesis using w' on ok 2 by (auto simp: allocation_in_def split: sum.splits)
  qed
qed

end

section \<open>The in-memory client keeps the contract\<close>

lemma takeFault_objects: "takeFault operation c = (f, c') \<Longrightarrow> fk_objects c' = fk_objects c"
  by (auto simp: takeFault_def split: list.splits)

lemma commit_cases:
  assumes "commit fault c object uid = (r, c')"
  shows "fk_objects c' = fk_objects c \<and> (\<exists>e. r = Inl e)
    \<or> (\<exists>x. stamped object x \<and> (\<forall>y. r = Inr y \<longrightarrow> y = x)
        \<and> fk_objects c' = AList.update (objectKey (cm_Namespace object) (cm_Name object)) x (fk_objects c))"
proof -
  define x where "x = object\<lparr>cm_UID := (if cm_UID object = [] then uid else cm_UID object),
    cm_ResourceVersion := format_uint (unat (fk_revision c + 1))\<rparr>"
  have "stamped object x" using format_uint_props [of "unat (fk_revision c + 1)"] by (simp add: stamped_def x_def)
  then show ?thesis
    using assms unfolding commit_def Let_def x_def [symmetric] by (cases fault) (auto split: if_splits)
qed

interpretation fake: configmap_client fake_client ns nm "\<lambda>c. map_of (fk_objects c) (objectKey ns nm)" for ns nm
proof
  fix o' :: ConfigMap and w r w'
  let ?get = "\<lambda>c. map_of (fk_objects c) (objectKey ns nm)"
  assume n: "cm_Namespace o' = ns" "cm_Name o' = nm"
  {
    assume run: "client_Create fake_client o' w = (r, w')"
    obtain f c where t: "takeFault FakeCreate w = (f, c)" by (cases "takeFault FakeCreate w")
    then have c: "fk_objects c = fk_objects w" by (rule takeFault_objects)
    from run t n have "?get c \<noteq> None \<and> (r, w') = (Inl (sentinel_err ErrAlreadyExists), c)
        \<or> ?get c = None \<and> (\<exists>uid. commit f c o' uid = (r, w'))"
      by (simp add: fake_client_def Fake_Create_def split: if_splits) blast
    with c show "?get w' = ?get w \<and> (\<exists>e. r = Inl e)
      \<or> (\<exists>x. ?get w = None \<and> ?get w' = Some x \<and> stamped o' x \<and> (\<forall>y. r = Inr y \<longrightarrow> y = x))"
      using n by (auto dest!: commit_cases)
  next
    assume run: "client_Update fake_client o' w = (r, w')"
    obtain f c where t: "takeFault FakeUpdate w = (f, c)" by (cases "takeFault FakeUpdate w")
    then have c: "fk_objects c = fk_objects w" by (rule takeFault_objects)
    from run t n have "(\<exists>e. (r, w') = (Inl e, c))
        \<or> (\<exists>current uid. ?get c = Some current \<and> cm_ResourceVersion current = cm_ResourceVersion o' \<and> commit f c o' uid = (r, w'))"
      by (simp add: fake_client_def Fake_Update_def split: if_splits option.splits) blast+
    with c show "?get w' = ?get w \<and> (\<exists>e. r = Inl e)
      \<or> (\<exists>x current. ?get w = Some current \<and> cm_ResourceVersion current = cm_ResourceVersion o'
          \<and> ?get w' = Some x \<and> stamped o' x \<and> (\<forall>y. r = Inr y \<longrightarrow> y = x))"
      using n by (auto dest!: commit_cases)
  }
next
  fix w r w'
  assume "client_Get fake_client ns nm w = (r, w')"
  then show "map_of (fk_objects w') (objectKey ns nm) = map_of (fk_objects w) (objectKey ns nm)
      \<and> (\<forall>x. r = Inr x \<longrightarrow> map_of (fk_objects w) (objectKey ns nm) = Some x)"
    by (auto simp: fake_client_def Fake_Get_def takeFault_objects split: prod.splits option.splits)
qed

section \<open>Writers of one allocation\<close>

text \<open>
  (C10) An update of a stored allocation is a compare-and-swap. Under any script of injected faults of
  the client, \<^verbatim>\<open>Update\<close> either leaves the object as it was and returns an error, or replaces it by an
  object that reads back as exactly the new record; it replaces it only over the resource version the
  caller read and only for a transition that \<^verbatim>\<open>ValidateAllocationUpdate\<close> permits, and a success returns
  what is stored.
\<close>

theorem store_update_cas:
  assumes "NewAllocationStore (Some fake_client) ns driverName installationID = Inr store"
    and "AllocationName (Allocation_LogicalID nxt) = Inr name" and "text_json (allocation_json nxt)"
    and "Store_Update store s nxt c = (r, c')"
  shows "map_of (fk_objects c') (objectKey ns name) = map_of (fk_objects c) (objectKey ns name) \<and> (\<exists>e. r = Inl e)
    \<or> (\<exists>before after s'. map_of (fk_objects c) (objectKey ns name) = Some before
        \<and> cm_ResourceVersion before = sa_ResourceVersion s
        \<and> ValidateAllocationUpdate (Some (sa_Record s)) (Some nxt) = None
        \<and> map_of (fk_objects c') (objectKey ns name) = Some after
        \<and> decodeObject store after = Inr s' \<and> sa_Record s' = nxt
        \<and> (r = Inr s' \<or> (\<exists>e. r = Inl e)))"
proof -
  have st: "ks_client store = fake_client" "ks_namespace store = ns"
    using assms(1) by (auto simp: NewAllocationStore_def)
  show ?thesis
    using fake.store_update [OF st assms(2-4)]
    by (cases r) (auto simp: fake.allocation_in_def split: option.splits sum.splits)
qed

text \<open>The versions that the in-memory client has handed out are those up to its revision.\<close>

definition versions_bounded :: "FakeConfigMapClient \<Rightarrow> bool" where
  "versions_bounded c \<longleftrightarrow> (\<forall>object \<in> set (map snd (fk_objects c)). \<exists>n \<le> unat (fk_revision c). cm_ResourceVersion object = format_uint n)"

lemma commit_version:
  assumes "commit fault c object uid = (Inr x, c')"
  shows "cm_ResourceVersion x = format_uint (unat (fk_revision c + 1))"
    and "fk_objects c' = AList.update (objectKey (cm_Namespace object) (cm_Name object)) x (fk_objects c)"
  using assms by (auto simp: commit_def Let_def split: option.splits)

lemma takeFault_revision: "takeFault operation c = (f, c') \<Longrightarrow> fk_revision c' = fk_revision c"
  by (auto simp: takeFault_def split: list.splits)

lemma fake_update_moves_version:
  assumes "Fake_Update object c = (Inr x, c')" and "versions_bounded c" and "unat (fk_revision c) + 1 < 2 ^ 64"
  shows "map_of (fk_objects c') (objectKey (cm_Namespace object) (cm_Name object)) = Some x"
    and "cm_ResourceVersion x \<noteq> cm_ResourceVersion object"
proof -
  obtain f c1 where t: "takeFault FakeUpdate c = (f, c1)" by (cases "takeFault FakeUpdate c")
  note same = takeFault_objects [OF t] takeFault_revision [OF t]
  obtain current where cur: "map_of (fk_objects c) (objectKey (cm_Namespace object) (cm_Name object)) = Some current"
    "cm_ResourceVersion object = cm_ResourceVersion current" and x: "commit f c1 object (cm_UID current) = (Inr x, c')"
    using assms(1) t same by (auto simp: Fake_Update_def split: option.splits if_splits)
  obtain n where n: "n \<le> unat (fk_revision c)" "cm_ResourceVersion current = format_uint n"
    using assms(2) map_of_SomeD [OF cur(1)] by (force simp: versions_bounded_def)
  have "unat (fk_revision c + 1) = unat (fk_revision c) + 1"
    using assms(3) unat_add_lem [of "fk_revision c" 1] by simp
  then have "cm_ResourceVersion x \<noteq> format_uint n"
    using commit_version(1) [OF x] n(1) same by (auto dest: format_uint_inj)
  then show "cm_ResourceVersion x \<noteq> cm_ResourceVersion object" using cur(2) n(2) by simp
  show "map_of (fk_objects c') (objectKey (cm_Namespace object) (cm_Name object)) = Some x"
    using commit_version(2) [OF x] by simp
qed

lemma store_update_run:
  assumes "Store_Update store s nxt c = (r, c')" and "ks_client store = fake_client"
  shows "c' = c \<and> (\<exists>e. r = Inl e)
    \<or> (\<exists>object q. objectForRecord store nxt (sa_ResourceVersion s) = Inr object \<and> Fake_Update object c = (q, c')
        \<and> (\<forall>e. q = Inl e \<longrightarrow> (\<exists>e'. r = Inl e')) \<and> (\<forall>x y. q = Inr x \<longrightarrow> r = Inr y \<longrightarrow> decodeObject store x = Inr y))"
  using assms
  by (auto simp: Store_Update_def guard_def fail_def andthen_def lift_def wrapped_def wrap_res_def fake_client_def
      split: option.splits sum.splits prod.splits)

text \<open>
  (C8) No update is lost. When two writers have read the same version of an allocation and the first
  one's update succeeds, the second one's update returns an error and changes nothing, whatever
  either of them writes and whatever faults are injected.
\<close>

theorem no_lost_update:
  assumes "NewAllocationStore (Some fake_client) ns driverName installationID = Inr store"
    and "versions_bounded c" and "unat (fk_revision c) + 1 < 2 ^ 64" and "Allocation_LogicalID first = Allocation_LogicalID second"
    and "Store_Update store s first c = (Inr x, c1)" and "Store_Update store s second c1 = (r, c2)"
  shows "(\<exists>e. r = Inl e) \<and> fk_objects c2 = fk_objects c1"
proof -
  have st: "ks_client store = fake_client" using assms(1) by (auto simp: NewAllocationStore_def)
  obtain object stored where a: "objectForRecord store first (sa_ResourceVersion s) = Inr object" "Fake_Update object c = (Inr stored, c1)"
    using store_update_run [OF assms(5) st] by (metis Inl_Inr_False obj_sumE)
  note moved = fake_update_moves_version [OF a(2) assms(2,3)]
  from store_update_run [OF assms(6) st] show ?thesis
  proof (elim disjE exE conjE)
    fix object2 q
    assume b: "objectForRecord store second (sa_ResourceVersion s) = Inr object2" "Fake_Update object2 c1 = (q, c2)"
      "\<forall>e. q = Inl e \<longrightarrow> (\<exists>e'. r = Inl e')"
    have key: "objectKey (cm_Namespace object2) (cm_Name object2) = objectKey (cm_Namespace object) (cm_Name object)"
      "cm_ResourceVersion object2 = cm_ResourceVersion object"
      using object_for_record_name [OF a(1)] object_for_record_name [OF b(1)] assms(4) by auto
    obtain f c' where t: "takeFault FakeUpdate c1 = (f, c')" by (cases "takeFault FakeUpdate c1")
    have "\<exists>e. (q, c2) = (Inl e, c')"
      using b(2) t moved takeFault_objects [OF t] by (auto simp: Fake_Update_def key split: if_splits)
    then show ?thesis using b(3) takeFault_objects [OF t] by auto
  qed auto
qed


text \<open>A sample store, and the client after its first create.\<close>

definition sample_store :: "FakeConfigMapClient KubernetesAllocationStore" where
  "sample_store = \<lparr>ks_client = fake_client, ks_namespace = ''csi'', ks_driverName = sample_driver, ks_installationID = sample_uuid\<rparr>"

lemma sample_store_ok: "NewAllocationStore (Some fake_client) ''csi'' sample_driver sample_uuid = Inr sample_store"
  using sample_driver_ok sample_uuid_ok by (simp add: NewAllocationStore_def ValidateInstallationID_def sample_store_def)

lemma sample_object:
  assumes "r \<in> {sample_allocation, sample_deleting}"
  obtains obj where "objectForRecord sample_store (DetailedA r) rv = Inr obj"
proof -
  have "Detailed_Validate r = None" "a_DriverName r = sample_driver" "a_InstallationID r = sample_uuid" "a_LogicalVolumeID r = sample_volume"
    using assms sample_allocation_ok sample_deleting_ok by (auto simp: sample_deleting_def sample_allocation_def)
  moreover have "ValidateLogicalVolumeID sample_volume = None" by (rule logical_volume_id_valid [OF sample_volume_ok])
  ultimately show thesis
    using that
    by (simp add: objectForRecord_def recordLabels_def AllocationName_def EncodeAllocationRecord_def in_scope_def sample_store_def Let_def)
qed

lemma store_update_applies:
  assumes "ks_client store = fake_client" and "objectForRecord store nxt (sa_ResourceVersion s) = Inr object"
    and "ValidateAllocationUpdate (Some (sa_Record s)) (Some nxt) = None" and "text_json (allocation_json nxt)"
    and "map_of (fk_objects c) (objectKey (cm_Namespace object) (cm_Name object)) = Some current"
    and "cm_ResourceVersion current = sa_ResourceVersion s" and "sa_ResourceVersion s \<noteq> []" and "fk_faults c = []"
  obtains x c' where "Store_Update store s nxt c = (Inr x, c')"
proof -
  have rv: "cm_ResourceVersion object = sa_ResourceVersion s" using object_for_record_name [OF assms(2)] by simp
  have nonempty: "format_uint n \<noteq> []" for n using format_uint_props by simp
  show thesis
    using that assms rv decode_object_for_record [OF assms(2,4) nonempty]
    by (simp add: Store_Update_def andthen_def lift_def wrapped_def wrap_res_def fake_client_def Fake_Update_def takeFault_def
        commit_def Let_def)
qed

definition sample_stored :: StoredAllocation where
  "sample_stored = \<lparr>sa_Record = DetailedA sample_allocation, sa_UID = ''u'', sa_ResourceVersion = format_uint 1\<rparr>"

definition sample_client :: "ConfigMap \<Rightarrow> FakeConfigMapClient" where
  "sample_client obj = \<lparr>fk_objects = [(objectKey (cm_Namespace obj) (cm_Name obj), obj)], fk_revision = 1, fk_faults = []\<rparr>"

lemma sample_deleting_update: "allocation_update (DetailedA sample_allocation) (DetailedA sample_deleting)"
  using sample_allocation_ok sample_deleting_ok
  by (simp add: allocation_update_iff sample_deleting_def validateDetailedImmutableEquality_def equal_create_parameters)
    (simp add: sample_allocation_def allowedAllocationStateTransition_def)

lemma sample_client_update:
  obtains obj x c1 where "Store_Update sample_store sample_stored (DetailedA sample_deleting) (sample_client obj) = (Inr x, c1)"
    "versions_bounded (sample_client obj)"
proof -
  obtain next_obj where next_obj: "objectForRecord sample_store (DetailedA sample_deleting) (format_uint 1) = Inr next_obj"
    using sample_object [of sample_deleting] by blast
  define obj where "obj = next_obj\<lparr>cm_ResourceVersion := format_uint 1\<rparr>"
  have "\<exists>x c1. Store_Update sample_store sample_stored (DetailedA sample_deleting) (sample_client obj) = (Inr x, c1)"
    by (rule store_update_applies [of sample_store "DetailedA sample_deleting" sample_stored next_obj "sample_client obj" obj])
      (use next_obj sample_deleting_update sample_deleting_allocation_text format_uint_props [of 1] in
        \<open>auto simp: sample_store_def sample_stored_def sample_client_def obj_def allocation_update_def\<close>)
  moreover have "versions_bounded (sample_client obj)" by (auto simp: versions_bounded_def sample_client_def obj_def)
  ultimately show thesis using that by blast
qed

theorem no_lost_update_witness:
  "\<exists>obj x c1 e c2. Store_Update sample_store sample_stored (DetailedA sample_deleting) (sample_client obj) = (Inr x, c1)
     \<and> Store_Update sample_store sample_stored (DetailedA sample_deleting) c1 = (Inl e, c2) \<and> fk_objects c2 = fk_objects c1"
proof -
  obtain obj x c1 where run: "Store_Update sample_store sample_stored (DetailedA sample_deleting) (sample_client obj) = (Inr x, c1)"
    and v: "versions_bounded (sample_client obj)" by (rule sample_client_update)
  obtain r c2 where again: "Store_Update sample_store sample_stored (DetailedA sample_deleting) c1 = (r, c2)" by fastforce
  have "unat (fk_revision (sample_client obj)) + 1 < 2 ^ 64" by (simp add: sample_client_def)
  from no_lost_update [OF sample_store_ok v this refl run again] run again show ?thesis by blast
qed

theorem store_update_cas_witness:
  "\<exists>obj name r c'. AllocationName sample_volume = Inr name
     \<and> Store_Update sample_store sample_stored (DetailedA sample_deleting) (sample_client obj) = (r, c')
     \<and> (map_of (fk_objects c') (objectKey ''csi'' name) = map_of (fk_objects (sample_client obj)) (objectKey ''csi'' name) \<and> (\<exists>e. r = Inl e)
       \<or> (\<exists>after s'. map_of (fk_objects c') (objectKey ''csi'' name) = Some after
          \<and> decodeObject sample_store after = Inr s' \<and> sa_Record s' = DetailedA sample_deleting))"
proof -
  obtain obj x c1 where run: "Store_Update sample_store sample_stored (DetailedA sample_deleting) (sample_client obj) = (Inr x, c1)"
    by (rule sample_client_update)
  have "AllocationName (Allocation_LogicalID (DetailedA sample_deleting)) = Inr (allocationNamePrefix @ sample_volume)"
    "AllocationName sample_volume = Inr (allocationNamePrefix @ sample_volume)"
    using logical_volume_id_valid [OF sample_volume_ok]
    by (simp_all add: AllocationName_def sample_deleting_def) (simp_all add: sample_allocation_def)
  then show ?thesis
    using store_update_cas [OF sample_store_ok _ sample_deleting_allocation_text run] run by blast
qed

end
