(* ===== verification/MetadataWriter.thy ===== *)
theory MetadataWriter
  imports Codec Transition Effects "HOL-Library.AList"
begin

text \<open>
  \<^verbatim>\<open>pkg/safety/path.go\<close>, \<^verbatim>\<open>durable.go\<close> and \<^verbatim>\<open>fake.go\<close>: confined relative paths, the crash-durable write
  sequence of ownership metadata over the filesystem boundary, and the in-memory filesystem that
  keeps live bytes, synced contents and durable directory entries apart. The locale \<open>durable_fs\<close>
  states what the writer needs of a filesystem, a failed operation being possibly applied.
\<close>

section \<open>Relative paths\<close>

definition path_dir :: "string \<Rightarrow> string" where
  "path_dir p = (let i = length p - length (takeWhile (\<lambda>c. c \<noteq> CHR ''/'') (rev p)) in path_clean (take i p))"

definition ValidateRelative :: "string \<Rightarrow> error option" where
  "ValidateRelative val = errs
     [ensure (\<not> (val = [] \<or> has_prefix val ''/'' \<or> CHR 0x00 \<in> set val)) ''relative path is empty, absolute, or contains NUL'',
      ensure (path_clean val = val) ''relative path is not normalized'',
      ensure (\<not> (val = ''..'' \<or> has_prefix val ''../'')) ''relative path escapes its root'',
      errs (map (\<lambda>component. ensure (\<not> (component = [] \<or> component = ''..'')) ''relative path contains an unsafe component'')
        (split_on CHR ''/'' val))]"

definition RelativeToParent :: "string \<Rightarrow> string res" where
  "RelativeToParent absolute =
     require (ensure (\<not> (absolute = [] \<or> \<not> has_prefix absolute ''/'' \<or> absolute = ''/'' \<or> path_clean absolute \<noteq> absolute))
         ''parent path must be absolute, normalized, and non-root'')
       (let relative = trim_prefix absolute ''/''
        in require (ValidateRelative relative) (Inr relative))"

fun join_loop :: "string \<Rightarrow> string list \<Rightarrow> string res" where
  "join_loop joined [] = Inr joined"
| "join_loop joined (component # components) =
     require (ensure (\<not> (component = [] \<or> CHR ''/'' \<in> set component \<or> component = ''.'' \<or> component = ''..''))
         ''path component is unsafe'')
       (join_loop (path_join [joined, component]) components)"

definition JoinRelative :: "string \<Rightarrow> string list \<Rightarrow> string res" where
  "JoinRelative base components =
     require (ValidateRelative base)
       (and_then (join_loop base components) (\<lambda>joined. require (ValidateRelative joined) (Inr joined)))"

section \<open>The filesystem boundary\<close>

definition ErrDurableAlreadyExists :: sentinel where "ErrDurableAlreadyExists = OtherSentinel ''durable destination already exists''"
definition ErrExpectedGenerationMismatch :: sentinel where
  "ErrExpectedGenerationMismatch = OtherSentinel ''durable metadata generation mismatch''"
definition ErrEntryNotFound :: sentinel where "ErrEntryNotFound = OtherSentinel ''durable metadata entry not found''"
definition ErrDirectoryNotEmpty :: sentinel where "ErrDirectoryNotEmpty = OtherSentinel ''logical directory is not empty''"
definition ErrInjectedCrash :: sentinel where "ErrInjectedCrash = OtherSentinel ''injected filesystem crash''"

record 'w DurableFS =
  fs_CreateExclusive :: "string \<Rightarrow> string \<Rightarrow> ('w, unit) act"
  fs_SyncFile :: "string \<Rightarrow> ('w, unit) act"
  fs_SyncDir :: "string \<Rightarrow> ('w, unit) act"
  fs_RenameNoReplace :: "string \<Rightarrow> string \<Rightarrow> ('w, unit) act"
  fs_ReplaceExpected :: "string \<Rightarrow> string \<Rightarrow> string \<Rightarrow> ('w, unit) act"
  fs_ReadFileNoFollow :: "string \<Rightarrow> ('w, string) act"
  fs_RemoveExact :: "string \<Rightarrow> ('w, unit) act"

text \<open>A removal whose \<^verbatim>\<open>ErrEntryNotFound\<close> counts as success.\<close>

definition absent_ok :: "('w, unit) act \<Rightarrow> ('w, unit) act" where
  "absent_ok m = andthen (attempt m) (\<lambda>r. case r of
      Inr u \<Rightarrow> ret ()
    | Inl e \<Rightarrow> if errors_is e ErrEntryNotFound then ret () else fail e)"

section \<open>The metadata writer\<close>

definition ownershipRelativePaths :: "string \<Rightarrow> string \<Rightarrow> (string \<times> string) res" where
  "ownershipRelativePaths basePath logicalVolumeID =
     and_then (OwnershipRecordPath basePath logicalVolumeID) (\<lambda>absolute.
     and_then (RelativeToParent absolute) (\<lambda>destination.
     Inr (destination, path_dir destination)))"

definition prepareTemporary :: "'w DurableFS \<Rightarrow> string \<Rightarrow> string \<Rightarrow> ('w, unit) act" where
  "prepareTemporary fs temporary encoded =
     andthen (attempt (fs_CreateExclusive fs temporary encoded)) (\<lambda>created.
     andthen
       (case created of
          Inr u \<Rightarrow> ret ()
        | Inl err \<Rightarrow>
            if \<not> errors_is err ErrDurableAlreadyExists then fail (wrap ''create exclusive temporary metadata'' err)
            else
              andthen (attempt (fs_ReadFileNoFollow fs temporary)) (\<lambda>existing.
                case existing of
                  Inl readErr \<Rightarrow> fail (join_errors (wrap ''resume existing temporary metadata'' err) (wrap ''read temporary metadata'' readErr))
                | Inr bytes \<Rightarrow>
                    if bytes \<noteq> encoded
                    then fail (Errorf ''existing temporary metadata differs from prepared generation'' [ErrExpectedGenerationMismatch])
                    else ret ())) (\<lambda>_.
     wrapped ''sync temporary metadata'' (fs_SyncFile fs temporary)))"

definition removeTemporary :: "'w DurableFS \<Rightarrow> string \<Rightarrow> string \<Rightarrow> ('w, unit) act" where
  "removeTemporary fs directory temporary =
     andthen (wrapped ''remove exact temporary metadata'' (absent_ok (fs_RemoveExact fs temporary))) (\<lambda>_.
     wrapped ''sync metadata directory after temporary removal'' (fs_SyncDir fs directory))"

definition verifyOwnership :: "'w DurableFS \<Rightarrow> string \<Rightarrow> string \<Rightarrow> ('w, unit) act" where
  "verifyOwnership fs destination expected =
     andthen (wrapped ''read back ownership record'' (fs_ReadFileNoFollow fs destination)) (\<lambda>readBack.
     guard (ensure (readBack = expected) ''read-back ownership bytes differ from installed generation'')
     (andthen (lift (wrap_res ''validate read-back ownership record'' (DecodeOwnershipRecord readBack))) (\<lambda>_. ret ())))"

definition install_rename :: "'w DurableFS \<Rightarrow> string \<Rightarrow> string \<Rightarrow> string \<Rightarrow> string \<Rightarrow> ('w, unit) act" where
  "install_rename fs directory temporary destination encoded =
     andthen (attempt (fs_RenameNoReplace fs temporary destination)) (\<lambda>renamed.
       case renamed of
         Inr u \<Rightarrow> wrapped ''sync metadata directory after install'' (fs_SyncDir fs directory)
       | Inl err \<Rightarrow>
           if \<not> errors_is err ErrDurableAlreadyExists then fail (wrap ''install metadata without replacement'' err)
           else
             andthen (attempt (fs_ReadFileNoFollow fs destination)) (\<lambda>existing.
               case existing of
                 Inl readErr \<Rightarrow> fail (join_errors (wrap ''install metadata without replacement'' err)
                     (wrap ''read existing metadata destination'' readErr))
               | Inr installed \<Rightarrow>
                   if installed \<noteq> encoded
                   then fail (Errorf ''existing metadata destination differs from prepared generation'' [ErrDurableAlreadyExists])
                   else wrapped ''clean resumed temporary metadata'' (removeTemporary fs directory temporary)))"

definition installNoReplaceInDir :: "'w DurableFS \<Rightarrow> string \<Rightarrow> string \<Rightarrow> string \<Rightarrow> string \<Rightarrow> ('w, unit) act" where
  "installNoReplaceInDir fs directory temporary destination encoded =
     guard (errs (map ValidateRelative [directory, temporary, destination]))
     (andthen (prepareTemporary fs temporary encoded) (\<lambda>_.
      andthen (wrapped ''sync metadata directory before install'' (fs_SyncDir fs directory)) (\<lambda>_.
      install_rename fs directory temporary destination encoded)))"

definition installNoReplace :: "'w DurableFS \<Rightarrow> string \<Rightarrow> string \<Rightarrow> string \<Rightarrow> ('w, unit) act" where
  "installNoReplace fs temporary destination encoded = installNoReplaceInDir fs ''.'' temporary destination encoded"

definition CreateOwnership :: "'w DurableFS \<Rightarrow> string \<Rightarrow> string \<Rightarrow> OwnershipRecord \<Rightarrow> ('w, unit) act" where
  "CreateOwnership fs basePath operationID record =
     guard (ValidateOperationID operationID)
     (andthen (lift (ownershipRelativePaths basePath (Ownership_LogicalID record))) (\<lambda>(destination, directory).
      andthen (lift (EncodeOwnershipRecord (Some record))) (\<lambda>encoded.
      let temporary = destination @ ''.'' @ operationID @ ''.tmp''
      in andthen (wrapped ''create ownership record'' (installNoReplaceInDir fs directory temporary destination encoded)) (\<lambda>_.
         verifyOwnership fs destination encoded))))"

definition replace_generation ::
  "'w DurableFS \<Rightarrow> string \<Rightarrow> string \<Rightarrow> string \<Rightarrow> string \<Rightarrow> string \<Rightarrow> ('w, unit) act" where
  "replace_generation fs directory temporary destination expectedBytes nextBytes =
     andthen (attempt (fs_ReplaceExpected fs temporary destination expectedBytes)) (\<lambda>replaced.
       case replaced of
         Inr u \<Rightarrow>
           andthen (wrapped ''sync ownership metadata directory'' (fs_SyncDir fs directory)) (\<lambda>_.
           verifyOwnership fs destination nextBytes)
       | Inl err \<Rightarrow>
           if \<not> errors_is err ErrExpectedGenerationMismatch then fail (wrap ''replace expected ownership generation'' err)
           else
             andthen (attempt (fs_ReadFileNoFollow fs destination)) (\<lambda>read.
               case read of
                 Inl readErr \<Rightarrow> fail (join_errors (wrap ''replace expected ownership generation'' err)
                     (wrap ''read replacement destination'' readErr))
               | Inr installed \<Rightarrow>
                   if installed \<noteq> nextBytes then fail (wrap ''replace expected ownership generation'' err)
                   else
                     andthen (wrapped ''clean resumed ownership temporary generation'' (removeTemporary fs directory temporary)) (\<lambda>_.
                     verifyOwnership fs destination nextBytes)))"

definition UpdateOwnership :: "'w DurableFS \<Rightarrow> string \<Rightarrow> string \<Rightarrow> OwnershipRecord \<Rightarrow> OwnershipRecord \<Rightarrow> ('w, unit) act" where
  "UpdateOwnership fs basePath operationID expected nxt =
     guard (errs [ValidateOperationID operationID,
       ensure (Ownership_LogicalID expected = Ownership_LogicalID nxt) ''ownership update changes logical volume ID'',
       ValidateOwnershipUpdate (Some expected) (Some nxt)])
     (andthen (lift (ownershipRelativePaths basePath (Ownership_LogicalID nxt))) (\<lambda>(destination, directory).
      andthen (lift (EncodeOwnershipRecord (Some expected))) (\<lambda>expectedBytes.
      andthen (lift (EncodeOwnershipRecord (Some nxt))) (\<lambda>nextBytes.
      let temporary = destination @ ''.'' @ operationID @ ''.tmp''
      in andthen (wrapped ''prepare ownership temporary generation'' (prepareTemporary fs temporary nextBytes)) (\<lambda>_.
         replace_generation fs directory temporary destination expectedBytes nextBytes)))))"

definition claim_temporary :: "string \<Rightarrow> string" where
  "claim_temporary attemptID = ''.sfs-subdir-csi-owner.'' @ attemptID @ ''.tmp''"

definition verifyParentOwner :: "'w DurableFS \<Rightarrow> string \<Rightarrow> string \<Rightarrow> ('w, unit) act" where
  "verifyParentOwner fs destination encoded =
     andthen (wrapped ''read back parent owner'' (fs_ReadFileNoFollow fs destination)) (\<lambda>readBack.
     guard (ensure (readBack = encoded) ''read-back parent owner bytes differ'')
     (andthen (lift (wrap_res ''validate read-back parent owner'' (DecodeParentOwnerRecord readBack))) (\<lambda>_. ret ())))"

definition InstallParentOwner :: "'w DurableFS \<Rightarrow> string \<Rightarrow> ParentOwnerRecord \<Rightarrow> ('w, unit) act" where
  "InstallParentOwner fs attemptID record =
     guard (errs [ValidateOperationID attemptID,
       ensure (p_BootstrapAttemptID record = attemptID) ''parent claim bootstrap attempt does not match journal attempt''])
     (andthen (lift (EncodeParentOwnerRecord record)) (\<lambda>encoded.
      let destination = trim_prefix ParentOwnerPath ''/''
      in andthen (wrapped ''install parent owner'' (installNoReplace fs (claim_temporary attemptID) destination encoded)) (\<lambda>_.
         verifyParentOwner fs destination encoded)))"

definition RemoveBootstrapTemporary :: "'w DurableFS \<Rightarrow> string \<Rightarrow> ('w, unit) act" where
  "RemoveBootstrapTemporary fs attemptID =
     guard (ValidateOperationID attemptID)
     (andthen (wrapped ''remove bootstrap temporary claim'' (absent_ok (fs_RemoveExact fs (claim_temporary attemptID)))) (\<lambda>_.
      wrapped ''sync parent root after bootstrap temporary removal'' (fs_SyncDir fs ''.'')))"

section \<open>The in-memory filesystem\<close>

record MemoryDurableFS =
  mem_live :: "string \<Rightarrow> string option"
  mem_syncedContent :: "string \<Rightarrow> string option"
  mem_durable :: "string \<Rightarrow> string option"
  mem_operationCount :: nat
  mem_crashAfter :: nat

definition NewMemoryDurableFS :: MemoryDurableFS where
  "NewMemoryDurableFS = \<lparr>mem_live = (\<lambda>_. None), mem_syncedContent = (\<lambda>_. None), mem_durable = (\<lambda>_. None),
     mem_operationCount = 0, mem_crashAfter = 0\<rparr>"

definition CrashAfter :: "nat \<Rightarrow> MemoryDurableFS \<Rightarrow> MemoryDurableFS" where
  "CrashAfter operation m = m\<lparr>mem_operationCount := 0, mem_crashAfter := operation\<rparr>"

definition Crash :: "MemoryDurableFS \<Rightarrow> MemoryDurableFS" where
  "Crash m = m\<lparr>mem_live := mem_durable m, mem_syncedContent := mem_durable m, mem_crashAfter := 0\<rparr>"

definition SeedDurable :: "string \<Rightarrow> string \<Rightarrow> (MemoryDurableFS, unit) act" where
  "SeedDurable relative data m =
     guard (ValidateRelative relative) (\<lambda>m. (Inr (), m\<lparr>mem_live := (mem_live m)(relative \<mapsto> data),
       mem_syncedContent := (mem_syncedContent m)(relative \<mapsto> data), mem_durable := (mem_durable m)(relative \<mapsto> data)\<rparr>)) m"

definition afterOperation :: "(MemoryDurableFS, unit) act" where
  "afterOperation m =
     (let count = mem_operationCount m + 1; m' = m\<lparr>mem_operationCount := count\<rparr>
      in if mem_crashAfter m > 0 \<and> count = mem_crashAfter m then (Inl (Errorf [] [ErrInjectedCrash]), m') else (Inr (), m'))"

definition Mem_CreateExclusive :: "string \<Rightarrow> string \<Rightarrow> (MemoryDurableFS, unit) act" where
  "Mem_CreateExclusive relative data m =
     guard (ValidateRelative relative)
       (guard (ensure_is (mem_live m relative = None) ErrDurableAlreadyExists [])
         (\<lambda>m. afterOperation (m\<lparr>mem_live := (mem_live m)(relative \<mapsto> data)\<rparr>))) m"

definition Mem_SyncFile :: "string \<Rightarrow> (MemoryDurableFS, unit) act" where
  "Mem_SyncFile relative m =
     guard (ensure (mem_live m relative \<noteq> None) ''sync missing file'')
       (\<lambda>m. afterOperation (m\<lparr>mem_syncedContent := (mem_syncedContent m)(relative := mem_live m relative)\<rparr>)) m"

text \<open>
  Directory synchronisation: a durable child entry that is gone from the live tree goes, and a live
  child whose content is synced becomes durable with that content.
\<close>

definition synced_entries :: "string \<Rightarrow> MemoryDurableFS \<Rightarrow> string \<Rightarrow> string option" where
  "synced_entries relative m name =
     (if path_dir name \<noteq> relative then mem_durable m name
      else if mem_live m name = None then None
      else case mem_syncedContent m name of None \<Rightarrow> mem_durable m name | Some data \<Rightarrow> Some data)"

definition Mem_SyncDir :: "string \<Rightarrow> (MemoryDurableFS, unit) act" where
  "Mem_SyncDir relative m =
     guard (ValidateRelative relative) (\<lambda>m. afterOperation (m\<lparr>mem_durable := synced_entries relative m\<rparr>)) m"

text \<open>A live entry moves with its synced content, if it has one.\<close>

definition move_entry :: "string \<Rightarrow> string \<Rightarrow> MemoryDurableFS \<Rightarrow> MemoryDurableFS" where
  "move_entry source destination m =
     m\<lparr>mem_live := ((mem_live m)(destination := mem_live m source))(source := None),
       mem_syncedContent := (case mem_syncedContent m source of
           None \<Rightarrow> mem_syncedContent m
         | Some data \<Rightarrow> ((mem_syncedContent m)(destination \<mapsto> data))(source := None))\<rparr>"

definition Mem_RenameNoReplace :: "string \<Rightarrow> string \<Rightarrow> (MemoryDurableFS, unit) act" where
  "Mem_RenameNoReplace source destination m =
     guard (ensure_is (mem_live m destination = None) ErrDurableAlreadyExists [])
       (guard (ensure (mem_live m source \<noteq> None) ''rename source does not exist'')
         (\<lambda>m. afterOperation (move_entry source destination m))) m"

definition Mem_ReplaceExpected :: "string \<Rightarrow> string \<Rightarrow> string \<Rightarrow> (MemoryDurableFS, unit) act" where
  "Mem_ReplaceExpected source destination expected m =
     guard (ensure_is (mem_live m destination = Some expected) ErrExpectedGenerationMismatch [])
       (guard (ensure (mem_live m source \<noteq> None) ''replace source does not exist'')
         (\<lambda>m. afterOperation (move_entry source destination m))) m"

definition Mem_ReadFileNoFollow :: "string \<Rightarrow> (MemoryDurableFS, string) act" where
  "Mem_ReadFileNoFollow relative m =
     (case mem_live m relative of None \<Rightarrow> (Inl (Errorf [] [ErrEntryNotFound]), m) | Some data \<Rightarrow> (Inr data, m))"

definition Mem_RemoveExact :: "string \<Rightarrow> (MemoryDurableFS, unit) act" where
  "Mem_RemoveExact relative m =
     guard (ensure_is (mem_live m relative \<noteq> None) ErrEntryNotFound [])
       (\<lambda>m. afterOperation (m\<lparr>mem_live := (mem_live m)(relative := None),
         mem_syncedContent := (mem_syncedContent m)(relative := None)\<rparr>)) m"

definition memory_fs :: "MemoryDurableFS DurableFS" where
  "memory_fs = \<lparr>fs_CreateExclusive = Mem_CreateExclusive, fs_SyncFile = Mem_SyncFile, fs_SyncDir = Mem_SyncDir,
     fs_RenameNoReplace = Mem_RenameNoReplace, fs_ReplaceExpected = Mem_ReplaceExpected,
     fs_ReadFileNoFollow = Mem_ReadFileNoFollow, fs_RemoveExact = Mem_RemoveExact\<rparr>"

section \<open>The replacement protocol\<close>

lemma triple_absent_ok:
  assumes "triple P m (\<lambda>e w. E e w \<and> Q () w) (\<lambda>_. Q ())"
  shows "triple P (absent_ok m) E Q"
  unfolding absent_ok_def
  by (rule triple_andthen [OF triple_attempt [where Q = "case_sum (\<lambda>e w. E e w \<and> Q () w) (\<lambda>_. Q ())"]])
    (use assms in \<open>auto intro!: triple_rules split: sum.split\<close>)

text \<open>
  The control flow of \<^verbatim>\<open>UpdateOwnership\<close>, proved once over assertions on the filesystem: \<open>I\<close> always, \<open>W\<close>
  once the temporary file holds the new bytes, \<open>S\<close> once it is synced, \<open>N\<close> once the destination holds
  them, \<open>D\<close> once the directory is synced too.
\<close>

locale generation_protocol =
  fixes fs :: "'w DurableFS" and tmp dest dir old new :: string and I W S N D :: "'w \<Rightarrow> bool"
  assumes create: "triple I (fs_CreateExclusive fs tmp new) (\<lambda>_. I) (\<lambda>_. W)"
    and resume: "triple I (fs_ReadFileNoFollow fs tmp) (\<lambda>_. I) (\<lambda>x w. I w \<and> (x = new \<longrightarrow> W w))"
    and settle: "triple W (fs_SyncFile fs tmp) (\<lambda>_. I) (\<lambda>_. S)"
    and swap: "triple S (fs_ReplaceExpected fs tmp dest old) (\<lambda>_. I) (\<lambda>_. N)"
    and look: "triple I (fs_ReadFileNoFollow fs dest) (\<lambda>_. I) (\<lambda>x w. I w \<and> (x = new \<longrightarrow> N w))"
    and clean: "triple N (absent_ok (fs_RemoveExact fs tmp)) (\<lambda>_. I) (\<lambda>_. N)"
    and barrier: "triple N (fs_SyncDir fs dir) (\<lambda>_. I) (\<lambda>_. D)"
    and verify: "triple D (fs_ReadFileNoFollow fs dest) (\<lambda>_. I) (\<lambda>_. D)"
    and keep: "S w \<Longrightarrow> I w" "D w \<Longrightarrow> I w"
begin

lemma verify_triple: "triple D (verifyOwnership fs dest new) (\<lambda>_. I) (\<lambda>_. D)"
  unfolding verifyOwnership_def
  by (rule triple_andthen [OF triple_wrapped [OF verify]]) (auto intro!: triple_rules keep)

lemma prepare_triple: "triple I (prepareTemporary fs tmp new) (\<lambda>_. I) (\<lambda>_. S)"
  unfolding prepareTemporary_def
proof (rule triple_andthen [OF triple_attempt [where Q = "case_sum (\<lambda>_. I) (\<lambda>_. W)"]])
  fix created :: "unit res"
  have again: "triple I (andthen (attempt (fs_ReadFileNoFollow fs tmp)) (\<lambda>existing. case existing of
      Inl readErr \<Rightarrow> fail (f readErr) | Inr bytes \<Rightarrow> if bytes \<noteq> new then fail e else ret ())) (\<lambda>_. I) (\<lambda>_. W)" for f e
    by (rule triple_andthen [OF triple_attempt [where Q = "case_sum (\<lambda>_. I) (\<lambda>x w. I w \<and> (x = new \<longrightarrow> W w))"]])
      (use resume in \<open>auto intro!: triple_rules split: sum.split\<close>)
  show "triple (case_sum (\<lambda>_. I) (\<lambda>_. W) created) (andthen (case created of
        Inr u \<Rightarrow> ret ()
      | Inl err \<Rightarrow>
          if \<not> errors_is err ErrDurableAlreadyExists then fail (wrap ''create exclusive temporary metadata'' err)
          else andthen (attempt (fs_ReadFileNoFollow fs tmp)) (\<lambda>existing. case existing of
              Inl readErr \<Rightarrow> fail (join_errors (wrap ''resume existing temporary metadata'' err) (wrap ''read temporary metadata'' readErr))
            | Inr bytes \<Rightarrow>
                if bytes \<noteq> new
                then fail (Errorf ''existing temporary metadata differs from prepared generation'' [ErrExpectedGenerationMismatch])
                else ret ())) (\<lambda>_. wrapped ''sync temporary metadata'' (fs_SyncFile fs tmp))) (\<lambda>_. I) (\<lambda>_. S)"
    by (rule triple_andthen [where R = "\<lambda>_. W", OF _ triple_wrapped [OF settle]], cases created)
      (use again in \<open>auto intro!: triple_rules\<close>)
qed (simp add: create)

lemma replace_triple: "triple S (replace_generation fs dir tmp dest old new) (\<lambda>_. I) (\<lambda>_. D)"
  unfolding replace_generation_def
proof (rule triple_andthen [OF triple_attempt [where Q = "case_sum (\<lambda>_. I) (\<lambda>_. N)"]])
  fix replaced :: "unit res"
  have synced: "triple N (andthen (wrapped m (fs_SyncDir fs dir)) (\<lambda>_. verifyOwnership fs dest new)) (\<lambda>_. I) (\<lambda>_. D)" for m
    by (rule triple_andthen [OF triple_wrapped [OF barrier] verify_triple])
  have again: "triple N (andthen (wrapped m (removeTemporary fs dir tmp)) (\<lambda>_. verifyOwnership fs dest new)) (\<lambda>_. I) (\<lambda>_. D)" for m
    unfolding removeTemporary_def
    by (rule triple_andthen [OF triple_wrapped [OF triple_andthen [OF triple_wrapped [OF clean] triple_wrapped [OF barrier]]] verify_triple])
  have mismatch: "triple I (andthen (attempt (fs_ReadFileNoFollow fs dest)) (\<lambda>read. case read of
      Inl readErr \<Rightarrow> fail (f readErr)
    | Inr installed \<Rightarrow> if installed \<noteq> new then fail e
        else andthen (wrapped m (removeTemporary fs dir tmp)) (\<lambda>_. verifyOwnership fs dest new))) (\<lambda>_. I) (\<lambda>_. D)" for f e m
    by (rule triple_andthen [OF triple_attempt [where Q = "case_sum (\<lambda>_. I) (\<lambda>x w. I w \<and> (x = new \<longrightarrow> N w))"]])
      (use look in \<open>auto intro!: triple_rules intro: triple_pre [OF again] split: sum.split\<close>)
  show "triple (case_sum (\<lambda>_. I) (\<lambda>_. N) replaced) (case replaced of
      Inr u \<Rightarrow> andthen (wrapped ''sync ownership metadata directory'' (fs_SyncDir fs dir)) (\<lambda>_. verifyOwnership fs dest new)
    | Inl err \<Rightarrow>
        if \<not> errors_is err ErrExpectedGenerationMismatch then fail (wrap ''replace expected ownership generation'' err)
        else andthen (attempt (fs_ReadFileNoFollow fs dest)) (\<lambda>read. case read of
            Inl readErr \<Rightarrow> fail (join_errors (wrap ''replace expected ownership generation'' err) (wrap ''read replacement destination'' readErr))
          | Inr installed \<Rightarrow>
              if installed \<noteq> new then fail (wrap ''replace expected ownership generation'' err)
              else andthen (wrapped ''clean resumed ownership temporary generation'' (removeTemporary fs dir tmp))
                (\<lambda>_. verifyOwnership fs dest new))) (\<lambda>_. I) (\<lambda>_. D)"
    using synced mismatch by (cases replaced) (auto intro!: triple_rules)
qed (simp add: swap)

lemma update_triple:
  assumes "EncodeOwnershipRecord (Some expected) = Inr old" and "EncodeOwnershipRecord (Some nxt) = Inr new"
    and "ownershipRelativePaths basePath (Ownership_LogicalID nxt) = Inr (dest, dir)"
    and "tmp = dest @ ''.'' @ operationID @ ''.tmp''"
  shows "triple I (UpdateOwnership fs basePath operationID expected nxt) (\<lambda>_. I) (\<lambda>_. D)"
  unfolding UpdateOwnership_def assms(1-3) andthen_lift_Inr prod.case Let_def assms(4) [symmetric]
  by (rule triple_guard, assumption, rule triple_andthen [OF triple_wrapped [OF prepare_triple] replace_triple])

end

section \<open>What the writer needs of a filesystem\<close>

locale durable_fs =
  fixes fs :: "'w DurableFS" and live :: "'w \<Rightarrow> string \<Rightarrow> string option"
  assumes create_exclusive: "fs_CreateExclusive fs p d w = (r, w') \<Longrightarrow>
      live w' = live w \<and> (\<exists>e. r = Inl e) \<or> live w p = None \<and> live w' = (live w)(p \<mapsto> d)"
    and sync_file: "fs_SyncFile fs p w = (r, w') \<Longrightarrow> live w' = live w"
    and sync_dir: "fs_SyncDir fs p w = (r, w') \<Longrightarrow> live w' = live w"
    and rename_no_replace: "fs_RenameNoReplace fs p q w = (r, w') \<Longrightarrow>
      live w' = live w \<and> (\<exists>e. r = Inl e)
      \<or> (\<exists>x. live w p = Some x \<and> live w q = None \<and> live w' = ((live w)(q \<mapsto> x))(p := None))"
    and replace_expected: "fs_ReplaceExpected fs p q d w = (r, w') \<Longrightarrow>
      live w' = live w \<and> (\<exists>e. r = Inl e)
      \<or> (\<exists>x. live w p = Some x \<and> live w q = Some d \<and> live w' = ((live w)(q \<mapsto> x))(p := None))"
    and read_file: "fs_ReadFileNoFollow fs p w = (c, w') \<Longrightarrow> live w' = live w \<and> (\<forall>x. c = Inr x \<longrightarrow> live w p = Some x)"
    and remove_exact: "fs_RemoveExact fs p w = (r, w') \<Longrightarrow>
      live w' = live w \<and> (\<exists>e. r = Inl e) \<or> live w' = (live w)(p := None)"
begin

text \<open>Either generation, and the new one only over the expected one.\<close>

abbreviation swapped :: "string \<Rightarrow> string option \<Rightarrow> string \<Rightarrow> string \<Rightarrow> 'w \<Rightarrow> bool" where
  "swapped dest c old new w \<equiv> live w dest = c \<or> c = Some old \<and> live w dest = Some new"

end

sublocale durable_fs \<subseteq> live_update: generation_protocol fs "dest @ ''.'' @ operation @ ''.tmp''" dest dir old new
  "swapped dest c old new" "\<lambda>w. swapped dest c old new w \<and> live w (dest @ ''.'' @ operation @ ''.tmp'') = Some new"
  "\<lambda>w. swapped dest c old new w \<and> live w (dest @ ''.'' @ operation @ ''.tmp'') = Some new"
  "\<lambda>w. swapped dest c old new w \<and> live w dest = Some new" "\<lambda>w. swapped dest c old new w \<and> live w dest = Some new"
  for dest operation dir old new c
proof unfold_locales
  show "triple (\<lambda>w. swapped dest c old new w \<and> live w dest = Some new)
      (absent_ok (fs_RemoveExact fs (dest @ ''.'' @ operation @ ''.tmp'')))
      (\<lambda>_. swapped dest c old new) (\<lambda>_ w. swapped dest c old new w \<and> live w dest = Some new)"
    by (intro triple_absent_ok tripleI) (auto dest!: remove_exact split: sum.splits)
qed (auto intro!: tripleI dest!: create_exclusive read_file sync_file sync_dir replace_expected split: sum.splits)

section \<open>The in-memory filesystem keeps the contract\<close>

lemma afterOperation_maps:
  "afterOperation m = (r, m') \<Longrightarrow>
   mem_live m' = mem_live m \<and> mem_syncedContent m' = mem_syncedContent m \<and> mem_durable m' = mem_durable m"
  by (auto simp: afterOperation_def Let_def split: if_splits)

lemma guard_run: "guard c f m = (r, m') \<longleftrightarrow> (case c of None \<Rightarrow> f m = (r, m') | Some e \<Rightarrow> r = Inl e \<and> m' = m)"
  by (auto simp: guard_def fail_def split: option.splits)

lemmas memory_defs = memory_fs_def Mem_CreateExclusive_def Mem_SyncFile_def Mem_SyncDir_def Mem_RenameNoReplace_def
  Mem_ReplaceExpected_def Mem_ReadFileNoFollow_def Mem_RemoveExact_def move_entry_def

interpretation memory: durable_fs memory_fs mem_live
  by unfold_locales
    (auto simp: memory_defs guard_run ensure_def ensure_is_def split: option.splits if_splits dest!: afterOperation_maps)

section \<open>Crash atomicity of an ownership update\<close>

text \<open>
  Nothing but the two generations is ever at the destination, live, synced or durable, the synced
  content follows the live entry, and the temporary file holds the new generation or does not exist.
\<close>

definition two_generations :: "string \<Rightarrow> string \<Rightarrow> string \<Rightarrow> string \<Rightarrow> MemoryDurableFS \<Rightarrow> bool" where
  "two_generations temporary destination old new m \<longleftrightarrow> mem_live m destination \<in> {Some old, Some new}
     \<and> mem_syncedContent m destination = mem_live m destination \<and> mem_durable m destination \<in> {Some old, Some new}
     \<and> {mem_live m temporary, mem_syncedContent m temporary, mem_durable m temporary} \<subseteq> {None, Some new}"

definition prepared :: "string \<Rightarrow> string \<Rightarrow> MemoryDurableFS \<Rightarrow> bool" where
  "prepared temporary new m \<longleftrightarrow> mem_live m temporary = Some new \<and> mem_syncedContent m temporary = Some new"

lemma memory_create:
  assumes "p \<noteq> q"
  shows "triple (two_generations p q old new) (fs_CreateExclusive memory_fs p new) (\<lambda>_. two_generations p q old new)
    (\<lambda>_ m. two_generations p q old new m \<and> mem_live m p = Some new)"
  using assms by (intro tripleI) (auto simp: memory_defs guard_run two_generations_def split: option.splits sum.splits dest!: afterOperation_maps)

lemma memory_sync_file:
  assumes "p \<noteq> q"
  shows "triple (\<lambda>m. two_generations p q old new m \<and> mem_live m p = Some new) (fs_SyncFile memory_fs p)
    (\<lambda>_. two_generations p q old new) (\<lambda>_ m. two_generations p q old new m \<and> prepared p new m)"
  using assms by (intro tripleI)
    (auto simp: memory_defs guard_run two_generations_def prepared_def split: option.splits sum.splits dest!: afterOperation_maps)

lemma memory_read:
  "triple A (fs_ReadFileNoFollow memory_fs p) (\<lambda>_. A) (\<lambda>x m. A m \<and> mem_live m p = Some x)"
  by (intro tripleI) (auto simp: memory_defs split: option.splits sum.splits)

lemma memory_sync_dir:
  "triple (\<lambda>m. two_generations p q old new m \<and> mem_live m q = Some new) (fs_SyncDir memory_fs (path_dir q))
    (\<lambda>_. two_generations p q old new) (\<lambda>_ m. two_generations p q old new m \<and> mem_durable m q = Some new)"
  by (intro tripleI)
    (auto simp: memory_defs guard_run two_generations_def synced_entries_def split: option.splits sum.splits if_splits dest!: afterOperation_maps)

lemma memory_replace:
  assumes "p \<noteq> q"
  shows "triple (\<lambda>m. two_generations p q old new m \<and> prepared p new m) (fs_ReplaceExpected memory_fs p q old)
    (\<lambda>_. two_generations p q old new) (\<lambda>_ m. two_generations p q old new m \<and> mem_live m q = Some new)"
  using assms by (intro tripleI)
    (auto simp: memory_defs guard_run two_generations_def prepared_def split: option.splits sum.splits dest!: afterOperation_maps)

lemma memory_remove:
  assumes "p \<noteq> q"
  shows "triple (\<lambda>m. two_generations p q old new m \<and> mem_live m q = c) (absent_ok (fs_RemoveExact memory_fs p))
    (\<lambda>_. two_generations p q old new) (\<lambda>_ m. two_generations p q old new m \<and> mem_live m q = c)"
  using assms by (intro triple_absent_ok tripleI)
    (auto simp: memory_defs guard_run two_generations_def split: option.splits sum.splits dest!: afterOperation_maps)

interpretation crash: generation_protocol memory_fs "dest @ ''.'' @ operation @ ''.tmp''" dest "path_dir dest" old new
  "two_generations (dest @ ''.'' @ operation @ ''.tmp'') dest old new"
  "\<lambda>m. two_generations (dest @ ''.'' @ operation @ ''.tmp'') dest old new m \<and> mem_live m (dest @ ''.'' @ operation @ ''.tmp'') = Some new"
  "\<lambda>m. two_generations (dest @ ''.'' @ operation @ ''.tmp'') dest old new m \<and> prepared (dest @ ''.'' @ operation @ ''.tmp'') new m"
  "\<lambda>m. two_generations (dest @ ''.'' @ operation @ ''.tmp'') dest old new m \<and> mem_live m dest = Some new"
  "\<lambda>m. two_generations (dest @ ''.'' @ operation @ ''.tmp'') dest old new m \<and> mem_durable m dest = Some new"
  for dest operation old new
proof unfold_locales
  show "triple (\<lambda>m. two_generations (dest @ ''.'' @ operation @ ''.tmp'') dest old new m \<and> mem_live m dest = Some new)
     (fs_SyncDir memory_fs (path_dir dest)) (\<lambda>_. two_generations (dest @ ''.'' @ operation @ ''.tmp'') dest old new)
     (\<lambda>_ m. two_generations (dest @ ''.'' @ operation @ ''.tmp'') dest old new m \<and> mem_durable m dest = Some new)"
    by (rule memory_sync_dir)
qed (auto intro: memory_create memory_sync_file memory_replace memory_remove triple_post [OF memory_read])

section \<open>Relative paths made of plain components\<close>

definition rel_path :: "string list \<Rightarrow> string" where
  "rel_path ws = join_with ''/'' ws"

lemma plain_bar:
  assumes "\<forall>w \<in> set ws. plain_component w" and "ws \<noteq> []"
  shows "split_on CHR ''/'' (rel_path ws) = ws" and "rel_path ws \<noteq> []" and "\<not> has_prefix (rel_path ws) ''/''"
proof -
  show "split_on CHR ''/'' (rel_path ws) = ws"
    unfolding rel_path_def by (rule split_on_join) (use assms in \<open>auto simp: plain_component_def\<close>)
  obtain c r vs where "ws = (c # r) # vs" "c \<noteq> CHR ''/''"
    using assms by (cases ws; cases "hd ws") (auto simp: plain_component_def)
  then show "rel_path ws \<noteq> []" "\<not> has_prefix (rel_path ws) ''/''"
    by (cases vs; simp add: rel_path_def join_with_def)+
qed

lemma path_clean_rel_path:
  assumes "\<forall>w \<in> set ws. plain_component w" and "ws \<noteq> []"
  shows "path_clean (rel_path ws) = rel_path ws"
  using plain_bar [OF assms] clean_components_plain [OF assms(1)] assms(2)
  by (simp add: path_clean_def Let_def) (simp add: rel_path_def)

lemma ValidateRelative_rel_path:
  assumes "\<forall>w \<in> set ws. plain_component w" and "ws \<noteq> []" and "CHR 0x00 \<notin> set (rel_path ws)"
  shows "ValidateRelative (rel_path ws) = None"
proof -
  note bar = plain_bar [OF assms(1,2)]
  have up: "rel_path ws \<noteq> ''..'' @ r" if "r = [] \<or> (\<exists>t. r = CHR ''/'' # t)" for r
  proof
    assume "rel_path ws = ''..'' @ r"
    then have "ws = split_on CHR ''/'' (''..'' @ r)" using bar(1) by simp
    then have "''..'' \<in> set ws"
      using that split_on_append [of "CHR ''/''" "''..''"] by (auto simp: split_on_no_sep simp del: append_Cons append_Nil)
    then show False using assms(1) by (auto simp: plain_component_def)
  qed
  have "rel_path ws \<noteq> ''..''" "\<not> has_prefix (rel_path ws) ''../''"
    using up [of "[]"] up [of "CHR ''/'' # _"] by (auto simp: has_prefix_iff)
  then show ?thesis
    using bar assms path_clean_rel_path [OF assms(1,2)]
    by (auto simp: ValidateRelative_def plain_component_def)
qed

lemma path_dir_rel_path:
  assumes "\<forall>w \<in> set (vs @ [w]). plain_component w" and "vs \<noteq> []"
  shows "path_dir (rel_path (vs @ [w])) = rel_path vs"
proof -
  have eq: "rel_path (vs @ [w]) = rel_path vs @ ''/'' @ w"
    using assms(2) by (simp add: rel_path_def join_with_append) (simp add: join_with_def)
  have w: "CHR ''/'' \<notin> set w" using assms(1) by (simp add: plain_component_def)
  then have "takeWhile (\<lambda>c. c \<noteq> CHR ''/'') (rev (rel_path (vs @ [w]))) = rev w"
    unfolding eq by (auto simp: takeWhile_append)
  then have "path_dir (rel_path (vs @ [w])) = path_clean (rel_path vs @ ''/'')"
    by (simp add: path_dir_def Let_def eq)
  moreover have "path_clean (rel_path vs @ ''/'') = rel_path vs"
  proof -
    have "split_on CHR ''/'' (join_with ''/'' (vs @ [[]])) = vs @ [[]]"
      by (rule split_on_join) (use assms(1) in \<open>auto simp: plain_component_def\<close>)
    moreover have "join_with ''/'' (vs @ [[]]) = rel_path vs @ ''/''"
      using assms(2) by (cases vs) (simp_all add: rel_path_def join_with_def)
    ultimately have "split_on CHR ''/'' (rel_path vs @ ''/'') = vs @ [[]]" by simp
    moreover have "\<forall>w \<in> set vs. plain_component w" using assms(1) by simp
    moreover note plain_bar [OF this assms(2)]
    moreover have "\<not> has_prefix (rel_path vs @ ''/'') ''/''"
      using plain_bar(2,3) [OF \<open>\<forall>w \<in> set vs. plain_component w\<close> assms(2)] by (cases "rel_path vs") (auto simp: has_prefix_def)
    ultimately show ?thesis
      using clean_plain [of vs False "[]"] assms(2) by (simp add: path_clean_def Let_def clean_components_def) (simp add: rel_path_def)
  qed
  ultimately show ?thesis by simp
qed


text \<open>The paths of an ownership record: below the base path, normalised, and so is the temporary name.\<close>

lemma ident_chars_plain: "list_all ident_char s \<Longrightarrow> CHR ''/'' \<notin> set s \<and> CHR 0x00 \<notin> set s"
  by (auto simp: list_all_iff ident_char_def char_class_defs)

lemma operation_id_plain:
  "ValidateOperationID operation = None \<Longrightarrow> CHR ''/'' \<notin> set operation \<and> CHR 0x00 \<notin> set operation"
  using ident_chars_plain [OF uuid_chars] by (simp add: ValidateOperationID_def)

lemma volume_id_plain:
  assumes "ValidateLogicalVolumeID vid = None"
  shows "CHR ''/'' \<notin> set vid \<and> CHR 0x00 \<notin> set vid \<and> 2 < length vid"
proof -
  have h: "hash_pattern ''lv-'' vid" using assms by (simp add: ValidateLogicalVolumeID_def)
  have "list_all ident_char ''lv-''" by (simp add: ident_char_def char_class_defs)
  from ident_chars_plain [OF hash_pattern_chars [OF h this]] h show ?thesis by (auto simp: hash_pattern_iff)
qed

lemma ownership_paths:
  assumes base: "ValidateBasePath basePath = None" and vid: "ValidateLogicalVolumeID vid = None"
  obtains dest dir where "ownershipRelativePaths basePath vid = Inr (dest, dir)" "dir = path_dir dest"
    "ValidateRelative dir = None" "ValidateRelative dest = None"
    "\<And>operation. ValidateOperationID operation = None \<Longrightarrow> ValidateRelative (dest @ ''.'' @ operation @ ''.tmp'') = None"
proof -
  obtain vs where vs: "basePath = abs_path vs" "vs \<noteq> []" "\<forall>w \<in> set vs. plain_component w"
    using valid_base_path [OF base] by metis
  define ms where "ms = [''.sfs-subdir-csi'', ''volumes'']"
  have ms: "\<forall>w \<in> set (ms @ [vid @ s]). plain_component w" if "CHR ''/'' \<notin> set s" for s
  proof -
    have "2 < length (vid @ s)" using volume_id_plain [OF vid] by simp
    then have "vid @ s \<noteq> ''.''" "vid @ s \<noteq> ''..''" by fastforce+
    then show ?thesis using volume_id_plain [OF vid] that by (auto simp: ms_def plain_component_def)
  qed
  have all: "\<forall>w \<in> set (vs @ ms @ [vid @ s]). plain_component w" if "CHR ''/'' \<notin> set s" for s
    using vs(3) ms [OF that] by auto
  define dest where "dest s = rel_path (vs @ ms @ [vid @ s])" for s
  have app: "dest (''.json'' @ s) = dest ''.json'' @ s" for s
    by (cases vs) (simp_all add: dest_def rel_path_def ms_def join_with_def)
  have abs: "abs_path (vs @ ms @ [vid @ s]) = CHR ''/'' # dest s" for s by (simp add: abs_path_def dest_def rel_path_def)
  have nul: "CHR 0x00 \<notin> set (rel_path vs)" 
    using base vs(1) by (simp add: ValidateBasePath_def Let_def abs_path_def rel_path_def)
  have nul': "CHR 0x00 \<notin> set (dest s)" "CHR 0x00 \<notin> set (rel_path (vs @ ms))" if "CHR 0x00 \<notin> set s" for s
    using nul that volume_id_plain [OF vid] vs(2)
    by (simp_all add: dest_def rel_path_def ms_def join_with_append) (simp_all add: join_with_def)
  have ok: "ValidateRelative (dest s) = None" if "CHR ''/'' \<notin> set s" "CHR 0x00 \<notin> set s" for s
    unfolding dest_def by (rule ValidateRelative_rel_path) (use all that nul' in \<open>auto simp: dest_def\<close>)
  have dir: "path_dir (dest ''.json'') = rel_path (vs @ ms)"
    using path_dir_rel_path [of "vs @ ms" "vid @ ''.json''"] all [of "''.json''"] vs(2) by (simp add: dest_def)
  have "OwnershipRecordPath basePath vid = Inr (path_join (basePath # ms @ [vid @ ''.json'']))"
    using base vid vs(1)
    by (simp add: OwnershipRecordPath_def path_join_def OwnershipMetadataDirectory_def ms_def join_with_def abs_path_def)
  also have "path_join (basePath # ms @ [vid @ ''.json'']) = CHR ''/'' # dest ''.json''"
    using path_join_below(1) [OF base _ ms [of "''.json''"]] abs_path_snoc [OF vs(2), of "ms @ [vid @ ''.json'']"] abs vs(1)
    by simp
  finally have path: "OwnershipRecordPath basePath vid = Inr (CHR ''/'' # dest ''.json'')" .
  have clean: "path_clean (CHR ''/'' # dest ''.json'') = CHR ''/'' # dest ''.json''"
    using path_clean_abs_path [OF all [of "''.json''"]] by (simp add: abs)
  show thesis
  proof (rule that)
    have "dest ''.json'' \<noteq> []" using plain_bar(2) [OF all [of "''.json''"]] by (simp add: dest_def)
    then show "ownershipRelativePaths basePath vid = Inr (dest ''.json'', path_dir (dest ''.json''))"
      using ok [of "''.json''"] clean
      by (simp add: ownershipRelativePaths_def path RelativeToParent_def trim_prefix_def has_prefix_def)
    show "ValidateRelative (path_dir (dest ''.json'')) = None"
      unfolding dir by (rule ValidateRelative_rel_path) (use all [of "[]"] vs(2) nul' [of "[]"] in auto)
    show "ValidateRelative (dest ''.json'') = None" by (rule ok) simp_all
    show "ValidateRelative (dest ''.json'' @ ''.'' @ operation @ ''.tmp'') = None" if "ValidateOperationID operation = None" for operation
      unfolding app [symmetric] by (rule ok) (use operation_id_plain [OF that] in auto)
  qed simp
qed


section \<open>Crash atomicity and resumption\<close>

lemma ownership_paths_inv:
  assumes "ownershipRelativePaths basePath vid = Inr (dest, dir)"
  shows "ValidateBasePath basePath = None" "ValidateLogicalVolumeID vid = None" "dir = path_dir dest" "ValidateRelative dest = None"
  using assms by (auto simp: ownershipRelativePaths_def OwnershipRecordPath_def RelativeToParent_def Let_def)

text \<open>Without a crash every step of the protocol succeeds from any state a crash can leave.\<close>

lemmas memory_run_defs = andthen_def guard_def wrapped_def wrap_res_def attempt_def memory_defs ensure_is_def ensure_def
  fail_def ret_def afterOperation_def errors_is_def

lemma memory_prepare_completes:
  assumes "p \<noteq> q" and "ValidateRelative p = None" and "two_generations p q old new m" and "mem_crashAfter m = 0"
  obtains m1 where "prepareTemporary memory_fs p new m = (Inr (), m1)" "mem_live m1 p = Some new"
    "mem_live m1 q = mem_live m q" "mem_crashAfter m1 = 0"
  using assms by (cases "mem_live m p") (simp_all add: two_generations_def prepareTemporary_def memory_run_defs)

lemma memory_verify_completes:
  assumes "mem_live m q = Some new" and "DecodeOwnershipRecord new = Inr nxt"
  shows "verifyOwnership memory_fs q new m = (Inr (), m)"
  using assms by (simp add: verifyOwnership_def memory_run_defs lift_def)

lemma memory_sync_completes:
  assumes "ValidateRelative dir = None" and "mem_crashAfter m = 0"
  obtains m1 where "fs_SyncDir memory_fs dir m = (Inr (), m1)" "mem_live m1 = mem_live m" "mem_crashAfter m1 = 0"
  using assms by (simp add: memory_run_defs)

lemma memory_replace_completes:
  assumes "p \<noteq> q" and "ValidateRelative dir = None" and "DecodeOwnershipRecord new = Inr nxt"
    and "mem_live m p = Some new" and q: "mem_live m q \<in> {Some old, Some new}" and "mem_crashAfter m = 0"
  shows "\<exists>m'. replace_generation memory_fs dir p q old new m = (Inr (), m')"
proof (cases "mem_live m q = Some old")
  case True
  obtain m1 where m1: "fs_ReplaceExpected memory_fs p q old m = (Inr (), m1)" "mem_live m1 q = Some new" "mem_crashAfter m1 = 0"
    using assms True by (simp add: memory_run_defs)
  obtain m2 where m2: "fs_SyncDir memory_fs dir m1 = (Inr (), m2)" "mem_live m2 = mem_live m1"
    using memory_sync_completes [OF assms(2) m1(3)] .
  have "verifyOwnership memory_fs q new m2 = (Inr (), m2)" by (rule memory_verify_completes) (use m1 m2 assms in simp_all)
  then show ?thesis by (simp add: replace_generation_def andthen_def attempt_def wrapped_def wrap_res_def m1 m2)
next
  case False
  then have new: "mem_live m q = Some new" "old \<noteq> new" using q by auto
  obtain e where e: "fs_ReplaceExpected memory_fs p q old m = (Inl e, m)" "errors_is e ErrExpectedGenerationMismatch"
    using new by (simp add: memory_run_defs)
  have r: "fs_ReadFileNoFollow memory_fs q m = (Inr new, m)" using new by (simp add: memory_run_defs)
  obtain m1 where m1: "absent_ok (fs_RemoveExact memory_fs p) m = (Inr (), m1)" "mem_live m1 q = Some new" "mem_crashAfter m1 = 0"
    using assms new by (simp add: absent_ok_def memory_run_defs)
  obtain m2 where m2: "fs_SyncDir memory_fs dir m1 = (Inr (), m2)" "mem_live m2 = mem_live m1"
    using memory_sync_completes [OF assms(2) m1(3)] .
  have "verifyOwnership memory_fs q new m2 = (Inr (), m2)" by (rule memory_verify_completes) (use m1 m2 assms in simp_all)
  then show ?thesis
    by (simp add: replace_generation_def removeTemporary_def andthen_def attempt_def wrapped_def wrap_res_def e r m1 m2)
qed

lemma memory_update_completes:
  assumes paths: "ownershipRelativePaths basePath (Ownership_LogicalID nxt) = Inr (dest, dir)"
    and guards: "ValidateOperationID operation = None" "Ownership_LogicalID expected = Ownership_LogicalID nxt"
      "ValidateOwnershipUpdate (Some expected) (Some nxt) = None"
    and enc: "EncodeOwnershipRecord (Some expected) = Inr old" "EncodeOwnershipRecord (Some nxt) = Inr new"
    and tx: "text_json (ownership_json nxt)"
    and m: "two_generations (dest @ ''.'' @ operation @ ''.tmp'') dest old new m" "mem_crashAfter m = 0"
  shows "\<exists>m'. UpdateOwnership memory_fs basePath operation expected nxt m = (Inr (), m')"
proof -
  let ?tmp = "dest @ ''.'' @ operation @ ''.tmp''"
  have ok: "ValidateRelative ?tmp = None" "ValidateRelative dir = None"
    by (rule ownership_paths [OF ownership_paths_inv(1,2) [OF paths]], use paths guards(1) in simp)+
  have dec: "DecodeOwnershipRecord new = Inr nxt" by (rule DecodeOwnership_Encode [OF enc(2) tx])
  have ne: "?tmp \<noteq> dest" by simp
  obtain m1 where m1: "prepareTemporary memory_fs ?tmp new m = (Inr (), m1)" "mem_live m1 ?tmp = Some new"
    "mem_live m1 dest = mem_live m dest" "mem_crashAfter m1 = 0"
    using memory_prepare_completes [OF ne ok(1) m] .
  have "\<exists>m'. replace_generation memory_fs dir ?tmp dest old new m1 = (Inr (), m')"
    by (rule memory_replace_completes [OF ne ok(2) dec m1(2)]) (use m1 m in \<open>simp_all add: two_generations_def\<close>)
  then show ?thesis
    using m1(1) by (simp add: UpdateOwnership_def guards enc paths Let_def andthen_def wrapped_def wrap_res_def lift_def)
qed

lemma memory_crash_state:
  assumes "two_generations p q old new m" and "p \<noteq> q"
  shows "two_generations p q old new (Crash m)" "mem_crashAfter (Crash m) = 0"
  using assms by (auto simp: two_generations_def Crash_def)


text \<open>
  (C1) An ownership update is atomic under crashes. Whatever filesystem operation of \<^verbatim>\<open>UpdateOwnership\<close>
  the crash follows (\<^verbatim>\<open>CrashAfter\<close> with any count, or none), and whatever the call returned, the
  record that survives the crash is exactly the old generation or exactly the new one; when the call
  returned success it is the new one.
\<close>

theorem ownership_update_atomic:
  assumes "ownershipRelativePaths basePath (Ownership_LogicalID nxt) = Inr (dest, dir)"
    and "EncodeOwnershipRecord (Some expected) = Inr old" and "EncodeOwnershipRecord (Some nxt) = Inr new"
    and "mem_live m dest = Some old" and "mem_syncedContent m dest = Some old" and "mem_durable m dest = Some old"
    and "\<And>f. f \<in> {mem_live, mem_syncedContent, mem_durable} \<Longrightarrow> f m (dest @ ''.'' @ operation @ ''.tmp'') = None"
    and "UpdateOwnership memory_fs basePath operation expected nxt (CrashAfter k m) = (r, m')"
  shows "mem_live (Crash m') dest \<in> {Some old, Some new} \<and> (r = Inr () \<longrightarrow> mem_live (Crash m') dest = Some new)"
proof -
  have dir: "dir = path_dir dest" by (rule ownership_paths_inv [OF assms(1)])
  have "two_generations (dest @ ''.'' @ operation @ ''.tmp'') dest old new (CrashAfter k m)"
    using assms(4-7) by (simp add: two_generations_def CrashAfter_def)
  from tripleD [OF crash.update_triple [OF assms(2,3) assms(1) [unfolded dir] refl] this assms(8)] show ?thesis
    by (auto simp: two_generations_def Crash_def split: sum.splits)
qed

text \<open>
  (C2) An interrupted ownership update can always be finished. After a crash behind any filesystem
  operation of \<^verbatim>\<open>UpdateOwnership\<close>, the same call on the recovered filesystem returns success and leaves
  the new generation durable: the exclusive temporary file, the expected-generation check and the
  read-back never lock the record out.
\<close>

theorem ownership_update_resumes:
  assumes paths: "ownershipRelativePaths basePath (Ownership_LogicalID nxt) = Inr (dest, dir)"
    and guards: "ValidateOperationID operation = None" "Ownership_LogicalID expected = Ownership_LogicalID nxt"
      "ValidateOwnershipUpdate (Some expected) (Some nxt) = None"
    and enc: "EncodeOwnershipRecord (Some expected) = Inr old" "EncodeOwnershipRecord (Some nxt) = Inr new"
    and tx: "text_json (ownership_json nxt)"
    and start: "mem_live m dest = Some old" "mem_syncedContent m dest = Some old" "mem_durable m dest = Some old"
      "\<And>f. f \<in> {mem_live, mem_syncedContent, mem_durable} \<Longrightarrow> f m (dest @ ''.'' @ operation @ ''.tmp'') = None"
    and run: "UpdateOwnership memory_fs basePath operation expected nxt (CrashAfter k m) = (r, m')"
  shows "\<exists>m''. UpdateOwnership memory_fs basePath operation expected nxt (Crash m') = (Inr (), m'') \<and> mem_durable m'' dest = Some new"
proof -
  let ?tmp = "dest @ ''.'' @ operation @ ''.tmp''"
  have dir: "dir = path_dir dest" by (rule ownership_paths_inv [OF paths])
  note upd = crash.update_triple [OF enc paths [unfolded dir] refl]
  have "two_generations ?tmp dest old new (CrashAfter k m)" using start by (simp add: two_generations_def CrashAfter_def)
  from tripleD [OF upd this run] have "two_generations ?tmp dest old new m'" by (auto split: sum.splits)
  then have m': "two_generations ?tmp dest old new (Crash m')" "mem_crashAfter (Crash m') = 0"
    by (rule memory_crash_state, simp)+
  obtain m'' where m'': "UpdateOwnership memory_fs basePath operation expected nxt (Crash m') = (Inr (), m'')"
    using memory_update_completes [OF paths guards enc tx m'] by blast
  from tripleD [OF upd m'(1) this] show ?thesis using m'' by simp
qed

definition seeded :: "string \<Rightarrow> string \<Rightarrow> MemoryDurableFS" where
  "seeded dest old = snd (SeedDurable dest old NewMemoryDurableFS)"

lemma seeded_maps:
  assumes "ValidateRelative dest = None" and "f \<in> {mem_live, mem_syncedContent, mem_durable}"
  shows "f (seeded dest old) = [dest \<mapsto> old]"
  using assms by (auto simp: seeded_def SeedDurable_def NewMemoryDurableFS_def)

abbreviation "sample_old \<equiv> DetailedO (sample_ownership sample_allocation)"
abbreviation "sample_new \<equiv> DetailedO (sample_ownership sample_deleting)"

lemma sample_update_setting:
  obtains dest dir old new where "ownershipRelativePaths sample_base (Ownership_LogicalID sample_new) = Inr (dest, dir)"
    "ValidateOperationID sample_uuid = None" "Ownership_LogicalID sample_old = Ownership_LogicalID sample_new"
    "ValidateOwnershipUpdate (Some sample_old) (Some sample_new) = None"
    "EncodeOwnershipRecord (Some sample_old) = Inr old" "EncodeOwnershipRecord (Some sample_new) = Inr new" "ValidateRelative dest = None"
proof -
  have id: "Ownership_LogicalID sample_new = sample_volume" "Ownership_LogicalID sample_old = sample_volume"
    by (simp_all add: sample_ownership_def ownership_payload_def sample_deleting_def) (simp_all add: sample_allocation_def)
  have "ValidateLogicalVolumeID sample_volume = None" by (rule logical_volume_id_valid [OF sample_volume_ok])
  then obtain dest dir where "ownershipRelativePaths sample_base sample_volume = Inr (dest, dir)" "ValidateRelative dest = None"
    using ownership_paths [OF sample_base_ok] by metis
  moreover have "EncodeOwnershipRecord (Some sample_old) = Inr (Marshal (ownership_json sample_old))"
    "EncodeOwnershipRecord (Some sample_new) = Inr (Marshal (ownership_json sample_new))"
    using sample_ready_ownership_ok sample_deleting_ownership_ok by (simp_all add: EncodeOwnershipRecord_def)
  ultimately show thesis
    using that sample_ownership_update sample_uuid_ok unfolding id ownership_update_def by (simp add: ValidateOperationID_def)
qed

theorem ownership_update_atomic_witness:
  "\<exists>dest old new m'. EncodeOwnershipRecord (Some sample_old) = Inr old \<and> EncodeOwnershipRecord (Some sample_new) = Inr new
     \<and> snd (UpdateOwnership memory_fs sample_base sample_uuid sample_old sample_new (CrashAfter 3 (seeded dest old))) = m'
     \<and> mem_live (Crash m') dest \<in> {Some old, Some new}"
proof -
  obtain dest dir old new where s: "ownershipRelativePaths sample_base (Ownership_LogicalID sample_new) = Inr (dest, dir)"
    "EncodeOwnershipRecord (Some sample_old) = Inr old" "EncodeOwnershipRecord (Some sample_new) = Inr new" "ValidateRelative dest = None"
    using sample_update_setting by metis
  then show ?thesis
    using ownership_update_atomic [OF s(1-3), of "seeded dest old" sample_uuid 3]
    by (auto simp: seeded_maps [OF s(4)]) (metis prod.collapse)
qed

theorem ownership_update_resumes_witness:
  "\<exists>dest old new m' m''. EncodeOwnershipRecord (Some sample_old) = Inr old \<and> EncodeOwnershipRecord (Some sample_new) = Inr new
     \<and> snd (UpdateOwnership memory_fs sample_base sample_uuid sample_old sample_new (CrashAfter 3 (seeded dest old))) = m'
     \<and> UpdateOwnership memory_fs sample_base sample_uuid sample_old sample_new (Crash m') = (Inr (), m'')
     \<and> mem_durable m'' dest = Some new"
proof -
  obtain dest dir old new where s: "ownershipRelativePaths sample_base (Ownership_LogicalID sample_new) = Inr (dest, dir)"
    "ValidateOperationID sample_uuid = None" "Ownership_LogicalID sample_old = Ownership_LogicalID sample_new"
    "ValidateOwnershipUpdate (Some sample_old) (Some sample_new) = None"
    "EncodeOwnershipRecord (Some sample_old) = Inr old" "EncodeOwnershipRecord (Some sample_new) = Inr new" "ValidateRelative dest = None"
    by (rule sample_update_setting)
  obtain r m' where run: "UpdateOwnership memory_fs sample_base sample_uuid sample_old sample_new (CrashAfter 3 (seeded dest old)) = (r, m')"
    by fastforce
  have "\<exists>m''. UpdateOwnership memory_fs sample_base sample_uuid sample_old sample_new (Crash m') = (Inr (), m'') \<and> mem_durable m'' dest = Some new"
    by (rule ownership_update_resumes [OF s(1-6) sample_deleting_text _ _ _ _ run])
      (auto simp: seeded_maps [OF s(7)])
  then show ?thesis using s(5,6) run by (metis snd_conv)
qed

end
