(* ===== verification/DataLifecycle.thy ===== *)
theory DataLifecycle
  imports MetadataWriter
begin

text \<open>
  \<^verbatim>\<open>pkg/safety/lifecycle.go\<close> and \<^verbatim>\<open>lifecycle_fake.go\<close> with the state-driven filesystems of \<^verbatim>\<open>pkg/driver\<close>
  (\<^verbatim>\<open>path_observer.go\<close>, \<^verbatim>\<open>delete_filesystem.go\<close>, \<^verbatim>\<open>gc_filesystem.go\<close>): creation, archive, quarantine and
  removal of the data directory of a volume. The locale \<open>lifecycle_fs\<close> states which entries an operation
  of the boundary may change; the lemmas in it confine every operation to the entries of its own
  volume, and the in-memory tree of the tests is an interpretation.
\<close>

section \<open>The filesystem boundary\<close>

definition archivedDirectory :: string where "archivedDirectory = ''.archived''"
definition deletedDirectory :: string where "deletedDirectory = ''.deleted''"
definition metadataDirectory :: string where "metadataDirectory = ''.sfs-subdir-csi''"

record DirectoryState =
  ds_Present :: bool
  ds_Empty :: bool
  ds_Mode :: u32
  ds_UID :: u32
  ds_GID :: u32

text \<open>
  \<^verbatim>\<open>LifecycleFS\<close> with the optional \<^verbatim>\<open>DirectoryStateInspector\<close> that \<^verbatim>\<open>NewDirectoryLifecycle\<close> finds by a
  type assertion, and the \<^verbatim>\<open>DirectoryInspector\<close> that the adapters pass beside it.
\<close>

record 'w LifecycleFS =
  lf_MkdirExclusive :: "string \<Rightarrow> u32 \<Rightarrow> ('w, unit) act"
  lf_ChownNoFollow :: "string \<Rightarrow> u32 \<Rightarrow> u32 \<Rightarrow> ('w, unit) act"
  lf_ChmodNoFollow :: "string \<Rightarrow> u32 \<Rightarrow> ('w, unit) act"
  lf_SyncNode :: "string \<Rightarrow> ('w, unit) act"
  lf_RenameNoReplace :: "string \<Rightarrow> string \<Rightarrow> ('w, unit) act"
  lf_SyncDir :: "string \<Rightarrow> ('w, unit) act"
  lf_RemoveTreeNoFollow :: "string \<Rightarrow> ('w, unit) act"
  lf_InspectDirectory :: "string \<Rightarrow> ('w, bool) act"
  lf_InspectDirectoryState :: "(string \<Rightarrow> ('w, DirectoryState) act) option"

text \<open>\<^verbatim>\<open>path.Base\<close>.\<close>

definition path_base :: "string \<Rightarrow> string" where
  "path_base p =
     (if p = [] then ''.''
      else let q = trim_right ''/'' p; name = rev (takeWhile (\<lambda>c. c \<noteq> CHR ''/'') (rev q))
           in if name = [] then ''/'' else name)"

section \<open>Checked paths\<close>

definition logicalDirectoryPaths :: "string \<Rightarrow> string \<Rightarrow> (string \<times> string) res" where
  "logicalDirectoryPaths basePath directoryName =
     require (errs [ValidateBasePath basePath, ValidateDirectoryName directoryName])
       (and_then (RelativeToParent basePath) (\<lambda>base.
        and_then (JoinRelative base [directoryName]) (\<lambda>destination.
        Inr (base, destination))))"

definition managed_rune :: "nat \<Rightarrow> bool" where
  "managed_rune c \<longleftrightarrow> in_range 97 122 c \<or> in_range 48 57 c \<or> c = 45 \<or> c = 95 \<or> c = 46"

definition validateManagedComponent :: "string \<Rightarrow> error option" where
  "validateManagedComponent component = errs
     [ensure (\<not> (\<not> valid_string component \<or> length component = 0 \<or> length component > maxFilesystemComponentBytes))
        ''managed target component must contain 1 to 255 UTF-8 bytes'',
      ensure (\<not> (component = ''.'' \<or> component = ''..'' \<or> contains_sub component ''..''))
        ''managed target component contains traversal'',
      errs (map (\<lambda>character. ensure (managed_rune character) ''managed target component contains unsafe characters'') (runes component)),
      ensure (\<not> (component = archivedDirectory \<or> component = deletedDirectory \<or> component = metadataDirectory))
        ''managed target component is reserved'']"

definition validateManagedTarget :: "string \<Rightarrow> string \<Rightarrow> string \<Rightarrow> string res" where
  "validateManagedTarget basePath targetPath managedDirectory =
     require (errs
       [ensure (\<not> (managedDirectory \<noteq> archivedDirectory \<and> managedDirectory \<noteq> deletedDirectory)) ''managed directory is unsupported'',
        ValidateBasePath basePath,
        ensure (\<not> (targetPath = [] \<or> \<not> has_prefix targetPath ''/'' \<or> path_clean targetPath \<noteq> targetPath))
          ''managed target must be absolute and normalized'',
        ensure (path_dir targetPath = path_join [basePath, managedDirectory]) ''managed target is not a direct child'',
        validateManagedComponent (path_base targetPath)])
     (RelativeToParent targetPath)"

definition validateGCSource :: "string \<Rightarrow> string \<Rightarrow> (string \<times> string) res" where
  "validateGCSource basePath sourcePath =
     (let sourceParent = path_dir sourcePath
      in require (errs
        [ValidateBasePath basePath,
         ensure (\<not> (sourcePath = [] \<or> \<not> has_prefix sourcePath ''/'' \<or> path_clean sourcePath \<noteq> sourcePath))
           ''GC source must be absolute and normalized'',
         (if sourceParent = basePath then wrap_err ''retained GC source'' (ValidateDirectoryName (path_base sourcePath))
          else if sourceParent = path_join [basePath, archivedDirectory]
          then wrap_err ''archived GC source'' (validateManagedComponent (path_base sourcePath))
          else Some (errorf ''GC source is outside the retained or archived roots''))])
      (and_then (RelativeToParent sourcePath) (\<lambda>relative.
       and_then (RelativeToParent sourceParent) (\<lambda>parent.
       Inr (relative, parent)))))"

text \<open>\<^verbatim>\<open>strconv.ParseUint(mode, 8, 32)\<close>.\<close>

definition octal_value :: "string \<Rightarrow> nat" where
  "octal_value s = foldl (\<lambda>n c. 8 * n + digit_val c) 0 s"

definition parseMode :: "string \<Rightarrow> u32 res" where
  "parseMode mode =
     require (ValidateDirectoryMode mode)
       (require (ensure (mode \<noteq> [] \<and> list_all (\<lambda>c. in_range 48 55 (byte c)) mode \<and> octal_value mode < 2 ^ 32) ''parse directory mode'')
         (Inr (of_nat (octal_value mode))))"

section \<open>Directory lifecycle\<close>

definition identity_bound :: "u32 \<Rightarrow> u32 \<Rightarrow> error option" where
  "identity_bound uid gid =
     ensure (\<not> (uid > 2147483647 \<or> gid > 2147483647)) ''directory UID and GID must not exceed 2147483647''"

definition configure_directory ::
  "'w LifecycleFS \<Rightarrow> string \<Rightarrow> string \<Rightarrow> u32 \<Rightarrow> u32 \<Rightarrow> u32 \<Rightarrow> ('w, unit) act" where
  "configure_directory fs base destination mode uid gid =
     andthen (wrapped ''set logical directory ownership'' (lf_ChownNoFollow fs destination uid gid)) (\<lambda>_.
     andthen (wrapped ''set logical directory mode'' (lf_ChmodNoFollow fs destination mode)) (\<lambda>_.
     andthen (wrapped ''sync logical directory inode'' (lf_SyncNode fs destination)) (\<lambda>_.
     wrapped ''sync base directory'' (lf_SyncDir fs base))))"

definition CreateLogicalDirectory ::
  "'w LifecycleFS \<Rightarrow> string \<Rightarrow> string \<Rightarrow> string \<Rightarrow> u32 \<Rightarrow> u32 \<Rightarrow> ('w, unit) act" where
  "CreateLogicalDirectory fs basePath directoryName mode uid gid =
     andthen (lift (logicalDirectoryPaths basePath directoryName)) (\<lambda>(base, destination).
     andthen (lift (parseMode mode)) (\<lambda>parsedMode.
     guard (identity_bound uid gid)
     (andthen (wrapped ''create logical directory'' (lf_MkdirExclusive fs destination parsedMode)) (\<lambda>_.
      configure_directory fs base destination parsedMode uid gid))))"

definition PrepareLogicalDirectory ::
  "'w LifecycleFS \<Rightarrow> string \<Rightarrow> string \<Rightarrow> string \<Rightarrow> u32 \<Rightarrow> u32 \<Rightarrow> ('w, unit) act" where
  "PrepareLogicalDirectory fs basePath directoryName mode uid gid =
     (case lf_InspectDirectoryState fs of
        None \<Rightarrow> fail (errorf ''lifecycle filesystem cannot prove directory state'')
      | Some inspect \<Rightarrow>
          andthen (lift (logicalDirectoryPaths basePath directoryName)) (\<lambda>(base, destination).
          andthen (lift (parseMode mode)) (\<lambda>parsedMode.
          guard (identity_bound uid gid)
          (andthen (wrapped ''inspect logical directory before creation repair'' (inspect destination)) (\<lambda>state.
             if \<not> ds_Present state then CreateLogicalDirectory fs basePath directoryName mode uid gid
             else if \<not> ds_Empty state
             then fail (Errorf ''existing unowned logical directory'' [ErrDirectoryNotEmpty])
             else configure_directory fs base destination parsedMode uid gid)))))"

definition VerifyLogicalDirectory ::
  "'w LifecycleFS \<Rightarrow> string \<Rightarrow> string \<Rightarrow> string \<Rightarrow> u32 \<Rightarrow> u32 \<Rightarrow> ('w, unit) act" where
  "VerifyLogicalDirectory fs basePath directoryName mode uid gid =
     (case lf_InspectDirectoryState fs of
        None \<Rightarrow> fail (errorf ''lifecycle filesystem cannot prove directory state'')
      | Some inspect \<Rightarrow>
          andthen (lift (logicalDirectoryPaths basePath directoryName)) (\<lambda>(base, destination).
          andthen (lift (parseMode mode)) (\<lambda>parsedMode.
          andthen (wrapped ''inspect logical directory identity'' (inspect destination)) (\<lambda>state.
          guard (errs
            [ensure (ds_Present state) ''logical directory is absent'',
             ensure (\<not> (ds_Mode state \<noteq> parsedMode \<or> ds_UID state \<noteq> uid \<or> ds_GID state \<noteq> gid))
               ''logical directory identity differs''])
          (ret ())))))"

definition renameToManagedDirectory :: "'w LifecycleFS \<Rightarrow> string \<Rightarrow> string \<Rightarrow> string \<Rightarrow> string \<Rightarrow> ('w, unit) act" where
  "renameToManagedDirectory fs basePath directoryName targetPath managedDirectory =
     andthen (lift (logicalDirectoryPaths basePath directoryName)) (\<lambda>(base, source).
     andthen (lift (validateManagedTarget basePath targetPath managedDirectory)) (\<lambda>target.
     andthen (wrapped ''move logical directory'' (lf_RenameNoReplace fs source target)) (\<lambda>_.
     andthen (wrapped ''sync source base directory after rename'' (lf_SyncDir fs base)) (\<lambda>_.
     wrapped ''sync managed destination directory after rename'' (lf_SyncDir fs (path_join [base, managedDirectory]))))))"

definition Archive :: "'w LifecycleFS \<Rightarrow> string \<Rightarrow> string \<Rightarrow> string \<Rightarrow> ('w, unit) act" where
  "Archive fs basePath directoryName archivedPath = renameToManagedDirectory fs basePath directoryName archivedPath archivedDirectory"

definition Quarantine :: "'w LifecycleFS \<Rightarrow> string \<Rightarrow> string \<Rightarrow> string \<Rightarrow> ('w, unit) act" where
  "Quarantine fs basePath directoryName quarantinePath = renameToManagedDirectory fs basePath directoryName quarantinePath deletedDirectory"

definition QuarantineForGC :: "'w LifecycleFS \<Rightarrow> string \<Rightarrow> string \<Rightarrow> string \<Rightarrow> ('w, unit) act" where
  "QuarantineForGC fs basePath sourcePath quarantinePath =
     andthen (lift (validateGCSource basePath sourcePath)) (\<lambda>(source, sourceParent).
     andthen (lift (validateManagedTarget basePath quarantinePath deletedDirectory)) (\<lambda>target.
     andthen (wrapped ''move GC source to quarantine'' (lf_RenameNoReplace fs source target)) (\<lambda>_.
     andthen (wrapped ''sync GC source directory after rename'' (lf_SyncDir fs sourceParent)) (\<lambda>_.
     andthen (lift (RelativeToParent (path_join [basePath, deletedDirectory]))) (\<lambda>deletedParent.
     wrapped ''sync GC quarantine directory after rename'' (lf_SyncDir fs deletedParent))))))"

definition RemoveQuarantine :: "'w LifecycleFS \<Rightarrow> string \<Rightarrow> string \<Rightarrow> ('w, unit) act" where
  "RemoveQuarantine fs basePath quarantinePath =
     andthen (lift (RelativeToParent basePath)) (\<lambda>base.
     andthen (lift (validateManagedTarget basePath quarantinePath deletedDirectory)) (\<lambda>quarantine.
     andthen (wrapped ''remove quarantined logical directory'' (lf_RemoveTreeNoFollow fs quarantine)) (\<lambda>_.
     wrapped ''sync deleted directory after recursive removal'' (lf_SyncDir fs (path_join [base, deletedDirectory])))))"

definition SyncDeletedDirectory :: "'w LifecycleFS \<Rightarrow> string \<Rightarrow> ('w, unit) act" where
  "SyncDeletedDirectory fs basePath =
     andthen (lift (RelativeToParent basePath)) (\<lambda>base.
     wrapped ''sync deleted directory after observed absence'' (lf_SyncDir fs (path_join [base, deletedDirectory])))"

section \<open>State-driven filesystems\<close>

record DeletePathObservation =
  dp_SourcePresent :: bool
  dp_TargetPresent :: bool

record GCPathObservation =
  gp_SourcePresent :: bool
  gp_QuarantinePresent :: bool

definition Observe_delete :: "'w LifecycleFS \<Rightarrow> DetailedAllocationRecord \<Rightarrow> ('w, DeletePathObservation) act" where
  "Observe_delete fs allocation =
     guard (errs [Detailed_Validate allocation,
       ensure (a_State allocation = StateDeleting) ''delete path observation requires Deleting allocation''])
     (andthen (lift (RelativeToParent (a_DeleteSourcePath allocation))) (\<lambda>source.
      andthen (wrapped ''inspect persisted delete source'' (lf_InspectDirectory fs source)) (\<lambda>sourcePresent.
      if a_DeleteOperation allocation = DeleteOperationRetain
      then ret \<lparr>dp_SourcePresent = sourcePresent, dp_TargetPresent = sourcePresent\<rparr>
      else andthen (lift (RelativeToParent (a_DeleteTargetPath allocation))) (\<lambda>target.
        andthen (wrapped ''inspect persisted delete target'' (lf_InspectDirectory fs target)) (\<lambda>targetPresent.
        ret \<lparr>dp_SourcePresent = sourcePresent, dp_TargetPresent = targetPresent\<rparr>)))))"

definition validateGCFilesystemAllocation :: "DetailedAllocationRecord \<Rightarrow> bool \<Rightarrow> error option" where
  "validateGCFilesystemAllocation allocation requireRemoveStart = errs
     [Detailed_Validate allocation,
      ensure (\<not> (a_State allocation \<noteq> a_GCExpectedState allocation
          \<or> (a_State allocation \<noteq> StateArchived \<and> a_State allocation \<noteq> StateRetained)
          \<or> a_GCRequestedMode allocation \<noteq> ''execute'' \<or> a_GCOperationID allocation = []))
        ''GC filesystem operation requires prepared Archived or Retained execute state'',
      ensure (\<not> (requireRemoveStart \<and> a_GCRemoveStartedAt allocation = [])) ''GC quarantine removal requires remove-start evidence'']"

definition ObserveGC :: "'w LifecycleFS \<Rightarrow> DetailedAllocationRecord \<Rightarrow> ('w, GCPathObservation) act" where
  "ObserveGC fs allocation =
     guard (validateGCFilesystemAllocation allocation False)
     (andthen (lift (RelativeToParent (a_GCTargetPath allocation))) (\<lambda>source.
      andthen (wrapped ''inspect persisted GC source'' (lf_InspectDirectory fs source)) (\<lambda>sourcePresent.
      andthen (lift (RelativeToParent (a_GCQuarantinePath allocation))) (\<lambda>quarantine.
      andthen (wrapped ''inspect persisted GC quarantine'' (lf_InspectDirectory fs quarantine)) (\<lambda>quarantinePresent.
      ret \<lparr>gp_SourcePresent = sourcePresent, gp_QuarantinePresent = quarantinePresent\<rparr>)))))"

definition Delete_PrepareDisposition :: "'w LifecycleFS \<Rightarrow> DetailedAllocationRecord \<Rightarrow> ('w, unit) act" where
  "Delete_PrepareDisposition fs allocation =
     guard (ensure (a_State allocation = StateDeleting) ''filesystem disposition requires Deleting allocation'')
     (andthen (Observe_delete fs allocation) (\<lambda>observation.
      let source = dp_SourcePresent observation; target = dp_TargetPresent observation
      in if a_DeleteOperation allocation = DeleteOperationArchive then
           (if source \<and> \<not> target
            then Archive fs (a_BasePath allocation) (a_DirectoryName allocation) (a_DeleteTargetPath allocation)
            else if \<not> source \<and> target then ret ()
            else if source \<and> target then fail (errorf ''archive source and persisted target both exist'')
            else fail (errorf ''archive source and persisted target are both absent; manual recovery required''))
         else if a_DeleteOperation allocation = DeleteOperationRetain then
           (if \<not> source then fail (errorf ''retained source path is absent; manual recovery required'') else ret ())
         else if a_DeleteOperation allocation = DeleteOperationDelete then
           (if source \<and> \<not> target
            then Quarantine fs (a_BasePath allocation) (a_DirectoryName allocation) (a_DeleteTargetPath allocation)
            else if \<not> source \<and> target then ret ()
            else if source \<and> target then fail (errorf ''delete source and persisted quarantine both exist'')
            else if a_DeleteRemoveStartedAt allocation \<noteq> [] then ret ()
            else fail (errorf ''delete source and quarantine are absent without remove-start evidence''))
         else fail (errorf ''delete operation is unsupported'')))"

definition Delete_RemoveQuarantine :: "'w LifecycleFS \<Rightarrow> DetailedAllocationRecord \<Rightarrow> ('w, unit) act" where
  "Delete_RemoveQuarantine fs allocation =
     guard (ensure (\<not> (a_State allocation \<noteq> StateDeleting \<or> a_DeleteOperation allocation \<noteq> DeleteOperationDelete
         \<or> a_DeleteRemoveStartedAt allocation = [])) ''quarantine removal requires matching Deleting remove-start evidence'')
     (andthen (Observe_delete fs allocation) (\<lambda>observation.
      if dp_SourcePresent observation then fail (errorf ''original delete source reappeared after quarantine preparation'')
      else if dp_TargetPresent observation
      then RemoveQuarantine fs (a_BasePath allocation) (a_DeleteTargetPath allocation)
      else SyncDeletedDirectory fs (a_BasePath allocation)))"

definition GC_PrepareQuarantine :: "'w LifecycleFS \<Rightarrow> DetailedAllocationRecord \<Rightarrow> ('w, unit) act" where
  "GC_PrepareQuarantine fs allocation =
     guard (validateGCFilesystemAllocation allocation False)
     (andthen (ObserveGC fs allocation) (\<lambda>observation.
      let source = gp_SourcePresent observation; quarantine = gp_QuarantinePresent observation
      in if source \<and> \<not> quarantine
         then QuarantineForGC fs (a_BasePath allocation) (a_GCTargetPath allocation) (a_GCQuarantinePath allocation)
         else if \<not> source \<and> quarantine then ret ()
         else if source \<and> quarantine then fail (errorf ''GC source and persisted quarantine both exist'')
         else if a_GCRemoveStartedAt allocation \<noteq> [] then ret ()
         else fail (errorf ''GC source and quarantine are absent without remove-start evidence'')))"

definition GC_RemoveQuarantine :: "'w LifecycleFS \<Rightarrow> DetailedAllocationRecord \<Rightarrow> ('w, unit) act" where
  "GC_RemoveQuarantine fs allocation =
     guard (validateGCFilesystemAllocation allocation True)
     (andthen (ObserveGC fs allocation) (\<lambda>observation.
      if gp_SourcePresent observation then fail (errorf ''GC source reappeared after quarantine preparation'')
      else if gp_QuarantinePresent observation
      then RemoveQuarantine fs (a_BasePath allocation) (a_GCQuarantinePath allocation)
      else SyncDeletedDirectory fs (a_BasePath allocation)))"

section \<open>The in-memory tree\<close>

record FakeLifecycleEntry =
  le_Mode :: u32
  le_UID :: u32
  le_GID :: u32
  le_Symlink :: bool
  le_MountBoundary :: bool

record FakeLifecycleFS =
  fl_entries :: "(string \<times> FakeLifecycleEntry) list"
  fl_operations :: "string list"

definition NewFakeLifecycleFS :: FakeLifecycleFS where
  "NewFakeLifecycleFS = \<lparr>fl_entries = [], fl_operations = []\<rparr>"

definition entry_at :: "FakeLifecycleFS \<Rightarrow> string \<Rightarrow> FakeLifecycleEntry option" where
  "entry_at fs name = map_of (fl_entries fs) name"

definition set_entry :: "string \<Rightarrow> FakeLifecycleEntry \<Rightarrow> FakeLifecycleFS \<Rightarrow> FakeLifecycleFS" where
  "set_entry name entry fs = fs\<lparr>fl_entries := AList.update name entry (fl_entries fs)\<rparr>"

definition log_operation :: "string \<Rightarrow> FakeLifecycleFS \<Rightarrow> FakeLifecycleFS" where
  "log_operation op fs = fs\<lparr>fl_operations := fl_operations fs @ [op]\<rparr>"

text \<open>The entry itself or one below it.\<close>

definition under :: "string \<Rightarrow> string \<Rightarrow> bool" where
  "under root name \<longleftrightarrow> name = root \<or> has_prefix name (root @ ''/'')"

definition safe_parent :: "FakeLifecycleFS \<Rightarrow> string \<Rightarrow> bool" where
  "safe_parent fs name = (case entry_at fs name of None \<Rightarrow> False | Some entry \<Rightarrow> \<not> le_Symlink entry)"

definition SeedDirectory :: "string \<Rightarrow> FakeLifecycleEntry \<Rightarrow> (FakeLifecycleFS, unit) act" where
  "SeedDirectory relative entry = guard (ValidateRelative relative) (\<lambda>fs. (Inr (), set_entry relative entry fs))"

definition Tree_MkdirExclusive :: "string \<Rightarrow> u32 \<Rightarrow> (FakeLifecycleFS, unit) act" where
  "Tree_MkdirExclusive relative mode fs =
     guard (errs [ValidateRelative relative,
       ensure_is (entry_at fs relative = None) ErrDurableAlreadyExists [],
       ensure (safe_parent fs (path_dir relative)) ''parent directory is missing or unsafe''])
     (\<lambda>fs. (Inr (), log_operation (''mkdir:'' @ relative)
       (set_entry relative \<lparr>le_Mode = mode, le_UID = 0, le_GID = 0, le_Symlink = False, le_MountBoundary = False\<rparr> fs))) fs"

definition Tree_ChownNoFollow :: "string \<Rightarrow> u32 \<Rightarrow> u32 \<Rightarrow> (FakeLifecycleFS, unit) act" where
  "Tree_ChownNoFollow relative uid gid fs =
     guard (errs [ValidateRelative relative, ensure (safe_parent fs relative) ''entry is missing or a symlink''])
     (\<lambda>fs. (Inr (), log_operation (''chown:'' @ relative)
       (set_entry relative ((the (entry_at fs relative))\<lparr>le_UID := uid, le_GID := gid\<rparr>) fs))) fs"

definition Tree_ChmodNoFollow :: "string \<Rightarrow> u32 \<Rightarrow> (FakeLifecycleFS, unit) act" where
  "Tree_ChmodNoFollow relative mode fs =
     guard (errs [ValidateRelative relative, ensure (safe_parent fs relative) ''entry is missing or a symlink''])
     (\<lambda>fs. (Inr (), log_operation (''chmod:'' @ relative)
       (set_entry relative ((the (entry_at fs relative))\<lparr>le_Mode := mode\<rparr>) fs))) fs"

definition Tree_SyncNode :: "string \<Rightarrow> (FakeLifecycleFS, unit) act" where
  "Tree_SyncNode relative fs =
     guard (errs [ValidateRelative relative, ensure (entry_at fs relative \<noteq> None) ''entry is missing''])
     (\<lambda>fs. (Inr (), log_operation (''sync-node:'' @ relative) fs)) fs"

definition moved_entries :: "string \<Rightarrow> string \<Rightarrow> (string \<times> 'e) list \<Rightarrow> (string \<times> 'e) list" where
  "moved_entries source destination entries =
     map (\<lambda>(name, entry). (destination @ trim_prefix name source, entry)) (filter (\<lambda>(name, _). under source name) entries)"

definition Tree_RenameNoReplace :: "string \<Rightarrow> string \<Rightarrow> (FakeLifecycleFS, unit) act" where
  "Tree_RenameNoReplace source destination fs =
     guard (errs [ValidateRelative source, ValidateRelative destination,
       ensure (entry_at fs source \<noteq> None) ''rename source is missing'',
       ensure_is (entry_at fs destination = None) ErrDurableAlreadyExists [],
       ensure (safe_parent fs (path_dir destination)) ''rename destination parent is missing or unsafe''])
     (\<lambda>fs. (Inr (), log_operation (''rename:'' @ source @ ''->'' @ destination)
       (fs\<lparr>fl_entries := fold (\<lambda>(name, entry). AList.update name entry) (moved_entries source destination (fl_entries fs))
          (filter (\<lambda>(name, _). \<not> under source name) (fl_entries fs))\<rparr>))) fs"

definition Tree_SyncDir :: "string \<Rightarrow> (FakeLifecycleFS, unit) act" where
  "Tree_SyncDir relative fs =
     guard (errs [ValidateRelative relative, ensure (safe_parent fs relative) ''directory is missing or unsafe''])
     (\<lambda>fs. (Inr (), log_operation (''sync-dir:'' @ relative) fs)) fs"

definition Tree_RemoveTreeNoFollow :: "string \<Rightarrow> (FakeLifecycleFS, unit) act" where
  "Tree_RemoveTreeNoFollow relative fs =
     guard (errs [ValidateRelative relative, ensure (entry_at fs relative \<noteq> None) ''remove root is missing'',
       ensure (list_all (\<lambda>(name, entry). \<not> (under relative name \<and> le_MountBoundary entry)) (fl_entries fs)) ''entry crosses a mount boundary''])
     (\<lambda>fs. (Inr (), log_operation (''remove-tree:'' @ relative)
       (fs\<lparr>fl_entries := filter (\<lambda>(name, _). \<not> under relative name) (fl_entries fs)\<rparr>))) fs"

text \<open>The components of the parent path, from the root down.\<close>

fun parent_chain :: "string \<Rightarrow> string list \<Rightarrow> string list" where
  "parent_chain current [] = []"
| "parent_chain current (component # components) =
     path_join [current, component] # parent_chain (path_join [current, component]) components"

definition plain_entry :: "FakeLifecycleFS \<Rightarrow> string \<Rightarrow> bool" where
  "plain_entry fs name =
     (case entry_at fs name of None \<Rightarrow> False | Some entry \<Rightarrow> \<not> le_Symlink entry \<and> \<not> le_MountBoundary entry)"

definition Tree_InspectDirectory :: "string \<Rightarrow> (FakeLifecycleFS, bool) act" where
  "Tree_InspectDirectory relative fs =
     (let parent = path_dir relative; below = (\<lambda>name. has_prefix name (relative @ ''/''))
      in guard (errs [ValidateRelative relative,
           (if parent \<noteq> ''.'' then errs (map (\<lambda>current. ensure (plain_entry fs current) ''inspection parent component is missing or unsafe'')
              (parent_chain [] (split_on CHR ''/'' parent))) else None)])
         (case entry_at fs relative of
            None \<Rightarrow> guard (ensure (list_all (\<lambda>(name, _). \<not> below name) (fl_entries fs)) ''inspection root is missing while descendants exist'') (ret False)
          | Some entry \<Rightarrow> guard (errs [ensure (\<not> (le_Symlink entry \<or> le_MountBoundary entry)) ''inspection root is a symlink or mount boundary'',
              ensure (list_all (\<lambda>(name, child). \<not> (below name \<and> le_MountBoundary child)) (fl_entries fs)) ''inspection tree crosses mount boundary''])
              (ret True)) fs)"

definition Tree_InspectDirectoryState :: "string \<Rightarrow> (FakeLifecycleFS, DirectoryState) act" where
  "Tree_InspectDirectoryState relative =
     andthen (Tree_InspectDirectory relative) (\<lambda>present fs.
       case entry_at fs relative of
         Some entry \<Rightarrow> if present
           then (Inr \<lparr>ds_Present = True, ds_Empty = list_all (\<lambda>(name, _). \<not> has_prefix name (relative @ ''/'')) (fl_entries fs),
             ds_Mode = le_Mode entry, ds_UID = le_UID entry, ds_GID = le_GID entry\<rparr>, fs)
           else (Inr \<lparr>ds_Present = False, ds_Empty = False, ds_Mode = 0, ds_UID = 0, ds_GID = 0\<rparr>, fs)
       | None \<Rightarrow> (Inr \<lparr>ds_Present = present, ds_Empty = False, ds_Mode = 0, ds_UID = 0, ds_GID = 0\<rparr>, fs))"

definition tree_fs :: "FakeLifecycleFS LifecycleFS" where
  "tree_fs = \<lparr>lf_MkdirExclusive = Tree_MkdirExclusive, lf_ChownNoFollow = Tree_ChownNoFollow,
     lf_ChmodNoFollow = Tree_ChmodNoFollow, lf_SyncNode = Tree_SyncNode, lf_RenameNoReplace = Tree_RenameNoReplace,
     lf_SyncDir = Tree_SyncDir, lf_RemoveTreeNoFollow = Tree_RemoveTreeNoFollow,
     lf_InspectDirectory = Tree_InspectDirectory, lf_InspectDirectoryState = Some Tree_InspectDirectoryState\<rparr>"

section \<open>Normalised absolute paths\<close>

lemma clean_fold_plain:
  "\<forall>w \<in> set ws. CHR ''/'' \<notin> set w \<Longrightarrow> \<forall>w \<in> set st. plain_component w \<Longrightarrow>
   \<forall>w \<in> set (foldl (clean_step True) st ws). plain_component w"
proof (induction ws arbitrary: st)
  case (Cons w ws)
  have "\<forall>x \<in> set (clean_step True st w). plain_component x"
  proof (cases "w = [] \<or> w = ''.''")
    case False
    show ?thesis
    proof (cases "w = ''..''")
      case True
      have "t \<noteq> ''..''" if "t \<in> set st" for t using Cons.prems(2) that by (auto simp: plain_component_def)
      then show ?thesis using Cons.prems(2) True by (cases st) auto
    next
      case dots: False
      have "plain_component w" using False dots Cons.prems(1) by (simp add: plain_component_def)
      moreover have "clean_step True st w = w # st" using False dots by (simp del: list.simps)
      ultimately show ?thesis using Cons.prems(2) by simp
    qed
  qed (use Cons.prems(2) in auto)
  then show ?case using Cons.IH [of "clean_step True st w"] Cons.prems(1) by (simp del: clean_step.simps)
qed simp

lemma clean_abs_path:
  assumes "path_clean t = t" and "has_prefix t ''/''" and "t \<noteq> ''/''"
  obtains ws where "t = abs_path ws" "ws \<noteq> []" "\<forall>w \<in> set ws. plain_component w"
proof -
  let ?ws = "clean_components True (split_on CHR ''/'' t)"
  have t: "t = abs_path ?ws" using assms(1,2) by (auto simp: path_clean_def Let_def abs_path_def split: if_splits)
  have "\<forall>w \<in> set ?ws. plain_component w"
    unfolding clean_components_def set_rev by (rule clean_fold_plain) (use split_on_parts in auto)
  moreover have "?ws \<noteq> []" using t assms(3) by (auto simp: abs_path_def join_with_def)
  ultimately show thesis using that t by blast
qed

lemma abs_path_inj:
  assumes "abs_path us = abs_path vs" and "\<forall>w \<in> set us. plain_component w" and "\<forall>w \<in> set vs. plain_component w"
    and "us \<noteq> []" and "vs \<noteq> []"
  shows "us = vs"
  using split_abs_path [OF assms(2,4)] split_abs_path [OF assms(3,5)] unfolding assms(1) by simp

lemma abs_rel_path: "abs_path ws = CHR ''/'' # rel_path ws"
  by (simp add: abs_path_def rel_path_def)

lemma path_dir_abs_path:
  assumes "\<forall>w \<in> set (vs @ [w]). plain_component w" and "vs \<noteq> []"
  shows "path_dir (abs_path (vs @ [w])) = abs_path vs"
proof -
  have eq: "abs_path (vs @ [w]) = abs_path vs @ ''/'' @ w"
    using abs_path_snoc [OF assms(2), of "[w]"] by (simp add: join_with_def)
  have w: "CHR ''/'' \<notin> set w" using assms(1) by (simp add: plain_component_def)
  then have "takeWhile (\<lambda>c. c \<noteq> CHR ''/'') (rev (abs_path (vs @ [w]))) = rev w"
    unfolding eq by (auto simp: takeWhile_append)
  then have dir: "path_dir (abs_path (vs @ [w])) = path_clean (abs_path vs @ ''/'')"
    by (simp add: path_dir_def Let_def eq)
  have plain: "\<forall>w \<in> set vs. plain_component w" using assms(1) by simp
  have "split_on CHR ''/'' (join_with ''/'' (vs @ [[]])) = vs @ [[]]"
    by (rule split_on_join) (use assms(1) in \<open>auto simp: plain_component_def\<close>)
  moreover have "join_with ''/'' (vs @ [[]]) = rel_path vs @ ''/''"
    using assms(2) by (cases vs) (simp_all add: rel_path_def join_with_def)
  ultimately have "split_on CHR ''/'' (abs_path vs @ ''/'') = [] # vs @ [[]]" by (simp add: abs_rel_path)
  moreover have "has_prefix (abs_path vs @ ''/'') ''/''" by (simp add: abs_path_def)
  ultimately have "path_clean (abs_path vs @ ''/'') = ''/'' @ join_with ''/'' (clean_components True ([] # vs @ [[]]))"
    by (simp add: path_clean_def Let_def)
  then show ?thesis
    unfolding dir using clean_plain [OF plain, of True "[]"] by (simp add: clean_components_def abs_path_def)
qed

lemma path_base_abs_path:
  assumes "plain_component w"
  shows "path_base (abs_path (vs @ [w])) = w"
proof -
  have w: "CHR ''/'' \<notin> set w" "w \<noteq> []" using assms by (simp_all add: plain_component_def)
  obtain p where p: "abs_path (vs @ [w]) = p @ ''/'' @ w"
    using abs_path_snoc [of vs "[w]"] by (cases "vs = []") (auto simp: abs_path_def join_with_def)
  have "trim_right ''/'' (p @ ''/'' @ w) = p @ ''/'' @ w"
    using w by (cases w rule: rev_cases) (auto simp: trim_right_def)
  moreover have "takeWhile (\<lambda>c. c \<noteq> CHR ''/'') (rev (p @ ''/'' @ w)) = rev w"
    using w by (auto simp: takeWhile_append)
  ultimately show ?thesis using w(2) by (simp add: path_base_def Let_def p)
qed

section \<open>What the checked paths are\<close>

lemma base_components:
  assumes "ValidateBasePath basePath = None"
  obtains vs where "basePath = abs_path vs" "vs \<noteq> []" "\<forall>w \<in> set vs. plain_component w" "RelativeToParent basePath = Inr (rel_path vs)"
    "CHR 0x00 \<notin> set (rel_path vs)"
proof -
  obtain vs where vs: "basePath = abs_path vs" "vs \<noteq> []" "\<forall>w \<in> set vs. plain_component w"
    using valid_base_path [OF assms] by metis
  have nul: "CHR 0x00 \<notin> set (rel_path vs)"
    using assms vs(1) by (simp add: ValidateBasePath_def Let_def abs_rel_path)
  have "rel_path vs \<noteq> []" using plain_bar(2) [OF vs(3,2)] .
  then have "RelativeToParent basePath = Inr (rel_path vs)"
    using path_clean_abs_path [OF vs(3,2)] ValidateRelative_rel_path [OF vs(3,2) nul] vs(1)
    by (simp add: RelativeToParent_def abs_rel_path trim_prefix_def has_prefix_def)
  then show thesis using that vs nul by blast
qed

lemma relative_abs_path:
  assumes "RelativeToParent p = Inr r" and "p = abs_path ws"
  shows "r = rel_path ws"
  using assms by (auto simp: RelativeToParent_def abs_rel_path trim_prefix_def has_prefix_def Let_def)

lemma logical_directory_paths:
  assumes "logicalDirectoryPaths basePath d = Inr (base, dest)" and "basePath = abs_path vs" "vs \<noteq> []" "\<forall>w \<in> set vs. plain_component w"
  shows "base = rel_path vs" "dest = rel_path (vs @ [d])" "plain_component d"
proof -
  have ok: "ValidateDirectoryName d = None" "RelativeToParent basePath = Inr base" "JoinRelative base [d] = Inr dest"
    using assms(1) by (auto simp: logicalDirectoryPaths_def)
  show base: "base = rel_path vs" by (rule relative_abs_path [OF ok(2) assms(2)])
  show d: "plain_component d" by (rule valid_directory_name(1) [OF ok(1)])
  have all: "\<forall>w \<in> set (vs @ [d]). plain_component w" using assms(4) d by simp
  have "rel_path vs \<noteq> []" "d \<noteq> []" using plain_bar(2) [OF assms(4,3)] d by (simp_all add: plain_component_def)
  moreover have "join_with ''/'' [rel_path vs, d] = rel_path (vs @ [d])"
    using assms(3) by (simp add: rel_path_def join_with_append) (simp add: join_with_def)
  ultimately have "path_join [rel_path vs, d] = rel_path (vs @ [d])"
    using path_clean_rel_path [OF all] by (simp add: path_join_def Let_def)
  then show "dest = rel_path (vs @ [d])" using ok(3) base by (simp add: JoinRelative_def)
qed

lemma managed_target_path:
  assumes "validateManagedTarget basePath t m = Inr r" and "basePath = abs_path vs" "vs \<noteq> []" "\<forall>w \<in> set vs. plain_component w"
  obtains c where "r = rel_path (vs @ [m, c])" "t = abs_path (vs @ [m, c])" "validateManagedComponent c = None" "plain_component c"
    "plain_component m" "m \<in> {archivedDirectory, deletedDirectory}"
proof -
  have ok: "m = archivedDirectory \<or> m = deletedDirectory" "ValidateBasePath basePath = None" "has_prefix t ''/''" "path_clean t = t"
    "path_dir t = path_join [basePath, m]" "validateManagedComponent (path_base t) = None" "RelativeToParent t = Inr r"
    using assms(1) by (auto simp: validateManagedTarget_def)
  then have "t \<noteq> ''/''" by (auto simp: RelativeToParent_def)
  then obtain ws where ws: "t = abs_path ws" "ws \<noteq> []" "\<forall>w \<in> set ws. plain_component w"
    using clean_abs_path [OF ok(4,3)] by blast
  obtain us c where us: "ws = us @ [c]" using ws(2) by (cases ws rule: rev_cases) auto
  have m: "plain_component m" using ok(1) by (auto simp: archivedDirectory_def deletedDirectory_def plain_component_def)
  have join: "path_join [basePath, m] = abs_path (vs @ [m])"
    using path_join_below(1) [OF ok(2), of "[m]"] m abs_path_snoc [OF assms(3), of "[m]"] assms(2) by (simp add: join_with_def)
  have "us \<noteq> []"
  proof
    assume "us = []"
    then have "path_dir t = path_clean ''/''"
      using ws us by (simp add: path_dir_def Let_def abs_path_def join_with_def plain_component_def takeWhile_append)
    then have "abs_path (vs @ [m]) = ''/''" using ok(5) join by (simp add: path_clean_def clean_components_def join_with_def)
    then show False using plain_bar(2) [of "vs @ [m]"] assms(4) m by (auto simp: abs_rel_path)
  qed
  then have "abs_path us = abs_path (vs @ [m])"
    using path_dir_abs_path [of us c] ws us ok(5) join by simp
  then have "us = vs @ [m]" by (rule abs_path_inj) (use ws us assms(4) m \<open>us \<noteq> []\<close> in auto)
  then have t: "t = abs_path (vs @ [m, c])" using ws(1) us by simp
  show thesis
  proof (rule that [OF relative_abs_path [OF ok(7) t] t])
    show "validateManagedComponent c = None" using ok(6) path_base_abs_path [of c us] ws us by simp
  qed (use ws us m ok(1) in auto)
qed

section \<open>Entries below a path\<close>

lemma under_components:
  assumes "\<forall>w \<in> set ws. plain_component w" and "ws \<noteq> []" and "under (rel_path ws) n"
  shows "\<exists>zs. split_on CHR ''/'' n = ws @ zs"
proof -
  consider "n = rel_path ws" | s where "n = rel_path ws @ ''/'' @ s"
    using assms(3) by (auto simp: under_def has_prefix_iff)
  then show ?thesis
  proof cases
    case 1
    then show ?thesis using plain_bar(1) [OF assms(1,2)] by simp
  next
    case 2
    have "n = join_with ''/'' (ws @ split_on CHR ''/'' s)"
      using 2 assms(2) join_split [of "CHR ''/''" s] by (simp add: join_with_append rel_path_def)
    moreover have "split_on CHR ''/'' (join_with ''/'' (ws @ split_on CHR ''/'' s)) = ws @ split_on CHR ''/'' s"
      by (rule split_on_join) (use assms(1) split_on_parts in \<open>auto simp: plain_component_def\<close>)
    ultimately show ?thesis by auto
  qed
qed

lemma under_disjoint:
  assumes "under (rel_path (vs @ d # us)) n" and "under (rel_path (vs @ e # ws)) n" and "d \<noteq> e"
    and "\<forall>w \<in> set (vs @ d # us). plain_component w" and "\<forall>w \<in> set (vs @ e # ws). plain_component w"
  shows False
proof -
  obtain xs ys where "split_on CHR ''/'' n = (vs @ d # us) @ xs" "split_on CHR ''/'' n = (vs @ e # ws) @ ys"
    using under_components [OF assms(4) _ assms(1)] under_components [OF assms(5) _ assms(2)] by auto
  then show False using assms(3) by simp
qed

section \<open>The entries of one volume\<close>

definition relative_entry :: "string \<Rightarrow> string \<Rightarrow> bool" where
  "relative_entry absolute n \<longleftrightarrow> under (trim_prefix absolute ''/'') n"

text \<open>What a delete may change, and what its removal may change, the record being valid.\<close>

definition delete_entry :: "DetailedAllocationRecord \<Rightarrow> string \<Rightarrow> bool" where
  "delete_entry a n \<longleftrightarrow> Detailed_Validate a = None \<and> a_State a = StateDeleting
     \<and> (relative_entry (path_join [a_BasePath a, a_DirectoryName a]) n \<or> relative_entry (a_DeleteTargetPath a) n)"

definition delete_removal_entry :: "DetailedAllocationRecord \<Rightarrow> string \<Rightarrow> bool" where
  "delete_removal_entry a n \<longleftrightarrow> Detailed_Validate a = None \<and> a_State a = StateDeleting
     \<and> a_DeleteOperation a = DeleteOperationDelete \<and> a_DeleteRemoveStartedAt a \<noteq> [] \<and> relative_entry (a_DeleteTargetPath a) n"

definition gc_entry :: "DetailedAllocationRecord \<Rightarrow> string \<Rightarrow> bool" where
  "gc_entry a n \<longleftrightarrow> validateGCFilesystemAllocation a False = None
     \<and> (relative_entry (a_GCTargetPath a) n \<or> relative_entry (a_GCQuarantinePath a) n)"

definition gc_removal_entry :: "DetailedAllocationRecord \<Rightarrow> string \<Rightarrow> bool" where
  "gc_removal_entry a n \<longleftrightarrow> validateGCFilesystemAllocation a True = None \<and> relative_entry (a_GCQuarantinePath a) n"

lemma relative_to_parent_trim: "RelativeToParent p = Inr r \<Longrightarrow> r = trim_prefix p ''/''"
  by (auto simp: RelativeToParent_def Let_def)

lemma managed_target_trim: "validateManagedTarget b t m = Inr r \<Longrightarrow> r = trim_prefix t ''/''"
  by (auto simp: validateManagedTarget_def dest: relative_to_parent_trim)

lemma gc_source_trim: "validateGCSource b p = Inr (r, q) \<Longrightarrow> r = trim_prefix p ''/''"
  by (auto simp: validateGCSource_def Let_def dest: relative_to_parent_trim)

lemma logical_directory_trim:
  assumes "logicalDirectoryPaths b d = Inr (base, src)"
  shows "src = trim_prefix (path_join [b, d]) ''/''"
proof -
  have ok: "ValidateBasePath b = None" "ValidateDirectoryName d = None" using assms by (auto simp: logicalDirectoryPaths_def)
  obtain vs where vs: "b = abs_path vs" "vs \<noteq> []" "\<forall>w \<in> set vs. plain_component w" using base_components [OF ok(1)] by metis
  have "path_join [b, d] = abs_path (vs @ [d])"
    using path_join_below(1) [OF ok(1), of "[d]"] valid_directory_name(1) [OF ok(2)] abs_path_snoc [OF vs(2), of "[d]"] vs(1)
    by (simp add: join_with_def)
  then show ?thesis using logical_directory_paths(2) [OF assms vs] by (simp add: abs_rel_path trim_prefix_def has_prefix_def)
qed

section \<open>The contract of the boundary\<close>

locale lifecycle_fs =
  fixes fs :: "'w LifecycleFS" and entry :: "'w \<Rightarrow> string \<Rightarrow> 'e option"
  assumes mkdir: "lf_MkdirExclusive fs p mode w = (u, w') \<Longrightarrow> n \<noteq> p \<Longrightarrow> entry w' n = entry w n"
    and chown: "lf_ChownNoFollow fs p uid gid w = (u, w') \<Longrightarrow> n \<noteq> p \<Longrightarrow> entry w' n = entry w n"
    and chmod: "lf_ChmodNoFollow fs p mode w = (u, w') \<Longrightarrow> n \<noteq> p \<Longrightarrow> entry w' n = entry w n"
    and sync_node: "lf_SyncNode fs p w = (u, w') \<Longrightarrow> entry w' = entry w"
    and sync_dir: "lf_SyncDir fs p w = (u, w') \<Longrightarrow> entry w' = entry w"
    and rename: "lf_RenameNoReplace fs p q w = (u, w') \<Longrightarrow> \<not> under p n \<Longrightarrow> \<not> under q n \<Longrightarrow> entry w' n = entry w n"
    and remove: "lf_RemoveTreeNoFollow fs p w = (u, w') \<Longrightarrow> \<not> under p n \<Longrightarrow> entry w' n = entry w n"
    and inspect: "lf_InspectDirectory fs p w = (b, w') \<Longrightarrow> entry w' = entry w"
    and inspect_state: "lf_InspectDirectoryState fs = Some f \<Longrightarrow> f p w = (st, w') \<Longrightarrow> entry w' = entry w"
begin

text \<open>An action that changes only entries in a set.\<close>

definition confined :: "(string \<Rightarrow> bool) \<Rightarrow> ('w, 'a) act \<Rightarrow> bool" where
  "confined S m \<longleftrightarrow> (\<forall>w r w' n. m w = (r, w') \<longrightarrow> \<not> S n \<longrightarrow> entry w' n = entry w n)"

lemma confined_mono: "confined S m \<Longrightarrow> (\<And>n. S n \<Longrightarrow> T n) \<Longrightarrow> confined T m"
  unfolding confined_def by blast

lemma confined_lift: "confined S (lift r)" "confined S (ret x)" "confined S (fail e)"
  by (simp_all add: confined_def lift_def ret_def fail_def)

lemma confined_andthen: "confined S m \<Longrightarrow> (\<And>x. confined S (f x)) \<Longrightarrow> confined S (andthen m f)"
  unfolding confined_def andthen_def by (fastforce split: prod.splits sum.splits)

lemma confined_lift_andthen: "(\<And>x. r = Inr x \<Longrightarrow> confined S (f x)) \<Longrightarrow> confined S (andthen (lift r) f)"
  unfolding confined_def andthen_def lift_def by (auto split: sum.splits)

lemma confined_guard: "(c = None \<Longrightarrow> confined S m) \<Longrightarrow> confined S (guard c m)"
  by (cases c) (simp_all add: guard_def confined_lift)

lemma confined_wrapped: "confined S m \<Longrightarrow> confined S (wrapped msg m)"
  unfolding confined_def wrapped_def by (fastforce split: prod.splits)

lemma confined_if: "(b \<Longrightarrow> confined S m) \<Longrightarrow> (\<not> b \<Longrightarrow> confined S m') \<Longrightarrow> confined S (if b then m else m')"
  by simp

lemma confined_calls:
  "confined S (lf_SyncNode fs p)" "confined S (lf_SyncDir fs p)" "confined S (lf_InspectDirectory fs p)"
  "lf_InspectDirectoryState fs = Some f \<Longrightarrow> confined S (f p)"
  using sync_node sync_dir inspect inspect_state by (simp_all add: confined_def)

lemma confined_changes:
  "S p \<Longrightarrow> confined S (lf_MkdirExclusive fs p mode)" "S p \<Longrightarrow> confined S (lf_ChownNoFollow fs p uid gid)"
  "S p \<Longrightarrow> confined S (lf_ChmodNoFollow fs p mode)"
  "(\<And>n. under p n \<Longrightarrow> S n) \<Longrightarrow> confined S (lf_RemoveTreeNoFollow fs p)"
  "(\<And>n. under p n \<or> under q n \<Longrightarrow> S n) \<Longrightarrow> confined S (lf_RenameNoReplace fs p q)"
  using mkdir chown chmod remove rename unfolding confined_def by metis+

lemmas confined_rules = confined_lift confined_lift_andthen confined_andthen confined_guard confined_wrapped confined_if
  confined_calls confined_changes

lemma observe_confined: "confined S (Observe_delete fs a)" "confined S (ObserveGC fs a)"
  unfolding Observe_delete_def ObserveGC_def by (intro confined_rules)+

lemma sync_deleted_confined: "confined S (SyncDeletedDirectory fs b)"
  unfolding SyncDeletedDirectory_def by (intro confined_rules)

lemma remove_confined:
  assumes "\<And>r n. validateManagedTarget b t deletedDirectory = Inr r \<Longrightarrow> under r n \<Longrightarrow> S n"
  shows "confined S (RemoveQuarantine fs b t)"
  unfolding RemoveQuarantine_def using assms by (intro confined_rules) auto

lemma rename_confined:
  assumes "\<And>base src r n. logicalDirectoryPaths b d = Inr (base, src) \<Longrightarrow> validateManagedTarget b t m = Inr r \<Longrightarrow>
      under src n \<or> under r n \<Longrightarrow> S n"
  shows "confined S (renameToManagedDirectory fs b d t m)"
  unfolding renameToManagedDirectory_def split_beta using assms
  by (intro confined_rules) (auto simp: prod_eq_iff)

lemma quarantine_gc_confined:
  assumes "\<And>src parent r n. validateGCSource b p = Inr (src, parent) \<Longrightarrow> validateManagedTarget b t deletedDirectory = Inr r \<Longrightarrow>
      under src n \<or> under r n \<Longrightarrow> S n"
  shows "confined S (QuarantineForGC fs b p t)"
  unfolding QuarantineForGC_def split_beta using assms
  by (intro confined_rules) (auto simp: prod_eq_iff)


lemma delete_prepare_confined: "confined (delete_entry a) (Delete_PrepareDisposition fs a)"
proof -
  have rest: "confined (delete_entry a) (renameToManagedDirectory fs (a_BasePath a) (a_DirectoryName a) (a_DeleteTargetPath a) m)"
    if "Detailed_Validate a = None" "a_State a = StateDeleting" for m
    using that by (intro rename_confined)
      (auto simp: delete_entry_def relative_entry_def dest: logical_directory_trim managed_target_trim)
  show ?thesis
  proof (cases "Detailed_Validate a = None \<and> a_State a = StateDeleting")
    case True
    then show ?thesis
      unfolding Delete_PrepareDisposition_def Archive_def Quarantine_def Let_def
      by (intro confined_rules observe_confined rest) auto
  next
    case False
    then have "confined S (Delete_PrepareDisposition fs a)" for S
      by (auto simp: Delete_PrepareDisposition_def Observe_delete_def guard_def andthen_def fail_def confined_def ensure_def split: option.splits)
    then show ?thesis .
  qed
qed

lemma delete_remove_confined: "confined (delete_removal_entry a) (Delete_RemoveQuarantine fs a)"
proof (cases "Detailed_Validate a = None")
  case True
  then show ?thesis
    unfolding Delete_RemoveQuarantine_def
    by (intro confined_rules observe_confined sync_deleted_confined remove_confined)
      (auto simp: delete_removal_entry_def relative_entry_def dest: managed_target_trim)
next
  case False
  then have "confined S (Delete_RemoveQuarantine fs a)" for S
    by (auto simp: Delete_RemoveQuarantine_def Observe_delete_def guard_def andthen_def fail_def confined_def ensure_def split: option.splits)
  then show ?thesis .
qed

lemma gc_prepare_confined: "confined (gc_entry a) (GC_PrepareQuarantine fs a)"
  unfolding GC_PrepareQuarantine_def Let_def
  by (intro confined_rules observe_confined quarantine_gc_confined)
    (auto simp: gc_entry_def relative_entry_def dest: gc_source_trim managed_target_trim)

lemma gc_remove_confined: "confined (gc_removal_entry a) (GC_RemoveQuarantine fs a)"
  unfolding GC_RemoveQuarantine_def
  by (intro confined_rules observe_confined sync_deleted_confined remove_confined)
    (auto simp: gc_removal_entry_def relative_entry_def dest: managed_target_trim)

end

section \<open>The in-memory tree keeps the contract\<close>

lemma map_of_filter_key: "map_of (filter (\<lambda>(name, _). P name) xs) n = (if P n then map_of xs n else None)"
  by (induction xs) auto

lemma map_of_fold_update:
  "n \<notin> fst ` set ys \<Longrightarrow> map_of (fold (\<lambda>(name, entry). AList.update name entry) ys xs) n = map_of xs n"
  by (induction ys arbitrary: xs) (auto simp: update_conv')

lemma moved_under:
  assumes "n \<in> fst ` set (moved_entries source destination es)"
  shows "under destination n"
proof -
  obtain name where "under source name" "n = destination @ trim_prefix name source" using assms by (auto simp: moved_entries_def)
  then show ?thesis by (auto simp: under_def trim_prefix_def has_prefix_iff)
qed

lemmas tree_defs = tree_fs_def Tree_MkdirExclusive_def Tree_ChownNoFollow_def Tree_ChmodNoFollow_def Tree_SyncNode_def
  Tree_RenameNoReplace_def Tree_SyncDir_def Tree_RemoveTreeNoFollow_def entry_at_def set_entry_def log_operation_def

lemma tree_inspect: "Tree_InspectDirectory p w = (b, w') \<Longrightarrow> w' = w"
  by (auto simp: Tree_InspectDirectory_def Let_def guard_def fail_def ret_def split: option.splits)

lemma tree_inspect_state: "Tree_InspectDirectoryState p w = (st, w') \<Longrightarrow> w' = w"
  by (auto simp: Tree_InspectDirectoryState_def andthen_def dest: tree_inspect split: prod.splits sum.splits option.splits if_splits)

interpretation tree: lifecycle_fs tree_fs entry_at
proof unfold_locales
  fix p q n :: string and w w' and u :: "unit res"
  assume run: "lf_RenameNoReplace tree_fs p q w = (u, w')" and n: "\<not> under p n" "\<not> under q n"
  have "n \<notin> fst ` set (moved_entries p q (fl_entries w))" using moved_under n(2) by blast
  then show "entry_at w' n = entry_at w n"
    using run n(1) by (auto simp: tree_defs guard_run map_of_fold_update map_of_filter_key split: option.splits)
qed (auto simp: tree_defs guard_run map_of_filter_key update_conv' split: option.splits dest: tree_inspect tree_inspect_state)

section \<open>Isolation of volumes\<close>

lemma directory_path:
  assumes "ValidateBasePath b = None" and "ValidateDirectoryName d = None" and "b = abs_path vs" "vs \<noteq> []"
  shows "path_join [b, d] = abs_path (vs @ [d])"
  using path_join_below(1) [OF assms(1), of "[d]"] valid_directory_name(1) [OF assms(2)] abs_path_snoc [OF assms(4), of "[d]"] assms(3)
  by (simp add: join_with_def)

lemma lifecycle_target_components:
  assumes "ManagedLifecycleTarget b m d lv ts op = Inr t" and "b = abs_path vs" "vs \<noteq> []"
  shows "t = abs_path (vs @ [m, lifecycle_component d lv ts op])" "plain_component m"
    "plain_component (lifecycle_component d lv ts op)" "m \<in> {''.archived'', ''.deleted''}"
proof -
  note e = lifecycle_target_eq [OF assms(1)]
  show "t = abs_path (vs @ [m, lifecycle_component d lv ts op])"
    using e(1) abs_path_snoc [OF assms(3), of "[m, lifecycle_component d lv ts op]"] assms(2) by (simp add: join_with_def)
  show "plain_component m" "m \<in> {''.archived'', ''.deleted''}" using e(5) by (auto simp: plain_component_def)
  show "plain_component (lifecycle_component d lv ts op)" by (rule e(8))
qed

text \<open>The paths that a valid record in a deleting or terminal state names, by their components.\<close>

definition volume_path :: "DetailedAllocationRecord \<Rightarrow> string list \<Rightarrow> string \<Rightarrow> bool" where
  "volume_path a vs p \<longleftrightarrow> p = abs_path (vs @ [a_DirectoryName a])
     \<or> (\<exists>m ts op. p = abs_path (vs @ [m, lifecycle_component (a_DirectoryName a) (a_LogicalVolumeID a) ts op])
          \<and> m \<in> {''.archived'', ''.deleted''}
          \<and> plain_component (lifecycle_component (a_DirectoryName a) (a_LogicalVolumeID a) ts op))"

lemma valid_allocation_paths:
  assumes "Detailed_Validate a = None"
  shows "ValidateBasePath (a_BasePath a) = None" "ValidateDirectoryName (a_DirectoryName a) = None"
proof -
  have "MappingHash (allocation_mapping a) = Inr (a_MappingHash a)"
    using detailed_valid_lifecycle(1) [OF assms] by (simp add: identity_check_def)
  from mapping_hash_mapping [OF this]
  show "ValidateBasePath (a_BasePath a) = None" "ValidateDirectoryName (a_DirectoryName a) = None"
    by (simp_all add: Mapping_Validate_def allocation_mapping_def)
qed

lemma prepared_paths:
  assumes v: "Detailed_Validate a = None" and pd: "validatePreparedDelete a = None" and vs: "a_BasePath a = abs_path vs" "vs \<noteq> []"
  shows "volume_path a vs (path_join [a_BasePath a, a_DirectoryName a])" "volume_path a vs (a_DeleteTargetPath a)"
proof -
  note ok = valid_allocation_paths [OF v]
  note dir = directory_path [OF ok vs]
  show "volume_path a vs (path_join [a_BasePath a, a_DirectoryName a])" using dir by (simp add: volume_path_def)
  show "volume_path a vs (a_DeleteTargetPath a)"
    using prepared_delete_targets [OF pd] lifecycle_target_components [OF _ vs] dir
    unfolding volume_path_def by (metis insertE singletonD)
qed

lemma gc_progress_paths:
  assumes "Detailed_Validate a = None" and "a_GCOperationID a \<noteq> []"
  shows "ManagedLifecycleTarget (a_BasePath a) ''.deleted'' (a_DirectoryName a) (a_LogicalVolumeID a) (a_GCStartedAt a)
      (a_GCOperationID a) = Inr (a_GCQuarantinePath a)"
    and "a_GCExpectedState a = StateArchived \<Longrightarrow> a_GCTargetPath a = a_ArchivedPath a"
    and "a_GCExpectedState a = StateRetained \<Longrightarrow> a_GCTargetPath a = a_RetainedPath a"
proof -
  have "present_count [a_GCOperationID a, a_GCTargetPath a, a_GCQuarantinePath a, a_GCStartedAt a] \<noteq> 0"
    using assms(2) by (simp add: present_count_def)
  with detailed_valid_lifecycle(4) [OF assms(1)]
  show "ManagedLifecycleTarget (a_BasePath a) ''.deleted'' (a_DirectoryName a) (a_LogicalVolumeID a) (a_GCStartedAt a)
      (a_GCOperationID a) = Inr (a_GCQuarantinePath a)"
    "a_GCExpectedState a = StateArchived \<Longrightarrow> a_GCTargetPath a = a_ArchivedPath a"
    "a_GCExpectedState a = StateRetained \<Longrightarrow> a_GCTargetPath a = a_RetainedPath a"
    by (auto simp: validateGCFields_def Let_def state_neqs split: if_splits)
qed

lemma gc_paths:
  assumes g: "validateGCFilesystemAllocation a rs = None" and vs: "a_BasePath a = abs_path vs" "vs \<noteq> []"
  shows "volume_path a vs (a_GCTargetPath a)" "volume_path a vs (a_GCQuarantinePath a)"
proof -
  have v: "Detailed_Validate a = None" and st: "a_State a = a_GCExpectedState a" "a_State a = StateArchived \<or> a_State a = StateRetained"
    and op: "a_GCOperationID a \<noteq> []" using g by (auto simp: validateGCFilesystemAllocation_def)
  have pd: "validatePreparedDelete a = None" and t: "a_GCTargetPath a = a_DeleteTargetPath a"
    using detailed_valid_lifecycle(3) [OF v] st gc_progress_paths(2,3) [OF v op]
    by (auto simp: validateStateFields_def state_neqs split: if_splits)
  show "volume_path a vs (a_GCTargetPath a)" using prepared_paths(2) [OF v pd vs] t by simp
  show "volume_path a vs (a_GCQuarantinePath a)"
    using lifecycle_target_components [OF gc_progress_paths(1) [OF v op] vs] unfolding volume_path_def by blast
qed

lemma volume_path_disjoint:
  assumes p: "volume_path a vs p" and n: "relative_entry p n" and o': "under (rel_path (vs @ [other])) n"
    and ok: "ValidateDirectoryName (a_DirectoryName a) = None" "ValidateDirectoryName other = None" "other \<noteq> a_DirectoryName a"
    and vs: "\<forall>w \<in> set vs. plain_component w"
  shows False
proof -
  note plain = valid_directory_name(1) [OF ok(1)] valid_directory_name(1) [OF ok(2)]
  have trim: "trim_prefix (abs_path ws) ''/'' = rel_path ws" for ws
    by (simp add: abs_rel_path trim_prefix_def has_prefix_def)
  have dots: "other \<noteq> ''.archived''" "other \<noteq> ''.deleted''" using valid_directory_name(2) [OF ok(2)] by (auto simp: has_prefix_def)
  from p show False unfolding volume_path_def
  proof (elim disjE exE conjE)
    assume "p = abs_path (vs @ [a_DirectoryName a])"
    then have "under (rel_path (vs @ [a_DirectoryName a])) n" using n by (simp add: relative_entry_def trim)
    from under_disjoint [OF this o'] ok(3) vs plain show False by auto
  next
    fix m ts op
    let ?c = "lifecycle_component (a_DirectoryName a) (a_LogicalVolumeID a) ts op"
    assume a: "p = abs_path (vs @ [m, ?c])" "m \<in> {''.archived'', ''.deleted''}" "plain_component ?c"
    have "under (rel_path (vs @ [m, ?c])) n" using n a(1) by (simp add: relative_entry_def trim)
    moreover have "plain_component m" "m \<noteq> other" using a(2) dots by (auto simp: plain_component_def)
    ultimately show False using under_disjoint [of vs m "[?c]" n other "[]"] o' a(3) vs plain by auto
  qed
qed

lemma entries_disjoint:
  assumes "delete_entry a n \<or> gc_entry a n" and paths: "logicalDirectoryPaths (a_BasePath a) other = Inr (base, dest)"
    and "under dest n" and "other \<noteq> a_DirectoryName a"
  shows False
proof -
  have v: "Detailed_Validate a = None"
    using assms(1) by (auto simp: delete_entry_def gc_entry_def validateGCFilesystemAllocation_def)
  note ok = valid_allocation_paths [OF v]
  obtain vs where vs: "a_BasePath a = abs_path vs" "vs \<noteq> []" "\<forall>w \<in> set vs. plain_component w"
    using base_components [OF ok(1)] by metis
  have o': "under (rel_path (vs @ [other])) n" using logical_directory_paths(2) [OF paths vs] assms(3) by simp
  have od: "ValidateDirectoryName other = None" using paths by (auto simp: logicalDirectoryPaths_def)
  note no = volume_path_disjoint [OF _ _ o' ok(2) od assms(4) vs(3)]
  show False
  proof (cases "delete_entry a n")
    case True
    then have "validatePreparedDelete a = None"
      using detailed_valid_lifecycle(3) [OF v] by (auto simp: delete_entry_def validateStateFields_def state_neqs split: if_splits)
    from prepared_paths [OF v this vs(1,2)] no True show False by (auto simp: delete_entry_def)
  next
    case False
    then show False using assms(1) gc_paths [OF _ vs(1,2)] no by (auto simp: gc_entry_def)
  qed
qed

lemma gc_removal_is_gc: "gc_removal_entry a n \<Longrightarrow> gc_entry a n"
  by (auto simp: gc_removal_entry_def gc_entry_def validateGCFilesystemAllocation_def)

lemma delete_removal_is_delete: "delete_removal_entry a n \<Longrightarrow> delete_entry a n"
  by (auto simp: delete_removal_entry_def delete_entry_def)

text \<open>
  (C5) No disposal of one volume touches another. Whatever allocation record the delete and
  garbage-collection filesystems are called with, and whatever they return, every entry at or below
  the data directory of any other volume of the same base path is unchanged.
\<close>

theorem volume_data_isolated:
  assumes "operation \<in> {Delete_PrepareDisposition tree_fs a, Delete_RemoveQuarantine tree_fs a,
      GC_PrepareQuarantine tree_fs a, GC_RemoveQuarantine tree_fs a}"
    and "operation fs = (r, fs')" and "logicalDirectoryPaths (a_BasePath a) other = Inr (base, dest)"
    and "other \<noteq> a_DirectoryName a" and "under dest n"
  shows "entry_at fs' n = entry_at fs n"
proof -
  have "\<not> delete_entry a n" "\<not> gc_entry a n" using entries_disjoint [OF _ assms(3,5,4)] by blast+
  moreover have "\<not> delete_removal_entry a n" "\<not> gc_removal_entry a n"
    using calculation gc_removal_is_gc delete_removal_is_delete by blast+
  moreover note tree.delete_prepare_confined [of a] tree.delete_remove_confined [of a]
    tree.gc_prepare_confined [of a] tree.gc_remove_confined [of a]
  ultimately show ?thesis using assms(1,2) unfolding tree.confined_def by blast
qed

lemma logical_directory_accepted:
  assumes ok: "ValidateBasePath b = None" "ValidateDirectoryName d = None" and vs: "b = abs_path vs" "vs \<noteq> []" "\<forall>w \<in> set vs. plain_component w"
  shows "logicalDirectoryPaths b d = Inr (rel_path vs, rel_path (vs @ [d]))"
proof -
  have d: "plain_component d" "CHR 0x00 \<notin> set d"
    using valid_directory_name(1) [OF ok(2)] ok(2)
    by (auto simp: ValidateDirectoryName_def safeDirectoryPattern_def list_all_iff char_class_defs)
  have nul: "CHR 0x00 \<notin> set (rel_path vs)" using ok(1) vs(1) by (simp add: ValidateBasePath_def Let_def abs_rel_path)
  have rel: "RelativeToParent b = Inr (rel_path vs)"
    using base_components [OF ok(1)] relative_abs_path vs(1) by metis
  have join: "rel_path (vs @ [d]) = rel_path vs @ ''/'' @ d" "join_with ''/'' [rel_path vs, d] = rel_path (vs @ [d])"
    using vs(2) by (simp_all add: rel_path_def join_with_append) (simp_all add: join_with_def)
  have all: "\<forall>w \<in> set (vs @ [d]). plain_component w" using vs(3) d(1) by simp
  have "ValidateRelative (rel_path vs) = None" by (rule ValidateRelative_rel_path [OF vs(3,2) nul])
  moreover have "ValidateRelative (rel_path (vs @ [d])) = None"
    by (rule ValidateRelative_rel_path [OF all]) (use nul d(2) join(1) in auto)
  moreover have "path_join [rel_path vs, d] = rel_path (vs @ [d])"
    using path_clean_rel_path [OF all] plain_bar(2) [OF vs(3,2)] d(1) join(2) by (simp add: path_join_def Let_def plain_component_def)
  ultimately show ?thesis
    using ok rel d(1) by (simp add: logicalDirectoryPaths_def JoinRelative_def plain_component_def)
qed

lemma sample_base_components: "sample_base = abs_path [''volumes'']" "\<forall>w \<in> set [''volumes'']. plain_component w"
  by (simp_all add: sample_base_def abs_path_def join_with_def plain_component_def)

lemma sample_directory_paths:
  "logicalDirectoryPaths sample_base ''other'' = Inr (''volumes'', ''volumes/other'')"
  "logicalDirectoryPaths sample_base sample_dir = Inr (''volumes'', ''volumes/'' @ sample_dir)"
proof -
  have "ValidateDirectoryName ''other'' = None"
    by (simp add: ValidateDirectoryName_def safeDirectoryPattern_def char_class_defs MaxDirectoryNameBytes_def
        MaxContextEntryBytes_def reservedDirectoryNames_def ascii_eval)
  then show "logicalDirectoryPaths sample_base ''other'' = Inr (''volumes'', ''volumes/other'')"
    "logicalDirectoryPaths sample_base sample_dir = Inr (''volumes'', ''volumes/'' @ sample_dir)"
    using logical_directory_accepted [OF sample_base_ok _ sample_base_components(1) _ sample_base_components(2)] sample_dir_ok
    by (simp_all add: rel_path_def join_with_def)
qed

definition sample_tree :: FakeLifecycleFS where
  "sample_tree = NewFakeLifecycleFS\<lparr>fl_entries := map (\<lambda>n. (n, \<lparr>le_Mode = 0, le_UID = 0, le_GID = 0, le_Symlink = False, le_MountBoundary = False\<rparr>))
     [''volumes'', ''volumes/.archived'', ''volumes/.deleted'', ''volumes/'' @ sample_dir, ''volumes/other'']\<rparr>"

theorem volume_data_isolated_witness:
  "entry_at (snd (Delete_PrepareDisposition tree_fs sample_deleting sample_tree)) ''volumes/other'' = entry_at sample_tree ''volumes/other''"
proof (rule volume_data_isolated [of _ sample_deleting _ "fst (Delete_PrepareDisposition tree_fs sample_deleting sample_tree)" _ "''other''"])
  show "logicalDirectoryPaths (a_BasePath sample_deleting) ''other'' = Inr (''volumes'', ''volumes/other'')"
    using sample_directory_paths(1) by (simp add: sample_deleting_def sample_allocation_def)
qed (auto simp: under_def sample_deleting_def sample_allocation_def sample_dir_def)

text \<open>
  (C6) Data is removed only below the quarantine directory and only with evidence. An entry that
  \<^verbatim>\<open>RemoveQuarantine\<close> of the delete filesystem changes lies at or below the \<^verbatim>\<open>.deleted\<close> path that is derived
  from the delete operation of a valid record, whose remove-start timestamp is set.
\<close>

theorem removal_confined:
  "entry_at (snd (Delete_RemoveQuarantine tree_fs a fs)) n = entry_at fs n
   \<or> Detailed_Validate a = None \<and> a_State a = StateDeleting \<and> a_DeleteOperation a = DeleteOperationDelete
     \<and> a_DeleteRemoveStartedAt a \<noteq> []
     \<and> (\<exists>target. ManagedLifecycleTarget (a_BasePath a) ''.deleted'' (a_DirectoryName a) (a_LogicalVolumeID a)
           (a_DeletePreparedAt a) (a_DeleteOperationID a) = Inr target \<and> under (trim_prefix target ''/'') n)"
proof (cases "delete_removal_entry a n")
  case True
  then have v: "Detailed_Validate a = None" "a_State a = StateDeleting" by (simp_all add: delete_removal_entry_def)
  then have "validatePreparedDelete a = None"
    using detailed_valid_lifecycle(3) [OF v(1)] by (auto simp: validateStateFields_def state_neqs split: if_splits)
  from prepared_delete_targets(3) [OF this] True show ?thesis by (auto simp: delete_removal_entry_def relative_entry_def)
next
  case False
  then show ?thesis using tree.delete_remove_confined [of a] unfolding tree.confined_def by (metis prod.collapse)
qed

section \<open>A rename keeps the data\<close>

lemma map_of_moved:
  assumes s: "s = [] \<or> has_prefix s ''/''"
  shows "map_of (moved_entries source destination es) (destination @ s) = map_of es (source @ s)"
proof (induction es)
  case (Cons x es)
  obtain name e where x: "x = (name, e)" by (cases x)
  have "under source name \<Longrightarrow> destination @ trim_prefix name source = destination @ s \<longleftrightarrow> name = source @ s"
    by (auto simp: under_def trim_prefix_def has_prefix_iff)
  moreover have "name = source @ s \<Longrightarrow> under source name" using s by (auto simp: under_def has_prefix_iff)
  ultimately show ?case using Cons.IH unfolding x by (auto simp: moved_entries_def)
qed (simp add: moved_entries_def)

lemma fold_update_hit:
  assumes "distinct (map fst ys)" and "map_of ys n = Some e"
  shows "map_of (fold (\<lambda>(name, entry). AList.update name entry) ys xs) n = Some e"
  using assms
proof (induction ys arbitrary: xs)
  case (Cons y ys)
  obtain name v where y: "y = (name, v)" by (cases y)
  show ?case
  proof (cases "n = name")
    case True
    then have "n \<notin> fst ` set ys" using Cons.prems(1) y by simp
    then show ?thesis using True Cons.prems(2) y by (simp add: map_of_fold_update update_conv')
  next
    case False
    then show ?thesis using Cons.IH [of "AList.update name v xs"] Cons.prems unfolding y by simp
  qed
qed simp

lemma moved_distinct:
  assumes "distinct (map fst es)"
  shows "distinct (map fst (moved_entries source destination es))"
proof -
  have "inj_on (\<lambda>name. destination @ trim_prefix name source) {name. under source name}"
    by (auto simp: inj_on_def under_def trim_prefix_def has_prefix_iff)
  moreover have "map fst (moved_entries source destination es)
      = map (\<lambda>name. destination @ trim_prefix name source) (filter (under source) (map fst es))"
    by (simp add: moved_entries_def filter_map comp_def case_prod_unfold)
  ultimately show ?thesis
    using assms by (auto simp: distinct_map inj_on_def)
qed

lemma tree_rename_moves:
  assumes run: "Tree_RenameNoReplace source destination fs = (Inr (), fs')" and d: "distinct (map fst (fl_entries fs))"
    and s: "s = [] \<or> has_prefix s ''/''"
  shows "entry_at fs (source @ s) = Some e \<Longrightarrow> entry_at fs' (destination @ s) = Some e"
    and "\<not> under destination (source @ s) \<Longrightarrow> entry_at fs' (source @ s) = None"
proof -
  have fs': "entry_at fs' n = map_of (fold (\<lambda>(name, entry). AList.update name entry) (moved_entries source destination (fl_entries fs))
      (filter (\<lambda>(name, _). \<not> under source name) (fl_entries fs))) n" for n
    using run by (auto simp: Tree_RenameNoReplace_def guard_run entry_at_def log_operation_def split: option.splits)
  show "entry_at fs' (destination @ s) = Some e" if "entry_at fs (source @ s) = Some e"
    unfolding fs' by (rule fold_update_hit [OF moved_distinct [OF d]]) (use that in \<open>simp add: entry_at_def map_of_moved [OF s]\<close>)
  have u: "under source (source @ s)" using s by (auto simp: under_def has_prefix_iff)
  show "entry_at fs' (source @ s) = None" if "\<not> under destination (source @ s)"
  proof -
    have "source @ s \<notin> fst ` set (moved_entries source destination (fl_entries fs))" using moved_under that by blast
    then show ?thesis unfolding fs' using u by (simp add: map_of_fold_update map_of_filter_key)
  qed
qed

text \<open>
  (C7) An archive keeps all data. When \<^verbatim>\<open>Archive\<close> succeeds, every entry of the volume's directory is at
  the same place below the archive target, with its mode, owner and flags, and nothing is left at
  the source.
\<close>

theorem archive_keeps_data:
  assumes run: "Archive tree_fs basePath directoryName archivedPath fs = (Inr (), fs')"
    and paths: "logicalDirectoryPaths basePath directoryName = Inr (base, source)"
      "validateManagedTarget basePath archivedPath archivedDirectory = Inr target"
    and d: "distinct (map fst (fl_entries fs))" and s: "s = [] \<or> has_prefix s ''/''"
  shows "(\<forall>e. entry_at fs (source @ s) = Some e \<longrightarrow> entry_at fs' (target @ s) = Some e) \<and> entry_at fs' (source @ s) = None"
proof -
  obtain u fs1 fs2 v where ren: "Tree_RenameNoReplace source target fs = (Inr u, fs1)"
    and sync: "lf_SyncDir tree_fs base fs1 = (Inr v, fs2)" "lf_SyncDir tree_fs (path_join [base, archivedDirectory]) fs2 = (Inr (), fs')"
    using run by (auto simp: Archive_def renameToManagedDirectory_def paths andthen_def lift_def wrapped_def tree_fs_def
        split: prod.splits sum.splits)
  then have ren: "Tree_RenameNoReplace source target fs = (Inr (), fs1)" and e: "entry_at fs' = entry_at fs1"
    using tree.sync_dir [OF sync(1)] tree.sync_dir [OF sync(2)] by simp_all
  have base: "ValidateBasePath basePath = None" using paths(1) by (auto simp: logicalDirectoryPaths_def)
  obtain vs where vs: "basePath = abs_path vs" "vs \<noteq> []" "\<forall>w \<in> set vs. plain_component w"
    using base_components [OF base] by metis
  note src = logical_directory_paths(2,3) [OF paths(1) vs]
  obtain c where c: "target = rel_path (vs @ [archivedDirectory, c])" "plain_component c" "plain_component archivedDirectory"
    using managed_target_path [OF paths(2) vs] by metis
  have "ValidateDirectoryName directoryName = None" using paths(1) by (auto simp: logicalDirectoryPaths_def)
  from valid_directory_name(2) [OF this] have "directoryName \<noteq> archivedDirectory"
    by (auto simp: archivedDirectory_def has_prefix_def)
  moreover have "under source (source @ s)" using s by (auto simp: under_def has_prefix_iff)
  ultimately have "\<not> under target (source @ s)"
    using under_disjoint [of vs archivedDirectory "[c]" "source @ s" directoryName "[]"] src c vs(3) by auto
  then show ?thesis using tree_rename_moves [OF ren d s] e by auto
qed


section \<open>Computed targets are accepted\<close>

lemma canonical_timestamp_chars:
  assumes "canonical_rfc3339 ts" and "c \<in> set ts"
  shows "is_digit c \<or> c \<in> set ''-:TZ.''"
proof -
  obtain t where t: "format_rfc3339 t = ts" "parse_rfc3339 ts = Some t"
    using assms by (auto simp: canonical_rfc3339_def split: option.splits)
  have digits: "c \<in> set (pad_zeros k (format_uint n)) \<Longrightarrow> is_digit c" for k n c
    using format_uint_digits [of c n] by (auto simp: pad_zeros_def char_class_defs)
  have "list_all is_digit (t_nanos t)"
    using t(2) unfolding parse_rfc3339_def Let_def
    by (auto simp: fraction_nanos_digits simp del: list_all_iff split: if_splits)
  then have "c \<in> set (trim_right ''0'' (t_nanos t)) \<Longrightarrow> is_digit c" for c
    using set_trim_right [of "''0''" "t_nanos t"] by (fastforce simp: list_all_iff)
  then show ?thesis
    using assms(2) digits t(1) [symmetric] by (auto simp: format_rfc3339_def Let_def split: if_splits)
qed

definition managed_char :: "char \<Rightarrow> bool" where
  "managed_char c \<longleftrightarrow> is_lower_alnum c \<or> c \<in> set ''-_.''"

lemma managed_char_rune: "managed_char c \<Longrightarrow> managed_rune (byte c) \<and> byte c < 128"
  by (auto simp: managed_char_def managed_rune_def char_class_defs in_range_def)

lemma lifecycle_component_chars:
  assumes "ManagedLifecycleTarget b m d lv ts op = Inr t"
  shows "list_all managed_char (lifecycle_component d lv ts op)" "no_dots (lifecycle_component d lv ts op)"
proof -
  let ?ts = "remove_chars '':.-'' (lower_ascii ts)"
  have ok: "ValidateDirectoryName d = None" "ValidateLogicalVolumeID lv = None" "canonical_rfc3339 ts" "ValidateOperationID op = None"
    using assms by (auto simp: ManagedLifecycleTarget_def validateRequiredTimestamp_def)
  have d: "list_all managed_char d" "no_dots d"
    using ok(1) by (auto simp: ValidateDirectoryName_def safeDirectoryPattern_def managed_char_def contains_dots_iff list_all_iff)
  have "list_all ident_char ''lv-''" by (simp add: ident_char_def char_class_defs)
  then have ids: "list_all ident_char lv" "list_all ident_char op"
    using ok(2,4) hash_pattern_chars uuid_chars by (simp_all add: ValidateLogicalVolumeID_def ValidateOperationID_def)
  then have chars: "list_all managed_char lv" "list_all managed_char op" "CHR ''.'' \<notin> set lv" "CHR ''.'' \<notin> set op"
    by (auto simp: list_all_iff ident_char_def managed_char_def char_class_defs)
  have low: "managed_char c \<and> c \<noteq> CHR ''.''" if c: "c \<in> set ?ts" for c
  proof -
    obtain x where x: "x \<in> set ts" "lower_ascii [x] = [c]" "c \<notin> set '':.-''"
      using c by (auto simp: remove_chars_def lower_ascii_def)
    then show ?thesis using canonical_timestamp_chars [OF ok(3) x(1)]
      by (auto simp: lower_ascii_def managed_char_def char_class_defs)
  qed
  then have ts: "list_all managed_char ?ts" "CHR ''.'' \<notin> set ?ts" by (auto simp: list_all_iff)
  show "list_all managed_char (lifecycle_component d lv ts op)"
    using d chars ts by (simp add: lifecycle_component_def) (simp add: managed_char_def)
  define rest where "rest = lv @ ''-'' @ ?ts @ ''-'' @ op"
  have "CHR ''.'' \<notin> set (''-'' @ rest)" using chars ts by (simp add: rest_def)
  from no_dots_free [OF this] have "no_dots (d @ ''-'' @ rest)" using d(2) by (simp add: no_dots_append)
  then show "no_dots (lifecycle_component d lv ts op)" by (simp add: lifecycle_component_def rest_def)
qed

lemma lifecycle_component_managed:
  assumes "ManagedLifecycleTarget b m d lv ts op = Inr t"
  shows "validateManagedComponent (lifecycle_component d lv ts op) = None"
proof -
  let ?c = "lifecycle_component d lv ts op"
  have ok: "ValidateDirectoryName d = None" "length ?c \<le> maxFilesystemComponentBytes"
    using assms by (auto simp: ManagedLifecycleTarget_def)
  then obtain x r where d: "d = x # r" "is_lower_alnum x"
    by (cases d) (auto simp: ValidateDirectoryName_def safeDirectoryPattern_def)
  note all = lifecycle_component_chars(1) [OF assms] and dots = lifecycle_component_chars(2) [OF assms]
  have ascii: "\<forall>c \<in> set ?c. byte c < 128" using all managed_char_rune by (auto simp: list_all_iff)
  have "runes ?c = map byte ?c" using scan_ascii [OF ascii] by (simp add: runes_def comp_def)
  moreover obtain s where "?c = x # s" using d(1) by (simp add: lifecycle_component_def)
  moreover have "x \<noteq> CHR ''.''" using d(2) by (auto simp: char_class_defs)
  moreover have "\<forall>c \<in> set ?c. managed_rune (byte c)" using all managed_char_rune by (auto simp: list_all_iff)
  ultimately show ?thesis
    using valid_string_ascii [OF ascii] ok(2) dots
    by (simp add: validateManagedComponent_def contains_dots_iff archivedDirectory_def deletedDirectory_def metadataDirectory_def)
qed

lemma lifecycle_target_accepted:
  assumes "ManagedLifecycleTarget b m d lv ts op = Inr t"
  shows "validateManagedTarget b t m = Inr (trim_prefix t ''/'')"
proof -
  note e = lifecycle_target_eq [OF assms]
  obtain vs where vs: "b = abs_path vs" "vs \<noteq> []" "\<forall>w \<in> set vs. plain_component w" "CHR 0x00 \<notin> set (rel_path vs)"
    using base_components [OF e(3)] by metis
  note c = lifecycle_target_components [OF assms vs(1,2)]
  let ?ws = "vs @ [m, lifecycle_component d lv ts op]"
  have plain: "\<forall>w \<in> set ?ws. plain_component w" "\<forall>w \<in> set (vs @ [m]). plain_component w" using vs(3) c(2,3) by auto
  have dir: "path_dir t = path_join [b, m]"
    using path_dir_abs_path [of "vs @ [m]"] plain(1) c(1) path_join_below(1) [OF e(3), of "[m]"] c(2)
      abs_path_snoc [OF vs(2), of "[m]"] vs(1) by (simp add: join_with_def)
  have base: "path_base t = lifecycle_component d lv ts op" using path_base_abs_path [OF c(3), of "vs @ [m]"] c(1) by simp
  have "CHR 0x00 \<notin> set t"
    using lifecycle_component_chars(1) [OF assms] e(1,5) vs(1,4)
    by (auto simp: abs_rel_path list_all_iff managed_char_def char_class_defs)
  then have "ValidateRelative (rel_path ?ws) = None" by (intro ValidateRelative_rel_path) (use plain c(1) in \<open>auto simp: abs_rel_path\<close>)
  moreover have "rel_path ?ws \<noteq> []" by (rule plain_bar(2)) (use plain in auto)
  ultimately have "RelativeToParent t = Inr (trim_prefix t ''/'')"
    using e(2) c(1) by (simp add: RelativeToParent_def abs_rel_path trim_prefix_def has_prefix_def)
  then show ?thesis
    using e(2,3,5) dir base lifecycle_component_managed [OF assms] c(1)
    by (auto simp: validateManagedTarget_def archivedDirectory_def deletedDirectory_def abs_rel_path has_prefix_def)
qed


abbreviation "sample_archive \<equiv> sample_target ''.archived'' sample_uuid"

lemma sample_archive_path:
  obtains c where "trim_prefix sample_archive ''/'' = ''volumes/.archived/'' @ c" "plain_component c"
    "validateManagedTarget sample_base sample_archive archivedDirectory = Inr (''volumes/.archived/'' @ c)"
    "ValidateRelative (''volumes/.archived/'' @ c) = None" "path_dir (''volumes/.archived/'' @ c) = ''volumes/.archived''"
proof -
  have t: "ManagedLifecycleTarget sample_base ''.archived'' sample_dir sample_volume sample_time sample_uuid = Inr sample_archive"
    by (rule sample_target_managed) simp_all
  let ?c = "lifecycle_component sample_dir sample_volume sample_time sample_uuid"
  note c = lifecycle_target_components [OF t sample_base_components(1)]
  have trim: "trim_prefix sample_archive ''/'' = ''volumes/.archived/'' @ ?c"
    using c(1) by (simp add: abs_rel_path trim_prefix_def has_prefix_def rel_path_def join_with_def)
  have acc: "validateManagedTarget sample_base sample_archive archivedDirectory = Inr (''volumes/.archived/'' @ ?c)"
    using lifecycle_target_accepted [OF t] trim by (simp add: archivedDirectory_def)
  have "path_dir (rel_path ([''volumes'', ''.archived''] @ [?c])) = rel_path [''volumes'', ''.archived'']"
    by (rule path_dir_rel_path) (use c(2,3) in \<open>auto simp: plain_component_def\<close>)
  then have "path_dir (''volumes/.archived/'' @ ?c) = ''volumes/.archived''" by (simp add: rel_path_def join_with_def)
  moreover have "ValidateRelative (''volumes/.archived/'' @ ?c) = None"
    using acc by (auto simp: validateManagedTarget_def RelativeToParent_def Let_def)
  ultimately show thesis using that trim acc c(3) by simp
qed

lemma sample_archive_run:
  obtains target fs' where "Archive tree_fs sample_base sample_dir sample_archive sample_tree = (Inr (), fs')"
    "validateManagedTarget sample_base sample_archive archivedDirectory = Inr target"
proof -
  obtain c where c: "plain_component c" "validateManagedTarget sample_base sample_archive archivedDirectory = Inr (''volumes/.archived/'' @ c)"
    "ValidateRelative (''volumes/.archived/'' @ c) = None" "path_dir (''volumes/.archived/'' @ c) = ''volumes/.archived''"
    by (rule sample_archive_path)
  let ?src = "''volumes/'' @ sample_dir" and ?t = "''volumes/.archived/'' @ c"
  have ne: "c \<noteq> []" using c(1) by (simp add: plain_component_def)
  have rel: "ValidateRelative ?src = None" "ValidateRelative ''volumes'' = None" "ValidateRelative ''volumes/.archived'' = None"
    using sample_directory_paths(2) ValidateRelative_rel_path [of "[''volumes'', ''.archived'']"]
    by (auto simp: logicalDirectoryPaths_def JoinRelative_def rel_path_def join_with_def plain_component_def)
  have entries: "entry_at sample_tree ''volumes'' \<noteq> None" "entry_at sample_tree ?src \<noteq> None" "entry_at sample_tree ?t = None"
    using ne by (auto simp: entry_at_def sample_tree_def NewFakeLifecycleFS_def sample_dir_def)
  have parents: "safe_parent sample_tree ''volumes''" "safe_parent sample_tree ''volumes/.archived''"
    by (simp_all add: safe_parent_def entry_at_def sample_tree_def NewFakeLifecycleFS_def)
  obtain fs1 where ren: "Tree_RenameNoReplace ?src ?t sample_tree = (Inr (), fs1)"
    using rel c entries parents by (simp add: Tree_RenameNoReplace_def guard_run)
  have keep: "entry_at fs1 n = entry_at sample_tree n" if "n = ''volumes'' \<or> n = ''volumes/.archived''" for n
    using tree.rename [of ?src ?t sample_tree] ren that ne by (auto simp: tree_fs_def under_def has_prefix_def sample_dir_def)
  have sync: "\<exists>fs3. Tree_SyncDir p fs2 = (Inr (), fs3) \<and> entry_at fs3 = entry_at fs2"
    if "entry_at fs2 p = entry_at sample_tree p" "ValidateRelative p = None" "safe_parent sample_tree p" for p fs2
    using that by (auto simp: Tree_SyncDir_def guard_run safe_parent_def log_operation_def entry_at_def)
  obtain fs2 where fs2: "Tree_SyncDir ''volumes'' fs1 = (Inr (), fs2)" "entry_at fs2 = entry_at fs1"
    using sync [OF _ rel(2) parents(1)] keep by blast
  have "entry_at fs2 ''volumes/.archived'' = entry_at sample_tree ''volumes/.archived''" unfolding fs2(2) by (rule keep) simp
  from sync [OF this rel(3) parents(2)] obtain fs3 where fs3: "Tree_SyncDir ''volumes/.archived'' fs2 = (Inr (), fs3)" by blast
  have "path_join [''volumes'', archivedDirectory] = ''volumes/.archived''"
    using path_clean_rel_path [of "[''volumes'', ''.archived'']"]
    by (simp add: path_join_def rel_path_def join_with_def archivedDirectory_def plain_component_def)
  then have "Archive tree_fs sample_base sample_dir sample_archive sample_tree = (Inr (), fs3)"
    unfolding Archive_def renameToManagedDirectory_def sample_directory_paths(2) c(2) andthen_lift_Inr prod.case
    by (simp only: andthen_def wrapped_def wrap_res_def tree_fs_def LifecycleFS.simps ren fs2(1) fs3 prod.case sum.case map_sum.simps id_apply)
  then show thesis using that c(2) by blast
qed

theorem archive_keeps_data_witness:
  "\<exists>fs' target e. Archive tree_fs sample_base sample_dir sample_archive sample_tree = (Inr (), fs')
     \<and> entry_at fs' (''volumes/'' @ sample_dir) = None \<and> entry_at fs' target = Some e"
proof -
  obtain target fs' where run: "Archive tree_fs sample_base sample_dir sample_archive sample_tree = (Inr (), fs')"
    and t: "validateManagedTarget sample_base sample_archive archivedDirectory = Inr target" by (rule sample_archive_run)
  have "distinct (map fst (fl_entries sample_tree))" by (simp add: sample_tree_def NewFakeLifecycleFS_def sample_dir_def)
  moreover have "entry_at sample_tree (''volumes/'' @ sample_dir) \<noteq> None"
    by (auto simp: entry_at_def sample_tree_def NewFakeLifecycleFS_def sample_dir_def)
  ultimately show ?thesis
    using archive_keeps_data [OF run sample_directory_paths(2) t, of "[]"] run by auto
qed

end
