(* ===== verification/ParentBackend.thy ===== *)
theory ParentBackend
  imports DataLifecycle LifecyclePairs
begin

text \<open>
  \<^verbatim>\<open>pkg/parentfs/backend.go\<close>, \<^verbatim>\<open>inventory.go\<close> and the claim reader of \<^verbatim>\<open>bootstrap.go\<close>, with
  \<^verbatim>\<open>pkg/driver/create_filesystem.go\<close>: the mounted-parent boundary behind the ownership stores, the
  lifecycle filesystem and the creation reconciler. Opening and closing the descriptor-confined views
  of a mounted root are calls of the boundary; every operation closes what it opened, and an error of
  the close is joined to the result.
\<close>

section \<open>The mounted parent\<close>

definition fs_ErrNotExist :: sentinel where "fs_ErrNotExist = OtherSentinel ''file does not exist''"
definition ErrOwnershipNotFound :: sentinel where "ErrOwnershipNotFound = OtherSentinel ''ownership record conclusively absent''"
definition ErrUnexpectedDirectoryData :: sentinel where
  "ErrUnexpectedDirectoryData = OtherSentinel ''logical directory contains unexpected data without ownership''"

record 'w Backend =
  be_EnsureMounted :: "string \<Rightarrow> ('w, string) act"
  be_OpenDurable :: "string \<Rightarrow> ('w, unit) act"
  be_CloseDurable :: "string \<Rightarrow> ('w, unit) act"
  be_durable :: "string \<Rightarrow> 'w DurableFS"
  be_OpenLifecycle :: "string \<Rightarrow> ('w, unit) act"
  be_CloseLifecycle :: "string \<Rightarrow> ('w, unit) act"
  be_lifecycle :: "string \<Rightarrow> 'w LifecycleFS"
  be_ListRegularFiles :: "string \<Rightarrow> string \<Rightarrow> nat \<Rightarrow> ('w, string list) act"

text \<open>\<^verbatim>\<open>defer func() { returnErr = errors.Join(returnErr, filesystem.Close()) }()\<close>.\<close>

definition closing :: "('w, unit) act \<Rightarrow> ('w, 'a) act \<Rightarrow> ('w, 'a) act" where
  "closing close m = (\<lambda>w. case m w of (r, w1) \<Rightarrow>
     (case close w1 of
        (Inr u, w2) \<Rightarrow> (r, w2)
      | (Inl e, w2) \<Rightarrow> (Inl (case r of Inl e' \<Rightarrow> join_errors e' e | Inr x \<Rightarrow> e), w2)))"

definition ValidateAbsoluteNormalizedPath :: "string \<Rightarrow> error option" where
  "ValidateAbsoluteNormalizedPath val =
     ensure (\<not> (val = [] \<or> val = ''/'' \<or> \<not> has_prefix val ''/'' \<or> path_clean val \<noteq> val))
       ''mount path must be absolute, normalized, and non-root''"

definition parentRoot :: "'w Backend \<Rightarrow> string \<Rightarrow> ('w, string) act" where
  "parentRoot backend parentFilesystemID =
     guard (ValidateParentFilesystemID parentFilesystemID)
     (andthen (wrapped ''ensure controller parent mounted'' (be_EnsureMounted backend parentFilesystemID)) (\<lambda>root.
      guard (errs [wrap_err ''mounted parent root'' (ValidateAbsoluteNormalizedPath root),
        ensure (path_base root = parentFilesystemID) ''mounted parent root is not bound to parent''])
      (ret root)))"

definition with_durable :: "'w Backend \<Rightarrow> string \<Rightarrow> ('w DurableFS \<Rightarrow> ('w, 'a) act) \<Rightarrow> ('w, 'a) act" where
  "with_durable backend parentFilesystemID body =
     andthen (parentRoot backend parentFilesystemID) (\<lambda>root.
     andthen (be_OpenDurable backend root) (\<lambda>_.
     closing (be_CloseDurable backend root) (body (be_durable backend root))))"

definition withLifecycle :: "'w Backend \<Rightarrow> string \<Rightarrow> ('w LifecycleFS \<Rightarrow> ('w, 'a) act) \<Rightarrow> ('w, 'a) act" where
  "withLifecycle backend parentFilesystemID operation =
     andthen (parentRoot backend parentFilesystemID) (\<lambda>root.
     andthen (be_OpenLifecycle backend root) (\<lambda>_.
     closing (be_CloseLifecycle backend root) (operation (be_lifecycle backend root))))"

section \<open>Reading records\<close>

definition read_claim :: "'w DurableFS \<Rightarrow> ('w, ParentOwnerRecord) act" where
  "read_claim fs =
     andthen (wrapped ''read parent owner claim'' (fs_ReadFileNoFollow fs (trim_prefix ParentOwnerPath ''/''))) (\<lambda>encoded.
     lift (wrap_res ''decode parent owner claim'' (DecodeParentOwnerRecord encoded)))"

definition ReadParentClaim :: "'w Backend \<Rightarrow> string \<Rightarrow> ('w, ParentOwnerRecord) act" where
  "ReadParentClaim backend parentFilesystemID = with_durable backend parentFilesystemID read_claim"

text \<open>\<^verbatim>\<open>BootstrapFilesystem.ReadParentClaim\<close>: absence is a result, any other failure an error.\<close>

definition Bootstrap_ReadParentClaim :: "'w DurableFS \<Rightarrow> ('w, ParentOwnerRecord option) act" where
  "Bootstrap_ReadParentClaim fs =
     andthen (attempt (fs_ReadFileNoFollow fs (trim_prefix ParentOwnerPath ''/''))) (\<lambda>read. case read of
         Inl err \<Rightarrow>
           if errors_is err fs_ErrNotExist \<or> errors_is err ErrEntryNotFound then ret None
           else fail (wrap ''read parent owner claim'' err)
       | Inr encoded \<Rightarrow>
           andthen (lift (wrap_res ''decode parent owner claim'' (DecodeParentOwnerRecord encoded))) (\<lambda>claim. ret (Some claim)))"

definition read_ownership :: "string \<Rightarrow> string \<Rightarrow> 'w DurableFS \<Rightarrow> ('w, OwnershipRecord) act" where
  "read_ownership basePath logicalVolumeID fs =
     andthen (lift (OwnershipRecordPath basePath logicalVolumeID)) (\<lambda>absolute.
     andthen (lift (RelativeToParent absolute)) (\<lambda>relative.
     andthen (attempt (fs_ReadFileNoFollow fs relative)) (\<lambda>read. case read of
         Inl err \<Rightarrow>
           if errors_is err fs_ErrNotExist \<or> errors_is err ErrEntryNotFound then fail (Errorf [] [ErrOwnershipNotFound])
           else fail (wrap ''read ownership from parent'' err)
       | Inr encoded \<Rightarrow>
           andthen (lift (wrap_res ''decode ownership'' (DecodeOwnershipRecord encoded))) (\<lambda>record.
           guard (ensure (Ownership_LogicalID record = logicalVolumeID) ''ownership path logical ID differs from decoded record'')
             (ret record)))))"

definition ReadOwnership :: "'w Backend \<Rightarrow> string \<Rightarrow> string \<Rightarrow> string \<Rightarrow> ('w, OwnershipRecord) act" where
  "ReadOwnership backend parentFilesystemID basePath logicalVolumeID =
     with_durable backend parentFilesystemID (read_ownership basePath logicalVolumeID)"

definition load_ownership :: "'w Backend \<Rightarrow> DetailedAllocationRecord \<Rightarrow> ('w, OwnershipRecord) act" where
  "load_ownership backend allocation =
     guard (Detailed_Validate allocation)
       (ReadOwnership backend (a_ParentFilesystemID allocation) (a_BasePath allocation) (a_LogicalVolumeID allocation))"

section \<open>Updating records\<close>

fun ownership_revision :: "OwnershipRecord \<Rightarrow> u64" where
  "ownership_revision (DetailedO r) = o_Revision r"
| "ownership_revision (CompactO r) = co_Revision r"

text \<open>
  The temporary name of a generation: the digest of volume and revision with the version and
  variant bits of a UUID, so that a retry of the same generation finds the same file.
\<close>

definition generation_digest :: "string \<Rightarrow> u64 \<Rightarrow> 8 word list" where
  "generation_digest logicalID revision =
     (let digest = sha256 (''ownership-generation'' @ [CHR 0x00] @ logicalID @ [CHR 0x00] @ format_uint (unat revision))
      in digest[6 := or (and (digest ! 6) 0x0f) 0x50, 8 := or (and (digest ! 8) 0x3f) 0x80])"

definition uuid_text :: "8 word list \<Rightarrow> string" where
  "uuid_text digest =
     hex_encode (take 4 digest) @ ''-'' @ hex_encode (take 2 (drop 4 digest)) @ ''-'' @ hex_encode (take 2 (drop 6 digest)) @ ''-''
       @ hex_encode (take 2 (drop 8 digest)) @ ''-'' @ hex_encode (take 6 (drop 10 digest))"

definition ownershipOperationID :: "OwnershipRecord \<Rightarrow> string res" where
  "ownershipOperationID record =
     require (Ownership_Validate record)
       (let operationID = uuid_text (generation_digest (Ownership_LogicalID record) (ownership_revision record))
        in require (ValidateOperationID operationID) (Inr operationID))"

definition update_ownership ::
  "'w Backend \<Rightarrow> OwnershipRecord \<Rightarrow> OwnershipRecord \<Rightarrow> string \<Rightarrow> string \<Rightarrow> ('w, unit) act" where
  "update_ownership backend current nxt parentFilesystemID basePath =
     with_durable backend parentFilesystemID (\<lambda>fs.
       andthen (lift (ownershipOperationID nxt)) (\<lambda>operationID.
       UpdateOwnership fs basePath operationID current nxt))"

definition validateUpdateIdentity :: "DetailedOwnershipRecord \<Rightarrow> DetailedOwnershipRecord \<Rightarrow> error option" where
  "validateUpdateIdentity current nxt =
     ensure (\<not> (o_ParentFilesystemID current \<noteq> o_ParentFilesystemID nxt \<or> o_BasePath current \<noteq> o_BasePath nxt))
       ''ownership update changes parent filesystem or base path''"

text \<open>\<^verbatim>\<open>LifecycleOwnershipStore\<close>.\<close>

definition Lifecycle_UpdateDetailed ::
  "'w Backend \<Rightarrow> DetailedOwnershipRecord \<Rightarrow> DetailedOwnershipRecord \<Rightarrow> ('w, unit) act" where
  "Lifecycle_UpdateDetailed backend current nxt =
     guard (validateUpdateIdentity current nxt)
       (update_ownership backend (DetailedO current) (DetailedO nxt) (o_ParentFilesystemID current) (o_BasePath current))"

definition Lifecycle_Compact ::
  "'w Backend \<Rightarrow> DetailedOwnershipRecord \<Rightarrow> CompactDeletedOwnershipRecord \<Rightarrow> ('w, unit) act" where
  "Lifecycle_Compact backend current nxt =
     guard (ensure (o_ParentFilesystemID current = co_ParentFilesystemID nxt) ''ownership compaction identity is invalid'')
       (update_ownership backend (DetailedO current) (CompactO nxt) (o_ParentFilesystemID current) (o_BasePath current))"

text \<open>\<^verbatim>\<open>PublishOwnershipStore\<close>.\<close>

definition Publish_LoadDetailed :: "'w Backend \<Rightarrow> DetailedAllocationRecord \<Rightarrow> ('w, DetailedOwnershipRecord) act" where
  "Publish_LoadDetailed backend allocation =
     andthen (load_ownership backend allocation) (\<lambda>record. case record of
         DetailedO detailed \<Rightarrow> ret detailed
       | CompactO compact \<Rightarrow> fail (errorf ''publish ownership kind is not detailed''))"

definition Publish_UpdateDetailed ::
  "'w Backend \<Rightarrow> DetailedOwnershipRecord \<Rightarrow> DetailedOwnershipRecord \<Rightarrow> ('w, DetailedOwnershipRecord) act" where
  "Publish_UpdateDetailed backend current nxt =
     andthen (Lifecycle_UpdateDetailed backend current nxt) (\<lambda>_. ret nxt)"

section \<open>Data directories\<close>

text \<open>\<^verbatim>\<open>CreationBackend\<close>.\<close>

definition PrepareDirectory :: "'w Backend \<Rightarrow> DetailedAllocationRecord \<Rightarrow> ('w, unit) act" where
  "PrepareDirectory backend allocation =
     guard (ensure (a_State allocation = StateCreatingDirectory) ''directory preparation requires CreatingDirectory allocation'')
     (withLifecycle backend (a_ParentFilesystemID allocation) (\<lambda>fs.
        andthen (attempt (PrepareLogicalDirectory fs (a_BasePath allocation) (a_DirectoryName allocation)
            (a_DirectoryMode allocation) (a_DirectoryUID allocation) (a_DirectoryGID allocation))) (\<lambda>prepared.
          case prepared of
            Inl err \<Rightarrow> if errors_is err ErrDirectoryNotEmpty then fail (wrap_sentinel ErrUnexpectedDirectoryData err) else fail err
          | Inr u \<Rightarrow> ret u)))"

definition Creation_CreateOwnership :: "'w Backend \<Rightarrow> DetailedOwnershipRecord \<Rightarrow> ('w, unit) act" where
  "Creation_CreateOwnership backend ownership =
     guard (DetailedOwnership_Validate ownership)
     (with_durable backend (o_ParentFilesystemID ownership) (\<lambda>fs.
        andthen (lift (ownershipOperationID (DetailedO ownership))) (\<lambda>operationID.
        CreateOwnership fs (o_BasePath ownership) operationID (DetailedO ownership))))"

definition VerifyDirectory :: "'w Backend \<Rightarrow> DetailedAllocationRecord \<Rightarrow> ('w, unit) act" where
  "VerifyDirectory backend allocation =
     withLifecycle backend (a_ParentFilesystemID allocation) (\<lambda>fs.
       VerifyLogicalDirectory fs (a_BasePath allocation) (a_DirectoryName allocation)
         (a_DirectoryMode allocation) (a_DirectoryUID allocation) (a_DirectoryGID allocation))"

text \<open>\<^verbatim>\<open>LifecycleFilesystem\<close>.\<close>

definition Backend_PrepareDisposition :: "'w Backend \<Rightarrow> DetailedAllocationRecord \<Rightarrow> ('w, unit) act" where
  "Backend_PrepareDisposition backend allocation =
     withLifecycle backend (a_ParentFilesystemID allocation) (\<lambda>fs. Delete_PrepareDisposition fs allocation)"

definition Backend_PrepareQuarantine :: "'w Backend \<Rightarrow> DetailedAllocationRecord \<Rightarrow> ('w, unit) act" where
  "Backend_PrepareQuarantine backend allocation =
     withLifecycle backend (a_ParentFilesystemID allocation) (\<lambda>fs. GC_PrepareQuarantine fs allocation)"

definition Backend_RemoveQuarantine :: "'w Backend \<Rightarrow> DetailedAllocationRecord \<Rightarrow> ('w, unit) act" where
  "Backend_RemoveQuarantine backend allocation =
     withLifecycle backend (a_ParentFilesystemID allocation) (\<lambda>fs.
       if a_State allocation = StateDeleting \<and> a_DeleteOperation allocation = DeleteOperationDelete
       then Delete_RemoveQuarantine fs allocation else GC_RemoveQuarantine fs allocation)"

section \<open>The creation reconciler\<close>

definition check_created :: "'w Backend \<Rightarrow> DetailedAllocationRecord \<Rightarrow> string \<Rightarrow> OwnershipRecord \<Rightarrow> ('w, unit) act" where
  "check_created backend allocation msg ownership =
     (case ownership of
        CompactO compact \<Rightarrow> fail (errorf ''creation ownership is not detailed'')
      | DetailedO detailed \<Rightarrow>
          guard (wrap_err msg (ValidateDetailedPair (Some allocation) (Some detailed) StateReady))
            (VerifyDirectory backend allocation))"

definition EnsureCreated :: "'w Backend \<Rightarrow> DetailedAllocationRecord \<Rightarrow> ('w, unit) act" where
  "EnsureCreated backend allocation =
     guard (errs [ensure (a_State allocation = StateCreatingDirectory) ''directory reconciliation requires CreatingDirectory allocation'',
       Detailed_Validate allocation])
     (andthen (attempt (load_ownership backend allocation)) (\<lambda>loaded. case loaded of
         Inr ownership \<Rightarrow> check_created backend allocation ''validate existing creation ownership'' ownership
       | Inl err \<Rightarrow>
           if \<not> errors_is err ErrOwnershipNotFound then fail (wrap ''read creation ownership'' err)
           else
             andthen (wrapped ''prepare logical directory'' (PrepareDirectory backend allocation)) (\<lambda>_.
             andthen (lift (ownershipFromCreatingAllocation allocation)) (\<lambda>readyOwnership.
             andthen (wrapped ''create Ready ownership'' (Creation_CreateOwnership backend readyOwnership)) (\<lambda>_.
             andthen (wrapped ''read back Ready ownership'' (load_ownership backend allocation)) (\<lambda>readBack.
             check_created backend allocation ''validate read-back Ready ownership'' readBack))))))"

section \<open>The inventory of a parent\<close>

record OwnershipTemporary =
  ot_Name :: string
  ot_LogicalVolumeID :: string
  ot_OperationID :: string

record ParentRecordSet =
  prs_ParentOwner :: ParentOwnerRecord
  prs_Ownerships :: "OwnershipRecord list"
  prs_Temporaries :: "OwnershipTemporary list"

definition maxOwnershipInventoryEntries :: nat where "maxOwnershipInventoryEntries = 16 * 1024"

text \<open>\<^verbatim>\<open>strings.LastIndex\<close>: the last position where the substring occurs.\<close>

fun last_index :: "string \<Rightarrow> string \<Rightarrow> nat option" where
  "last_index [] sub = (if sub = [] then Some 0 else None)"
| "last_index (c # s) sub =
     (case last_index s sub of
        Some i \<Rightarrow> Some (Suc i)
      | None \<Rightarrow> if has_prefix (c # s) sub then Some 0 else None)"

definition trim_suffix :: "string \<Rightarrow> string \<Rightarrow> string" where
  "trim_suffix s p = (if has_suffix s p then take (length s - length p) s else s)"

definition parseOwnershipTemporaryName :: "string \<Rightarrow> (string \<times> string) option" where
  "parseOwnershipTemporaryName name =
     (if \<not> has_suffix name ''.tmp'' then None
      else let withoutSuffix = trim_suffix name ''.tmp''
           in case last_index withoutSuffix ''.json.'' of
                None \<Rightarrow> None
              | Some separator \<Rightarrow>
                  if separator = 0 \<or> separator + 6 \<ge> length withoutSuffix then None
                  else Some (take separator withoutSuffix, drop (separator + 6) withoutSuffix))"

fun entries_loop ::
  "'w DurableFS \<Rightarrow> string \<Rightarrow> string list \<Rightarrow> string list \<Rightarrow> OwnershipRecord list \<Rightarrow> OwnershipTemporary list \<Rightarrow>
     ('w, OwnershipRecord list \<times> OwnershipTemporary list) act" where
  "entries_loop fs directory [] seen ownerships temporaries = ret (ownerships, temporaries)"
| "entries_loop fs directory (name # names) seen ownerships temporaries =
     (case parseOwnershipTemporaryName name of
        Some (logicalID, operationID) \<Rightarrow>
          guard (errs [wrap_err ''ownership temporary logical ID'' (ValidateLogicalVolumeID logicalID),
            wrap_err ''ownership temporary operation ID'' (ValidateOperationID operationID)])
          (entries_loop fs directory names seen ownerships
            (temporaries @ [\<lparr>ot_Name = name, ot_LogicalVolumeID = logicalID, ot_OperationID = operationID\<rparr>]))
      | None \<Rightarrow>
          let logicalID = trim_suffix name ''.json''
          in guard (errs [ensure (has_suffix name ''.json'') ''ownership metadata entry has an unsupported name'',
               wrap_err ''ownership metadata entry logical ID'' (ValidateLogicalVolumeID logicalID),
               ensure (logicalID \<notin> set seen) ''ownership logical ID is duplicated''])
             (andthen (wrapped ''read ownership metadata entry'' (fs_ReadFileNoFollow fs (path_join [directory, name]))) (\<lambda>encoded.
              andthen (lift (wrap_res ''decode ownership metadata entry'' (DecodeOwnershipRecord encoded))) (\<lambda>record.
              guard (ensure (Ownership_LogicalID record = logicalID) ''ownership metadata entry contains another logical ID'')
              (entries_loop fs directory names (logicalID # seen) (ownerships @ [record]) temporaries)))))"

definition decodeParentRecordEntries ::
  "'w DurableFS \<Rightarrow> string \<Rightarrow> string list \<Rightarrow> ('w, OwnershipRecord list \<times> OwnershipTemporary list) act" where
  "decodeParentRecordEntries fs directory names =
     guard (errs [ValidateRelative directory,
       ensure (length names \<le> maxOwnershipInventoryEntries) ''ownership inventory exceeds its bound'',
       ensure (distinct_adj (sort names)) ''ownership inventory repeats entry''])
     (andthen (entries_loop fs directory (sort names) [] [] []) (\<lambda>(ownerships, temporaries).
      ret (sort_key Ownership_LogicalID ownerships, temporaries)))"

definition ReadParentRecordSet :: "'w Backend \<Rightarrow> string \<Rightarrow> ('w, ParentRecordSet) act" where
  "ReadParentRecordSet backend parentFilesystemID =
     andthen (parentRoot backend parentFilesystemID) (\<lambda>root.
     andthen (be_OpenDurable backend root) (\<lambda>_.
     andthen (attempt (be_OpenLifecycle backend root)) (\<lambda>opened. case opened of
         Inl err \<Rightarrow>
           andthen (attempt (be_CloseDurable backend root)) (\<lambda>closed.
             fail (case closed of Inl e \<Rightarrow> join_errors err e | Inr u \<Rightarrow> err))
       | Inr u \<Rightarrow>
           closing (be_CloseDurable backend root) (closing (be_CloseLifecycle backend root)
             (andthen (read_claim (be_durable backend root)) (\<lambda>owner.
              guard (ensure (p_ParentFilesystemID owner = parentFilesystemID) ''parent inventory owner ID differs from mounted parent'')
              (andthen (lift (RelativeToParent (path_join [p_BasePath owner, OwnershipMetadataDirectory]))) (\<lambda>metadata.
               andthen (wrapped ''list ownership metadata'' (be_ListRegularFiles backend root metadata maxOwnershipInventoryEntries)) (\<lambda>names.
               andthen (wrapped ''decode ownership inventory'' (decodeParentRecordEntries (be_durable backend root) metadata names)) (\<lambda>(ownerships, temporaries).
               ret \<lparr>prs_ParentOwner = owner, prs_Ownerships = ownerships, prs_Temporaries = temporaries\<rparr>))))))))))"

section \<open>Operation identifiers of generations\<close>

lemma nibble_or: "(m::nat) < 16 \<Longrightarrow> or m 80 div 16 = 5" "(m::nat) < 64 \<Longrightarrow> or m 128 div 16 \<in> {8, 9, 10, 11}"
proof -
  have "list_all (\<lambda>m. or m 80 div 16 = (5::nat)) [0..<16]" by code_simp
  then show "m < 16 \<Longrightarrow> or m 80 div 16 = 5" by (simp add: list_all_iff)
  have "list_all (\<lambda>m. or m 128 div 16 \<in> set [8, 9, 10, 11::nat]) [0..<64]" by code_simp
  then show "m < 64 \<Longrightarrow> or m 128 div 16 \<in> {8, 9, 10, 11}" by (simp add: list_all_iff)
qed

lemma version_bits:
  "unat (or (and b 0x0f) 0x50 :: 8 word) div 16 = 5"
  "unat (or (and b 0x3f) 0x80 :: 8 word) div 16 \<in> {8, 9, 10, 11}"
proof -
  have "and (unat b) (mask 4) = unat b mod 16" "and (unat b) (mask 6) = unat b mod 64"
    by (simp_all flip: take_bit_eq_mask add: take_bit_eq_mod)
  then have masked: "and (unat b) 15 = unat b mod 16" "and (unat b) 63 = unat b mod 64"
    by (simp_all add: mask_eq_exp_minus_1)
  show "unat (or (and b 0x0f) 0x50 :: 8 word) div 16 = 5"
    using nibble_or(1) [of "unat b mod 16"] by (simp add: unsigned_or_eq unsigned_and_eq masked)
  show "unat (or (and b 0x3f) 0x80 :: 8 word) div 16 \<in> {8, 9, 10, 11}"
    using nibble_or(2) [of "unat b mod 64"] by (simp add: unsigned_or_eq unsigned_and_eq masked)
qed

lemma uuid_text_pattern:
  assumes "length digest = 32" and "unat (digest ! 6) div 16 = 5" and "unat (digest ! 8) div 16 \<in> {8, 9, 10, 11}"
  shows "uuidPattern (uuid_text digest)"
proof -
  have six: "take 2 (drop 6 digest) = [digest ! 6, digest ! 7]" and eight: "take 2 (drop 8 digest) = [digest ! 8, digest ! 9]"
    using assms(1) by (simp_all add: list_eq_iff_nth_eq less_Suc_eq numeral_2_eq_2)
  have "unat (b :: 8 word) < 2 ^ LENGTH(8)" for b by (rule unsigned_less)
  then have "unat (b :: 8 word) < 256" for b by simp
  then have hex: "is_hex (hex_char (unat (b :: 8 word) mod 16))" "is_hex (hex_char (unat b div 16))" for b
    by (simp_all add: is_hex_hex_char less_mult_imp_div_less)
  have "in_range 49 53 (byte (hex_char 5))" by (simp add: hex_char_def in_range_def byte_def)
  moreover have "hex_char (unat (digest ! 8) div 16) \<in> set ''89ab''" using assms(3) by (auto simp: hex_char_def)
  ultimately show ?thesis
    unfolding uuidPattern_def uuid_text_def six eight
    using assms hex hex_encode_hex
    by (simp add: matches_classes_append hex_encode_def [of "[_, _]"] lit_def)
qed

lemma operation_id_total:
  assumes "Ownership_Validate r = None"
  obtains operation where "ownershipOperationID r = Inr operation" "ValidateOperationID operation = None"
proof -
  let ?d = "generation_digest (Ownership_LogicalID r) (ownership_revision r)"
  have "uuidPattern (uuid_text ?d)"
    by (rule uuid_text_pattern) (use version_bits in \<open>simp_all add: generation_digest_def Let_def\<close>)
  then show thesis using that assms by (simp add: ownershipOperationID_def ValidateOperationID_def Let_def)
qed

section \<open>Temporary names\<close>

lemma last_index_Some:
  "last_index s sub = Some i \<Longrightarrow> has_prefix (drop i s) sub \<and> i \<le> length s"
  by (induction s arbitrary: i) (auto split: option.splits if_splits)

lemma last_index_none: "\<forall>i \<le> length s. \<not> has_prefix (drop i s) sub \<Longrightarrow> last_index s sub = None"
proof (induction s)
  case Nil
  then show ?case by (auto simp: has_prefix_def)
next
  case (Cons c s)
  have "\<forall>i \<le> length s. \<not> has_prefix (drop i s) sub" using Cons.prems by (metis Suc_le_mono drop_Suc_Cons length_Cons)
  moreover have "\<not> has_prefix (c # s) sub" using Cons.prems by (metis drop0 le0)
  ultimately show ?case using Cons.IH by simp
qed

lemma last_index_append:
  assumes "has_prefix (drop n s) sub" and "n \<le> length s" and "\<forall>i. n < i \<longrightarrow> i \<le> length s \<longrightarrow> \<not> has_prefix (drop i s) sub"
  shows "last_index s sub = Some n"
  using assms
proof (induction s arbitrary: n)
  case Nil
  then show ?case by (auto simp: has_prefix_def)
next
  case (Cons c s)
  show ?case
  proof (cases n)
    case 0
    have "\<not> has_prefix (drop i s) sub" if "i \<le> length s" for i
      using Cons.prems(3) [rule_format, of "Suc i"] 0 that by simp
    then have "last_index s sub = None" by (intro last_index_none) simp
    then show ?thesis using Cons.prems(1) 0 by simp
  next
    case (Suc m)
    have "\<not> has_prefix (drop i s) sub" if "m < i" "i \<le> length s" for i
      using Cons.prems(3) [rule_format, of "Suc i"] Suc that by simp
    then have "last_index s sub = Some m" using Cons.IH [of m] Cons.prems(1,2) Suc by simp
    then show ?thesis using Suc by simp
  qed
qed

lemma trim_suffix_append [simp]: "has_suffix (s @ p) p" "trim_suffix (s @ p) p = s"
  by (simp_all add: has_suffix_def trim_suffix_def)

lemma parse_with_suffix:
  "parseOwnershipTemporaryName (s @ ''.tmp'') = (case last_index s ''.json.'' of None \<Rightarrow> None
    | Some separator \<Rightarrow> if separator = 0 \<or> separator + 6 \<ge> length s then None
        else Some (take separator s, drop (separator + 6) s))"
  unfolding parseOwnershipTemporaryName_def trim_suffix_append Let_def by simp

lemma temporary_name_accepted:
  assumes "CHR ''.'' \<notin> set operation" and "operation \<noteq> []" and "logicalID \<noteq> []"
  shows "parseOwnershipTemporaryName (logicalID @ ''.json.'' @ operation @ ''.tmp'') = Some (logicalID, operation)"
proof -
  let ?s = "logicalID @ ''.json.'' @ operation"
  have "last_index ?s ''.json.'' = Some (length logicalID)"
  proof (rule last_index_append)
    show "has_prefix (drop (length logicalID) ?s) ''.json.''" by (simp add: has_prefix_def)
    show "\<forall>i. length logicalID < i \<longrightarrow> i \<le> length ?s \<longrightarrow> \<not> has_prefix (drop i ?s) ''.json.''"
    proof (intro allI impI notI)
      fix i assume i: "length logicalID < i" and p: "has_prefix (drop i ?s) ''.json.''"
      define j where "j = i - length logicalID"
      have j: "j > 0" "drop i ?s = drop j (''.json.'' @ operation)" using i by (simp_all add: j_def)
      have p': "has_prefix (drop j (''.json.'' @ operation)) ''.json.''" using p unfolding j(2) .
      have op: "take n operation \<noteq> ''json.''" for n
      proof
        assume "take n operation = ''json.''"
        then have "CHR ''.'' \<in> set (take n operation)" by simp
        then show False using assms(1) by (blast dest: in_set_takeD)
      qed
      have six: "j = 1 \<or> j = 2 \<or> j = 3 \<or> j = 4 \<or> j = 5 \<or> 6 \<le> j" using j(1) by arith
      show False
      proof (cases "6 \<le> j")
        case True
        then have "drop j (''.json.'' @ operation) = drop (j - 6) operation"
            by (simp only: drop_append) (simp add: eval_nat_numeral)
        then have "set (drop j (''.json.'' @ operation)) \<subseteq> set operation" by (simp add: set_drop_subset)
        then show ?thesis using p' assms(1) by (cases "drop j (''.json.'' @ operation)") (auto simp: has_prefix_def)
      next
        case False
        then show ?thesis using six p' op by (auto simp: has_prefix_def numeral_eq_Suc)
      qed
    qed
  qed simp
  then have "parseOwnershipTemporaryName (?s @ ''.tmp'') = Some (logicalID, operation)"
    unfolding parse_with_suffix using assms(2,3) by (simp add: eval_nat_numeral)
  then show ?thesis by simp
qed

section \<open>What the inventory accounts for\<close>

lemma temporary_name_inv:
  assumes "parseOwnershipTemporaryName name = Some (logicalID, operation)"
  shows "name = logicalID @ ''.json.'' @ operation @ ''.tmp''"
proof -
  obtain s i where s: "name = s @ ''.tmp''" "last_index s ''.json.'' = Some i" "logicalID = take i s" "operation = drop (i + 6) s"
    using assms
    by (auto simp: parseOwnershipTemporaryName_def Let_def has_suffix_iff simp del: drop_append split: if_splits option.splits)
  have p: "has_prefix (drop i s) ''.json.''" using last_index_Some [OF s(2)] by simp
  then obtain r where r: "drop i s = ''.json.'' @ r" unfolding has_prefix_iff by blast
  have "drop (6 + i) s = drop 6 (drop i s)" by simp
  then have "drop (i + 6) s = r" unfolding r by (simp add: add.commute)
  then show ?thesis using s r by (metis append_assoc append_take_drop_id)
qed

definition valid_temporary :: "OwnershipTemporary \<Rightarrow> bool" where
  "valid_temporary t \<longleftrightarrow> ot_Name t = ot_LogicalVolumeID t @ ''.json.'' @ ot_OperationID t @ ''.tmp''
     \<and> ValidateLogicalVolumeID (ot_LogicalVolumeID t) = None \<and> ValidateOperationID (ot_OperationID t) = None"

definition stored_ownership :: "'w DurableFS \<Rightarrow> string \<Rightarrow> OwnershipRecord \<Rightarrow> bool" where
  "stored_ownership fs directory r \<longleftrightarrow> Ownership_Validate r = None
     \<and> (\<exists>bytes w w'. fs_ReadFileNoFollow fs (path_join [directory, Ownership_LogicalID r @ ''.json'']) w = (Inr bytes, w')
          \<and> DecodeOwnershipRecord bytes = Inr r)"

lemma decode_ownership_valid: "DecodeOwnershipRecord bytes = Inr r \<Longrightarrow> Ownership_Validate r = None"
  by (auto simp: DecodeOwnershipRecord_def split: if_splits)

lemma entries_loop_result:
  assumes "entries_loop fs directory names seen os ts w = (Inr (os', ts'), w')"
  obtains os1 ts1 where "os' = os @ os1" "ts' = ts @ ts1"
    "mset names = mset (map ot_Name ts1) + mset (map (\<lambda>r. Ownership_LogicalID r @ ''.json'') os1)"
    "distinct (map Ownership_LogicalID os1)" "set (map Ownership_LogicalID os1) \<inter> set seen = {}"
    "list_all (stored_ownership fs directory) os1" "list_all valid_temporary ts1"
  using assms
proof (induction names arbitrary: seen os ts w thesis)
  case Nil
  then show ?case by (simp add: ret_def)
next
  case (Cons name names)
  show ?case
  proof (cases "parseOwnershipTemporaryName name")
    case None
    let ?id = "trim_suffix name ''.json''"
    obtain r where nm: "name = r @ ''.json''" and fresh: "?id \<notin> set seen" and rest:
      "andthen (wrapped ''read ownership metadata entry'' (fs_ReadFileNoFollow fs (path_join [directory, name]))) (\<lambda>encoded.
              andthen (lift (wrap_res ''decode ownership metadata entry'' (DecodeOwnershipRecord encoded))) (\<lambda>record.
              guard (ensure (Ownership_LogicalID record = ?id) ''ownership metadata entry contains another logical ID'')
              (entries_loop fs directory names (?id # seen) (os @ [record]) ts))) w = (Inr (os', ts'), w')"
      using Cons.prems(2) None by (auto simp: Let_def guard_Inr has_suffix_iff)
    obtain bytes w1 w2 rec where rd: "fs_ReadFileNoFollow fs (path_join [directory, name]) w = (Inr bytes, w1)"
      and dec: "DecodeOwnershipRecord bytes = Inr rec" and lid: "Ownership_LogicalID rec = ?id"
      and loop: "entries_loop fs directory names (?id # seen) (os @ [rec]) ts w2 = (Inr (os', ts'), w')"
      using rest by (elim andthen_Inr) (auto simp: wrapped_Inr lift_Inr guard_Inr)
    show ?thesis
    proof (rule Cons.IH [OF _ loop])
      fix os1 ts1
      assume h: "os' = (os @ [rec]) @ os1" "ts' = ts @ ts1"
        "mset names = mset (map ot_Name ts1) + mset (map (\<lambda>r. Ownership_LogicalID r @ ''.json'') os1)"
        "distinct (map Ownership_LogicalID os1)" "set (map Ownership_LogicalID os1) \<inter> set (?id # seen) = {}"
        "list_all (stored_ownership fs directory) os1" "list_all valid_temporary ts1"
      have "stored_ownership fs directory rec"
        using rd dec lid decode_ownership_valid [OF dec] nm unfolding stored_ownership_def by auto
      moreover have "name = Ownership_LogicalID rec @ ''.json''" using lid nm by simp
      ultimately show thesis using h lid fresh by (intro Cons.prems(1) [of "rec # os1" ts1]) auto
    qed
  next
    case (Some p)
    obtain lid op where p: "p = (lid, op)" by fastforce
    have checks: "ValidateLogicalVolumeID lid = None" "ValidateOperationID op = None"
      and loop: "entries_loop fs directory names seen os
        (ts @ [\<lparr>ot_Name = name, ot_LogicalVolumeID = lid, ot_OperationID = op\<rparr>]) w = (Inr (os', ts'), w')"
      using Cons.prems(2) Some p by (auto simp: guard_Inr)
    have v: "valid_temporary \<lparr>ot_Name = name, ot_LogicalVolumeID = lid, ot_OperationID = op\<rparr>"
      using checks temporary_name_inv [OF Some [unfolded p]] by (simp add: valid_temporary_def)
    show ?thesis
      by (rule Cons.IH [OF _ loop])
        (use v in \<open>auto intro!: Cons.prems(1) [of _ "\<lparr>ot_Name = name, ot_LogicalVolumeID = lid, ot_OperationID = op\<rparr> # _"]\<close>)
  qed
qed

text \<open>
  (C9) The inventory of a parent is complete: when it is read, every listed name is accounted for,
  as exactly one ownership record that decodes from the file of that name, carries the name's volume
  and is valid, or as a crash-retry temporary of a valid volume and operation; the records are in
  the order of their volumes and no volume occurs twice.
\<close>

theorem inventory_complete:
  assumes "decodeParentRecordEntries fs directory names w = (Inr (ownerships, temporaries), w')"
  shows "mset names = mset (map ot_Name temporaries) + mset (map (\<lambda>r. Ownership_LogicalID r @ ''.json'') ownerships)
    \<and> sorted (map Ownership_LogicalID ownerships) \<and> distinct (map Ownership_LogicalID ownerships)
    \<and> list_all (stored_ownership fs directory) ownerships \<and> list_all valid_temporary temporaries"
proof -
  obtain os where loop: "entries_loop fs directory (sort names) [] [] [] w = (Inr (os, temporaries), w')"
    and os: "ownerships = sort_key Ownership_LogicalID os"
    using assms unfolding decodeParentRecordEntries_def guard_Inr by (auto elim!: andthen_Inr simp: ret_def)
  have m: "mset (map f (sort_key g xs)) = mset (map f xs)" for f g and xs :: "OwnershipRecord list" by simp
  have d: "distinct (map Ownership_LogicalID ownerships) = distinct (map Ownership_LogicalID os)"
    unfolding os by (metis m mset_eq_imp_distinct_iff)
  show ?thesis
    using entries_loop_result [OF loop] d unfolding os
    by (auto simp: list_all_iff)
qed


lemma written_temporary_recognised:
  assumes "ValidateOperationID operation = None" and "ValidateLogicalVolumeID logicalID = None"
  shows "parseOwnershipTemporaryName (logicalID @ ''.json.'' @ operation @ ''.tmp'') = Some (logicalID, operation)"
proof (rule temporary_name_accepted)
  have u: "uuidPattern operation" using assms(1) by (simp add: ValidateOperationID_def)
  show "CHR ''.'' \<notin> set operation" using uuid_chars [OF u] ident_char_not_slash by (auto simp: list_all_iff)
  show "operation \<noteq> []" using u by (auto simp: uuidPattern_def eval_nat_numeral)
  show "logicalID \<noteq> []" using volume_id_plain [OF assms(2)] by auto
qed

text \<open>An ownership file of a volume is never taken for a temporary.\<close>

lemma record_name_kept: "parseOwnershipTemporaryName (logicalID @ ''.json'') = None"
  by (auto simp: parseOwnershipTemporaryName_def has_suffix_def drop_Cons')

definition sample_entries :: "string list" where
  "sample_entries = [sample_volume @ ''.json'', sample_volume @ ''.json.'' @ sample_uuid @ ''.tmp'']"

lemma sample_entries_sorted: "sort sample_entries = sample_entries" "distinct_adj sample_entries"
  using prefix_le [of "sample_volume @ ''.json''" "''.'' @ sample_uuid @ ''.tmp''"] by (simp_all add: sample_entries_def)

theorem inventory_complete_witness:
  "\<exists>m. decodeParentRecordEntries memory_fs ''volumes'' sample_entries m
      = (Inr ([sample_old], [\<lparr>ot_Name = sample_entries ! 1, ot_LogicalVolumeID = sample_volume, ot_OperationID = sample_uuid\<rparr>]), m)
    \<and> list_all (stored_ownership memory_fs ''volumes'') [sample_old]"
proof -
  let ?bytes = "Marshal (ownership_json sample_old)"
  let ?m = "NewMemoryDurableFS\<lparr>mem_live := [path_join [''volumes'', sample_volume @ ''.json''] \<mapsto> ?bytes]\<rparr>"
  have dec: "DecodeOwnershipRecord ?bytes = Inr sample_old"
    by (rule DecodeOwnership_Encode)
      (use sample_ready_ownership_ok sample_ownership_text in \<open>simp_all add: EncodeOwnershipRecord_def\<close>)
  have v: "ValidateLogicalVolumeID sample_volume = None" by (rule logical_volume_id_valid [OF sample_volume_ok])
  have op: "ValidateOperationID sample_uuid = None" by (simp add: ValidateOperationID_def sample_uuid_ok)
  have lid: "Ownership_LogicalID sample_old = sample_volume"
    by (simp add: sample_ownership_def ownership_payload_def) (simp add: sample_allocation_def)
  have rel: "ValidateRelative ''volumes'' = None" by code_simp
  have run: "decodeParentRecordEntries memory_fs ''volumes'' sample_entries ?m
      = (Inr ([sample_old], [\<lparr>ot_Name = sample_entries ! 1, ot_LogicalVolumeID = sample_volume, ot_OperationID = sample_uuid\<rparr>]), ?m)"
    unfolding decodeParentRecordEntries_def sample_entries_sorted
    using v op lid dec rel sample_entries_sorted(2) record_name_kept [of sample_volume] written_temporary_recognised [OF op v]
    by (simp add: sample_entries_def andthen_def wrapped_def wrap_err_def wrap_res_def
        lift_def ret_def memory_fs_def Mem_ReadFileNoFollow_def Let_def maxOwnershipInventoryEntries_def)
  then show ?thesis using inventory_complete [OF run] by auto
qed

end
