(* ===== verification/Interleaving.thy ===== *)
theory Interleaving
  imports Prelude
begin

text \<open>
  Concurrent callers of one shared object. A caller is at a program point \<open>'pc\<close>, the object has state
  \<open>'g\<close>, and \<open>ts act p g\<close> is the next synchronisation operation of a caller at \<open>p\<close> under action \<open>act\<close>
  (\<open>None\<close> when it is blocked). A system is the object with the list of its callers; a schedule says which
  caller moves and how, so every interleaving is a run.
\<close>

definition system_step ::
  "('act \<Rightarrow> 'pc \<Rightarrow> 'g \<Rightarrow> ('g \<times> 'pc) option) \<Rightarrow> nat \<Rightarrow> 'act \<Rightarrow> 'g \<times> 'pc list \<Rightarrow> ('g \<times> 'pc list) option" where
  "system_step ts i act c =
     (case c of (g, pcs) \<Rightarrow>
        if i < length pcs then map_option (\<lambda>(g', p). (g', pcs[i := p])) (ts act (pcs ! i) g) else None)"

fun run ::
  "('act \<Rightarrow> 'pc \<Rightarrow> 'g \<Rightarrow> ('g \<times> 'pc) option) \<Rightarrow> (nat \<times> 'act) list \<Rightarrow> 'g \<times> 'pc list \<Rightarrow> ('g \<times> 'pc list) option" where
  "run ts [] c = Some c"
| "run ts ((i, act) # as) c = Option.bind (system_step ts i act c) (run ts as)"

inductive reach ::
  "('act \<Rightarrow> 'pc \<Rightarrow> 'g \<Rightarrow> ('g \<times> 'pc) option) \<Rightarrow> 'g \<times> 'pc list \<Rightarrow> 'g \<times> 'pc list \<Rightarrow> bool" for ts c0 where
  start: "reach ts c0 c0"
| step: "reach ts c0 c \<Longrightarrow> system_step ts i act c = Some c' \<Longrightarrow> reach ts c0 c'"

lemma system_stepE:
  assumes "system_step ts i act (g, pcs) = Some c'"
  obtains g' p' where "i < length pcs" "ts act (pcs ! i) g = Some (g', p')" "c' = (g', pcs[i := p'])"
  using assms by (auto simp: system_step_def split: if_splits)

lemma run_append: "run ts (as @ bs) c = Option.bind (run ts as c) (run ts bs)"
  by (induction ts as c rule: run.induct) (auto split: bind_splits)

lemma run_reach: "reach ts c0 c \<Longrightarrow> run ts as c = Some c' \<Longrightarrow> reach ts c0 c'"
  by (induction ts as c rule: run.induct) (auto simp: bind_eq_Some_conv intro: reach.step)

section \<open>Invariants\<close>

locale interleaving =
  fixes ts :: "'act \<Rightarrow> 'pc \<Rightarrow> 'g \<Rightarrow> ('g \<times> 'pc) option" and inv :: "'g \<times> 'pc list \<Rightarrow> bool" and c0 :: "'g \<times> 'pc list"
  assumes inv_start: "inv c0"
    and inv_step: "inv (g, pcs) \<Longrightarrow> i < length pcs \<Longrightarrow> ts act (pcs ! i) g = Some (g', p') \<Longrightarrow> inv (g', pcs[i := p'])"
begin

lemma inv_reach: "reach ts c0 c \<Longrightarrow> inv c"
proof (induction rule: reach.induct)
  case start
  show ?case by (rule inv_start)
next
  case (step c i act c')
  obtain g pcs where c: "c = (g, pcs)" by fastforce
  obtain g' p' where "i < length pcs" "ts act (pcs ! i) g = Some (g', p')" "c' = (g', pcs[i := p'])"
    using step.hyps(2) unfolding c by (rule system_stepE)
  then show ?case using inv_step step.IH unfolding c by blast
qed

end

section \<open>Counting callers\<close>

definition num :: "('a \<Rightarrow> bool) \<Rightarrow> 'a list \<Rightarrow> nat" where
  "num P xs = length (filter P xs)"

lemma num_update: "i < length xs \<Longrightarrow> num P (xs[i := x]) + of_bool (P (xs ! i)) = num P xs + of_bool (P x)"
proof (induction xs arbitrary: i)
  case (Cons y ys)
  then show ?case by (cases i) (auto simp: num_def split: if_splits dest: Cons.IH)
qed simp

lemma num_zero: "num P xs = 0 \<longleftrightarrow> (\<forall>x \<in> set xs. \<not> P x)"
  by (auto simp: num_def filter_empty_conv)

lemma num_replicate: "num P (replicate n x) = (if P x then n else 0)"
  by (simp add: num_def)

lemma num_two: "i < length xs \<Longrightarrow> j < length xs \<Longrightarrow> i \<noteq> j \<Longrightarrow> P (xs ! i) \<Longrightarrow> P (xs ! j) \<Longrightarrow> 2 \<le> num P xs"
proof -
  assume h: "i < length xs" "j < length xs" "i \<noteq> j" "P (xs ! i)" "P (xs ! j)"
  have "card {i, j} \<le> card {k. k < length xs \<and> P (xs ! k)}" using h by (intro card_mono) auto
  then show ?thesis using h(3) by (simp add: num_def length_filter_conv_card)
qed

end
