(* ===== verification/KeyedLock.thy ===== *)
theory KeyedLock
  imports Interleaving "HOL-Library.AList"
begin

text \<open>
  \<^verbatim>\<open>pkg/coordination/lock.go\<close>: cancellable mutexes created on demand per key and deleted with their last
  reference. Entries are objects on a heap, since a waiter keeps a pointer to an entry after it has
  left the critical section of \<^verbatim>\<open>mu\<close>; the token of an entry is the fill of its channel of capacity one.
\<close>

section \<open>State and operations\<close>

record lockEntry =
  le_token :: bool
  le_refs :: int

record KeyedLock =
  kl_entries :: "(string \<times> nat) list"
  kl_heap :: "nat \<Rightarrow> lockEntry"
  kl_next :: nat

definition NewKeyedLock :: KeyedLock where
  "NewKeyedLock = \<lparr>kl_entries = [], kl_heap = (\<lambda>_. \<lparr>le_token = False, le_refs = 0\<rparr>), kl_next = 0\<rparr>"

definition EntryCount :: "KeyedLock \<Rightarrow> nat" where
  "EntryCount locks = length (kl_entries locks)"

definition set_entry :: "nat \<Rightarrow> lockEntry \<Rightarrow> KeyedLock \<Rightarrow> KeyedLock" where
  "set_entry a entry locks = locks\<lparr>kl_heap := (kl_heap locks)(a := entry)\<rparr>"

datatype lock_pc =
    Idle "error option"
  | Waiting string nat
  | Locked string nat
  | Abandoning string nat
  | Unlocking string nat

datatype lock_action = CallLock string | Advance | Abort

text \<open>The critical section of \<^verbatim>\<open>Lock\<close>: finds or creates the entry and counts the reference.\<close>

definition Lock :: "string \<Rightarrow> KeyedLock \<Rightarrow> KeyedLock \<times> lock_pc" where
  "Lock key locks =
     (if key = [] then (locks, Idle (Some (errorf ''lock key is empty'')))
      else
        case map_of (kl_entries locks) key of
          Some a \<Rightarrow> (set_entry a ((kl_heap locks a)\<lparr>le_refs := le_refs (kl_heap locks a) + 1\<rparr>) locks, Waiting key a)
        | None \<Rightarrow>
            let a = kl_next locks
            in (set_entry a \<lparr>le_token = True, le_refs = 1\<rparr>
                  (locks\<lparr>kl_entries := AList.update key a (kl_entries locks), kl_next := Suc a\<rparr>), Waiting key a))"

definition dropReference :: "string \<Rightarrow> nat \<Rightarrow> KeyedLock \<Rightarrow> KeyedLock" where
  "dropReference key a locks =
     (let entry = (kl_heap locks a)\<lparr>le_refs := le_refs (kl_heap locks a) - 1\<rparr>;
          dropped = set_entry a entry locks
      in if le_refs entry = 0 \<and> map_of (kl_entries locks) key = Some a
         then dropped\<lparr>kl_entries := AList.delete key (kl_entries locks)\<rparr> else dropped)"

definition set_token :: "bool \<Rightarrow> nat \<Rightarrow> KeyedLock \<Rightarrow> KeyedLock" where
  "set_token b a locks = set_entry a ((kl_heap locks a)\<lparr>le_token := b\<rparr>) locks"

text \<open>
  \<open>Advance\<close> is the next operation of a caller: taking the token, returning it in the unlock function (which
  blocks while the channel is full), or dropping the reference.
\<close>

fun lock_step :: "lock_action \<Rightarrow> lock_pc \<Rightarrow> KeyedLock \<Rightarrow> (KeyedLock \<times> lock_pc) option" where
  "lock_step (CallLock key) (Idle r) locks = Some (Lock key locks)"
| "lock_step Abort (Idle r) locks = Some (locks, Idle (Some (errorf ''context canceled'')))"
| "lock_step Abort (Waiting key a) locks = Some (locks, Abandoning key a)"
| "lock_step Advance (Waiting key a) locks =
     (if le_token (kl_heap locks a) then Some (set_token False a locks, Locked key a) else None)"
| "lock_step Advance (Locked key a) locks =
     (if le_token (kl_heap locks a) then None else Some (set_token True a locks, Unlocking key a))"
| "lock_step Advance (Abandoning key a) locks =
     Some (dropReference key a locks, Idle (Some (errorf ''context canceled'')))"
| "lock_step Advance (Unlocking key a) locks = Some (dropReference key a locks, Idle None)"
| "lock_step act p locks = None"

section \<open>The invariant\<close>

fun refers :: "lock_pc \<Rightarrow> (string \<times> nat) option" where
  "refers (Idle r) = None"
| "refers (Waiting key a) = Some (key, a)"
| "refers (Locked key a) = Some (key, a)"
| "refers (Abandoning key a) = Some (key, a)"
| "refers (Unlocking key a) = Some (key, a)"

fun holds_entry :: "nat \<Rightarrow> lock_pc \<Rightarrow> bool" where
  "holds_entry a (Locked key b) \<longleftrightarrow> a = b"
| "holds_entry a p \<longleftrightarrow> False"

definition uses :: "nat \<Rightarrow> lock_pc \<Rightarrow> bool" where
  "uses a p \<longleftrightarrow> (\<exists>key. refers p = Some (key, a))"

text \<open>
  Every entry of the table is used, every used entry is in the table under its key, and a reference
  count is the number of users. The token of an entry is in its channel or with exactly one caller.
\<close>

definition lock_inv :: "KeyedLock \<times> lock_pc list \<Rightarrow> bool" where
  "lock_inv c = (case c of (locks, pcs) \<Rightarrow>
     distinct (map fst (kl_entries locks)) \<and> distinct (map snd (kl_entries locks))
     \<and> (\<forall>(key, a) \<in> set (kl_entries locks). a < kl_next locks \<and> num (uses a) pcs > 0
          \<and> le_refs (kl_heap locks a) = int (num (uses a) pcs)
          \<and> of_bool (le_token (kl_heap locks a)) + num (holds_entry a) pcs = 1)
     \<and> (\<forall>p \<in> set pcs. \<forall>key a. refers p = Some (key, a) \<longrightarrow> (key, a) \<in> set (kl_entries locks)))"

lemma uses_simps [simp]:
  "\<not> uses a (Idle r)" "uses a (Waiting key b) \<longleftrightarrow> a = b" "uses a (Locked key b) \<longleftrightarrow> a = b"
  "uses a (Abandoning key b) \<longleftrightarrow> a = b" "uses a (Unlocking key b) \<longleftrightarrow> a = b"
  by (auto simp: uses_def)

lemmas table_defs = set_entry_def set_token_def

text \<open>The invariant, one table entry and one caller at a time.\<close>

definition entry_ok :: "KeyedLock \<Rightarrow> lock_pc list \<Rightarrow> nat \<Rightarrow> bool" where
  "entry_ok locks pcs a \<longleftrightarrow> a < kl_next locks \<and> num (uses a) pcs > 0 \<and> le_refs (kl_heap locks a) = int (num (uses a) pcs)
     \<and> of_bool (le_token (kl_heap locks a)) + num (holds_entry a) pcs = 1"

lemma lock_inv_iff:
  "lock_inv (locks, pcs) \<longleftrightarrow> distinct (map fst (kl_entries locks)) \<and> distinct (map snd (kl_entries locks))
     \<and> (\<forall>key a. (key, a) \<in> set (kl_entries locks) \<longrightarrow> entry_ok locks pcs a)
     \<and> (\<forall>p \<in> set pcs. \<forall>key a. refers p = Some (key, a) \<longrightarrow> (key, a) \<in> set (kl_entries locks))"
  unfolding lock_inv_def entry_ok_def by auto

lemma refers_update:
  "p \<in> set (pcs[i := p']) \<Longrightarrow> p = p' \<or> p \<in> set pcs"
  using set_update_subset_insert [of pcs i p'] by auto

lemma inv_entry:
  assumes "lock_inv (locks, pcs)" and "i < length pcs" and "refers (pcs ! i) = Some (key, a)"
  shows "(key, a) \<in> set (kl_entries locks)" "entry_ok locks pcs a"
  using assms unfolding lock_inv_iff by (metis nth_mem)+

lemma unused_fresh:
  assumes "lock_inv (locks, pcs)"
  shows "num (uses (kl_next locks)) pcs = 0" "kl_next locks \<notin> snd ` set (kl_entries locks)"
    "num (holds_entry (kl_next locks)) pcs = 0"
proof -
  have e: "a < kl_next locks" if "(key, a) \<in> set (kl_entries locks)" for key a
    using assms that unfolding lock_inv_iff entry_ok_def by blast
  then show "kl_next locks \<notin> snd ` set (kl_entries locks)" by force
  have "\<not> uses (kl_next locks) p" if "p \<in> set pcs" for p
    using assms that e unfolding lock_inv_iff uses_def by blast
  then show "num (uses (kl_next locks)) pcs = 0" "num (holds_entry (kl_next locks)) pcs = 0"
    unfolding num_zero by (fastforce elim: holds_entry.elims)+
qed

text \<open>A move that keeps the table and what the caller refers to.\<close>

lemma move_inv:
  assumes "lock_inv (locks, pcs)" and i: "i < length pcs" and "refers p' = refers (pcs ! i)" and "refers (pcs ! i) = Some (key, a)"
    and "kl_entries locks' = kl_entries locks" "kl_next locks' = kl_next locks"
    and "\<And>b. le_refs (kl_heap locks' b) = le_refs (kl_heap locks b)" "\<And>b. b \<noteq> a \<Longrightarrow> le_token (kl_heap locks' b) = le_token (kl_heap locks b)"
    and "of_bool (le_token (kl_heap locks' a)) + of_bool (holds_entry a p') = (of_bool (le_token (kl_heap locks a)) + of_bool (holds_entry a (pcs ! i)) :: nat)"
  shows "lock_inv (locks', pcs[i := p'])"
proof -
  have u: "num (uses b) (pcs[i := p']) = num (uses b) pcs" for b
    using num_update [OF i, of "uses b" p'] assms(3) by (simp add: uses_def)
  have nh: "\<not> holds_entry b p" if "refers p = Some (key, a)" "b \<noteq> a" for b p using that by (cases p) auto
  have h: "num (holds_entry b) (pcs[i := p']) = num (holds_entry b) pcs" if "b \<noteq> a" for b
    using num_update [OF i, of "holds_entry b" p'] nh [OF _ that] assms(3,4) by simp
  have "entry_ok locks' (pcs[i := p']) b" if "entry_ok locks pcs b" for b
    using that u [of b] h [of b] num_update [OF i, of "holds_entry a" p'] assms(5-9)
    unfolding entry_ok_def by (cases "b = a") auto
  then show ?thesis using assms(1,3-5) refers_update [of _ pcs i p'] i unfolding lock_inv_iff by (metis nth_mem)
qed

lemma lock_existing_inv:
  assumes inv: "lock_inv (locks, pcs)" and i: "i < length pcs" "pcs ! i = Idle r" and a: "map_of (kl_entries locks) key = Some a"
  shows "lock_inv (set_entry a ((kl_heap locks a)\<lparr>le_refs := le_refs (kl_heap locks a) + 1\<rparr>) locks, pcs[i := Waiting key a])"
proof -
  have u: "num (uses b) (pcs[i := Waiting key a]) = num (uses b) pcs + of_bool (b = a)" for b
    using num_update [OF i(1), of "uses b" "Waiting key a"] i(2) by simp
  have h: "num (holds_entry b) (pcs[i := Waiting key a]) = num (holds_entry b) pcs" for b
    using num_update [OF i(1), of "holds_entry b" "Waiting key a"] i(2) by simp
  have "(key, a) \<in> set (kl_entries locks)" using a by (rule map_of_SomeD)
  then show ?thesis
    using inv unfolding lock_inv_iff entry_ok_def
    by (auto simp: u h table_defs dest: refers_update)
qed

lemma lock_new_inv:
  assumes inv: "lock_inv (locks, pcs)" and i: "i < length pcs" "pcs ! i = Idle r" and a: "map_of (kl_entries locks) key = None"
  shows "lock_inv (set_entry (kl_next locks) \<lparr>le_token = True, le_refs = 1\<rparr>
    (locks\<lparr>kl_entries := AList.update key (kl_next locks) (kl_entries locks), kl_next := Suc (kl_next locks)\<rparr>),
    pcs[i := Waiting key (kl_next locks)])"
proof -
  let ?a = "kl_next locks"
  have u: "num (uses b) (pcs[i := Waiting key ?a]) = num (uses b) pcs + of_bool (b = ?a)" for b
    using num_update [OF i(1), of "uses b" "Waiting key ?a"] i(2) by simp
  have h: "num (holds_entry b) (pcs[i := Waiting key ?a]) = num (holds_entry b) pcs" for b
    using num_update [OF i(1), of "holds_entry b" "Waiting key ?a"] i(2) by simp
  have "key \<notin> fst ` set xs \<Longrightarrow> AList.update key v xs = xs @ [(key, v)]" for xs and v :: nat
    by (induction xs) auto
  then have e: "AList.update key ?a (kl_entries locks) = kl_entries locks @ [(key, ?a)]" "key \<notin> fst ` set (kl_entries locks)"
    using a by (simp_all add: map_of_eq_None_iff)
  show ?thesis
    using inv unused_fresh [OF inv] e unfolding lock_inv_iff entry_ok_def
    by (auto simp: u h table_defs less_Suc_eq dest!: refers_update)
qed

lemma drop_inv:
  assumes inv: "lock_inv (locks, pcs)" and i: "i < length pcs" "refers (pcs ! i) = Some (key, a)" "\<not> holds_entry a (pcs ! i)"
  shows "lock_inv (dropReference key a locks, pcs[i := Idle r])"
proof -
  have un: "uses b (pcs ! i) \<longleftrightarrow> b = a" for b using i(2) by (auto simp: uses_def)
  have nh: "\<not> holds_entry b (pcs ! i)" for b using i(2,3) by (cases "pcs ! i") auto
  have u: "num (uses b) (pcs[i := Idle r]) + of_bool (b = a) = num (uses b) pcs" for b
    using num_update [OF i(1), of "uses b" "Idle r"] un by simp
  have h: "num (holds_entry b) (pcs[i := Idle r]) = num (holds_entry b) pcs" for b
    using num_update [OF i(1), of "holds_entry b" "Idle r"] nh by simp
  note entry = inv_entry [OF inv i(1,2)]
  have unique: "k = key" if "(k, a) \<in> set (kl_entries locks)" for k
    using inv entry(1) that unfolding lock_inv_iff by (metis distinct_map inj_onD prod.inject snd_conv)
  have key: "map_of (kl_entries locks) key = Some a" using inv entry(1) unfolding lock_inv_iff by (simp add: map_of_eq_Some_iff)
  have refs: "le_refs (kl_heap locks a) - 1 = int (num (uses a) (pcs[i := Idle r]))"
    using entry(2) u [of a] unfolding entry_ok_def by simp
  have keeps: "entry_ok (dropReference key a locks) (pcs[i := Idle r]) b" if "(k, b) \<in> set (kl_entries locks)" "num (uses b) (pcs[i := Idle r]) \<noteq> 0" for k b
    using that inv u [of b] h refs unfolding lock_inv_iff entry_ok_def
    by (cases "b = a") (auto simp: dropReference_def table_defs Let_def)
  have others: "num (uses b) (pcs[i := Idle r]) \<noteq> 0" if "(k, b) \<in> set (kl_entries locks)" "b \<noteq> a" for k b
    using that inv u [of b] unfolding lock_inv_iff entry_ok_def by auto
  show ?thesis
  proof (cases "num (uses a) (pcs[i := Idle r]) = 0")
    case True
    then have e: "kl_entries (dropReference key a locks) = AList.delete key (kl_entries locks)"
      using refs key by (simp add: dropReference_def table_defs Let_def)
    have "k = key \<longleftrightarrow> b = a" if "(k, b) \<in> set (kl_entries locks)" for k b
      using that unique inv entry(1) unfolding lock_inv_iff by (metis distinct_map fst_conv inj_onD prod.inject)
    then have mem: "(k, b) \<in> set (AList.delete key (kl_entries locks)) \<longleftrightarrow> (k, b) \<in> set (kl_entries locks) \<and> b \<noteq> a" for k b
      by (auto simp: AList.delete_eq)
    have "distinct (map fst (AList.delete key (kl_entries locks)))" "distinct (map snd (AList.delete key (kl_entries locks)))"
      using inv unfolding lock_inv_iff by (simp_all add: AList.delete_eq distinct_map_filter)
    moreover have "(k, b) \<in> set (kl_entries locks) \<and> b \<noteq> a" if "p \<in> set (pcs[i := Idle r])" "refers p = Some (k, b)" for p k b
    proof -
      have "p \<in> set pcs" using refers_update [OF that(1)] that(2) by auto
      moreover have "b \<noteq> a" using True that unfolding num_zero uses_def by auto
      ultimately show ?thesis using inv that(2) unfolding lock_inv_iff by blast
    qed
    ultimately show ?thesis using keeps others unfolding lock_inv_iff e by (auto simp: mem)
  next
    case False
    then have e: "kl_entries (dropReference key a locks) = kl_entries locks"
      using refs by (simp add: dropReference_def table_defs Let_def)
    then show ?thesis using inv keeps others False unfolding lock_inv_iff
      by (metis refers.simps(1) refers_update option.distinct(1))
  qed
qed

lemma idle_inv:
  assumes "lock_inv (locks, pcs)" and i: "i < length pcs" "pcs ! i = Idle r"
  shows "lock_inv (locks, pcs[i := Idle r'])"
proof -
  have "num (uses b) (pcs[i := Idle r']) = num (uses b) pcs" "num (holds_entry b) (pcs[i := Idle r']) = num (holds_entry b) pcs" for b
    using num_update [OF i(1), of "uses b" "Idle r'"] num_update [OF i(1), of "holds_entry b" "Idle r'"] i(2) by simp_all
  then show ?thesis using assms(1) unfolding lock_inv_iff entry_ok_def by (auto dest!: refers_update)
qed

lemma Lock_inv:
  assumes "lock_inv (locks, pcs)" and i: "i < length pcs" "pcs ! i = Idle r" and "Lock key locks = (locks', p')"
  shows "lock_inv (locks', pcs[i := p'])"
proof (cases "key = []")
  case True
  then show ?thesis using assms(4) idle_inv [OF assms(1-3)] by (auto simp: Lock_def)
next
  case False
  then show ?thesis using assms(4) lock_existing_inv [OF assms(1-3), of key] lock_new_inv [OF assms(1-3), of key]
    by (cases "map_of (kl_entries locks) key") (auto simp: Lock_def Let_def)
qed

lemma lock_inv_step:
  assumes inv: "lock_inv (locks, pcs)" and i: "i < length pcs" and st: "lock_step act (pcs ! i) locks = Some (locks', p')"
  shows "lock_inv (locks', pcs[i := p'])"
  using st
proof (cases "(act, pcs ! i, locks)" rule: lock_step.cases)
  case (1 key r locks)
  then show ?thesis using st Lock_inv [OF inv i, of r key] by auto
next
  case (2 r locks)
  then show ?thesis using st idle_inv [OF inv i, of r] by auto
next
  case (3 key a locks)
  then show ?thesis using st by (intro move_inv [OF inv i, of p' key a]) auto
next
  case (4 key a locks)
  then show ?thesis using st by (intro move_inv [OF inv i, of p' key a]) (auto simp: table_defs split: if_splits)
next
  case (5 key a locks)
  then show ?thesis using st by (intro move_inv [OF inv i, of p' key a]) (auto simp: table_defs split: if_splits)
next
  case (6 key a locks)
  then show ?thesis using st drop_inv [OF inv i, of key a] by auto
next
  case (7 key a locks)
  then show ?thesis using st drop_inv [OF inv i, of key a] by auto
qed auto

interpretation lock: interleaving lock_step lock_inv "(NewKeyedLock, replicate n (Idle None))"
  for n :: nat
proof unfold_locales
  show "lock_inv (NewKeyedLock, replicate n (Idle None))" by (auto simp: lock_inv_iff NewKeyedLock_def)
qed (rule lock_inv_step)

section \<open>Mutual exclusion and bounded state\<close>

text \<open>
  (C14) The keyed lock excludes: in every interleaving, two callers never hold one key at the same time,
  although entries are deleted and created again while others wait.
\<close>

theorem keyed_lock_exclusive:
  assumes "reach lock_step (NewKeyedLock, replicate n (Idle None)) (locks, pcs)"
    and "i < length pcs" "j < length pcs" "pcs ! i = Locked key a" "pcs ! j = Locked key b"
  shows "i = j"
proof (rule ccontr)
  assume ij: "i \<noteq> j"
  have inv: "lock_inv (locks, pcs)" using lock.inv_reach [OF assms(1)] .
  have e: "(key, a) \<in> set (kl_entries locks)" "entry_ok locks pcs a" "(key, b) \<in> set (kl_entries locks)"
    using inv_entry [OF inv assms(2)] inv_entry [OF inv assms(3)] assms(4,5) by simp_all
  have "a = b" using inv e(1,3) unfolding lock_inv_iff by (metis map_of_eq_Some_iff option.inject)
  then have "2 \<le> num (holds_entry a) pcs" using num_two [OF assms(2,3) ij, of "holds_entry a"] assms(4,5) by simp
  then show False using e(2) by (simp add: entry_ok_def)
qed

text \<open>
  The table stays bounded and nobody waits for a free key: it has one entry per key that some
  caller waits for, holds or is about to drop, so it is empty when all callers are idle, and a caller
  that waits for a key finds the token unless another caller holds that key.
\<close>

theorem keyed_lock_bounded:
  assumes "reach lock_step (NewKeyedLock, replicate n (Idle None)) (locks, pcs)"
  shows "EntryCount locks = card {key. \<exists>p \<in> set pcs. \<exists>a. refers p = Some (key, a)}
    \<and> (\<forall>i < length pcs. \<forall>key a. pcs ! i = Waiting key a \<longrightarrow>
         lock_step Advance (pcs ! i) locks = Some (set_token False a locks, Locked key a) \<or> (\<exists>j < length pcs. pcs ! j = Locked key a))"
proof (intro conjI allI impI)
  have inv: "lock_inv (locks, pcs)" using lock.inv_reach [OF assms] .
  have "fst ` set (kl_entries locks) = {key. \<exists>p \<in> set pcs. \<exists>a. refers p = Some (key, a)}"
  proof (intro equalityI subsetI)
    fix key assume "key \<in> fst ` set (kl_entries locks)"
    then obtain a where a: "(key, a) \<in> set (kl_entries locks)" by auto
    then have "num (uses a) pcs \<noteq> 0" using inv unfolding lock_inv_iff entry_ok_def by blast
    then obtain p k where p: "p \<in> set pcs" "refers p = Some (k, a)" unfolding num_zero uses_def by blast
    then have "(k, a) \<in> set (kl_entries locks)" using inv unfolding lock_inv_iff by blast
    then have "k = key" using a inv unfolding lock_inv_iff by (metis distinct_map inj_onD prod.inject snd_conv)
    then show "key \<in> {key. \<exists>p \<in> set pcs. \<exists>a. refers p = Some (key, a)}" using p by blast
  next
    fix key assume "key \<in> {key. \<exists>p \<in> set pcs. \<exists>a. refers p = Some (key, a)}"
    then obtain p a where "p \<in> set pcs" "refers p = Some (key, a)" by blast
    then have "(key, a) \<in> set (kl_entries locks)" using inv unfolding lock_inv_iff by blast
    then show "key \<in> fst ` set (kl_entries locks)" by force
  qed
  moreover have "card (fst ` set (kl_entries locks)) = length (kl_entries locks)"
    using inv unfolding lock_inv_iff by (metis distinct_card length_map list.set_map)
  ultimately show "EntryCount locks = card {key. \<exists>p \<in> set pcs. \<exists>a. refers p = Some (key, a)}" by (simp add: EntryCount_def)
  fix i key a assume i: "i < length pcs" "pcs ! i = Waiting key a"
  have e: "entry_ok locks pcs a" "(key, a) \<in> set (kl_entries locks)" using inv_entry [OF inv i(1)] i(2) by simp_all
  show "lock_step Advance (pcs ! i) locks = Some (set_token False a locks, Locked key a) \<or> (\<exists>j < length pcs. pcs ! j = Locked key a)"
  proof (cases "le_token (kl_heap locks a)")
    case False
    then have "num (holds_entry a) pcs \<noteq> 0" using e(1) by (simp add: entry_ok_def)
    then obtain p where "p \<in> set pcs" "holds_entry a p" unfolding num_zero by blast
    then obtain j k where j: "j < length pcs" "pcs ! j = Locked k a" by (auto simp: in_set_conv_nth elim!: holds_entry.elims)
    then have "(k, a) \<in> set (kl_entries locks)" using inv_entry [OF inv j(1)] by simp
    then have "k = key" using e(2) inv unfolding lock_inv_iff by (metis distinct_map inj_onD prod.inject snd_conv)
    then show ?thesis using j by blast
  qed (simp add: i(2))
qed

section \<open>A sample run\<close>

definition sample_lock_schedule :: "(nat \<times> lock_action) list" where
  "sample_lock_schedule = [(0, CallLock ''lv''), (1, CallLock ''lv''), (0, Advance)]"

lemma sample_lock_run:
  obtains locks where "run lock_step sample_lock_schedule (NewKeyedLock, replicate 2 (Idle None)) = Some (locks, [Locked ''lv'' 0, Waiting ''lv'' 0])"
  by (simp add: sample_lock_schedule_def system_step_def Lock_def NewKeyedLock_def table_defs numeral_eq_Suc Let_def)

theorem keyed_lock_exclusive_witness:
  "\<exists>locks. run lock_step sample_lock_schedule (NewKeyedLock, replicate 2 (Idle None)) = Some (locks, [Locked ''lv'' 0, Waiting ''lv'' 0])
     \<and> lock_step Advance (Waiting ''lv'' 0) locks = None"
proof -
  obtain locks where run: "run lock_step sample_lock_schedule (NewKeyedLock, replicate 2 (Idle None)) = Some (locks, [Locked ''lv'' 0, Waiting ''lv'' 0])"
    by (rule sample_lock_run)
  note r = run_reach [OF reach.start run]
  have "lock_step Advance (Waiting ''lv'' 0) locks = None"
  proof (rule ccontr)
    assume "lock_step Advance (Waiting ''lv'' 0) locks \<noteq> None"
    then obtain locks' where "lock_step Advance (Waiting ''lv'' 0) locks = Some (locks', Locked ''lv'' 0)" by (auto split: if_splits)
    then have "system_step lock_step 1 Advance (locks, [Locked ''lv'' 0, Waiting ''lv'' 0]) = Some (locks', [Locked ''lv'' 0, Locked ''lv'' 0])"
      by (simp add: system_step_def)
    from keyed_lock_exclusive [OF reach.step [OF r this], of 0 1 "''lv''" 0 0] show False by simp
  qed
  then show ?thesis using run by blast
qed

theorem keyed_lock_bounded_witness:
  "\<exists>locks. run lock_step sample_lock_schedule (NewKeyedLock, replicate 2 (Idle None)) = Some (locks, [Locked ''lv'' 0, Waiting ''lv'' 0])
     \<and> EntryCount locks = 1"
proof -
  obtain locks where run: "run lock_step sample_lock_schedule (NewKeyedLock, replicate 2 (Idle None)) = Some (locks, [Locked ''lv'' 0, Waiting ''lv'' 0])"
    by (rule sample_lock_run)
  have "{key. \<exists>p \<in> set [Locked ''lv'' 0, Waiting ''lv'' 0]. \<exists>a. refers p = Some (key, a)} = {''lv''}" by auto
  then have "EntryCount locks = 1" using conjunct1 [OF keyed_lock_bounded [OF run_reach [OF reach.start run]]] by simp
  then show ?thesis using run by blast
qed

end
