(* ===== verification/LeaseEvidence.thy ===== *)
theory LeaseEvidence
  imports Codec "HOL-Library.Finite_Map"
begin

text \<open>
  \<^verbatim>\<open>pkg/coordination\<close>, files \<^verbatim>\<open>lease_evidence.go\<close>, \<^verbatim>\<open>bootstrap.go\<close>, \<^verbatim>\<open>discovery.go\<close>, \<^verbatim>\<open>fresh_bootstrap.go\<close> and
  \<^verbatim>\<open>approval.go\<close>: the closed groups of annotations that the controller keeps on its Lease. A group is a
  fixed set of keys with one record behind it; the parser of a group tells absence from a complete
  record and refuses anything else in the group's namespace. Annotation maps are finite maps; the
  loops over a Go map only count and look for an unknown key, so their order does not matter.
\<close>

section \<open>Time instants\<close>

text \<open>Nanoseconds since the start of year 0 of the proleptic Gregorian calendar, for \<^verbatim>\<open>After\<close>, \<^verbatim>\<open>Before\<close> and \<^verbatim>\<open>Sub\<close>.\<close>

definition days_before_year :: "nat \<Rightarrow> nat" where
  "days_before_year y = 365 * y + (y + 3) div 4 + (y + 399) div 400 - (y + 99) div 100"

definition days_before_month :: "nat \<Rightarrow> nat \<Rightarrow> nat" where
  "days_before_month m y = sum_list (map (\<lambda>k. days_in k y) [1..<m])"

definition unix_nanos :: "civil_time \<Rightarrow> int" where
  "unix_nanos t =
     (((int (days_before_year (t_year t) + days_before_month (t_month t) (t_year t) + t_day t) * 24 + int (t_hour t)) * 60
       + int (t_minute t)) * 60 + int (t_second t)) * 1000000000 + int (decimal_value (t_nanos t))"

definition hour_nanos :: int where "hour_nanos = 3600 * 1000000000"

definition validateCoordinationTimestamp :: "string \<Rightarrow> string \<Rightarrow> error option" where
  "validateCoordinationTimestamp name val = ensure (canonical_rfc3339 val) (name @ '' timestamp must be canonical RFC 3339 UTC'')"

definition parse_instant :: "string \<Rightarrow> civil_time res" where
  "parse_instant val = (case parse_rfc3339 val of None \<Rightarrow> Inl (errorf ''cannot parse time'') | Some t \<Rightarrow> Inr t)"

definition parseCoordinationTimestamp :: "string \<Rightarrow> string \<Rightarrow> civil_time res" where
  "parseCoordinationTimestamp name val = require (validateCoordinationTimestamp name val) (parse_instant val)"

section \<open>Annotation groups\<close>

type_synonym annotations = "(string, string) fmap"

text \<open>\<^verbatim>\<open>annotations[key]\<close>: the zero value when the key is absent.\<close>

definition at :: "annotations \<Rightarrow> string \<Rightarrow> string" where
  "at annotations key = (case fmlookup annotations key of None \<Rightarrow> [] | Some v \<Rightarrow> v)"

text \<open>\<^verbatim>\<open>for key, value := range encoded { result[key] = value }\<close>\<close>

fun put :: "(string \<times> string) list \<Rightarrow> annotations \<Rightarrow> annotations" where
  "put [] annotations = annotations"
| "put ((key, v) # kvs) annotations = put kvs (fmupd key v annotations)"

text \<open>\<^verbatim>\<open>for key := range keys { delete(result, key) }\<close>\<close>

definition clear :: "string list \<Rightarrow> annotations \<Rightarrow> annotations" where
  "clear keys annotations = fmdrop_set (set keys) annotations"

definition parse_group ::
  "string list \<Rightarrow> (string \<Rightarrow> bool) \<Rightarrow> ((string \<Rightarrow> string) \<Rightarrow> 'r res) \<Rightarrow> annotations \<Rightarrow> 'r option res" where
  "parse_group keys namespaced build annotations =
     (let found = length (filter (\<lambda>key. fmlookup annotations key \<noteq> None) keys)
      in if fBex (fmdom annotations) (\<lambda>key. namespaced key \<and> key \<notin> set keys) then Inl (errorf ''unknown annotation'')
         else if found = 0 then Inr None
         else if found \<noteq> length keys then Inl (errorf ''annotation group is incomplete'')
         else map_sum id Some (build (at annotations)))"

definition checked :: "('r \<Rightarrow> error option) \<Rightarrow> 'r \<Rightarrow> 'r res" where
  "checked valid r = require (valid r) (Inr r)"

section \<open>Holder evidence\<close>

definition holderAnnotationKeys :: "string list" where
  "holderAnnotationKeys = [''coordinationSchemaVersion'', ''holderPodUID'', ''holderNodeName'', ''holderCSINodeID'',
     ''holderInstanceID'', ''holderZone'', ''holderInstallationID'', ''holderActiveClusterUID'']"

record HolderEvidence =
  he_SchemaVersion :: string
  he_PodUID :: string
  he_NodeName :: string
  he_CSINodeID :: string
  he_InstanceID :: string
  he_Zone :: string
  he_InstallationID :: string
  he_ActiveClusterUID :: string

text \<open>\<^verbatim>\<open>^[a-z0-9](?:[a-z0-9.-]*[a-z0-9])?$\<close>\<close>

definition kubernetesNodeNamePattern :: "string \<Rightarrow> bool" where
  "kubernetesNodeNamePattern s \<longleftrightarrow> s \<noteq> [] \<and> is_lower_alnum (hd s) \<and> is_lower_alnum (last s)
     \<and> list_all (\<lambda>c. is_lower_alnum c \<or> c = CHR ''.'' \<or> c = CHR ''-'') s"

definition node_binding :: "string \<Rightarrow> string \<Rightarrow> string \<Rightarrow> string \<Rightarrow> error option" where
  "node_binding node zone instance_id msg =
     ensure (case split_on CHR ''/'' node of a # b # _ \<Rightarrow> zone = a \<and> instance_id = b | _ \<Rightarrow> False) msg"

definition HolderEvidence_Validate :: "HolderEvidence \<Rightarrow> error option" where
  "HolderEvidence_Validate evidence = errs
     [ensure (he_SchemaVersion evidence = SchemaVersionV1) ''coordination schema version is unsupported'',
      wrap_err ''holder Pod UID'' (ValidateOperationID (he_PodUID evidence)),
      ensure (\<not> (length (he_NodeName evidence) = 0 \<or> length (he_NodeName evidence) > 253 \<or> \<not> kubernetesNodeNamePattern (he_NodeName evidence)))
        ''holder node name is not a bounded DNS name'',
      wrap_err ''holder CSI node ID'' (ValidateNodeID (he_CSINodeID evidence)),
      node_binding (he_CSINodeID evidence) (he_Zone evidence) (he_InstanceID evidence) ''holder CSI node ID disagrees with zone or Instance ID'',
      ValidateInstallationID (he_InstallationID evidence),
      ValidateClusterUID (he_ActiveClusterUID evidence)]"

definition NewHolderEvidence ::
  "string \<Rightarrow> string \<Rightarrow> string \<Rightarrow> string \<Rightarrow> string \<Rightarrow> string \<Rightarrow> string \<Rightarrow> HolderEvidence res" where
  "NewHolderEvidence podUID nodeName csiNodeID instanceID zone installationID clusterUID =
     checked HolderEvidence_Validate \<lparr>he_SchemaVersion = SchemaVersionV1, he_PodUID = podUID, he_NodeName = nodeName,
       he_CSINodeID = csiNodeID, he_InstanceID = instanceID, he_Zone = zone, he_InstallationID = installationID,
       he_ActiveClusterUID = clusterUID\<rparr>"

definition holder_annotations :: "HolderEvidence \<Rightarrow> (string \<times> string) list" where
  "holder_annotations evidence =
     [(''coordinationSchemaVersion'', he_SchemaVersion evidence), (''holderPodUID'', he_PodUID evidence),
      (''holderNodeName'', he_NodeName evidence), (''holderCSINodeID'', he_CSINodeID evidence),
      (''holderInstanceID'', he_InstanceID evidence), (''holderZone'', he_Zone evidence),
      (''holderInstallationID'', he_InstallationID evidence), (''holderActiveClusterUID'', he_ActiveClusterUID evidence)]"

definition HolderEvidence_Annotations :: "HolderEvidence \<Rightarrow> (string \<times> string) list res" where
  "HolderEvidence_Annotations evidence = require (HolderEvidence_Validate evidence) (Inr (holder_annotations evidence))"

definition holder_of :: "(string \<Rightarrow> string) \<Rightarrow> HolderEvidence" where
  "holder_of f = \<lparr>he_SchemaVersion = f ''coordinationSchemaVersion'', he_PodUID = f ''holderPodUID'',
     he_NodeName = f ''holderNodeName'', he_CSINodeID = f ''holderCSINodeID'', he_InstanceID = f ''holderInstanceID'',
     he_Zone = f ''holderZone'', he_InstallationID = f ''holderInstallationID'', he_ActiveClusterUID = f ''holderActiveClusterUID''\<rparr>"

definition ParseHolderEvidence :: "annotations \<Rightarrow> HolderEvidence option res" where
  "ParseHolderEvidence =
     parse_group holderAnnotationKeys (\<lambda>key. has_prefix key ''holder'') (\<lambda>f. checked HolderEvidence_Validate (holder_of f))"

section \<open>The graceful-release marker\<close>

definition gracefulAnnotationKeys :: "string list" where
  "gracefulAnnotationKeys = [''gracefulReleaseSchemaVersion'', ''gracefulReleaseState'', ''gracefulReleaseHolderPodUID'',
     ''gracefulReleaseRequestID'', ''gracefulReleasedAt'', ''gracefulReleaseLeaseUID'', ''gracefulReleaseInstallationID'',
     ''gracefulReleaseActiveClusterUID'']"

record GracefulRelease =
  gr_SchemaVersion :: string
  gr_State :: string
  gr_HolderPodUID :: string
  gr_RequestID :: string
  gr_ReleasedAt :: string
  gr_LeaseUID :: string
  gr_InstallationID :: string
  gr_ActiveClusterUID :: string

definition GracefulRelease_Validate :: "GracefulRelease \<Rightarrow> error option" where
  "GracefulRelease_Validate release = errs
     [ensure (\<not> (gr_SchemaVersion release \<noteq> SchemaVersionV1 \<or> gr_State release \<noteq> ''Released''))
        ''graceful release schema or state is unsupported'',
      wrap_err ''graceful release holder Pod UID'' (ValidateOperationID (gr_HolderPodUID release)),
      wrap_err ''graceful release request ID'' (ValidateOperationID (gr_RequestID release)),
      wrap_err ''graceful release Lease UID'' (ValidateOperationID (gr_LeaseUID release)),
      ValidateInstallationID (gr_InstallationID release),
      ValidateClusterUID (gr_ActiveClusterUID release),
      validateCoordinationTimestamp ''graceful release'' (gr_ReleasedAt release)]"

definition NewGracefulRelease :: "HolderEvidence \<Rightarrow> string \<Rightarrow> string \<Rightarrow> civil_time \<Rightarrow> GracefulRelease res" where
  "NewGracefulRelease holder leaseUID requestID releasedAt =
     require (HolderEvidence_Validate holder)
       (checked GracefulRelease_Validate
         \<lparr>gr_SchemaVersion = SchemaVersionV1, gr_State = ''Released'', gr_HolderPodUID = he_PodUID holder, gr_RequestID = requestID,
          gr_ReleasedAt = format_rfc3339 releasedAt, gr_LeaseUID = leaseUID, gr_InstallationID = he_InstallationID holder,
          gr_ActiveClusterUID = he_ActiveClusterUID holder\<rparr>)"

definition ValidateHandoff :: "GracefulRelease \<Rightarrow> string \<Rightarrow> string \<Rightarrow> string \<Rightarrow> HolderEvidence \<Rightarrow> error option" where
  "ValidateHandoff release leaseUID installationID clusterUID previous = errs
     [GracefulRelease_Validate release,
      HolderEvidence_Validate previous,
      ensure (\<not> (gr_LeaseUID release \<noteq> leaseUID \<or> gr_InstallationID release \<noteq> installationID
          \<or> gr_ActiveClusterUID release \<noteq> clusterUID \<or> gr_HolderPodUID release \<noteq> he_PodUID previous
          \<or> he_InstallationID previous \<noteq> installationID \<or> he_ActiveClusterUID previous \<noteq> clusterUID))
        ''graceful release marker disagrees with Lease, previous holder, or runtime identity'']"

definition release_annotations :: "GracefulRelease \<Rightarrow> (string \<times> string) list" where
  "release_annotations release =
     [(''gracefulReleaseSchemaVersion'', gr_SchemaVersion release), (''gracefulReleaseState'', gr_State release),
      (''gracefulReleaseHolderPodUID'', gr_HolderPodUID release), (''gracefulReleaseRequestID'', gr_RequestID release),
      (''gracefulReleasedAt'', gr_ReleasedAt release), (''gracefulReleaseLeaseUID'', gr_LeaseUID release),
      (''gracefulReleaseInstallationID'', gr_InstallationID release), (''gracefulReleaseActiveClusterUID'', gr_ActiveClusterUID release)]"

definition GracefulRelease_Annotations :: "GracefulRelease \<Rightarrow> (string \<times> string) list res" where
  "GracefulRelease_Annotations release = require (GracefulRelease_Validate release) (Inr (release_annotations release))"

definition release_of :: "(string \<Rightarrow> string) \<Rightarrow> GracefulRelease" where
  "release_of f = \<lparr>gr_SchemaVersion = f ''gracefulReleaseSchemaVersion'', gr_State = f ''gracefulReleaseState'',
     gr_HolderPodUID = f ''gracefulReleaseHolderPodUID'', gr_RequestID = f ''gracefulReleaseRequestID'',
     gr_ReleasedAt = f ''gracefulReleasedAt'', gr_LeaseUID = f ''gracefulReleaseLeaseUID'',
     gr_InstallationID = f ''gracefulReleaseInstallationID'', gr_ActiveClusterUID = f ''gracefulReleaseActiveClusterUID''\<rparr>"

definition ParseGracefulRelease :: "annotations \<Rightarrow> GracefulRelease option res" where
  "ParseGracefulRelease =
     parse_group gracefulAnnotationKeys (\<lambda>key. has_prefix key ''gracefulRelease'') (\<lambda>f. checked GracefulRelease_Validate (release_of f))"

definition ClearGracefulReleaseAnnotations :: "annotations \<Rightarrow> annotations" where
  "ClearGracefulReleaseAnnotations = clear gracefulAnnotationKeys"

section \<open>The bootstrap journal\<close>

definition bootstrap_key :: "string \<Rightarrow> string" where "bootstrap_key name = ''sfs-subdir-bootstrap-'' @ name"

definition bootstrapAnnotationKeys :: "string list" where
  "bootstrapAnnotationKeys = map bootstrap_key [''schema-version'', ''attempt-id'', ''installation-id'', ''active-cluster-uid'',
     ''parent-filesystem-id'', ''controller-node-id'', ''controller-instance-id'', ''controller-zone'',
     ''empty-inventory-observed-at'', ''phase'', ''claim-temp-path'']"

record BootstrapAttempt =
  ba_SchemaVersion :: string
  ba_AttemptID :: string
  ba_InstallationID :: string
  ba_ActiveClusterUID :: string
  ba_ParentFilesystemID :: string
  ba_ControllerNodeID :: string
  ba_ControllerInstanceID :: string
  ba_ControllerZone :: string
  ba_EmptyInventoryObservedAt :: string
  ba_Phase :: string
  ba_ClaimTempPath :: string

definition claim_temp_path :: "string \<Rightarrow> string" where
  "claim_temp_path attemptID = ''/.sfs-subdir-csi-owner.'' @ attemptID @ ''.tmp''"

definition BootstrapAttempt_Validate :: "BootstrapAttempt \<Rightarrow> error option" where
  "BootstrapAttempt_Validate attempt = errs
     [ensure (\<not> (ba_SchemaVersion attempt \<noteq> ''1'' \<or> ba_Phase attempt \<noteq> ''Prepared'')) ''bootstrap schema or phase is unsupported'',
      wrap_err ''bootstrap attempt ID'' (ValidateOperationID (ba_AttemptID attempt)),
      ValidateInstallationID (ba_InstallationID attempt),
      ValidateClusterUID (ba_ActiveClusterUID attempt),
      ValidateParentFilesystemID (ba_ParentFilesystemID attempt),
      wrap_err ''controller node ID'' (ValidateNodeID (ba_ControllerNodeID attempt)),
      node_binding (ba_ControllerNodeID attempt) (ba_ControllerZone attempt) (ba_ControllerInstanceID attempt)
        ''controller node ID disagrees with recorded zone or Instance'',
      ensure (canonical_rfc3339 (ba_EmptyInventoryObservedAt attempt))
        ''empty inventory observation timestamp must be canonical RFC 3339 UTC'',
      ensure (ba_ClaimTempPath attempt = claim_temp_path (ba_AttemptID attempt)) ''bootstrap claim temp path does not match attempt'']"

definition NewBootstrapAttempt ::
  "string \<Rightarrow> string \<Rightarrow> string \<Rightarrow> string \<Rightarrow> string \<Rightarrow> string \<Rightarrow> string \<Rightarrow> civil_time \<Rightarrow> BootstrapAttempt res" where
  "NewBootstrapAttempt attemptID installationID clusterUID parentID controllerNodeID controllerInstanceID controllerZone observedAt =
     checked BootstrapAttempt_Validate \<lparr>ba_SchemaVersion = ''1'', ba_AttemptID = attemptID, ba_InstallationID = installationID,
       ba_ActiveClusterUID = clusterUID, ba_ParentFilesystemID = parentID, ba_ControllerNodeID = controllerNodeID,
       ba_ControllerInstanceID = controllerInstanceID, ba_ControllerZone = controllerZone,
       ba_EmptyInventoryObservedAt = format_rfc3339 observedAt, ba_Phase = ''Prepared'', ba_ClaimTempPath = claim_temp_path attemptID\<rparr>"

definition attempt_annotations :: "BootstrapAttempt \<Rightarrow> (string \<times> string) list" where
  "attempt_annotations attempt =
     [(bootstrap_key ''schema-version'', ba_SchemaVersion attempt), (bootstrap_key ''attempt-id'', ba_AttemptID attempt),
      (bootstrap_key ''installation-id'', ba_InstallationID attempt), (bootstrap_key ''active-cluster-uid'', ba_ActiveClusterUID attempt),
      (bootstrap_key ''parent-filesystem-id'', ba_ParentFilesystemID attempt), (bootstrap_key ''controller-node-id'', ba_ControllerNodeID attempt),
      (bootstrap_key ''controller-instance-id'', ba_ControllerInstanceID attempt), (bootstrap_key ''controller-zone'', ba_ControllerZone attempt),
      (bootstrap_key ''empty-inventory-observed-at'', ba_EmptyInventoryObservedAt attempt), (bootstrap_key ''phase'', ba_Phase attempt),
      (bootstrap_key ''claim-temp-path'', ba_ClaimTempPath attempt)]"

definition BootstrapAttempt_Annotations :: "BootstrapAttempt \<Rightarrow> (string \<times> string) list res" where
  "BootstrapAttempt_Annotations attempt = require (BootstrapAttempt_Validate attempt) (Inr (attempt_annotations attempt))"

definition attempt_of :: "(string \<Rightarrow> string) \<Rightarrow> BootstrapAttempt" where
  "attempt_of f = \<lparr>ba_SchemaVersion = f (bootstrap_key ''schema-version''), ba_AttemptID = f (bootstrap_key ''attempt-id''),
     ba_InstallationID = f (bootstrap_key ''installation-id''), ba_ActiveClusterUID = f (bootstrap_key ''active-cluster-uid''),
     ba_ParentFilesystemID = f (bootstrap_key ''parent-filesystem-id''), ba_ControllerNodeID = f (bootstrap_key ''controller-node-id''),
     ba_ControllerInstanceID = f (bootstrap_key ''controller-instance-id''), ba_ControllerZone = f (bootstrap_key ''controller-zone''),
     ba_EmptyInventoryObservedAt = f (bootstrap_key ''empty-inventory-observed-at''), ba_Phase = f (bootstrap_key ''phase''),
     ba_ClaimTempPath = f (bootstrap_key ''claim-temp-path'')\<rparr>"

definition ParseBootstrapAttempt :: "annotations \<Rightarrow> BootstrapAttempt option res" where
  "ParseBootstrapAttempt =
     parse_group bootstrapAnnotationKeys (\<lambda>key. has_prefix key ''sfs-subdir-bootstrap-'')
       (\<lambda>f. checked BootstrapAttempt_Validate (attempt_of f))"

definition ClearBootstrapAnnotations :: "annotations \<Rightarrow> annotations" where
  "ClearBootstrapAnnotations = clear bootstrapAnnotationKeys"

section \<open>The discovery marker\<close>

definition discovery_key :: "string \<Rightarrow> string" where "discovery_key name = ''sfs-subdir-discovery-'' @ name"

definition discoveryAnnotationKeys :: "string list" where
  "discoveryAnnotationKeys = map discovery_key [''schema-version'', ''state'', ''observed-at'', ''installation-id'',
     ''active-cluster-uid'', ''holder-pod-uid'']"

record DiscoveryMarker =
  dm_SchemaVersion :: string
  dm_State :: string
  dm_ObservedAt :: string
  dm_InstallationID :: string
  dm_ActiveClusterUID :: string
  dm_HolderPodUID :: string

definition DiscoveryMarker_Validate :: "HolderEvidence \<Rightarrow> DiscoveryMarker \<Rightarrow> error option" where
  "DiscoveryMarker_Validate holder marker = errs
     [HolderEvidence_Validate holder,
      ensure (\<not> (dm_SchemaVersion marker \<noteq> ''1'' \<or> dm_State marker \<noteq> ''Provisional'')) ''discovery marker schema or state is unsupported'',
      ensure (canonical_rfc3339 (dm_ObservedAt marker)) ''discovery observation timestamp must be canonical RFC 3339 UTC'',
      ensure (\<not> (dm_InstallationID marker \<noteq> he_InstallationID holder \<or> dm_ActiveClusterUID marker \<noteq> he_ActiveClusterUID holder
          \<or> dm_HolderPodUID marker \<noteq> he_PodUID holder))
        ''discovery marker differs from current holder identity'']"

definition NewDiscoveryMarker :: "HolderEvidence \<Rightarrow> civil_time \<Rightarrow> DiscoveryMarker res" where
  "NewDiscoveryMarker holder observedAt =
     checked (DiscoveryMarker_Validate holder) \<lparr>dm_SchemaVersion = ''1'', dm_State = ''Provisional'',
       dm_ObservedAt = format_rfc3339 observedAt, dm_InstallationID = he_InstallationID holder,
       dm_ActiveClusterUID = he_ActiveClusterUID holder, dm_HolderPodUID = he_PodUID holder\<rparr>"

definition ObservationTime :: "DiscoveryMarker \<Rightarrow> civil_time res" where
  "ObservationTime marker = parse_instant (dm_ObservedAt marker)"

definition marker_annotations :: "DiscoveryMarker \<Rightarrow> (string \<times> string) list" where
  "marker_annotations marker =
     [(discovery_key ''schema-version'', dm_SchemaVersion marker), (discovery_key ''state'', dm_State marker),
      (discovery_key ''observed-at'', dm_ObservedAt marker), (discovery_key ''installation-id'', dm_InstallationID marker),
      (discovery_key ''active-cluster-uid'', dm_ActiveClusterUID marker), (discovery_key ''holder-pod-uid'', dm_HolderPodUID marker)]"

definition marker_of :: "(string \<Rightarrow> string) \<Rightarrow> DiscoveryMarker" where
  "marker_of f = \<lparr>dm_SchemaVersion = f (discovery_key ''schema-version''), dm_State = f (discovery_key ''state''),
     dm_ObservedAt = f (discovery_key ''observed-at''), dm_InstallationID = f (discovery_key ''installation-id''),
     dm_ActiveClusterUID = f (discovery_key ''active-cluster-uid''), dm_HolderPodUID = f (discovery_key ''holder-pod-uid'')\<rparr>"

definition ParseDiscoveryMarker :: "annotations \<Rightarrow> HolderEvidence \<Rightarrow> DiscoveryMarker option res" where
  "ParseDiscoveryMarker annotations holder =
     parse_group discoveryAnnotationKeys (\<lambda>key. has_prefix key ''sfs-subdir-discovery-'')
       (\<lambda>f. checked (DiscoveryMarker_Validate holder) (marker_of f)) annotations"

definition ApplyDiscoveryMarker :: "annotations \<Rightarrow> DiscoveryMarker \<Rightarrow> HolderEvidence \<Rightarrow> annotations res" where
  "ApplyDiscoveryMarker annotations marker holder =
     require (DiscoveryMarker_Validate holder marker)
       (and_then (ParseDiscoveryMarker annotations holder) (\<lambda>existing.
        require (ensure (existing = None \<or> existing = Some marker) ''another provisional discovery marker is already active'')
          (Inr (put (marker_annotations marker) annotations))))"

definition ClearDiscoveryMarker :: "annotations \<Rightarrow> annotations" where
  "ClearDiscoveryMarker = clear discoveryAnnotationKeys"

section \<open>The fresh bootstrap plan\<close>

record FreshBootstrapParent =
  fp_ParentFilesystemID :: string
  fp_AttemptID :: string
  fp_EmptyInventoryObservedAt :: string

record FreshBootstrapPlan =
  fb_SchemaVersion :: string
  fb_Phase :: string
  fb_InstallationID :: string
  fb_ActiveClusterUID :: string
  fb_HolderPodUID :: string
  fb_ControllerNodeID :: string
  fb_ControllerInstanceID :: string
  fb_ControllerZone :: string
  fb_Parents :: "FreshBootstrapParent list option"

definition FreshBootstrapParent_Validate :: "FreshBootstrapParent \<Rightarrow> error option" where
  "FreshBootstrapParent_Validate parent = errs
     [ValidateParentFilesystemID (fp_ParentFilesystemID parent),
      wrap_err ''fresh bootstrap attempt ID'' (ValidateOperationID (fp_AttemptID parent)),
      ensure (canonical_rfc3339 (fp_EmptyInventoryObservedAt parent))
        ''fresh bootstrap empty-inventory timestamp must be canonical RFC 3339 UTC'']"

definition NewFreshBootstrapParent :: "string \<Rightarrow> string \<Rightarrow> civil_time \<Rightarrow> FreshBootstrapParent res" where
  "NewFreshBootstrapParent parentID attemptID observedAt =
     checked FreshBootstrapParent_Validate \<lparr>fp_ParentFilesystemID = parentID, fp_AttemptID = attemptID,
       fp_EmptyInventoryObservedAt = format_rfc3339 observedAt\<rparr>"

definition plan_parents :: "FreshBootstrapPlan \<Rightarrow> FreshBootstrapParent list" where
  "plan_parents plan = (case fb_Parents plan of None \<Rightarrow> [] | Some parents \<Rightarrow> parents)"

fun validate_parents :: "string \<Rightarrow> string list \<Rightarrow> FreshBootstrapParent list \<Rightarrow> error option" where
  "validate_parents previousID attemptIDs [] = None"
| "validate_parents previousID attemptIDs (parent # parents) = errs
     [wrap_err ''fresh bootstrap parent'' (FreshBootstrapParent_Validate parent),
      ensure (\<not> fp_ParentFilesystemID parent \<le> previousID) ''fresh bootstrap parents are not unique and strictly sorted'',
      ensure (fp_AttemptID parent \<notin> set attemptIDs) ''fresh bootstrap attempt is duplicated'',
      validate_parents (fp_ParentFilesystemID parent) (fp_AttemptID parent # attemptIDs) parents]"

definition FreshBootstrapPlan_Validate :: "FreshBootstrapPlan \<Rightarrow> error option" where
  "FreshBootstrapPlan_Validate plan = errs
     [ensure (\<not> (fb_SchemaVersion plan \<noteq> ''1'' \<or> fb_Phase plan \<noteq> ''Prepared'')) ''fresh bootstrap schema or phase is unsupported'',
      ValidateInstallationID (fb_InstallationID plan),
      ValidateClusterUID (fb_ActiveClusterUID plan),
      wrap_err ''fresh bootstrap holder Pod UID'' (ValidateOperationID (fb_HolderPodUID plan)),
      wrap_err ''fresh bootstrap controller node ID'' (ValidateNodeID (fb_ControllerNodeID plan)),
      node_binding (fb_ControllerNodeID plan) (fb_ControllerZone plan) (fb_ControllerInstanceID plan)
        ''fresh bootstrap controller node ID disagrees with recorded zone or Instance'',
      ensure (plan_parents plan \<noteq> []) ''fresh bootstrap plan has no parent'',
      validate_parents [] [] (plan_parents plan)]"

definition ValidateForHolder :: "FreshBootstrapPlan \<Rightarrow> HolderEvidence \<Rightarrow> error option" where
  "ValidateForHolder plan holder = errs
     [FreshBootstrapPlan_Validate plan,
      HolderEvidence_Validate holder,
      ensure (\<not> (fb_InstallationID plan \<noteq> he_InstallationID holder \<or> fb_ActiveClusterUID plan \<noteq> he_ActiveClusterUID holder
          \<or> fb_HolderPodUID plan \<noteq> he_PodUID holder \<or> fb_ControllerNodeID plan \<noteq> he_CSINodeID holder
          \<or> fb_ControllerInstanceID plan \<noteq> he_InstanceID holder \<or> fb_ControllerZone plan \<noteq> he_Zone holder))
        ''fresh bootstrap plan differs from current holder identity'']"

definition NewFreshBootstrapPlan :: "HolderEvidence \<Rightarrow> FreshBootstrapParent list \<Rightarrow> FreshBootstrapPlan res" where
  "NewFreshBootstrapPlan holder parents =
     require (HolderEvidence_Validate holder)
       (checked (\<lambda>plan. ValidateForHolder plan holder) \<lparr>fb_SchemaVersion = ''1'', fb_Phase = ''Prepared'',
          fb_InstallationID = he_InstallationID holder, fb_ActiveClusterUID = he_ActiveClusterUID holder,
          fb_HolderPodUID = he_PodUID holder, fb_ControllerNodeID = he_CSINodeID holder,
          fb_ControllerInstanceID = he_InstanceID holder, fb_ControllerZone = he_Zone holder,
          fb_Parents = Some (sort_key fp_ParentFilesystemID parents)\<rparr>)"

text \<open>\<^verbatim>\<open>slices.BinarySearchFunc\<close> over the half-open range \<open>[i, j)\<close>.\<close>

function binary_search :: "FreshBootstrapParent list \<Rightarrow> string \<Rightarrow> nat \<Rightarrow> nat \<Rightarrow> nat" where
  "binary_search parents target i j =
     (if i < j then
        let h = (i + j) div 2
        in if fp_ParentFilesystemID (parents ! h) < target then binary_search parents target (h + 1) j
           else binary_search parents target i h
      else i)"
  by pat_completeness auto
termination
  by (relation "measure (\<lambda>(parents, target, i, j). j - i)") auto

definition Plan_Parent :: "FreshBootstrapPlan \<Rightarrow> string \<Rightarrow> FreshBootstrapParent option" where
  "Plan_Parent plan parentID =
     (let parents = plan_parents plan; i = binary_search parents parentID 0 (length parents)
      in if i < length parents \<and> fp_ParentFilesystemID (parents ! i) = parentID then Some (parents ! i) else None)"

text \<open>
  \<^verbatim>\<open>json.Marshal\<close> escapes the characters \<^verbatim>\<open><\<close>, \<^verbatim>\<open>>\<close> and \<^verbatim>\<open>&\<close>, which occur in JSON text only inside
  string literals.
\<close>

definition html_escape :: "string \<Rightarrow> string" where
  "html_escape s = concat (map (\<lambda>c. if c \<in> {CHR 0x3C, CHR 0x3E, CHR 0x26} then escape_u (byte c) else [c]) s)"

definition parent_json :: "FreshBootstrapParent \<Rightarrow> json" where
  "parent_json parent = JObj [(''parentFilesystemID'', JStr (fp_ParentFilesystemID parent)), (''attemptID'', JStr (fp_AttemptID parent)),
     (''emptyInventoryObservedAt'', JStr (fp_EmptyInventoryObservedAt parent))]"

definition plan_json :: "FreshBootstrapPlan \<Rightarrow> json" where
  "plan_json plan = JObj [(''schemaVersion'', JStr (fb_SchemaVersion plan)), (''phase'', JStr (fb_Phase plan)),
     (''installationID'', JStr (fb_InstallationID plan)), (''activeClusterUID'', JStr (fb_ActiveClusterUID plan)),
     (''holderPodUID'', JStr (fb_HolderPodUID plan)), (''controllerNodeID'', JStr (fb_ControllerNodeID plan)),
     (''controllerInstanceID'', JStr (fb_ControllerInstanceID plan)), (''controllerZone'', JStr (fb_ControllerZone plan)),
     (''parents'', case fb_Parents plan of None \<Rightarrow> JNull | Some parents \<Rightarrow> JArr (map parent_json parents))]"

definition annotationValue :: "FreshBootstrapPlan \<Rightarrow> string res" where
  "annotationValue plan = require (FreshBootstrapPlan_Validate plan) (Inr (html_escape (Marshal (plan_json plan))))"

definition zero_parent :: FreshBootstrapParent where
  "zero_parent = \<lparr>fp_ParentFilesystemID = [], fp_AttemptID = [], fp_EmptyInventoryObservedAt = []\<rparr>"

definition zero_plan :: FreshBootstrapPlan where
  "zero_plan = \<lparr>fb_SchemaVersion = [], fb_Phase = [], fb_InstallationID = [], fb_ActiveClusterUID = [], fb_HolderPodUID = [],
     fb_ControllerNodeID = [], fb_ControllerInstanceID = [], fb_ControllerZone = [], fb_Parents = None\<rparr>"

definition parent_schema :: "(string \<times> FreshBootstrapParent setter) list" where
  "parent_schema = [(''parentFilesystemID'', set_string fp_ParentFilesystemID_update), (''attemptID'', set_string fp_AttemptID_update),
     (''emptyInventoryObservedAt'', set_string fp_EmptyInventoryObservedAt_update)]"

fun parent_elements :: "FreshBootstrapParent list \<Rightarrow> jvalue list \<Rightarrow> FreshBootstrapParent list option" where
  "parent_elements old [] = Some []"
| "parent_elements old (v # vs) = do {
     parent \<leftarrow> assign_struct parent_schema v (case old of [] \<Rightarrow> zero_parent | x # _ \<Rightarrow> x);
     parents \<leftarrow> parent_elements (tl old) vs;
     Some (parent # parents)
   }"

definition set_parents :: "FreshBootstrapPlan setter" where
  "set_parents v plan =
     (case v of
        VArray vs \<Rightarrow> map_option (\<lambda>parents. plan\<lparr>fb_Parents := Some parents\<rparr>) (parent_elements (plan_parents plan) vs)
      | VNull \<Rightarrow> Some (plan\<lparr>fb_Parents := None\<rparr>)
      | _ \<Rightarrow> None)"

definition plan_schema :: "(string \<times> FreshBootstrapPlan setter) list" where
  "plan_schema = [(''schemaVersion'', set_string fb_SchemaVersion_update), (''phase'', set_string fb_Phase_update),
     (''installationID'', set_string fb_InstallationID_update), (''activeClusterUID'', set_string fb_ActiveClusterUID_update),
     (''holderPodUID'', set_string fb_HolderPodUID_update), (''controllerNodeID'', set_string fb_ControllerNodeID_update),
     (''controllerInstanceID'', set_string fb_ControllerInstanceID_update), (''controllerZone'', set_string fb_ControllerZone_update),
     (''parents'', set_parents)]"

definition freshBootstrapPlanAnnotation :: string where "freshBootstrapPlanAnnotation = ''sfs-subdir-fresh-bootstrap-plan''"

definition decode_plan :: "string \<Rightarrow> FreshBootstrapPlan res" where
  "decode_plan raw =
     (case Option.bind (parse_json raw) (\<lambda>v. assign_struct plan_schema v zero_plan) of
        None \<Rightarrow> Inl (errorf ''decode fresh bootstrap plan'')
      | Some plan \<Rightarrow>
          require (FreshBootstrapPlan_Validate plan)
            (and_then (annotationValue plan) (\<lambda>canonical.
             require (ensure (raw = canonical) ''fresh bootstrap plan is not canonical JSON'') (Inr plan))))"

definition ParseFreshBootstrapPlan :: "annotations \<Rightarrow> FreshBootstrapPlan option res" where
  "ParseFreshBootstrapPlan =
     parse_group [freshBootstrapPlanAnnotation] (\<lambda>key. has_prefix key ''sfs-subdir-fresh-bootstrap-'')
       (\<lambda>f. decode_plan (f freshBootstrapPlanAnnotation))"

definition ApplyFreshBootstrapPlan :: "annotations \<Rightarrow> FreshBootstrapPlan \<Rightarrow> annotations res" where
  "ApplyFreshBootstrapPlan annotations plan =
     and_then (annotationValue plan) (\<lambda>val.
     and_then (ParseFreshBootstrapPlan annotations) (\<lambda>existing.
     and_then (case existing of None \<Rightarrow> Inr val | Some p \<Rightarrow> annotationValue p) (\<lambda>existingValue.
     require (ensure (existingValue = val) ''another fresh bootstrap plan is already active'')
       (Inr (fmupd freshBootstrapPlanAnnotation val annotations)))))"

definition ClearFreshBootstrapPlan :: "annotations \<Rightarrow> annotations" where
  "ClearFreshBootstrapPlan = fmdrop freshBootstrapPlanAnnotation"

section \<open>Operator approvals\<close>

datatype ApprovalMode = ApprovalAbnormalTakeover | ApprovalMissingLeaseRecovery | OtherApproval string

fun approval_mode_text :: "ApprovalMode \<Rightarrow> string" where
  "approval_mode_text ApprovalAbnormalTakeover = ''abnormal-takeover''"
| "approval_mode_text ApprovalMissingLeaseRecovery = ''missing-lease-recovery''"
| "approval_mode_text (OtherApproval s) = s"

definition approval_mode_of :: "string \<Rightarrow> ApprovalMode" where
  "approval_mode_of s =
     (if s = ''abnormal-takeover'' then ApprovalAbnormalTakeover
      else if s = ''missing-lease-recovery'' then ApprovalMissingLeaseRecovery else OtherApproval s)"

record OperatorApproval =
  oa_SecretUID :: string
  oa_Immutable :: bool
  oa_SchemaVersion :: string
  oa_Mode :: ApprovalMode
  oa_RequestID :: string
  oa_InstallationID :: string
  oa_ActiveClusterUID :: string
  oa_PreviousHolderPodUID :: string
  oa_PreviousHolderNodeName :: string
  oa_PreviousHolderCSINodeID :: string
  oa_PreviousHolderInstanceID :: string
  oa_PreviousHolderZone :: string
  oa_CheckpointRequestID :: string
  oa_CheckpointManifestSHA256 :: string
  oa_RecoveryFenceScope :: string
  oa_Reason :: string
  oa_ApprovedAt :: string
  oa_ExpiresAt :: string

definition previousHolder :: "OperatorApproval \<Rightarrow> HolderEvidence" where
  "previousHolder approval = \<lparr>he_SchemaVersion = SchemaVersionV1, he_PodUID = oa_PreviousHolderPodUID approval,
     he_NodeName = oa_PreviousHolderNodeName approval, he_CSINodeID = oa_PreviousHolderCSINodeID approval,
     he_InstanceID = oa_PreviousHolderInstanceID approval, he_Zone = oa_PreviousHolderZone approval,
     he_InstallationID = oa_InstallationID approval, he_ActiveClusterUID = oa_ActiveClusterUID approval\<rparr>"

definition sha256DigestPattern :: "string \<Rightarrow> bool" where
  "sha256DigestPattern s \<longleftrightarrow> matches_classes (lit ''sha256:'' @ replicate 64 is_hex) s"

definition previous_holder_fields :: "OperatorApproval \<Rightarrow> string list" where
  "previous_holder_fields approval = [oa_PreviousHolderPodUID approval, oa_PreviousHolderNodeName approval,
     oa_PreviousHolderCSINodeID approval, oa_PreviousHolderInstanceID approval, oa_PreviousHolderZone approval]"

definition approval_mode_check :: "OperatorApproval \<Rightarrow> error option" where
  "approval_mode_check approval =
     (case oa_Mode approval of
        ApprovalAbnormalTakeover \<Rightarrow> errs
          [wrap_err ''abnormal takeover previous holder'' (HolderEvidence_Validate (previousHolder approval)),
           ensure (\<not> (oa_CheckpointRequestID approval \<noteq> [] \<or> oa_CheckpointManifestSHA256 approval \<noteq> [] \<or> oa_RecoveryFenceScope approval \<noteq> []))
             ''abnormal takeover approval contains missing-Lease recovery fields'']
      | ApprovalMissingLeaseRecovery \<Rightarrow>
          (let previousCount = length (filter (\<lambda>v. v \<noteq> []) (previous_holder_fields approval))
           in errs
             [wrap_err ''checkpoint request ID'' (ValidateOperationID (oa_CheckpointRequestID approval)),
              ensure (sha256DigestPattern (oa_CheckpointManifestSHA256 approval)) ''checkpoint manifest SHA-256 is malformed'',
              ensure (oa_RecoveryFenceScope approval = ''all-pre-recovery-instances'') ''missing-Lease recovery fence scope is unsupported'',
              ensure (\<not> (previousCount \<noteq> 0 \<and> previousCount \<noteq> 5)) ''historical previous holder fields must be all present or all absent'',
              (if previousCount = 5 then wrap_err ''historical previous holder'' (HolderEvidence_Validate (previousHolder approval)) else None)])
      | OtherApproval s \<Rightarrow> Some (errorf ''approval mode is unsupported''))"

definition ValidateAt :: "OperatorApproval \<Rightarrow> civil_time \<Rightarrow> civil_time \<Rightarrow> error option" where
  "ValidateAt approval now conditionObservedAt = errs
     [ensure (oa_Immutable approval) ''operator approval Secret must be immutable'',
      wrap_err ''approval Secret UID'' (ValidateOperationID (oa_SecretUID approval)),
      ensure (oa_SchemaVersion approval = SchemaVersionV1) ''approval schema version is unsupported'',
      wrap_err ''approval request ID'' (ValidateOperationID (oa_RequestID approval)),
      ValidateInstallationID (oa_InstallationID approval),
      ValidateClusterUID (oa_ActiveClusterUID approval),
      ensure (\<not> (length (oa_Reason approval) = 0 \<or> length (oa_Reason approval) > 512
          \<or> contains_any (oa_Reason approval) [CHR 0x00, CHR 0x0D, CHR 0x0A]))
        ''approval reason must contain 1 to 512 single-line bytes'',
      and_check (parseCoordinationTimestamp ''approvedAt'' (oa_ApprovedAt approval)) (\<lambda>approvedAt.
      and_check (parseCoordinationTimestamp ''expiresAt'' (oa_ExpiresAt approval)) (\<lambda>expiresAt. errs
        [ensure (\<not> (\<not> unix_nanos expiresAt > unix_nanos approvedAt \<or> unix_nanos expiresAt - unix_nanos approvedAt > hour_nanos))
           ''approval validity must be positive and at most one hour'',
         ensure (unix_nanos approvedAt > unix_nanos conditionObservedAt) ''approval predates the observed takeover or recovery condition'',
         ensure (\<not> (unix_nanos now < unix_nanos approvedAt \<or> \<not> unix_nanos now < unix_nanos expiresAt)) ''approval is not currently valid'',
         approval_mode_check approval]))]"

definition ValidateAbnormalHolder :: "OperatorApproval \<Rightarrow> HolderEvidence \<Rightarrow> error option" where
  "ValidateAbnormalHolder approval holder = errs
     [ensure (oa_Mode approval = ApprovalAbnormalTakeover) ''approval mode is not abnormal takeover'',
      ensure (previousHolder approval = holder) ''approval previous-holder evidence differs from Lease'',
      ensure (\<not> (oa_InstallationID approval \<noteq> he_InstallationID holder \<or> oa_ActiveClusterUID approval \<noteq> he_ActiveClusterUID holder))
        ''approval runtime identity differs from previous holder evidence'']"

definition ValidateCheckpoint :: "OperatorApproval \<Rightarrow> string \<Rightarrow> string \<Rightarrow> error option" where
  "ValidateCheckpoint approval requestID manifestSHA256 = errs
     [ensure (oa_Mode approval = ApprovalMissingLeaseRecovery) ''approval mode is not missing-Lease recovery'',
      ensure (\<not> (oa_CheckpointRequestID approval \<noteq> requestID \<or> oa_CheckpointManifestSHA256 approval \<noteq> manifestSHA256))
        ''approval does not match the immutable checkpoint'']"

section \<open>The consumption of an approval\<close>

definition approvalConsumptionAnnotationKeys :: "string list" where
  "approvalConsumptionAnnotationKeys = [''approvalConsumptionSecretUID'', ''approvalConsumptionRequestID'', ''approvalConsumptionMode'',
     ''approvalConsumptionPodUID'', ''approvalConsumedAt'']"

record ApprovalConsumption =
  ac_SecretUID :: string
  ac_RequestID :: string
  ac_Mode :: ApprovalMode
  ac_ConsumingPodUID :: string
  ac_ConsumedAt :: string

definition ApprovalConsumption_Validate :: "ApprovalConsumption \<Rightarrow> error option" where
  "ApprovalConsumption_Validate consumption = errs
     [ValidateOperationID (ac_SecretUID consumption),
      ValidateOperationID (ac_RequestID consumption),
      ensure (\<not> (ac_Mode consumption \<noteq> ApprovalAbnormalTakeover \<and> ac_Mode consumption \<noteq> ApprovalMissingLeaseRecovery))
        ''approval consumption mode is unsupported'',
      ValidateOperationID (ac_ConsumingPodUID consumption),
      validateCoordinationTimestamp ''approval consumption'' (ac_ConsumedAt consumption)]"

definition NewApprovalConsumption :: "OperatorApproval \<Rightarrow> string \<Rightarrow> civil_time \<Rightarrow> ApprovalConsumption res" where
  "NewApprovalConsumption approval consumingPodUID consumedAt =
     require (wrap_err ''consuming Pod UID'' (ValidateOperationID consumingPodUID))
       (checked ApprovalConsumption_Validate \<lparr>ac_SecretUID = oa_SecretUID approval, ac_RequestID = oa_RequestID approval,
          ac_Mode = oa_Mode approval, ac_ConsumingPodUID = consumingPodUID, ac_ConsumedAt = format_rfc3339 consumedAt\<rparr>)"

definition consumption_annotations :: "ApprovalConsumption \<Rightarrow> (string \<times> string) list" where
  "consumption_annotations consumption =
     [(''approvalConsumptionSecretUID'', ac_SecretUID consumption), (''approvalConsumptionRequestID'', ac_RequestID consumption),
      (''approvalConsumptionMode'', approval_mode_text (ac_Mode consumption)), (''approvalConsumptionPodUID'', ac_ConsumingPodUID consumption),
      (''approvalConsumedAt'', ac_ConsumedAt consumption)]"

definition ApprovalConsumption_Annotations :: "ApprovalConsumption \<Rightarrow> (string \<times> string) list res" where
  "ApprovalConsumption_Annotations consumption = require (ApprovalConsumption_Validate consumption) (Inr (consumption_annotations consumption))"

definition consumption_of :: "(string \<Rightarrow> string) \<Rightarrow> ApprovalConsumption" where
  "consumption_of f = \<lparr>ac_SecretUID = f ''approvalConsumptionSecretUID'', ac_RequestID = f ''approvalConsumptionRequestID'',
     ac_Mode = approval_mode_of (f ''approvalConsumptionMode''), ac_ConsumingPodUID = f ''approvalConsumptionPodUID'',
     ac_ConsumedAt = f ''approvalConsumedAt''\<rparr>"

definition ParseApprovalConsumption :: "annotations \<Rightarrow> ApprovalConsumption option res" where
  "ParseApprovalConsumption =
     parse_group approvalConsumptionAnnotationKeys (\<lambda>key. has_prefix key ''approvalConsumption'' \<or> key = ''approvalConsumedAt'')
       (\<lambda>f. checked ApprovalConsumption_Validate (consumption_of f))"

definition replay_check :: "ApprovalConsumption option \<Rightarrow> ApprovalConsumption \<Rightarrow> error option" where
  "replay_check existing consumption =
     (case existing of None \<Rightarrow> None
      | Some old \<Rightarrow> errs
          [ensure (\<not> (ac_SecretUID old = ac_SecretUID consumption \<or> ac_RequestID old = ac_RequestID consumption))
             ''approval Secret UID or request ID is already consumed'',
           and_check (parseCoordinationTimestamp ''existing approval consumption'' (ac_ConsumedAt old)) (\<lambda>existingTime.
           and_check (parseCoordinationTimestamp ''next approval consumption'' (ac_ConsumedAt consumption)) (\<lambda>nextTime.
             ensure (unix_nanos nextTime > unix_nanos existingTime)
               ''next approval consumption must be newer than the existing audit tuple''))])"

definition ApplyApprovalConsumption :: "annotations \<Rightarrow> ApprovalConsumption \<Rightarrow> annotations res" where
  "ApplyApprovalConsumption annotations consumption =
     require (ApprovalConsumption_Validate consumption)
       (and_then (ParseApprovalConsumption annotations) (\<lambda>existing.
        require (replay_check existing consumption)
          (and_then (ApprovalConsumption_Annotations consumption) (\<lambda>encoded. Inr (put encoded annotations)))))"

section \<open>Laws of an annotation group\<close>

definition in_group :: "string list \<Rightarrow> (string \<Rightarrow> bool) \<Rightarrow> string \<Rightarrow> bool" where
  "in_group keys namespaced key \<longleftrightarrow> key \<in> set keys \<or> namespaced key"

lemma fmlookup_put: "fmlookup (put kvs annotations) key = (case map_of (rev kvs) key of None \<Rightarrow> fmlookup annotations key | v \<Rightarrow> v)"
  by (induction kvs annotations rule: put.induct) (auto simp: map_add_def split: option.splits)

lemma fmlookup_put_distinct:
  "distinct (map fst kvs) \<Longrightarrow> fmlookup (put kvs annotations) key = (case map_of kvs key of None \<Rightarrow> fmlookup annotations key | v \<Rightarrow> v)"
proof -
  assume d: "distinct (map fst kvs)"
  then have "distinct (map fst (rev kvs))" by (simp add: rev_map [symmetric])
  then have "map_of (rev kvs) key = map_of kvs key"
    using d map_of_eq_None_iff [of kvs key] map_of_eq_None_iff [of "rev kvs" key]
    by (cases "map_of kvs key") (simp_all add: map_of_eq_Some_iff)
  then show ?thesis by (simp add: fmlookup_put)
qed

lemma fmlookup_clear: "fmlookup (clear keys annotations) key = (if key \<in> set keys then None else fmlookup annotations key)"
  by (simp add: clear_def)

lemma fBex_fmdom: "fBex (fmdom m) P \<longleftrightarrow> (\<exists>k v. fmlookup m k = Some v \<and> P k)"
  by (auto simp: fmlookup_dom_iff)

text \<open>A parser depends on its group only.\<close>

lemma parse_group_cong:
  assumes "\<And>key. in_group keys namespaced key \<Longrightarrow> fmlookup a key = fmlookup b key"
    and "\<And>f g. map f keys = map g keys \<Longrightarrow> build f = build g"
  shows "parse_group keys namespaced build a = parse_group keys namespaced build b"
proof -
  have 1: "fBex (fmdom a) (\<lambda>key. namespaced key \<and> key \<notin> set keys) = fBex (fmdom b) (\<lambda>key. namespaced key \<and> key \<notin> set keys)"
    using assms(1) unfolding fBex_fmdom in_group_def by metis
  have 2: "filter (\<lambda>key. fmlookup a key \<noteq> None) keys = filter (\<lambda>key. fmlookup b key \<noteq> None) keys"
    by (intro filter_cong refl) (simp add: assms(1) in_group_def)
  have 3: "build (at a) = build (at b)" by (rule assms(2)) (simp add: at_def assms(1) in_group_def)
  show ?thesis by (simp only: parse_group_def Let_def 1 2 3)
qed

locale annotation_group =
  fixes keys :: "string list" and namespaced :: "string \<Rightarrow> bool" and build :: "(string \<Rightarrow> string) \<Rightarrow> 'r res"
    and encode :: "'r \<Rightarrow> (string \<times> string) list" and valid :: "'r \<Rightarrow> bool"
  assumes keys: "keys \<noteq> []" "distinct keys"
    and local: "map f keys = map g keys \<Longrightarrow> build f = build g"
    and encode: "map fst (encode r) = keys"
    and inverse: "valid r \<Longrightarrow> map f keys = map snd (encode r) \<Longrightarrow> build f = Inr r"
    and sound: "build f = Inr r \<Longrightarrow> valid r \<and> map f keys = map snd (encode r)"
begin

lemma parse_cong: "(\<And>key. in_group keys namespaced key \<Longrightarrow> fmlookup a key = fmlookup b key)
    \<Longrightarrow> parse_group keys namespaced build a = parse_group keys namespaced build b"
  by (rule parse_group_cong) (simp_all add: local)

text \<open>Writing or deleting keys outside the group does not change what its parser sees.\<close>

lemma parse_put_other:
  assumes "list_all (\<lambda>kv. \<not> in_group keys namespaced (fst kv)) kvs"
  shows "parse_group keys namespaced build (put kvs a) = parse_group keys namespaced build a"
proof (rule parse_cong)
  fix key assume "in_group keys namespaced key"
  then have "map_of (rev kvs) key = None" using assms by (auto simp: list_all_iff map_of_eq_None_iff)
  then show "fmlookup (put kvs a) key = fmlookup a key" by (simp add: fmlookup_put)
qed

lemma parse_clear_other:
  "list_all (\<lambda>k. \<not> in_group keys namespaced k) ks \<Longrightarrow> parse_group keys namespaced build (clear ks a) = parse_group keys namespaced build a"
  by (rule parse_cong) (auto simp: fmlookup_clear list_all_iff)

lemma parse_Inr_unknown:
  "parse_group keys namespaced build a = Inr r \<Longrightarrow> \<not> fBex (fmdom a) (\<lambda>key. namespaced key \<and> key \<notin> set keys)"
  by (rule notI) (simp add: parse_group_def Let_def)

text \<open>Round trip: a written record is read back unless the group holds an unknown key; a cleared group is absent.\<close>

lemma put_outside:
  assumes "key \<notin> set keys"
  shows "fmlookup (put (encode r) a) key = fmlookup a key"
proof -
  have d: "distinct (map fst (encode r))" using encode keys by simp
  have "key \<notin> fst ` set (encode r)" using assms encode [of r] by (metis list.set_map)
  then have "map_of (encode r) key = None" by (simp add: map_of_eq_None_iff)
  then show ?thesis by (simp add: fmlookup_put_distinct [OF d])
qed

lemma parse_put_stray:
  assumes "fBex (fmdom a) (\<lambda>key. namespaced key \<and> key \<notin> set keys)"
  shows "\<exists>e. parse_group keys namespaced build (put (encode r) a) = Inl e"
proof -
  have "fBex (fmdom (put (encode r) a)) (\<lambda>key. namespaced key \<and> key \<notin> set keys)"
    using assms put_outside unfolding fBex_fmdom by metis
  then show ?thesis by (simp add: parse_group_def Let_def)
qed

lemma parse_put_clean:
  assumes "valid r" and "\<not> fBex (fmdom a) (\<lambda>key. namespaced key \<and> key \<notin> set keys)"
  shows "parse_group keys namespaced build (put (encode r) a) = Inr (Some r)"
proof -
  have d: "distinct (map fst (encode r))" using encode keys by simp
  have look: "map (fmlookup (put (encode r) a)) keys = map (\<lambda>kv. Some (snd kv)) (encode r)"
    unfolding encode [of r, symmetric] using d by (auto simp: fmlookup_put_distinct)
  have all: "fmlookup (put (encode r) a) key \<noteq> None" if "key \<in> set keys" for key
  proof -
    have "fmlookup (put (encode r) a) key \<in> set (map (\<lambda>kv. Some (snd kv)) (encode r))" unfolding look [symmetric] using that by simp
    then show ?thesis by auto
  qed
  have "\<not> fBex (fmdom (put (encode r) a)) (\<lambda>key. namespaced key \<and> key \<notin> set keys)"
    using assms(2) put_outside unfolding fBex_fmdom by metis
  moreover have "filter (\<lambda>key. fmlookup (put (encode r) a) key \<noteq> None) keys = keys"
    using all by (simp add: filter_id_conv)
  moreover have "build (at (put (encode r) a)) = Inr r"
  proof (rule inverse [OF assms(1)])
    have "map (at (put (encode r) a)) keys = map (case_option [] id) (map (fmlookup (put (encode r) a)) keys)"
      by (simp add: at_def [abs_def] comp_def id_def)
    then show "map (at (put (encode r) a)) keys = map snd (encode r)" unfolding look by (simp add: comp_def)
  qed
  ultimately show ?thesis using keys(1) unfolding parse_group_def by (simp add: Let_def)
qed

lemma parse_put:
  "valid r \<Longrightarrow> parse_group keys namespaced build a = Inr old \<Longrightarrow> parse_group keys namespaced build (put (encode r) a) = Inr (Some r)"
  by (rule parse_put_clean [OF _ parse_Inr_unknown])

lemma parse_clear:
  assumes "parse_group keys namespaced build a = Inr old"
  shows "parse_group keys namespaced build (clear keys a) = Inr None"
proof -
  have "\<not> fBex (fmdom (clear keys a)) (\<lambda>key. namespaced key \<and> key \<notin> set keys)"
    using parse_Inr_unknown [OF assms] unfolding fBex_fmdom fmlookup_clear by metis
  moreover have "filter (\<lambda>key. fmlookup (clear keys a) key \<noteq> None) keys = []" by (simp add: fmlookup_clear filter_empty_conv)
  ultimately show ?thesis unfolding parse_group_def by (simp add: Let_def)
qed

lemma parse_sound:
  assumes "parse_group keys namespaced build a = Inr (Some r)"
  shows "valid r" "map (at a) keys = map snd (encode r)"
proof -
  have "build (at a) = Inr r"
    using assms by (cases "build (at a)") (auto simp: parse_group_def Let_def split: if_splits)
  from sound [OF this] show "valid r" "map (at a) keys = map snd (encode r)" by auto
qed

end

lemma checked_Inr [simp]: "checked valid r = Inr x \<longleftrightarrow> x = r \<and> valid r = None"
  by (auto simp: checked_def)

text \<open>
  A group whose record is rebuilt field by field: the interpretations below need only that building
  reads the keys and inverts the encoding.
\<close>

lemma annotation_groupI:
  assumes "keys \<noteq> []" "distinct keys" "\<And>f g. map f keys = map g keys \<Longrightarrow> of_fun f = (of_fun g :: 'r)"
    "\<And>r. map fst (encode r) = keys" "\<And>f r. valid r = None \<Longrightarrow> map f keys = map snd (encode r) \<Longrightarrow> of_fun f = r"
    "\<And>f. map f keys = map snd (encode (of_fun f))"
  shows "annotation_group keys (\<lambda>f. checked valid (of_fun f)) encode (\<lambda>r. valid r = None)"
proof
  show "checked valid (of_fun f) = checked valid (of_fun g)" if "map f keys = map g keys" for f g
    using assms(3) [OF that] by simp
  show "checked valid (of_fun f) = Inr r" if "valid r = None" "map f keys = map snd (encode r)" for f r
    using that assms(5) [OF that] by simp
  show "valid r = None \<and> map f keys = map snd (encode r)" if "checked valid (of_fun f) = Inr r" for f r
    using that assms(6) by simp
qed (use assms(1,2,4) in simp_all)

lemmas holder_group_defs = holderAnnotationKeys_def holder_annotations_def holder_of_def
lemmas graceful_group_defs = gracefulAnnotationKeys_def release_annotations_def release_of_def
lemmas bootstrap_group_defs = bootstrapAnnotationKeys_def attempt_annotations_def attempt_of_def bootstrap_key_def
lemmas discovery_group_defs = discoveryAnnotationKeys_def marker_annotations_def marker_of_def discovery_key_def
lemmas consumption_group_defs = approvalConsumptionAnnotationKeys_def consumption_annotations_def consumption_of_def

interpretation holder: annotation_group holderAnnotationKeys "\<lambda>key. has_prefix key ''holder''"
  "\<lambda>f. checked HolderEvidence_Validate (holder_of f)" holder_annotations "\<lambda>r. HolderEvidence_Validate r = None"
  by (rule annotation_groupI) (simp_all add: holder_group_defs)

interpretation graceful: annotation_group gracefulAnnotationKeys "\<lambda>key. has_prefix key ''gracefulRelease''"
  "\<lambda>f. checked GracefulRelease_Validate (release_of f)" release_annotations "\<lambda>r. GracefulRelease_Validate r = None"
  by (rule annotation_groupI) (simp_all add: graceful_group_defs)

interpretation bootstrap: annotation_group bootstrapAnnotationKeys "\<lambda>key. has_prefix key ''sfs-subdir-bootstrap-''"
  "\<lambda>f. checked BootstrapAttempt_Validate (attempt_of f)" attempt_annotations "\<lambda>r. BootstrapAttempt_Validate r = None"
  by (rule annotation_groupI) (simp_all add: bootstrap_group_defs)

interpretation discovery: annotation_group discoveryAnnotationKeys "\<lambda>key. has_prefix key ''sfs-subdir-discovery-''"
  "\<lambda>f. checked (DiscoveryMarker_Validate h) (marker_of f)" marker_annotations "\<lambda>r. DiscoveryMarker_Validate h r = None"
  for h :: HolderEvidence
  by (rule annotation_groupI) (simp_all add: discovery_group_defs)

interpretation consumption: annotation_group approvalConsumptionAnnotationKeys
  "\<lambda>key. has_prefix key ''approvalConsumption'' \<or> key = ''approvalConsumedAt''"
  "\<lambda>f. checked ApprovalConsumption_Validate (consumption_of f)" consumption_annotations "\<lambda>r. ApprovalConsumption_Validate r = None"
proof (rule annotation_groupI)
  show "consumption_of f = r" if "ApprovalConsumption_Validate r = None" "map f approvalConsumptionAnnotationKeys = map snd (consumption_annotations r)" for f r
    using that by (auto simp: consumption_group_defs approval_mode_of_def ApprovalConsumption_Validate_def)
qed (simp_all add: consumption_group_defs approval_mode_of_def)

section \<open>The search in a plan\<close>

declare binary_search.simps [simp del]

lemma binary_search_step:
  assumes "i < j"
  shows "binary_search parents target i j =
    (if fp_ParentFilesystemID (parents ! ((i + j) div 2)) < target then binary_search parents target ((i + j) div 2 + 1) j
     else binary_search parents target i ((i + j) div 2))"
  using assms by (subst binary_search.simps) (simp add: Let_def)

lemma validate_parents_sorted:
  "validate_parents previousID attemptIDs parents = None \<Longrightarrow>
     sorted_wrt (<) (map fp_ParentFilesystemID parents) \<and> (\<forall>parent \<in> set parents. previousID < fp_ParentFilesystemID parent)"
proof (induction parents arbitrary: previousID attemptIDs)
  case (Cons parent parents)
  then have "validate_parents (fp_ParentFilesystemID parent) (fp_AttemptID parent # attemptIDs) parents = None"
    and "previousID < fp_ParentFilesystemID parent" by (simp_all add: not_le)
  with Cons.IH [OF this(1)] show ?case by auto
qed simp

lemma binary_search_bounds:
  assumes "sorted_wrt (<) (map fp_ParentFilesystemID parents)" and "i \<le> j" and "j \<le> length parents"
    and "\<forall>k < i. fp_ParentFilesystemID (parents ! k) < target"
    and "\<forall>k. j \<le> k \<and> k < length parents \<longrightarrow> target \<le> fp_ParentFilesystemID (parents ! k)"
  defines "r \<equiv> binary_search parents target i j"
  shows "r \<le> length parents \<and> (\<forall>k < r. fp_ParentFilesystemID (parents ! k) < target)
    \<and> (\<forall>k. r \<le> k \<and> k < length parents \<longrightarrow> target \<le> fp_ParentFilesystemID (parents ! k))"
  using assms(1-5) unfolding r_def
proof (induction parents target i j rule: binary_search.induct)
  case (1 parents target i j)
  show ?case
  proof (cases "i < j")
    case True
    define h where "h = (i + j) div 2"
    have h: "i \<le> h" "h < j" "h < length parents" using True 1(5) by (auto simp: h_def)
    have mono: "fp_ParentFilesystemID (parents ! k) \<le> fp_ParentFilesystemID (parents ! l)" if "k \<le> l" "l < length parents" for k l
      using sorted_wrt_nth_less [OF 1(3), of k l] that by (cases "k = l") auto
    show ?thesis
    proof (cases "fp_ParentFilesystemID (parents ! h) < target")
      case small: True
      have eq: "binary_search parents target i j = binary_search parents target (h + 1) j"
        using binary_search_step [OF True, of parents target] small by (simp add: h_def)
      have below: "\<forall>k < h + 1. fp_ParentFilesystemID (parents ! k) < target"
      proof (intro allI impI)
        fix k assume "k < h + 1"
        then have "fp_ParentFilesystemID (parents ! k) \<le> fp_ParentFilesystemID (parents ! h)" using mono [of k h] h by simp
        then show "fp_ParentFilesystemID (parents ! k) < target" using small by (rule le_less_trans)
      qed
      show ?thesis unfolding eq by (rule 1(1) [OF True h_def small 1(3) _ 1(5) below 1(7)]) (use h in simp)
    next
      case large: False
      have eq: "binary_search parents target i j = binary_search parents target i h"
        using binary_search_step [OF True, of parents target] large by (simp add: h_def)
      have above: "\<forall>k. h \<le> k \<and> k < length parents \<longrightarrow> target \<le> fp_ParentFilesystemID (parents ! k)"
      proof (intro allI impI)
        fix k assume "h \<le> k \<and> k < length parents"
        then have "fp_ParentFilesystemID (parents ! h) \<le> fp_ParentFilesystemID (parents ! k)" using mono [of h k] by simp
        moreover have "target \<le> fp_ParentFilesystemID (parents ! h)" using large by (simp add: not_less)
        ultimately show "target \<le> fp_ParentFilesystemID (parents ! k)" by (rule order_trans [rotated])
      qed
      show ?thesis unfolding eq by (rule 1(2) [OF True h_def large 1(3) _ _ 1(6) above]) (use h in simp_all)
    qed
  next
    case False
    then have "binary_search parents target i j = i" by (simp add: binary_search.simps)
    then show ?thesis using False 1(4-7) by simp
  qed
qed

text \<open>
  (C18) The binary search of a validated fresh bootstrap plan ends for every identifier and equals the
  linear search: validation guarantees the strict order it needs.
\<close>

theorem plan_parent_search:
  assumes "FreshBootstrapPlan_Validate plan = None"
  shows "Plan_Parent plan parentID = find (\<lambda>parent. fp_ParentFilesystemID parent = parentID) (plan_parents plan)"
proof -
  let ?ps = "plan_parents plan"
  let ?r = "binary_search ?ps parentID 0 (length ?ps)"
  have "validate_parents [] [] ?ps = None" using assms by (simp add: FreshBootstrapPlan_Validate_def)
  then have sorted: "sorted_wrt (<) (map fp_ParentFilesystemID ?ps)" using validate_parents_sorted by blast
  have outside: "\<forall>k. length ?ps \<le> k \<and> k < length ?ps \<longrightarrow> parentID \<le> fp_ParentFilesystemID (?ps ! k)" by auto
  have r: "\<forall>k < ?r. fp_ParentFilesystemID (?ps ! k) < parentID"
    "\<forall>k. ?r \<le> k \<and> k < length ?ps \<longrightarrow> parentID \<le> fp_ParentFilesystemID (?ps ! k)"
    using binary_search_bounds [OF sorted le0 order_refl _ outside] by simp_all
  show ?thesis
  proof (cases "?r < length ?ps \<and> fp_ParentFilesystemID (?ps ! ?r) = parentID")
    case True
    then show ?thesis
      using r(1) by (auto simp: Plan_Parent_def Let_def find_Some_iff intro!: exI [of _ ?r] sym [of "find _ _"])
  next
    case False
    have "fp_ParentFilesystemID (?ps ! k) \<noteq> parentID" if "k < length ?ps" for k
    proof
      assume eq: "fp_ParentFilesystemID (?ps ! k) = parentID"
      then have "?r \<le> k" using r(1) by (metis leI less_irrefl)
      moreover have "?r \<noteq> k" using eq that False by auto
      ultimately have "fp_ParentFilesystemID (?ps ! ?r) < parentID"
        using sorted_wrt_nth_less [OF sorted, of ?r k] that eq by simp
      then show False using r(2) \<open>?r \<le> k\<close> that by (metis leD le_less_trans order_refl)
    qed
    then have "find (\<lambda>parent. fp_ParentFilesystemID parent = parentID) ?ps = None"
      by (auto simp: find_None_iff in_set_conv_nth)
    then show ?thesis using False by (simp add: Plan_Parent_def Let_def)
  qed
qed

end
