(* ===== verification/LeaseProtocol.thy ===== *)
theory LeaseProtocol
  imports LeaseEvidence
begin

text \<open>
  \<^verbatim>\<open>pkg/coordination/lease_protocol.go\<close>: the pure planners of an acquisition and of a graceful release. A
  plan carries the annotations of the next Lease generation and says whether it grants mutation
  leadership. Lease expiry plays no role in them.
\<close>

section \<open>Snapshots\<close>

definition ErrAbnormalTakeoverApprovalRequired :: sentinel where
  "ErrAbnormalTakeoverApprovalRequired = OtherSentinel ''different uncleared Lease holder requires abnormal takeover approval''"
definition ErrMissingLeaseRecoveryRequired :: sentinel where
  "ErrMissingLeaseRecoveryRequired = OtherSentinel ''empty Lease with durable state requires missing-Lease recovery''"
definition ErrGracefulReleaseUnsafe :: sentinel where
  "ErrGracefulReleaseUnsafe = OtherSentinel ''graceful Lease release preconditions are not satisfied''"

text \<open>A nil annotation map is \<open>None\<close>; it reads like an empty one.\<close>

record LeaseSnapshot =
  ls_UID :: string
  ls_ResourceVersion :: string
  ls_HolderIdentity :: string
  ls_Annotations :: "annotations option"

definition annots :: "LeaseSnapshot \<Rightarrow> annotations" where
  "annots snapshot = (case ls_Annotations snapshot of None \<Rightarrow> fmempty | Some a \<Rightarrow> a)"

definition validateLeaseSnapshot :: "LeaseSnapshot \<Rightarrow> error option" where
  "validateLeaseSnapshot snapshot = errs
     [wrap_err ''lease UID'' (ValidateOperationID (ls_UID snapshot)),
      ensure (ls_ResourceVersion snapshot \<noteq> []) ''lease resourceVersion is empty'',
      ensure (ls_Annotations snapshot \<noteq> None) ''lease annotations must be an explicit map'']"

datatype AcquisitionMode =
    AcquisitionSameHolder
  | AcquisitionGracefulHandoff
  | AcquisitionFreshInstallation
  | AcquisitionProvisionalRecovery
  | AcquisitionApprovedTakeover
  | AcquisitionApprovedRecovery

record AcquisitionPlan =
  ap_Mode :: AcquisitionMode
  ap_HolderIdentity :: string
  ap_Annotations :: annotations
  ap_MutationAllowed :: bool

definition applyHolderEvidence :: "annotations \<Rightarrow> HolderEvidence \<Rightarrow> bool \<Rightarrow> annotations res" where
  "applyHolderEvidence annotations holder consumeGraceful =
     and_then (HolderEvidence_Annotations holder) (\<lambda>holderAnnotations.
       Inr (put holderAnnotations (if consumeGraceful then ClearGracefulReleaseAnnotations annotations else annotations)))"

section \<open>Automatic acquisition\<close>

text \<open>
  The Go function returns a plan with an error; a provisional plan comes with
  \<^verbatim>\<open>ErrMissingLeaseRecoveryRequired\<close>, a granting plan with none, and every other error with no plan. The
  result here is the plan, with \<open>ap_MutationAllowed\<close> false exactly when that error accompanies it.
\<close>

definition provisional_plan :: "HolderEvidence \<Rightarrow> annotations \<Rightarrow> AcquisitionPlan" where
  "provisional_plan candidate annotations = \<lparr>ap_Mode = AcquisitionProvisionalRecovery, ap_HolderIdentity = he_PodUID candidate,
     ap_Annotations = annotations, ap_MutationAllowed = False\<rparr>"

definition granting_plan :: "AcquisitionMode \<Rightarrow> HolderEvidence \<Rightarrow> annotations \<Rightarrow> AcquisitionPlan" where
  "granting_plan mode candidate annotations = \<lparr>ap_Mode = mode, ap_HolderIdentity = he_PodUID candidate,
     ap_Annotations = annotations, ap_MutationAllowed = True\<rparr>"

text \<open>The branch of a Lease that names a holder.\<close>

definition plan_held ::
  "LeaseSnapshot \<Rightarrow> HolderEvidence \<Rightarrow> HolderEvidence option \<Rightarrow> GracefulRelease option \<Rightarrow> FreshBootstrapPlan option \<Rightarrow> AcquisitionPlan res" where
  "plan_held snapshot candidate previous release freshBootstrap =
     (case previous of
        None \<Rightarrow> Inl (errorf ''non-empty holder identity lacks matching complete holder evidence'')
      | Some evidence \<Rightarrow>
          require (ensure (ls_HolderIdentity snapshot = he_PodUID evidence) ''non-empty holder identity lacks matching complete holder evidence'')
          (and_then (ParseDiscoveryMarker (annots snapshot) evidence) (\<lambda>discovery.
           require (errs
             [(case freshBootstrap of None \<Rightarrow> None | Some plan \<Rightarrow> ValidateForHolder plan evidence),
              ensure_is (ls_HolderIdentity snapshot = he_PodUID candidate) ErrAbnormalTakeoverApprovalRequired [],
              ensure (release = None) ''non-empty holder cannot carry an unconsumed graceful-release marker''])
           (if discovery \<noteq> None then Inr (provisional_plan candidate (annots snapshot))
            else and_then (applyHolderEvidence (annots snapshot) candidate False) (\<lambda>annotations.
              Inr (granting_plan AcquisitionSameHolder candidate annotations))))))"

text \<open>The branches of a Lease without a holder.\<close>

definition plan_released ::
  "LeaseSnapshot \<Rightarrow> HolderEvidence \<Rightarrow> HolderEvidence option \<Rightarrow> GracefulRelease \<Rightarrow> bool \<Rightarrow> AcquisitionPlan res" where
  "plan_released snapshot candidate previous release bootstrapping =
     (case previous of
        None \<Rightarrow> Inl (errorf ''graceful handoff requires previous holder evidence and no bootstrap attempt'')
      | Some evidence \<Rightarrow>
          require (errs
            [ensure (\<not> bootstrapping) ''graceful handoff requires previous holder evidence and no bootstrap attempt'',
             ValidateHandoff release (ls_UID snapshot) (he_InstallationID candidate) (he_ActiveClusterUID candidate) evidence])
          (and_then (applyHolderEvidence (annots snapshot) candidate True) (\<lambda>annotations.
             Inr (granting_plan AcquisitionGracefulHandoff candidate annotations))))"

definition plan_empty ::
  "LeaseSnapshot \<Rightarrow> HolderEvidence \<Rightarrow> BootstrapAttempt option \<Rightarrow> FreshBootstrapPlan option \<Rightarrow> AcquisitionPlan res" where
  "plan_empty snapshot candidate bootstrap freshBootstrap =
     and_then (ParseDiscoveryMarker (annots snapshot) candidate) (\<lambda>discovery.
     require (errs
       [ensure (discovery = None) ''empty Lease contains a provisional discovery marker'',
        ensure (bootstrap = None) ''empty Lease contains an unconsumed bootstrap attempt'',
        ensure (freshBootstrap = None) ''empty Lease contains an unconsumed fresh bootstrap plan''])
     (and_then (applyHolderEvidence (annots snapshot) candidate False) (\<lambda>annotations.
        Inr (provisional_plan candidate annotations))))"

definition PlanAutomaticAcquisition :: "LeaseSnapshot \<Rightarrow> HolderEvidence \<Rightarrow> bool \<Rightarrow> AcquisitionPlan res" where
  "PlanAutomaticAcquisition snapshot candidate durableStateExists =
     require (errs [validateLeaseSnapshot snapshot, HolderEvidence_Validate candidate])
     (and_then (ParseHolderEvidence (annots snapshot)) (\<lambda>previous.
      and_then (ParseGracefulRelease (annots snapshot)) (\<lambda>release.
      and_then (ParseBootstrapAttempt (annots snapshot)) (\<lambda>bootstrap.
      and_then (ParseFreshBootstrapPlan (annots snapshot)) (\<lambda>freshBootstrap.
      if ls_HolderIdentity snapshot \<noteq> [] then plan_held snapshot candidate previous release freshBootstrap
      else case release of
          Some marker \<Rightarrow> plan_released snapshot candidate previous marker (bootstrap \<noteq> None \<or> freshBootstrap \<noteq> None)
        | None \<Rightarrow> plan_empty snapshot candidate bootstrap freshBootstrap)))))"

section \<open>Graceful release\<close>

definition PlanGracefulRelease ::
  "LeaseSnapshot \<Rightarrow> HolderEvidence \<Rightarrow> string \<Rightarrow> civil_time \<Rightarrow> int \<Rightarrow> bool \<Rightarrow> LeaseSnapshot res" where
  "PlanGracefulRelease snapshot current requestID releasedAt inflightMutations checkpointActive =
     require (errs [validateLeaseSnapshot snapshot, HolderEvidence_Validate current])
     (and_then (ParseHolderEvidence (annots snapshot)) (\<lambda>preserved.
      and_then (ParseBootstrapAttempt (annots snapshot)) (\<lambda>bootstrap.
      and_then (ParseDiscoveryMarker (annots snapshot) current) (\<lambda>discovery.
      and_then (ParseFreshBootstrapPlan (annots snapshot)) (\<lambda>freshBootstrap.
      require (ensure_is (\<not> (inflightMutations \<noteq> 0 \<or> checkpointActive \<or> bootstrap \<noteq> None \<or> freshBootstrap \<noteq> None \<or> discovery \<noteq> None
          \<or> ls_HolderIdentity snapshot \<noteq> he_PodUID current \<or> preserved \<noteq> Some current)) ErrGracefulReleaseUnsafe [])
      (and_then (NewGracefulRelease current (ls_UID snapshot) requestID releasedAt) (\<lambda>release.
       and_then (GracefulRelease_Annotations release) (\<lambda>releaseAnnotations.
       Inr \<lparr>ls_UID = ls_UID snapshot, ls_ResourceVersion = ls_ResourceVersion snapshot, ls_HolderIdentity = [],
         ls_Annotations = Some (put releaseAnnotations (annots snapshot))\<rparr>))))))))"

section \<open>Independent groups\<close>

lemma annots_Some [simp]: "annots \<lparr>ls_UID = u, ls_ResourceVersion = v, ls_HolderIdentity = h, ls_Annotations = Some a\<rparr> = a"
  by (simp add: annots_def)

text \<open>Writes of one group seen by the parsers of the others.\<close>

lemmas group_eval = in_group_def has_prefix_def holder_group_defs graceful_group_defs bootstrap_group_defs discovery_group_defs
  freshBootstrapPlanAnnotation_def

lemma fresh_put_other:
  assumes "list_all (\<lambda>kv. \<not> in_group [freshBootstrapPlanAnnotation] (\<lambda>key. has_prefix key ''sfs-subdir-fresh-bootstrap-'') (fst kv)) kvs"
  shows "ParseFreshBootstrapPlan (put kvs a) = ParseFreshBootstrapPlan a"
proof -
  have "fmlookup (put kvs a) key = fmlookup a key"
    if "in_group [freshBootstrapPlanAnnotation] (\<lambda>key. has_prefix key ''sfs-subdir-fresh-bootstrap-'') key" for key
  proof -
    have "map_of (rev kvs) key = None" using assms that by (auto simp: list_all_iff map_of_eq_None_iff)
    then show ?thesis by (simp add: fmlookup_put)
  qed
  then show ?thesis unfolding ParseFreshBootstrapPlan_def by (rule parse_group_cong) auto
qed

lemma release_write:
  "ParseHolderEvidence (put (release_annotations r) a) = ParseHolderEvidence a"
  "ParseBootstrapAttempt (put (release_annotations r) a) = ParseBootstrapAttempt a"
  "ParseDiscoveryMarker (put (release_annotations r) a) h = ParseDiscoveryMarker a h"
  "ParseFreshBootstrapPlan (put (release_annotations r) a) = ParseFreshBootstrapPlan a"
  unfolding ParseHolderEvidence_def ParseBootstrapAttempt_def ParseDiscoveryMarker_def
  by (intro holder.parse_put_other bootstrap.parse_put_other discovery.parse_put_other fresh_put_other; simp add: group_eval)+

lemma holder_write:
  "ParseGracefulRelease (put (holder_annotations r) a) = ParseGracefulRelease a"
  "ParseBootstrapAttempt (put (holder_annotations r) a) = ParseBootstrapAttempt a"
  "ParseDiscoveryMarker (put (holder_annotations r) a) h = ParseDiscoveryMarker a h"
  "ParseFreshBootstrapPlan (put (holder_annotations r) a) = ParseFreshBootstrapPlan a"
  unfolding ParseGracefulRelease_def ParseBootstrapAttempt_def ParseDiscoveryMarker_def
  by (intro graceful.parse_put_other bootstrap.parse_put_other discovery.parse_put_other fresh_put_other; simp add: group_eval)+

lemma holder_clear: "ParseHolderEvidence (clear gracefulAnnotationKeys a) = ParseHolderEvidence a"
  unfolding ParseHolderEvidence_def by (rule holder.parse_clear_other) (simp add: group_eval)

lemma graceful_consumed:
  "ParseGracefulRelease a = Inr old \<Longrightarrow> ParseGracefulRelease (put (holder_annotations r) (clear gracefulAnnotationKeys a)) = Inr None"
  unfolding holder_write unfolding ParseGracefulRelease_def by (rule graceful.parse_clear)

section \<open>What the planners guarantee\<close>

lemma NewGracefulRelease_Inr:
  "NewGracefulRelease current uid requestID releasedAt = Inr release \<longleftrightarrow>
     release = \<lparr>gr_SchemaVersion = SchemaVersionV1, gr_State = ''Released'', gr_HolderPodUID = he_PodUID current, gr_RequestID = requestID,
       gr_ReleasedAt = format_rfc3339 releasedAt, gr_LeaseUID = uid, gr_InstallationID = he_InstallationID current,
       gr_ActiveClusterUID = he_ActiveClusterUID current\<rparr>
     \<and> HolderEvidence_Validate current = None \<and> GracefulRelease_Validate release = None"
  by (auto simp: NewGracefulRelease_def)

text \<open>
  (C16) Nobody becomes leader by waiting: an automatic acquisition grants mutation leadership only to the
  Pod that already holds the Lease, while no discovery is pending, or on an empty Lease whose graceful
  release marker was written for this very Lease by the preserved previous holder of the same
  installation and cluster; in both cases the next generation carries the complete evidence of the
  candidate. In particular a different uncleared holder is never displaced.
\<close>

theorem automatic_grant_authorised:
  assumes "PlanAutomaticAcquisition snapshot candidate durable = Inr plan" and "ap_MutationAllowed plan"
  shows "ap_HolderIdentity plan = he_PodUID candidate \<and> ParseHolderEvidence (ap_Annotations plan) = Inr (Some candidate)
    \<and> (ap_Mode plan = AcquisitionSameHolder \<and> ls_HolderIdentity snapshot = he_PodUID candidate
         \<and> (\<exists>previous. ParseHolderEvidence (annots snapshot) = Inr (Some previous) \<and> he_PodUID previous = he_PodUID candidate
              \<and> ParseDiscoveryMarker (annots snapshot) previous = Inr None)
       \<or> ap_Mode plan = AcquisitionGracefulHandoff \<and> ls_HolderIdentity snapshot = []
         \<and> (\<exists>previous release. ParseHolderEvidence (annots snapshot) = Inr (Some previous)
              \<and> ParseGracefulRelease (annots snapshot) = Inr (Some release) \<and> gr_LeaseUID release = ls_UID snapshot
              \<and> gr_HolderPodUID release = he_PodUID previous \<and> he_InstallationID previous = he_InstallationID candidate
              \<and> he_ActiveClusterUID previous = he_ActiveClusterUID candidate
              \<and> ParseGracefulRelease (ap_Annotations plan) = Inr None))"
proof -
  have v: "HolderEvidence_Validate candidate = None" using assms(1) by (simp add: PlanAutomaticAcquisition_def)
  obtain previous release bootstrap fresh where parsed: "ParseHolderEvidence (annots snapshot) = Inr previous"
    "ParseGracefulRelease (annots snapshot) = Inr release" "ParseBootstrapAttempt (annots snapshot) = Inr bootstrap"
    "ParseFreshBootstrapPlan (annots snapshot) = Inr fresh"
    using assms(1) by (auto simp: PlanAutomaticAcquisition_def)
  have written: "ParseHolderEvidence (put (holder_annotations candidate) a) = Inr (Some candidate)" if "ParseHolderEvidence a = Inr old" for a old
    using holder.parse_put [OF v that [unfolded ParseHolderEvidence_def]] by (simp add: ParseHolderEvidence_def)
  show ?thesis
  proof (cases "ls_HolderIdentity snapshot = []")
    case False
    then have "plan_held snapshot candidate previous release fresh = Inr plan"
      using assms(1) parsed by (simp add: PlanAutomaticAcquisition_def)
    then show ?thesis
      using assms(2) False parsed(1) written [OF parsed(1)]
      by (auto simp: plan_held_def provisional_plan_def granting_plan_def applyHolderEvidence_def HolderEvidence_Annotations_def
          split: option.splits if_splits)
  next
    case True
    then have "release \<noteq> None"
      using assms parsed True by (auto simp: PlanAutomaticAcquisition_def plan_empty_def provisional_plan_def split: option.splits)
    then obtain marker where marker: "release = Some marker" by blast
    then have pl: "plan_released snapshot candidate previous marker (bootstrap \<noteq> None \<or> fresh \<noteq> None) = Inr plan"
      using assms(1) parsed True by (simp add: PlanAutomaticAcquisition_def)
    have "ParseHolderEvidence (clear gracefulAnnotationKeys (annots snapshot)) = Inr previous" by (simp add: holder_clear parsed(1))
    moreover have "ParseGracefulRelease (put (holder_annotations candidate) (clear gracefulAnnotationKeys (annots snapshot))) = Inr None"
      by (rule graceful_consumed [OF parsed(2)])
    ultimately show ?thesis
      using pl True parsed(1,2) marker written
      by (auto simp: plan_released_def granting_plan_def applyHolderEvidence_def HolderEvidence_Annotations_def
          ClearGracefulReleaseAnnotations_def ValidateHandoff_def split: option.splits)
  qed
qed

text \<open>
  Keys of the release group that the parser does not know. \<^verbatim>\<open>PlanGracefulRelease\<close> does not look for them.
\<close>

definition stray_release :: "annotations \<Rightarrow> bool" where
  "stray_release annotations =
     fBex (fmdom annotations) (\<lambda>key. has_prefix key ''gracefulRelease'' \<and> key \<notin> set gracefulAnnotationKeys)"

lemma released_form:
  assumes "PlanGracefulRelease snapshot current requestID releasedAt inflight checkpointActive = Inr released"
  obtains release where "NewGracefulRelease current (ls_UID snapshot) requestID releasedAt = Inr release"
    and "released = \<lparr>ls_UID = ls_UID snapshot, ls_ResourceVersion = ls_ResourceVersion snapshot, ls_HolderIdentity = [],
         ls_Annotations = Some (put (release_annotations release) (annots snapshot))\<rparr>"
    and "ParseHolderEvidence (annots snapshot) = Inr (Some current)" "ParseBootstrapAttempt (annots snapshot) = Inr None"
      "ParseFreshBootstrapPlan (annots snapshot) = Inr None" "ValidateOperationID (ls_UID snapshot) = None"
  using assms by (auto simp: PlanGracefulRelease_def GracefulRelease_Annotations_def validateLeaseSnapshot_def)

lemma handoff_plan:
  assumes "PlanGracefulRelease snapshot current requestID releasedAt inflight checkpointActive = Inr released"
    and "\<not> stray_release (annots snapshot)"
    and "HolderEvidence_Validate candidate = None" and "he_InstallationID candidate = he_InstallationID current"
    and "he_ActiveClusterUID candidate = he_ActiveClusterUID current" and "version \<noteq> []"
  shows "\<exists>plan. PlanAutomaticAcquisition (released\<lparr>ls_ResourceVersion := version\<rparr>) candidate durable = Inr plan
    \<and> ap_MutationAllowed plan \<and> ap_Mode plan = AcquisitionGracefulHandoff \<and> ap_HolderIdentity plan = he_PodUID candidate
    \<and> ParseGracefulRelease (ap_Annotations plan) = Inr None"
proof -
  obtain release where rel: "NewGracefulRelease current (ls_UID snapshot) requestID releasedAt = Inr release"
    and released: "released = \<lparr>ls_UID = ls_UID snapshot, ls_ResourceVersion = ls_ResourceVersion snapshot, ls_HolderIdentity = [],
         ls_Annotations = Some (put (release_annotations release) (annots snapshot))\<rparr>"
    and parsed: "ParseHolderEvidence (annots snapshot) = Inr (Some current)" "ParseBootstrapAttempt (annots snapshot) = Inr None"
      "ParseFreshBootstrapPlan (annots snapshot) = Inr None" "ValidateOperationID (ls_UID snapshot) = None"
    using assms(1) by (rule released_form)
  have valid: "GracefulRelease_Validate release = None" "HolderEvidence_Validate current = None"
    using rel unfolding NewGracefulRelease_Inr by blast+
  have marker: "ParseGracefulRelease (put (release_annotations release) (annots snapshot)) = Inr (Some release)"
    using graceful.parse_put_clean [OF valid(1)] assms(2) by (simp add: ParseGracefulRelease_def stray_release_def)
  have fields: "gr_LeaseUID release = ls_UID snapshot" "gr_InstallationID release = he_InstallationID current"
    "gr_ActiveClusterUID release = he_ActiveClusterUID current" "gr_HolderPodUID release = he_PodUID current"
    using rel by (simp_all add: NewGracefulRelease_Inr)
  have "ParseGracefulRelease (put (holder_annotations candidate) (clear gracefulAnnotationKeys (put (release_annotations release) (annots snapshot)))) = Inr None"
    by (rule graceful_consumed [OF marker])
  then show ?thesis
    using assms(3-6) parsed valid fields
    by (simp add: PlanAutomaticAcquisition_def release_write marker validateLeaseSnapshot_def released plan_released_def
        ValidateHandoff_def applyHolderEvidence_def HolderEvidence_Annotations_def ClearGracefulReleaseAnnotations_def granting_plan_def)
qed

lemma stray_release_blocks:
  assumes "PlanGracefulRelease snapshot current requestID releasedAt inflight checkpointActive = Inr released"
    and "stray_release (annots snapshot)"
  shows "\<exists>e. PlanAutomaticAcquisition (released\<lparr>ls_ResourceVersion := version\<rparr>) candidate durable = Inl e"
proof -
  obtain release where released: "released = \<lparr>ls_UID = ls_UID snapshot, ls_ResourceVersion = ls_ResourceVersion snapshot, ls_HolderIdentity = [],
         ls_Annotations = Some (put (release_annotations release) (annots snapshot))\<rparr>"
    using assms(1) by (rule released_form)
  obtain e where "ParseGracefulRelease (put (release_annotations release) (annots snapshot)) = Inl e"
    using graceful.parse_put_stray assms(2) by (auto simp: ParseGracefulRelease_def stray_release_def)
  then show ?thesis
    by (cases "errs [validateLeaseSnapshot (released\<lparr>ls_ResourceVersion := version\<rparr>), HolderEvidence_Validate candidate]";
        cases "ParseHolderEvidence (annots snapshot)")
      (auto simp: PlanAutomaticAcquisition_def released release_write require_def)
qed

text \<open>
  (C17) A graceful release is a handoff: from the Lease it writes, at any later resource version, every
  valid Pod of the same installation and cluster acquires mutation leadership automatically, and the
  marker is then gone, so it authorises one acquisition. This fails exactly when the Lease carried an
  unknown annotation with the prefix of the release group: the release does not notice it, and
  no Pod at all can acquire the Lease it wrote.
\<close>

theorem release_enables_handoff:
  assumes "PlanGracefulRelease snapshot current requestID releasedAt inflight checkpointActive = Inr released"
    and "HolderEvidence_Validate candidate = None" and "he_InstallationID candidate = he_InstallationID current"
    and "he_ActiveClusterUID candidate = he_ActiveClusterUID current" and "version \<noteq> []"
  shows "if stray_release (annots snapshot)
    then \<forall>other. \<exists>e. PlanAutomaticAcquisition (released\<lparr>ls_ResourceVersion := version\<rparr>) other durable = Inl e
    else \<exists>plan. PlanAutomaticAcquisition (released\<lparr>ls_ResourceVersion := version\<rparr>) candidate durable = Inr plan
      \<and> ap_MutationAllowed plan \<and> ap_Mode plan = AcquisitionGracefulHandoff \<and> ap_HolderIdentity plan = he_PodUID candidate
      \<and> ParseGracefulRelease (ap_Annotations plan) = Inr None"
  using handoff_plan [OF assms(1) _ assms(2-5)] stray_release_blocks [OF assms(1)] by simp

section \<open>A sample Lease\<close>

definition sample_holder :: HolderEvidence where
  "sample_holder = \<lparr>he_SchemaVersion = SchemaVersionV1, he_PodUID = sample_uuid, he_NodeName = ''node-1'',
     he_CSINodeID = ''fr-par-1/server-1'', he_InstanceID = ''server-1'', he_Zone = ''fr-par-1'',
     he_InstallationID = sample_uuid, he_ActiveClusterUID = ''cluster''\<rparr>"

definition sample_successor :: HolderEvidence where
  "sample_successor = sample_holder\<lparr>he_PodUID := sample_uuid2\<rparr>"

lemma sample_holder_ok: "HolderEvidence_Validate sample_holder = None" "HolderEvidence_Validate sample_successor = None"
proof -
  have "ValidateNodeID ''fr-par-1/server-1'' = None" "ValidateClusterUID ''cluster'' = None"
    by (simp_all add: ValidateNodeID_def ValidateClusterUID_def ascii_eval MaxContextEntryBytes_def nodeZonePattern_def
        providerIDPattern_def is_alnum_def char_class_defs contains_any_def)
  moreover have "kubernetesNodeNamePattern ''node-1''" by (simp add: kubernetesNodeNamePattern_def char_class_defs byte_def)
  ultimately show "HolderEvidence_Validate sample_holder = None" "HolderEvidence_Validate sample_successor = None"
    using sample_uuid_ok sample_uuid2_ok
    by (simp_all add: HolderEvidence_Validate_def sample_holder_def sample_successor_def ValidateOperationID_def
        ValidateInstallationID_def node_binding_def wrap_err_def)
qed

definition sample_lease :: LeaseSnapshot where
  "sample_lease = \<lparr>ls_UID = sample_uuid, ls_ResourceVersion = ''7'', ls_HolderIdentity = sample_uuid,
     ls_Annotations = Some (put (holder_annotations sample_holder) fmempty)\<rparr>"

lemma empty_groups: "parse_group keys namespaced build fmempty = Inr None"
  by (simp add: parse_group_def)

lemma sample_lease_groups:
  "ParseHolderEvidence (annots sample_lease) = Inr (Some sample_holder)" "ParseGracefulRelease (annots sample_lease) = Inr None"
  "ParseBootstrapAttempt (annots sample_lease) = Inr None" "ParseDiscoveryMarker (annots sample_lease) h = Inr None"
  "ParseFreshBootstrapPlan (annots sample_lease) = Inr None"
proof -
  have a: "annots sample_lease = put (holder_annotations sample_holder) fmempty" by (simp add: sample_lease_def annots_def)
  show "ParseHolderEvidence (annots sample_lease) = Inr (Some sample_holder)"
    unfolding a ParseHolderEvidence_def by (rule holder.parse_put [OF sample_holder_ok(1) empty_groups])
  show "ParseGracefulRelease (annots sample_lease) = Inr None" "ParseBootstrapAttempt (annots sample_lease) = Inr None"
    "ParseDiscoveryMarker (annots sample_lease) h = Inr None" "ParseFreshBootstrapPlan (annots sample_lease) = Inr None"
    unfolding a holder_write
    by (simp_all add: ParseGracefulRelease_def ParseBootstrapAttempt_def ParseDiscoveryMarker_def ParseFreshBootstrapPlan_def empty_groups)
qed

lemma sample_lease_clean: "\<not> stray_release (annots sample_lease)"
  using graceful.parse_Inr_unknown [OF sample_lease_groups(2) [unfolded ParseGracefulRelease_def]] by (simp add: stray_release_def)

lemma sample_lease_ok: "validateLeaseSnapshot sample_lease = None"
  using sample_uuid_ok by (simp add: validateLeaseSnapshot_def sample_lease_def ValidateOperationID_def wrap_err_def)

definition sample_instant :: civil_time where
  "sample_instant = \<lparr>t_year = 2026, t_month = 1, t_day = 2, t_hour = 3, t_minute = 4, t_second = 5, t_nanos = ''000000000''\<rparr>"

lemma sample_release: "\<exists>released. PlanGracefulRelease sample_lease sample_holder sample_uuid2 sample_instant 0 False = Inr released"
proof -
  have "format_rfc3339 sample_instant = sample_time" by (simp add: sample_instant_def sample_time_def timestamp_eval)
  then have "canonical_rfc3339 (format_rfc3339 sample_instant)" using sample_time_ok by simp
  then have "\<exists>release. NewGracefulRelease sample_holder sample_uuid sample_uuid2 sample_instant = Inr release \<and> GracefulRelease_Validate release = None"
    using sample_holder_ok(1) sample_uuid_ok sample_uuid2_ok unfolding NewGracefulRelease_Inr
    by (simp add: GracefulRelease_Validate_def HolderEvidence_Validate_def sample_holder_def ValidateOperationID_def
        validateCoordinationTimestamp_def wrap_err_def)
  then show ?thesis
    using sample_holder_ok(1) sample_lease_ok
    by (auto simp: PlanGracefulRelease_def sample_lease_groups GracefulRelease_Annotations_def)
      (simp_all add: sample_lease_def sample_holder_def ensure_is_def)
qed

theorem release_enables_handoff_witness:
  "\<exists>released plan. PlanGracefulRelease sample_lease sample_holder sample_uuid2 sample_instant 0 False = Inr released
     \<and> PlanAutomaticAcquisition (released\<lparr>ls_ResourceVersion := ''8''\<rparr>) sample_successor True = Inr plan \<and> ap_MutationAllowed plan"
proof -
  obtain released where r: "PlanGracefulRelease sample_lease sample_holder sample_uuid2 sample_instant 0 False = Inr released"
    using sample_release by blast
  from release_enables_handoff [OF r sample_holder_ok(2), of "''8''" True] show ?thesis
    using r sample_lease_clean by (auto simp: sample_successor_def)
qed

theorem automatic_grant_authorised_witness:
  "\<exists>plan. PlanAutomaticAcquisition sample_lease sample_holder True = Inr plan \<and> ap_MutationAllowed plan
     \<and> ParseHolderEvidence (ap_Annotations plan) = Inr (Some sample_holder)"
proof -
  have "\<exists>plan. PlanAutomaticAcquisition sample_lease sample_holder True = Inr plan \<and> ap_MutationAllowed plan"
    using sample_holder_ok(1) sample_lease_ok
    by (simp add: PlanAutomaticAcquisition_def sample_lease_groups plan_held_def applyHolderEvidence_def HolderEvidence_Annotations_def)
      (simp add: sample_lease_def sample_holder_def sample_uuid_def ensure_is_def granting_plan_def)
  then obtain plan where "PlanAutomaticAcquisition sample_lease sample_holder True = Inr plan" "ap_MutationAllowed plan" by blast
  with automatic_grant_authorised [OF this] show ?thesis by blast
qed

definition sample_plan :: FreshBootstrapPlan where
  "sample_plan = \<lparr>fb_SchemaVersion = ''1'', fb_Phase = ''Prepared'', fb_InstallationID = sample_uuid, fb_ActiveClusterUID = ''cluster'',
     fb_HolderPodUID = sample_uuid, fb_ControllerNodeID = ''fr-par-1/server-1'', fb_ControllerInstanceID = ''server-1'',
     fb_ControllerZone = ''fr-par-1'', fb_Parents = Some
       [\<lparr>fp_ParentFilesystemID = ''parent-1'', fp_AttemptID = sample_uuid, fp_EmptyInventoryObservedAt = sample_time\<rparr>,
        \<lparr>fp_ParentFilesystemID = ''parent-2'', fp_AttemptID = sample_uuid2, fp_EmptyInventoryObservedAt = sample_time\<rparr>]\<rparr>"

lemma sample_plan_ok: "FreshBootstrapPlan_Validate sample_plan = None"
proof -
  have "ValidateParentFilesystemID ''parent-1'' = None" "ValidateParentFilesystemID ''parent-2'' = None"
    by (simp_all add: ValidateParentFilesystemID_def ascii_eval MaxContextEntryBytes_def providerIDPattern_def is_alnum_def char_class_defs)
  moreover have "sample_uuid \<noteq> sample_uuid2" by (simp add: sample_uuid_def sample_uuid2_def)
  moreover have "\<not> (''parent-1'' \<le> [])" "\<not> (''parent-2'' \<le> ''parent-1'')" by (simp_all add: less_eq_char_def)
  moreover have "ValidateNodeID ''fr-par-1/server-1'' = None" "ValidateClusterUID ''cluster'' = None"
    using sample_holder_ok(1) by (simp_all add: HolderEvidence_Validate_def sample_holder_def wrap_err_def split: option.splits)
  ultimately show ?thesis
    using sample_uuid_ok sample_uuid2_ok sample_time_ok
    by (simp add: FreshBootstrapPlan_Validate_def sample_plan_def FreshBootstrapParent_Validate_def plan_parents_def
        ValidateInstallationID_def ValidateOperationID_def wrap_err_def node_binding_def)
qed

theorem plan_parent_search_witness:
  "FreshBootstrapPlan_Validate sample_plan = None
     \<and> map_option fp_AttemptID (Plan_Parent sample_plan ''parent-2'') = Some sample_uuid2 \<and> Plan_Parent sample_plan ''parent-3'' = None"
  using sample_plan_ok plan_parent_search [OF sample_plan_ok, of "''parent-2''"] plan_parent_search [OF sample_plan_ok, of "''parent-3''"]
  by (simp add: sample_plan_def plan_parents_def)

end
