(* ===== verification/MutationGate.thy ===== *)
theory MutationGate
  imports Identifiers Interleaving
begin

text \<open>
  \<^verbatim>\<open>pkg/coordination/gate.go\<close>: the outermost admission gate of every mutating controller call, with the
  global barrier of checkpoints and graceful releases. Callers run concurrently. Each program point
  between two synchronisation operations (a critical section of \<^verbatim>\<open>stateMu\<close>, an atomic counter, a channel
  operation) is a constructor of \<open>pc\<close>, and \<open>thread_step\<close> runs one such operation of one caller, so that every
  interleaving is a run. A context is the quiesced-admission capability it carries, if
  any; its cancellation is the action \<open>Cancel\<close>, possible at every wait.
\<close>

section \<open>State\<close>

definition ErrMutationQuiesced :: sentinel where "ErrMutationQuiesced = OtherSentinel ''controller mutation gate is quiesced''"
definition ErrQuiesceConflict :: sentinel where "ErrQuiesceConflict = OtherSentinel ''controller mutation gate is quiesced by another request''"

text \<open>A capability is a pointer: \<open>qa_address\<close> is its identity, fresh for each allocation.\<close>

record quiescedAdmission =
  qa_address :: nat
  qa_requestID :: string

text \<open>
  \<open>g_tokens\<close> is the fill of the token channel, \<open>g_stateChanged\<close> the number of the current notification
  channel (a waiter that captured a smaller one finds it closed), \<open>g_allocated\<close> the next capability address.
\<close>

record Gate =
  g_limit :: nat
  g_tokens :: nat
  g_quiesceID :: string
  g_quiescedAdmission :: "quiescedAdmission option"
  g_stateChanged :: nat
  g_inflight :: int
  g_queued :: int
  g_allocated :: nat

definition fresh_gate :: "32 word \<Rightarrow> Gate" where
  "fresh_gate limit = \<lparr>g_limit = unat limit, g_tokens = 0, g_quiesceID = [], g_quiescedAdmission = None, g_stateChanged = 0,
     g_inflight = 0, g_queued = 0, g_allocated = 0\<rparr>"

definition NewMutationGate :: "32 word \<Rightarrow> Gate res" where
  "NewMutationGate limit =
     require (ensure (limit \<noteq> 0) ''mutation limit must be positive'')
       (Inr (fresh_gate limit))"

type_synonym ctx = "quiescedAdmission option"

definition quiescedAdmissionAllowed :: "Gate \<Rightarrow> ctx \<Rightarrow> bool" where
  "quiescedAdmissionAllowed gate context \<longleftrightarrow>
     (case context of None \<Rightarrow> False
      | Some admission \<Rightarrow> g_quiescedAdmission gate = Some admission \<and> qa_requestID admission = g_quiesceID gate)"

definition refuses :: "Gate \<Rightarrow> ctx \<Rightarrow> bool" where
  "refuses gate context \<longleftrightarrow> g_quiesceID gate \<noteq> [] \<and> \<not> quiescedAdmissionAllowed gate context"

definition notifyStateChangedLocked :: "Gate \<Rightarrow> Gate" where
  "notifyStateChangedLocked gate = gate\<lparr>g_stateChanged := Suc (g_stateChanged gate)\<rparr>"

section \<open>Callers\<close>

datatype pc =
    Returned "error option"
  | Entering ctx
  | Queued ctx
  | Tokened ctx
  | Rechecking ctx
  | Rejected
  | Holding ctx
  | Released
  | Quiescing string nat
  | Reconciling quiescedAdmission
  | Draining "error option" nat

datatype action =
    CallAcquire ctx
  | CallBeginQuiesce string
  | CallResume string
  | CallReconcile string
  | Proceed
  | Cancel
  | CallbackReturns "error option"

definition context_canceled :: error where "context_canceled = errorf ''context canceled''"

text \<open>The wait of \<^verbatim>\<open>BeginQuiesce\<close> and \<^verbatim>\<open>RunQuiescedReconciliation\<close>, with \<^verbatim>\<open>stateMu\<close> held.\<close>

definition wait_drained :: "Gate \<Rightarrow> error option \<Rightarrow> (nat \<Rightarrow> pc) \<Rightarrow> Gate \<times> pc" where
  "wait_drained gate result waiting =
     (gate, if g_inflight gate = 0 then Returned result else waiting (g_stateChanged gate))"

text \<open>\<^verbatim>\<open>Acquire\<close> up to the unlock of its first check.\<close>

definition acquire_enter :: "ctx \<Rightarrow> Gate \<Rightarrow> Gate \<times> pc" where
  "acquire_enter context gate =
     (gate, if refuses gate context then Returned (Some (Errorf [] [ErrMutationQuiesced])) else Entering context)"

text \<open>The second check of \<^verbatim>\<open>Acquire\<close>, with a token.\<close>

definition acquire_recheck :: "ctx \<Rightarrow> Gate \<Rightarrow> Gate \<times> pc" where
  "acquire_recheck context gate =
     (if refuses gate context then (gate, Rejected)
      else (gate\<lparr>g_inflight := g_inflight gate + 1\<rparr>, Holding context))"

text \<open>The critical section of the release function.\<close>

definition release :: "Gate \<Rightarrow> Gate \<times> pc" where
  "release gate = (notifyStateChangedLocked (gate\<lparr>g_inflight := g_inflight gate - 1\<rparr>), Released)"

definition BeginQuiesce :: "string \<Rightarrow> Gate \<Rightarrow> Gate \<times> pc" where
  "BeginQuiesce requestID gate =
     (case ValidateOperationID requestID of
        Some err \<Rightarrow> (gate, Returned (Some err))
      | None \<Rightarrow>
          if g_quiesceID gate \<noteq> [] \<and> g_quiesceID gate \<noteq> requestID
          then (gate, Returned (Some (Errorf [] [ErrQuiesceConflict])))
          else wait_drained
            (if g_quiesceID gate = [] then notifyStateChangedLocked (gate\<lparr>g_quiesceID := requestID\<rparr>) else gate)
            None (Quiescing requestID))"

definition Resume :: "string \<Rightarrow> Gate \<Rightarrow> Gate \<times> pc" where
  "Resume requestID gate =
     (case ValidateOperationID requestID of
        Some err \<Rightarrow> (gate, Returned (Some err))
      | None \<Rightarrow>
          if g_quiesceID gate = [] then (gate, Returned None)
          else if g_quiesceID gate \<noteq> requestID then (gate, Returned (Some (Errorf [] [ErrQuiesceConflict])))
          else if g_inflight gate \<noteq> 0 then (gate, Returned (Some (errorf ''cannot resume mutation gate with active holders'')))
          else if g_quiescedAdmission gate \<noteq> None
          then (gate, Returned (Some (errorf ''cannot resume mutation gate during quiesced reconciliation'')))
          else (notifyStateChangedLocked (gate\<lparr>g_quiesceID := []\<rparr>), Returned None))"

text \<open>\<^verbatim>\<open>RunQuiescedReconciliation\<close> up to the callback, and from its return.\<close>

definition reconcile_begin :: "string \<Rightarrow> Gate \<Rightarrow> Gate \<times> pc" where
  "reconcile_begin requestID gate =
     (case ValidateOperationID requestID of
        Some err \<Rightarrow> (gate, Returned (Some err))
      | None \<Rightarrow>
          let admission = \<lparr>qa_address = g_allocated gate, qa_requestID = requestID\<rparr>;
              allocated = gate\<lparr>g_allocated := Suc (g_allocated gate)\<rparr>
          in if g_quiesceID gate \<noteq> requestID then (allocated, Returned (Some (Errorf [] [ErrQuiesceConflict])))
             else if g_quiescedAdmission gate \<noteq> None \<or> g_inflight gate \<noteq> 0
             then (allocated, Returned (Some (errorf ''quiesced reconciliation admission is already active or mutation holders remain'')))
             else (allocated\<lparr>g_quiescedAdmission := Some admission\<rparr>, Reconciling admission))"

definition reconcile_end :: "quiescedAdmission \<Rightarrow> error option \<Rightarrow> Gate \<Rightarrow> Gate \<times> pc" where
  "reconcile_end admission reconcileErr gate =
     wait_drained
       (if g_quiescedAdmission gate = Some admission
        then notifyStateChangedLocked (gate\<lparr>g_quiescedAdmission := None\<rparr>) else gate)
       reconcileErr (Draining reconcileErr)"

text \<open>
  One synchronisation operation of a caller; \<open>None\<close> when it is blocked or the action is not its next one.
\<close>

fun proceed :: "pc \<Rightarrow> Gate \<Rightarrow> (Gate \<times> pc) option" where
  "proceed (Entering context) gate = Some (gate\<lparr>g_queued := g_queued gate + 1\<rparr>, Queued context)"
| "proceed (Queued context) gate =
     (if g_tokens gate < g_limit gate then Some (gate\<lparr>g_tokens := Suc (g_tokens gate)\<rparr>, Tokened context) else None)"
| "proceed (Tokened context) gate = Some (gate\<lparr>g_queued := g_queued gate - 1\<rparr>, Rechecking context)"
| "proceed (Rechecking context) gate = Some (acquire_recheck context gate)"
| "proceed Rejected gate =
     (if g_tokens gate = 0 then None
      else Some (gate\<lparr>g_tokens := g_tokens gate - 1\<rparr>, Returned (Some (Errorf [] [ErrMutationQuiesced]))))"
| "proceed (Holding context) gate = Some (release gate)"
| "proceed Released gate =
     (if g_tokens gate = 0 then None else Some (gate\<lparr>g_tokens := g_tokens gate - 1\<rparr>, Returned None))"
| "proceed (Quiescing requestID changed) gate =
     (if changed = g_stateChanged gate then None else Some (wait_drained gate None (Quiescing requestID)))"
| "proceed (Draining reconcileErr changed) gate =
     (if changed = g_stateChanged gate then None else Some (wait_drained gate reconcileErr (Draining reconcileErr)))"
| "proceed p gate = None"

text \<open>\<^verbatim>\<open><-ctx.Done()\<close>, and the check of \<^verbatim>\<open>ctx.Err()\<close> before a call.\<close>

fun cancelled :: "pc \<Rightarrow> Gate \<Rightarrow> (Gate \<times> pc) option" where
  "cancelled (Returned r) gate = Some (gate, Returned (Some context_canceled))"
| "cancelled (Queued context) gate = Some (gate\<lparr>g_queued := g_queued gate - 1\<rparr>, Returned (Some context_canceled))"
| "cancelled (Quiescing requestID changed) gate = Some (gate, Returned (Some context_canceled))"
| "cancelled (Draining reconcileErr changed) gate =
     Some (gate, Returned (Some (case reconcileErr of None \<Rightarrow> context_canceled | Some err \<Rightarrow> join_errors err context_canceled)))"
| "cancelled p gate = None"

text \<open>Nobody can forge a capability: a context carries one that was allocated.\<close>

fun call :: "action \<Rightarrow> Gate \<Rightarrow> (Gate \<times> pc) option" where
  "call (CallAcquire context) gate =
     (if (case context of None \<Rightarrow> True | Some admission \<Rightarrow> qa_address admission < g_allocated gate)
      then Some (acquire_enter context gate) else None)"
| "call (CallBeginQuiesce requestID) gate = Some (BeginQuiesce requestID gate)"
| "call (CallResume requestID) gate = Some (Resume requestID gate)"
| "call (CallReconcile requestID) gate = Some (reconcile_begin requestID gate)"
| "call act gate = None"

definition thread_step :: "action \<Rightarrow> pc \<Rightarrow> Gate \<Rightarrow> (Gate \<times> pc) option" where
  "thread_step act p gate =
     (case act of
        Proceed \<Rightarrow> proceed p gate
      | Cancel \<Rightarrow> cancelled p gate
      | CallbackReturns reconcileErr \<Rightarrow>
          (case p of Reconciling admission \<Rightarrow> Some (reconcile_end admission reconcileErr gate) | _ \<Rightarrow> None)
      | _ \<Rightarrow> (case p of Returned r \<Rightarrow> call act gate | _ \<Rightarrow> None))"

section \<open>What one operation changes\<close>

fun is_holding :: "pc \<Rightarrow> bool" where
  "is_holding (Holding context) = True"
| "is_holding p = False"

fun has_token :: "pc \<Rightarrow> bool" where
  "has_token (Tokened context) = True"
| "has_token (Rechecking context) = True"
| "has_token Rejected = True"
| "has_token (Holding context) = True"
| "has_token Released = True"
| "has_token p = False"

fun is_queued :: "pc \<Rightarrow> bool" where
  "is_queued (Queued context) = True"
| "is_queued (Tokened context) = True"
| "is_queued p = False"

fun waits_on :: "pc \<Rightarrow> nat option" where
  "waits_on (Quiescing requestID changed) = Some changed"
| "waits_on (Draining reconcileErr changed) = Some changed"
| "waits_on p = None"

lemmas gate_defs = acquire_enter_def acquire_recheck_def release_def BeginQuiesce_def Resume_def reconcile_begin_def
  reconcile_end_def wait_drained_def notifyStateChangedLocked_def Let_def

lemma thread_step_cases:
  assumes "thread_step act p gate = Some (gate', p')"
  obtains (enter) r cx where "p = Returned r" "acquire_enter cx gate = (gate', p')"
      "\<forall>admission. cx = Some admission \<longrightarrow> qa_address admission < g_allocated gate"
  | (begin_quiesce) r requestID where "p = Returned r" "BeginQuiesce requestID gate = (gate', p')"
  | (resume) r requestID where "p = Returned r" "Resume requestID gate = (gate', p')"
  | (reconcile) r requestID where "p = Returned r" "reconcile_begin requestID gate = (gate', p')"
  | (callback) reconcileErr admission where "p = Reconciling admission" "reconcile_end admission reconcileErr gate = (gate', p')"
  | (proceed) "proceed p gate = Some (gate', p')"
  | (cancel) "cancelled p gate = Some (gate', p')"
  using assms
  by (cases act; cases p) (auto simp: thread_step_def split: if_splits option.splits)

text \<open>What one operation does to the counters and to the notifications.\<close>

definition contract :: "Gate \<Rightarrow> pc \<Rightarrow> Gate \<Rightarrow> pc \<Rightarrow> bool" where
  "contract gate p gate' p' \<longleftrightarrow>
     g_inflight gate' + of_bool (is_holding p) = g_inflight gate + of_bool (is_holding p')
     \<and> g_tokens gate' + of_bool (has_token p) = g_tokens gate + of_bool (has_token p')
     \<and> g_queued gate' + of_bool (is_queued p) = g_queued gate + of_bool (is_queued p')
     \<and> g_limit gate' = g_limit gate
     \<and> (g_tokens gate \<le> g_limit gate \<longrightarrow> g_tokens gate' \<le> g_limit gate')
     \<and> g_stateChanged gate \<le> g_stateChanged gate'
     \<and> (g_stateChanged gate' = g_stateChanged gate \<longrightarrow> g_inflight gate \<le> g_inflight gate')
     \<and> (case waits_on p' of None \<Rightarrow> True | Some changed \<Rightarrow> changed = g_stateChanged gate' \<and> g_inflight gate' \<noteq> 0)"

lemma contract_quiet:
  assumes "g_inflight gate' = g_inflight gate" "g_tokens gate' = g_tokens gate" "g_queued gate' = g_queued gate" "g_limit gate' = g_limit gate"
    "g_stateChanged gate \<le> g_stateChanged gate'" "\<not> is_holding p" "\<not> has_token p" "\<not> is_queued p"
    "(\<exists>r'. p' = Returned r') \<or> (\<exists>cx. p' = Entering cx) \<or> (\<exists>admission. p' = Reconciling admission)
      \<or> g_inflight gate' \<noteq> 0 \<and> ((\<exists>requestID. p' = Quiescing requestID (g_stateChanged gate')) \<or> (\<exists>err. p' = Draining err (g_stateChanged gate')))"
  shows "contract gate p gate' p'"
proof -
  have "\<not> is_holding p'" "\<not> has_token p'" "\<not> is_queued p'" using assms(9) by auto
  moreover have "case waits_on p' of None \<Rightarrow> True | Some changed \<Rightarrow> changed = g_stateChanged gate' \<and> g_inflight gate' \<noteq> 0"
    using assms(9) by (elim disjE conjE exE) simp_all
  ultimately show ?thesis using assms(1-8) unfolding contract_def by simp
qed

lemma proceed_contract:
  assumes "proceed p gate = Some (gate', p')"
  shows "contract gate p gate' p'"
proof (cases p)
  case (Quiescing requestID changed)
  then show ?thesis using assms by (intro contract_quiet) (auto simp: wait_drained_def split: if_splits)
next
  case (Draining err changed)
  then show ?thesis using assms by (intro contract_quiet) (auto simp: wait_drained_def split: if_splits)
qed (use assms in \<open>auto simp: contract_def acquire_recheck_def release_def notifyStateChangedLocked_def split: if_splits\<close>)

lemma cancelled_contract: "cancelled p gate = Some (gate', p') \<Longrightarrow> contract gate p gate' p'"
  by (cases "(p, gate)" rule: cancelled.cases) (auto simp: contract_def)

lemma call_contract:
  "BeginQuiesce requestID gate = (gate', p') \<Longrightarrow> contract gate (Returned r) gate' p'"
  "Resume requestID gate = (gate', p') \<Longrightarrow> contract gate (Returned r) gate' p'"
  "acquire_enter cx gate = (gate', p') \<Longrightarrow> contract gate (Returned r) gate' p'"
  "reconcile_begin requestID gate = (gate', p') \<Longrightarrow> contract gate (Returned r) gate' p'"
  "reconcile_end admission reconcileErr gate = (gate', p') \<Longrightarrow> contract gate (Reconciling admission) gate' p'"
  by (rule contract_quiet; auto simp: gate_defs split: option.splits if_splits)+

lemma step_contract:
  assumes "thread_step act p gate = Some (gate', p')"
  shows "contract gate p gate' p'"
  using assms
  by (cases rule: thread_step_cases) (simp_all add: proceed_contract cancelled_contract call_contract)

section \<open>The invariant\<close>

definition gate_inv :: "Gate \<times> pc list \<Rightarrow> bool" where
  "gate_inv c = (case c of (gate, pcs) \<Rightarrow>
     g_inflight gate = int (num is_holding pcs) \<and> g_tokens gate = num has_token pcs \<and> g_queued gate = int (num is_queued pcs)
     \<and> g_tokens gate \<le> g_limit gate
     \<and> (\<forall>p \<in> set pcs. \<forall>changed. waits_on p = Some changed \<longrightarrow>
          changed \<le> g_stateChanged gate \<and> (changed = g_stateChanged gate \<longrightarrow> g_inflight gate \<noteq> 0)))"

lemma gate_inv_step:
  assumes "gate_inv (gate, pcs)" and i: "i < length pcs" and st: "thread_step act (pcs ! i) gate = Some (gate', p')"
  shows "gate_inv (gate', pcs[i := p'])"
proof -
  note con = step_contract [OF st, unfolded contract_def]
  have "changed \<le> g_stateChanged gate' \<and> (changed = g_stateChanged gate' \<longrightarrow> g_inflight gate' \<noteq> 0)"
    if p: "p \<in> set (pcs[i := p'])" and w: "waits_on p = Some changed" for p changed
  proof (cases "p = p'")
    case True
    then show ?thesis using con w by auto
  next
    case False
    then have "p \<in> set pcs" using p set_update_subset_insert [of pcs i p'] by auto
    then have "changed \<le> g_stateChanged gate" "changed = g_stateChanged gate \<longrightarrow> g_inflight gate > 0"
      using assms(1) w by (auto simp: gate_inv_def)
    then show ?thesis using con by linarith
  qed
  moreover have "g_inflight gate' = int (num is_holding (pcs[i := p']))"
    using con arg_cong [OF num_update [OF i, of is_holding p'], of int] assms(1) by (simp add: gate_inv_def)
  moreover have "g_tokens gate' = num has_token (pcs[i := p'])"
    using con num_update [OF i, of has_token p'] assms(1) by (simp add: gate_inv_def)
  moreover have "g_queued gate' = int (num is_queued (pcs[i := p']))"
    using con arg_cong [OF num_update [OF i, of is_queued p'], of int] assms(1) by (simp add: gate_inv_def)
  moreover have "g_tokens gate' \<le> g_limit gate'" using con assms(1) by (simp add: gate_inv_def)
  ultimately show ?thesis unfolding gate_inv_def by auto
qed

abbreviation gate_reach :: "Gate \<Rightarrow> nat \<Rightarrow> Gate \<times> pc list \<Rightarrow> bool" where
  "gate_reach gate0 n \<equiv> reach thread_step (gate0, replicate n (Returned None))"

interpretation gate: interleaving thread_step "\<lambda>c. gate_inv c \<and> g_limit (fst c) = unat limit \<and> length (snd c) = n"
  "(fresh_gate limit, replicate n (Returned None))"
  for limit :: "32 word" and n :: nat
proof unfold_locales
  show "gate_inv (fresh_gate limit, replicate n (Returned None)) \<and> g_limit (fst (fresh_gate limit, replicate n (Returned None))) = unat limit
    \<and> length (snd (fresh_gate limit, replicate n (Returned None))) = n"
    by (auto simp: fresh_gate_def gate_inv_def num_replicate)
  show "gate_inv (g', pcs[i := p']) \<and> g_limit (fst (g', pcs[i := p'])) = unat limit \<and> length (snd (g', pcs[i := p'])) = n"
    if "gate_inv (g, pcs) \<and> g_limit (fst (g, pcs)) = unat limit \<and> length (snd (g, pcs)) = n" "i < length pcs"
      "thread_step act (pcs ! i) g = Some (g', p')" for g pcs i act g' p'
    using that gate_inv_step [of g pcs i act g' p'] step_contract [OF that(3)] by (simp add: contract_def)
qed

lemma gate_inv_reach:
  assumes "NewMutationGate limit = Inr gate0" and "gate_reach gate0 n c"
  shows "gate_inv c \<and> g_limit (fst c) = unat limit \<and> length (snd c) = n"
proof -
  have "gate0 = fresh_gate limit" using assms(1) by (simp add: NewMutationGate_def)
  then show ?thesis using gate.inv_reach assms(2) by simp
qed

section \<open>The barrier\<close>

fun admitted_under :: "string \<Rightarrow> pc \<Rightarrow> bool" where
  "admitted_under requestID (Holding cx) \<longleftrightarrow> (case cx of None \<Rightarrow> False | Some admission \<Rightarrow> qa_requestID admission = requestID)"
| "admitted_under requestID p \<longleftrightarrow> True"

lemma not_holding_admitted: "\<not> is_holding p \<Longrightarrow> admitted_under requestID p"
  by (cases p) simp_all

definition barred :: "string \<Rightarrow> Gate \<times> pc list \<Rightarrow> bool" where
  "barred requestID c \<longleftrightarrow> g_quiesceID (fst c) = requestID \<and> list_all (admitted_under requestID) (snd c)"

lemma barrier_local:
  assumes "thread_step act p gate = Some (gate', p')" and "g_quiesceID gate = requestID" and "requestID \<noteq> []"
    and "admitted_under requestID p" and "act \<noteq> CallResume requestID"
  shows "g_quiesceID gate' = requestID \<and> admitted_under requestID p'"
proof -
  have resume: "Resume r gate = (gate', p') \<Longrightarrow> r \<noteq> requestID \<Longrightarrow> ?thesis" for r
    using assms(2,3) by (auto simp: Resume_def split: option.splits if_splits)
  have begins: "BeginQuiesce r gate = (gate', p') \<Longrightarrow> ?thesis" for r
    using assms(2,3) by (auto simp: BeginQuiesce_def wait_drained_def split: option.splits if_splits)
  have others: "acquire_enter cx gate = (gate', p') \<Longrightarrow> ?thesis" "reconcile_begin r gate = (gate', p') \<Longrightarrow> ?thesis"
    "reconcile_end admission err gate = (gate', p') \<Longrightarrow> ?thesis" for cx r admission err
    using assms(2,3)
    by (auto simp: acquire_enter_def reconcile_begin_def reconcile_end_def wait_drained_def notifyStateChangedLocked_def Let_def
        split: option.splits if_splits)
  have proceeds: "?thesis" if "proceed p gate = Some (gate', p')"
    using that assms(2-4)
    by (cases p) (auto simp: acquire_recheck_def release_def wait_drained_def notifyStateChangedLocked_def refuses_def
        quiescedAdmissionAllowed_def split: if_splits option.splits)
  have cancels: "?thesis" if "cancelled p gate = Some (gate', p')"
    using that assms(2-4) by (cases p) auto
  show ?thesis
  proof (cases act)
    case (CallResume r)
    then show ?thesis using assms(1,5) resume by (auto simp: thread_step_def split: pc.splits)
  qed (use assms(1) begins others proceeds cancels in \<open>auto simp: thread_step_def split: pc.splits if_splits\<close>)
qed

lemma barrier_step:
  assumes "barred requestID c" and "requestID \<noteq> []" and "system_step thread_step i act c = Some c'" and "act \<noteq> CallResume requestID"
  shows "barred requestID c'"
proof -
  obtain gate pcs where c: "c = (gate, pcs)" by fastforce
  obtain gate' p' where st: "i < length pcs" "thread_step act (pcs ! i) gate = Some (gate', p')" "c' = (gate', pcs[i := p'])"
    using assms(3) unfolding c by (rule system_stepE)
  have all: "g_quiesceID gate = requestID" "list_all (admitted_under requestID) pcs" using assms(1) by (simp_all add: barred_def c)
  then have "admitted_under requestID (pcs ! i)" using st(1) by (simp add: list_all_length)
  from barrier_local [OF st(2) all(1) assms(2) this assms(4)] show ?thesis
    using all(2) st(1) by (auto simp: barred_def st(3) list_all_length nth_list_update)
qed

lemma barrier_run:
  assumes "barred requestID c" and "requestID \<noteq> []" and "run thread_step as c = Some c'" and "\<forall>a \<in> set as. snd a \<noteq> CallResume requestID"
  shows "barred requestID c'"
  using assms
proof (induction as arbitrary: c)
  case (Cons a as)
  obtain i act where a: "a = (i, act)" by fastforce
  obtain c1 where c1: "system_step thread_step i act c = Some c1" "run thread_step as c1 = Some c'"
    using Cons.prems(3) by (auto simp: a bind_eq_Some_conv)
  then show ?case using Cons.IH [OF _ _ c1(2)] barrier_step [OF Cons.prems(1,2) c1(1)] Cons.prems by (auto simp: a)
qed simp

text \<open>
  (C12) The checkpoint barrier. Once \<^verbatim>\<open>BeginQuiesce\<close> of a request has returned success with its barrier in
  place, then however the callers interleave, until that request is resumed the barrier stays and
  every mutation in flight was admitted with a capability issued for that request: no ordinary
  mutation crosses a checkpoint.
\<close>

theorem quiesce_barrier:
  assumes new: "NewMutationGate limit = Inr gate0" and r: "gate_reach gate0 n (gate, pcs)"
    and op: "ValidateOperationID requestID = None"
    and call: "act = CallBeginQuiesce requestID \<or> act = Proceed \<and> (\<exists>changed. pcs ! i = Quiescing requestID changed)"
    and step: "system_step thread_step i act (gate, pcs) = Some (gate', pcs')" and ok: "pcs' ! i = Returned None" "g_quiesceID gate' = requestID"
    and later: "run thread_step as (gate', pcs') = Some (gate'', pcs'')" "\<forall>a \<in> set as. snd a \<noteq> CallResume requestID"
  shows "g_quiesceID gate'' = requestID \<and> list_all (admitted_under requestID) pcs''"
proof -
  obtain p' where st: "i < length pcs" "thread_step act (pcs ! i) gate = Some (gate', p')" "pcs' = pcs[i := p']"
    using system_stepE [OF step] by blast
  have "p' = Returned None" using ok(1) st by simp
  then have "g_inflight gate' = 0"
    using st(2) call op by (auto simp: thread_step_def BeginQuiesce_def wait_drained_def split: pc.splits if_splits)
  moreover have "gate_reach gate0 n (gate', pcs')" using reach.step [OF r step] .
  ultimately have "num is_holding pcs' = 0" using gate_inv_reach [OF new] by (fastforce simp: gate_inv_def)
  then have "list_all (admitted_under requestID) pcs'"
    using not_holding_admitted by (auto simp: num_zero list_all_iff)
  then have "barred requestID (gate', pcs')" using ok(2) by (simp add: barred_def)
  moreover have "requestID \<noteq> []" using op by (auto simp: ValidateOperationID_def uuidPattern_def eval_nat_numeral)
  ultimately show ?thesis using barrier_run [OF _ _ later] by (simp add: barred_def)
qed

section \<open>Draining\<close>

lemma release_holder:
  assumes "j < length pcs" and "pcs ! j = Holding cx"
  shows "system_step thread_step j Proceed (gate, pcs) = Some (fst (release gate), pcs[j := Released])"
  using assms by (simp add: system_step_def thread_step_def release_def)

lemma drain_run:
  assumes "gate_inv (gate, pcs)"
  obtains as gate' pcs' where "run thread_step as (gate, pcs) = Some (gate', pcs')" "\<forall>a \<in> set as. snd a = Proceed" "length as = num is_holding pcs"
    "gate_inv (gate', pcs')" "num is_holding pcs' = 0" "length pcs' = length pcs"
    "\<forall>j < length pcs. \<not> is_holding (pcs ! j) \<longrightarrow> pcs' ! j = pcs ! j"
  using assms
proof (induction "num is_holding pcs" arbitrary: gate pcs thesis)
  case 0
  then show ?case by (intro "0.prems"(1) [of "[]" gate pcs]) auto
next
  case (Suc m)
  obtain j cx where j: "j < length pcs" "pcs ! j = Holding cx"
  proof -
    have "\<exists>p \<in> set pcs. is_holding p" using Suc.hyps(2) num_zero [of is_holding pcs] by auto
    then show thesis using that by (auto simp: in_set_conv_nth elim!: is_holding.elims)
  qed
  note st = release_holder [OF j, of gate]
  have inv: "gate_inv (fst (release gate), pcs[j := Released])"
    by (rule gate_inv_step [OF Suc.prems(2) j(1), of Proceed]) (simp add: j(2) thread_step_def release_def)
  have n: "m = num is_holding (pcs[j := Released])"
    using num_update [OF j(1), of is_holding Released] j(2) Suc.hyps(2) by simp
  show ?case
  proof (rule Suc.hyps(1) [OF n _ inv])
    fix as gate' pcs'
    assume h: "run thread_step as (fst (release gate), pcs[j := Released]) = Some (gate', pcs')" "\<forall>a \<in> set as. snd a = Proceed"
      "length as = num is_holding (pcs[j := Released])" "gate_inv (gate', pcs')" "num is_holding pcs' = 0"
      "length pcs' = length (pcs[j := Released])"
      "\<forall>k < length (pcs[j := Released]). \<not> is_holding (pcs[j := Released] ! k) \<longrightarrow> pcs' ! k = pcs[j := Released] ! k"
    show thesis
    proof (rule Suc.prems(1) [of "(j, Proceed) # as" gate' pcs'])
      show "run thread_step ((j, Proceed) # as) (gate, pcs) = Some (gate', pcs')" using st h(1) by simp
      show "length ((j, Proceed) # as) = num is_holding pcs" using h(3) n Suc.hyps(2) by simp
      show "\<forall>k < length pcs. \<not> is_holding (pcs ! k) \<longrightarrow> pcs' ! k = pcs ! k"
        using h(7) j by (auto simp: nth_list_update)
    qed (use h in auto)
  qed
qed

lemma gate_inv_waits:
  "gate_inv (gate, pcs) \<Longrightarrow> p \<in> set pcs \<Longrightarrow> waits_on p = Some changed \<Longrightarrow> g_inflight gate = 0 \<Longrightarrow> changed \<noteq> g_stateChanged gate"
  unfolding gate_inv_def by auto

text \<open>
  (C13) No wake-up is lost: from every reachable state in which a caller waits in \<^verbatim>\<open>BeginQuiesce\<close>, letting
  the current holders release their admissions and the waiter take one step makes the call return
  success, in as many steps as there are holders and one more.
\<close>

theorem quiesce_completes:
  assumes "NewMutationGate limit = Inr gate0" and "gate_reach gate0 n (gate, pcs)" and "i < n" and "pcs ! i = Quiescing requestID changed"
  shows "\<exists>as gate' pcs'. run thread_step as (gate, pcs) = Some (gate', pcs') \<and> pcs' ! i = Returned None \<and> g_inflight gate' = 0
    \<and> list_all (\<lambda>a. snd a = Proceed) as \<and> int (length as) = g_inflight gate + 1"
proof -
  have inv: "gate_inv (gate, pcs)" and n: "length pcs = n" using gate_inv_reach [OF assms(1,2)] by simp_all
  obtain as gate' pcs' where d: "run thread_step as (gate, pcs) = Some (gate', pcs')" "\<forall>a \<in> set as. snd a = Proceed" "length as = num is_holding pcs"
    "gate_inv (gate', pcs')" "num is_holding pcs' = 0" "length pcs' = length pcs"
    "\<forall>j < length pcs. \<not> is_holding (pcs ! j) \<longrightarrow> pcs' ! j = pcs ! j"
    using drain_run [OF inv] by blast
  have p: "i < length pcs'" "pcs' ! i = Quiescing requestID changed" using d(6,7) assms(3,4) n by auto
  have idle: "g_inflight gate' = 0" using d(4,5) by (simp add: gate_inv_def)
  have "waits_on (pcs' ! i) = Some changed" using p(2) by simp
  then have "changed \<noteq> g_stateChanged gate'" using gate_inv_waits [OF d(4) nth_mem [OF p(1)]] idle by blast
  then have "system_step thread_step i Proceed (gate', pcs') = Some (gate', pcs'[i := Returned None])"
    using p idle by (simp add: system_step_def thread_step_def wait_drained_def)
  then have "run thread_step (as @ [(i, Proceed)]) (gate, pcs) = Some (gate', pcs'[i := Returned None])" by (simp add: run_append d(1))
  moreover have "g_inflight gate = int (length as)" using inv d(3) by (simp add: gate_inv_def)
  ultimately show ?thesis using p(1) idle d(2)
    by (intro exI [of _ "as @ [(i, Proceed)]"] exI [of _ gate'] exI [of _ "pcs'[i := Returned None]"]) (auto simp: list_all_iff)
qed

text \<open>
  (C37) Bounded concurrency: in every reachable state the counter of mutations in flight is the number of
  callers between admission and release, never more than the limit of the gate, the waiting counter
  is the number of callers that wait for a token or just got it, and the tokens taken are exactly those
  of callers past the wait.
\<close>

theorem gate_bounded:
  assumes "NewMutationGate limit = Inr gate0" and "gate_reach gate0 n (gate, pcs)"
  shows "g_inflight gate = int (num is_holding pcs) \<and> num is_holding pcs \<le> unat limit
    \<and> g_queued gate = int (num is_queued pcs) \<and> g_tokens gate = num has_token pcs \<and> g_tokens gate \<le> unat limit"
proof -
  have "num is_holding xs \<le> num has_token xs" for xs
    by (induction xs) (auto simp: num_def elim!: is_holding.elims)
  from this [of pcs] show ?thesis using gate_inv_reach [OF assms] by (simp add: gate_inv_def)
qed

section \<open>Sample runs\<close>

definition sample_gate :: Gate where
  "sample_gate = \<lparr>g_limit = 1, g_tokens = 0, g_quiesceID = [], g_quiescedAdmission = None, g_stateChanged = 0,
     g_inflight = 0, g_queued = 0, g_allocated = 0\<rparr>"

abbreviation "sample_threads \<equiv> (sample_gate, replicate 3 (Returned None))"

text \<open>Caller 0 is admitted, then caller 1 begins a barrier and waits.\<close>

definition sample_schedule :: "(nat \<times> action) list" where
  "sample_schedule = (0, CallAcquire None) # replicate 4 (0, Proceed) @ [(1, CallBeginQuiesce sample_uuid)]"

lemma sample_gate_new: "NewMutationGate 1 = Inr sample_gate"
  by (simp add: NewMutationGate_def fresh_gate_def sample_gate_def)

lemma sample_waiting:
  "run thread_step sample_schedule sample_threads =
     Some (sample_gate\<lparr>g_tokens := 1, g_quiesceID := sample_uuid, g_stateChanged := 1, g_inflight := 1\<rparr>,
       [Holding None, Quiescing sample_uuid 1, Returned None])"
  using sample_uuid_ok
  by (simp add: sample_schedule_def sample_gate_def system_step_def thread_step_def gate_defs refuses_def numeral_eq_Suc
      ValidateOperationID_def)

lemma sample_waiting_reach:
  "gate_reach sample_gate 3 (sample_gate\<lparr>g_tokens := 1, g_quiesceID := sample_uuid, g_stateChanged := 1, g_inflight := 1\<rparr>,
     [Holding None, Quiescing sample_uuid 1, Returned None])"
  using run_reach [OF reach.start sample_waiting] .

theorem gate_bounded_witness:
  "g_inflight (sample_gate\<lparr>g_tokens := 1, g_quiesceID := sample_uuid, g_stateChanged := 1, g_inflight := 1\<rparr>)
     = int (num is_holding [Holding None, Quiescing sample_uuid 1, Returned None])"
  using gate_bounded [OF sample_gate_new sample_waiting_reach] by blast

theorem quiesce_completes_witness:
  "\<exists>as gate' pcs'. run thread_step as (sample_gate\<lparr>g_tokens := 1, g_quiesceID := sample_uuid, g_stateChanged := 1, g_inflight := 1\<rparr>,
       [Holding None, Quiescing sample_uuid 1, Returned None]) = Some (gate', pcs')
     \<and> pcs' ! 1 = Returned None \<and> int (length as) = 2"
  using quiesce_completes [OF sample_gate_new sample_waiting_reach, of 1 sample_uuid 1] by auto

theorem quiesce_barrier_witness:
  "\<exists>gate' pcs'. run thread_step (sample_schedule @ [(0, Proceed), (1, Proceed), (2, CallAcquire None)]) sample_threads = Some (gate', pcs')
     \<and> g_quiesceID gate' = sample_uuid \<and> list_all (admitted_under sample_uuid) pcs'"
proof -
  let ?g1 = "sample_gate\<lparr>g_tokens := 1, g_quiesceID := sample_uuid, g_stateChanged := 2\<rparr>"
  let ?c1 = "(?g1, [Released, Quiescing sample_uuid 1, Returned None])"
  let ?c2 = "(?g1, [Released, Returned None, Returned None])"
  let ?c3 = "(?g1, [Released, Returned None, Returned (Some (Errorf [] [ErrMutationQuiesced]))])"
  have ne: "sample_uuid \<noteq> []" by (simp add: sample_uuid_def)
  have s1: "system_step thread_step 0 Proceed (sample_gate\<lparr>g_tokens := 1, g_quiesceID := sample_uuid, g_stateChanged := 1, g_inflight := 1\<rparr>,
     [Holding None, Quiescing sample_uuid 1, Returned None]) = Some ?c1"
    by (simp add: system_step_def thread_step_def release_def notifyStateChangedLocked_def sample_gate_def)
  have s2: "system_step thread_step 1 Proceed ?c1 = Some ?c2"
    by (simp add: system_step_def thread_step_def wait_drained_def sample_gate_def)
  have s3: "system_step thread_step 2 (CallAcquire None) ?c2 = Some ?c3" using ne
    by (simp add: system_step_def thread_step_def acquire_enter_def refuses_def quiescedAdmissionAllowed_def)
  have run: "run thread_step (sample_schedule @ [(0, Proceed), (1, Proceed), (2, CallAcquire None)]) sample_threads = Some ?c3"
    unfolding run_append sample_waiting using s1 s2 s3 by simp
  have "g_quiesceID ?g1 = sample_uuid \<and> list_all (admitted_under sample_uuid) (snd ?c3)"
    unfolding snd_conv
    by (rule quiesce_barrier [OF sample_gate_new reach.step [OF sample_waiting_reach s1], of sample_uuid Proceed 1 ?g1
          "[Released, Returned None, Returned None]" "[(2, CallAcquire None)]"])
      (use s2 s3 sample_uuid_ok in \<open>simp_all add: ValidateOperationID_def\<close>)
  then show ?thesis using run by auto
qed

text \<open>
  A success of \<^verbatim>\<open>BeginQuiesce\<close> alone does not say that its barrier is in place: when the same request
  is resumed while the call still waits, the wait ends with success and the gate is open. (The wait
  tests the counter of holders only.) Callers therefore must not resume a request before its
  \<^verbatim>\<open>BeginQuiesce\<close> has returned, which is the condition in the barrier theorem.
\<close>

theorem quiesce_resume_race:
  "\<exists>gate' pcs'. run thread_step (sample_schedule @ [(0, Proceed), (2, CallResume sample_uuid), (1, Proceed)]) sample_threads = Some (gate', pcs')
     \<and> pcs' ! 1 = Returned None \<and> g_quiesceID gate' = []"
  unfolding run_append sample_waiting using sample_uuid_ok
  by (simp add: sample_gate_def system_step_def thread_step_def gate_defs ValidateOperationID_def sample_uuid_def)

end
