(* ===== verification/LeaseRuntime.thy ===== *)
theory LeaseRuntime
  imports LeaseProtocol Effects MutationGate
begin

text \<open>
  \<^verbatim>\<open>pkg/coordination/runtime.go\<close>: acquisition, approved takeover, promotion of a fresh installation and
  graceful release of controller leadership, and the journal updates of a running session. The Lease
  store, the provider fence and the clock are a boundary of actions; \<open>lb_Context\<close> is the check of the caller's
  context, with the wait for the acquisition gate; \<open>lb_Cancel\<close> cancels the leadership context, which every
  mutation of the process observes; \<open>lb_JoinRun\<close> waits for the renewal
  loop of a stopped session and returns the error it ended with, \<open>lb_Alive\<close> looks at the context of the
  caller and at the leadership context, which that loop may have cancelled. The acquisition gate and the update
  gate of the code serialise the operations of one process, so each is one action on the state of
  its runtime or session; other processes act inside the calls of the boundary.
\<close>

section \<open>Boundary and state\<close>

definition ErrLeaseLost :: sentinel where "ErrLeaseLost = OtherSentinel ''controller leadership Lease was lost''"
definition ErrLeadershipNotActive :: sentinel where "ErrLeadershipNotActive = OtherSentinel ''controller mutation leadership is not active''"

record 'w LeaseBoundary =
  lb_Context :: "('w, unit) act"
  lb_Load :: "('w, LeaseSnapshot) act"
  lb_Update :: "LeaseSnapshot \<Rightarrow> LeaseSnapshot \<Rightarrow> civil_time \<Rightarrow> int \<Rightarrow> ('w, LeaseSnapshot) act"
  lb_Now :: "'w \<Rightarrow> civil_time \<times> 'w"
  lb_Cancel :: "'w \<Rightarrow> 'w"
  lb_JoinRun :: "('w, error option) act"
  lb_Alive :: "('w, unit) act"
  lb_VerifyAbnormalTakeover :: "OperatorApproval \<Rightarrow> HolderEvidence \<Rightarrow> ('w, unit) act"
  lb_VerifyMissingLeaseRecovery :: "OperatorApproval \<Rightarrow> ('w, unit) act"
  lb_VerifyFreshInstallation :: "('w, unit) act"

record LeaseTiming =
  lt_LeaseDuration :: int
  lt_RenewDeadline :: int
  lt_RetryPeriod :: int

definition DefaultLeaseTiming :: LeaseTiming where
  "DefaultLeaseTiming = \<lparr>lt_LeaseDuration = 30 * 1000000000, lt_RenewDeadline = 20 * 1000000000, lt_RetryPeriod = 5 * 1000000000\<rparr>"

definition LeaseTiming_Validate :: "LeaseTiming \<Rightarrow> error option" where
  "LeaseTiming_Validate timing =
     ensure (\<not> (lt_RetryPeriod timing \<le> 0 \<or> lt_RenewDeadline timing \<le> 0 \<or> lt_LeaseDuration timing \<le> 0
         \<or> lt_RetryPeriod timing \<ge> lt_RenewDeadline timing \<or> lt_RenewDeadline timing \<ge> lt_LeaseDuration timing))
       ''lease timing must satisfy 0 < retryPeriod < renewDeadline < leaseDuration''"

record LeadershipSession =
  se_mutationAllowed :: bool
  se_snapshot :: LeaseSnapshot
  se_lastSuccess :: civil_time
  se_runStarted :: bool
  se_cancelled :: bool
  se_done :: bool
  se_runErr :: "error option"

record LeaseRuntime =
  rt_holder :: HolderEvidence
  rt_timing :: LeaseTiming
  rt_session :: "LeadershipSession option"
  rt_released :: bool
  rt_releaseRequest :: string
  rt_releaseSnapshot :: LeaseSnapshot

record AcquisitionResult =
  ar_Mode :: AcquisitionMode
  ar_MutationAllowed :: bool
  ar_Session :: LeadershipSession

definition NewLeaseRuntime :: "HolderEvidence \<Rightarrow> LeaseTiming \<Rightarrow> LeaseRuntime res" where
  "NewLeaseRuntime holder timing =
     require (errs [HolderEvidence_Validate holder, LeaseTiming_Validate timing])
       (Inr \<lparr>rt_holder = holder, rt_timing = timing, rt_session = None, rt_released = False, rt_releaseRequest = [],
          rt_releaseSnapshot = \<lparr>ls_UID = [], ls_ResourceVersion = [], ls_HolderIdentity = [], ls_Annotations = None\<rparr>\<rparr>)"

definition newLeadershipSession :: "LeaseSnapshot \<Rightarrow> bool \<Rightarrow> civil_time \<Rightarrow> LeadershipSession" where
  "newLeadershipSession snapshot mutationAllowed acquiredAt = \<lparr>se_mutationAllowed = mutationAllowed, se_snapshot = snapshot,
     se_lastSuccess = acquiredAt, se_runStarted = False, se_cancelled = False, se_done = False, se_runErr = None\<rparr>"

definition clock_now :: "'w LeaseBoundary \<Rightarrow> ('w, civil_time) act" where
  "clock_now b = (\<lambda>w. case lb_Now b w of (t, w') \<Rightarrow> (Inr t, w'))"

definition cancel_leadership :: "'w LeaseBoundary \<Rightarrow> ('w, unit) act" where
  "cancel_leadership b = (\<lambda>w. (Inr (), lb_Cancel b w))"

definition requireDrainedSession :: "LeaseRuntime \<Rightarrow> error option" where
  "requireDrainedSession runtime =
     (if rt_released runtime then Some (errorf ''leadership runtime was gracefully released'')
      else case rt_session runtime of
          None \<Rightarrow> None
        | Some session \<Rightarrow>
            if se_done session then wrap_err ''previous leadership session ended unsafely'' (se_runErr session)
            else Some (errorf ''previous leadership session must be stopped and drained''))"

text \<open>
  An operation of the runtime acts on the boundary's world and on the state of the runtime, which it
  may have changed when it returns an error.
\<close>

definition outer :: "('w, 'a) act \<Rightarrow> ('w \<times> 's, 'a) act" where
  "outer m = (\<lambda>(w, s). case m w of (r, w') \<Rightarrow> (r, (w', s)))"

definition state :: "('w \<times> 's, 's) act" where
  "state = (\<lambda>(w, s). (Inr s, (w, s)))"

definition modify :: "('s \<Rightarrow> 's) \<Rightarrow> ('w \<times> 's, unit) act" where
  "modify f = (\<lambda>(w, s). (Inr (), (w, f s)))"

definition on_session :: "(LeadershipSession \<Rightarrow> LeadershipSession) \<Rightarrow> LeaseRuntime \<Rightarrow> LeaseRuntime" where
  "on_session f runtime = runtime\<lparr>rt_session := map_option f (rt_session runtime)\<rparr>"

definition cancel_session :: "LeadershipSession \<Rightarrow> LeadershipSession" where
  "cancel_session session = session\<lparr>se_cancelled := True\<rparr>"

text \<open>\<^verbatim>\<open>finish\<close> runs once.\<close>

definition finish_session :: "error option \<Rightarrow> LeadershipSession \<Rightarrow> LeadershipSession" where
  "finish_session err session = (if se_done session then session else session\<lparr>se_done := True, se_runErr := err\<rparr>)"

text \<open>\<^verbatim>\<open>LeadershipSession.Stop\<close>: a session that never ran ends at once, a running one after its loop.\<close>

definition Stop :: "'w LeaseBoundary \<Rightarrow> LeadershipSession \<Rightarrow> ('w \<times> LeaseRuntime, unit) act" where
  "Stop b session =
     andthen (outer (lb_Context b)) (\<lambda>_.
      if \<not> se_runStarted session
      then
        andthen (outer (cancel_leadership b)) (\<lambda>_.
        modify (on_session (\<lambda>current. finish_session None (cancel_session (current\<lparr>se_runStarted := True\<rparr>)))))
      else
        andthen (outer (cancel_leadership b)) (\<lambda>_.
        andthen (modify (on_session cancel_session)) (\<lambda>_.
        if se_done session then guard (se_runErr session) (ret ())
        else
        andthen (outer (lb_JoinRun b)) (\<lambda>runErr.
        andthen (modify (on_session (finish_session runErr))) (\<lambda>_.
        guard runErr (ret ()))))))"

section \<open>The outcome of one compare-and-swap\<close>

definition validateStoredHolder :: "LeaseSnapshot \<Rightarrow> LeaseSnapshot \<Rightarrow> LeaseSnapshot \<Rightarrow> HolderEvidence \<Rightarrow> error option" where
  "validateStoredHolder previous expected stored holder = errs
     [validateLeaseSnapshot stored,
      ensure (\<not> (ls_UID stored \<noteq> ls_UID previous \<or> ls_ResourceVersion stored = ls_ResourceVersion previous))
        ''lease update did not preserve UID and advance resourceVersion'',
      ensure (\<not> (ls_HolderIdentity stored \<noteq> he_PodUID holder \<or> ls_HolderIdentity stored \<noteq> ls_HolderIdentity expected))
        ''lease update returned another holder'',
      ensure (annots stored = annots expected) ''lease update changed expected annotations'',
      and_check (ParseHolderEvidence (annots stored)) (\<lambda>evidence.
        ensure (evidence = Some holder) ''lease update returned missing or changed holder evidence'')]"

datatype reread = Reread_failed error | Unchanged LeaseSnapshot | Diverged error | Committed LeaseSnapshot

definition rereadHolderUpdate ::
  "'w LeaseBoundary \<Rightarrow> LeaseSnapshot \<Rightarrow> LeaseSnapshot \<Rightarrow> HolderEvidence \<Rightarrow> ('w, reread) act" where
  "rereadHolderUpdate b previous expected holder =
     andthen (attempt (lb_Load b)) (\<lambda>loaded. case loaded of
         Inl err \<Rightarrow> ret (Reread_failed err)
       | Inr observed \<Rightarrow>
           if ls_UID observed = ls_UID previous \<and> ls_ResourceVersion observed = ls_ResourceVersion previous then ret (Unchanged observed)
           else case validateStoredHolder previous expected observed holder of
               Some err \<Rightarrow> ret (Diverged err)
             | None \<Rightarrow> ret (Committed observed))"

text \<open>The update shared by \<^verbatim>\<open>Acquire\<close>, \<^verbatim>\<open>AcquireApproved\<close> and \<^verbatim>\<open>PromoteFreshInstallation\<close>.\<close>

definition install ::
  "'w LeaseBoundary \<Rightarrow> HolderEvidence \<Rightarrow> int \<Rightarrow> LeaseSnapshot \<Rightarrow> LeaseSnapshot \<Rightarrow> civil_time \<Rightarrow> ('w, LeaseSnapshot) act" where
  "install b holder duration current nxt now =
     andthen (attempt (lb_Update b current nxt now duration)) (\<lambda>updated.
     andthen (case updated of
         Inr stored \<Rightarrow> ret stored
       | Inl updateErr \<Rightarrow>
           if errors_is updateErr ErrLeaseLost then fail updateErr
           else andthen (rereadHolderUpdate b current nxt holder) (\<lambda>outcome. case outcome of
               Reread_failed readErr \<Rightarrow> fail (join_errors updateErr readErr)
             | Diverged readErr \<Rightarrow> fail (join_errors updateErr readErr)
             | Unchanged observed \<Rightarrow> fail updateErr
             | Committed observed \<Rightarrow> ret observed)) (\<lambda>stored.
     guard (validateStoredHolder current nxt stored holder) (ret stored)))"

section \<open>Automatic acquisition\<close>

definition mark_provisional :: "HolderEvidence \<Rightarrow> civil_time \<Rightarrow> AcquisitionPlan \<Rightarrow> annotations res" where
  "mark_provisional holder acquiredAt plan =
     (if ap_Mode plan \<noteq> AcquisitionProvisionalRecovery then Inr (ap_Annotations plan)
      else and_then (ParseDiscoveryMarker (ap_Annotations plan) holder) (\<lambda>present.
        if present \<noteq> None then Inr (ap_Annotations plan)
        else and_then (NewDiscoveryMarker holder acquiredAt) (\<lambda>marker.
          ApplyDiscoveryMarker (ap_Annotations plan) marker holder)))"

definition with_holder :: "LeaseSnapshot \<Rightarrow> string \<Rightarrow> annotations \<Rightarrow> LeaseSnapshot" where
  "with_holder current holderIdentity annotations = \<lparr>ls_UID = ls_UID current, ls_ResourceVersion = ls_ResourceVersion current,
     ls_HolderIdentity = holderIdentity, ls_Annotations = Some annotations\<rparr>"

definition started_session ::
  "AcquisitionMode \<Rightarrow> LeaseSnapshot \<Rightarrow> bool \<Rightarrow> civil_time \<Rightarrow> ('w \<times> LeaseRuntime, AcquisitionResult) act" where
  "started_session mode stored mutationAllowed now =
     (let session = newLeadershipSession stored mutationAllowed now
      in andthen (modify (\<lambda>runtime. runtime\<lparr>rt_session := Some session\<rparr>)) (\<lambda>_.
        ret \<lparr>ar_Mode = mode, ar_MutationAllowed = mutationAllowed, ar_Session = session\<rparr>))"

text \<open>A provisional result is the one the code returns with \<^verbatim>\<open>ErrMissingLeaseRecoveryRequired\<close>.\<close>

definition Acquire :: "'w LeaseBoundary \<Rightarrow> bool \<Rightarrow> ('w \<times> LeaseRuntime, AcquisitionResult) act" where
  "Acquire b durableStateExists =
     andthen (outer (lb_Context b)) (\<lambda>_.
     andthen state (\<lambda>runtime.
     guard (requireDrainedSession runtime)
     (andthen (outer (lb_Load b)) (\<lambda>current.
      andthen (lift (PlanAutomaticAcquisition current (rt_holder runtime) durableStateExists)) (\<lambda>plan.
      andthen (outer (clock_now b)) (\<lambda>acquiredAt.
      andthen (lift (mark_provisional (rt_holder runtime) acquiredAt plan)) (\<lambda>annotations.
      andthen (outer (install b (rt_holder runtime) (lt_LeaseDuration (rt_timing runtime)) current
          (with_holder current (ap_HolderIdentity plan) annotations) acquiredAt)) (\<lambda>stored.
      (started_session (ap_Mode plan) stored (ap_MutationAllowed plan) acquiredAt)))))))))"

section \<open>Approved acquisition\<close>

definition approve_takeover ::
  "'w LeaseBoundary \<Rightarrow> HolderEvidence \<Rightarrow> OperatorApproval \<Rightarrow> LeaseSnapshot \<Rightarrow> civil_time \<Rightarrow> civil_time \<Rightarrow> ('w, AcquisitionMode) act" where
  "approve_takeover b holder approval current now conditionObservedAt =
     andthen (lift (ParseHolderEvidence (annots current))) (\<lambda>previous. case previous of
         None \<Rightarrow> fail (errorf ''abnormal takeover requires a different non-empty exact previous holder'')
       | Some evidence \<Rightarrow>
           guard (ensure (\<not> (ls_HolderIdentity current = [] \<or> ls_HolderIdentity current \<noteq> he_PodUID evidence
               \<or> ls_HolderIdentity current = he_PodUID holder)) ''abnormal takeover requires a different non-empty exact previous holder'')
           (andthen (lift (ParseFreshBootstrapPlan (annots current))) (\<lambda>freshPlan.
            guard (case freshPlan of None \<Rightarrow> None
                | Some plan \<Rightarrow> errs [ValidateForHolder plan evidence, Some (errorf ''abnormal takeover cannot transfer an active fresh bootstrap plan'')])
            (andthen (lift (ParseDiscoveryMarker (annots current) evidence)) (\<lambda>provisional.
             guard (errs [ensure (provisional = None) ''abnormal takeover cannot promote a provisional discovery holder'',
               ValidateAt approval now conditionObservedAt,
               ValidateAbnormalHolder approval evidence])
             (andthen (wrapped ''verify abnormal takeover fence'' (lb_VerifyAbnormalTakeover b approval evidence)) (\<lambda>_.
              ret AcquisitionApprovedTakeover)))))))"

definition approve_recovery ::
  "'w LeaseBoundary \<Rightarrow> HolderEvidence \<Rightarrow> OperatorApproval \<Rightarrow> LeaseSnapshot \<Rightarrow> civil_time \<Rightarrow> civil_time \<Rightarrow> string \<Rightarrow> string \<Rightarrow> ('w, AcquisitionMode) act" where
  "approve_recovery b holder approval current now conditionObservedAt checkpointRequestID checkpointManifestSHA256 =
     guard (ValidateCheckpoint approval checkpointRequestID checkpointManifestSHA256)
     (andthen (lift (ParseHolderEvidence (annots current))) (\<lambda>currentHolder.
      guard (ensure (\<not> (ls_HolderIdentity current \<noteq> he_PodUID holder \<or> currentHolder \<noteq> Some holder))
          ''missing-Lease approval requires this exact provisional holder'')
      (andthen (lift (ParseDiscoveryMarker (annots current) holder)) (\<lambda>marker. case marker of
          None \<Rightarrow> fail (errorf ''missing-Lease approval requires a durable provisional discovery marker'')
        | Some discovery \<Rightarrow>
            andthen (lift (ObservationTime discovery)) (\<lambda>observedAt.
            guard (errs [ensure (unix_nanos conditionObservedAt = unix_nanos observedAt) ''missing-Lease condition instant differs from durable discovery marker'',
              ValidateAt approval now observedAt])
            (andthen (lift (ParseBootstrapAttempt (annots current))) (\<lambda>bootstrap.
             guard (ensure (bootstrap = None) ''missing-Lease approval cannot promote an active bootstrap attempt'')
             (andthen (lift (ParseFreshBootstrapPlan (annots current))) (\<lambda>freshBootstrap.
              guard (ensure (freshBootstrap = None) ''missing-Lease approval cannot promote an active fresh bootstrap plan'')
              (andthen (wrapped ''verify missing-Lease recovery fence'' (lb_VerifyMissingLeaseRecovery b approval)) (\<lambda>_.
               ret AcquisitionApprovedRecovery)))))))))))"

definition approved_annotations :: "HolderEvidence \<Rightarrow> OperatorApproval \<Rightarrow> annotations \<Rightarrow> civil_time \<Rightarrow> annotations res" where
  "approved_annotations holder approval current now =
     and_then (NewApprovalConsumption approval (he_PodUID holder) now) (\<lambda>consumption.
     and_then (applyHolderEvidence current holder False) (\<lambda>annotations.
     ApplyApprovalConsumption
       (if oa_Mode approval = ApprovalMissingLeaseRecovery then ClearDiscoveryMarker annotations else annotations) consumption))"

definition AcquireApproved ::
  "'w LeaseBoundary \<Rightarrow> OperatorApproval \<Rightarrow> civil_time \<Rightarrow> string \<Rightarrow> string \<Rightarrow> ('w \<times> LeaseRuntime, AcquisitionResult) act" where
  "AcquireApproved b approval conditionObservedAt checkpointRequestID checkpointManifestSHA256 =
     andthen (outer (lb_Context b)) (\<lambda>_.
     andthen state (\<lambda>runtime.
     guard (requireDrainedSession runtime)
     (andthen (outer (clock_now b)) (\<lambda>now.
      guard (ensure (\<not> (oa_InstallationID approval \<noteq> he_InstallationID (rt_holder runtime)
          \<or> oa_ActiveClusterUID approval \<noteq> he_ActiveClusterUID (rt_holder runtime))) ''approval belongs to another installation or cluster'')
      (andthen (outer (lb_Load b)) (\<lambda>current.
       guard (validateLeaseSnapshot current)
       (andthen (lift (ParseApprovalConsumption (annots current))) (\<lambda>existing.
        guard (case existing of None \<Rightarrow> None
            | Some old \<Rightarrow> ensure (\<not> (ac_SecretUID old = oa_SecretUID approval \<or> ac_RequestID old = oa_RequestID approval))
                ''approval Secret UID or request ID is already consumed'')
        (andthen (lift (ParseGracefulRelease (annots current))) (\<lambda>release.
         guard (ensure (release = None) ''approval acquisition cannot consume a graceful-release marker'')
         (andthen (case oa_Mode approval of
             ApprovalAbnormalTakeover \<Rightarrow> outer (approve_takeover b (rt_holder runtime) approval current now conditionObservedAt)
           | ApprovalMissingLeaseRecovery \<Rightarrow>
               outer (approve_recovery b (rt_holder runtime) approval current now conditionObservedAt checkpointRequestID checkpointManifestSHA256)
           | OtherApproval s \<Rightarrow> fail (errorf ''approval mode is unsupported'')) (\<lambda>mode.
          andthen (lift (approved_annotations (rt_holder runtime) approval (annots current) now)) (\<lambda>annotations.
          andthen (outer (install b (rt_holder runtime) (lt_LeaseDuration (rt_timing runtime)) current
              (with_holder current (he_PodUID (rt_holder runtime)) annotations) now)) (\<lambda>stored.
          (started_session mode stored True now)))))))))))))))"

section \<open>Promotion of a fresh installation\<close>

definition PromoteFreshInstallation :: "'w LeaseBoundary \<Rightarrow> ('w \<times> LeaseRuntime, AcquisitionResult) act" where
  "PromoteFreshInstallation b =
     andthen (outer (lb_Context b)) (\<lambda>_.
     andthen state (\<lambda>runtime.
      case rt_session runtime of
        None \<Rightarrow> fail (errorf ''fresh promotion requires the current provisional session'')
      | Some session \<Rightarrow>
          guard (ensure (\<not> se_mutationAllowed session) ''fresh promotion requires the current provisional session'')
          (andthen (lift (ParseDiscoveryMarker (annots (se_snapshot session)) (rt_holder runtime))) (\<lambda>present.
           guard (ensure (present \<noteq> None) ''fresh promotion requires a provisional discovery marker'')
           (andthen (wrapped ''verify fresh installation'' (outer (lb_VerifyFreshInstallation b))) (\<lambda>_.
            andthen (wrapped ''stop provisional renewal before fresh promotion'' (Stop b session)) (\<lambda>_.
            andthen state (\<lambda>drained.
            guard (requireDrainedSession drained)
            (andthen (outer (lb_Load b)) (\<lambda>current.
             guard (validateLeaseSnapshot current)
             (andthen (lift (ParseHolderEvidence (annots current))) (\<lambda>holder.
              guard (ensure (\<not> (holder \<noteq> Some (rt_holder runtime) \<or> ls_HolderIdentity current \<noteq> he_PodUID (rt_holder runtime)))
                  ''fresh promotion requires the exact provisional holder'')
              (andthen (lift (ParseDiscoveryMarker (annots current) (rt_holder runtime))) (\<lambda>marker.
               guard (ensure (marker \<noteq> None) ''fresh promotion requires a provisional discovery marker'')
               (andthen (lift (ParseBootstrapAttempt (annots current))) (\<lambda>bootstrap.
                guard (ensure (bootstrap = None) ''fresh promotion is forbidden during parent bootstrap'')
                (andthen (lift (ParseFreshBootstrapPlan (annots current))) (\<lambda>freshPlan.
                 guard (case freshPlan of None \<Rightarrow> Some (errorf ''fresh promotion requires a durable fresh bootstrap plan'')
                     | Some plan \<Rightarrow> ValidateForHolder plan (rt_holder runtime))
                 (andthen (outer (clock_now b)) (\<lambda>promotedAt.
                  andthen (outer (install b (rt_holder runtime) (lt_LeaseDuration (rt_timing runtime)) current
                      (current\<lparr>ls_Annotations := Some (ClearDiscoveryMarker (annots current))\<rparr>) promotedAt)) (\<lambda>stored.
                  (started_session AcquisitionFreshInstallation stored True promotedAt))))))))))))))))))))))"

section \<open>Graceful release\<close>

definition validateReleasedSnapshot :: "LeaseSnapshot \<Rightarrow> HolderEvidence \<Rightarrow> string \<Rightarrow> error option" where
  "validateReleasedSnapshot snapshot holder requestID = errs
     [validateLeaseSnapshot snapshot,
      ensure (ls_HolderIdentity snapshot = []) ''graceful Lease release retained a holder'',
      and_check (ParseHolderEvidence (annots snapshot)) (\<lambda>preserved.
        ensure (preserved = Some holder) ''graceful Lease release changed previous-holder evidence''),
      and_check (ParseGracefulRelease (annots snapshot)) (\<lambda>release. case release of
          None \<Rightarrow> Some (errorf ''graceful Lease release marker does not match request'')
        | Some marker \<Rightarrow> errs [ensure (gr_RequestID marker = requestID) ''graceful Lease release marker does not match request'',
            ValidateHandoff marker (ls_UID snapshot) (he_InstallationID holder) (he_ActiveClusterUID holder) holder]),
      and_check (ParseBootstrapAttempt (annots snapshot)) (\<lambda>bootstrap.
        ensure (bootstrap = None) ''graceful Lease release retained a bootstrap attempt''),
      and_check (ParseFreshBootstrapPlan (annots snapshot)) (\<lambda>freshBootstrap.
        ensure (freshBootstrap = None) ''graceful Lease release retained a fresh bootstrap plan''),
      and_check (ParseDiscoveryMarker (annots snapshot) holder) (\<lambda>provisional.
        ensure (provisional = None) ''graceful Lease release retained a provisional discovery marker'')]"

definition validateReleasedUpdate :: "LeaseSnapshot \<Rightarrow> LeaseSnapshot \<Rightarrow> LeaseSnapshot \<Rightarrow> HolderEvidence \<Rightarrow> string \<Rightarrow> error option" where
  "validateReleasedUpdate previous expected stored holder requestID = errs
     [ensure (\<not> (ls_UID stored \<noteq> ls_UID previous \<or> ls_ResourceVersion stored = ls_ResourceVersion previous))
        ''graceful Lease update did not preserve UID and advance resourceVersion'',
      ensure (\<not> (ls_HolderIdentity stored \<noteq> ls_HolderIdentity expected \<or> annots stored \<noteq> annots expected))
        ''graceful Lease update changed expected holder or annotations'',
      validateReleasedSnapshot stored holder requestID]"

definition recordRelease :: "string \<Rightarrow> LeaseSnapshot \<Rightarrow> ('w \<times> LeaseRuntime, LeaseSnapshot) act" where
  "recordRelease requestID snapshot =
     andthen (modify (\<lambda>runtime. runtime\<lparr>rt_released := True, rt_releaseRequest := requestID, rt_releaseSnapshot := snapshot\<rparr>)) (\<lambda>_.
       ret snapshot)"

text \<open>The mutation gate is read twice, before the session is stopped and when the release is planned.\<close>

definition ReleaseGracefully :: "'w LeaseBoundary \<Rightarrow> string \<Rightarrow> Gate \<Rightarrow> Gate \<Rightarrow> bool \<Rightarrow> ('w \<times> LeaseRuntime, LeaseSnapshot) act" where
  "ReleaseGracefully b requestID gate later checkpointActive =
     guard (ValidateOperationID requestID)
     (andthen (outer (lb_Context b)) (\<lambda>_.
      andthen state (\<lambda>runtime.
      if rt_released runtime
      then guard (ensure (rt_releaseRequest runtime = requestID) ''leadership was already gracefully released by another request'')
        (ret (rt_releaseSnapshot runtime))
      else case rt_session runtime of
          None \<Rightarrow> fail (Errorf [] [ErrLeadershipNotActive])
        | Some session \<Rightarrow>
            guard (errs [ensure_is (se_mutationAllowed session) ErrLeadershipNotActive [],
              ensure_is (\<not> (g_quiesceID gate \<noteq> requestID \<or> g_inflight gate \<noteq> 0)) ErrGracefulReleaseUnsafe ''graceful release requires the exact drained mutation barrier'',
              ensure_is (\<not> checkpointActive) ErrGracefulReleaseUnsafe ''graceful release is forbidden during checkpoint''])
            (andthen (wrapped ''stop leadership renewal before graceful release'' (Stop b session)) (\<lambda>_.
             andthen (wrapped ''reload Lease before graceful release'' (outer (lb_Load b))) (\<lambda>current.
             guard (ensure_is (ls_UID current = ls_UID (se_snapshot session)) ErrLeaseLost ''leadership Lease UID changed before graceful release'')
             (if ls_HolderIdentity current = []
              then guard (validateReleasedSnapshot current (rt_holder runtime) requestID) (recordRelease requestID current)
              else
                andthen (outer (clock_now b)) (\<lambda>releasedAt.
                andthen (lift (PlanGracefulRelease current (rt_holder runtime) requestID releasedAt (g_inflight later) checkpointActive)) (\<lambda>nxt.
                andthen (attempt (outer (lb_Update b current nxt releasedAt (lt_LeaseDuration (rt_timing runtime))))) (\<lambda>updated.
                andthen (case updated of
                    Inr stored \<Rightarrow> ret stored
                  | Inl updateErr \<Rightarrow>
                      andthen (attempt (outer (lb_Load b))) (\<lambda>loaded. case loaded of
                          Inl loadErr \<Rightarrow> fail (join_errors updateErr loadErr)
                        | Inr observed \<Rightarrow>
                            (case validateReleasedSnapshot observed (rt_holder runtime) requestID of
                               Some err \<Rightarrow> fail (join_errors updateErr err)
                             | None \<Rightarrow> ret observed))) (\<lambda>stored.
                guard (validateReleasedUpdate current nxt stored (rt_holder runtime) requestID)
                  (recordRelease requestID stored))))))))))))"

section \<open>Journal updates of a session\<close>

definition requireActiveSession :: "'w LeaseBoundary \<Rightarrow> ('w \<times> LeadershipSession, unit) act" where
  "requireActiveSession b =
     andthen state (\<lambda>session.
     guard (ensure_is (se_runStarted session) ErrLeadershipNotActive [])
     (andthen (outer (lb_Alive b)) (\<lambda>_.
      guard (ensure_is (\<not> se_cancelled session) ErrLeadershipNotActive []) (ret ()))))"

definition RequireActiveLeadership :: "'w LeaseBoundary \<Rightarrow> ('w \<times> LeadershipSession, unit) act" where
  "RequireActiveLeadership b =
     andthen state (\<lambda>session.
     guard (ensure_is (se_mutationAllowed session) ErrLeadershipNotActive []) (requireActiveSession b))"

text \<open>\<^verbatim>\<open>reportLeaseLoss\<close> cancels the leadership context at once.\<close>

definition reportLeaseLoss :: "'w LeaseBoundary \<Rightarrow> error \<Rightarrow> ('w \<times> LeadershipSession, 'a) act" where
  "reportLeaseLoss b err = andthen (outer (cancel_leadership b)) (\<lambda>_. andthen (modify cancel_session) (\<lambda>_. fail err))"

definition applyLeaseUpdate ::
  "'w LeaseBoundary \<Rightarrow> HolderEvidence \<Rightarrow> int \<Rightarrow> LeaseSnapshot \<Rightarrow> LeaseSnapshot \<Rightarrow> civil_time \<Rightarrow> ('w \<times> LeadershipSession, LeaseSnapshot) act" where
  "applyLeaseUpdate b holder duration current nxt renewedAt =
     andthen (attempt (outer (lb_Update b current nxt renewedAt duration))) (\<lambda>updated.
     andthen (case updated of
         Inr stored \<Rightarrow> ret stored
       | Inl updateErr \<Rightarrow>
           if errors_is updateErr ErrLeaseLost then reportLeaseLoss b updateErr
           else andthen (outer (rereadHolderUpdate b current nxt holder)) (\<lambda>outcome. case outcome of
               Reread_failed readErr \<Rightarrow> fail (join_errors updateErr readErr)
             | Diverged readErr \<Rightarrow> reportLeaseLoss b (join_errors (Errorf [] [ErrLeaseLost]) (join_errors updateErr readErr))
             | Unchanged observed \<Rightarrow> fail updateErr
             | Committed observed \<Rightarrow> ret observed)) (\<lambda>stored.
     case validateStoredHolder current nxt stored holder of
       Some err \<Rightarrow> reportLeaseLoss b (join_errors (Errorf [] [ErrLeaseLost]) err)
     | None \<Rightarrow> ret stored))"

definition recordLeaseUpdate :: "LeaseSnapshot \<Rightarrow> civil_time \<Rightarrow> LeadershipSession \<Rightarrow> LeadershipSession" where
  "recordLeaseUpdate stored renewedAt session = session\<lparr>se_snapshot := stored,
     se_lastSuccess := (if unix_nanos renewedAt > unix_nanos (se_lastSuccess session) then renewedAt else se_lastSuccess session)\<rparr>"

definition commitLeaseUpdate ::
  "'w LeaseBoundary \<Rightarrow> HolderEvidence \<Rightarrow> int \<Rightarrow> LeaseSnapshot \<Rightarrow> annotations \<Rightarrow> ('w \<times> LeadershipSession, unit) act" where
  "commitLeaseUpdate b holder duration current annotations =
     andthen (outer (clock_now b)) (\<lambda>renewedAt.
     andthen (applyLeaseUpdate b holder duration current (current\<lparr>ls_Annotations := Some annotations\<rparr>) renewedAt) (\<lambda>stored.
     modify (recordLeaseUpdate stored renewedAt)))"

text \<open>One attempt of \<^verbatim>\<open>renewLoop\<close>: the same snapshot with a new renewal instant.\<close>

definition renew :: "'w LeaseBoundary \<Rightarrow> HolderEvidence \<Rightarrow> int \<Rightarrow> ('w \<times> LeadershipSession, unit) act" where
  "renew b holder duration =
     andthen state (\<lambda>session.
     andthen (outer (lb_Alive b)) (\<lambda>_.
     guard (ensure_is (\<not> se_cancelled session) ErrLeadershipNotActive [])
     (andthen (outer (clock_now b)) (\<lambda>renewedAt.
      andthen (applyLeaseUpdate b holder duration (se_snapshot session) (se_snapshot session) renewedAt) (\<lambda>stored.
      modify (recordLeaseUpdate stored renewedAt))))))"

definition SetBootstrapAttempt :: "'w LeaseBoundary \<Rightarrow> HolderEvidence \<Rightarrow> int \<Rightarrow> BootstrapAttempt \<Rightarrow> ('w \<times> LeadershipSession, unit) act" where
  "SetBootstrapAttempt b holder duration bootstrap =
     guard (errs [BootstrapAttempt_Validate bootstrap,
       ensure (\<not> (ba_InstallationID bootstrap \<noteq> he_InstallationID holder \<or> ba_ActiveClusterUID bootstrap \<noteq> he_ActiveClusterUID holder
           \<or> ba_ControllerNodeID bootstrap \<noteq> he_CSINodeID holder \<or> ba_ControllerInstanceID bootstrap \<noteq> he_InstanceID holder
           \<or> ba_ControllerZone bootstrap \<noteq> he_Zone holder)) ''bootstrap attempt does not match the active leadership runtime identity''])
     (andthen (lift (BootstrapAttempt_Annotations bootstrap)) (\<lambda>annotations.
      andthen (RequireActiveLeadership b) (\<lambda>_.
      andthen state (\<lambda>session.
      let current = se_snapshot session
      in andthen (lift (ParseBootstrapAttempt (annots current))) (\<lambda>existing.
         guard (ensure (existing = None \<or> existing = Some bootstrap) ''another bootstrap attempt is already active'')
         (andthen (lift (ParseFreshBootstrapPlan (annots current))) (\<lambda>fresh.
          guard (ensure (\<not> (fresh \<noteq> None \<and> existing = None)) ''a fresh bootstrap plan must be converted atomically before setting a parent attempt'')
          (andthen (commitLeaseUpdate b holder duration current (put annotations (annots current))) (\<lambda>_.
           RequireActiveLeadership b)))))))))"

definition ClearBootstrapAttempt :: "'w LeaseBoundary \<Rightarrow> HolderEvidence \<Rightarrow> int \<Rightarrow> string \<Rightarrow> ('w \<times> LeadershipSession, unit) act" where
  "ClearBootstrapAttempt b holder duration attemptID =
     guard (wrap_err ''bootstrap attempt ID'' (ValidateOperationID attemptID))
     (andthen (RequireActiveLeadership b) (\<lambda>_.
      andthen state (\<lambda>session.
      let current = se_snapshot session
      in andthen (lift (ParseBootstrapAttempt (annots current))) (\<lambda>existing. case existing of
           None \<Rightarrow> ret ()
         | Some active \<Rightarrow>
             guard (ensure (ba_AttemptID active = attemptID) ''bootstrap attempt cannot clear another active attempt'')
             (andthen (commitLeaseUpdate b holder duration current (ClearBootstrapAnnotations (annots current))) (\<lambda>_.
              RequireActiveLeadership b))))))"

definition SetFreshBootstrapPlan :: "'w LeaseBoundary \<Rightarrow> HolderEvidence \<Rightarrow> int \<Rightarrow> FreshBootstrapPlan \<Rightarrow> ('w \<times> LeadershipSession, unit) act" where
  "SetFreshBootstrapPlan b holder duration plan =
     andthen state (\<lambda>session.
     guard (errs [ensure (\<not> se_mutationAllowed session) ''fresh bootstrap plan requires provisional leadership'', ValidateForHolder plan holder])
     (andthen (requireActiveSession b) (\<lambda>_.
      let current = se_snapshot session
      in andthen (lift (ParseDiscoveryMarker (annots current) holder)) (\<lambda>marker.
         guard (ensure (marker \<noteq> None) ''fresh bootstrap plan requires the matching provisional discovery marker'')
         (andthen (lift (ParseBootstrapAttempt (annots current))) (\<lambda>bootstrap.
          guard (ensure (bootstrap = None) ''fresh bootstrap plan cannot coexist with a parent bootstrap attempt'')
          (andthen (lift (ApplyFreshBootstrapPlan (annots current) plan)) (\<lambda>annotations.
           andthen (commitLeaseUpdate b holder duration current annotations) (\<lambda>_.
           requireActiveSession b)))))))))"

definition PromoteFreshBootstrapParent ::
  "'w LeaseBoundary \<Rightarrow> HolderEvidence \<Rightarrow> int \<Rightarrow> string \<Rightarrow> ('w \<times> LeadershipSession, BootstrapAttempt) act" where
  "PromoteFreshBootstrapParent b holder duration parentID =
     guard (ValidateParentFilesystemID parentID)
     (andthen (RequireActiveLeadership b) (\<lambda>_.
      andthen state (\<lambda>session.
      let current = se_snapshot session
      in andthen (lift (ParseDiscoveryMarker (annots current) holder)) (\<lambda>marker.
         guard (ensure (marker = None) ''fresh parent promotion requires completed fresh-installation discovery'')
         (andthen (lift (ParseBootstrapAttempt (annots current))) (\<lambda>existing.
          guard (ensure (existing = None) ''another parent bootstrap attempt is already active'')
          (andthen (lift (ParseFreshBootstrapPlan (annots current))) (\<lambda>fresh. case fresh of
              None \<Rightarrow> fail (errorf ''fresh bootstrap plan is absent'')
            | Some plan \<Rightarrow>
                guard (ValidateForHolder plan holder)
                (case Plan_Parent plan parentID of
                   None \<Rightarrow> fail (errorf ''parent is absent from fresh bootstrap plan'')
                 | Some parent \<Rightarrow>
                     andthen (lift (parse_instant (fp_EmptyInventoryObservedAt parent))) (\<lambda>observedAt.
                     andthen (lift (NewBootstrapAttempt (fp_AttemptID parent) (fb_InstallationID plan) (fb_ActiveClusterUID plan)
                         (fp_ParentFilesystemID parent) (fb_ControllerNodeID plan) (fb_ControllerInstanceID plan) (fb_ControllerZone plan) observedAt)) (\<lambda>bootstrap.
                     andthen (lift (BootstrapAttempt_Annotations bootstrap)) (\<lambda>annotations.
                     andthen (commitLeaseUpdate b holder duration current (put annotations (annots current))) (\<lambda>_.
                     andthen (RequireActiveLeadership b) (\<lambda>_. ret bootstrap))))))))))))))"

definition Session_ClearFreshBootstrapPlan ::
  "'w LeaseBoundary \<Rightarrow> HolderEvidence \<Rightarrow> int \<Rightarrow> FreshBootstrapPlan \<Rightarrow> ('w \<times> LeadershipSession, unit) act" where
  "Session_ClearFreshBootstrapPlan b holder duration expected =
     guard (ValidateForHolder expected holder)
     (andthen (RequireActiveLeadership b) (\<lambda>_.
      andthen state (\<lambda>session.
      let current = se_snapshot session
      in andthen (lift (ParseDiscoveryMarker (annots current) holder)) (\<lambda>marker.
         guard (ensure (marker = None) ''fresh bootstrap plan cannot clear during provisional discovery'')
         (andthen (lift (ParseBootstrapAttempt (annots current))) (\<lambda>existing.
          guard (ensure (existing = None) ''fresh bootstrap plan cannot clear during a parent bootstrap attempt'')
          (andthen (lift (ParseFreshBootstrapPlan (annots current))) (\<lambda>fresh. case fresh of
              None \<Rightarrow> fail (errorf ''fresh bootstrap plan is absent'')
            | Some plan \<Rightarrow>
                andthen (lift (annotationValue plan)) (\<lambda>currentValue.
                andthen (lift (annotationValue expected)) (\<lambda>expectedValue.
                guard (ensure (currentValue = expectedValue) ''fresh bootstrap plan differs from the completed plan'')
                (andthen (commitLeaseUpdate b holder duration current (ClearFreshBootstrapPlan (annots current))) (\<lambda>_.
                 RequireActiveLeadership b))))))))))))"

end
