(* ===== verification/Leadership.thy ===== *)
theory Leadership
  imports LeaseRuntime
begin

text \<open>
  The Lease as a state machine of leadership, and the operations of the runtime as refinements of
  it. The abstract state says who owns the Lease and whether the owner may mutate; the step relation
  lists the only changes one Pod makes to it. Every compare-and-swap that an operation of the runtime
  attempts is such a step, whatever the Lease store, the provider and the other Pods answer; and under
  every interleaving of such steps at most one Pod that is not fenced leads.
\<close>

section \<open>Abstract leadership\<close>

datatype lease_view = Vacant | Released string | Provisional string | Leading string | Disordered

text \<open>
  \<open>Disordered\<close> is a released Lease that still carries a discovery marker. No update writes one, but the
  released branch of \<^verbatim>\<open>PlanAutomaticAcquisition\<close> does not read the marker and hands such a Lease over.
\<close>

definition discovering :: "annotations \<Rightarrow> bool" where
  "discovering annotations = list_ex (\<lambda>key. fmlookup annotations key \<noteq> None) discoveryAnnotationKeys"

definition lease_view :: "LeaseSnapshot \<Rightarrow> lease_view" where
  "lease_view snapshot =
     (if ls_HolderIdentity snapshot = [] then
        (case ParseGracefulRelease (annots snapshot) of 
            Inr (Some marker) \<Rightarrow> if discovering (annots snapshot) then Disordered else Released (gr_HolderPodUID marker)
          | _ \<Rightarrow> Vacant)
      else if discovering (annots snapshot) then Provisional (ls_HolderIdentity snapshot)
      else Leading (ls_HolderIdentity snapshot))"

text \<open>
  What a process does at its boundary: it attempts an update, it stops its own leadership context, or one of
  its three verifiers answers without an error: the takeover fence for a named Pod, the fence of a
  missing-Lease recovery, the absence proof of a fresh installation.
\<close>

datatype lease_event = Attempted LeaseSnapshot LeaseSnapshot | Fenced string | RecoveryVerified | FreshVerified | Stopped

text \<open>
  One update of the Pod \<open>p\<close>, given what it verified before. A release over unknown annotations in the
  group of the release marker abandons the Lease, which then needs a recovery.
\<close>

inductive lease_step :: "string \<Rightarrow> lease_event set \<Rightarrow> lease_view \<Rightarrow> lease_view \<Rightarrow> bool" for p verified where
  keep: "lease_step p verified (Leading p) (Leading p)"
| discover: "lease_step p verified Vacant (Provisional p)"
| rediscover: "lease_step p verified (Provisional p) (Provisional p)"
| handoff: "lease_step p verified (Released q) (Leading p)"
| takeover: "Fenced q \<in> verified \<Longrightarrow> q \<noteq> p \<Longrightarrow> lease_step p verified (Leading q) (Leading p)"
| recover: "RecoveryVerified \<in> verified \<Longrightarrow> lease_step p verified (Provisional p) (Leading p)"
| promote: "FreshVerified \<in> verified \<Longrightarrow> lease_step p verified (Provisional p) (Leading p)"
| step_down: "Stopped \<in> verified \<Longrightarrow> lease_step p verified (Leading p) (Released p)"
| abandon: "Stopped \<in> verified \<Longrightarrow> lease_step p verified (Leading p) Vacant"
| disorder: "lease_step p verified Disordered (Provisional p)"

inductive_cases lease_stepE: "lease_step p verified v v'"

text \<open>Every update in a log, newest event first, is a step; what was verified lies before it.\<close>

fun conforms :: "string \<Rightarrow> lease_event list \<Rightarrow> bool" where
  "conforms p [] = True"
| "conforms p (Attempted cur nxt # log) = (lease_step p (set log) (lease_view cur) (lease_view nxt) \<and> conforms p log)"
| "conforms p (Fenced q # log) = conforms p log"
| "conforms p (RecoveryVerified # log) = conforms p log"
| "conforms p (FreshVerified # log) = conforms p log"
| "conforms p (Stopped # log) = conforms p log"

section \<open>The abstract view of a written Lease\<close>

lemma discovering_cong:
  "(\<And>key. key \<in> set discoveryAnnotationKeys \<Longrightarrow> fmlookup a key = fmlookup b key) \<Longrightarrow> discovering a = discovering b"
  unfolding discovering_def list_ex_iff by (simp cong: bex_cong_simp)

lemma discovering_put_other:
  assumes "list_all (\<lambda>kv. fst kv \<notin> set discoveryAnnotationKeys) kvs"
  shows "discovering (put kvs a) = discovering a"
proof (rule discovering_cong)
  fix key assume "key \<in> set discoveryAnnotationKeys"
  then have "map_of (rev kvs) key = None" using assms by (auto simp: list_all_iff map_of_eq_None_iff)
  then show "fmlookup (put kvs a) key = fmlookup a key" by (simp add: fmlookup_put)
qed

lemma discovering_parse:
  "ParseDiscoveryMarker a h = Inr None \<Longrightarrow> \<not> discovering a"
  "ParseDiscoveryMarker a h = Inr (Some m) \<Longrightarrow> discovering a"
  unfolding ParseDiscoveryMarker_def parse_group_def discovering_def list_ex_iff
  by (cases "checked (DiscoveryMarker_Validate h) (marker_of (at a))"; auto simp: Let_def filter_empty_conv split: if_splits)+

lemma discovering_writes:
  "discovering (put (holder_annotations r) a) = discovering a"
  "discovering (put (release_annotations g) a) = discovering a"
  "discovering (put (consumption_annotations c) a) = discovering a"
  "discovering (put (attempt_annotations t) a) = discovering a"
  "discovering (put (marker_annotations m) a)"
  by (intro discovering_put_other; simp add: holder_group_defs graceful_group_defs consumption_group_defs
      bootstrap_group_defs discovery_group_defs; fail)+
    (simp add: discovering_def discovery_group_defs)

lemma discovering_clears:
  "discovering (clear gracefulAnnotationKeys a) = discovering a"
  "discovering (clear bootstrapAnnotationKeys a) = discovering a"
  "\<not> discovering (clear discoveryAnnotationKeys a)"
  "discovering (fmupd freshBootstrapPlanAnnotation v a) = discovering a"
  "discovering (fmdrop freshBootstrapPlanAnnotation a) = discovering a"
  by (simp_all add: discovering_def fmlookup_clear discovery_group_defs graceful_group_defs bootstrap_group_defs
      freshBootstrapPlanAnnotation_def)

lemma lease_view_held:
  "ls_HolderIdentity s \<noteq> [] \<Longrightarrow>
     lease_view s = (if discovering (annots s) then Provisional (ls_HolderIdentity s) else Leading (ls_HolderIdentity s))"
  by (simp add: lease_view_def)

lemma holder_named: "HolderEvidence_Validate h = None \<Longrightarrow> he_PodUID h \<noteq> []"
  by (auto simp: HolderEvidence_Validate_def ValidateOperationID_def wrap_err_def uuidPattern_def numeral_eq_Suc split: if_splits)

text \<open>The next generation of an automatic acquisition.\<close>

lemmas plan_eval = with_holder_def provisional_plan_def granting_plan_def mark_provisional_def applyHolderEvidence_def
  HolderEvidence_Annotations_def ClearGracefulReleaseAnnotations_def ApplyDiscoveryMarker_def

lemma applied_discovering:
  "ApplyDiscoveryMarker a marker h = Inr annotations \<Longrightarrow> discovering annotations"
  by (auto simp: ApplyDiscoveryMarker_def discovering_writes split: option.splits)

lemma marked_discovering:
  assumes "mark_provisional holder acquiredAt (provisional_plan holder a) = Inr annotations"
  shows "discovering annotations"
  using assms by (auto simp: mark_provisional_def provisional_plan_def dest: applied_discovering discovering_parse(2) split: if_splits)

lemma held_step:
  assumes "plan_held current holder previous marker fresh = Inr plan" and "mark_provisional holder acquiredAt plan = Inr annotations"
    and "he_PodUID holder \<noteq> []"
  shows "lease_step (he_PodUID holder) verified (lease_view current) (lease_view (with_holder current (ap_HolderIdentity plan) annotations))
    \<and> (ap_MutationAllowed plan \<longrightarrow> lease_view current = Disordered
         \<or> lease_view (with_holder current (ap_HolderIdentity plan) annotations) = Leading (he_PodUID holder))"
proof -
  obtain evidence discovery where facts: "previous = Some evidence" "ls_HolderIdentity current = he_PodUID holder"
    "ParseDiscoveryMarker (annots current) evidence = Inr discovery"
    "(if discovery \<noteq> None then Inr (provisional_plan holder (annots current))
      else and_then (applyHolderEvidence (annots current) holder False) (\<lambda>annotations.
        Inr (granting_plan AcquisitionSameHolder holder annotations))) = Inr plan"
    using assms(1) by (auto simp: plan_held_def split: option.splits)
  show ?thesis
  proof (cases discovery)
    case None
    then have "\<not> discovering (annots current)" using facts(3) discovering_parse(1) by blast
    then show ?thesis
      using facts None assms(2,3) by (auto simp: plan_eval lease_view_def discovering_writes split: if_splits intro: lease_step.keep)
  next
    case (Some m)
    then have "discovering (annots current)" using facts(3) discovering_parse(2) by blast
    moreover have "plan = provisional_plan holder (annots current)" using facts(4) Some by simp
    moreover from this have "discovering annotations" using assms(2) marked_discovering by blast
    ultimately show ?thesis
      using facts(2) assms(3) by (simp add: provisional_plan_def with_holder_def lease_view_def lease_step.rediscover)
  qed
qed

lemma released_step:
  assumes "plan_released current holder previous r bootstrapping = Inr plan" and "mark_provisional holder acquiredAt plan = Inr annotations"
    and "he_PodUID holder \<noteq> []" and "ls_HolderIdentity current = []" and "ParseGracefulRelease (annots current) = Inr (Some r)"
  shows "lease_step (he_PodUID holder) verified (lease_view current) (lease_view (with_holder current (ap_HolderIdentity plan) annotations))
    \<and> (ap_MutationAllowed plan \<longrightarrow> lease_view current = Disordered
         \<or> lease_view (with_holder current (ap_HolderIdentity plan) annotations) = Leading (he_PodUID holder))"
proof -
  have "plan = granting_plan AcquisitionGracefulHandoff holder (put (holder_annotations holder) (clear gracefulAnnotationKeys (annots current)))"
    using assms(1) by (auto simp: plan_released_def plan_eval split: option.splits)
  moreover have "annotations = ap_Annotations plan" using assms(2) calculation by (simp add: plan_eval)
  ultimately show ?thesis
    using assms(3-5) by (auto simp: plan_eval lease_view_def discovering_writes discovering_clears intro: lease_step.handoff lease_step.disorder)
qed

lemma empty_step:
  assumes "plan_empty current holder bootstrap fresh = Inr plan" and "mark_provisional holder acquiredAt plan = Inr annotations"
    and "he_PodUID holder \<noteq> []" and "ls_HolderIdentity current = []" and "ParseGracefulRelease (annots current) = Inr None"
  shows "lease_step (he_PodUID holder) verified (lease_view current) (lease_view (with_holder current (ap_HolderIdentity plan) annotations))
    \<and> (ap_MutationAllowed plan \<longrightarrow> lease_view current = Disordered
         \<or> lease_view (with_holder current (ap_HolderIdentity plan) annotations) = Leading (he_PodUID holder))"
proof -
  obtain a where "plan = provisional_plan holder a" using assms(1) by (auto simp: plan_empty_def)
  moreover from this have "discovering annotations" using assms(2) marked_discovering by blast
  ultimately show ?thesis
    using assms(3-5) by (simp add: provisional_plan_def with_holder_def lease_view_def lease_step.discover)
qed

lemma automatic_step:
  assumes plan: "PlanAutomaticAcquisition current holder durable = Inr plan"
    and marked: "mark_provisional holder acquiredAt plan = Inr annotations"
  shows "lease_step (he_PodUID holder) verified (lease_view current) (lease_view (with_holder current (ap_HolderIdentity plan) annotations))
    \<and> (ap_MutationAllowed plan \<longrightarrow> lease_view current = Disordered
         \<or> lease_view (with_holder current (ap_HolderIdentity plan) annotations) = Leading (he_PodUID holder))"
proof -
  obtain previous marker bootstrap fresh where parsed: "ParseHolderEvidence (annots current) = Inr previous"
    "ParseGracefulRelease (annots current) = Inr marker" "ParseBootstrapAttempt (annots current) = Inr bootstrap"
    "ParseFreshBootstrapPlan (annots current) = Inr fresh"
    using plan by (auto simp: PlanAutomaticAcquisition_def)
  have valid: "HolderEvidence_Validate holder = None" using plan by (simp add: PlanAutomaticAcquisition_def)
  note named = holder_named [OF valid]
  show ?thesis
  proof (cases "ls_HolderIdentity current = []")
    case False
    then have "plan_held current holder previous marker fresh = Inr plan" using plan parsed by (simp add: PlanAutomaticAcquisition_def)
    then show ?thesis by (rule held_step [OF _ marked named])
  next
    case True
    show ?thesis
    proof (cases marker)
      case None
      then have "plan_empty current holder bootstrap fresh = Inr plan"
        using True plan parsed by (simp add: PlanAutomaticAcquisition_def)
      then show ?thesis by (rule empty_step [OF _ marked named True parsed(2) [unfolded None]])
    next
      case (Some r)
      then have "plan_released current holder previous r (bootstrap \<noteq> None \<or> fresh \<noteq> None) = Inr plan"
        using True plan parsed by (simp add: PlanAutomaticAcquisition_def)
      then show ?thesis by (rule released_step [OF _ marked named True parsed(2) [unfolded Some]])
    qed
  qed
qed

text \<open>The next generations of an approved acquisition, a promotion and a release.\<close>

lemma lease_step_mono: "lease_step p verified v v' \<Longrightarrow> verified \<subseteq> verified' \<Longrightarrow> lease_step p verified' v v'"
  by (induction rule: lease_step.induct) (auto intro: lease_step.intros)

definition approvable :: "OperatorApproval \<Rightarrow> string \<Rightarrow> lease_event \<Rightarrow> lease_view \<Rightarrow> bool" where
  "approvable approval p event v \<longleftrightarrow>
     oa_Mode approval = ApprovalMissingLeaseRecovery \<and> event = RecoveryVerified \<and> v = Provisional p
     \<or> oa_Mode approval \<noteq> ApprovalMissingLeaseRecovery \<and> (\<exists>q. event = Fenced q \<and> q \<noteq> p \<and> v = Leading q)"

lemma approved_step:
  assumes "approved_annotations holder approval (annots current) now = Inr annotations"
    and "approvable approval (he_PodUID holder) event (lease_view current)" and "he_PodUID holder \<noteq> []"
  shows "lease_step (he_PodUID holder) {event} (lease_view current) (lease_view (with_holder current (he_PodUID holder) annotations))
    \<and> lease_view (with_holder current (he_PodUID holder) annotations) = Leading (he_PodUID holder)"
proof -
  let ?a = "put (holder_annotations holder) (annots current)"
  obtain c where a: "annotations = put (consumption_annotations c)
      (if oa_Mode approval = ApprovalMissingLeaseRecovery then clear discoveryAnnotationKeys ?a else ?a)"
    using assms(1) by (auto simp: approved_annotations_def plan_eval ApplyApprovalConsumption_def ApprovalConsumption_Annotations_def
        ClearDiscoveryMarker_def split: if_splits)
  have "\<not> discovering annotations"
    using assms(2) unfolding a
    by (auto simp: approvable_def discovering_writes discovering_clears lease_view_def split: if_splits option.splits sum.splits)
  then show ?thesis
    using assms(2,3) by (auto simp: approvable_def with_holder_def lease_view_held intro: lease_step.takeover lease_step.recover)
qed

lemma promoted_step:
  assumes "ls_HolderIdentity current = p" "p \<noteq> []" "discovering (annots current)"
  defines "nxt \<equiv> current\<lparr>ls_Annotations := Some (ClearDiscoveryMarker (annots current))\<rparr>"
  shows "lease_step p {FreshVerified} (lease_view current) (lease_view nxt) \<and> lease_view nxt = Leading p"
  using assms by (auto simp: lease_view_def annots_def ClearDiscoveryMarker_def discovering_clears intro: lease_step.promote)

lemma release_step:
  assumes "PlanGracefulRelease current holder requestID releasedAt inflight checkpointActive = Inr nxt" and "Stopped \<in> verified"
  shows "lease_step (he_PodUID holder) verified (lease_view current) (lease_view nxt)"
proof -
  obtain r where nxt: "nxt = \<lparr>ls_UID = ls_UID current, ls_ResourceVersion = ls_ResourceVersion current, ls_HolderIdentity = [],
         ls_Annotations = Some (put (release_annotations r) (annots current))\<rparr>"
    and r: "NewGracefulRelease holder (ls_UID current) requestID releasedAt = Inr r"
    and facts: "ls_HolderIdentity current = he_PodUID holder" "ParseDiscoveryMarker (annots current) holder = Inr None"
      "HolderEvidence_Validate holder = None"
    using assms(1) by (auto simp: PlanGracefulRelease_def GracefulRelease_Annotations_def)
  have quiet: "\<not> discovering (annots current)" using facts(2) discovering_parse(1) by blast
  then have v: "lease_view current = Leading (he_PodUID holder)" using facts(1) holder_named [OF facts(3)] by (simp add: lease_view_def)
  have valid: "GracefulRelease_Validate r = None" and pod: "gr_HolderPodUID r = he_PodUID holder" using r unfolding NewGracefulRelease_Inr by (blast, simp)
  show ?thesis
  proof (cases "ParseGracefulRelease (put (release_annotations r) (annots current))")
    case (Inl e)
    then show ?thesis unfolding v by (simp add: nxt lease_view_def lease_step.abandon [OF assms(2)])
  next
    case (Inr g)
    have "ParseGracefulRelease (put (release_annotations r) (put (release_annotations r) (annots current))) = Inr (Some r)"
      using graceful.parse_put [OF valid Inr [unfolded ParseGracefulRelease_def]] by (simp add: ParseGracefulRelease_def)
    moreover have "put (release_annotations r) (put (release_annotations r) a) = put (release_annotations r) a" for a
      by (rule fmap_ext) (simp add: fmlookup_put split: option.split)
    ultimately show ?thesis using quiet unfolding v by (simp add: nxt lease_view_def discovering_writes pod lease_step.step_down [OF assms(2)])
  qed
qed

text \<open>A session of the Pod that its Lease generation names.\<close>

definition owns :: "HolderEvidence \<Rightarrow> LeadershipSession \<Rightarrow> bool" where
  "owns h session \<longleftrightarrow> ls_HolderIdentity (se_snapshot session) = he_PodUID h"

lemma triple_option:
  "(x = None \<Longrightarrow> triple P m E Q) \<Longrightarrow> (\<And>y. x = Some y \<Longrightarrow> triple P (f y) E Q) \<Longrightarrow> triple P (case x of None \<Rightarrow> m | Some y \<Rightarrow> f y) E Q"
  by (cases x) simp_all

section \<open>The boundary\<close>

text \<open>
  A log of the boundary: an update is logged whether it is acknowledged or not, a fence or a
  verification only when it succeeds. Nothing else is assumed; the store may answer anything.
\<close>

locale lease_boundary =
  fixes b :: "'w LeaseBoundary" and log :: "'w \<Rightarrow> lease_event list"
  assumes silent: "log (snd (lb_Context b w)) = log w" "log (snd (lb_Load b w)) = log w" "log (snd (lb_Now b w)) = log w"
      "log (snd (lb_JoinRun b w)) = log w" "log (snd (lb_Alive b w)) = log w"
    and cancel: "log (lb_Cancel b w) = Stopped # log w"
    and update: "log (snd (lb_Update b cur nxt now duration w)) = Attempted cur nxt # log w"
    and fence: "log (snd (lb_VerifyAbnormalTakeover b approval evidence w)) =
      (case fst (lb_VerifyAbnormalTakeover b approval evidence w) of Inl _ \<Rightarrow> log w | Inr _ \<Rightarrow> Fenced (he_PodUID evidence) # log w)"
    and recovery: "log (snd (lb_VerifyMissingLeaseRecovery b approval w)) =
      (case fst (lb_VerifyMissingLeaseRecovery b approval w) of Inl _ \<Rightarrow> log w | Inr _ \<Rightarrow> RecoveryVerified # log w)"
    and fresh: "log (snd (lb_VerifyFreshInstallation b w)) =
      (case fst (lb_VerifyFreshInstallation b w) of Inl _ \<Rightarrow> log w | Inr _ \<Rightarrow> FreshVerified # log w)"
begin

text \<open>
  The invariant of a running operation of the Pod \<open>h\<close>: its log conforms, and contains the events \<open>X\<close>.
\<close>

definition logged :: "HolderEvidence \<Rightarrow> lease_event set \<Rightarrow> 'w \<Rightarrow> bool" where
  "logged h X w \<longleftrightarrow> conforms (he_PodUID h) (log w) \<and> X \<subseteq> set (log w)"

definition within :: "('s \<Rightarrow> bool) \<Rightarrow> HolderEvidence \<Rightarrow> lease_event set \<Rightarrow> 'w \<times> 's \<Rightarrow> bool" where
  "within R h X = (\<lambda>(w, s). R s \<and> logged h X w)"

abbreviation holds :: "HolderEvidence \<Rightarrow> lease_event set \<Rightarrow> 'w \<times> LeaseRuntime \<Rightarrow> bool" where
  "holds h X \<equiv> within (\<lambda>s. rt_holder s = h) h X"

lemma logged_mono: "logged h X w \<Longrightarrow> Y \<subseteq> X \<Longrightarrow> logged h Y w"
  by (auto simp: logged_def)

lemma triple_outer:
  assumes "triple (logged h X) m (\<lambda>_. logged h X) (\<lambda>x w. A x \<and> logged h (Y x) w)"
  shows "triple (within R h X) (outer m) (\<lambda>_. within R h X) (\<lambda>x ws. A x \<and> within R h (Y x) ws)"
proof (rule tripleI)
  fix ws r ws' assume h: "within R h X ws" and r: "outer m ws = (r, ws')"
  obtain w s where ws: "ws = (w, s)" by (cases ws)
  obtain w' where m: "m w = (r, w')" and ws': "ws' = (w', s)" using r by (auto simp: outer_def ws split: prod.splits)
  show "case r of Inl e \<Rightarrow> within R h X ws' | Inr x \<Rightarrow> A x \<and> within R h (Y x) ws'"
    using tripleD [OF assms _ m] h by (cases r) (simp_all add: within_def ws ws')
qed

lemma silent_keeps:
  assumes "\<And>w. log (snd (m w)) = log w"
  shows "keeps (logged h X) m"
proof (rule tripleI)
  fix w r w' assume "logged h X w" and "m w = (r, w')"
  then show "case r of Inl e \<Rightarrow> logged h X w' | Inr x \<Rightarrow> logged h X w'"
    using assms [of w] by (cases r) (simp_all add: logged_def)
qed

lemma clock_keeps: "keeps (logged h X) (clock_now b)"
  by (rule silent_keeps) (use silent(3) in \<open>simp add: clock_now_def split: prod.split\<close>, metis snd_conv)

lemmas silent_calls = silent(1,2,4,5) [THEN silent_keeps] clock_keeps

lemma update_triple:
  assumes "lease_step (he_PodUID h) X (lease_view cur) (lease_view nxt)"
  defines "Y \<equiv> insert (Attempted cur nxt) X"
  shows "triple (logged h X) (lb_Update b cur nxt now duration) (\<lambda>_. logged h Y) (\<lambda>_. logged h Y)"
proof (rule tripleI)
  fix w r w' assume "logged h X w" and "lb_Update b cur nxt now duration w = (r, w')"
  then have "logged h Y w'"
    using update [of cur nxt now duration w] lease_step_mono [OF assms(1)] by (auto simp: logged_def Y_def)
  then show "case r of Inl e \<Rightarrow> logged h Y w' | Inr x \<Rightarrow> logged h Y w'" by (cases r) simp_all
qed

lemma reread_keeps: "keeps (logged h X) (rereadHolderUpdate b current nxt holder)"
  unfolding rereadHolderUpdate_def
  by (rule triple_andthen [OF triple_attempt]) (auto intro!: silent_calls triple_rules split: sum.split option.split)

lemma stored_view: "validateStoredHolder current nxt stored holder = None \<Longrightarrow> lease_view stored = lease_view nxt"
proof -
  assume "validateStoredHolder current nxt stored holder = None"
  then have "annots stored = annots nxt" "ls_HolderIdentity stored = ls_HolderIdentity nxt" by (auto simp: validateStoredHolder_def)
  then show ?thesis by (simp only: lease_view_def)
qed

lemma install_triple:
  assumes "lease_step (he_PodUID h) X (lease_view current) (lease_view nxt)"
  shows "triple (logged h X) (install b h duration current nxt now) (\<lambda>_. logged h X)
    (\<lambda>stored w. lease_view stored = lease_view nxt \<and> logged h (insert (Attempted current nxt) X) w)"
proof -
  let ?Y = "insert (Attempted current nxt) X"
  have weaken: "logged h ?Y w \<Longrightarrow> logged h X w" for w by (erule logged_mono) blast
  have resolve: "triple (logged h ?Y) (case updated of
         Inr stored \<Rightarrow> ret stored
       | Inl updateErr \<Rightarrow>
           if errors_is updateErr ErrLeaseLost then fail updateErr
           else andthen (rereadHolderUpdate b current nxt h) (\<lambda>outcome. case outcome of
               Reread_failed readErr \<Rightarrow> fail (join_errors updateErr readErr)
             | Diverged readErr \<Rightarrow> fail (join_errors updateErr readErr)
             | Unchanged observed \<Rightarrow> fail updateErr
             | Committed observed \<Rightarrow> ret observed)) (\<lambda>_. logged h X) (\<lambda>_. logged h ?Y)" for updated
  proof (cases updated)
    case (Inl e)
    have "triple (logged h ?Y) (rereadHolderUpdate b current nxt h) (\<lambda>_. logged h X) (\<lambda>_. logged h ?Y)"
      by (rule triple_post [OF reread_keeps]) (rule weaken)
    then show ?thesis unfolding Inl
      by (auto intro!: triple_rules triple_andthen weaken split: reread.split)
  qed (simp add: triple_ret)
  show ?thesis
    unfolding install_def
    by (intro triple_andthen [OF triple_attempt [OF update_triple [OF assms]]] triple_andthen [OF resolve] triple_guard triple_ret)
      (auto intro: weaken stored_view)
qed

section \<open>The operations of the runtime\<close>

lemma outer_keeps: "keeps (logged h X) m \<Longrightarrow> keeps (within R h X) (outer m)"
  using triple_outer [of h X m "\<lambda>_. True" "\<lambda>_. X"] by simp

lemma read_state:
  "(\<And>s. R s \<Longrightarrow> triple (within R h X) (f s) E Q) \<Longrightarrow> triple (within R h X) (andthen state f) E Q"
  by (auto simp: triple_def andthen_def state_def within_def)

lemma write_state:
  "(\<And>s. R s \<Longrightarrow> R (f s)) \<Longrightarrow> keeps (within R h X) (modify f)"
  by (auto simp: triple_def modify_def within_def)

text \<open>A silent call followed by the rest of an operation.\<close>

lemma silent_then:
  "keeps (logged h X) m \<Longrightarrow> (\<And>x. triple (within R h X) (f x) (\<lambda>_. within R h X) Q)
     \<Longrightarrow> triple (within R h X) (andthen (outer m) f) (\<lambda>_. within R h X) Q"
  by (rule triple_andthen [OF outer_keeps])

lemmas run_rules = read_state silent_calls [THEN silent_then] triple_guard triple_lift_andthen

text \<open>An attempted update after which the operation starts a session of the stored generation.\<close>

definition granted :: "HolderEvidence \<Rightarrow> AcquisitionResult \<Rightarrow> 'w \<times> LeaseRuntime \<Rightarrow> bool" where
  "granted h result ws \<longleftrightarrow> holds h {} ws \<and> (ar_MutationAllowed result \<longrightarrow>
     (\<exists>cur nxt. Attempted cur nxt \<in> set (log (fst ws)) \<and> (lease_view cur = Disordered \<or> lease_view nxt = Leading (he_PodUID h))))"

lemma install_session:
  assumes "lease_step (he_PodUID h) X (lease_view current) (lease_view nxt)"
    and "allowed \<Longrightarrow> lease_view current = Disordered \<or> lease_view nxt = Leading (he_PodUID h)"
  shows "triple (holds h X) (andthen (outer (install b h duration current nxt now)) (\<lambda>stored. started_session mode stored allowed instant))
    (\<lambda>_. holds h X) (granted h)"
proof (rule triple_andthen [OF triple_outer [OF install_triple [OF assms(1)]]])
  fix stored
  show "triple (\<lambda>ws. lease_view stored = lease_view nxt \<and> holds h (insert (Attempted current nxt) X) ws)
      (started_session mode stored allowed instant) (\<lambda>_. holds h X) (granted h)"
    using assms(2) by (auto simp: triple_def started_session_def andthen_def modify_def ret_def within_def granted_def logged_def Let_def)
qed

lemma Acquire_triple:
  "triple (holds h {}) (Acquire b durable) (\<lambda>_. holds h {}) (granted h)"
  unfolding Acquire_def
  by (intro run_rules) (auto intro: install_session dest: automatic_step)

text \<open>The fences.\<close>

lemma verified_triple:
  assumes "\<And>w. log (snd (m w)) = (case fst (m w) of Inl _ \<Rightarrow> log w | Inr _ \<Rightarrow> event # log w)" and "\<And>cur nxt. event \<noteq> Attempted cur nxt"
  shows "triple (logged h X) m (\<lambda>_. logged h X) (\<lambda>_. logged h (insert event X))"
proof (rule tripleI)
  fix w r w' assume l: "logged h X w" and m: "m w = (r, w')"
  have "conforms p (event # xs) = conforms p xs" for p xs using assms(2) by (cases event) auto
  then show "case r of Inl e \<Rightarrow> logged h X w' | Inr x \<Rightarrow> logged h (insert event X) w'"
    using assms(1) [of w] m l by (cases r) (auto simp: logged_def)
qed

lemmas fence_triples = fence [THEN verified_triple] recovery [THEN verified_triple] fresh [THEN verified_triple]

definition approval_event :: "OperatorApproval \<Rightarrow> LeaseSnapshot \<Rightarrow> lease_event" where
  "approval_event approval current =
     (if oa_Mode approval = ApprovalMissingLeaseRecovery then RecoveryVerified else Fenced (ls_HolderIdentity current))"

lemma takeover_triple:
  assumes "oa_Mode approval = ApprovalAbnormalTakeover"
  shows "triple (logged h X) (approve_takeover b h approval current now observedAt) (\<lambda>_. logged h X)
    (\<lambda>_ w. approvable approval (he_PodUID h) (approval_event approval current) (lease_view current)
       \<and> logged h (insert (approval_event approval current) X) w)"
proof -
  let ?event = "Fenced (ls_HolderIdentity current)"
  have fenced: "triple (logged h X) (andthen (wrapped msg (lb_VerifyAbnormalTakeover b approval evidence)) (\<lambda>_. ret mode))
      (\<lambda>_. logged h X) (\<lambda>_. logged h (insert ?event X))" if "he_PodUID evidence = ls_HolderIdentity current" for msg mode evidence
    by (intro triple_andthen [OF triple_wrapped [OF fence_triples(1)]] triple_ret) (simp_all add: that)
  have "triple (logged h X) (approve_takeover b h approval current now observedAt) (\<lambda>_. logged h X)
    (\<lambda>_ w. (ls_HolderIdentity current \<notin> {[], he_PodUID h} \<and> \<not> discovering (annots current)) \<and> logged h (insert ?event X) w)"
    unfolding approve_takeover_def
    by (intro triple_rules triple_option; (assumption | rule triple_post [OF fenced])) (auto dest: discovering_parse(1))
  then show ?thesis
    by (rule triple_post) (use assms in \<open>auto simp: approvable_def approval_event_def lease_view_def\<close>)
qed

lemma recovery_triple:
  assumes "oa_Mode approval = ApprovalMissingLeaseRecovery" and "HolderEvidence_Validate h = None"
  shows "triple (logged h X) (approve_recovery b h approval current now observedAt requestID manifest) (\<lambda>_. logged h X)
    (\<lambda>_ w. approvable approval (he_PodUID h) (approval_event approval current) (lease_view current)
       \<and> logged h (insert (approval_event approval current) X) w)"
proof -
  have cleared: "triple (logged h X) (andthen (wrapped msg (lb_VerifyMissingLeaseRecovery b approval)) (\<lambda>_. ret mode))
      (\<lambda>_. logged h X) (\<lambda>_. logged h (insert RecoveryVerified X))" for msg mode
    by (intro triple_andthen [OF triple_wrapped [OF fence_triples(2)]] triple_ret) simp_all
  have "triple (logged h X) (approve_recovery b h approval current now observedAt requestID manifest) (\<lambda>_. logged h X)
    (\<lambda>_ w. (ls_HolderIdentity current = he_PodUID h \<and> discovering (annots current)) \<and> logged h (insert RecoveryVerified X) w)"
    unfolding approve_recovery_def
    by (intro triple_rules triple_option; (assumption | rule triple_post [OF cleared])) (auto dest: discovering_parse(2))
  then show ?thesis
    by (rule triple_post) (use assms in \<open>auto simp: approvable_def approval_event_def lease_view_def holder_named\<close>)
qed

lemma within_mono: "within R h X ws \<Longrightarrow> Y \<subseteq> X \<Longrightarrow> within R h Y ws"
  by (auto simp: within_def logged_def)

lemma approved_rest:
  assumes "HolderEvidence_Validate h = None" and "approvable approval (he_PodUID h) event (lease_view current)"
  shows "triple (holds h {event})
    (andthen (lift (approved_annotations h approval (annots current) now)) (\<lambda>annotations.
     andthen (outer (install b h duration current (with_holder current (he_PodUID h) annotations) now)) (\<lambda>stored.
     started_session mode stored True now))) (\<lambda>_. holds h {}) (granted h)"
proof (rule triple_lift_andthen)
  fix annotations assume "approved_annotations h approval (annots current) now = Inr annotations"
  from approved_step [OF this assms(2) holder_named [OF assms(1)]]
  have "triple (holds h {event}) (andthen (outer (install b h duration current (with_holder current (he_PodUID h) annotations) now)) (\<lambda>stored.
     started_session mode stored True now)) (\<lambda>_. holds h {event}) (granted h)"
    by (intro install_session) blast+
  then show "triple (holds h {event}) (andthen (outer (install b h duration current (with_holder current (he_PodUID h) annotations) now)) (\<lambda>stored.
     started_session mode stored True now)) (\<lambda>_. holds h {}) (granted h)"
    by (rule triple_post) (auto elim: within_mono)
qed (auto elim: within_mono)

lemma approval_triple:
  assumes "HolderEvidence_Validate h = None"
  shows "triple (holds h {}) (case oa_Mode approval of
             ApprovalAbnormalTakeover \<Rightarrow> outer (approve_takeover b h approval current now observedAt)
           | ApprovalMissingLeaseRecovery \<Rightarrow> outer (approve_recovery b h approval current now observedAt requestID manifest)
           | OtherApproval s \<Rightarrow> fail (errorf ''approval mode is unsupported''))
    (\<lambda>_. holds h {}) (\<lambda>_ ws. approvable approval (he_PodUID h) (approval_event approval current) (lease_view current)
       \<and> holds h {approval_event approval current} ws)"
proof (cases "oa_Mode approval")
  case ApprovalAbnormalTakeover
  then show ?thesis using triple_outer [OF takeover_triple [OF ApprovalAbnormalTakeover]] by simp
next
  case ApprovalMissingLeaseRecovery
  then show ?thesis using triple_outer [OF recovery_triple [OF ApprovalMissingLeaseRecovery assms]] by simp
next
  case (OtherApproval t)
  then show ?thesis by (simp add: triple_fail)
qed

lemma AcquireApproved_triple:
  assumes "HolderEvidence_Validate h = None"
  shows "triple (holds h {}) (AcquireApproved b approval observedAt requestID manifest) (\<lambda>_. holds h {}) (granted h)"
  unfolding AcquireApproved_def
  by (intro run_rules; (assumption | simp only:, rule triple_andthen [OF approval_triple [OF assms]]))
    (simp add: triple_fact approved_rest [OF assms])

text \<open>Stopping a session cancels its leadership context first.\<close>

lemma cancel_triple: "triple (within R h X) (outer (cancel_leadership b)) (\<lambda>_. within R h X) (\<lambda>_. within R h (insert Stopped X))"
  using cancel by (auto simp: triple_def outer_def cancel_leadership_def within_def logged_def)

lemma Stop_triple: "triple (holds h X) (Stop b session) (\<lambda>_. holds h X) (\<lambda>_. holds h (insert Stopped X))"
proof -
  have "triple (holds h (insert Stopped X)) m (\<lambda>_. holds h (insert Stopped X)) Q \<Longrightarrow> triple (holds h (insert Stopped X)) m (\<lambda>_. holds h X) Q"
    for m :: "('w \<times> LeaseRuntime, unit) act" and Q
    by (erule triple_post) (auto elim: within_mono)
  note weaken = this
  show ?thesis
    unfolding Stop_def
    by (intro silent_calls(1) [THEN silent_then] triple_if triple_andthen [OF cancel_triple] weaken
        triple_andthen [OF outer_keeps] triple_andthen [OF write_state] triple_rules silent_calls write_state)
      (simp_all add: on_session_def)
qed

lemma PromoteFreshInstallation_triple:
  assumes "HolderEvidence_Validate h = None"
  shows "triple (holds h {}) (PromoteFreshInstallation b) (\<lambda>_. holds h {}) (granted h)"
proof -
  have verify: "triple (holds h {}) (wrapped msg (outer (lb_VerifyFreshInstallation b))) (\<lambda>_. holds h {}) (\<lambda>_. holds h {FreshVerified})" for msg
    using triple_outer [of h "{}" "lb_VerifyFreshInstallation b" "\<lambda>_. True" "\<lambda>_. {FreshVerified}"] fence_triples(3) [of h "{}"]
    by (intro triple_wrapped) simp
  have stop: "triple (holds h {FreshVerified}) (wrapped msg (Stop b session)) (\<lambda>_. holds h {FreshVerified}) (\<lambda>_. holds h {FreshVerified})" for msg session
    by (rule triple_wrapped, rule triple_post [OF Stop_triple]) (auto elim: within_mono)
  have install: "triple (holds h {FreshVerified}) (andthen (outer (install b h duration current
        (current\<lparr>ls_Annotations := Some (ClearDiscoveryMarker (annots current))\<rparr>) now)) (\<lambda>stored. started_session mode stored True now))
      (\<lambda>_. holds h {FreshVerified}) (granted h)"
    if "ls_HolderIdentity current = he_PodUID h" "discovering (annots current)" for duration current now mode
    using promoted_step [OF that(1) holder_named [OF assms] that(2)] by (intro install_session) blast+
  have weaken: "triple (holds h {FreshVerified}) m (\<lambda>_. holds h {FreshVerified}) Q \<Longrightarrow> triple (holds h {FreshVerified}) m (\<lambda>_. holds h {}) Q" for m :: "('w \<times> LeaseRuntime, AcquisitionResult) act" and Q
    by (erule triple_post) (auto elim: within_mono)
  show ?thesis
    unfolding PromoteFreshInstallation_def
    by (intro run_rules triple_option triple_fail triple_andthen [OF verify] weaken [OF triple_andthen [OF stop]];
        (assumption | simp only:, rule install)) (auto dest: discovering_parse(2))
qed

lemma record_triple: "keeps (holds h X) (recordRelease requestID snapshot)"
  unfolding recordRelease_def by (intro triple_andthen [OF write_state] triple_ret) simp_all

lemma ReleaseGracefully_triple: "keeps (holds h {}) (ReleaseGracefully b requestID gate later checkpointActive)"
proof -
  have stop: "triple (holds h {}) (wrapped msg (Stop b session)) (\<lambda>_. holds h {}) (\<lambda>_. holds h {Stopped})" for msg session
    by (intro triple_wrapped Stop_triple)
  have load: "triple (holds h {Stopped}) (wrapped msg (outer (lb_Load b))) (\<lambda>_. holds h {Stopped}) (\<lambda>_. holds h {Stopped})" for msg
    by (intro triple_wrapped outer_keeps silent_calls)
  have weaken: "triple (holds h X) m (\<lambda>_. holds h X) (\<lambda>_. holds h X) \<Longrightarrow> triple (holds h X) m (\<lambda>_. holds h {}) (\<lambda>_. holds h {})"
    for X and m :: "('w \<times> LeaseRuntime, LeaseSnapshot) act"
    by (erule triple_post) (auto elim: within_mono)
  have publish: "keeps (holds h {Stopped}) (andthen (attempt (outer (lb_Update b current nxt releasedAt duration))) (\<lambda>updated.
      andthen (case updated of
          Inr stored \<Rightarrow> ret stored
        | Inl updateErr \<Rightarrow>
            andthen (attempt (outer (lb_Load b))) (\<lambda>loaded. case loaded of
                Inl loadErr \<Rightarrow> fail (join_errors updateErr loadErr)
              | Inr observed \<Rightarrow>
                  (case validateReleasedSnapshot observed h' requestID of
                     Some err \<Rightarrow> fail (join_errors updateErr err)
                   | None \<Rightarrow> ret observed))) (\<lambda>stored.
      guard (validateReleasedUpdate current nxt stored h' requestID) (recordRelease requestID stored))))"
    if "h' = h" and "PlanGracefulRelease current h' requestID releasedAt inflight checkpointActive = Inr nxt" for current nxt releasedAt duration inflight h'
  proof (rule triple_andthen [OF triple_attempt])
    show "keeps (holds h {Stopped}) (outer (lb_Update b current nxt releasedAt duration))"
      by (rule outer_keeps, rule triple_post [OF update_triple [OF release_step [OF that(2) [unfolded that(1)]]]]) (auto elim: logged_mono)
  next
    fix updated :: "LeaseSnapshot res"
    show "keeps (holds h {Stopped}) (andthen (case updated of
          Inr stored \<Rightarrow> ret stored
        | Inl updateErr \<Rightarrow>
            andthen (attempt (outer (lb_Load b))) (\<lambda>loaded. case loaded of
                Inl loadErr \<Rightarrow> fail (join_errors updateErr loadErr)
              | Inr observed \<Rightarrow>
                  (case validateReleasedSnapshot observed h' requestID of
                     Some err \<Rightarrow> fail (join_errors updateErr err)
                   | None \<Rightarrow> ret observed))) (\<lambda>stored.
        guard (validateReleasedUpdate current nxt stored h' requestID) (recordRelease requestID stored)))"
      by (intro triple_andthen [where R = "\<lambda>_. holds h {Stopped}"] triple_guard record_triple; cases updated)
        (auto intro!: triple_andthen [OF triple_attempt [OF outer_keeps [OF silent_calls(2)]]] triple_ret triple_fail split: sum.split option.split)
  qed
  show ?thesis
    unfolding ReleaseGracefully_def
    by (intro triple_guard silent_calls [THEN silent_then] read_state triple_if triple_option triple_ret triple_fail triple_andthen [OF stop]
        weaken [OF triple_andthen [OF load]] triple_lift_andthen; (assumption | rule record_triple | rule publish; assumption))
qed

section \<open>The journal of a session\<close>

lemma active_keeps: "keeps (within (owns h) h X) (requireActiveSession b)" "keeps (within (owns h) h X) (RequireActiveLeadership b)"
  unfolding requireActiveSession_def RequireActiveLeadership_def by (intro read_state silent_calls [THEN silent_then] triple_rules; assumption)+

lemma loss_triple: "triple (within (owns h) h X) (reportLeaseLoss b err) (\<lambda>_. within (owns h) h X) Q"
proof -
  have "triple (within (owns h) h (insert Stopped X)) (andthen (modify cancel_session) (\<lambda>_. fail err)) (\<lambda>_. within (owns h) h X) Q"
    by (rule triple_andthen [where R = "\<lambda>_. within (owns h) h X", OF triple_post [OF write_state] triple_fail])
      (auto simp: cancel_session_def owns_def elim: within_mono)
  then show ?thesis unfolding reportLeaseLoss_def by (rule triple_andthen [OF cancel_triple])
qed

lemma apply_triple:
  assumes "lease_step (he_PodUID h) X (lease_view current) (lease_view nxt)"
  shows "triple (within (owns h) h X) (applyLeaseUpdate b h duration current nxt now) (\<lambda>_. within (owns h) h X)
    (\<lambda>stored ws. ls_HolderIdentity stored = he_PodUID h \<and> within (owns h) h X ws)"
proof -
  have "keeps (logged h X) (lb_Update b current nxt now duration)"
    by (rule triple_post [OF update_triple [OF assms]]) (auto elim: logged_mono)
  note call = triple_attempt [where Q = "\<lambda>_. within (owns h) h X", OF outer_keeps [OF this]]
  have resolve: "keeps (within (owns h) h X) (case updated of
         Inr stored \<Rightarrow> ret stored
       | Inl updateErr \<Rightarrow>
           if errors_is updateErr ErrLeaseLost then reportLeaseLoss b updateErr
           else andthen (outer (rereadHolderUpdate b current nxt h)) (\<lambda>outcome. case outcome of
               Reread_failed readErr \<Rightarrow> fail (join_errors updateErr readErr)
             | Diverged readErr \<Rightarrow> reportLeaseLoss b (join_errors (Errorf [] [ErrLeaseLost]) (join_errors updateErr readErr))
             | Unchanged observed \<Rightarrow> fail updateErr
             | Committed observed \<Rightarrow> ret observed))" for updated
    by (cases updated) (auto intro!: triple_ret triple_fail loss_triple reread_keeps [THEN silent_then] split: reread.split)
  show ?thesis
    unfolding applyLeaseUpdate_def
    by (intro triple_andthen [OF call] triple_andthen [OF resolve])
      (auto intro!: loss_triple triple_ret simp: validateStoredHolder_def split: option.split)
qed

lemma journal_step:
  assumes "ls_HolderIdentity current = he_PodUID h" and "HolderEvidence_Validate h = None" and "discovering annotations = discovering (annots current)"
  shows "lease_step (he_PodUID h) X (lease_view current) (lease_view (current\<lparr>ls_Annotations := Some annotations\<rparr>))"
  using assms holder_named [OF assms(2)] by (auto simp: lease_view_def annots_def intro: lease_step.keep lease_step.rediscover)

lemma record_keeps: "ls_HolderIdentity stored = he_PodUID h \<Longrightarrow> keeps (within (owns h) h X) (modify (recordLeaseUpdate stored now))"
  by (rule write_state) (simp add: owns_def recordLeaseUpdate_def)

lemma commit_keeps:
  assumes "ls_HolderIdentity current = he_PodUID h" and "HolderEvidence_Validate h = None" and "discovering annotations = discovering (annots current)"
  shows "keeps (within (owns h) h X) (commitLeaseUpdate b h duration current annotations)"
  unfolding commitLeaseUpdate_def
  by (intro silent_calls [THEN silent_then] triple_andthen [OF apply_triple [OF journal_step [OF assms]]]) (simp add: triple_fact record_keeps)

lemma renew_keeps:
  assumes "HolderEvidence_Validate h = None"
  shows "keeps (within (owns h) h X) (renew b h duration)"
proof -
  have "triple (within (owns h) h X) (applyLeaseUpdate b h duration (se_snapshot session) (se_snapshot session) now) (\<lambda>_. within (owns h) h X)
      (\<lambda>stored ws. ls_HolderIdentity stored = he_PodUID h \<and> within (owns h) h X ws)" if "owns h session" for session now
    by (rule apply_triple) (use that holder_named [OF assms] in \<open>auto simp: owns_def lease_view_def intro: lease_step.keep lease_step.rediscover\<close>)
  note renewed = triple_andthen [OF this]
  show ?thesis
    unfolding renew_def
    by (intro read_state silent_calls [THEN silent_then] triple_guard renewed; (assumption | simp add: triple_fact record_keeps))
qed

lemmas journal_rules = triple_guard triple_lift_andthen read_state triple_andthen [OF active_keeps(1)] triple_andthen [OF active_keeps(2)]
  triple_option triple_fail triple_ret active_keeps

lemma SetBootstrapAttempt_keeps:
  assumes "HolderEvidence_Validate h = None"
  shows "keeps (within (owns h) h X) (SetBootstrapAttempt b h duration bootstrap)"
  unfolding SetBootstrapAttempt_def Let_def
  by (intro journal_rules triple_andthen [OF commit_keeps [OF _ assms]]; (assumption | (unfold owns_def, assumption) | auto simp: BootstrapAttempt_Annotations_def discovering_writes))

lemma ClearBootstrapAttempt_keeps:
  assumes "HolderEvidence_Validate h = None"
  shows "keeps (within (owns h) h X) (ClearBootstrapAttempt b h duration attemptID)"
  unfolding ClearBootstrapAttempt_def Let_def
  by (intro journal_rules triple_andthen [OF commit_keeps [OF _ assms]]; (assumption | (unfold owns_def, assumption) | simp add: ClearBootstrapAnnotations_def discovering_clears))

lemma SetFreshBootstrapPlan_keeps:
  assumes "HolderEvidence_Validate h = None"
  shows "keeps (within (owns h) h X) (SetFreshBootstrapPlan b h duration plan)"
  unfolding SetFreshBootstrapPlan_def Let_def
  by (intro journal_rules triple_andthen [OF commit_keeps [OF _ assms]]; (assumption | (unfold owns_def, assumption) | auto simp: ApplyFreshBootstrapPlan_def discovering_clears))

lemma PromoteFreshBootstrapParent_keeps:
  assumes "HolderEvidence_Validate h = None"
  shows "keeps (within (owns h) h X) (PromoteFreshBootstrapParent b h duration parentID)"
  unfolding PromoteFreshBootstrapParent_def Let_def
  by (intro journal_rules triple_andthen [OF commit_keeps [OF _ assms]]; (assumption | (unfold owns_def, assumption) | auto simp: BootstrapAttempt_Annotations_def discovering_writes))

lemma Session_ClearFreshBootstrapPlan_keeps:
  assumes "HolderEvidence_Validate h = None"
  shows "keeps (within (owns h) h X) (Session_ClearFreshBootstrapPlan b h duration plan)"
  unfolding Session_ClearFreshBootstrapPlan_def Let_def
  by (intro journal_rules triple_andthen [OF commit_keeps [OF _ assms]]; (assumption | (unfold owns_def, assumption) | simp add: ClearFreshBootstrapPlan_def discovering_clears))

end

section \<open>Every behaviour of the boundary\<close>

text \<open>
  The boundary that answers from a script. An operation sees of its surroundings only the answers to
  its calls, so every run of the code against the API server, the provider, the clock and the other
  Pods is the run of some script.
\<close>

record lease_script =
  sc_checks :: "unit res list"
  sc_loads :: "LeaseSnapshot res list"
  sc_updates :: "LeaseSnapshot res list"
  sc_joins :: "error option res list"
  sc_times :: "civil_time list"
  sc_log :: "lease_event list"

definition answer :: "'a res list \<Rightarrow> 'a res" where
  "answer answers = (case answers of [] \<Rightarrow> Inl (errorf ''context canceled'') | r # _ \<Rightarrow> r)"

definition check_answer :: "lease_event list \<Rightarrow> (lease_script, unit) act" where
  "check_answer events = (\<lambda>w. (answer (sc_checks w),
     w\<lparr>sc_checks := tl (sc_checks w), sc_log := (case answer (sc_checks w) of Inl _ \<Rightarrow> [] | Inr _ \<Rightarrow> events) @ sc_log w\<rparr>))"

definition scripted :: "lease_script LeaseBoundary" where
  "scripted = \<lparr>lb_Context = check_answer [],
     lb_Load = (\<lambda>w. (answer (sc_loads w), w\<lparr>sc_loads := tl (sc_loads w)\<rparr>)),
     lb_Update = (\<lambda>cur nxt now duration w. (answer (sc_updates w), w\<lparr>sc_updates := tl (sc_updates w), sc_log := Attempted cur nxt # sc_log w\<rparr>)),
     lb_Now = (\<lambda>w. (case sc_times w of [] \<Rightarrow> sample_instant | t # _ \<Rightarrow> t, w\<lparr>sc_times := tl (sc_times w)\<rparr>)),
     lb_Cancel = (\<lambda>w. w\<lparr>sc_log := Stopped # sc_log w\<rparr>),
     lb_JoinRun = (\<lambda>w. (answer (sc_joins w), w\<lparr>sc_joins := tl (sc_joins w)\<rparr>)),
     lb_Alive = check_answer [],
     lb_VerifyAbnormalTakeover = (\<lambda>approval evidence. check_answer [Fenced (he_PodUID evidence)]),
     lb_VerifyMissingLeaseRecovery = (\<lambda>approval. check_answer [RecoveryVerified]),
     lb_VerifyFreshInstallation = check_answer [FreshVerified]\<rparr>"

interpretation script: lease_boundary scripted sc_log
  by unfold_locales (simp_all add: scripted_def check_answer_def split: sum.split)

text \<open>The operations of a runtime and of a session, each with its arguments.\<close>

datatype operation =
    Acquisition bool
  | ApprovedAcquisition OperatorApproval civil_time string string
  | Promotion
  | GracefulStop string Gate Gate bool

fun perform :: "operation \<Rightarrow> (lease_script \<times> LeaseRuntime, AcquisitionResult option) act" where
  "perform (Acquisition durable) = andthen (Acquire scripted durable) (\<lambda>result. ret (Some result))"
| "perform (ApprovedAcquisition approval observedAt requestID manifest) =
     andthen (AcquireApproved scripted approval observedAt requestID manifest) (\<lambda>result. ret (Some result))"
| "perform Promotion = andthen (PromoteFreshInstallation scripted) (\<lambda>result. ret (Some result))"
| "perform (GracefulStop requestID gate later checkpointActive) =
     andthen (ReleaseGracefully scripted requestID gate later checkpointActive) (\<lambda>_. ret None)"

datatype journal =
    Renewal
  | AttemptSet BootstrapAttempt
  | AttemptCleared string
  | PlanSet FreshBootstrapPlan
  | ParentPromoted string
  | PlanCleared FreshBootstrapPlan

fun write_journal :: "HolderEvidence \<Rightarrow> int \<Rightarrow> journal \<Rightarrow> (lease_script \<times> LeadershipSession, unit) act" where
  "write_journal h duration Renewal = renew scripted h duration"
| "write_journal h duration (AttemptSet bootstrap) = SetBootstrapAttempt scripted h duration bootstrap"
| "write_journal h duration (AttemptCleared attemptID) = ClearBootstrapAttempt scripted h duration attemptID"
| "write_journal h duration (PlanSet plan) = SetFreshBootstrapPlan scripted h duration plan"
| "write_journal h duration (ParentPromoted parentID) = andthen (PromoteFreshBootstrapParent scripted h duration parentID) (\<lambda>_. ret ())"
| "write_journal h duration (PlanCleared plan) = Session_ClearFreshBootstrapPlan scripted h duration plan"

definition granted_result :: "HolderEvidence \<Rightarrow> AcquisitionResult option \<Rightarrow> lease_script \<times> LeaseRuntime \<Rightarrow> bool" where
  "granted_result h result ws = (case result of None \<Rightarrow> script.holds h {} ws | Some granted \<Rightarrow> script.granted h granted ws)"

lemma perform_triple:
  assumes "HolderEvidence_Validate h = None"
  shows "triple (script.holds h {}) (perform op) (\<lambda>_. script.holds h {}) (granted_result h)"
proof -
  have rest: "triple (script.granted h result) (ret (Some result)) (\<lambda>_. script.holds h {}) (granted_result h)" for result
    by (rule triple_ret) (simp add: granted_result_def)
  show ?thesis
  proof (cases op)
    case (GracefulStop requestID gate later checkpointActive)
    have "triple (script.holds h {}) (ret None) (\<lambda>_. script.holds h {}) (granted_result h)"
      by (rule triple_ret) (simp add: granted_result_def)
    then show ?thesis unfolding GracefulStop perform.simps by (rule triple_andthen [OF script.ReleaseGracefully_triple])
  qed (simp_all only: perform.simps, (rule triple_andthen [OF _ rest],
      rule script.Acquire_triple script.AcquireApproved_triple [OF assms] script.PromoteFreshInstallation_triple [OF assms])+)
qed

lemma journal_keeps:
  assumes "HolderEvidence_Validate h = None"
  shows "keeps (script.within (owns h) h {}) (write_journal h duration entry)"
proof (cases entry)
  case (ParentPromoted parentID)
  then show ?thesis
    by (simp only: write_journal.simps) (intro triple_andthen [OF script.PromoteFreshBootstrapParent_keeps [OF assms]] triple_ret)
qed (simp_all only: write_journal.simps script.renew_keeps [OF assms] script.SetBootstrapAttempt_keeps [OF assms]
    script.ClearBootstrapAttempt_keeps [OF assms] script.SetFreshBootstrapPlan_keeps [OF assms]
    script.Session_ClearFreshBootstrapPlan_keeps [OF assms])

lemma conforms_split: "conforms p (later @ Attempted cur nxt # earlier) \<Longrightarrow> lease_step p (set earlier) (lease_view cur) (lease_view nxt)"
  by (induction p later rule: conforms.induct) auto

lemma disordered_grant:
  assumes "conforms p log" and "Attempted cur nxt \<in> set log" and "lease_view cur = Disordered"
  shows "lease_view nxt = Provisional p"
proof -
  obtain later earlier where "log = later @ Attempted cur nxt # earlier" using split_list [OF assms(2)] by blast
  then have "lease_step p (set earlier) Disordered (lease_view nxt)" using conforms_split [of p later cur nxt earlier] assms(1,3) by simp
  then show ?thesis by (auto elim: lease_stepE)
qed

lemma perform_granted:
  assumes "perform operation (w, s) = (r, (w', s'))" and "sc_log w = []" and "HolderEvidence_Validate (rt_holder s) = None"
  shows "conforms (he_PodUID (rt_holder s)) (sc_log w')
    \<and> (\<forall>result. r = Inr (Some result) \<longrightarrow> ar_MutationAllowed result \<longrightarrow>
         (\<exists>cur nxt. Attempted cur nxt \<in> set (sc_log w') \<and> (lease_view nxt = Leading (he_PodUID (rt_holder s))
            \<or> lease_view cur = Disordered \<and> lease_view nxt = Provisional (he_PodUID (rt_holder s)))))"
proof -
  have "conforms (he_PodUID (rt_holder s)) (sc_log w')
    \<and> (\<forall>result. r = Inr (Some result) \<longrightarrow> ar_MutationAllowed result \<longrightarrow>
         (\<exists>cur nxt. Attempted cur nxt \<in> set (sc_log w') \<and> (lease_view cur = Disordered \<or> lease_view nxt = Leading (he_PodUID (rt_holder s)))))"
    using tripleD [OF perform_triple [OF assms(3)] _ assms(1)] assms(2)
    by (auto simp: script.within_def script.logged_def granted_result_def script.granted_def split: sum.splits option.splits)
  then show ?thesis using disordered_grant by metis
qed

text \<open>
  (C15) Every compare-and-swap of an acquisition, an approved acquisition, a promotion or a graceful release
  is a step of the leadership protocol for the Pod that runs it: it displaces another leader only
  after the takeover fence verifier accepted that leader, turns its own discovery into leadership only after
  the recovery or the fresh-installation verifier succeeded, and gives the Lease up only after its own
  leadership context was cancelled. A result that allows mutation comes with such an update; it makes
  the Pod the leader, or it hands over a released Lease that still carries a discovery marker, which the
  released branch does not read: the Pod may then mutate under a Lease that still reads as provisional.
\<close>

theorem runtime_refines_protocol:
  assumes "perform operation (w, s) = (r, (w', s'))" and "sc_log w = []" and "HolderEvidence_Validate (rt_holder s) = None"
  shows "conforms (he_PodUID (rt_holder s)) (sc_log w')
    \<and> (\<forall>result. r = Inr (Some result) \<longrightarrow> ar_MutationAllowed result \<longrightarrow>
         (\<exists>cur nxt. Attempted cur nxt \<in> set (sc_log w') \<and> (lease_view nxt = Leading (he_PodUID (rt_holder s))
            \<or> lease_view cur = Disordered \<and> lease_view nxt = Provisional (he_PodUID (rt_holder s)))))"
  using perform_granted [OF assms] .

section \<open>A cluster of Pods\<close>

text \<open>
  The Lease of an installation, the Pods that the takeover verifier of a committed update accepted as fenced,
  and the Pods that may hold an uncancelled leadership context. A Pod counts as leading from the moment
  the API server commits an update that names it as holder, a provisional one included, until its
  context is cancelled.
\<close>

record cluster =
  cl_lease :: LeaseSnapshot
  cl_fenced :: "string set"
  cl_leaders :: "string set"

text \<open>
  The API server commits an update of the Pod \<open>p\<close> only when \<open>p\<close> read the present Lease; the committed
  generation gets a new resource version. \<open>earlier\<close> is what the operation did before the update.
\<close>

definition commit :: "cluster \<Rightarrow> string \<Rightarrow> lease_event list \<Rightarrow> LeaseSnapshot \<Rightarrow> string \<Rightarrow> cluster" where
  "commit c p earlier nxt version = \<lparr>cl_lease = nxt\<lparr>ls_ResourceVersion := version\<rparr>,
     cl_fenced = cl_fenced c \<union> {q. Fenced q \<in> set earlier},
     cl_leaders = (if Stopped \<in> set earlier then cl_leaders c - {p} else cl_leaders c)
       \<union> (if ls_HolderIdentity nxt = p then {p} else {})\<rparr>"

text \<open>
  The Pods acquire, take over, promote, release and journal in any order, each operation against any answers
  of its boundary, and any Pod may stop at any time. Nothing else changes the Lease.
\<close>

inductive cluster_step :: "cluster \<Rightarrow> cluster \<Rightarrow> bool" where
  runtime_update: "cluster_step c (commit c (he_PodUID (rt_holder s)) earlier nxt version)"
    if "perform operation (w, s) = (r, (w', s'))" "sc_log w = []" "HolderEvidence_Validate (rt_holder s) = None"
      "sc_log w' = later @ Attempted (cl_lease c) nxt # earlier"
| session_update: "cluster_step c (commit c (he_PodUID h) earlier nxt version)"
    if "write_journal h duration entry (w, session) = (r, (w', session'))" "sc_log w = []" "HolderEvidence_Validate h = None" "owns h session"
      "sc_log w' = later @ Attempted (cl_lease c) nxt # earlier"
| stop: "cluster_step c (c\<lparr>cl_leaders := cl_leaders c - {p}\<rparr>)"

inductive cluster_reach :: "cluster \<Rightarrow> bool" where
  start: "cluster_reach \<lparr>cl_lease = lease, cl_fenced = {}, cl_leaders = {}\<rparr>"
| step: "cluster_reach c'" if "cluster_reach c" "cluster_step c c'"

fun single :: "lease_view \<Rightarrow> string set \<Rightarrow> string set \<Rightarrow> bool" where
  "single (Leading p) leaders fenced \<longleftrightarrow> leaders - fenced \<subseteq> {p}"
| "single (Provisional p) leaders fenced \<longleftrightarrow> leaders - fenced \<subseteq> {p}"
| "single _ leaders fenced \<longleftrightarrow> leaders \<subseteq> fenced"

abbreviation cluster_ok :: "cluster \<Rightarrow> bool" where
  "cluster_ok c \<equiv> single (lease_view (cl_lease c)) (cl_leaders c) (cl_fenced c)"

text \<open>
  Every step of the protocol keeps the invariant: only the holder that the Lease names may lead without being
  fenced, and an unheld Lease has no such leader, so neither verifier of a recovery is needed for it.
\<close>

lemma single_lease_step:
  assumes "lease_step p X v v'" and "single v L F" and "N \<subseteq> {p}" and "v' \<noteq> Leading p \<Longrightarrow> v' \<noteq> Provisional p \<Longrightarrow> N = {}"
  shows "single v' ((if Stopped \<in> X then L - {p} else L) \<union> N) (F \<union> {q. Fenced q \<in> X})"
  using assms by (induction rule: lease_step.induct) (auto split: if_splits)

lemma named_view: "ls_HolderIdentity nxt = p \<Longrightarrow> p \<noteq> [] \<Longrightarrow> lease_view nxt = Leading p \<or> lease_view nxt = Provisional p"
  by (simp add: lease_view_def)

lemma commit_single:
  assumes "cluster_ok c" and "lease_step p (set earlier) (lease_view (cl_lease c)) (lease_view nxt)" and "p \<noteq> []"
  shows "cluster_ok (commit c p earlier nxt version)"
proof -
  have "annots (nxt\<lparr>ls_ResourceVersion := version\<rparr>) = annots nxt" by (simp add: annots_def)
  then have v: "lease_view (nxt\<lparr>ls_ResourceVersion := version\<rparr>) = lease_view nxt" by (simp only: lease_view_def) simp
  show ?thesis
    unfolding commit_def cluster.simps v
    by (rule single_lease_step [OF assms(2,1)]) (use named_view [of nxt p] assms(3) in auto)
qed

lemma cluster_single: "cluster_reach c \<Longrightarrow> cluster_ok c"
proof (induction rule: cluster_reach.induct)
  case (start lease)
  then show ?case by (cases "lease_view lease") simp_all
next
  case (step c c')
  from step(2,3) show ?case
  proof (cases rule: cluster_step.cases)
    case (runtime_update operation w s r w' s' later nxt earlier version)
    have "conforms (he_PodUID (rt_holder s)) (sc_log w')"
      using perform_granted [OF runtime_update(2-4)] by blast
    then show ?thesis
      unfolding runtime_update(1)
      by (intro commit_single [OF step(3) _ holder_named [OF runtime_update(4)]] conforms_split) (simp add: runtime_update(5))
  next
    case (session_update h duration entry w session r w' session' later nxt earlier version)
    have "conforms (he_PodUID h) (sc_log w')"
      using tripleD [OF journal_keeps [OF session_update(4)] _ session_update(2)] session_update(3,5)
      by (auto simp: script.within_def script.logged_def split: sum.splits)
    then show ?thesis
      unfolding session_update(1)
      by (intro commit_single [OF step(3) _ holder_named [OF session_update(4)]] conforms_split) (simp add: session_update(6))
  next
    case (stop p)
    then show ?thesis using step(3) by (cases "lease_view (cl_lease c)") auto
  qed
qed

text \<open>
  (C3) At most one controller leads. Whatever the Lease store, the provider, the clock and the other Pods
  answer, and in whatever order the Pods acquire, promote, journal, release and take over the Lease or
  stop, at most one Pod that no committed takeover had verified as fenced may hold an uncancelled leadership
  context. The Lease is changed by Pods that run this code only: when an operator deletes it, the
  exclusion rests on the recovery and fresh-installation verifiers, of which nothing is assumed here.
\<close>

theorem single_leader:
  assumes "cluster_reach c" and "p \<in> cl_leaders c - cl_fenced c"
  shows "cl_leaders c - cl_fenced c = {p}"
  using cluster_single [OF assms(1)] assms(2) by (cases "lease_view (cl_lease c)") auto

lemma acquisition_attempt:
  assumes "PlanAutomaticAcquisition lease (rt_holder s) durable = Inr plan" and "ap_Mode plan \<noteq> AcquisitionProvisionalRecovery"
    and "rt_session s = None" "\<not> rt_released s"
  defines "w \<equiv> \<lparr>sc_checks = [Inr ()], sc_loads = [Inr lease], sc_updates = [], sc_joins = [], sc_times = [], sc_log = []\<rparr>"
  shows "\<exists>r w' s'. perform (Acquisition durable) (w, s) = (r, (w', s'))
    \<and> sc_log w' = [Attempted lease (with_holder lease (ap_HolderIdentity plan) (ap_Annotations plan))]"
proof -
  have "requireDrainedSession s = None" using assms(3,4) by (simp add: requireDrainedSession_def)
  moreover have "mark_provisional (rt_holder s) t plan = Inr (ap_Annotations plan)" for t using assms(2) by (simp add: mark_provisional_def)
  ultimately show ?thesis
    using assms(1)
    by (simp add: w_def Acquire_def andthen_def outer_def state_def guard_def lift_def scripted_def check_answer_def answer_def clock_now_def
        install_def attempt_def rereadHolderUpdate_def ret_def fail_def)
qed

definition sample_runtime :: LeaseRuntime where
  "sample_runtime = \<lparr>rt_holder = sample_successor, rt_timing = DefaultLeaseTiming, rt_session = None, rt_released = False,
     rt_releaseRequest = [], rt_releaseSnapshot = \<lparr>ls_UID = [], ls_ResourceVersion = [], ls_HolderIdentity = [], ls_Annotations = None\<rparr>\<rparr>"

definition sample_script :: "LeaseSnapshot \<Rightarrow> lease_script" where
  "sample_script lease = \<lparr>sc_checks = [Inr ()], sc_loads = [Inr lease], sc_updates = [], sc_joins = [], sc_times = [], sc_log = []\<rparr>"

text \<open>The sample holder renews its Lease, releases it, and a successor acquires it, each over an update without acknowledgement.\<close>

lemma sample_renewal:
  "\<exists>r w' s'. perform (Acquisition True) (sample_script sample_lease, sample_runtime\<lparr>rt_holder := sample_holder\<rparr>) = (r, (w', s'))
     \<and> sc_log w' = [Attempted sample_lease sample_lease]"
proof -
  have put_twice: "put (holder_annotations h) (put (holder_annotations h) a) = put (holder_annotations h) a" for h a
    by (rule fmap_ext) (simp add: fmlookup_put split: option.split)
  have plan: "PlanAutomaticAcquisition sample_lease sample_holder True =
      Inr (granting_plan AcquisitionSameHolder sample_holder (annots sample_lease))"
    using sample_holder_ok(1) sample_lease_ok
    by (simp add: PlanAutomaticAcquisition_def sample_lease_groups plan_held_def applyHolderEvidence_def HolderEvidence_Annotations_def)
      (simp add: sample_lease_def annots_def put_twice sample_holder_def sample_uuid_def ensure_is_def)
  have same: "with_holder sample_lease (he_PodUID sample_holder) (annots sample_lease) = sample_lease"
    by (simp add: with_holder_def sample_lease_def annots_def sample_holder_def)
  have "\<exists>r w' s'. perform (Acquisition True) (sample_script sample_lease, sample_runtime\<lparr>rt_holder := sample_holder\<rparr>) = (r, (w', s'))
      \<and> sc_log w' = [Attempted sample_lease (with_holder sample_lease (ap_HolderIdentity (granting_plan AcquisitionSameHolder sample_holder (annots sample_lease)))
          (ap_Annotations (granting_plan AcquisitionSameHolder sample_holder (annots sample_lease))))]"
    unfolding sample_script_def by (rule acquisition_attempt) (use plan in \<open>simp_all add: sample_runtime_def granting_plan_def\<close>)
  then show ?thesis by (simp add: granting_plan_def same)
qed

lemma release_attempt:
  assumes "PlanGracefulRelease lease (rt_holder s) requestID sample_instant 0 False = Inr released" and "ValidateOperationID requestID = None"
    and "rt_session s = Some session" "\<not> rt_released s" "se_mutationAllowed session" "\<not> se_runStarted session"
      "ls_UID (se_snapshot session) = ls_UID lease" "ls_HolderIdentity lease \<noteq> []"
    and "g_quiesceID gate = requestID" "g_inflight gate = 0"
  defines "w \<equiv> \<lparr>sc_checks = [Inr (), Inr ()], sc_loads = [Inr lease], sc_updates = [], sc_joins = [], sc_times = [], sc_log = []\<rparr>"
  shows "\<exists>r w' s'. perform (GracefulStop requestID gate gate False) (w, s) = (r, (w', s')) \<and> sc_log w' = [Attempted lease released, Stopped]"
  using assms(1-10)
  by (simp add: w_def ReleaseGracefully_def Stop_def andthen_def outer_def state_def guard_def lift_def scripted_def check_answer_def answer_def
      clock_now_def attempt_def ret_def fail_def wrapped_def wrap_res_def cancel_leadership_def modify_def)

definition sample_session :: LeadershipSession where
  "sample_session = \<lparr>se_mutationAllowed = True, se_snapshot = sample_lease, se_lastSuccess = sample_instant, se_runStarted = False,
     se_cancelled = False, se_done = False, se_runErr = None\<rparr>"

lemma sample_release_run:
  "\<exists>released r w' s'. perform (GracefulStop sample_uuid2 ((fresh_gate 1)\<lparr>g_quiesceID := sample_uuid2\<rparr>) ((fresh_gate 1)\<lparr>g_quiesceID := sample_uuid2\<rparr>) False)
       ((sample_script sample_lease)\<lparr>sc_checks := [Inr (), Inr ()]\<rparr>, sample_runtime\<lparr>rt_holder := sample_holder, rt_session := Some sample_session\<rparr>) = (r, (w', s'))
     \<and> sc_log w' = [Attempted sample_lease released, Stopped]
     \<and> PlanGracefulRelease sample_lease sample_holder sample_uuid2 sample_instant 0 False = Inr released"
proof -
  obtain released where r: "PlanGracefulRelease sample_lease sample_holder sample_uuid2 sample_instant 0 False = Inr released"
    using sample_release by blast
  show ?thesis
    using release_attempt [where lease = sample_lease and released = released and requestID = sample_uuid2 and session = sample_session
        and s = "sample_runtime\<lparr>rt_holder := sample_holder, rt_session := Some sample_session\<rparr>" and gate = "(fresh_gate 1)\<lparr>g_quiesceID := sample_uuid2\<rparr>"]
      r sample_uuid2_ok
    by (simp add: sample_session_def sample_runtime_def sample_script_def fresh_gate_def ValidateOperationID_def) (simp add: sample_lease_def sample_uuid_def)
qed

lemma sample_handoff:
  assumes "PlanGracefulRelease sample_lease sample_holder sample_uuid2 sample_instant 0 False = Inr released"
  shows "\<exists>nxt r w' s'. perform (Acquisition True) (sample_script (released\<lparr>ls_ResourceVersion := ''8''\<rparr>), sample_runtime) = (r, (w', s'))
     \<and> sc_log w' = [Attempted (released\<lparr>ls_ResourceVersion := ''8''\<rparr>) nxt] \<and> lease_view nxt = Leading (he_PodUID sample_successor)
     \<and> ls_HolderIdentity nxt = he_PodUID sample_successor"
proof -
  let ?l = "released\<lparr>ls_ResourceVersion := ''8''\<rparr>"
  obtain plan where plan: "PlanAutomaticAcquisition ?l sample_successor True = Inr plan" "ap_MutationAllowed plan"
    "ap_Mode plan = AcquisitionGracefulHandoff" "ap_HolderIdentity plan = he_PodUID sample_successor"
    using handoff_plan [OF assms sample_lease_clean sample_holder_ok(2), of "''8''" True] by (auto simp: sample_successor_def)
  have empty: "ls_HolderIdentity ?l = []" "\<not> discovering (annots ?l)"
    using assms sample_lease_groups(4) discovering_parse(1)
    by (auto simp: PlanGracefulRelease_def GracefulRelease_Annotations_def annots_def discovering_writes)
  then have view: "lease_view ?l \<noteq> Disordered" by (auto simp: lease_view_def split: sum.splits option.splits)
  have "lease_view (with_holder ?l (ap_HolderIdentity plan) (ap_Annotations plan)) = Leading (he_PodUID sample_successor)"
    using automatic_step [OF plan(1), of sample_instant] plan(2,3) view by (simp add: mark_provisional_def)
  moreover have "\<exists>r w' s'. perform (Acquisition True) (sample_script ?l, sample_runtime) = (r, (w', s'))
      \<and> sc_log w' = [Attempted ?l (with_holder ?l (ap_HolderIdentity plan) (ap_Annotations plan))]"
    unfolding sample_script_def by (rule acquisition_attempt) (use plan in \<open>simp_all add: sample_runtime_def\<close>)
  moreover have "ls_HolderIdentity (with_holder ?l (ap_HolderIdentity plan) (ap_Annotations plan)) = he_PodUID sample_successor"
    by (simp add: with_holder_def plan(4))
  ultimately show ?thesis by blast
qed

theorem runtime_refines_protocol_witness:
  "\<exists>lease nxt r w' s'. perform (Acquisition True) (sample_script lease, sample_runtime) = (r, (w', s')) \<and> sc_log w' = [Attempted lease nxt]
     \<and> lease_step (he_PodUID sample_successor) {} (lease_view lease) (lease_view nxt) \<and> lease_view nxt = Leading (he_PodUID sample_successor)"
proof -
  obtain released where rel: "PlanGracefulRelease sample_lease sample_holder sample_uuid2 sample_instant 0 False = Inr released"
    using sample_release by blast
  obtain nxt r w' s' where run: "perform (Acquisition True) (sample_script (released\<lparr>ls_ResourceVersion := ''8''\<rparr>), sample_runtime) = (r, (w', s'))"
    and log: "sc_log w' = [Attempted (released\<lparr>ls_ResourceVersion := ''8''\<rparr>) nxt]" "lease_view nxt = Leading (he_PodUID sample_successor)"
    using sample_handoff [OF rel] by blast
  have "lease_step (he_PodUID sample_successor) {} (lease_view (released\<lparr>ls_ResourceVersion := ''8''\<rparr>)) (lease_view nxt)"
    using runtime_refines_protocol [OF run] log(1) sample_holder_ok(2) by (simp add: sample_script_def sample_runtime_def)
  then show ?thesis using run log by blast
qed

lemma sample_leader:
  "\<exists>c. cluster_reach c \<and> cl_lease c = sample_lease \<and> cl_leaders c = {he_PodUID sample_holder} \<and> cl_fenced c = {}"
proof -
  obtain r w' s' where run: "perform (Acquisition True) (sample_script sample_lease, sample_runtime\<lparr>rt_holder := sample_holder\<rparr>) = (r, (w', s'))"
    and log: "sc_log w' = [] @ Attempted sample_lease sample_lease # []"
    using sample_renewal by auto
  let ?c = "\<lparr>cl_lease = sample_lease, cl_fenced = {}, cl_leaders = {}\<rparr>"
  have "cluster_step ?c (commit ?c (he_PodUID (rt_holder (sample_runtime\<lparr>rt_holder := sample_holder\<rparr>))) [] sample_lease ''7'')"
    by (rule cluster_step.runtime_update [OF run]) (use log sample_holder_ok(1) in \<open>simp_all add: sample_script_def\<close>)
  then have "cluster_reach (commit ?c (he_PodUID sample_holder) [] sample_lease ''7'')"
    using cluster_reach.step [OF cluster_reach.start] by simp
  moreover have "commit ?c (he_PodUID sample_holder) [] sample_lease ''7'' = \<lparr>cl_lease = sample_lease, cl_fenced = {}, cl_leaders = {he_PodUID sample_holder}\<rparr>"
    by (simp add: commit_def sample_lease_def sample_holder_def)
  ultimately show ?thesis by (metis cluster.simps(1-3))
qed

lemma sample_released:
  "\<exists>c released. cluster_reach c \<and> cl_lease c = released\<lparr>ls_ResourceVersion := ''8''\<rparr> \<and> cl_leaders c = {} \<and> cl_fenced c = {}
     \<and> PlanGracefulRelease sample_lease sample_holder sample_uuid2 sample_instant 0 False = Inr released"
proof -
  obtain c where c: "cluster_reach c" "cl_lease c = sample_lease" "cl_leaders c = {he_PodUID sample_holder}" "cl_fenced c = {}"
    using sample_leader by blast
  let ?s = "sample_runtime\<lparr>rt_holder := sample_holder, rt_session := Some sample_session\<rparr>"
  obtain released r w' s' where run: "perform (GracefulStop sample_uuid2 ((fresh_gate 1)\<lparr>g_quiesceID := sample_uuid2\<rparr>) ((fresh_gate 1)\<lparr>g_quiesceID := sample_uuid2\<rparr>) False)
       ((sample_script sample_lease)\<lparr>sc_checks := [Inr (), Inr ()]\<rparr>, ?s) = (r, (w', s'))"
    and log: "sc_log w' = [Attempted sample_lease released, Stopped]"
    and rel: "PlanGracefulRelease sample_lease sample_holder sample_uuid2 sample_instant 0 False = Inr released"
    using sample_release_run by blast
  have "cluster_step c (commit c (he_PodUID (rt_holder ?s)) [Stopped] released ''8'')"
    by (rule cluster_step.runtime_update [OF run]) (use log c(2) sample_holder_ok(1) in \<open>simp_all add: sample_script_def\<close>)
  then have reach: "cluster_reach (commit c (he_PodUID sample_holder) [Stopped] released ''8'')" using cluster_reach.step [OF c(1)] by simp
  have "ls_HolderIdentity released = []" using rel by (auto simp: PlanGracefulRelease_def)
  then have "commit c (he_PodUID sample_holder) [Stopped] released ''8'' = \<lparr>cl_lease = released\<lparr>ls_ResourceVersion := ''8''\<rparr>, cl_fenced = {}, cl_leaders = {}\<rparr>"
    using holder_named [OF sample_holder_ok(1)] by (simp add: commit_def c)
  then show ?thesis using reach rel by (metis cluster.simps(1-3))
qed

theorem single_leader_witness:
  "\<exists>c c'. cluster_reach c \<and> cl_leaders c - cl_fenced c = {he_PodUID sample_holder}
     \<and> cluster_reach c' \<and> cl_leaders c' - cl_fenced c' = {he_PodUID sample_successor}"
proof -
  let ?p = "he_PodUID sample_successor"
  obtain b where b: "cluster_reach b" "cl_leaders b = {he_PodUID sample_holder}" "cl_fenced b = {}" using sample_leader by blast
  obtain c released where c: "cluster_reach c" "cl_lease c = released\<lparr>ls_ResourceVersion := ''8''\<rparr>" "cl_fenced c = {}"
    and rel: "PlanGracefulRelease sample_lease sample_holder sample_uuid2 sample_instant 0 False = Inr released"
    using sample_released by blast
  obtain nxt r w' s' where run: "perform (Acquisition True) (sample_script (released\<lparr>ls_ResourceVersion := ''8''\<rparr>), sample_runtime) = (r, (w', s'))"
    and log: "sc_log w' = [Attempted (released\<lparr>ls_ResourceVersion := ''8''\<rparr>) nxt]" and named: "ls_HolderIdentity nxt = ?p"
    using sample_handoff [OF rel] by blast
  have "cluster_step c (commit c (he_PodUID (rt_holder sample_runtime)) [] nxt ''9'')"
    by (rule cluster_step.runtime_update [OF run]) (use log c(2) sample_holder_ok(2) in \<open>simp_all add: sample_script_def sample_runtime_def\<close>)
  then have reach: "cluster_reach (commit c ?p [] nxt ''9'')" using cluster_reach.step [OF c(1)] by (simp add: sample_runtime_def)
  have "?p \<in> cl_leaders (commit c ?p [] nxt ''9'') - cl_fenced (commit c ?p [] nxt ''9'')" by (simp add: commit_def named c(3))
  from single_leader [OF reach this] single_leader [OF b(1), of "he_PodUID sample_holder"] reach b show ?thesis by auto
qed

end
