(* ===== verification/Services.thy ===== *)
theory Services
  imports LifecyclePairs KubernetesStore
begin

text \<open>
  The interfaces that the lifecycle controllers of \<^verbatim>\<open>pkg/driver\<close> call, as records of actions, and
  their contract for one volume as the locale \<open>record_services\<close>: the allocation store is a
  compare-and-swap cell (\<^verbatim>\<open>AllocationStore\<close> of \<^verbatim>\<open>create.go\<close>), the ownership store another one
  (\<^verbatim>\<open>LifecycleOwnershipStore\<close> of \<^verbatim>\<open>delete.go\<close>), each guarded by the update check of its record
  family, and a call that fails may or may not have been applied. The locale knows nothing of how
  the stores are implemented; a controller proved against it is correct over every store that
  keeps the contract. The context argument of the Go calls is not modelled: its
  cancellation is one more way for a call to fail.
\<close>

section \<open>Stored records and interfaces\<close>

record 'w AllocationStore =
  store_Get :: "string \<Rightarrow> ('w, StoredAllocation) act"
  store_Create :: "AllocationRecord \<Rightarrow> ('w, StoredAllocation) act"
  store_Update :: "StoredAllocation \<Rightarrow> AllocationRecord \<Rightarrow> ('w, StoredAllocation) act"

record 'w LifecycleOwnershipStore =
  owner_Load :: "DetailedAllocationRecord \<Rightarrow> ('w, OwnershipRecord) act"
  owner_UpdateDetailed :: "DetailedOwnershipRecord \<Rightarrow> DetailedOwnershipRecord \<Rightarrow> ('w, unit) act"
  owner_Compact :: "DetailedOwnershipRecord \<Rightarrow> CompactDeletedOwnershipRecord \<Rightarrow> ('w, unit) act"

text \<open>
  What every controller shares: the mutation gate, the per-volume locks, the clock and the source
  of operation identifiers. A release function is the world after the release.
\<close>

record 'w Process =
  gate_Acquire :: "('w, unit) act"
  gate_release :: "'w \<Rightarrow> 'w"
  locks_Lock :: "string \<Rightarrow> ('w, unit) act"
  locks_unlock :: "string \<Rightarrow> 'w \<Rightarrow> 'w"
  clock_Now :: "'w \<Rightarrow> civil_time \<times> 'w"
  ids_New :: "('w, string) act"

section \<open>Shared steps\<close>

text \<open>The type assertion \<^verbatim>\<open>stored.Record.(*volume.DetailedAllocationRecord)\<close>, which panics on another kind.\<close>

definition detailed_of :: "StoredAllocation \<Rightarrow> DetailedAllocationRecord res" where
  "detailed_of stored =
     (case sa_Record stored of DetailedA a \<Rightarrow> Inr a | _ \<Rightarrow> Inl (errorf ''panic: interface conversion''))"

definition canonicalNow :: "'w Process \<Rightarrow> ('w, string) act" where
  "canonicalNow p = (\<lambda>w. case clock_Now p w of (t, w') \<Rightarrow> (Inr (format_rfc3339 t), w'))"

text \<open>Mutation admission and the volume lock around an operation, both released by \<^verbatim>\<open>defer\<close>.\<close>

definition locked :: "'w Process \<Rightarrow> string \<Rightarrow> ('w, 'a) act \<Rightarrow> ('w, 'a) act" where
  "locked p key body =
     andthen (gate_Acquire p) (\<lambda>_.
       deferred (gate_release p)
         (andthen (locks_Lock p key) (\<lambda>_.
            deferred (locks_unlock p key) body)))"

lemma detailed_of_simps [simp]: "detailed_of s = Inr a \<longleftrightarrow> sa_Record s = DetailedA a"
  by (auto simp: detailed_of_def split: AllocationRecord.splits)

lemma detailed_of_detailed: "sa_Record s = DetailedA a \<Longrightarrow> detailed_of s = Inr a"
  by simp

lemma consistent_detailed:
  "startup_consistent (Some (DetailedA a)) (Some (DetailedO d)) \<longleftrightarrow>
     startup_detailed_pair a d = None \<and> (a_State a = StateDeleted \<longrightarrow> slice_len (a_PublishedNodeIDs a) = 0)"
  using startup_pair_identity [of a d] by (auto simp: startup_pair_detailed)

lemma consistent_compact:
  "startup_consistent (Some (DetailedA a)) (Some (CompactO k)) \<Longrightarrow> a_State a = StateDeleted"
  by (simp add: ValidateLifecyclePairForStartup_def)

lemma consistent_none:
  "startup_consistent (Some (DetailedA a)) None \<Longrightarrow> a_State a = StateReserved \<or> a_State a = StateCreatingDirectory"
  by (simp add: startup_pair_none)

declare startup_consistent.simps(1) [simp del]

lemma format_rfc3339_nonempty: "format_rfc3339 t \<noteq> []"
  by (simp add: format_rfc3339_def Let_def)

text \<open>
  Ownership that can stand alone, when the allocation is lost: the driver mirrors a collection request
  only together with the operation that executes it.
\<close>

fun recoverable :: "OwnershipRecord option \<Rightarrow> bool" where
  "recoverable (Some (DetailedO d)) \<longleftrightarrow> o_GCRequestID d = [] \<or> o_GCOperationID d \<noteq> []"
| "recoverable _ \<longleftrightarrow> True"

section \<open>The contract of the two stores\<close>

locale record_services =
  fixes store :: "'w AllocationStore" and owners :: "'w LifecycleOwnershipStore" and proc :: "'w Process"
    and vid :: string \<comment> \<open>the volume\<close>
    and alloc :: "'w \<Rightarrow> StoredAllocation option" and own :: "'w \<Rightarrow> OwnershipRecord option"
      \<comment> \<open>its durable records\<close>
    and safe :: "'w \<Rightarrow> bool" \<comment> \<open>every removal of data so far was authorised\<close>
  assumes get: "store_Get store vid w = (r, w') \<Longrightarrow>
      alloc w' = alloc w \<and> own w' = own w \<and> (safe w \<longrightarrow> safe w') \<and> (\<forall>s. r = Inr s \<longrightarrow> alloc w = Some s)"
    and create: "Allocation_LogicalID rec = vid \<Longrightarrow> store_Create store rec w = (r, w') \<Longrightarrow>
      own w' = own w \<and> (safe w \<longrightarrow> safe w') \<and>
      (alloc w' = alloc w \<and> (\<exists>e. r = Inl e)
       \<or> (\<exists>s'. alloc w = None \<and> alloc w' = Some s' \<and> sa_Record s' = rec \<and> (\<forall>x. r = Inr x \<longrightarrow> x = s')))"
    and update: "alloc w = Some s \<Longrightarrow> store_Update store s nxt w = (r, w') \<Longrightarrow>
      own w' = own w \<and> (safe w \<longrightarrow> safe w') \<and>
      (alloc w' = alloc w \<and> (\<exists>e. r = Inl e)
       \<or> (\<exists>s'. alloc w' = Some s' \<and> sa_Record s' = nxt
            \<and> ValidateAllocationUpdate (Some (sa_Record s)) (Some nxt) = None \<and> (\<forall>x. r = Inr x \<longrightarrow> x = s')))"
    and load: "alloc w = Some s \<Longrightarrow> sa_Record s = DetailedA a \<Longrightarrow> owner_Load owners a w = (r', w') \<Longrightarrow>
      alloc w' = alloc w \<and> own w' = own w \<and> (safe w \<longrightarrow> safe w') \<and> (\<forall>x. r' = Inr x \<longrightarrow> own w = Some x)"
    and owner_update: "own w = Some (DetailedO d) \<Longrightarrow> owner_UpdateDetailed owners d n w = (u, w') \<Longrightarrow>
      alloc w' = alloc w \<and> (safe w \<longrightarrow> safe w') \<and>
      (own w' = own w \<and> (\<exists>e. u = Inl e)
       \<or> own w' = Some (DetailedO n) \<and> ValidateOwnershipUpdate (Some (DetailedO d)) (Some (DetailedO n)) = None)"
    and owner_compact: "own w = Some (DetailedO d) \<Longrightarrow> owner_Compact owners d c w = (u, w') \<Longrightarrow>
      alloc w' = alloc w \<and> (safe w \<longrightarrow> safe w') \<and>
      (own w' = own w \<and> (\<exists>e. u = Inl e)
       \<or> own w' = Some (CompactO c) \<and> ValidateOwnershipUpdate (Some (DetailedO d)) (Some (CompactO c)) = None)"
    and acquire: "gate_Acquire proc w = (u, w') \<Longrightarrow> alloc w' = alloc w \<and> own w' = own w \<and> (safe w \<longrightarrow> safe w')"
    and release: "alloc (gate_release proc w) = alloc w \<and> own (gate_release proc w) = own w
      \<and> (safe w \<longrightarrow> safe (gate_release proc w))"
    and lock: "locks_Lock proc k w = (u, w') \<Longrightarrow> alloc w' = alloc w \<and> own w' = own w \<and> (safe w \<longrightarrow> safe w')"
    and unlock: "alloc (locks_unlock proc k w) = alloc w \<and> own (locks_unlock proc k w) = own w
      \<and> (safe w \<longrightarrow> safe (locks_unlock proc k w))"
    and now: "clock_Now proc w = (t, w') \<Longrightarrow> alloc w' = alloc w \<and> own w' = own w \<and> (safe w \<longrightarrow> safe w')"
    and ids: "ids_New proc w = (i, w') \<Longrightarrow> alloc w' = alloc w \<and> own w' = own w \<and> (safe w \<longrightarrow> safe w')"
begin

text \<open>The durable state of the volume, and the invariant of every run.\<close>

definition holds :: "StoredAllocation \<Rightarrow> OwnershipRecord option \<Rightarrow> 'w \<Rightarrow> bool" where
  "holds s o' w \<longleftrightarrow> alloc w = Some s \<and> own w = o' \<and> safe w"

definition consistent :: "'w \<Rightarrow> bool" where
  "consistent w \<longleftrightarrow> safe w \<and> startup_consistent (map_option sa_Record (alloc w)) (own w)
     \<and> (alloc w = None \<longrightarrow> recoverable (own w))"

text \<open>The records of the volume, present or not.\<close>

definition stands :: "StoredAllocation option \<Rightarrow> OwnershipRecord option \<Rightarrow> 'w \<Rightarrow> bool" where
  "stands a o' w \<longleftrightarrow> alloc w = a \<and> own w = o' \<and> safe w"

text \<open>An action that touches neither record.\<close>

definition quiet :: "('w, 'a) act \<Rightarrow> bool" where
  "quiet m \<longleftrightarrow> (\<forall>w r w'. m w = (r, w') \<longrightarrow> alloc w' = alloc w \<and> own w' = own w \<and> (safe w \<longrightarrow> safe w'))"

lemma quietD: "quiet m \<Longrightarrow> m w = (r, w') \<Longrightarrow> alloc w' = alloc w \<and> own w' = own w \<and> (safe w \<longrightarrow> safe w')"
  by (auto simp: quiet_def)

lemma quiet_holds: "quiet m \<Longrightarrow> triple (holds s o') m (\<lambda>_. holds s o') (\<lambda>_. holds s o')"
  by (rule tripleI) (auto simp: holds_def dest!: quietD split: sum.splits)

lemma quiet_stands: "quiet m \<Longrightarrow> keeps (stands a o') m"
  by (rule tripleI) (auto simp: stands_def dest!: quietD split: sum.splits)

lemma quiet_consistent: "quiet m \<Longrightarrow> keeps consistent m"
  by (rule tripleI) (auto simp: consistent_def dest!: quietD split: sum.splits)

text \<open>An effect outside the records that is authorised only while the volume holds the given ones.\<close>

definition quiet_at :: "StoredAllocation \<Rightarrow> OwnershipRecord option \<Rightarrow> ('w, 'a) act \<Rightarrow> bool" where
  "quiet_at s o' m \<longleftrightarrow> (\<forall>w r w'. alloc w = Some s \<longrightarrow> own w = o' \<longrightarrow> m w = (r, w') \<longrightarrow>
     alloc w' = alloc w \<and> own w' = own w \<and> (safe w \<longrightarrow> safe w'))"

lemma quiet_services: "quiet (canonicalNow proc)" "quiet (ids_New proc)" "quiet (gate_Acquire proc)" "quiet (locks_Lock proc k)"
  using now ids acquire lock by (auto simp: quiet_def canonicalNow_def split: prod.splits)

lemma holds_consistent:
  "holds s o' w \<Longrightarrow> startup_consistent (Some (sa_Record s)) o' \<Longrightarrow> consistent w"
  by (simp add: holds_def consistent_def)

text \<open>The triples of the store operations. A failed update leaves one of two states, both consistent.\<close>

lemma update_triple:
  assumes "startup_consistent (Some (sa_Record s)) o'"
    and "ValidateAllocationUpdate (Some (sa_Record s)) (Some nxt) = None \<Longrightarrow> startup_consistent (Some nxt) o'"
  shows "triple (holds s o') (store_Update store s nxt) (\<lambda>_. consistent)
     (\<lambda>s' w. holds s' o' w \<and> sa_Record s' = nxt \<and> ValidateAllocationUpdate (Some (sa_Record s)) (Some nxt) = None)"
proof (rule tripleI)
  fix w r w' assume "holds s o' w" and run: "store_Update store s nxt w = (r, w')"
  then have "alloc w = Some s" "own w = o'" "safe w" by (simp_all add: holds_def)
  then show "case r of Inl e \<Rightarrow> consistent w'
      | Inr s' \<Rightarrow> holds s' o' w' \<and> sa_Record s' = nxt \<and> ValidateAllocationUpdate (Some (sa_Record s)) (Some nxt) = None"
    using update [OF \<open>alloc w = Some s\<close> run] assms
    by (auto simp: consistent_def holds_def split: sum.splits)
qed

lemma update_then:
  assumes "startup_consistent (Some (sa_Record s)) o'"
    and "ValidateAllocationUpdate (Some (sa_Record s)) (Some nxt) = None \<Longrightarrow> startup_consistent (Some nxt) o'"
    and "\<And>s'. sa_Record s' = nxt \<Longrightarrow> ValidateAllocationUpdate (Some (sa_Record s)) (Some nxt) = None \<Longrightarrow>
      triple (holds s' o') (g s') (\<lambda>_. consistent) Q"
  shows "triple (holds s o') (andthen (store_Update store s nxt) g) (\<lambda>_. consistent) Q"
  by (rule triple_andthen [OF update_triple [OF assms(1,2)]], assumption, rule triple_fact2) (use assms(3) in blast)

lemma owner_update_triple:
  assumes "startup_consistent (Some (sa_Record s)) (Some (DetailedO d))"
    and "ValidateOwnershipUpdate (Some (DetailedO d)) (Some (DetailedO n)) = None \<Longrightarrow>
      startup_consistent (Some (sa_Record s)) (Some (DetailedO n))"
  shows "triple (holds s (Some (DetailedO d))) (owner_UpdateDetailed owners d n) (\<lambda>_. consistent)
     (\<lambda>_. holds s (Some (DetailedO n)))"
proof (rule tripleI)
  fix w r w' assume "holds s (Some (DetailedO d)) w" and run: "owner_UpdateDetailed owners d n w = (r, w')"
  then have "alloc w = Some s" "own w = Some (DetailedO d)" "safe w" by (simp_all add: holds_def)
  then show "case r of Inl e \<Rightarrow> consistent w' | Inr u \<Rightarrow> holds s (Some (DetailedO n)) w'"
    using owner_update [OF \<open>own w = Some (DetailedO d)\<close> run] assms
    by (auto simp: consistent_def holds_def split: sum.splits)
qed

lemma owner_compact_triple:
  assumes "startup_consistent (Some (sa_Record s)) (Some (DetailedO d))"
    and "startup_consistent (Some (sa_Record s)) (Some (CompactO c))"
  shows "triple (holds s (Some (DetailedO d))) (owner_Compact owners d c) (\<lambda>_. consistent)
     (\<lambda>_. holds s (Some (CompactO c)))"
proof (rule tripleI)
  fix w r w' assume "holds s (Some (DetailedO d)) w" and run: "owner_Compact owners d c w = (r, w')"
  then have "alloc w = Some s" "own w = Some (DetailedO d)" "safe w" by (simp_all add: holds_def)
  then show "case r of Inl e \<Rightarrow> consistent w' | Inr u \<Rightarrow> holds s (Some (CompactO c)) w'"
    using owner_compact [OF \<open>own w = Some (DetailedO d)\<close> run] assms
    by (auto simp: consistent_def holds_def split: sum.splits)
qed

lemma load_triple:
  assumes "sa_Record s = DetailedA a"
  shows "triple (holds s o') (owner_Load owners a) (\<lambda>_. holds s o') (\<lambda>x w. holds s o' w \<and> o' = Some x)"
  using load [OF _ assms] by (intro tripleI) (fastforce simp: holds_def split: sum.splits)

lemma load_then:
  assumes "sa_Record s = DetailedA a" and "startup_consistent (Some (sa_Record s)) o'"
    and "\<And>x. o' = Some x \<Longrightarrow> triple (holds s (Some x)) (f x) (\<lambda>_. consistent) Q"
  shows "triple (holds s o') (andthen (owner_Load owners a) f) (\<lambda>_. consistent) Q"
  by (rule triple_andthen [OF triple_post [OF load_triple [OF assms(1)]]], rule holds_consistent [OF _ assms(2)],
      assumption, assumption, rule triple_fact2) (use assms(3) in simp)

lemma get_triple:
  "triple consistent (store_Get store vid) (\<lambda>_. consistent)
     (\<lambda>s w. \<exists>o'. holds s o' w \<and> startup_consistent (Some (sa_Record s)) o')"
  using get by (intro tripleI) (fastforce simp: holds_def consistent_def split: sum.splits)

text \<open>What a controller knows after reading the volume's allocation: it is the stored one, and consistent.\<close>

definition found :: "StoredAllocation \<Rightarrow> 'w \<Rightarrow> bool" where
  "found s w \<longleftrightarrow> (\<exists>o'. holds s o' w \<and> startup_consistent (Some (sa_Record s)) o')"

lemma found_consistent: "found s w \<Longrightarrow> consistent w"
  by (auto simp: found_def holds_consistent)

lemma triple_found:
  "(\<And>o'. startup_consistent (Some (sa_Record s)) o' \<Longrightarrow> triple (holds s o') m E Q) \<Longrightarrow> triple (found s) m E Q"
  by (rule tripleI) (auto simp: found_def dest: tripleD)

lemma get_found: "triple consistent (store_Get store vid) (\<lambda>_. consistent) found"
  using get_triple by (simp add: found_def [abs_def])

lemma create_found:
  assumes "Allocation_LogicalID rec = vid"
  shows "triple (\<lambda>w. consistent w \<and> (alloc w = None \<longrightarrow> startup_consistent (Some rec) (own w)))
      (store_Create store rec) (\<lambda>_. consistent) found"
  using create [OF assms]
  by (intro tripleI) (fastforce simp: found_def holds_def consistent_def split: sum.splits)

lemma locked_triple:
  assumes "triple consistent body (\<lambda>_. consistent) (\<lambda>x w. consistent w \<and> Q x (alloc w) (own w))"
  shows "triple consistent (locked proc k body) (\<lambda>_. consistent) (\<lambda>x w. consistent w \<and> Q x (alloc w) (own w))"
proof -
  have r: "consistent w \<Longrightarrow> consistent (gate_release proc w)" "consistent w \<Longrightarrow> consistent (locks_unlock proc k w)" for w
    using release [of w] unlock [of k w] by (simp_all add: consistent_def)
  have "triple consistent (deferred (locks_unlock proc k) body)
      (\<lambda>_ w. consistent (gate_release proc w))
      (\<lambda>x w. consistent (gate_release proc w) \<and> Q x (alloc (gate_release proc w)) (own (gate_release proc w)))"
    by (rule triple_deferred, rule triple_post [OF assms]) (simp_all add: r release unlock)
  then have "triple consistent (andthen (locks_Lock proc k) (\<lambda>_. deferred (locks_unlock proc k) body))
      (\<lambda>_ w. consistent (gate_release proc w))
      (\<lambda>x w. consistent (gate_release proc w) \<and> Q x (alloc (gate_release proc w)) (own (gate_release proc w)))"
    by (rule triple_andthen [rotated, OF _ triple_post [OF quiet_consistent [OF quiet_services(4)]]])
      (simp_all add: r)
  then show ?thesis
    unfolding locked_def
    by (intro triple_andthen [OF quiet_consistent [OF quiet_services(3)]] triple_deferred)
qed

lemma stands_Some: "stands (Some s) o' = holds s o'"
  by (auto simp: stands_def holds_def)

lemma locked_stands:
  assumes "triple (stands a o') body (\<lambda>_. stands a o') (\<lambda>x w. stands a o' w \<and> Q x)"
  shows "triple (stands a o') (locked proc k body) (\<lambda>_. stands a o') (\<lambda>x w. stands a o' w \<and> Q x)"
proof -
  have r: "stands a o' w \<Longrightarrow> stands a o' (gate_release proc w)" "stands a o' w \<Longrightarrow> stands a o' (locks_unlock proc k w)" for w
    using release [of w] unlock [of k w] by (simp_all add: stands_def)
  have "triple (stands a o') (deferred (locks_unlock proc k) body) (\<lambda>_ w. stands a o' (gate_release proc w))
      (\<lambda>x w. stands a o' (gate_release proc w) \<and> Q x)"
    by (rule triple_deferred, rule triple_post [OF assms]) (simp_all add: r)
  then have "triple (stands a o') (andthen (locks_Lock proc k) (\<lambda>_. deferred (locks_unlock proc k) body))
      (\<lambda>_ w. stands a o' (gate_release proc w)) (\<lambda>x w. stands a o' (gate_release proc w) \<and> Q x)"
    by (rule triple_andthen [rotated, OF _ triple_post [OF quiet_stands [OF quiet_services(4)]]]) (simp_all add: r)
  then show ?thesis
    unfolding locked_def by (intro triple_andthen [OF quiet_stands [OF quiet_services(3)]] triple_deferred)
qed

lemma get_stands:
  "triple (stands (Some s) o') (store_Get store vid) (\<lambda>_. stands (Some s) o') (\<lambda>x w. stands (Some s) o' w \<and> x = s)"
  using get by (intro tripleI) (fastforce simp: stands_def split: sum.splits)

lemma now_triple:
  "triple (holds s o') (canonicalNow proc) (\<lambda>_. consistent) (\<lambda>n w. n \<noteq> [] \<and> holds s o' w)"
  if "startup_consistent (Some (sa_Record s)) o'"
  using quietD [OF quiet_services(1)] that
  by (intro tripleI) (fastforce simp: holds_def consistent_def canonicalNow_def format_rfc3339_nonempty split: sum.splits prod.splits)

lemma quiet_step:
  assumes "quiet m" and "startup_consistent (Some (sa_Record s)) o'"
  shows "triple (holds s o') m (\<lambda>_. consistent) (\<lambda>_. holds s o')"
  by (rule triple_post [OF quiet_holds [OF assms(1)]]) (auto intro: holds_consistent [OF _ assms(2)])

lemma effect_step:
  assumes "quiet_at s o' m" and "startup_consistent (Some (sa_Record s)) o'"
  shows "triple (holds s o') m (\<lambda>_. consistent) (\<lambda>_. holds s o')"
proof (rule tripleI)
  fix w r w' assume "holds s o' w" and "m w = (r, w')"
  then have "holds s o' w'" using assms(1) unfolding quiet_at_def holds_def by metis
  then show "case r of Inl e \<Rightarrow> consistent w' | Inr x \<Rightarrow> holds s o' w'"
    using holds_consistent [OF _ assms(2)] by (cases r) simp_all
qed

text \<open>Both records in the same state, with the pair check passed.\<close>

definition staged :: "string \<Rightarrow> StoredAllocation \<Rightarrow> DetailedAllocationRecord \<Rightarrow> DetailedOwnershipRecord \<Rightarrow> bool" where
  "staged st s a d \<longleftrightarrow> sa_Record s = DetailedA a \<and> startup_detailed_pair a d = None \<and> a_State a = st \<and> o_State d = st"

lemma staged_consistent:
  "staged st s a d \<Longrightarrow> st \<noteq> StateDeleted \<Longrightarrow> startup_consistent (Some (sa_Record s)) (Some (DetailedO d))"
  by (auto simp: staged_def consistent_detailed)

lemma stagedD:
  assumes "staged st s a d"
  shows "sa_Record s = DetailedA a" and "startup_detailed_pair a d = None" and "a_State a = st" and "o_State d = st"
  using assms by (simp_all add: staged_def)

text \<open>Compacting the ownership of a \<^verbatim>\<open>Deleted\<close> allocation.\<close>

lemma compact_triple:
  assumes rec: "sa_Record s = DetailedA a" and st: "a_State a = StateDeleted"
    and ok: "startup_consistent (Some (DetailedA a)) (Some (DetailedO d))" and k: "compactOwnershipFromDeleted a d = Inr k"
  shows "triple (holds s (Some (DetailedO d))) (owner_Compact owners d k) (\<lambda>_. consistent)
    (\<lambda>_ w. holds s (Some (CompactO k)) w \<and> startup_consistent (Some (DetailedA a)) (Some (CompactO k)))"
proof -
  have "startup_detailed_pair a d = None" "slice_len (a_PublishedNodeIDs a) = 0"
    using ok st by (simp_all add: consistent_detailed)
  then have "startup_consistent (Some (DetailedA a)) (Some (CompactO k))"
    using compact_window(1) [OF startup_pair_identity(2) st _ k] by (simp add: startup_consistent.simps)
  then show ?thesis
    using triple_post [OF owner_compact_triple [of s d k]] ok rec by auto
qed

text \<open>
  The two steps that restore the union of the published-node fences. They change of the allocation only its
  revision, its update time and its fences, and leave both fences equal to the union.
\<close>

definition refenced :: "DetailedAllocationRecord \<Rightarrow> DetailedAllocationRecord \<Rightarrow> bool" where
  "refenced a a' \<longleftrightarrow> (\<exists>v t ns. a' = a\<lparr>a_RecordRevision := v, a_UpdatedAt := t, a_PublishedNodeIDs := ns\<rparr>)"

lemma refenced_refl [simp]: "refenced a a"
  unfolding refenced_def
  by (rule exI [of _ "a_RecordRevision a"], rule exI [of _ "a_UpdatedAt a"], rule exI [of _ "a_PublishedNodeIDs a"]) simp

lemma fence_allocation_triple:
  assumes st: "staged st s a d" and live: "st \<noteq> StateDeleted"
  shows "triple (holds s (Some (DetailedO d)))
     (if \<not> slices_equal (a_PublishedNodeIDs a) u then
        andthen (canonicalNow proc) (\<lambda>now. store_Update store s
          (DetailedA (a\<lparr>a_RecordRevision := a_RecordRevision a + 1, a_UpdatedAt := now, a_PublishedNodeIDs := u\<rparr>)))
      else ret s) (\<lambda>_. consistent)
     (\<lambda>s' w. \<exists>a'. holds s' (Some (DetailedO d)) w \<and> (staged st s' a' d \<and> refenced a a' \<and> slices_equal (a_PublishedNodeIDs a') u))"
    (is "triple _ _ _ ?Q")
proof -
  have rec: "sa_Record s = DetailedA a" and pair: "startup_detailed_pair a d = None"
    and states: "a_State a = st" "o_State d = st" using st by (auto simp: staged_def)
  note ok = staged_consistent [OF st live]
  show ?thesis
  proof (intro triple_if triple_ret triple_andthen [OF now_triple [OF ok]])
    fix now
    let ?b = "a\<lparr>a_RecordRevision := a_RecordRevision a + 1, a_UpdatedAt := now, a_PublishedNodeIDs := u\<rparr>"
    have win: "startup_detailed_pair ?b d = None" if "ValidateAllocationUpdate (Some (DetailedA a)) (Some (DetailedA ?b)) = None"
      using fence_allocation_window [OF pair that refl] .
    have fence: "refenced a ?b \<and> slices_equal (a_PublishedNodeIDs ?b) u" by (auto simp: refenced_def slices_equal_def)
    show "triple (\<lambda>w. now \<noteq> [] \<and> holds s (Some (DetailedO d)) w) (store_Update store s (DetailedA ?b)) (\<lambda>_. consistent) ?Q"
      unfolding triple_fact
      by (intro impI triple_post [OF update_triple [OF ok]])
        (use win states live rec fence in \<open>auto simp: consistent_detailed staged_def\<close>)
  qed (use st in auto)
qed

lemma fence_ownership_triple:
  assumes live: "st \<noteq> StateDeleted"
  shows "triple (\<lambda>w. \<exists>a. holds s (Some (DetailedO d)) w \<and> (staged st s a d \<and> R a))
     (if \<not> slices_equal (o_PublishedNodeIDs d) u then
        andthen (lift (ownershipWithPublishedNodes d u)) (\<lambda>nxt.
          andthen (owner_UpdateDetailed owners d nxt) (\<lambda>_. ret (s, nxt)))
      else ret (s, d)) (\<lambda>_. consistent)
     (\<lambda>(s', d') w. \<exists>a. holds s' (Some (DetailedO d')) w \<and> (staged st s' a d' \<and> R a
       \<and> slices_equal (o_PublishedNodeIDs d') u \<and> o_GCOperationID d' = o_GCOperationID d))"
    (is "triple _ ?m _ ?Q")
proof (intro triple_ex triple_fact2)
  fix a assume "staged st s a d \<and> R a"
  then have st: "staged st s a d" and R: "R a" by simp_all
  note ok = staged_consistent [OF st live]
  have pair: "startup_detailed_pair a d = None" and rec: "sa_Record s = DetailedA a" "a_State a = st" "o_State d = st"
    using st by (auto simp: staged_def)
  show "triple (holds s (Some (DetailedO d))) ?m (\<lambda>_. consistent) ?Q"
  proof (intro triple_rules triple_andthen [OF owner_update_triple [OF ok]])
    fix nxt assume n: "ownershipWithPublishedNodes d u = Inr nxt"
    note win = fence_ownership_window(1-3,6) [OF pair n]
    show "startup_consistent (Some (sa_Record s)) (Some (DetailedO nxt))"
      using win rec live by (auto simp: consistent_detailed)
    show "holds s (Some (DetailedO nxt)) w \<Longrightarrow> ?Q (s, nxt) w" for w
      using win rec R by (auto simp: staged_def slices_equal_def)
  qed (use holds_consistent [OF _ ok] st R in auto)
qed

lemma fence_union_steps:
  assumes "staged st s a d" and "st \<noteq> StateDeleted"
  shows "triple (holds s (Some (DetailedO d)))
     (andthen
        (if \<not> slices_equal (a_PublishedNodeIDs a) u then
           andthen (canonicalNow proc) (\<lambda>now. store_Update store s
             (DetailedA (a\<lparr>a_RecordRevision := a_RecordRevision a + 1, a_UpdatedAt := now, a_PublishedNodeIDs := u\<rparr>)))
         else ret s) (\<lambda>s.
        if \<not> slices_equal (o_PublishedNodeIDs d) u then
          andthen (lift (ownershipWithPublishedNodes d u)) (\<lambda>nxt.
            andthen (owner_UpdateDetailed owners d nxt) (\<lambda>_. ret (s, nxt)))
        else ret (s, d))) (\<lambda>_. consistent)
     (\<lambda>(s', d') w. \<exists>a'. holds s' (Some (DetailedO d')) w \<and> (staged st s' a' d'
        \<and> (refenced a a' \<and> slices_equal (a_PublishedNodeIDs a') u)
        \<and> slices_equal (o_PublishedNodeIDs d') u \<and> o_GCOperationID d' = o_GCOperationID d))"
  by (rule triple_andthen [OF fence_allocation_triple [OF assms] fence_ownership_triple [OF assms(2)]])

end

section \<open>Every behaviour of the services\<close>

text \<open>
  The services of one volume that answer from a script. Each call takes the next outcome: it is
  applied, refused with an error, or applied with its answer lost. Both stores compare the expected
  generation and run the update check of their record family, as \<^verbatim>\<open>allocation_store.go\<close> and
  \<^verbatim>\<open>durable.go\<close> do; the theorems of \<open>KubernetesStore\<close> and \<open>MetadataWriter\<close> show that those stores behave so.
  A controller sees of its services only their answers, so each of its runs is the run of a script.
\<close>

datatype outcome = Applied | Refused error | Lost error

text \<open>An effect on the directory of the volume: a rename or a removal.\<close>

datatype effect = Moved | Removed

record ServiceWorld =
  sw_allocation :: "StoredAllocation option"
  sw_ownership :: "OwnershipRecord option"
  sw_version :: nat
  sw_outcomes :: "outcome list"
  sw_identifiers :: "string list"
  sw_instants :: "civil_time list"
  sw_answers :: "bool list"
  sw_effects :: "(effect \<times> DetailedAllocationRecord \<times> AllocationRecord option \<times> OwnershipRecord option) list"

definition next_outcome :: "ServiceWorld \<Rightarrow> outcome" where
  "next_outcome w = (case sw_outcomes w of [] \<Rightarrow> Applied | x # _ \<Rightarrow> x)"

definition consumed :: "ServiceWorld \<Rightarrow> ServiceWorld" where
  "consumed w = w\<lparr>sw_outcomes := tl (sw_outcomes w)\<rparr>"

text \<open>A read or a write with its outcome; \<open>apply\<close> is the effect of the write and \<open>answer\<close> its result.\<close>

definition serve :: "(ServiceWorld \<Rightarrow> 'a res) \<Rightarrow> (ServiceWorld \<Rightarrow> ServiceWorld) \<Rightarrow> (ServiceWorld, 'a) act" where
  "serve answer apply w =
     (case next_outcome w of
        Refused e \<Rightarrow> (Inl e, consumed w)
      | Lost e \<Rightarrow> (Inl e, case answer w of Inl _ \<Rightarrow> consumed w | Inr _ \<Rightarrow> consumed (apply w))
      | Applied \<Rightarrow> (answer w, case answer w of Inl _ \<Rightarrow> consumed w | Inr _ \<Rightarrow> consumed (apply w)))"

definition stored_next :: "ServiceWorld \<Rightarrow> string \<Rightarrow> AllocationRecord \<Rightarrow> StoredAllocation" where
  "stored_next w uid record = \<lparr>sa_Record = record, sa_UID = uid, sa_ResourceVersion = format_uint (sw_version w)\<rparr>"

definition write_allocation :: "string \<Rightarrow> AllocationRecord \<Rightarrow> ServiceWorld \<Rightarrow> ServiceWorld" where
  "write_allocation uid record w = w\<lparr>sw_allocation := Some (stored_next w uid record), sw_version := sw_version w + 1\<rparr>"

definition service_store :: "string \<Rightarrow> ServiceWorld AllocationStore" where
  "service_store vid = \<lparr>
     store_Get = (\<lambda>ident. serve (\<lambda>w. case sw_allocation w of
         Some s \<Rightarrow> if ident = vid then Inr s else Inl (sentinel_err ErrNotFound)
       | None \<Rightarrow> Inl (sentinel_err ErrNotFound)) (\<lambda>w. w)),
     store_Create = (\<lambda>record. serve (\<lambda>w.
         if Allocation_LogicalID record \<noteq> vid then Inl (errorf ''another volume'')
         else if sw_allocation w \<noteq> None then Inl (sentinel_err ErrAlreadyExists) else Inr (stored_next w ''uid'' record))
       (write_allocation ''uid'' record)),
     store_Update = (\<lambda>current nxt. serve (\<lambda>w.
         require (errs [ensure_is (sw_allocation w = Some current) ErrConflict [],
           ValidateAllocationUpdate (Some (sa_Record current)) (Some nxt)])
         (Inr (stored_next w (sa_UID current) nxt)))
       (write_allocation (sa_UID current) nxt))\<rparr>"

definition service_owners :: "ServiceWorld LifecycleOwnershipStore" where
  "service_owners = \<lparr>
     owner_Load = (\<lambda>allocation. serve (\<lambda>w. case sw_ownership w of
         None \<Rightarrow> Inl (sentinel_err ErrNotFound) | Some record \<Rightarrow> Inr record) (\<lambda>w. w)),
     owner_UpdateDetailed = (\<lambda>current nxt. serve (\<lambda>w.
         require (errs [ensure_is (sw_ownership w = Some (DetailedO current)) ErrConflict [],
           ValidateOwnershipUpdate (Some (DetailedO current)) (Some (DetailedO nxt))]) (Inr ()))
       (\<lambda>w. w\<lparr>sw_ownership := Some (DetailedO nxt)\<rparr>)),
     owner_Compact = (\<lambda>current nxt. serve (\<lambda>w.
         require (errs [ensure_is (sw_ownership w = Some (DetailedO current)) ErrConflict [],
           ValidateOwnershipUpdate (Some (DetailedO current)) (Some (CompactO nxt))]) (Inr ()))
       (\<lambda>w. w\<lparr>sw_ownership := Some (CompactO nxt)\<rparr>))\<rparr>"

definition service_process :: "ServiceWorld Process" where
  "service_process = \<lparr>
     gate_Acquire = serve (\<lambda>w. Inr ()) (\<lambda>w. w), gate_release = (\<lambda>w. w),
     locks_Lock = (\<lambda>key. serve (\<lambda>w. Inr ()) (\<lambda>w. w)), locks_unlock = (\<lambda>key w. w),
     clock_Now = (\<lambda>w. (case sw_instants w of [] \<Rightarrow> \<lparr>t_year = 1, t_month = 1, t_day = 1, t_hour = 0, t_minute = 0, t_second = 0, t_nanos = ''000000000''\<rparr> | t # _ \<Rightarrow> t, w\<lparr>sw_instants := tl (sw_instants w)\<rparr>)),
     ids_New = serve (\<lambda>w. case sw_identifiers w of [] \<Rightarrow> Inl (errorf ''no randomness'') | x # _ \<Rightarrow> Inr x)
       (\<lambda>w. w\<lparr>sw_identifiers := tl (sw_identifiers w)\<rparr>)\<rparr>"

text \<open>
  An effect counts from its first attempt, whatever it returns. It is logged with the allocation that the
  controller passed and the records that the volume held, and judged by the rule of the controller.
\<close>

definition service_effect :: "effect \<Rightarrow> DetailedAllocationRecord \<Rightarrow> (ServiceWorld, unit) act" where
  "service_effect e allocation w = serve (\<lambda>w. Inr ()) (\<lambda>w. w)
     (w\<lparr>sw_effects := (e, allocation, map_option sa_Record (sw_allocation w), sw_ownership w) # sw_effects w\<rparr>)"

definition service_question :: "(ServiceWorld, bool) act" where
  "service_question = serve (\<lambda>w. Inr (case sw_answers w of [] \<Rightarrow> False | x # _ \<Rightarrow> x))
     (\<lambda>w. w\<lparr>sw_answers := tl (sw_answers w)\<rparr>)"

type_synonym effect_rule = "effect \<Rightarrow> DetailedAllocationRecord \<Rightarrow> AllocationRecord option \<Rightarrow> OwnershipRecord option \<Rightarrow> bool"

definition effects_ok :: "effect_rule \<Rightarrow> ServiceWorld \<Rightarrow> bool" where
  "effects_ok rule w = list_all (\<lambda>(e, x, a, d). rule e x a d) (sw_effects w)"

lemmas serve_cases = service_effect_def service_question_def serve_def next_outcome_def consumed_def write_allocation_def stored_next_def

interpretation services: record_services "service_store vid" service_owners service_process vid sw_allocation sw_ownership "effects_ok rule"
  for vid rule
  by unfold_locales (auto simp: service_store_def service_owners_def service_process_def serve_cases effects_ok_def
    split: outcome.splits list.splits sum.splits option.splits if_splits)

end
