(* ===== verification/DeleteResolver.thy ===== *)
theory DeleteResolver
  imports Services ParentBackend
begin

text \<open>
  \<^verbatim>\<open>internal/driverapp/delete_resolver.go\<close> and \<^verbatim>\<open>PersistentVolumeEvidence.Validate\<close> of
  \<^verbatim>\<open>pkg/recovery/pv_reconstructor.go\<close>: what \<^verbatim>\<open>DeleteVolume\<close> concludes about a volume whose allocation is missing.
  The resolver looks for the volume among the PersistentVolumes and on every configured parent, and
  either rebuilds the allocation from its ownership record or reports a conclusive absence. The lemmas
  show that what it rebuilds passes the startup check with the ownership record it was read from.
\<close>

section \<open>Evidence\<close>

record DriverPersistentVolume =
  dp_Name :: string
  dp_UID :: string
  dp_ResourceVersion :: string
  dp_VolumeHandle :: string
  dp_VolumeContext :: string_map

record PersistentVolumeEvidence =
  ev_Name :: string
  ev_UID :: string
  ev_ResourceVersion :: string
  ev_DriverName :: string
  ev_VolumeHandle :: string
  ev_VolumeContext :: string_map

definition safe_field :: "string \<Rightarrow> error option" where
  "safe_field v = ensure (\<not> (v = [] \<or> length v > 253 \<or> \<not> valid_string v
       \<or> contains_any v [CHR 0x00, CHR 0x0D, CHR 0x0A]))
     ''PersistentVolume field must contain 1 to 253 safe UTF-8 bytes''"

definition Evidence_Validate :: "PersistentVolumeEvidence \<Rightarrow> ImmutableContext res" where
  "Evidence_Validate evidence =
     require (errs (map safe_field [ev_Name evidence, ev_UID evidence, ev_ResourceVersion evidence]))
     (require (ValidateDriverName (ev_DriverName evidence))
     (and_then (ParseHandle (ev_VolumeHandle evidence)) (\<lambda>handle.
      and_then (ParseImmutableContext (ev_VolumeContext evidence)) (\<lambda>immutableContext.
      and_then (NewHandle \<lparr>m_PoolName = x_PoolName immutableContext, m_ParentFilesystemID = x_ParentFilesystemID immutableContext,
          m_BasePath = x_BasePath immutableContext, m_DirectoryName = x_DirectoryName immutableContext,
          m_LogicalVolumeID = x_LogicalVolumeID immutableContext\<rparr>) (\<lambda>expectedHandle.
      require (ensure (\<not> (Handle_String expectedHandle \<noteq> ev_VolumeHandle evidence
            \<or> h_LogicalVolumeID handle \<noteq> x_LogicalVolumeID immutableContext
            \<or> h_MappingHash handle \<noteq> h_MappingHash expectedHandle))
          ''PersistentVolume handle and immutable context mapping differ'')
      (Inr immutableContext))))))"

section \<open>The resolver\<close>

record MissingDeleteResolution =
  md_RecoveredAllocation :: "AllocationRecord option"
  md_ConclusiveAbsence :: bool
  md_AbsenceReason :: string

record configuredDeleteParent =
  dp_id :: string
  dp_basePath :: string

record 'w missingDeleteResolver =
  mr_driverName :: string
  mr_installationID :: string
  mr_clusterUID :: string
  mr_controllerNamespace :: string
  mr_helmReleaseName :: string
  mr_parents :: "configuredDeleteParent list"
  mr_pvs :: "('w, DriverPersistentVolume list) act"
  mr_ReadParentClaim :: "string \<Rightarrow> ('w, ParentOwnerRecord) act"
  mr_ReadOwnership :: "string \<Rightarrow> string \<Rightarrow> string \<Rightarrow> ('w, OwnershipRecord) act"
  mr_process :: "'w Process"

text \<open>The search of the PersistentVolumes, \<open>found\<close> being \<^verbatim>\<open>matchingPV\<close>.\<close>

fun matching_pv :: "Handle \<Rightarrow> DriverPersistentVolume option \<Rightarrow> DriverPersistentVolume list \<Rightarrow> DriverPersistentVolume option res" where
  "matching_pv handle found [] = Inr found"
| "matching_pv handle found (pv # pvs) =
     and_then (ParseHandle (dp_VolumeHandle pv)) (\<lambda>candidate.
       if h_LogicalVolumeID candidate \<noteq> h_LogicalVolumeID handle then matching_pv handle found pvs
       else if candidate \<noteq> handle
       then Inl (errorf ''PersistentVolume logical ID matches but mapping hash conflicts with DeleteVolume handle'')
       else if found \<noteq> None then Inl (errorf ''multiple PersistentVolumes reference missing allocation logical ID'')
       else matching_pv handle (Some pv) pvs)"

definition validateClaim :: "'w missingDeleteResolver \<Rightarrow> ParentOwnerRecord \<Rightarrow> configuredDeleteParent \<Rightarrow> error option" where
  "validateClaim r claim parent = errs
     [Parent_Validate claim,
      ensure (\<not> (p_DriverName claim \<noteq> mr_driverName r \<or> p_InstallationID claim \<noteq> mr_installationID r
          \<or> p_ActiveClusterUID claim \<noteq> mr_clusterUID r \<or> p_ParentFilesystemID claim \<noteq> dp_id parent
          \<or> p_BasePath claim \<noteq> dp_basePath parent \<or> p_ControllerNamespace claim \<noteq> mr_controllerNamespace r
          \<or> p_HelmReleaseName claim \<noteq> mr_helmReleaseName r \<or> p_LeadershipLeaseName claim \<noteq> LeadershipLeaseNameV1))
        ''parent claim differs from active driver installation'']"

definition validateOwnership ::
  "'w missingDeleteResolver \<Rightarrow> Handle \<Rightarrow> OwnershipRecord \<Rightarrow> configuredDeleteParent \<Rightarrow> error option" where
  "validateOwnership r handle ownership parent = errs
     [ensure (Ownership_LogicalID ownership = h_LogicalVolumeID handle)
        ''missing-delete ownership logical identity is invalid'',
      Ownership_Validate ownership,
      (case ownership of
         DetailedO record \<Rightarrow>
           ensure (\<not> (o_DriverName record \<noteq> mr_driverName r \<or> o_InstallationID record \<noteq> mr_installationID r
               \<or> o_ActiveClusterUID record \<noteq> mr_clusterUID r \<or> o_ParentFilesystemID record \<noteq> dp_id parent
               \<or> o_BasePath record \<noteq> dp_basePath parent \<or> o_MappingHash record \<noteq> h_MappingHash handle
               \<or> o_VolumeHandle record \<noteq> Handle_String handle))
             ''detailed ownership differs from missing-delete handle or installation''
       | CompactO record \<Rightarrow>
           and_check (VolumeHandleHash (Handle_String handle)) (\<lambda>handleHash.
             ensure (\<not> (co_DriverName record \<noteq> mr_driverName r \<or> co_InstallationID record \<noteq> mr_installationID r
                 \<or> co_ActiveClusterUID record \<noteq> mr_clusterUID r \<or> co_ParentFilesystemID record \<noteq> dp_id parent
                 \<or> co_MappingHash record \<noteq> h_MappingHash handle \<or> co_VolumeHandleHash record \<noteq> handleHash))
               ''compact ownership differs from missing-delete handle or installation''))]"

text \<open>The scan of the configured parents, \<open>found\<close> being the ownership record met so far.\<close>

fun scan_parents ::
  "'w missingDeleteResolver \<Rightarrow> Handle \<Rightarrow> OwnershipRecord option \<Rightarrow> configuredDeleteParent list \<Rightarrow> ('w, OwnershipRecord option) act" where
  "scan_parents r handle found [] = ret found"
| "scan_parents r handle found (parent # parents) =
     andthen (wrapped ''read parent claim during missing delete'' (mr_ReadParentClaim r (dp_id parent))) (\<lambda>claim.
     guard (validateClaim r claim parent)
     (andthen (attempt (mr_ReadOwnership r (dp_id parent) (dp_basePath parent) (h_LogicalVolumeID handle))) (\<lambda>read.
        case read of
          Inl err \<Rightarrow> if errors_is err ErrOwnershipNotFound then scan_parents r handle found parents else fail err
        | Inr ownership \<Rightarrow>
            if found \<noteq> None then fail (errorf ''logical ID has ownership on multiple configured parents'')
            else guard (validateOwnership r handle ownership parent) (scan_parents r handle (Some ownership) parents))))"

definition reconstruct ::
  "'w missingDeleteResolver \<Rightarrow> Handle \<Rightarrow> DriverPersistentVolume option \<Rightarrow> OwnershipRecord \<Rightarrow> ('w, AllocationRecord) act" where
  "reconstruct r handle persistentVolume ownership =
     (case ownership of
        CompactO record \<Rightarrow>
          if persistentVolume \<noteq> None then fail (errorf ''compact Deleted ownership unexpectedly retains PersistentVolume'')
          else andthen (lift (ReconstructCompactAllocationFromOwnership (Some record))) (\<lambda>a. ret (CompactA a))
      | DetailedO record \<Rightarrow>
          andthen (ids_New (mr_process r)) (\<lambda>operationID.
          andthen (canonicalNow (mr_process r)) (\<lambda>recoveredAt.
          case persistentVolume of
            None \<Rightarrow>
              andthen (lift (ReconstructAllocationFromOwnership (Some record) operationID recoveredAt)) (\<lambda>a. ret (DetailedA a))
          | Some pv \<Rightarrow>
              andthen (lift (Evidence_Validate \<lparr>ev_Name = dp_Name pv, ev_UID = dp_UID pv,
                  ev_ResourceVersion = dp_ResourceVersion pv, ev_DriverName = mr_driverName r,
                  ev_VolumeHandle = dp_VolumeHandle pv, ev_VolumeContext = dp_VolumeContext pv\<rparr>)) (\<lambda>immutableContext.
              andthen (lift (ReconstructAllocationFromPVAndOwnership (Some record) (Handle_String handle) immutableContext
                  operationID recoveredAt)) (\<lambda>a. ret (DetailedA a))))))"

definition ResolveMissing :: "'w missingDeleteResolver \<Rightarrow> Handle \<Rightarrow> ('w, MissingDeleteResolution) act" where
  "ResolveMissing r handle =
     andthen (lift (ParseHandle (Handle_String handle))) (\<lambda>validatedHandle.
     guard (ensure (validatedHandle = handle) ''missing-delete handle changed during serialization'')
     (andthen (wrapped ''list driver PersistentVolumes for missing delete'' (mr_pvs r)) (\<lambda>persistentVolumes.
      andthen (lift (matching_pv handle None persistentVolumes)) (\<lambda>matchingPV.
      andthen (scan_parents r handle None (mr_parents r)) (\<lambda>found.
        case found of
          None \<Rightarrow>
            guard (ensure (matchingPV = None) ''PersistentVolume exists without configured-parent ownership'')
              (ret \<lparr>md_RecoveredAllocation = None, md_ConclusiveAbsence = True,
                 md_AbsenceReason = ''allocation, driver PersistentVolume, and configured-parent ownership conclusively absent''\<rparr>)
        | Some ownership \<Rightarrow>
            andthen (reconstruct r handle matchingPV ownership) (\<lambda>record.
              ret \<lparr>md_RecoveredAllocation = Some record, md_ConclusiveAbsence = False, md_AbsenceReason = []\<rparr>))))))"

section \<open>What is rebuilt pairs with its evidence\<close>

declare startup_consistent.simps(1) [simp del]

lemma reconstruct_form:
  assumes "reconstructAllocationFromOwnership (Some d) s i u = Inr a"
  shows "a = reconstructed_allocation d s i u" and "DetailedOwnership_Validate d = None" and "Detailed_Validate a = None"
  using assms by (auto simp: reconstructAllocationFromOwnership_def)

lemma gc_unrequested:
  assumes "Detailed_Validate a = None" and "a_GCRequestID a = []"
  shows "gc_free a"
proof -
  let ?q = "present_count [a_GCRequestID a, a_GCRequestedMode a, a_GCExpectedState a, a_GCRequestedAt a]"
  let ?p = "present_count [a_GCOperationID a, a_GCTargetPath a, a_GCQuarantinePath a, a_GCStartedAt a]"
  note g = detailed_valid_lifecycle(4) [OF assms(1), unfolded validateGCFields_def Let_def]
  have "?q \<noteq> 4" using assms(2) by (simp add: present_count_def split: if_splits)
  with g have q: "?q = 0" by auto
  with g have p: "?p = 0" by auto
  with g have "a_GCRemoveStartedAt a = []" "a_GCCompletedAt a = []" by auto
  with p q show ?thesis by (simp add: present_count_0 gc_free_def)
qed

lemma reconstructed_consistent:
  assumes a: "reconstructAllocationFromOwnership (Some d) s i u = Inr a" and ok: "recoverable (Some (DetailedO d))"
  shows "startup_consistent (Some (DetailedA a)) (Some (DetailedO d))"
proof -
  note form = reconstruct_form [OF a]
  have fields: "a_State a = o_State d" "a_GCRequestID a = o_GCRequestID d" "a_GCOperationID a = o_GCOperationID d"
    by (simp_all add: form(1) reconstructed_allocation_def ownership_envelope_def)
  have id: "ValidateDetailedIdentityPair (Some a) (Some d) (o_State d) = None"
    using form(2,3) by (simp add: identity_pair_iff)
      (simp add: form(1) detailed_pair_identity_def reconstructed_allocation_def ownership_envelope_def equal_create_parameters)
  have st: "o_State d = StateReady \<or> o_State d = StateDeleting \<or> o_State d = StateArchived \<or> o_State d = StateRetained"
    using ownership_valid_envelope(1) [OF form(2)] by (auto simp: ownership_states_def)
  have free: "\<not> ownershipHasGCState d" if "o_GCRequestID d = []"
  proof -
    have "gc_free a" using gc_unrequested [OF form(3)] fields that by simp
    then show ?thesis
      by (simp add: gc_free_def ownershipHasGCState_def form(1) reconstructed_allocation_def ownership_envelope_def)
  qed
  have evidence: "validateDeleteTerminalEvidence a d = None"
    by (simp add: validateDeleteTerminalEvidence_def form(1) reconstructed_allocation_def ownership_envelope_def)
  have progress: "o_State d = StateDeleting \<Longrightarrow> validateDeleteProgressPair a d = None"
    using id by (simp add: validateDeleteProgressPair_def form(1) reconstructed_allocation_def ownership_envelope_def)
  have collecting: "validateGCProgressPair a d = None" if "a_GCOperationID a \<noteq> []" "o_State d = StateArchived \<or> o_State d = StateRetained"
    using gc_request_state(2) [OF form(3) that(1)] that id evidence fields
    by (auto simp: validateGCProgressPair_def) (simp_all add: form(1) reconstructed_allocation_def ownership_envelope_def)
  have "startup_detailed_pair a d = None"
    using st id evidence progress collecting free ok fields by (auto simp: startup_detailed_pair_def validateStartupGCPair_def)
  then show ?thesis using st fields by (auto simp: consistent_detailed)
qed

text \<open>A resolution is sound when what it recovered pairs with the ownership record, and absence means there is none.\<close>

fun resolution_sound :: "MissingDeleteResolution \<Rightarrow> OwnershipRecord option \<Rightarrow> bool" where
  "resolution_sound m own =
     (case md_RecoveredAllocation m of Some record \<Rightarrow> startup_consistent (Some record) own | None \<Rightarrow> md_ConclusiveAbsence m \<longrightarrow> own = None)"

section \<open>The resolver over its readers\<close>

text \<open>
  The readers change nothing. A read of the parent that holds the volume returns its ownership record, and
  reports \<^verbatim>\<open>ErrOwnershipNotFound\<close> only when there is none; that parent is configured.
\<close>

locale resolver_services = record_services +
  fixes r :: "'a missingDeleteResolver" and home :: string
  assumes process: "mr_process r = proc"
    and home: "home \<in> dp_id ` set (mr_parents r)"
    and pvs: "quiet (mr_pvs r)"
    and claims: "quiet (mr_ReadParentClaim r p)"
    and reads: "quiet (mr_ReadOwnership r p b l)"
    and read_found: "mr_ReadOwnership r p b vid w = (Inr x, w') \<Longrightarrow> own w = Some x"
    and read_absent: "mr_ReadOwnership r home b vid w = (Inl e, w') \<Longrightarrow> errors_is e ErrOwnershipNotFound \<Longrightarrow> own w = None"
begin

lemma read_triple:
  "triple (stands a o') (attempt (mr_ReadOwnership r p b vid)) E
     (\<lambda>x w. stands a o' w \<and> (case x of Inr y \<Rightarrow> o' = Some y | Inl e \<Rightarrow> errors_is e ErrOwnershipNotFound \<longrightarrow> p = home \<longrightarrow> o' = None))"
proof (rule triple_attempt, rule tripleI)
  fix w x w' assume st: "stands a o' w" and run: "mr_ReadOwnership r p b vid w = (x, w')"
  have same: "stands a o' w'" using tripleD [OF quiet_stands [OF reads] st run] by (cases x) simp_all
  have o': "own w = o'" using st by (simp add: stands_def)
  show "case x of Inl e \<Rightarrow> stands a o' w' \<and> (case Inl e of Inr y \<Rightarrow> o' = Some y | Inl e \<Rightarrow> errors_is e ErrOwnershipNotFound \<longrightarrow> p = home \<longrightarrow> o' = None)
      | Inr y \<Rightarrow> stands a o' w' \<and> (case Inr y of Inr y \<Rightarrow> o' = Some y | Inl e \<Rightarrow> errors_is e ErrOwnershipNotFound \<longrightarrow> p = home \<longrightarrow> o' = None)"
    using same run o' read_found [of p b w] read_absent [of b w] by (cases x) auto
qed

lemma scan_triple:
  assumes "h_LogicalVolumeID h = vid" and "acc \<noteq> None \<longrightarrow> acc = o'"
  shows "triple (stands a o') (scan_parents r h acc ps) (\<lambda>_. stands a o')
    (\<lambda>x w. stands a o' w \<and> (case x of Some y \<Rightarrow> o' = Some y | None \<Rightarrow> acc = None \<and> (home \<in> dp_id ` set ps \<longrightarrow> o' = None)))"
  using assms(2)
proof (induction ps arbitrary: acc)
  case Nil
  then show ?case by (auto intro!: triple_ret split: option.split)
next
  case (Cons p ps)
  let ?Q = "\<lambda>x w. stands a o' w \<and> (case x of Some y \<Rightarrow> o' = Some y | None \<Rightarrow> acc = None \<and> (home \<in> dp_id ` set (p # ps) \<longrightarrow> o' = None))"
  have rest: "triple (stands a o') (scan_parents r h f ps) (\<lambda>_. stands a o') ?Q"
    if "f \<noteq> None \<longrightarrow> f = o'" "f = None \<longrightarrow> acc = None" "f = None \<longrightarrow> dp_id p = home \<longrightarrow> o' = None" for f
    by (rule triple_post [OF Cons.IH [OF that(1)]]) (use that in \<open>auto split: option.splits\<close>)
  have step: "triple (\<lambda>w. stands a o' w \<and> (case x of Inr y \<Rightarrow> o' = Some y | Inl e \<Rightarrow> errors_is e ErrOwnershipNotFound \<longrightarrow> dp_id p = home \<longrightarrow> o' = None))
      (case x of
          Inl err \<Rightarrow> if errors_is err ErrOwnershipNotFound then scan_parents r h acc ps else fail err
        | Inr ownership \<Rightarrow>
            if acc \<noteq> None then fail (errorf ''logical ID has ownership on multiple configured parents'')
            else guard (validateOwnership r h ownership p) (scan_parents r h (Some ownership) ps)) (\<lambda>_. stands a o') ?Q" for x
    by (rule triple_fact2, cases x; hypsubst; unfold sum.case; intro triple_if triple_fail triple_guard rest) (use Cons.prems in auto)
  show ?case
    unfolding scan_parents.simps assms(1)
    by (intro triple_andthen [OF triple_wrapped [OF quiet_stands [OF claims]]] triple_guard triple_andthen [OF read_triple]
        step [unfolded assms(1)])
qed

lemma reconstruct_triple:
  "triple (stands a o') (reconstruct r h pv y) (\<lambda>_. stands a o')
     (\<lambda>x w. stands a o' w \<and> (recoverable (Some y) \<longrightarrow> startup_consistent (Some x) (Some y)))"
proof (cases y)
  case (CompactO k)
  have "startup_consistent (Some (CompactA c)) (Some (CompactO k))"
    if "ReconstructCompactAllocationFromOwnership (Some k) = Inr c" for c
    using that by (auto simp: ReconstructCompactAllocationFromOwnership_def startup_consistent.simps)
  then show ?thesis unfolding CompactO reconstruct_def by (auto intro!: triple_rules)
next
  case (DetailedO d)
  have "ReconstructAllocationFromOwnership (Some d) i t = Inr c \<Longrightarrow> recoverable (Some (DetailedO d)) \<Longrightarrow> startup_consistent (Some (DetailedA c)) (Some (DetailedO d))"
    and "ReconstructAllocationFromPVAndOwnership (Some d) v x i t = Inr c \<Longrightarrow> recoverable (Some (DetailedO d)) \<Longrightarrow> startup_consistent (Some (DetailedA c)) (Some (DetailedO d))"
    for c i t v x
    using reconstructed_consistent
    by (auto simp: ReconstructAllocationFromOwnership_def ReconstructAllocationFromPVAndOwnership_def)
  then show ?thesis
    unfolding DetailedO reconstruct_def process
    by (auto intro!: triple_rules triple_andthen [OF quiet_stands [OF quiet_services(2)]] triple_andthen [OF quiet_stands [OF quiet_services(1)]]
        split: option.split)
qed

lemma resolve_triple:
  assumes "h_LogicalVolumeID h = vid"
  shows "triple (stands a o') (ResolveMissing r h) (\<lambda>_. stands a o') (\<lambda>m w. stands a o' w \<and> (recoverable o' \<longrightarrow> resolution_sound m o'))"
proof -
  have finish: "triple (\<lambda>w. stands a o' w \<and> (case x of Some y \<Rightarrow> o' = Some y | None \<Rightarrow> None = (None :: OwnershipRecord option) \<and> (home \<in> dp_id ` set (mr_parents r) \<longrightarrow> o' = None)))
     (case x of
          None \<Rightarrow>
            guard (ensure (pv = None) ''PersistentVolume exists without configured-parent ownership'')
              (ret \<lparr>md_RecoveredAllocation = None, md_ConclusiveAbsence = True,
                 md_AbsenceReason = ''allocation, driver PersistentVolume, and configured-parent ownership conclusively absent''\<rparr>)
        | Some ownership \<Rightarrow>
            andthen (reconstruct r h pv ownership) (\<lambda>record.
              ret \<lparr>md_RecoveredAllocation = Some record, md_ConclusiveAbsence = False, md_AbsenceReason = []\<rparr>))
     (\<lambda>_. stands a o') (\<lambda>m w. stands a o' w \<and> (recoverable o' \<longrightarrow> resolution_sound m o'))" for x pv
    by (rule triple_fact2, cases x)
      (use home in \<open>auto intro!: triple_guard triple_ret triple_andthen [OF reconstruct_triple]\<close>)
  show ?thesis
    unfolding ResolveMissing_def
    by (intro triple_lift_andthen triple_guard triple_andthen [OF triple_wrapped [OF quiet_stands [OF pvs]]]
        triple_andthen [OF scan_triple [OF assms(1)]] finish) simp_all
qed

end

text \<open>
  The readers of the scripted services. A read that does not answer fails with an error that is not a
  conclusive absence.
\<close>

definition service_read :: "(ServiceWorld \<Rightarrow> 'a res) \<Rightarrow> (ServiceWorld, 'a) act" where
  "service_read answer w =
     ((case next_outcome w of Applied \<Rightarrow> answer w | _ \<Rightarrow> Inl (sentinel_err ErrUnavailable)), consumed w)"

definition service_resolver ::
  "string \<Rightarrow> string \<Rightarrow> string \<Rightarrow> string \<Rightarrow> string \<Rightarrow> string \<Rightarrow> configuredDeleteParent list \<Rightarrow> DriverPersistentVolume list \<Rightarrow>
     (string \<Rightarrow> ParentOwnerRecord res) \<Rightarrow> string \<Rightarrow> ServiceWorld missingDeleteResolver" where
  "service_resolver vid driverName installationID clusterUID namespace release_name parents persistentVolumes claim home = \<lparr>
     mr_driverName = driverName, mr_installationID = installationID, mr_clusterUID = clusterUID,
     mr_controllerNamespace = namespace, mr_helmReleaseName = release_name, mr_parents = parents,
     mr_pvs = service_read (\<lambda>w. Inr persistentVolumes),
     mr_ReadParentClaim = (\<lambda>parentID. service_read (\<lambda>w. claim parentID)),
     mr_ReadOwnership = (\<lambda>parentID basePath ident. service_read (\<lambda>w.
        case sw_ownership w of
          Some record \<Rightarrow> if parentID = home \<and> ident = vid then Inr record else Inl (Errorf [] [ErrOwnershipNotFound])
        | None \<Rightarrow> Inl (Errorf [] [ErrOwnershipNotFound]))),
     mr_process = service_process\<rparr>"

lemma unavailable_not_absent: "\<not> errors_is (sentinel_err ErrUnavailable) ErrOwnershipNotFound"
  by (simp add: sentinel_err_def errors_is_def ErrOwnershipNotFound_def ErrUnavailable_def)

interpretation resolution: resolver_services "service_store vid" service_owners service_process vid sw_allocation sw_ownership
    "effects_ok rule" "service_resolver vid driverName installationID clusterUID namespace release_name (before @ parent # after)
      persistentVolumes claim (dp_id parent)" "dp_id parent"
  for vid rule driverName installationID clusterUID namespace release_name before parent after persistentVolumes claim
  by unfold_locales
    (use unavailable_not_absent in \<open>auto simp: service_resolver_def service_read_def services.quiet_def consumed_def effects_ok_def
      split: outcome.splits option.splits if_splits\<close>)

end
