(* ===== verification/DeleteController.thy ===== *)
theory DeleteController
  imports DeleteResolver
begin

text \<open>
  \<^verbatim>\<open>pkg/driver/delete.go\<close>: the crash-resumable archive, delete and retain state machine of
  \<^verbatim>\<open>DeleteVolume\<close>. The controller is polymorphic in the world behind its interfaces. Its lemmas are
  proved in \<open>delete_services\<close>, which adds to the store contract that the remaining calls touch
  neither record and that removing the quarantine is authorised only by matching remove-start
  evidence in both records.
\<close>

section \<open>Errors and interfaces\<close>

definition ErrEmptyVolumeID :: sentinel where "ErrEmptyVolumeID = OtherSentinel ''DeleteVolume volume ID is empty''"
definition ErrVolumeInUse :: sentinel where
  "ErrVolumeInUse = OtherSentinel ''logical volume still has a VolumeAttachment''"
definition ErrPublishedFenceBlocked :: sentinel where
  "ErrPublishedFenceBlocked = OtherSentinel ''logical volume has unresolved published-node fences''"

record 'w DeleteController =
  dc_driverName :: string
  dc_installationID :: string
  dc_clusterUID :: string
  dc_allocations :: "'w AllocationStore"
  dc_ownerships :: "'w LifecycleOwnershipStore"
  dc_resolver :: "Handle \<Rightarrow> ('w, MissingDeleteResolution) act"
  dc_attachments :: "string \<Rightarrow> ('w, bool) act"
  dc_PrepareDisposition :: "DetailedAllocationRecord \<Rightarrow> ('w, unit) act"
  dc_RemoveQuarantine :: "DetailedAllocationRecord \<Rightarrow> ('w, unit) act"
  dc_process :: "'w Process"

section \<open>Reconciling the pair\<close>

definition mirror_to_ownership ::
  "'w DeleteController \<Rightarrow> DetailedOwnershipRecord \<Rightarrow> DetailedAllocationRecord \<Rightarrow> ('w, DetailedOwnershipRecord) act" where
  "mirror_to_ownership c detailed allocation =
     andthen (lift (mirrorDeleteLifecycle detailed allocation)) (\<lambda>nxt.
       andthen (owner_UpdateDetailed (dc_ownerships c) detailed nxt) (\<lambda>_. ret nxt))"

definition reconcileDeletePair ::
  "'w DeleteController \<Rightarrow> StoredAllocation \<Rightarrow> OwnershipRecord \<Rightarrow> ('w, OwnershipRecord) act" where
  "reconcileDeletePair c stored ownership =
     andthen (lift (detailed_of stored)) (\<lambda>allocation.
       case ownership of
         CompactO compact \<Rightarrow>
           guard (ensure (a_State allocation = StateDeleted) ''compact ownership paired with non-Deleted allocation'')
             (guard (ValidateCompactPair (Some (compactAllocationProjection allocation)) (Some compact))
               (ret ownership))
       | DetailedO detailed \<Rightarrow>
           if a_State allocation = StateReady then
             guard (ValidateDetailedPair (Some allocation) (Some detailed) StateReady) (ret (DetailedO detailed))
           else if a_State allocation = StateDeleting then
             (if o_State detailed = StateReady then
                guard (ValidateDetailedIdentityPair (Some allocation) (Some detailed) StateReady)
                  (andthen (mirror_to_ownership c detailed allocation) (\<lambda>nxt. ret (DetailedO nxt)))
              else if o_State detailed = StateDeleting then
                guard (validateDeleteProgressPair allocation detailed)
                  (if a_DeleteRemoveStartedAt allocation \<noteq> [] \<and> o_DeleteRemoveStartedAt detailed = [] then
                     andthen (mirror_to_ownership c detailed allocation) (\<lambda>nxt. ret (DetailedO nxt))
                   else ret (DetailedO detailed))
              else fail (errorf ''deleting allocation has ownership state''))
           else if a_State allocation = StateArchived \<or> a_State allocation = StateRetained then
             (if o_State detailed = StateDeleting then
                guard (validateDeleteProgressPair allocation detailed)
                  (andthen (mirror_to_ownership c detailed allocation) (\<lambda>nxt. ret (DetailedO nxt)))
              else
                guard (ValidateDetailedPair (Some allocation) (Some detailed) (a_State allocation))
                  (guard (validateDeleteTerminalEvidence allocation detailed) (ret (DetailedO detailed))))
           else if a_State allocation = StateDeleted then
             guard (ensure (o_State detailed = StateDeleting)
                 ''deleted allocation has non-predecessor detailed ownership state'')
               (guard (validateDeleteProgressPair allocation detailed)
                 (guard (validatePhysicalDeleteTerminalPredecessor allocation detailed)
                   (andthen (lift (compactOwnershipFromDeleted allocation detailed)) (\<lambda>compact.
                      andthen (owner_Compact (dc_ownerships c) detailed compact) (\<lambda>_. ret (CompactO compact))))))
           else fail (errorf ''DeleteVolume cannot reconcile allocation state''))"

definition reconcileDeleteFenceUnion ::
  "'w DeleteController \<Rightarrow> StoredAllocation \<Rightarrow> DetailedOwnershipRecord \<Rightarrow>
     ('w, StoredAllocation \<times> DetailedOwnershipRecord) act" where
  "reconcileDeleteFenceUnion c stored ownership =
     andthen (lift (detailed_of stored)) (\<lambda>allocation.
       let union = sortedUnion (a_PublishedNodeIDs allocation) (o_PublishedNodeIDs ownership)
       in andthen
           (if \<not> slices_equal (a_PublishedNodeIDs allocation) union then
              andthen (canonicalNow (dc_process c)) (\<lambda>now.
                store_Update (dc_allocations c) stored
                  (DetailedA (allocation\<lparr>a_RecordRevision := a_RecordRevision allocation + 1,
                     a_UpdatedAt := now, a_PublishedNodeIDs := union\<rparr>)))
            else ret stored) (\<lambda>stored.
           if \<not> slices_equal (o_PublishedNodeIDs ownership) union then
             andthen (lift (ownershipWithPublishedNodes ownership union)) (\<lambda>nxt.
               andthen (owner_UpdateDetailed (dc_ownerships c) ownership nxt) (\<lambda>_. ret (stored, nxt)))
           else ret (stored, ownership)))"

definition compact_deleted :: "'w DeleteController \<Rightarrow> DetailedAllocationRecord \<Rightarrow> OwnershipRecord \<Rightarrow> ('w, unit) act" where
  "compact_deleted c allocation ownership =
     (case ownership of
        CompactO compact \<Rightarrow>
          guard (ValidateCompactPair (Some (compactAllocationProjection allocation)) (Some compact)) (ret ())
      | DetailedO detailed \<Rightarrow>
          guard (validateDeleteProgressPair allocation detailed)
            (guard (validatePhysicalDeleteTerminalPredecessor allocation detailed)
              (andthen (lift (compactOwnershipFromDeleted allocation detailed)) (\<lambda>compact.
                 owner_Compact (dc_ownerships c) detailed compact))))"

definition finishDeletedPair :: "'w DeleteController \<Rightarrow> DetailedAllocationRecord \<Rightarrow> ('w, unit) act" where
  "finishDeletedPair c allocation =
     andthen (owner_Load (dc_ownerships c) allocation) (\<lambda>ownership. compact_deleted c allocation ownership)"

section \<open>The delete steps\<close>

definition delete_target :: "DetailedAllocationRecord \<Rightarrow> string \<Rightarrow> string \<Rightarrow> string \<Rightarrow> string res" where
  "delete_target allocation operation now operationID =
     (if operation = DeleteOperationArchive then
        ManagedLifecycleTarget (a_BasePath allocation) ''.archived'' (a_DirectoryName allocation)
          (a_LogicalVolumeID allocation) now operationID
      else if operation = DeleteOperationDelete then
        ManagedLifecycleTarget (a_BasePath allocation) ''.deleted'' (a_DirectoryName allocation)
          (a_LogicalVolumeID allocation) now operationID
      else if operation = DeleteOperationRetain then
        Inr (path_join [a_BasePath allocation, a_DirectoryName allocation])
      else Inl (errorf ''delete policy is unsupported''))"

definition prepared_record :: "DetailedAllocationRecord \<Rightarrow> string \<Rightarrow> string \<Rightarrow> string \<Rightarrow> DetailedAllocationRecord" where
  "prepared_record allocation operationID now target =
     (let operation = a_DeletePolicy allocation;
          nxt = allocation\<lparr>a_RecordRevision := a_RecordRevision allocation + 1, a_State := StateDeleting,
            a_UpdatedAt := now, a_DeleteOperationID := operationID, a_DeleteOperation := operation,
            a_DeleteSourcePath := path_join [a_BasePath allocation, a_DirectoryName allocation],
            a_DeleteTargetPath := target, a_DeletePreparedAt := now\<rparr>
      in if operation = DeleteOperationArchive then nxt\<lparr>a_ArchivedPath := target\<rparr>
         else if operation = DeleteOperationDelete then nxt\<lparr>a_QuarantinePath := target\<rparr>
         else nxt\<lparr>a_RetainedPath := target\<rparr>)"

definition prepareDelete ::
  "'w DeleteController \<Rightarrow> StoredAllocation \<Rightarrow> DetailedOwnershipRecord \<Rightarrow>
     ('w, StoredAllocation \<times> DetailedOwnershipRecord) act" where
  "prepareDelete c stored ownership =
     andthen (lift (detailed_of stored)) (\<lambda>allocation.
     andthen (ids_New (dc_process c)) (\<lambda>operationID.
     guard (ValidateOperationID operationID)
     (andthen (canonicalNow (dc_process c)) (\<lambda>now.
     andthen (lift (delete_target allocation (a_DeletePolicy allocation) now operationID)) (\<lambda>target.
     let nxt = prepared_record allocation operationID now target
     in andthen (store_Update (dc_allocations c) stored (DetailedA nxt)) (\<lambda>stored.
        andthen (mirror_to_ownership c ownership nxt) (\<lambda>updatedOwnership. ret (stored, updatedOwnership))))))))"

definition terminal_record :: "DetailedAllocationRecord \<Rightarrow> string \<Rightarrow> string \<Rightarrow> DetailedAllocationRecord" where
  "terminal_record allocation terminal now =
     (let nxt = allocation\<lparr>a_RecordRevision := a_RecordRevision allocation + 1, a_State := terminal,
            a_UpdatedAt := now, a_DeleteCompletedAt := now,
            a_DeleteResult := (if terminal = StateArchived then ''archived'' else ''retained'')\<rparr>
      in if terminal = StateArchived then nxt\<lparr>a_ArchivedPath := a_DeleteTargetPath nxt\<rparr>
         else nxt\<lparr>a_RetainedPath := a_DeleteTargetPath nxt\<rparr>)"

text \<open>\<^verbatim>\<open>strings.ToLower(string(terminal))\<close> is written out for the two states the callers pass.\<close>

definition completeArchiveOrRetain ::
  "'w DeleteController \<Rightarrow> StoredAllocation \<Rightarrow> DetailedOwnershipRecord \<Rightarrow> string \<Rightarrow> ('w, unit) act" where
  "completeArchiveOrRetain c stored ownership terminal =
     andthen (lift (detailed_of stored)) (\<lambda>allocation.
     andthen (canonicalNow (dc_process c)) (\<lambda>now.
     andthen (store_Update (dc_allocations c) stored (DetailedA (terminal_record allocation terminal now))) (\<lambda>updated.
     andthen (lift (detailed_of updated)) (\<lambda>updatedAllocation.
     andthen (mirror_to_ownership c ownership updatedAllocation) (\<lambda>_. ret ())))))"

definition persist_remove_start ::
  "'w DeleteController \<Rightarrow> StoredAllocation \<Rightarrow> DetailedOwnershipRecord \<Rightarrow>
     ('w, StoredAllocation \<times> DetailedOwnershipRecord) act" where
  "persist_remove_start c stored ownership =
     andthen (lift (detailed_of stored)) (\<lambda>allocation.
     if a_DeleteRemoveStartedAt allocation = [] then
       andthen (canonicalNow (dc_process c)) (\<lambda>now.
       andthen (store_Update (dc_allocations c) stored
           (DetailedA (allocation\<lparr>a_RecordRevision := a_RecordRevision allocation + 1, a_UpdatedAt := now,
              a_DeleteRemoveStartedAt := now\<rparr>))) (\<lambda>updated.
       andthen (lift (detailed_of updated)) (\<lambda>updatedAllocation.
       andthen (mirror_to_ownership c ownership updatedAllocation) (\<lambda>updatedOwnership.
       ret (updated, updatedOwnership)))))
     else ret (stored, ownership))"

definition deleted_record :: "DetailedAllocationRecord \<Rightarrow> string \<Rightarrow> DetailedAllocationRecord" where
  "deleted_record allocation now =
     allocation\<lparr>a_RecordRevision := a_RecordRevision allocation + 1, a_State := StateDeleted,
       a_ReservesCapacity := False, a_UpdatedAt := now, a_DeletedAt := now, a_DeleteCompletedAt := now,
       a_DeleteResult := ''deleted'', a_QuarantinePath := a_DeleteTargetPath allocation\<rparr>"

definition remove_and_compact ::
  "'w DeleteController \<Rightarrow> StoredAllocation \<Rightarrow> DetailedOwnershipRecord \<Rightarrow> DetailedAllocationRecord \<Rightarrow> ('w, unit) act" where
  "remove_and_compact c stored ownership allocation =
     andthen (dc_RemoveQuarantine c allocation) (\<lambda>_.
     andthen (canonicalNow (dc_process c)) (\<lambda>now.
     andthen (store_Update (dc_allocations c) stored (DetailedA (deleted_record allocation now))) (\<lambda>updated.
     andthen (lift (detailed_of updated)) (\<lambda>deleted.
     andthen (lift (compactOwnershipFromDeleted deleted ownership)) (\<lambda>compact.
     owner_Compact (dc_ownerships c) ownership compact)))))"

definition completePhysicalDelete ::
  "'w DeleteController \<Rightarrow> StoredAllocation \<Rightarrow> DetailedOwnershipRecord \<Rightarrow> ('w, unit) act" where
  "completePhysicalDelete c stored ownership =
     andthen (persist_remove_start c stored ownership) (\<lambda>(stored, ownership).
     andthen (lift (detailed_of stored)) (\<lambda>allocation.
     guard (ensure (o_DeleteRemoveStartedAt ownership = a_DeleteRemoveStartedAt allocation)
         ''allocation and ownership remove-start evidence differs'')
     (remove_and_compact c stored ownership allocation)))"

definition dispose :: "'w DeleteController \<Rightarrow> StoredAllocation \<Rightarrow> DetailedOwnershipRecord \<Rightarrow> ('w, unit) act" where
  "dispose c stored detailedOwnership =
     andthen (lift (detailed_of stored)) (\<lambda>allocation.
     andthen (dc_PrepareDisposition c allocation) (\<lambda>_.
       if a_DeleteOperation allocation = DeleteOperationArchive then
         completeArchiveOrRetain c stored detailedOwnership StateArchived
       else if a_DeleteOperation allocation = DeleteOperationRetain then
         completeArchiveOrRetain c stored detailedOwnership StateRetained
       else if a_DeleteOperation allocation = DeleteOperationDelete then
         completePhysicalDelete c stored detailedOwnership
       else fail (errorf ''prepared delete operation is unsupported'')))"

definition dispose_unfenced :: "'w DeleteController \<Rightarrow> StoredAllocation \<Rightarrow> DetailedOwnershipRecord \<Rightarrow> ('w, unit) act" where
  "dispose_unfenced c stored detailedOwnership =
     andthen (lift (detailed_of stored)) (\<lambda>allocation.
     guard (ensure_is (slice_len (a_PublishedNodeIDs allocation) = 0) ErrPublishedFenceBlocked ''published nodes'')
     (andthen
        (if a_State allocation = StateReady then prepareDelete c stored detailedOwnership
         else ret (stored, detailedOwnership)) (\<lambda>(stored, detailedOwnership).
      dispose c stored detailedOwnership)))"

definition delete_data :: "'w DeleteController \<Rightarrow> StoredAllocation \<Rightarrow> OwnershipRecord \<Rightarrow> ('w, unit) act" where
  "delete_data c stored ownershipRecord =
     andthen (lift (detailed_of stored)) (\<lambda>allocation.
     if a_State allocation = StateArchived \<or> a_State allocation = StateRetained \<or> a_State allocation = StateDeleted
     then ret ()
     else
       guard (ensure (a_State allocation = StateReady \<or> a_State allocation = StateDeleting)
           ''DeleteVolume cannot operate on allocation state'')
       (andthen (dc_attachments c (a_VolumeHandle allocation)) (\<lambda>attached.
        if attached then fail (sentinel_err ErrVolumeInUse)
        else
          (case ownershipRecord of
             CompactO compact \<Rightarrow> fail (errorf ''data-bearing delete allocation has ownership kind'')
           | DetailedO detailedOwnership \<Rightarrow>
               andthen (reconcileDeleteFenceUnion c stored detailedOwnership) (\<lambda>(stored, detailedOwnership).
               dispose_unfenced c stored detailedOwnership)))))"

definition deleteDetailed :: "'w DeleteController \<Rightarrow> StoredAllocation \<Rightarrow> ('w, unit) act" where
  "deleteDetailed c stored =
     andthen (lift (detailed_of stored)) (\<lambda>allocation.
     if a_State allocation = StateDeleted then finishDeletedPair c allocation
     else
       andthen (owner_Load (dc_ownerships c) allocation) (\<lambda>ownershipRecord.
       andthen (reconcileDeletePair c stored ownershipRecord) (\<lambda>ownershipRecord.
       delete_data c stored ownershipRecord)))"

section \<open>Missing allocations\<close>

definition recovered_mapping_ok :: "AllocationRecord \<Rightarrow> string \<Rightarrow> Handle \<Rightarrow> string \<Rightarrow> error option" where
  "recovered_mapping_ok record volumeID handle handleHash =
     (case record of
        DetailedA typed \<Rightarrow>
          ensure (\<not> (a_MappingHash typed \<noteq> h_MappingHash handle \<or> a_VolumeHandle typed \<noteq> volumeID
                     \<or> a_VolumeHandleHash typed \<noteq> handleHash))
            ''recovered detailed mapping differs from handle''
      | CompactA typed \<Rightarrow>
          ensure (\<not> (ca_MappingHash typed \<noteq> h_MappingHash handle \<or> ca_VolumeHandleHash typed \<noteq> handleHash))
            ''recovered compact mapping differs from handle''
      | UnknownA typed \<Rightarrow> Some (errorf ''recovered allocation kind is unsupported''))"

definition validateRecoveredDeleteHandle :: "AllocationRecord \<Rightarrow> string \<Rightarrow> Handle \<Rightarrow> error option" where
  "validateRecoveredDeleteHandle record volumeID handle = errs
     [ensure (Allocation_LogicalID record = h_LogicalVolumeID handle)
        ''recovered logical volume ID differs from handle'',
      and_check (VolumeHandleHash volumeID) (recovered_mapping_ok record volumeID handle)]"

definition createResolvedAllocation :: "'w DeleteController \<Rightarrow> AllocationRecord \<Rightarrow> ('w, StoredAllocation) act" where
  "createResolvedAllocation c record =
     andthen (attempt (store_Create (dc_allocations c) record)) (\<lambda>created.
       case created of
         Inr stored \<Rightarrow> ret stored
       | Inl err \<Rightarrow>
           if \<not> errors_is err ErrAlreadyExists \<and> \<not> errors_is err ErrUnavailable then fail err
           else
             andthen (attempt (store_Get (dc_allocations c) (Allocation_LogicalID record))) (\<lambda>reread.
               case reread of
                 Inr stored \<Rightarrow> ret stored
               | Inl readErr \<Rightarrow>
                   if errors_is readErr ErrNotFound
                   then fail (Errorf ''resolved allocation write remained ambiguous'' [ErrUnavailable])
                   else fail readErr))"

definition unknown_tombstone :: "'w DeleteController \<Rightarrow> Handle \<Rightarrow> string \<Rightarrow> string \<Rightarrow> string \<Rightarrow> DeletedUnknownAllocationRecord" where
  "unknown_tombstone c handle handleHash reason now = \<lparr>
     ua_SchemaVersion = SchemaVersionV1, ua_RecordKind = AllocationRecordDeletedUnknown, ua_RecordRevision = 1,
     ua_DriverName = dc_driverName c, ua_InstallationID = dc_installationID c, ua_ActiveClusterUID = dc_clusterUID c,
     ua_LogicalVolumeID = h_LogicalVolumeID handle, ua_VolumeHandleHash = handleHash,
     ua_MappingHash = h_MappingHash handle, ua_State = StateDeleted, ua_ReservesCapacity = False,
     ua_AbsenceReason = reason, ua_CreatedAt = now, ua_UpdatedAt = now, ua_DeletedAt = now\<rparr>"

definition resolveMissing :: "'w DeleteController \<Rightarrow> string \<Rightarrow> Handle \<Rightarrow> ('w, StoredAllocation) act" where
  "resolveMissing c volumeID handle =
     andthen (dc_resolver c handle) (\<lambda>resolution.
       case md_RecoveredAllocation resolution of
         Some recovered \<Rightarrow>
           if md_ConclusiveAbsence resolution
           then fail (errorf ''missing delete resolver returned both recovery and absence'')
           else if validateRecoveredDeleteHandle recovered volumeID handle \<noteq> None
           then fail (errorf ''recovered allocation conflicts with DeleteVolume handle'')
           else createResolvedAllocation c recovered
       | None \<Rightarrow>
           if \<not> md_ConclusiveAbsence resolution \<or> md_AbsenceReason resolution = []
           then fail (Errorf ''missing delete state is not conclusively absent'' [ErrUnavailable])
           else
             andthen (lift (VolumeHandleHash volumeID)) (\<lambda>handleHash.
             andthen (canonicalNow (dc_process c)) (\<lambda>now.
             createResolvedAllocation c
               (UnknownA (unknown_tombstone c handle handleHash (md_AbsenceReason resolution) now)))))"

section \<open>Entry points\<close>

definition delete_stored :: "'w DeleteController \<Rightarrow> string \<Rightarrow> Handle \<Rightarrow> StoredAllocation \<Rightarrow> ('w, unit) act" where
  "delete_stored c volumeID handle stored =
     guard (validateAllocationRuntimeIdentity (Some (sa_Record stored)) (dc_driverName c) (dc_installationID c)
         (dc_clusterUID c))
     (andthen (lift (VolumeHandleHash volumeID)) (\<lambda>handleHash.
        case sa_Record stored of
          CompactA tombstone \<Rightarrow>
            guard (ensure (\<not> (ca_MappingHash tombstone \<noteq> h_MappingHash handle \<or> ca_VolumeHandleHash tombstone \<noteq> handleHash))
                ''DeleteVolume handle conflicts with compact tombstone'') (ret ())
        | UnknownA tombstone \<Rightarrow>
            guard (ensure (\<not> (ua_MappingHash tombstone \<noteq> h_MappingHash handle \<or> ua_VolumeHandleHash tombstone \<noteq> handleHash))
                ''DeleteVolume handle conflicts with deleted-unknown tombstone'') (ret ())
        | DetailedA allocation \<Rightarrow>
            guard (ensure (\<not> (a_MappingHash allocation \<noteq> h_MappingHash handle \<or> a_VolumeHandle allocation \<noteq> volumeID))
                ''DeleteVolume handle conflicts with durable mapping'') (deleteDetailed c stored)))"

definition Delete :: "'w DeleteController \<Rightarrow> string \<Rightarrow> ('w, unit) act" where
  "Delete c volumeID =
     (if volumeID = [] then fail (sentinel_err ErrEmptyVolumeID)
      else
        case ParseHandle volumeID of
          Inl err \<Rightarrow>
            if errors_is err ErrForeignHandle \<or> errors_is err ErrInvalidHandle then ret () else fail err
        | Inr handle \<Rightarrow>
            locked (dc_process c) (h_LogicalVolumeID handle)
              (andthen (attempt (store_Get (dc_allocations c) (h_LogicalVolumeID handle))) (\<lambda>fetched.
               andthen
                 (case fetched of
                    Inr stored \<Rightarrow> ret stored
                  | Inl err \<Rightarrow> if errors_is err ErrNotFound then resolveMissing c volumeID handle else fail err)
                 (\<lambda>stored. delete_stored c volumeID handle stored))))"

definition ReconcileExistingDeletion :: "'w DeleteController \<Rightarrow> string \<Rightarrow> ('w, unit) act" where
  "ReconcileExistingDeletion c logicalVolumeID =
     guard (ValidateLogicalVolumeID logicalVolumeID)
     (locked (dc_process c) logicalVolumeID
        (andthen (store_Get (dc_allocations c) logicalVolumeID) (\<lambda>stored.
           case sa_Record stored of
             DetailedA record \<Rightarrow>
               guard (validateAllocationRuntimeIdentity (Some (DetailedA record)) (dc_driverName c) (dc_installationID c)
                   (dc_clusterUID c))
               (guard (ensure (a_LogicalVolumeID record = logicalVolumeID)
                   ''startup deletion record belongs to another logical ID'')
                 (if a_State record = StateDeleting \<or> a_State record = StateArchived \<or> a_State record = StateRetained
                  then deleteDetailed c stored
                  else if a_State record = StateDeleted then
                    guard (ensure (a_GCOperationID record = [])
                        ''GC-created Deleted allocation must be reconciled by GCController'')
                      (deleteDetailed c stored)
                  else fail (errorf ''startup deletion reconciliation cannot operate on state'')))
           | _ \<Rightarrow> fail (errorf ''startup deletion record kind is not detailed''))))"

section \<open>Every interruption leaves a consistent pair\<close>

declare startup_consistent.simps(1) [simp del]

text \<open>When the filesystem may move the directory of a volume aside, and when it may remove it.\<close>

definition disposition_authorised :: "DetailedAllocationRecord \<Rightarrow> DetailedOwnershipRecord \<Rightarrow> bool" where
  "disposition_authorised a d \<longleftrightarrow> a_State a = StateDeleting \<and> o_State d = StateDeleting
     \<and> validateDeleteProgressPair a d = None \<and> slice_len (a_PublishedNodeIDs a) = 0"

definition removal_authorised :: "DetailedAllocationRecord \<Rightarrow> DetailedOwnershipRecord \<Rightarrow> bool" where
  "removal_authorised a d \<longleftrightarrow> disposition_authorised a d \<and> a_DeleteOperation a = DeleteOperationDelete
     \<and> a_DeleteRemoveStartedAt a \<noteq> [] \<and> o_DeleteRemoveStartedAt d = a_DeleteRemoveStartedAt a"

text \<open>The records of a finished delete.\<close>

fun delete_settled :: "AllocationRecord option \<Rightarrow> OwnershipRecord option \<Rightarrow> bool" where
  "delete_settled (Some (DetailedA a)) (Some (DetailedO d)) \<longleftrightarrow>
     (a_State a = StateArchived \<or> a_State a = StateRetained) \<and> o_State d = a_State a"
| "delete_settled (Some (DetailedA a)) (Some (CompactO k)) \<longleftrightarrow> a_State a = StateDeleted"
| "delete_settled (Some (CompactA a)) (Some (CompactO k)) \<longleftrightarrow> True"
| "delete_settled (Some (UnknownA a)) None \<longleftrightarrow> True"
| "delete_settled _ _ \<longleftrightarrow> False"

locale delete_services = record_services +
  fixes c :: "'a DeleteController"
  assumes wired: "dc_allocations c = store" "dc_ownerships c = owners" "dc_process c = proc"
    and attachments: "quiet (dc_attachments c h)"
    and disposition: "sa_Record s = DetailedA a \<Longrightarrow> disposition_authorised a d \<Longrightarrow>
      quiet_at s (Some (DetailedO d)) (dc_PrepareDisposition c a)"
    and removal: "sa_Record s = DetailedA a \<Longrightarrow> removal_authorised a d \<Longrightarrow>
      quiet_at s (Some (DetailedO d)) (dc_RemoveQuarantine c a)"
    and resolver: "h_LogicalVolumeID hnd = vid \<Longrightarrow> triple (stands a' o') (dc_resolver c hnd) (\<lambda>_. stands a' o')
      (\<lambda>m w. stands a' o' w \<and> (recoverable o' \<longrightarrow> resolution_sound m o'))"
begin

lemma mirror_triple:
  assumes rec: "sa_Record s = DetailedA a" and pair: "startup_detailed_pair a d = None"
    and st: "a_State a = StateDeleting \<or> a_State a = StateArchived \<or> a_State a = StateRetained"
    and ost: "o_State d = StateReady \<or> o_State d = StateDeleting"
  shows "triple (holds s (Some (DetailedO d))) (mirror_to_ownership c d a) (\<lambda>_. consistent)
    (\<lambda>n w. holds s (Some (DetailedO n)) w \<and> startup_detailed_pair a n = None \<and> o_State n = a_State a
       \<and> o_PublishedNodeIDs n = a_PublishedNodeIDs a \<and> o_DeleteRemoveStartedAt n = a_DeleteRemoveStartedAt a)"
  unfolding mirror_to_ownership_def wired
proof (rule triple_lift_andthen)
  have ok: "startup_consistent (Some (sa_Record s)) (Some (DetailedO d))"
    using rec pair st by (auto simp: consistent_detailed)
  then show "holds s (Some (DetailedO d)) w \<Longrightarrow> consistent w" for w by (rule holds_consistent [rotated])
  fix n assume m: "mirrorDeleteLifecycle d a = Inr n"
  note win = mirror_delete_window [OF pair st ost m]
  have "startup_consistent (Some (sa_Record s)) (Some (DetailedO n))"
    using rec win(1) st by (auto simp: consistent_detailed)
  then show "triple (holds s (Some (DetailedO d))) (andthen (owner_UpdateDetailed owners d n) (\<lambda>_. ret n))
      (\<lambda>_. consistent) (\<lambda>n w. holds s (Some (DetailedO n)) w \<and> startup_detailed_pair a n = None \<and> o_State n = a_State a
       \<and> o_PublishedNodeIDs n = a_PublishedNodeIDs a \<and> o_DeleteRemoveStartedAt n = a_DeleteRemoveStartedAt a)"
    by (intro triple_andthen [OF owner_update_triple [OF ok]] triple_ret) (auto simp: win)
qed

lemma holds_settled: "holds s o' w \<Longrightarrow> startup_consistent (Some (sa_Record s)) o' \<Longrightarrow> delete_settled (Some (sa_Record s)) o'
  \<Longrightarrow> consistent w \<and> delete_settled (map_option sa_Record (alloc w)) (own w)"
  by (auto simp: holds_def consistent_def)

fun aligned :: "DetailedAllocationRecord \<Rightarrow> OwnershipRecord \<Rightarrow> bool" where
  "aligned a (DetailedO d) \<longleftrightarrow> o_State d = a_State a \<and> a_State a \<noteq> StateDeleted"
| "aligned a (CompactO k) \<longleftrightarrow> a_State a = StateDeleted"

lemma reconcile_triple:
  assumes rec: "sa_Record s = DetailedA a" and ok: "startup_consistent (Some (DetailedA a)) (Some x)"
  shows "triple (holds s (Some x)) (reconcileDeletePair c s x) (\<lambda>_. consistent)
    (\<lambda>y w. holds s (Some y) w \<and> startup_consistent (Some (DetailedA a)) (Some y) \<and> aligned a y)"
proof -
  have c: "holds s (Some x) w \<Longrightarrow> consistent w" for w
    using holds_consistent [of s "Some x" w] rec ok by simp
  show ?thesis
  proof (cases x)
    case (CompactO k)
    then show ?thesis
      unfolding reconcileDeletePair_def detailed_of_detailed [OF rec] andthen_lift_Inr
      using ok c by (auto intro!: triple_rules simp: consistent_compact)
  next
    case (DetailedO d)
    then have pair: "startup_detailed_pair a d = None" and f: "a_State a = StateDeleted \<longrightarrow> slice_len (a_PublishedNodeIDs a) = 0"
      using ok by (simp_all add: consistent_detailed)
    note mirrored = triple_andthen [OF mirror_triple [OF rec pair]]
      and compacted = triple_andthen [OF compact_triple [OF rec]]
    show ?thesis
      unfolding DetailedO reconcileDeletePair_def detailed_of_detailed [OF rec] andthen_lift_Inr OwnershipRecord.case wired
      by (intro triple_rules mirrored compacted)
        (use ok DetailedO c f in \<open>auto simp: consistent_detailed ValidateDetailedPair_def pair_iff\<close>)
  qed
qed

lemma fence_union_triple:
  assumes st: "staged st s a d" and live: "st \<noteq> StateDeleted"
  shows "triple (holds s (Some (DetailedO d))) (reconcileDeleteFenceUnion c s d) (\<lambda>_. consistent)
    (\<lambda>(s', d') w. \<exists>a'. holds s' (Some (DetailedO d')) w \<and> staged st s' a' d')"
proof -
  have rec: "sa_Record s = DetailedA a" using st by (simp add: staged_def)
  show ?thesis
    unfolding reconcileDeleteFenceUnion_def detailed_of_detailed [OF rec] andthen_lift_Inr wired Let_def
    by (rule triple_post [OF fence_union_steps [OF st live]]) auto
qed

end

context delete_services
begin

text \<open>The dual write of every step: update the allocation, then mirror it into the ownership record.\<close>

lemma update_mirror:
  assumes ok: "startup_consistent (Some (sa_Record s)) (Some (DetailedO d))"
    and win: "ValidateAllocationUpdate (Some (sa_Record s)) (Some (DetailedA n)) = None \<Longrightarrow> startup_detailed_pair n d = None"
    and st: "a_State n = StateDeleting \<or> a_State n = StateArchived \<or> a_State n = StateRetained"
    and ost: "o_State d = StateReady \<or> o_State d = StateDeleting"
    and g: "\<And>s'. sa_Record s' = DetailedA n \<Longrightarrow> g s' = andthen (mirror_to_ownership c d n) (f s')"
    and rest: "\<And>s' d'. staged (a_State n) s' n d' \<Longrightarrow> o_DeleteRemoveStartedAt d' = a_DeleteRemoveStartedAt n \<Longrightarrow>
      triple (holds s' (Some (DetailedO d'))) (f s' d') (\<lambda>_. consistent) Q"
  shows "triple (holds s (Some (DetailedO d))) (andthen (store_Update store s (DetailedA n)) g) (\<lambda>_. consistent) Q"
proof (rule triple_andthen [OF update_triple [OF ok]])
  show "startup_consistent (Some (DetailedA n)) (Some (DetailedO d))"
    if "ValidateAllocationUpdate (Some (sa_Record s)) (Some (DetailedA n)) = None"
    using win [OF that] st by (auto simp: consistent_detailed)
  fix s'
  show "triple (\<lambda>w. holds s' (Some (DetailedO d)) w \<and> sa_Record s' = DetailedA n
      \<and> ValidateAllocationUpdate (Some (sa_Record s)) (Some (DetailedA n)) = None) (g s') (\<lambda>_. consistent) Q"
  proof (rule triple_fact2, elim conjE)
    assume r: "sa_Record s' = DetailedA n"
      and u: "ValidateAllocationUpdate (Some (sa_Record s)) (Some (DetailedA n)) = None"
    show "triple (holds s' (Some (DetailedO d))) (g s') (\<lambda>_. consistent) Q"
      unfolding g [OF r]
    proof (rule triple_andthen [OF mirror_triple [OF r win [OF u] st ost]])
      fix d'
      show "triple (\<lambda>w. holds s' (Some (DetailedO d')) w \<and> startup_detailed_pair n d' = None \<and> o_State d' = a_State n
         \<and> o_PublishedNodeIDs d' = a_PublishedNodeIDs n \<and> o_DeleteRemoveStartedAt d' = a_DeleteRemoveStartedAt n)
         (f s' d') (\<lambda>_. consistent) Q"
        by (rule triple_fact2) (use rest [of s' d'] r in \<open>auto simp: staged_def\<close>)
    qed
  qed
qed

lemma prepare_triple:
  assumes st: "staged StateReady s a d" and f: "slice_len (a_PublishedNodeIDs a) = 0"
  shows "triple (holds s (Some (DetailedO d))) (prepareDelete c s d) (\<lambda>_. consistent)
    (\<lambda>(s', d') w. \<exists>a'. holds s' (Some (DetailedO d')) w \<and> staged StateDeleting s' a' d' \<and> slice_len (a_PublishedNodeIDs a') = 0)"
proof -
  note rec = stagedD(1) [OF st] and pair = stagedD(2) [OF st] and states = stagedD(3,4) [OF st]
  have ok: "startup_consistent (Some (sa_Record s)) (Some (DetailedO d))" using staged_consistent [OF st] by simp
  have n: "a_State (prepared_record a i now t) = StateDeleting"
    "a_PublishedNodeIDs (prepared_record a i now t) = a_PublishedNodeIDs a" for i now t
    by (simp_all add: prepared_record_def Let_def)
  show ?thesis
    unfolding prepareDelete_def detailed_of_detailed [OF rec] andthen_lift_Inr wired Let_def
    by (intro triple_rules update_mirror [OF ok, where f = "\<lambda>s' d'. ret (s', d')"]
          triple_andthen [OF quiet_step [OF quiet_services(2) ok]]
          triple_andthen [OF quiet_step [OF quiet_services(1) ok]])
      (use holds_consistent [OF _ ok] prepare_delete_window [OF pair states] rec states n f in auto)
qed

lemma archive_triple:
  assumes st: "staged StateDeleting s a d" and t: "t = StateArchived \<or> t = StateRetained"
  shows "triple (holds s (Some (DetailedO d))) (completeArchiveOrRetain c s d t) (\<lambda>_. consistent)
    (\<lambda>_ w. consistent w \<and> delete_settled (map_option sa_Record (alloc w)) (own w))"
proof -
  note rec = stagedD(1) [OF st] and pair = stagedD(2) [OF st] and states = stagedD(3,4) [OF st]
  have ok: "startup_consistent (Some (sa_Record s)) (Some (DetailedO d))" using staged_consistent [OF st] by simp
  have n: "a_State (terminal_record a t now) = t" for now by (simp add: terminal_record_def Let_def)
  have win: "startup_detailed_pair (terminal_record a t now) d = None"
    if "ValidateAllocationUpdate (Some (DetailedA a)) (Some (DetailedA (terminal_record a t now))) = None" for now
    by (rule complete_archive_window [OF pair states that]) (use t in \<open>auto simp: terminal_record_def Let_def\<close>)
  show ?thesis
    unfolding completeArchiveOrRetain_def detailed_of_detailed [OF rec] andthen_lift_Inr wired
    by (intro triple_andthen [OF quiet_step [OF quiet_services(1) ok]] update_mirror [OF ok, where f = "\<lambda>s' d'. ret ()"] triple_ret)
      (use win rec states n t in \<open>auto simp: detailed_of_detailed staged_def holds_def consistent_def consistent_detailed\<close>)
qed

lemma remove_start_triple:
  assumes st: "staged StateDeleting s a d" and f: "slice_len (a_PublishedNodeIDs a) = 0"
    and op: "a_DeleteOperation a = DeleteOperationDelete"
  shows "triple (holds s (Some (DetailedO d))) (persist_remove_start c s d) (\<lambda>_. consistent)
    (\<lambda>(s', d') w. \<exists>a'. holds s' (Some (DetailedO d')) w \<and> (staged StateDeleting s' a' d'
       \<and> slice_len (a_PublishedNodeIDs a') = 0 \<and> a_DeleteOperation a' = DeleteOperationDelete \<and> a_DeleteRemoveStartedAt a' \<noteq> []))"
proof -
  note rec = stagedD(1) [OF st] and pair = stagedD(2) [OF st] and states = stagedD(3,4) [OF st]
  have ok: "startup_consistent (Some (sa_Record s)) (Some (DetailedO d))" using staged_consistent [OF st] by simp
  show ?thesis
    unfolding persist_remove_start_def detailed_of_detailed [OF rec] andthen_lift_Inr wired
  proof (intro triple_if triple_andthen [OF now_triple [OF ok]] triple_ret, unfold triple_fact, rule impI)
    fix now :: string assume none: "a_DeleteRemoveStartedAt a = []" and now: "now \<noteq> []"
    define n where "n = a\<lparr>a_RecordRevision := a_RecordRevision a + 1, a_UpdatedAt := now, a_DeleteRemoveStartedAt := now\<rparr>"
    have nf: "a_State n = StateDeleting" "slice_len (a_PublishedNodeIDs n) = 0" "a_DeleteOperation n = DeleteOperationDelete"
      "a_DeleteRemoveStartedAt n \<noteq> []" using states f op now by (simp_all add: n_def)
    have win: "startup_detailed_pair n d = None" if "ValidateAllocationUpdate (Some (DetailedA a)) (Some (DetailedA n)) = None"
      by (rule remove_start_window [OF pair states none that]) (use states in \<open>simp_all add: n_def\<close>)
    show "triple (holds s (Some (DetailedO d))) (andthen (store_Update store s (DetailedA
          (a\<lparr>a_RecordRevision := a_RecordRevision a + 1, a_UpdatedAt := now, a_DeleteRemoveStartedAt := now\<rparr>))) (\<lambda>updated.
        andthen (lift (detailed_of updated)) (\<lambda>b. andthen (mirror_to_ownership c d b) (\<lambda>o'. ret (updated, o'))))) (\<lambda>_. consistent)
      (\<lambda>(s', d') w. \<exists>a'. holds s' (Some (DetailedO d')) w \<and> (staged StateDeleting s' a' d'
         \<and> slice_len (a_PublishedNodeIDs a') = 0 \<and> a_DeleteOperation a' = DeleteOperationDelete \<and> a_DeleteRemoveStartedAt a' \<noteq> []))"
      unfolding n_def [symmetric]
      by (intro update_mirror [OF ok, where f = "\<lambda>s' d'. ret (s', d')"] triple_ret)
        (use win rec states nf in \<open>auto simp: detailed_of_detailed\<close>)
  qed (use st f op in auto)
qed

lemma staged_progress:
  "staged StateDeleting s a d \<Longrightarrow> validateDeleteProgressPair a d = None"
  by (auto simp: staged_def startup_detailed_pair_def)

end

context delete_services
begin

abbreviation done_delete :: "'a \<Rightarrow> bool" where
  "done_delete w \<equiv> consistent w \<and> delete_settled (map_option sa_Record (alloc w)) (own w)"

lemma remove_and_compact_triple:
  assumes st: "staged StateDeleting s a d" and f: "slice_len (a_PublishedNodeIDs a) = 0"
    and op: "a_DeleteOperation a = DeleteOperationDelete" and ev: "a_DeleteRemoveStartedAt a \<noteq> []"
    and match: "o_DeleteRemoveStartedAt d = a_DeleteRemoveStartedAt a"
  shows "triple (holds s (Some (DetailedO d))) (remove_and_compact c s d a) (\<lambda>_. consistent) (\<lambda>_. done_delete)"
proof -
  note rec = stagedD(1) [OF st] and pair = stagedD(2) [OF st] and states = stagedD(3,4) [OF st]
  have ok: "startup_consistent (Some (sa_Record s)) (Some (DetailedO d))" using staged_consistent [OF st] by simp
  have auth: "removal_authorised a d"
    using staged_progress [OF st] states f op ev match by (simp add: removal_authorised_def disposition_authorised_def)
  have nf: "a_State (deleted_record a now) = StateDeleted" "slice_len (a_PublishedNodeIDs (deleted_record a now)) = 0" for now
    using f by (simp_all add: deleted_record_def)
  have win: "startup_consistent (Some (DetailedA (deleted_record a now))) (Some (DetailedO d))"
    if "ValidateAllocationUpdate (Some (sa_Record s)) (Some (DetailedA (deleted_record a now))) = None" for now
    using complete_delete_window [OF pair states ev match op, of "deleted_record a now"] that rec f
    by (simp add: consistent_detailed deleted_record_def)
  show ?thesis
    unfolding remove_and_compact_def wired
  proof (intro triple_andthen [OF effect_step [OF removal [OF rec auth] ok]] triple_andthen [OF quiet_step [OF quiet_services(1) ok]],
      rule triple_andthen [OF update_triple [OF ok win]], assumption, rule triple_fact2, elim conjE)
    fix now and s' :: StoredAllocation assume r: "sa_Record s' = DetailedA (deleted_record a now)"
      and u: "ValidateAllocationUpdate (Some (sa_Record s)) (Some (DetailedA (deleted_record a now))) = None"
    show "triple (holds s' (Some (DetailedO d))) (andthen (lift (detailed_of s')) (\<lambda>deleted.
      andthen (lift (compactOwnershipFromDeleted deleted d)) (owner_Compact owners d))) (\<lambda>_. consistent) (\<lambda>_. done_delete)"
      unfolding detailed_of_detailed [OF r] andthen_lift_Inr
      by (intro triple_rules triple_post [OF compact_triple [OF r nf(1) win [OF u]]])
        (use holds_consistent [of s'] win [OF u] r nf in \<open>auto simp: holds_def consistent_def\<close>)
  qed
qed

lemma physical_triple:
  assumes st: "staged StateDeleting s a d" and f: "slice_len (a_PublishedNodeIDs a) = 0"
    and op: "a_DeleteOperation a = DeleteOperationDelete"
  shows "triple (holds s (Some (DetailedO d))) (completePhysicalDelete c s d) (\<lambda>_. consistent) (\<lambda>_. done_delete)"
  unfolding completePhysicalDelete_def
proof (rule triple_andthen [OF remove_start_triple [OF st f op]], unfold split_paired_all prod.case, intro triple_ex triple_fact2, elim conjE)
  fix s' d' a'
  assume st': "staged StateDeleting s' a' d'" and rest: "slice_len (a_PublishedNodeIDs a') = 0"
    "a_DeleteOperation a' = DeleteOperationDelete" "a_DeleteRemoveStartedAt a' \<noteq> []"
  have "startup_consistent (Some (sa_Record s')) (Some (DetailedO d'))" using staged_consistent [OF st'] by simp
  then show "triple (holds s' (Some (DetailedO d'))) (andthen (lift (detailed_of s')) (\<lambda>allocation.
     guard (ensure (o_DeleteRemoveStartedAt d' = a_DeleteRemoveStartedAt allocation)
         ''allocation and ownership remove-start evidence differs'')
     (remove_and_compact c s' d' allocation))) (\<lambda>_. consistent) (\<lambda>_. done_delete)"
    unfolding detailed_of_detailed [OF stagedD(1) [OF st']] andthen_lift_Inr
    by (intro triple_guard remove_and_compact_triple [OF st' rest]) (auto intro: holds_consistent)
qed

lemma dispose_triple:
  assumes st: "staged StateDeleting s a d" and f: "slice_len (a_PublishedNodeIDs a) = 0"
  shows "triple (holds s (Some (DetailedO d))) (dispose c s d) (\<lambda>_. consistent) (\<lambda>_. done_delete)"
proof -
  have ok: "startup_consistent (Some (sa_Record s)) (Some (DetailedO d))" using staged_consistent [OF st] by simp
  have auth: "disposition_authorised a d"
    using staged_progress [OF st] stagedD(3,4) [OF st] f by (simp add: disposition_authorised_def)
  show ?thesis
    unfolding dispose_def detailed_of_detailed [OF stagedD(1) [OF st]] andthen_lift_Inr
    by (intro triple_andthen [OF effect_step [OF disposition [OF stagedD(1) [OF st] auth] ok]] triple_if triple_fail archive_triple [OF st] physical_triple [OF st f])
      (use holds_consistent [OF _ ok] in auto)
qed

lemma finish_deleted_triple:
  assumes rec: "sa_Record s = DetailedA a" and st: "a_State a = StateDeleted"
    and ok: "startup_consistent (Some (sa_Record s)) o'"
  shows "triple (holds s o') (finishDeletedPair c a) (\<lambda>_. consistent) (\<lambda>_. done_delete)"
  unfolding finishDeletedPair_def wired
proof (rule load_then [OF rec ok])
  fix x assume "o' = Some x"
  then show "triple (holds s (Some x)) (compact_deleted c a x) (\<lambda>_. consistent) (\<lambda>_. done_delete)"
    using ok rec st unfolding compact_deleted_def wired
    by (cases x) (auto intro!: triple_rules triple_post [OF compact_triple [OF rec]] simp: holds_def consistent_def)
qed

lemma dispose_unfenced_triple:
  assumes st: "staged st s a d" and live: "st = StateReady \<or> st = StateDeleting"
  shows "triple (holds s (Some (DetailedO d))) (dispose_unfenced c s d) (\<lambda>_. consistent) (\<lambda>_. done_delete)"
proof -
  have ok: "startup_consistent (Some (sa_Record s)) (Some (DetailedO d))"
    using staged_consistent [OF st] live by fastforce
  have next_step: "triple (\<lambda>w. \<exists>a'. holds s' (Some (DetailedO d')) w \<and> staged StateDeleting s' a' d' \<and> slice_len (a_PublishedNodeIDs a') = 0)
      (dispose c s' d') (\<lambda>_. consistent) (\<lambda>_. done_delete)" for s' d'
    by (intro triple_ex triple_fact2) (auto intro: dispose_triple)
  show ?thesis
    unfolding dispose_unfenced_def detailed_of_detailed [OF stagedD(1) [OF st]] andthen_lift_Inr
    using stagedD(3) [OF st] st live holds_consistent [OF _ ok]
    by (auto intro!: triple_guard triple_andthen [OF prepare_triple] dispose_triple next_step)
qed

lemma delete_data_triple:
  assumes rec: "sa_Record s = DetailedA a" and ok: "startup_consistent (Some (DetailedA a)) (Some x)" and al: "aligned a x"
  shows "triple (holds s (Some x)) (delete_data c s x) (\<lambda>_. consistent) (\<lambda>_. done_delete)"
proof -
  have c: "holds s (Some x) w \<Longrightarrow> consistent w" for w using holds_consistent [of s "Some x" w] rec ok by simp
  have ok': "startup_consistent (Some (sa_Record s)) (Some x)" using ok rec by simp
  have body: "triple (holds s (Some (DetailedO d))) (andthen (reconcileDeleteFenceUnion c s d) (\<lambda>(stored, d).
      dispose_unfenced c stored d)) (\<lambda>_. consistent) (\<lambda>_. done_delete)"
    if st: "staged st s a d" and live: "st = StateReady \<or> st = StateDeleting" for st d
    by (rule triple_andthen [OF fence_union_triple [OF st]], use live in fastforce,
        unfold split_paired_all prod.case, intro triple_ex triple_fact2) (rule dispose_unfenced_triple [OF _ live])
  show ?thesis
  proof (cases x)
    case (CompactO k)
    then show ?thesis
      unfolding delete_data_def detailed_of_detailed [OF rec] andthen_lift_Inr
      using rec ok al by (auto intro!: triple_ret simp: holds_def consistent_def)
  next
    case (DetailedO d)
    have "staged (a_State a) s a d" using rec ok al by (simp add: DetailedO staged_def consistent_detailed)
    then show ?thesis
      unfolding delete_data_def detailed_of_detailed [OF rec] andthen_lift_Inr DetailedO OwnershipRecord.case
      by (intro triple_if triple_ret triple_guard triple_fail body
          triple_andthen [OF quiet_step [OF attachments ok' [unfolded DetailedO]]])
        (use rec ok al c in \<open>auto simp: DetailedO holds_def consistent_def\<close>)
  qed
qed

lemma delete_detailed_triple:
  assumes rec: "sa_Record s = DetailedA a"
  shows "triple (found s) (deleteDetailed c s) (\<lambda>_. consistent) (\<lambda>_. done_delete)"
proof (rule triple_found)
  fix o' assume ok: "startup_consistent (Some (sa_Record s)) o'"
  have body: "triple (holds s (Some x)) (andthen (reconcileDeletePair c s x) (delete_data c s)) (\<lambda>_. consistent) (\<lambda>_. done_delete)"
    if "o' = Some x" for x
    by (rule triple_andthen [OF reconcile_triple [OF rec]], use ok rec that in simp, rule triple_fact2)
      (auto intro: delete_data_triple [OF rec])
  show "triple (holds s o') (deleteDetailed c s) (\<lambda>_. consistent) (\<lambda>_. done_delete)"
    unfolding deleteDetailed_def detailed_of_detailed [OF rec] andthen_lift_Inr wired
    by (intro triple_if finish_deleted_triple [OF rec _ ok] load_then [OF rec ok] body)
qed

lemma delete_stored_triple: "triple (found s) (delete_stored c v h s) (\<lambda>_. consistent) (\<lambda>_. done_delete)"
proof -
  have settled: "triple (found s) (ret ()) (\<lambda>_. consistent) (\<lambda>_. done_delete)"
    if "\<And>a. sa_Record s \<noteq> DetailedA a"
    using that by (intro triple_ret) (cases "sa_Record s"; auto simp: found_def holds_def consistent_def)
  show ?thesis
    unfolding delete_stored_def
    by (cases "sa_Record s")
      (auto intro!: triple_guard triple_lift_andthen settled delete_detailed_triple dest: found_consistent)
qed

lemma create_resolved_triple:
  assumes id: "Allocation_LogicalID rec = vid"
  shows "triple (\<lambda>w. consistent w \<and> (alloc w = None \<longrightarrow> startup_consistent (Some rec) (own w)))
     (createResolvedAllocation c rec) (\<lambda>_. consistent) found"
  unfolding createResolvedAllocation_def wired id
proof (rule triple_andthen [OF triple_attempt])
  show "triple (\<lambda>w. consistent w \<and> (alloc w = None \<longrightarrow> startup_consistent (Some rec) (own w))) (store_Create store rec)
      (\<lambda>e. case_sum (\<lambda>_. consistent) found (Inl e)) (\<lambda>s. case_sum (\<lambda>_. consistent) found (Inr s))"
    using create_found [OF id] by simp
  fix r :: "StoredAllocation res"
  have again: "triple consistent (andthen (attempt (store_Get store vid)) (\<lambda>reread. case reread of
        Inr stored \<Rightarrow> ret stored
      | Inl readErr \<Rightarrow> if errors_is readErr ErrNotFound
          then fail (Errorf ''resolved allocation write remained ambiguous'' [ErrUnavailable]) else fail readErr))
      (\<lambda>_. consistent) found"
    by (rule triple_andthen [OF triple_attempt [where Q = "case_sum (\<lambda>_. consistent) found"]])
      (use get_found in \<open>auto intro!: triple_rules split: sum.splits\<close>)
  show "triple (case_sum (\<lambda>_. consistent) found r) (case r of Inr stored \<Rightarrow> ret stored
      | Inl err \<Rightarrow> if \<not> errors_is err ErrAlreadyExists \<and> \<not> errors_is err ErrUnavailable then fail err
         else andthen (attempt (store_Get store vid)) (\<lambda>reread. case reread of
           Inr stored \<Rightarrow> ret stored
         | Inl readErr \<Rightarrow> if errors_is readErr ErrNotFound
             then fail (Errorf ''resolved allocation write remained ambiguous'' [ErrUnavailable]) else fail readErr))
      (\<lambda>_. consistent) found"
    using again by (auto intro!: triple_rules split: sum.splits)
qed

lemma resolver_triple:
  assumes id: "h_LogicalVolumeID hnd = vid"
  shows "triple consistent (dc_resolver c hnd) (\<lambda>_. consistent)
    (\<lambda>m w. consistent w \<and> (alloc w = None \<longrightarrow> resolution_sound m (own w)))"
proof (rule tripleI)
  fix w r w' assume w: "consistent w" and run: "dc_resolver c hnd w = (r, w')"
  have st: "stands (alloc w) (own w) w" using w by (simp add: stands_def consistent_def)
  have same: "consistent v \<and> alloc v = alloc w \<and> own v = own w" if "stands (alloc w) (own w) v" for v
    using that w by (simp add: stands_def consistent_def)
  have "alloc w = None \<longrightarrow> recoverable (own w)" using w by (simp add: consistent_def)
  then show "case r of Inl e \<Rightarrow> consistent w' | Inr m \<Rightarrow> consistent w' \<and> (alloc w' = None \<longrightarrow> resolution_sound m (own w'))"
    using tripleD [OF resolver [OF id] st run] same [of w'] by (cases r) (auto simp del: resolution_sound.simps)
qed

lemma resolve_missing_triple:
  assumes id: "h_LogicalVolumeID hnd = vid"
  shows "triple consistent (resolveMissing c volumeID hnd) (\<lambda>_. consistent) found"
  unfolding resolveMissing_def
proof (rule triple_andthen [OF resolver_triple [OF id]])
  fix m
  let ?P = "\<lambda>w. consistent w \<and> (alloc w = None \<longrightarrow> resolution_sound m (own w))"
  show "triple ?P (case md_RecoveredAllocation m of
         Some recovered \<Rightarrow>
           if md_ConclusiveAbsence m
           then fail (errorf ''missing delete resolver returned both recovery and absence'')
           else if validateRecoveredDeleteHandle recovered volumeID hnd \<noteq> None
           then fail (errorf ''recovered allocation conflicts with DeleteVolume handle'')
           else createResolvedAllocation c recovered
       | None \<Rightarrow>
           if \<not> md_ConclusiveAbsence m \<or> md_AbsenceReason m = []
           then fail (Errorf ''missing delete state is not conclusively absent'' [ErrUnavailable])
           else
             andthen (lift (VolumeHandleHash volumeID)) (\<lambda>handleHash.
             andthen (canonicalNow (dc_process c)) (\<lambda>now.
             createResolvedAllocation c
               (UnknownA (unknown_tombstone c hnd handleHash (md_AbsenceReason m) now))))) (\<lambda>_. consistent) found"
  proof (cases "md_RecoveredAllocation m")
    case (Some rec)
    then show ?thesis
      using create_resolved_triple [of rec] id by (auto intro!: triple_fail simp: validateRecoveredDeleteHandle_def)
  next
    case None
    have unknown: "triple (\<lambda>w. consistent w \<and> (alloc w = None \<longrightarrow> own w = None))
        (createResolvedAllocation c (UnknownA (unknown_tombstone c hnd hash reason now))) (\<lambda>_. consistent) found" for hash reason now
      using create_resolved_triple [of "UnknownA (unknown_tombstone c hnd hash reason now)"] id
      by (simp add: unknown_tombstone_def startup_consistent.simps)
    have now: "triple (\<lambda>w. consistent w \<and> (alloc w = None \<longrightarrow> own w = None)) (canonicalNow (dc_process c)) (\<lambda>_. consistent)
        (\<lambda>_ w. consistent w \<and> (alloc w = None \<longrightarrow> own w = None))"
      unfolding wired by (rule tripleI) (auto simp: consistent_def dest!: quietD [OF quiet_services(1)] split: sum.splits)
    show ?thesis
      using None by (auto intro!: triple_fail triple_rules triple_andthen [OF now] unknown)
  qed
qed

lemma Delete_triple:
  assumes "ParseHandle volumeID = Inr hnd" and "h_LogicalVolumeID hnd = vid" and "volumeID \<noteq> []"
  shows "triple consistent (Delete c volumeID) (\<lambda>_. consistent) (\<lambda>_. done_delete)"
proof -
  have fetch: "triple (case_sum (\<lambda>_. consistent) found fetched) (case fetched of
        Inr stored \<Rightarrow> ret stored
      | Inl err \<Rightarrow> if errors_is err ErrNotFound then resolveMissing c volumeID hnd else fail err) (\<lambda>_. consistent) found" for fetched
    by (cases fetched) (auto intro!: triple_rules resolve_missing_triple [OF assms(2)])
  have "triple consistent (andthen (attempt (store_Get store vid)) (\<lambda>fetched.
      andthen (case fetched of
        Inr stored \<Rightarrow> ret stored
      | Inl err \<Rightarrow> if errors_is err ErrNotFound then resolveMissing c volumeID hnd else fail err)
      (\<lambda>stored. delete_stored c volumeID hnd stored))) (\<lambda>_. consistent) (\<lambda>_. done_delete)"
    by (rule triple_andthen [OF triple_attempt [where Q = "case_sum (\<lambda>_. consistent) found"]])
      (use get_found in \<open>auto intro!: triple_andthen [OF fetch] delete_stored_triple\<close>)
  then show ?thesis
    unfolding Delete_def using assms locked_triple by (simp add: wired)
qed

lemma ReconcileExistingDeletion_triple: "triple consistent (ReconcileExistingDeletion c vid) (\<lambda>_. consistent) (\<lambda>_. done_delete)"
proof -
  have "triple consistent (andthen (store_Get store vid) (\<lambda>stored.
           case sa_Record stored of
             DetailedA record \<Rightarrow>
               guard (validateAllocationRuntimeIdentity (Some (DetailedA record)) (dc_driverName c) (dc_installationID c)
                   (dc_clusterUID c))
               (guard (ensure (a_LogicalVolumeID record = vid)
                   ''startup deletion record belongs to another logical ID'')
                 (if a_State record = StateDeleting \<or> a_State record = StateArchived \<or> a_State record = StateRetained
                  then deleteDetailed c stored
                  else if a_State record = StateDeleted then
                    guard (ensure (a_GCOperationID record = [])
                        ''GC-created Deleted allocation must be reconciled by GCController'')
                      (deleteDetailed c stored)
                  else fail (errorf ''startup deletion reconciliation cannot operate on state'')))
           | _ \<Rightarrow> fail (errorf ''startup deletion record kind is not detailed''))) (\<lambda>_. consistent) (\<lambda>_. done_delete)"
    by (rule triple_andthen [OF get_found])
      (auto intro!: triple_rules delete_detailed_triple dest: found_consistent split: AllocationRecord.split)
  then show ?thesis
    unfolding ReconcileExistingDeletion_def wired by (intro triple_guard locked_triple)
qed

end

section \<open>Every run of the controller\<close>

text \<open>The rule under which a delete may move a directory aside or remove it.\<close>

fun delete_rule :: effect_rule where
  "delete_rule e x (Some (DetailedA a)) (Some (DetailedO d)) \<longleftrightarrow> x = a
     \<and> (case e of Moved \<Rightarrow> disposition_authorised a d | Removed \<Rightarrow> removal_authorised a d)"
| "delete_rule _ _ _ _ \<longleftrightarrow> False"

definition service_delete ::
  "string \<Rightarrow> string \<Rightarrow> string \<Rightarrow> string \<Rightarrow> ServiceWorld missingDeleteResolver \<Rightarrow> ServiceWorld DeleteController" where
  "service_delete vid driverName installationID clusterUID resolver = \<lparr>
     dc_driverName = driverName, dc_installationID = installationID, dc_clusterUID = clusterUID,
     dc_allocations = service_store vid, dc_ownerships = service_owners, dc_resolver = ResolveMissing resolver,
     dc_attachments = (\<lambda>handle. service_question),
     dc_PrepareDisposition = service_effect Moved, dc_RemoveQuarantine = service_effect Removed,
     dc_process = service_process\<rparr>"

interpretation deletion: delete_services "service_store vid" service_owners service_process vid sw_allocation sw_ownership
    "effects_ok delete_rule" "service_delete vid driverName installationID clusterUID
      (service_resolver vid driverName installationID clusterUID namespace release_name (before @ parent # after)
        persistentVolumes claim (dp_id parent))"
  for vid driverName installationID clusterUID namespace release_name before parent after persistentVolumes claim
proof unfold_locales
  fix hnd :: Handle and a' o' assume "h_LogicalVolumeID hnd = vid"
  then show "triple (services.stands delete_rule a' o') (dc_resolver (service_delete vid driverName installationID clusterUID
        (service_resolver vid driverName installationID clusterUID namespace release_name (before @ parent # after)
          persistentVolumes claim (dp_id parent))) hnd) (\<lambda>_. services.stands delete_rule a' o')
      (\<lambda>m w. services.stands delete_rule a' o' w \<and> (recoverable o' \<longrightarrow> resolution_sound m o'))"
    unfolding service_delete_def DeleteController.simps by (rule resolution.resolve_triple)
qed (auto simp: service_delete_def services.quiet_def services.quiet_at_def serve_cases effects_ok_def
      split: outcome.splits list.splits sum.splits option.splits if_splits)

text \<open>
  (C4) A delete is safe to interrupt anywhere. Whatever call of \<^verbatim>\<open>Delete\<close> or of the startup reconciliation
  \<^verbatim>\<open>ReconcileExistingDeletion\<close> is refused, or applied with its answer lost, the two records of the volume
  pass the startup check afterwards; the directory is moved aside only while both records hold the same
  prepared delete and no node is published, and removed only when both also hold the same remove-start
  evidence; and success means that the volume is archived, retained or deleted in both records. When the
  allocation is missing, the resolver of \<^verbatim>\<open>delete_resolver.go\<close> searches the configured parents, among
  which is the one that holds the volume; the ownership record it finds there mirrors no collection
  request without its operation.
\<close>

theorem delete_crash_consistent:
  assumes "startup_consistent (map_option sa_Record (sw_allocation w)) (sw_ownership w)" and "sw_effects w = []"
    and "sw_allocation w = None \<longrightarrow> recoverable (sw_ownership w)"
    and "ParseHandle volumeID = Inr handle" and "volumeID \<noteq> []"
    and "operation \<in> {Delete controller volumeID, ReconcileExistingDeletion controller (h_LogicalVolumeID handle)}"
    and "controller = service_delete (h_LogicalVolumeID handle) driverName installationID clusterUID
      (service_resolver (h_LogicalVolumeID handle) driverName installationID clusterUID namespace release_name
        (before @ parent # after) persistentVolumes claim (dp_id parent))"
    and "operation w = (r, w')"
  shows "startup_consistent (map_option sa_Record (sw_allocation w')) (sw_ownership w')
    \<and> list_all (\<lambda>(e, x, a, d). delete_rule e x a d) (sw_effects w')
    \<and> (r = Inr () \<longrightarrow> delete_settled (map_option sa_Record (sw_allocation w')) (sw_ownership w'))"
proof -
  have start: "services.consistent delete_rule w" using assms(1-3) by (simp add: services.consistent_def effects_ok_def)
  have "triple (services.consistent delete_rule) operation (\<lambda>_. services.consistent delete_rule)
      (\<lambda>_ w. services.consistent delete_rule w \<and> delete_settled (map_option sa_Record (sw_allocation w)) (sw_ownership w))"
    using assms(6) deletion.Delete_triple [OF assms(4) refl assms(5)] deletion.ReconcileExistingDeletion_triple
    unfolding assms(7) by auto
  from tripleD [OF this start assms(8)] show ?thesis
    by (cases r) (auto simp: services.consistent_def effects_ok_def)
qed

lemma sample_consistent: "startup_consistent (Some (DetailedA sample_allocation)) (Some (DetailedO (sample_ownership sample_allocation)))"
proof -
  have state: "a_State sample_allocation = StateReady" "o_State (sample_ownership sample_allocation) = StateReady"
    by (simp_all add: sample_ownership_def ownership_payload_def sample_allocation_def)
  have "ValidateDetailedIdentityPair (Some sample_allocation) (Some (sample_ownership sample_allocation)) StateReady = None"
    using sample_pair by (simp add: ValidateDetailedIdentityPair_def pair_iff)
  then show ?thesis using state by (simp add: consistent_detailed startup_detailed_pair_def)
qed

text \<open>A delete whose first write, the prepared allocation, is applied with its answer lost.\<close>

definition sample_moment :: civil_time where
  "sample_moment = \<lparr>t_year = 2026, t_month = 1, t_day = 2, t_hour = 3, t_minute = 4, t_second = 5, t_nanos = ''000000000''\<rparr>"

definition sample_world :: ServiceWorld where
  "sample_world = \<lparr>sw_allocation = Some sample_stored, sw_ownership = Some (DetailedO (sample_ownership sample_allocation)),
     sw_version = 2, sw_outcomes = replicate 6 Applied @ [Lost (sentinel_err ErrUnavailable)], sw_identifiers = [sample_uuid],
     sw_instants = [sample_moment], sw_answers = [], sw_effects = []\<rparr>"

definition sample_deleter :: "ServiceWorld DeleteController" where
  "sample_deleter = service_delete sample_volume sample_driver sample_uuid ''cluster-1''
     (service_resolver sample_volume sample_driver sample_uuid ''cluster-1'' ''kube-system'' ''csi''
       ([] @ \<lparr>dp_id = ''fs-1'', dp_basePath = sample_base\<rparr> # []) [] (\<lambda>_. Inl (errorf ''no claim''))
       (dp_id \<lparr>dp_id = ''fs-1'', dp_basePath = sample_base\<rparr>))"

lemma sample_moment_format: "format_rfc3339 sample_moment = sample_time"
  by code_simp

lemma sample_prepared: "prepared_record sample_allocation sample_uuid sample_time (sample_target ''.archived'' sample_uuid) = sample_deleting"
  by (simp add: prepared_record_def Let_def sample_deleting_def) (simp add: sample_allocation_def DeletePolicyArchive_def DeleteOperationArchive_def DeleteOperationDelete_def)

lemma sample_prepare_update: "ValidateAllocationUpdate (Some (DetailedA sample_allocation)) (Some (DetailedA sample_deleting)) = None"
  using sample_allocation_ok sample_deleting_ok
  by (simp add: detailed_update_iff)
    (simp add: validateDetailedImmutableEquality_def allowedAllocationStateTransition_def equal_create_parameters sample_deleting_def,
     simp add: sample_allocation_def)

lemma sample_allocation_fields:
  "a_State sample_allocation = StateReady" "a_LogicalVolumeID sample_allocation = sample_volume" "a_VolumeHandle sample_allocation = sample_handle"
  "a_MappingHash sample_allocation = sample_mapping_hash" "a_PublishedNodeIDs sample_allocation = Some []"
  "a_DriverName sample_allocation = sample_driver" "a_InstallationID sample_allocation = sample_uuid" "a_ActiveClusterUID sample_allocation = ''cluster-1''"
  "a_DeletePolicy sample_allocation = DeletePolicyArchive" "a_BasePath sample_allocation = sample_base" "a_DirectoryName sample_allocation = sample_dir"
  by (simp_all add: sample_allocation_def)

lemma sample_ownership_fields:
  "o_PublishedNodeIDs (sample_ownership sample_allocation) = Some []"
  by (simp add: sample_ownership_def ownership_payload_def sample_allocation_def)

lemma sample_handle_hash: "\<exists>x. VolumeHandleHash sample_handle = Inr x"
  using sample_handle_ok by (simp add: VolumeHandleHash_def)

lemma sample_delete_target: "delete_target sample_allocation DeletePolicyArchive sample_time sample_uuid = Inr (sample_target ''.archived'' sample_uuid)"
  using sample_target_managed [of "''.archived''" sample_uuid]
  by (simp add: delete_target_def sample_allocation_fields DeletePolicyArchive_def DeleteOperationArchive_def)

lemma sample_run:
  "\<exists>w'. Delete sample_deleter sample_handle sample_world = (Inl (sentinel_err ErrUnavailable), w')
     \<and> map_option sa_Record (sw_allocation w') = Some (DetailedA sample_deleting)
     \<and> sw_ownership w' = Some (DetailedO (sample_ownership sample_allocation))"
proof -
  obtain hash where hash: "VolumeHandleHash sample_handle = Inr hash" using sample_handle_hash by blast
  have nonempty: "sample_handle \<noteq> []" by (simp add: sample_handle_def Handle_String_def)
  have pair: "ValidateDetailedPair (Some sample_allocation) (Some (sample_ownership sample_allocation)) StateReady = None"
    using sample_pair by (simp add: ValidateDetailedPair_def)
  have union: "sortedUnion (Some []) (Some []) = Some []" "slices_equal (Some []) (Some [])" "slice_len (Some []) = 0"
    by (simp_all add: sortedUnion_def slice_elems_def slices_equal_def slice_len_def)
  show ?thesis
    unfolding Delete_def
    by (simp add: nonempty sample_handle_ok locked_def andthen_def deferred_def attempt_def sample_deleter_def service_delete_def
      service_process_def service_store_def service_owners_def serve_cases sample_world_def sample_stored_def numeral_eq_Suc
      ret_def fail_def lift_def guard_def delete_stored_def hash validateAllocationRuntimeIdentity_def sample_allocation_fields
      deleteDetailed_def detailed_of_def reconcileDeletePair_def pair delete_data_def reconcileDeleteFenceUnion_def sample_ownership_fields
      union dispose_unfenced_def prepareDelete_def sample_uuid_ok ValidateOperationID_def canonicalNow_def sample_moment_format
      sample_delete_target sample_prepared sample_prepare_update)
qed

theorem delete_crash_consistent_witness:
  "\<exists>w'. Delete sample_deleter sample_handle sample_world = (Inl (sentinel_err ErrUnavailable), w')
     \<and> map_option sa_Record (sw_allocation w') = Some (DetailedA sample_deleting)
     \<and> sw_ownership w' = Some (DetailedO (sample_ownership sample_allocation))
     \<and> startup_consistent (map_option sa_Record (sw_allocation w')) (sw_ownership w')"
proof -
  obtain w' where run: "Delete sample_deleter sample_handle sample_world = (Inl (sentinel_err ErrUnavailable), w')"
    and records: "map_option sa_Record (sw_allocation w') = Some (DetailedA sample_deleting)"
      "sw_ownership w' = Some (DetailedO (sample_ownership sample_allocation))"
    using sample_run by blast
  have wired: "sample_deleter = service_delete (h_LogicalVolumeID \<lparr>h_LogicalVolumeID = sample_volume, h_MappingHash = sample_mapping_hash\<rparr>)
      sample_driver sample_uuid ''cluster-1''
      (service_resolver (h_LogicalVolumeID \<lparr>h_LogicalVolumeID = sample_volume, h_MappingHash = sample_mapping_hash\<rparr>)
        sample_driver sample_uuid ''cluster-1'' ''kube-system'' ''csi''
        ([] @ \<lparr>dp_id = ''fs-1'', dp_basePath = sample_base\<rparr> # []) [] (\<lambda>_. Inl (errorf ''no claim''))
        (dp_id \<lparr>dp_id = ''fs-1'', dp_basePath = sample_base\<rparr>))"
    by (simp add: sample_deleter_def)
  have start: "startup_consistent (map_option sa_Record (sw_allocation sample_world)) (sw_ownership sample_world)"
    "sw_effects sample_world = []" "sw_allocation sample_world = None \<longrightarrow> recoverable (sw_ownership sample_world)" "sample_handle \<noteq> []"
    using sample_consistent by (simp_all add: sample_world_def sample_stored_def sample_handle_def Handle_String_def)
  show ?thesis
    using delete_crash_consistent [where operation = "Delete sample_deleter sample_handle", OF start(1-3) sample_handle_ok start(4) _ wired run] run records by blast
qed

end
