(* ===== verification/GCController.thy ===== *)
theory GCController
  imports DeleteController
begin

text \<open>
  \<^verbatim>\<open>pkg/driver/gc.go\<close> and \<^verbatim>\<open>gc_request.go\<close>: garbage collection of archived and retained volumes. An
  administrator's request is recorded on the allocation by \<^verbatim>\<open>Submit\<close>; \<^verbatim>\<open>Reconcile\<close> executes it through the
  same dual-written, crash-resumable steps as a delete. The lemmas are proved in \<open>gc_readers\<close>, \<open>gc_services\<close> and
  \<open>gc_requests\<close>, against the store contract of \<open>Services\<close>, and the locales are interpreted on the scripted services.
\<close>

section \<open>Errors, results and dependencies\<close>

definition ErrGCRequestMissing :: sentinel where
  "ErrGCRequestMissing = OtherSentinel ''allocation has no garbage-collection request''"
definition ErrGCStillReferenced :: sentinel where
  "ErrGCStillReferenced = OtherSentinel ''logical volume is still referenced by a PersistentVolume''"

record GCResult =
  gr_RequestID :: string
  gr_Mode :: string
  gr_LogicalVolumeID :: string
  gr_ParentFilesystemID :: string
  gr_PreviousState :: string
  gr_FinalState :: string
  gr_TargetPath :: string
  gr_QuarantinePath :: string
  gr_Completed :: bool

record 'w GCController =
  gc_driverName :: string
  gc_installationID :: string
  gc_clusterUID :: string
  gc_allocations :: "'w AllocationStore"
  gc_ownerships :: "'w LifecycleOwnershipStore"
  gc_attachments :: "string \<Rightarrow> ('w, bool) act"
  gc_pvs :: "string \<Rightarrow> ('w, bool) act"
  gc_leadership :: "('w, unit) act"
  gc_PrepareQuarantine :: "DetailedAllocationRecord \<Rightarrow> ('w, unit) act"
  gc_RemoveQuarantine :: "DetailedAllocationRecord \<Rightarrow> ('w, unit) act"
  gc_process :: "'w Process"

section \<open>Gates\<close>

definition validateIdentity :: "'w GCController \<Rightarrow> DetailedAllocationRecord \<Rightarrow> error option" where
  "validateIdentity c allocation = errs
     [Detailed_Validate allocation,
      ensure (\<not> (a_DriverName allocation \<noteq> gc_driverName c \<or> a_InstallationID allocation \<noteq> gc_installationID c
                 \<or> a_ActiveClusterUID allocation \<noteq> gc_clusterUID c))
        ''GC allocation belongs to another driver installation or cluster'']"

definition validateMutationGates :: "'w GCController \<Rightarrow> DetailedAllocationRecord \<Rightarrow> ('w, unit) act" where
  "validateMutationGates c allocation =
     andthen (gc_attachments c (a_VolumeHandle allocation)) (\<lambda>inUse.
       if inUse then fail (sentinel_err ErrVolumeInUse)
       else
         andthen (gc_pvs c (a_LogicalVolumeID allocation)) (\<lambda>referenced.
           if referenced then fail (sentinel_err ErrGCStillReferenced)
           else if slice_len (a_PublishedNodeIDs allocation) \<noteq> 0 then fail (sentinel_err ErrPublishedFenceBlocked)
           else ret ()))"

definition validateReadOnlyGates ::
  "'w GCController \<Rightarrow> DetailedAllocationRecord \<Rightarrow> DetailedOwnershipRecord \<Rightarrow> ('w, unit) act" where
  "validateReadOnlyGates c allocation ownership =
     (if \<not> slices_equal (a_PublishedNodeIDs allocation) (o_PublishedNodeIDs ownership)
      then fail (errorf ''dry-run found divergent published-node fences'')
      else if slice_len (a_PublishedNodeIDs allocation) \<noteq> 0 then fail (sentinel_err ErrPublishedFenceBlocked)
      else validateMutationGates c allocation)"

section \<open>Reconciling the pair\<close>

definition gc_mirror ::
  "'w GCController \<Rightarrow> DetailedOwnershipRecord \<Rightarrow> DetailedAllocationRecord \<Rightarrow> ('w, DetailedOwnershipRecord) act" where
  "gc_mirror c ownership allocation =
     andthen (lift (mirrorGCLifecycle ownership allocation)) (\<lambda>nxt.
       andthen (owner_UpdateDetailed (gc_ownerships c) ownership nxt) (\<lambda>_. ret nxt))"

definition reconcileExecutePair ::
  "'w GCController \<Rightarrow> StoredAllocation \<Rightarrow> DetailedOwnershipRecord \<Rightarrow>
     ('w, StoredAllocation \<times> DetailedOwnershipRecord) act" where
  "reconcileExecutePair c stored ownership =
     andthen (lift (detailed_of stored)) (\<lambda>allocation.
       if a_State allocation \<noteq> a_GCExpectedState allocation
          \<or> (a_State allocation \<noteq> StateArchived \<and> a_State allocation \<noteq> StateRetained)
       then fail (errorf ''GC execute state does not match expected terminal state'')
       else if a_GCOperationID allocation = [] then
         guard (validateInitialGCPair allocation ownership) (ret (stored, ownership))
       else
         guard (validateGCProgressPair allocation ownership)
           (if o_GCOperationID ownership = []
               \<or> (a_GCRemoveStartedAt allocation \<noteq> [] \<and> o_GCRemoveStartedAt ownership = []) then
              andthen (gc_mirror c ownership allocation) (\<lambda>nxt. ret (stored, nxt))
            else ret (stored, ownership)))"

definition reconcileExecuteFenceUnion ::
  "'w GCController \<Rightarrow> StoredAllocation \<Rightarrow> DetailedOwnershipRecord \<Rightarrow>
     ('w, StoredAllocation \<times> DetailedOwnershipRecord) act" where
  "reconcileExecuteFenceUnion c stored ownership =
     andthen (lift (detailed_of stored)) (\<lambda>allocation.
       let union = sortedUnion (a_PublishedNodeIDs allocation) (o_PublishedNodeIDs ownership)
       in andthen
           (if \<not> slices_equal (a_PublishedNodeIDs allocation) union then
              andthen (canonicalNow (gc_process c)) (\<lambda>now.
                store_Update (gc_allocations c) stored
                  (DetailedA (allocation\<lparr>a_RecordRevision := a_RecordRevision allocation + 1,
                     a_UpdatedAt := now, a_PublishedNodeIDs := union\<rparr>)))
            else ret stored) (\<lambda>stored.
           if \<not> slices_equal (o_PublishedNodeIDs ownership) union then
             andthen (lift (ownershipWithPublishedNodes ownership union)) (\<lambda>nxt.
               andthen (owner_UpdateDetailed (gc_ownerships c) ownership nxt) (\<lambda>_. ret (stored, nxt)))
           else ret (stored, ownership)))"

section \<open>The collection steps\<close>

definition gc_prepared_record ::
  "DetailedAllocationRecord \<Rightarrow> string \<Rightarrow> string \<Rightarrow> string \<Rightarrow> string \<Rightarrow> DetailedAllocationRecord" where
  "gc_prepared_record allocation operationID now target quarantine =
     allocation\<lparr>a_RecordRevision := a_RecordRevision allocation + 1, a_UpdatedAt := now,
       a_GCOperationID := operationID, a_GCTargetPath := target, a_GCQuarantinePath := quarantine, a_GCStartedAt := now\<rparr>"

definition prepareGC ::
  "'w GCController \<Rightarrow> StoredAllocation \<Rightarrow> DetailedOwnershipRecord \<Rightarrow>
     ('w, StoredAllocation \<times> DetailedOwnershipRecord) act" where
  "prepareGC c stored ownership =
     andthen (lift (detailed_of stored)) (\<lambda>allocation.
     andthen (ids_New (gc_process c)) (\<lambda>operationID.
     andthen (canonicalNow (gc_process c)) (\<lambda>now.
     let target = terminalDataPath allocation
     in if target = [] then fail (errorf ''GC terminal source path is empty'')
        else
          andthen (lift (ManagedLifecycleTarget (a_BasePath allocation) ''.deleted'' (a_DirectoryName allocation)
            (a_LogicalVolumeID allocation) now operationID)) (\<lambda>quarantine.
          andthen (store_Update (gc_allocations c) stored
            (DetailedA (gc_prepared_record allocation operationID now target quarantine))) (\<lambda>stored.
          andthen (lift (detailed_of stored)) (\<lambda>updated.
          andthen (gc_mirror c ownership updated) (\<lambda>nextOwnership. ret (stored, nextOwnership))))))))"

definition gc_remove_start_record :: "DetailedAllocationRecord \<Rightarrow> string \<Rightarrow> DetailedAllocationRecord" where
  "gc_remove_start_record allocation now =
     allocation\<lparr>a_RecordRevision := a_RecordRevision allocation + 1, a_UpdatedAt := now, a_GCRemoveStartedAt := now\<rparr>"

definition persistGCRemoveStart ::
  "'w GCController \<Rightarrow> StoredAllocation \<Rightarrow> DetailedOwnershipRecord \<Rightarrow>
     ('w, StoredAllocation \<times> DetailedOwnershipRecord) act" where
  "persistGCRemoveStart c stored ownership =
     andthen (lift (detailed_of stored)) (\<lambda>allocation.
     andthen (canonicalNow (gc_process c)) (\<lambda>now.
     andthen (store_Update (gc_allocations c) stored (DetailedA (gc_remove_start_record allocation now))) (\<lambda>stored.
     andthen (lift (detailed_of stored)) (\<lambda>updated.
     andthen (gc_mirror c ownership updated) (\<lambda>nextOwnership. ret (stored, nextOwnership))))))"

definition gc_deleted_record :: "DetailedAllocationRecord \<Rightarrow> string \<Rightarrow> DetailedAllocationRecord" where
  "gc_deleted_record allocation now =
     allocation\<lparr>a_RecordRevision := a_RecordRevision allocation + 1, a_State := StateDeleted,
       a_ReservesCapacity := False, a_UpdatedAt := now, a_DeletedAt := now,
       a_DeleteResult := ''garbage-collected'', a_GCCompletedAt := now\<rparr>"

definition completeGC :: "'w GCController \<Rightarrow> StoredAllocation \<Rightarrow> DetailedOwnershipRecord \<Rightarrow> ('w, unit) act" where
  "completeGC c stored ownership =
     andthen (lift (detailed_of stored)) (\<lambda>allocation.
     andthen (canonicalNow (gc_process c)) (\<lambda>now.
     andthen (store_Update (gc_allocations c) stored (DetailedA (gc_deleted_record allocation now))) (\<lambda>updated.
     andthen (lift (detailed_of updated)) (\<lambda>deleted.
     andthen (lift (compactOwnershipFromDeleted deleted ownership)) (\<lambda>compact.
     owner_Compact (gc_ownerships c) ownership compact)))))"

text \<open>The tail of \<^verbatim>\<open>Reconcile\<close> from \<^verbatim>\<open>PrepareQuarantine\<close> on, with the remove-start evidence persisted first.\<close>

definition gc_remove :: "'w GCController \<Rightarrow> StoredAllocation \<Rightarrow> DetailedOwnershipRecord \<Rightarrow> ('w, unit) act" where
  "gc_remove c stored detailed =
     andthen (lift (detailed_of stored)) (\<lambda>allocation.
     guard (ensure (o_GCRemoveStartedAt detailed = a_GCRemoveStartedAt allocation)
         ''allocation and ownership GC remove-start evidence differs'')
     (andthen (gc_RemoveQuarantine c allocation) (\<lambda>_.
      completeGC c stored detailed)))"

definition gc_collect ::
  "'w GCController \<Rightarrow> GCResult \<Rightarrow> StoredAllocation \<Rightarrow> DetailedOwnershipRecord \<Rightarrow> ('w, GCResult) act" where
  "gc_collect c result stored detailed =
     andthen (lift (detailed_of stored)) (\<lambda>allocation.
     andthen (gc_PrepareQuarantine c allocation) (\<lambda>_.
     andthen
       (if a_GCRemoveStartedAt allocation = [] then persistGCRemoveStart c stored detailed
        else ret (stored, detailed)) (\<lambda>(stored, detailed).
     andthen (gc_remove c stored detailed) (\<lambda>_.
     ret (result\<lparr>gr_TargetPath := a_GCTargetPath allocation, gr_QuarantinePath := a_GCQuarantinePath allocation,
       gr_FinalState := StateDeleted, gr_Completed := True\<rparr>)))))"

definition gc_execute ::
  "'w GCController \<Rightarrow> GCResult \<Rightarrow> StoredAllocation \<Rightarrow> DetailedOwnershipRecord \<Rightarrow> ('w, GCResult) act" where
  "gc_execute c result stored detailed =
     andthen (reconcileExecutePair c stored detailed) (\<lambda>(stored, detailed).
     andthen (reconcileExecuteFenceUnion c stored detailed) (\<lambda>(stored, detailed).
     andthen (lift (detailed_of stored)) (\<lambda>allocation.
     andthen (validateMutationGates c allocation) (\<lambda>_.
     andthen
       (if a_GCOperationID allocation = [] then prepareGC c stored detailed else ret (stored, detailed))
       (\<lambda>(stored, detailed). gc_collect c result stored detailed)))))"

definition gc_finish_deleted ::
  "'w GCController \<Rightarrow> GCResult \<Rightarrow> DetailedAllocationRecord \<Rightarrow> OwnershipRecord \<Rightarrow> ('w, GCResult) act" where
  "gc_finish_deleted c result allocation ownership =
     guard (ensure (\<not> (a_GCOperationID allocation = [] \<or> a_GCCompletedAt allocation = []))
         ''deleted allocation lacks completed GC evidence'')
     (let finished = result\<lparr>gr_FinalState := StateDeleted, gr_Completed := True\<rparr>
      in case ownership of
           CompactO compact \<Rightarrow>
             guard (ValidateCompactPair (Some (compactAllocationProjection allocation)) (Some compact)) (ret finished)
         | DetailedO detailed \<Rightarrow>
             guard (validateGCOwnershipPredecessor allocation detailed)
               (andthen (lift (compactOwnershipFromDeleted allocation detailed)) (\<lambda>compact.
                andthen (owner_Compact (gc_ownerships c) detailed compact) (\<lambda>_. ret finished))))"

definition gc_result :: "DetailedAllocationRecord \<Rightarrow> GCResult" where
  "gc_result allocation = \<lparr>
     gr_RequestID = a_GCRequestID allocation, gr_Mode = a_GCRequestedMode allocation,
     gr_LogicalVolumeID = a_LogicalVolumeID allocation, gr_ParentFilesystemID = a_ParentFilesystemID allocation,
     gr_PreviousState = a_GCExpectedState allocation, gr_FinalState = a_State allocation,
     gr_TargetPath = a_GCTargetPath allocation, gr_QuarantinePath = a_GCQuarantinePath allocation, gr_Completed = False\<rparr>"

definition gc_detailed :: "'w GCController \<Rightarrow> StoredAllocation \<Rightarrow> DetailedAllocationRecord \<Rightarrow> ('w, GCResult) act" where
  "gc_detailed c stored allocation =
     guard (validateIdentity c allocation)
     (guard (ensure_is (a_GCRequestID allocation \<noteq> []) ErrGCRequestMissing [])
     (andthen (owner_Load (gc_ownerships c) allocation) (\<lambda>ownership.
        if a_State allocation = StateDeleted then gc_finish_deleted c (gc_result allocation) allocation ownership
        else
          case ownership of
            CompactO compact \<Rightarrow> fail (errorf ''data-bearing GC allocation has non-detailed ownership kind'')
          | DetailedO detailed \<Rightarrow>
              if a_GCRequestedMode allocation = ''dry-run'' then
                guard (validateInitialGCPair allocation detailed)
                  (andthen (validateReadOnlyGates c allocation detailed) (\<lambda>_.
                     ret ((gc_result allocation)\<lparr>gr_TargetPath := terminalDataPath allocation\<rparr>)))
              else if a_GCRequestedMode allocation \<noteq> ''execute'' then fail (errorf ''GC request mode is unsupported'')
              else gc_execute c (gc_result allocation) stored detailed)))"

definition gc_compact_result :: "CompactDeletedAllocationRecord \<Rightarrow> GCResult" where
  "gc_compact_result record = \<lparr>
     gr_RequestID = [], gr_Mode = [], gr_LogicalVolumeID = ca_LogicalVolumeID record,
     gr_ParentFilesystemID = ca_ParentFilesystemID record, gr_PreviousState = [], gr_FinalState = ca_State record,
     gr_TargetPath = ca_GCTargetPath record, gr_QuarantinePath = ca_GCQuarantinePath record, gr_Completed = True\<rparr>"

definition Reconcile :: "'w GCController \<Rightarrow> string \<Rightarrow> ('w, GCResult) act" where
  "Reconcile c logicalVolumeID =
     guard (ValidateLogicalVolumeID logicalVolumeID)
     (andthen (gc_leadership c) (\<lambda>_.
      locked (gc_process c) logicalVolumeID
        (andthen (store_Get (gc_allocations c) logicalVolumeID) (\<lambda>stored.
         guard (validateAllocationRuntimeIdentity (Some (sa_Record stored)) (gc_driverName c) (gc_installationID c)
             (gc_clusterUID c))
         (guard (ensure (Allocation_LogicalID (sa_Record stored) = logicalVolumeID)
             ''GC allocation belongs to another logical ID'')
         (case sa_Record stored of
            CompactA record \<Rightarrow>
              guard (ensure (ca_GCOperationID record \<noteq> []) ''compact Deleted tombstone was not created by GC'')
                (ret (gc_compact_result record))
          | UnknownA record \<Rightarrow> fail (errorf ''deletedUnknown tombstone is not eligible for GC'')
          | DetailedA allocation \<Rightarrow> gc_detailed c stored allocation))))))"

section \<open>Requests\<close>









section \<open>Every interruption leaves a consistent pair\<close>

text \<open>When a collection may move the data of a volume to quarantine, and when it may remove it.\<close>

definition quarantine_authorised :: "DetailedAllocationRecord \<Rightarrow> DetailedOwnershipRecord \<Rightarrow> bool" where
  "quarantine_authorised a d \<longleftrightarrow> (a_State a = StateArchived \<or> a_State a = StateRetained) \<and> o_State d = a_State a
     \<and> a_GCRequestedMode a = ''execute'' \<and> a_GCOperationID a \<noteq> [] \<and> o_GCOperationID d = a_GCOperationID a
     \<and> validateGCProgressPair a d = None \<and> slice_len (a_PublishedNodeIDs a) = 0"

definition collection_authorised :: "DetailedAllocationRecord \<Rightarrow> DetailedOwnershipRecord \<Rightarrow> bool" where
  "collection_authorised a d \<longleftrightarrow> quarantine_authorised a d
     \<and> a_GCRemoveStartedAt a \<noteq> [] \<and> o_GCRemoveStartedAt d = a_GCRemoveStartedAt a"

text \<open>The records of a finished collection, and of a volume that a dry run may describe.\<close>

fun gc_settled :: "AllocationRecord option \<Rightarrow> OwnershipRecord option \<Rightarrow> bool" where
  "gc_settled (Some (DetailedA a)) (Some (CompactO k)) \<longleftrightarrow> a_State a = StateDeleted"
| "gc_settled (Some (CompactA a)) (Some (CompactO k)) \<longleftrightarrow> True"
| "gc_settled _ _ \<longleftrightarrow> False"

lemma operation_id_nonempty: "ValidateOperationID i = None \<Longrightarrow> i \<noteq> []"
  by (auto simp: ValidateOperationID_def uuidPattern_def numeral_eq_Suc)

lemma prepared_operation: "ManagedLifecycleTarget b f n l t i = Inr q \<Longrightarrow> i \<noteq> []"
  by (auto simp: ManagedLifecycleTarget_def require_def dest: operation_id_nonempty split: if_splits option.splits)

locale gc_readers = record_services +
  fixes c :: "'a GCController"
  assumes wired: "gc_allocations c = store" "gc_ownerships c = owners" "gc_process c = proc"
    and leadership: "quiet (gc_leadership c)"
    and attachments: "quiet (gc_attachments c h)"
    and pvs: "quiet (gc_pvs c l)"
begin

text \<open>A dry run, and any run before the delete of the volume has reached its ownership record, changes nothing.\<close>

definition untouched :: "DetailedAllocationRecord \<Rightarrow> DetailedOwnershipRecord \<Rightarrow> bool" where
  "untouched a d \<longleftrightarrow> a_State a \<noteq> StateDeleted \<and> (a_GCRequestedMode a \<noteq> ''execute'' \<or> o_State d = StateDeleting)"

lemma read_gates_keep: "keeps (holds s o') (validateReadOnlyGates c a d)"
  unfolding validateReadOnlyGates_def validateMutationGates_def
  by (intro triple_if triple_fail triple_ret triple_andthen [OF quiet_holds [OF attachments]] triple_andthen [OF quiet_holds [OF pvs]]) auto

lemma unfinished_delete:
  assumes "o_State d = StateDeleting"
  shows "validateInitialGCPair a d \<noteq> None"
    and "a_GCExpectedState a = StateArchived \<or> a_GCExpectedState a = StateRetained \<Longrightarrow> validateGCProgressPair a d \<noteq> None"
  using assms by (auto simp: validateInitialGCPair_def validateGCProgressPair_def identity_pair_iff)

lemma untouched_detailed:
  assumes rec: "sa_Record s = DetailedA a" and un: "untouched a d"
  shows "triple (holds s (Some (DetailedO d))) (gc_detailed c s a) (\<lambda>_. holds s (Some (DetailedO d)))
    (\<lambda>_ w. holds s (Some (DetailedO d)) w \<and> o_State d \<noteq> StateDeleting)" (is "triple ?P _ _ ?Q")
proof -
  have execute: "triple ?P (gc_execute c r s d) (\<lambda>_. ?P) ?Q" if "a_GCRequestedMode a = ''execute''" for r
  proof -
    have "o_State d = StateDeleting" using un that by (simp add: untouched_def)
    then have "triple ?P (reconcileExecutePair c s d) (\<lambda>_. ?P) (\<lambda>_ _. False)"
      unfolding reconcileExecutePair_def detailed_of_detailed [OF rec] andthen_lift_Inr
      using unfinished_delete [of d a] by (intro triple_if triple_fail triple_guard) auto
    then show ?thesis unfolding gc_execute_def by (rule triple_andthen) (auto simp: triple_def)
  qed
  have body: "triple (\<lambda>w. ?P w \<and> Some (DetailedO d) = Some x) (if a_State a = StateDeleted then gc_finish_deleted c (gc_result a) a x
        else case x of
            CompactO compact \<Rightarrow> fail (errorf ''data-bearing GC allocation has non-detailed ownership kind'')
          | DetailedO detailed \<Rightarrow>
              if a_GCRequestedMode a = ''dry-run'' then
                guard (validateInitialGCPair a detailed)
                  (andthen (validateReadOnlyGates c a detailed) (\<lambda>_.
                     ret ((gc_result a)\<lparr>gr_TargetPath := terminalDataPath a\<rparr>)))
              else if a_GCRequestedMode a \<noteq> ''execute'' then fail (errorf ''GC request mode is unsupported'')
              else gc_execute c (gc_result a) s detailed) (\<lambda>_. ?P) ?Q" for x
  proof (rule triple_fact2)
    assume "Some (DetailedO d) = Some x"
    then have x: "x = DetailedO d" by simp
    show "triple ?P (if a_State a = StateDeleted then gc_finish_deleted c (gc_result a) a x
        else case x of
            CompactO compact \<Rightarrow> fail (errorf ''data-bearing GC allocation has non-detailed ownership kind'')
          | DetailedO detailed \<Rightarrow>
              if a_GCRequestedMode a = ''dry-run'' then
                guard (validateInitialGCPair a detailed)
                  (andthen (validateReadOnlyGates c a detailed) (\<lambda>_.
                     ret ((gc_result a)\<lparr>gr_TargetPath := terminalDataPath a\<rparr>)))
              else if a_GCRequestedMode a \<noteq> ''execute'' then fail (errorf ''GC request mode is unsupported'')
              else gc_execute c (gc_result a) s detailed) (\<lambda>_. ?P) ?Q"
      unfolding x OwnershipRecord.case
      by (intro triple_if triple_fail triple_guard triple_andthen [OF read_gates_keep] triple_ret execute)
        (use un unfinished_delete(1) [of d a] in \<open>auto simp: untouched_def\<close>)
  qed
  show ?thesis
    unfolding gc_detailed_def wired
    by (intro triple_guard triple_andthen [OF load_triple [OF rec]] body) auto
qed

lemma untouched_reconcile:
  assumes rec: "sa_Record s = DetailedA a" and un: "untouched a d"
  shows "triple (stands (Some s) (Some (DetailedO d))) (Reconcile c vid) (\<lambda>_. stands (Some s) (Some (DetailedO d)))
    (\<lambda>_ w. stands (Some s) (Some (DetailedO d)) w \<and> o_State d \<noteq> StateDeleting)"
proof -
  have body: "triple (\<lambda>w. stands (Some s) (Some (DetailedO d)) w \<and> x = s)
      (guard (validateAllocationRuntimeIdentity (Some (sa_Record x)) (gc_driverName c) (gc_installationID c) (gc_clusterUID c))
         (guard (ensure (Allocation_LogicalID (sa_Record x) = vid) ''GC allocation belongs to another logical ID'')
         (case sa_Record x of
            CompactA record \<Rightarrow>
              guard (ensure (ca_GCOperationID record \<noteq> []) ''compact Deleted tombstone was not created by GC'')
                (ret (gc_compact_result record))
          | UnknownA record \<Rightarrow> fail (errorf ''deletedUnknown tombstone is not eligible for GC'')
          | DetailedA allocation \<Rightarrow> gc_detailed c x allocation))) (\<lambda>_. stands (Some s) (Some (DetailedO d)))
      (\<lambda>_ w. stands (Some s) (Some (DetailedO d)) w \<and> o_State d \<noteq> StateDeleting)" for x
    by (rule triple_fact2, hypsubst)
      (use rec un untouched_detailed in \<open>auto intro!: triple_guard simp: stands_Some\<close>)
  show ?thesis
    unfolding Reconcile_def wired
    by (intro triple_guard triple_andthen [OF quiet_stands [OF leadership]] locked_stands triple_andthen [OF get_stands] body) auto
qed

end

locale gc_services = gc_readers +
  assumes quarantine: "sa_Record s = DetailedA a \<Longrightarrow> quarantine_authorised a d \<Longrightarrow>
      quiet_at s (Some (DetailedO d)) (gc_PrepareQuarantine c a)"
    and removal: "sa_Record s = DetailedA a \<Longrightarrow> collection_authorised a d \<Longrightarrow>
      quiet_at s (Some (DetailedO d)) (gc_RemoveQuarantine c a)"
begin

text \<open>A pair that an execute request may work on.\<close>

definition collectable :: "StoredAllocation \<Rightarrow> DetailedAllocationRecord \<Rightarrow> DetailedOwnershipRecord \<Rightarrow> bool" where
  "collectable s a d \<longleftrightarrow> (\<exists>st. staged st s a d \<and> (st = StateArchived \<or> st = StateRetained))
     \<and> a_GCRequestID a \<noteq> [] \<and> a_GCRequestedMode a = ''execute''"

lemma collectableD:
  assumes "collectable s a d"
  shows "sa_Record s = DetailedA a" and "startup_detailed_pair a d = None"
    and "a_State a = StateArchived \<or> a_State a = StateRetained" and "o_State d = a_State a"
    and "a_GCRequestID a \<noteq> []" and "a_GCRequestedMode a = ''execute''"
    and "startup_consistent (Some (sa_Record s)) (Some (DetailedO d))"
    and "staged (a_State a) s a d" and "a_State a \<noteq> StateDeleted"
  using assms by (auto simp: collectable_def staged_def consistent_detailed)

lemma collectableI:
  assumes "sa_Record s = DetailedA a" and "startup_detailed_pair a d = None"
    and "a_State a = StateArchived \<or> a_State a = StateRetained" and "o_State d = a_State a"
    and "a_GCRequestID a \<noteq> []" and "a_GCRequestedMode a = ''execute''"
  shows "collectable s a d"
  using assms by (auto simp: collectable_def staged_def)

lemma collectable_progress:
  assumes "collectable s a d" and "a_GCOperationID a \<noteq> []"
  shows "validateGCProgressPair a d = None"
  using collectableD [OF assms(1)] assms(2) by (auto simp: startup_detailed_pair_def validateStartupGCPair_def)

lemma mirror_triple:
  assumes col: "collectable s a d" and op: "a_GCOperationID a \<noteq> []"
  shows "triple (holds s (Some (DetailedO d))) (gc_mirror c d a) (\<lambda>_. consistent)
    (\<lambda>n w. holds s (Some (DetailedO n)) w \<and> (collectable s a n \<and> o_GCRemoveStartedAt n = a_GCRemoveStartedAt a
       \<and> o_GCOperationID n = a_GCOperationID a))"
  unfolding gc_mirror_def wired
proof (rule triple_lift_andthen)
  note col = collectableD [OF col]
  show "holds s (Some (DetailedO d)) w \<Longrightarrow> consistent w" for w by (rule holds_consistent [OF _ col(7)])
  fix n assume m: "mirrorGCLifecycle d a = Inr n"
  note win = mirror_gc_window [OF col(2-4) op m]
  have new: "collectable s a n" by (rule collectableI [OF col(1) win(1) col(3) win(2) col(5,6)])
  show "triple (holds s (Some (DetailedO d))) (andthen (owner_UpdateDetailed owners d n) (\<lambda>_. ret n)) (\<lambda>_. consistent)
    (\<lambda>n w. holds s (Some (DetailedO n)) w \<and> (collectable s a n \<and> o_GCRemoveStartedAt n = a_GCRemoveStartedAt a
       \<and> o_GCOperationID n = a_GCOperationID a))"
    by (intro triple_andthen [OF owner_update_triple [OF col(7) collectableD(7) [OF new]]] triple_ret) (simp add: new win)
qed

text \<open>The pair after the first dual write was completed.\<close>

definition mirrored :: "DetailedAllocationRecord \<Rightarrow> DetailedOwnershipRecord \<Rightarrow> bool" where
  "mirrored a d \<longleftrightarrow> (a_GCOperationID a \<noteq> [] \<longrightarrow> o_GCOperationID d = a_GCOperationID a)"

lemma execute_pair_triple:
  assumes rec: "sa_Record s = DetailedA a" and ok: "startup_consistent (Some (sa_Record s)) (Some (DetailedO d))"
    and req: "a_GCRequestID a \<noteq> []" and mode: "a_GCRequestedMode a = ''execute''"
  shows "triple (holds s (Some (DetailedO d))) (reconcileExecutePair c s d) (\<lambda>_. consistent)
    (\<lambda>(s', d') w. \<exists>a'. holds s' (Some (DetailedO d')) w \<and> (collectable s' a' d' \<and> mirrored a' d'))"
proof (cases "a_State a = a_GCExpectedState a \<and> (a_State a = StateArchived \<or> a_State a = StateRetained)")
  case True
  have pair: "startup_detailed_pair a d = None" using ok rec by (simp add: consistent_detailed)
  have col: "collectable s a d" if "validateInitialGCPair a d = None \<or> validateGCProgressPair a d = None"
    using that True rec pair req mode
    by (intro collectableI) (auto simp: validateInitialGCPair_def validateGCProgressPair_def ValidateDetailedIdentityPair_def pair_iff)
  have prog: "mirrored a d" if "validateGCProgressPair a d = None" "o_GCOperationID d \<noteq> []"
    using that by (auto simp: validateGCProgressPair_def mirrored_def)
  have mirror: "triple (holds s (Some (DetailedO d))) (andthen (gc_mirror c d a) (\<lambda>n. ret (s, n))) (\<lambda>_. consistent)
    (\<lambda>(s', d') w. \<exists>a'. holds s' (Some (DetailedO d')) w \<and> (collectable s' a' d' \<and> mirrored a' d'))"
    if "validateGCProgressPair a d = None" "a_GCOperationID a \<noteq> []"
    by (intro triple_andthen [OF mirror_triple [OF col that(2)]] triple_ret) (use that in \<open>auto simp: mirrored_def\<close>)
  show ?thesis
    unfolding reconcileExecutePair_def detailed_of_detailed [OF rec] andthen_lift_Inr
    by (intro triple_rules mirror) (use True holds_consistent [OF _ ok] col prog in \<open>auto simp: mirrored_def\<close>)
next
  case False
  then show ?thesis
    unfolding reconcileExecutePair_def detailed_of_detailed [OF rec] andthen_lift_Inr
    using holds_consistent [OF _ ok] by (auto intro!: triple_fail)
qed

lemma fence_union_triple:
  assumes col: "collectable s a d" and m: "mirrored a d"
  shows "triple (holds s (Some (DetailedO d))) (reconcileExecuteFenceUnion c s d) (\<lambda>_. consistent)
    (\<lambda>(s', d') w. \<exists>a'. holds s' (Some (DetailedO d')) w \<and> (collectable s' a' d' \<and> mirrored a' d'))"
  unfolding reconcileExecuteFenceUnion_def detailed_of_detailed [OF collectableD(1) [OF col]] andthen_lift_Inr wired Let_def
proof (rule triple_post [OF fence_union_steps [OF collectableD(8,9) [OF col]]], assumption)
  let ?u = "sortedUnion (a_PublishedNodeIDs a) (o_PublishedNodeIDs d)"
  have step: "collectable s' a' d' \<and> mirrored a' d'"
    if "staged (a_State a) s' a' d'" "refenced a a'" "o_GCOperationID d' = o_GCOperationID d" for s' a' d'
    using that m collectableD(3-6) [OF col] by (auto simp: refenced_def mirrored_def collectable_def)
  show "(\<lambda>(s', d') w. \<exists>a'. holds s' (Some (DetailedO d')) w \<and> (staged (a_State a) s' a' d'
        \<and> (refenced a a' \<and> slices_equal (a_PublishedNodeIDs a') ?u)
        \<and> slices_equal (o_PublishedNodeIDs d') ?u \<and> o_GCOperationID d' = o_GCOperationID d)) x w \<Longrightarrow>
      (\<lambda>(s', d') w. \<exists>a'. holds s' (Some (DetailedO d')) w \<and> (collectable s' a' d' \<and> mirrored a' d')) x w" for x w
    using step by (cases x) fastforce
qed

lemma gates_triple:
  assumes ok: "startup_consistent (Some (sa_Record s)) o'"
  shows "triple (holds s o') (validateMutationGates c a) (\<lambda>_. consistent)
    (\<lambda>_ w. holds s o' w \<and> slice_len (a_PublishedNodeIDs a) = 0)"
  unfolding validateMutationGates_def
  by (intro triple_andthen [OF quiet_step [OF attachments ok]] triple_andthen [OF quiet_step [OF pvs ok]] triple_rules)
    (use holds_consistent [OF _ ok] in auto)

end

context gc_services
begin

definition prepared :: "DetailedAllocationRecord \<Rightarrow> DetailedOwnershipRecord \<Rightarrow> bool" where
  "prepared a d \<longleftrightarrow> a_GCOperationID a \<noteq> [] \<and> o_GCOperationID d = a_GCOperationID a \<and> slice_len (a_PublishedNodeIDs a) = 0"

lemma quarantine_ok: "collectable s a d \<Longrightarrow> prepared a d \<Longrightarrow> quarantine_authorised a d"
  using collectable_progress [of s a d] collectableD [of s a d] by (auto simp: quarantine_authorised_def prepared_def)

text \<open>The dual write of a collection step.\<close>

lemma update_mirror:
  assumes col: "collectable s a d"
    and win: "ValidateAllocationUpdate (Some (DetailedA a)) (Some (DetailedA n)) = None \<Longrightarrow> startup_detailed_pair n d = None"
    and n: "a_State n = a_State a" "a_GCRequestID n = a_GCRequestID a" "a_GCRequestedMode n = a_GCRequestedMode a"
      "a_PublishedNodeIDs n = a_PublishedNodeIDs a" "a_GCOperationID n \<noteq> []" and f: "slice_len (a_PublishedNodeIDs a) = 0"
  shows "triple (holds s (Some (DetailedO d)))
      (andthen (store_Update store s (DetailedA n)) (\<lambda>s'. andthen (lift (detailed_of s')) (\<lambda>b.
         andthen (gc_mirror c d b) (\<lambda>d'. ret (s', d'))))) (\<lambda>_. consistent)
      (\<lambda>(s', d') w. \<exists>a'. holds s' (Some (DetailedO d')) w \<and> (collectable s' a' d' \<and> prepared a' d'
         \<and> a' = n \<and> o_GCRemoveStartedAt d' = a_GCRemoveStartedAt n))" (is "triple _ _ _ ?Q")
proof (rule update_then [OF collectableD(7) [OF col]])
  note c = collectableD [OF col]
  assume upd: "ValidateAllocationUpdate (Some (sa_Record s)) (Some (DetailedA n)) = None"
  then have pair: "startup_detailed_pair n d = None" using win c(1) by simp
  then show "startup_consistent (Some (DetailedA n)) (Some (DetailedO d))"
    using c(9) n(1) by (simp add: consistent_detailed)
  fix s' :: StoredAllocation assume r: "sa_Record s' = DetailedA n"
  have col': "collectable s' n d" using r pair c(3-6) n by (intro collectableI) simp_all
  show "triple (holds s' (Some (DetailedO d))) (andthen (lift (detailed_of s')) (\<lambda>b.
      andthen (gc_mirror c d b) (\<lambda>d'. ret (s', d')))) (\<lambda>_. consistent) ?Q"
    unfolding detailed_of_detailed [OF r] andthen_lift_Inr
    by (intro triple_andthen [OF mirror_triple [OF col' n(5)]] triple_ret) (use n f in \<open>auto simp: prepared_def\<close>)
qed

lemma prepare_triple:
  assumes col: "collectable s a d" and none: "a_GCOperationID a = []" and f: "slice_len (a_PublishedNodeIDs a) = 0"
  shows "triple (holds s (Some (DetailedO d))) (prepareGC c s d) (\<lambda>_. consistent)
    (\<lambda>(s', d') w. \<exists>a'. holds s' (Some (DetailedO d')) w \<and> (collectable s' a' d' \<and> prepared a' d'))"
proof -
  note c = collectableD [OF col]
  have step: "triple (holds s (Some (DetailedO d)))
      (andthen (store_Update store s (DetailedA (gc_prepared_record a i now t q))) (\<lambda>s'. andthen (lift (detailed_of s')) (\<lambda>b.
         andthen (gc_mirror c d b) (\<lambda>d'. ret (s', d'))))) (\<lambda>_. consistent)
      (\<lambda>(s', d') w. \<exists>a'. holds s' (Some (DetailedO d')) w \<and> (collectable s' a' d' \<and> prepared a' d'))" if "i \<noteq> []" for i now t q
    by (rule triple_post [OF update_mirror [OF col]],
        erule gc_prepare_window [OF c(2-5) none _ gc_prepared_record_def that])
      (use that f in \<open>auto simp: gc_prepared_record_def\<close>)
  show ?thesis
    unfolding prepareGC_def detailed_of_detailed [OF c(1)] andthen_lift_Inr wired Let_def
    by (intro triple_andthen [OF quiet_step [OF quiet_services(2) c(7)]] triple_andthen [OF quiet_step [OF quiet_services(1) c(7)]]
        triple_if triple_fail triple_lift_andthen step)
      (auto intro: holds_consistent [OF _ c(7)] dest: prepared_operation)
qed

lemma remove_start_triple:
  assumes col: "collectable s a d" and prep: "prepared a d" and none: "a_GCRemoveStartedAt a = []"
  shows "triple (holds s (Some (DetailedO d))) (persistGCRemoveStart c s d) (\<lambda>_. consistent)
    (\<lambda>(s', d') w. \<exists>a'. holds s' (Some (DetailedO d')) w \<and> (collectable s' a' d' \<and> prepared a' d' \<and> a_GCRemoveStartedAt a' \<noteq> []))"
proof -
  note c = collectableD [OF col]
  have p: "a_GCOperationID a \<noteq> []" "slice_len (a_PublishedNodeIDs a) = 0" using prep by (simp_all add: prepared_def)
  have step: "triple (holds s (Some (DetailedO d)))
      (andthen (store_Update store s (DetailedA (gc_remove_start_record a now))) (\<lambda>s'. andthen (lift (detailed_of s')) (\<lambda>b.
         andthen (gc_mirror c d b) (\<lambda>d'. ret (s', d'))))) (\<lambda>_. consistent)
      (\<lambda>(s', d') w. \<exists>a'. holds s' (Some (DetailedO d')) w \<and> (collectable s' a' d' \<and> prepared a' d' \<and> a_GCRemoveStartedAt a' \<noteq> []))"
    if "now \<noteq> []" for now
    by (rule triple_post [OF update_mirror [OF col]],
        erule gc_remove_start_window [OF c(2-4) p(1) none _ gc_remove_start_record_def])
      (use that p in \<open>auto simp: gc_remove_start_record_def\<close>)
  show ?thesis
    unfolding persistGCRemoveStart_def detailed_of_detailed [OF c(1)] andthen_lift_Inr wired
    by (intro triple_andthen [OF now_triple [OF c(7)]], unfold triple_fact, intro impI step)
qed

abbreviation done_gc :: "'a \<Rightarrow> bool" where
  "done_gc w \<equiv> consistent w \<and> gc_settled (map_option sa_Record (alloc w)) (own w)"

lemma complete_triple:
  assumes col: "collectable s a d" and prep: "prepared a d" and ev: "a_GCRemoveStartedAt a \<noteq> []"
    and match: "o_GCRemoveStartedAt d = a_GCRemoveStartedAt a"
  shows "triple (holds s (Some (DetailedO d))) (completeGC c s d) (\<lambda>_. consistent) (\<lambda>_. done_gc)"
proof -
  note c = collectableD [OF col]
  have p: "a_GCOperationID a \<noteq> []" "slice_len (a_PublishedNodeIDs a) = 0" using prep by (simp_all add: prepared_def)
  have n: "a_State (gc_deleted_record a now) = StateDeleted" "slice_len (a_PublishedNodeIDs (gc_deleted_record a now)) = 0" for now
    using p by (simp_all add: gc_deleted_record_def)
  have win: "startup_consistent (Some (DetailedA (gc_deleted_record a now))) (Some (DetailedO d))"
    if "now \<noteq> []" "ValidateAllocationUpdate (Some (sa_Record s)) (Some (DetailedA (gc_deleted_record a now))) = None" for now
    using complete_gc_window [OF c(2-4) p(1) ev match _ gc_deleted_record_def that(1)] that(2) n c(1) by (simp add: consistent_detailed)
  have step: "triple (holds s (Some (DetailedO d))) (andthen (store_Update store s (DetailedA (gc_deleted_record a now)))
      (\<lambda>updated. andthen (lift (detailed_of updated)) (\<lambda>deleted. andthen (lift (compactOwnershipFromDeleted deleted d)) (owner_Compact owners d))))
      (\<lambda>_. consistent) (\<lambda>_. done_gc)" if now: "now \<noteq> []" for now
  proof (rule update_then [OF c(7) win [OF now]], assumption)
    fix s' :: StoredAllocation assume r: "sa_Record s' = DetailedA (gc_deleted_record a now)"
      and u: "ValidateAllocationUpdate (Some (sa_Record s)) (Some (DetailedA (gc_deleted_record a now))) = None"
    show "triple (holds s' (Some (DetailedO d))) (andthen (lift (detailed_of s')) (\<lambda>deleted.
      andthen (lift (compactOwnershipFromDeleted deleted d)) (owner_Compact owners d))) (\<lambda>_. consistent) (\<lambda>_. done_gc)"
      unfolding detailed_of_detailed [OF r] andthen_lift_Inr
      by (intro triple_rules triple_post [OF compact_triple [OF r n(1) win [OF now u]]])
        (use holds_consistent [of s'] win [OF now u] r n in \<open>auto simp: holds_def consistent_def\<close>)
  qed
  show ?thesis
    unfolding completeGC_def detailed_of_detailed [OF c(1)] andthen_lift_Inr wired
    by (intro triple_andthen [OF now_triple [OF c(7)]], unfold triple_fact, intro impI step)
qed

lemma gc_remove_triple:
  assumes col: "collectable s a d" and prep: "prepared a d" and ev: "a_GCRemoveStartedAt a \<noteq> []"
  shows "triple (holds s (Some (DetailedO d))) (gc_remove c s d) (\<lambda>_. consistent) (\<lambda>_. done_gc)"
  unfolding gc_remove_def detailed_of_detailed [OF collectableD(1) [OF col]] andthen_lift_Inr
proof (rule triple_guard)
  note c = collectableD [OF col]
  show "holds s (Some (DetailedO d)) w \<Longrightarrow> consistent w" for w by (rule holds_consistent [OF _ c(7)])
  assume "ensure (o_GCRemoveStartedAt d = a_GCRemoveStartedAt a) ''allocation and ownership GC remove-start evidence differs'' = None"
  then have match: "o_GCRemoveStartedAt d = a_GCRemoveStartedAt a" by simp
  then have "collection_authorised a d" using quarantine_ok [OF col prep] ev by (simp add: collection_authorised_def)
  then show "triple (holds s (Some (DetailedO d))) (andthen (gc_RemoveQuarantine c a) (\<lambda>_. completeGC c s d)) (\<lambda>_. consistent) (\<lambda>_. done_gc)"
    by (intro triple_andthen [OF effect_step [OF removal [OF c(1)] c(7)]] complete_triple [OF col prep ev match])
qed

lemma gc_collect_triple:
  assumes col: "collectable s a d" and prep: "prepared a d"
  shows "triple (holds s (Some (DetailedO d))) (gc_collect c r s d) (\<lambda>_. consistent) (\<lambda>x w. gr_Completed x \<and> done_gc w)"
proof -
  note c = collectableD [OF col]
  have start: "triple (holds s (Some (DetailedO d)))
      (if a_GCRemoveStartedAt a = [] then persistGCRemoveStart c s d else ret (s, d)) (\<lambda>_. consistent)
      (\<lambda>(s', d') w. \<exists>a'. holds s' (Some (DetailedO d')) w \<and> (collectable s' a' d' \<and> prepared a' d' \<and> a_GCRemoveStartedAt a' \<noteq> []))"
    by (intro triple_if remove_start_triple [OF col prep] triple_ret) (use col prep in auto)
  have rest: "triple (\<lambda>w. \<exists>a'. holds s' (Some (DetailedO d')) w \<and> (collectable s' a' d' \<and> prepared a' d' \<and> a_GCRemoveStartedAt a' \<noteq> []))
      (andthen (gc_remove c s' d') (\<lambda>_. ret (r\<lparr>gr_TargetPath := t, gr_QuarantinePath := q, gr_FinalState := StateDeleted, gr_Completed := True\<rparr>)))
      (\<lambda>_. consistent) (\<lambda>x w. gr_Completed x \<and> done_gc w)" for s' d' t q
    by (intro triple_ex triple_fact2) (auto intro!: triple_andthen [OF gc_remove_triple] triple_ret)
  show ?thesis
    unfolding gc_collect_def detailed_of_detailed [OF c(1)] andthen_lift_Inr
    by (rule triple_andthen [OF effect_step [OF quarantine [OF c(1) quarantine_ok [OF col prep]] c(7)]],
        rule triple_andthen [OF start], unfold split_paired_all prod.case, rule rest)
qed

lemma gc_execute_triple:
  assumes rec: "sa_Record s = DetailedA a" and ok: "startup_consistent (Some (sa_Record s)) (Some (DetailedO d))"
    and req: "a_GCRequestID a \<noteq> []" and mode: "a_GCRequestedMode a = ''execute''"
  shows "triple (holds s (Some (DetailedO d))) (gc_execute c r s d) (\<lambda>_. consistent) (\<lambda>x w. gr_Completed x \<and> done_gc w)"
proof -
  have collect: "triple (\<lambda>w. \<exists>a'. holds s' (Some (DetailedO d')) w \<and> (collectable s' a' d' \<and> prepared a' d'))
      (gc_collect c r s' d') (\<lambda>_. consistent) (\<lambda>x w. gr_Completed x \<and> done_gc w)" for s' d'
    by (intro triple_ex triple_fact2) (auto intro: gc_collect_triple)
  have gated: "triple (holds s' (Some (DetailedO d'))) (andthen (lift (detailed_of s')) (\<lambda>allocation.
       andthen (validateMutationGates c allocation) (\<lambda>_.
       andthen (if a_GCOperationID allocation = [] then prepareGC c s' d' else ret (s', d'))
         (\<lambda>(stored, detailed). gc_collect c r stored detailed)))) (\<lambda>_. consistent) (\<lambda>x w. gr_Completed x \<and> done_gc w)"
    if col: "collectable s' a' d'" and m: "mirrored a' d'" for s' a' d'
    unfolding detailed_of_detailed [OF collectableD(1) [OF col]] andthen_lift_Inr
  proof (rule triple_andthen [OF gates_triple [OF collectableD(7) [OF col]]], rule triple_fact2)
    assume f: "slice_len (a_PublishedNodeIDs a') = 0"
    have "triple (holds s' (Some (DetailedO d'))) (if a_GCOperationID a' = [] then prepareGC c s' d' else ret (s', d')) (\<lambda>_. consistent)
       (\<lambda>(s', d') w. \<exists>a'. holds s' (Some (DetailedO d')) w \<and> (collectable s' a' d' \<and> prepared a' d'))"
      by (intro triple_if prepare_triple [OF col _ f] triple_ret) (use col m f in \<open>auto simp: prepared_def mirrored_def\<close>)
    then show "triple (holds s' (Some (DetailedO d'))) (andthen (if a_GCOperationID a' = [] then prepareGC c s' d' else ret (s', d'))
         (\<lambda>(stored, detailed). gc_collect c r stored detailed)) (\<lambda>_. consistent) (\<lambda>x w. gr_Completed x \<and> done_gc w)"
      by (rule triple_andthen, unfold split_paired_all prod.case) (rule collect)
  qed
  have fence: "triple (\<lambda>w. \<exists>a'. holds s' (Some (DetailedO d')) w \<and> (collectable s' a' d' \<and> mirrored a' d'))
      (reconcileExecuteFenceUnion c s' d') (\<lambda>_. consistent)
      (\<lambda>(s', d') w. \<exists>a'. holds s' (Some (DetailedO d')) w \<and> (collectable s' a' d' \<and> mirrored a' d'))" for s' d'
    by (intro triple_ex triple_fact2, elim conjE, rule fence_union_triple)
  show ?thesis
    unfolding gc_execute_def
    by (rule triple_andthen [OF execute_pair_triple [OF rec ok req mode]], unfold split_paired_all prod.case,
        rule triple_andthen [OF fence], unfold split_paired_all prod.case, intro triple_ex triple_fact2, elim conjE)
      (rule gated)
qed

lemma finish_deleted_triple:
  assumes rec: "sa_Record s = DetailedA a" and st: "a_State a = StateDeleted" and ok: "startup_consistent (Some (sa_Record s)) (Some x)"
  shows "triple (holds s (Some x)) (gc_finish_deleted c r a x) (\<lambda>_. consistent) (\<lambda>x w. gr_Completed x \<and> done_gc w)"
  using ok rec st unfolding gc_finish_deleted_def wired Let_def
  by (cases x) (auto intro!: triple_rules triple_andthen [OF compact_triple [OF rec]] simp: holds_def consistent_def)

text \<open>What a result of \<^verbatim>\<open>Reconcile\<close> means: only a dry run is not completed.\<close>

abbreviation reported :: "GCResult \<Rightarrow> 'a \<Rightarrow> bool" where
  "reported x w \<equiv> consistent w \<and> (gr_Completed x \<longrightarrow> gc_settled (map_option sa_Record (alloc w)) (own w))"

lemma read_only_triple:
  assumes "startup_consistent (Some (sa_Record s)) (Some (DetailedO d))"
  shows "triple (holds s (Some (DetailedO d))) (validateReadOnlyGates c a d) (\<lambda>_. consistent) (\<lambda>_. holds s (Some (DetailedO d)))"
  unfolding validateReadOnlyGates_def
  by (intro triple_if triple_fail triple_post [OF gates_triple [OF assms]]) (use holds_consistent [OF _ assms] in auto)

lemma gc_detailed_triple:
  assumes rec: "sa_Record s = DetailedA a"
  shows "triple (found s) (gc_detailed c s a) (\<lambda>_. consistent) reported"
proof (rule triple_found)
  fix o' assume ok: "startup_consistent (Some (sa_Record s)) o'"
  have weaken: "triple P m E (\<lambda>x w. gr_Completed x \<and> done_gc w) \<Longrightarrow> triple P m E reported" for P E and m :: "('a, GCResult) act"
    by (erule triple_post) auto
  show "triple (holds s o') (gc_detailed c s a) (\<lambda>_. consistent) reported"
    unfolding gc_detailed_def wired
  proof (intro triple_guard load_then [OF rec ok])
    fix x assume x: "o' = Some x"
      and req: "ensure_is (a_GCRequestID a \<noteq> []) ErrGCRequestMissing [] = None"
    note okx = ok [unfolded x]
    have dry: "triple (holds s (Some (DetailedO d))) (andthen (validateReadOnlyGates c a d) (\<lambda>_.
        ret ((gc_result a)\<lparr>gr_TargetPath := terminalDataPath a\<rparr>))) (\<lambda>_. consistent) reported" if "x = DetailedO d" for d
      by (intro triple_andthen [OF read_only_triple [OF okx [unfolded that]]] triple_ret)
        (use holds_consistent [OF _ okx [unfolded that]] in \<open>auto simp: gc_result_def\<close>)
    show "triple (holds s (Some x)) (if a_State a = StateDeleted then gc_finish_deleted c (gc_result a) a x
        else case x of
            CompactO compact \<Rightarrow> fail (errorf ''data-bearing GC allocation has non-detailed ownership kind'')
          | DetailedO detailed \<Rightarrow>
              if a_GCRequestedMode a = ''dry-run'' then
                guard (validateInitialGCPair a detailed)
                  (andthen (validateReadOnlyGates c a detailed) (\<lambda>_.
                     ret ((gc_result a)\<lparr>gr_TargetPath := terminalDataPath a\<rparr>)))
              else if a_GCRequestedMode a \<noteq> ''execute'' then fail (errorf ''GC request mode is unsupported'')
              else gc_execute c (gc_result a) s detailed) (\<lambda>_. consistent) reported"
    proof (cases x)
      case (CompactO k)
      show ?thesis unfolding CompactO OwnershipRecord.case
        by (intro triple_if triple_fail weaken [OF finish_deleted_triple [OF rec _ okx [unfolded CompactO]]])
          (use holds_consistent [OF _ okx] CompactO in auto)
    next
      case (DetailedO d)
      have "a_GCRequestID a \<noteq> []" using req by simp
      then show ?thesis unfolding DetailedO OwnershipRecord.case
        by (intro triple_if triple_fail triple_guard dry [OF DetailedO] weaken [OF finish_deleted_triple [OF rec _ okx [unfolded DetailedO]]]
            weaken [OF gc_execute_triple [OF rec okx [unfolded DetailedO]]])
          (use holds_consistent [OF _ okx] DetailedO in auto)
    qed
  qed (use holds_consistent [OF _ ok] in auto)
qed

lemma Reconcile_triple: "triple consistent (Reconcile c vid) (\<lambda>_. consistent) reported"
proof -
  have compact: "triple (found s) (ret (gc_compact_result k)) (\<lambda>_. consistent) reported" if "sa_Record s = CompactA k" for s k
    using that by (intro triple_ret) (auto simp: found_def holds_def consistent_def startup_consistent.simps)
  have "triple consistent (andthen (store_Get store vid) (\<lambda>stored.
         guard (validateAllocationRuntimeIdentity (Some (sa_Record stored)) (gc_driverName c) (gc_installationID c)
             (gc_clusterUID c))
         (guard (ensure (Allocation_LogicalID (sa_Record stored) = vid) ''GC allocation belongs to another logical ID'')
         (case sa_Record stored of
            CompactA record \<Rightarrow>
              guard (ensure (ca_GCOperationID record \<noteq> []) ''compact Deleted tombstone was not created by GC'')
                (ret (gc_compact_result record))
          | UnknownA record \<Rightarrow> fail (errorf ''deletedUnknown tombstone is not eligible for GC'')
          | DetailedA allocation \<Rightarrow> gc_detailed c stored allocation)))) (\<lambda>_. consistent) reported"
    by (rule triple_andthen [OF get_found])
      (auto intro!: triple_guard triple_fail compact gc_detailed_triple dest: found_consistent split: AllocationRecord.split)
  then show ?thesis
    unfolding Reconcile_def wired
    by (intro triple_guard triple_andthen [OF quiet_consistent [OF leadership]] locked_triple)
qed

end

section \<open>Every run of a collection\<close>

text \<open>The rule under which a collection may move a directory aside or remove it.\<close>

fun gc_rule :: effect_rule where
  "gc_rule e x (Some (DetailedA a)) (Some (DetailedO d)) \<longleftrightarrow> x = a
     \<and> (case e of Moved \<Rightarrow> quarantine_authorised a d | Removed \<Rightarrow> collection_authorised a d)"
| "gc_rule _ _ _ _ \<longleftrightarrow> False"

definition service_gc :: "string \<Rightarrow> string \<Rightarrow> string \<Rightarrow> string \<Rightarrow> ServiceWorld GCController" where
  "service_gc vid driverName installationID clusterUID = \<lparr>
     gc_driverName = driverName, gc_installationID = installationID, gc_clusterUID = clusterUID,
     gc_allocations = service_store vid, gc_ownerships = service_owners,
     gc_attachments = (\<lambda>handle. service_question), gc_pvs = (\<lambda>ident. service_question),
     gc_leadership = serve (\<lambda>w. Inr ()) (\<lambda>w. w),
     gc_PrepareQuarantine = service_effect Moved, gc_RemoveQuarantine = service_effect Removed,
     gc_process = service_process\<rparr>"

interpretation collection: gc_services "service_store vid" service_owners service_process vid sw_allocation sw_ownership
    "effects_ok gc_rule" "service_gc vid driverName installationID clusterUID"
  for vid driverName installationID clusterUID
  by unfold_locales (auto simp: service_gc_def services.quiet_def services.quiet_at_def serve_cases effects_ok_def
      split: outcome.splits list.splits sum.splits option.splits if_splits)

text \<open>
  (C38) A collection is safe to interrupt anywhere. Whatever call of \<^verbatim>\<open>Reconcile\<close> is refused, or applied
  with its answer lost, the two records of the volume pass the startup check afterwards; the directory is
  moved to quarantine only while both records hold the same execute operation of an archived or
  retained volume and no node is published, and removed only when both also hold the same remove-start
  evidence; and a result that reports completion means that the volume is deleted in both records.
\<close>

theorem gc_crash_consistent:
  assumes "startup_consistent (map_option sa_Record (sw_allocation w)) (sw_ownership w)" and "sw_effects w = []"
    and "sw_allocation w = None \<longrightarrow> recoverable (sw_ownership w)"
    and "Reconcile (service_gc vid driverName installationID clusterUID) vid w = (r, w')"
  shows "startup_consistent (map_option sa_Record (sw_allocation w')) (sw_ownership w')
    \<and> list_all (\<lambda>(e, x, a, d). gc_rule e x a d) (sw_effects w')
    \<and> (\<forall>x. r = Inr x \<longrightarrow> gr_Completed x \<longrightarrow> gc_settled (map_option sa_Record (sw_allocation w')) (sw_ownership w'))"
proof -
  have start: "services.consistent gc_rule w" using assms(1-3) by (simp add: services.consistent_def effects_ok_def)
  from tripleD [OF collection.Reconcile_triple this assms(4)] show ?thesis
    by (cases r) (auto simp: services.consistent_def effects_ok_def)
qed

text \<open>A collection of the archived sample volume whose first write, the prepared operation, is applied with its answer lost.\<close>

lemmas sample_records = sample_collectable_def sample_archived_def sample_deleting_def

lemma sample_collectable_fields:
  "a_State sample_collectable = StateArchived" "a_LogicalVolumeID sample_collectable = sample_volume"
  "a_GCRequestID sample_collectable = sample_uuid2" "a_GCRequestedMode sample_collectable = ''execute''"
  "a_GCExpectedState sample_collectable = StateArchived" "a_GCOperationID sample_collectable = []"
  "a_PublishedNodeIDs sample_collectable = Some []" "a_BasePath sample_collectable = sample_base"
  "a_DirectoryName sample_collectable = sample_dir" "a_ArchivedPath sample_collectable = sample_target ''.archived'' sample_uuid"
  "a_DriverName sample_collectable = sample_driver" "a_InstallationID sample_collectable = sample_uuid"
  "a_ActiveClusterUID sample_collectable = ''cluster-1''"
  by (simp_all add: sample_records sample_allocation_def)

lemma delete_result_update:
  assumes "Detailed_Validate r = None" and "a_DeleteResult r \<noteq> []" and "d \<noteq> []"
  shows "Detailed_Validate (r\<lparr>a_DeleteResult := d\<rparr>) = None"
proof -
  have "validateStateFields (r\<lparr>a_DeleteResult := d\<rparr>) = validateStateFields r"
    using assms(2,3) by (simp add: validateStateFields_def hasDeleteFields_def lifecycle_audit_updates)
  then show ?thesis using assms(1) by (simp add: detailed_valid_iff validateLifecycle_def Let_def lifecycle_audit_updates cong: if_cong)
qed

lemma sample_archived_ownership_ok: "DetailedOwnership_Validate (sample_ownership sample_archived) = None"
proof -
  have env: "ownership_envelope (sample_ownership sample_archived) = sample_archived\<lparr>a_DeleteResult := []\<rparr>"
    using sample_ownership_envelope [of sample_archived] by (simp add: sample_archived_def sample_deleting_def sample_allocation_def)
  have "a_DeleteResult sample_archived \<noteq> []" by (simp add: sample_archived_def)
  from delete_result_update [OF sample_archived_ok this, of "''validated-by-ownership-state''"]
  have "Detailed_validatePayload (sample_ownership sample_archived) = None"
    unfolding Detailed_validatePayload_def env
    by (simp add: sample_ownership_def ownership_payload_def)
      (simp add: sample_archived_def sample_deleting_def sample_allocation_def)
  then show ?thesis
    by (simp add: ownership_valid_iff sample_ownership_def detailed.checksum_put)
qed

lemma sample_gc_pair: "validateInitialGCPair sample_collectable (sample_ownership sample_archived) = None"
  using sample_collectable_ok sample_archived_ownership_ok
  by (simp add: validateInitialGCPair_def identity_pair_iff sample_collectable_fields)
    (simp add: detailed_pair_identity_def validateDeleteTerminalEvidence_def sample_ownership_def ownership_payload_def
      equal_create_parameters slices_equal_def sample_records, simp add: sample_allocation_def)

lemma sample_prepare_gc_update:
  "ValidateAllocationUpdate (Some (DetailedA sample_collectable)) (Some (DetailedA sample_collecting)) = None"
  using sample_collectable_ok sample_collecting_ok
  by (simp add: detailed_update_iff)
    (simp add: validateDetailedImmutableEquality_def allowedAllocationStateTransition_def equal_create_parameters
      sample_collecting_def, simp add: sample_collectable_def)

lemma sample_gc_prepared:
  "gc_prepared_record sample_collectable sample_uuid2 sample_time (sample_target ''.archived'' sample_uuid)
     (sample_target ''.deleted'' sample_uuid2) = sample_collecting"
  by (simp add: gc_prepared_record_def sample_collecting_def) (simp add: sample_records sample_allocation_def)

definition sample_gc_world :: ServiceWorld where
  "sample_gc_world = \<lparr>sw_allocation = Some \<lparr>sa_Record = DetailedA sample_collectable, sa_UID = ''uid'', sa_ResourceVersion = ''1''\<rparr>,
     sw_ownership = Some (DetailedO (sample_ownership sample_archived)), sw_version = 2,
     sw_outcomes = replicate 8 Applied @ [Lost (sentinel_err ErrUnavailable)], sw_identifiers = [sample_uuid2],
     sw_instants = [sample_moment], sw_answers = [], sw_effects = []\<rparr>"

lemma sample_gc_run:
  "\<exists>w'. Reconcile (service_gc sample_volume sample_driver sample_uuid ''cluster-1'') sample_volume sample_gc_world
       = (Inl (sentinel_err ErrUnavailable), w')
     \<and> map_option sa_Record (sw_allocation w') = Some (DetailedA sample_collecting)
     \<and> sw_ownership w' = Some (DetailedO (sample_ownership sample_archived))"
proof -
  have fences: "o_PublishedNodeIDs (sample_ownership sample_archived) = Some []"
    by (simp add: sample_ownership_def ownership_payload_def sample_archived_def sample_deleting_def sample_allocation_def)
  have union: "sortedUnion (Some []) (Some []) = Some []" "slices_equal (Some []) (Some [])" "slice_len (Some []) = 0"
    by (simp_all add: sortedUnion_def slice_elems_def slices_equal_def slice_len_def)
  note target = sample_target_managed [of "''.deleted''" sample_uuid2]
  show ?thesis
    unfolding Reconcile_def
    by (simp add: logical_volume_id_valid [OF sample_volume_ok] locked_def andthen_def deferred_def attempt_def service_gc_def
      service_process_def service_store_def service_owners_def serve_cases sample_gc_world_def numeral_eq_Suc
      ret_def fail_def lift_def guard_def validateAllocationRuntimeIdentity_def sample_collectable_fields sample_collectable_ok
      gc_detailed_def validateIdentity_def sample_nonempty gc_execute_def reconcileExecutePair_def detailed_of_def sample_gc_pair
      reconcileExecuteFenceUnion_def fences union validateMutationGates_def prepareGC_def canonicalNow_def sample_moment_format
      Let_def terminalDataPath_def target sample_target_path sample_gc_prepared sample_prepare_gc_update)
qed

theorem gc_crash_consistent_witness:
  "\<exists>w'. Reconcile (service_gc sample_volume sample_driver sample_uuid ''cluster-1'') sample_volume sample_gc_world
       = (Inl (sentinel_err ErrUnavailable), w')
     \<and> map_option sa_Record (sw_allocation w') = Some (DetailedA sample_collecting)
     \<and> sw_ownership w' = Some (DetailedO (sample_ownership sample_archived))
     \<and> startup_consistent (map_option sa_Record (sw_allocation w')) (sw_ownership w')"
proof -
  obtain w' where run: "Reconcile (service_gc sample_volume sample_driver sample_uuid ''cluster-1'') sample_volume sample_gc_world
       = (Inl (sentinel_err ErrUnavailable), w')"
    and records: "map_option sa_Record (sw_allocation w') = Some (DetailedA sample_collecting)"
      "sw_ownership w' = Some (DetailedO (sample_ownership sample_archived))"
    using sample_gc_run by blast
  have archived: "o_State (sample_ownership sample_archived) = StateArchived"
    by (simp add: sample_ownership_def ownership_payload_def sample_archived_def)
  have start: "startup_consistent (map_option sa_Record (sw_allocation sample_gc_world)) (sw_ownership sample_gc_world)"
    "sw_effects sample_gc_world = []" "sw_allocation sample_gc_world = None \<longrightarrow> recoverable (sw_ownership sample_gc_world)"
    using sample_gc_pair archived
    by (simp_all add: sample_gc_world_def consistent_detailed startup_detailed_pair_def validateStartupGCPair_def
        validateInitialGCPair_def sample_collectable_fields sample_nonempty)
  from gc_crash_consistent [OF start run] run records show ?thesis by blast
qed

section \<open>Requests and unfinished deletes\<close>



lemma never_effects: "effects_ok (\<lambda>_ _ _ _. False) v \<longleftrightarrow> sw_effects v = []"
  by (cases "sw_effects v") (auto simp: effects_ok_def)




interpretation readers: gc_readers "service_store vid" service_owners service_process vid sw_allocation sw_ownership
    "effects_ok rule" "service_gc vid driverName installationID clusterUID"
  for vid rule driverName installationID clusterUID
  by unfold_locales (auto simp: service_gc_def services.quiet_def serve_cases effects_ok_def
      split: outcome.splits list.splits sum.splits option.splits if_splits)

text \<open>
  (C40) A dry run changes nothing, and neither does a collection of a volume whose delete has not yet reached
  its ownership record: whatever its calls answer, \<^verbatim>\<open>Reconcile\<close> leaves both records and the data as they
  were. In the second case it never succeeds.
\<close>

theorem gc_leaves_untouched:
  assumes "sw_allocation w = Some s" and "sa_Record s = DetailedA a" and "a_State a \<noteq> StateDeleted"
    and "sw_ownership w = Some (DetailedO d)" and "a_GCRequestedMode a \<noteq> ''execute'' \<or> o_State d = StateDeleting" and "sw_effects w = []"
    and "Reconcile (service_gc vid driverName installationID clusterUID) vid w = (r, w')"
  shows "sw_allocation w' = Some s \<and> sw_ownership w' = Some (DetailedO d) \<and> sw_effects w' = []
    \<and> (o_State d = StateDeleting \<longrightarrow> (\<exists>e. r = Inl e))"
proof -
  let ?never = "\<lambda>_ _ _ _. False"
  have start: "services.stands ?never (Some s) (Some (DetailedO d)) w"
    using assms(1,4,6) by (simp add: services.stands_def never_effects)
  have "readers.untouched a d" using assms(3,5) by (simp add: readers.untouched_def)
  from tripleD [OF readers.untouched_reconcile [OF assms(2) this] start assms(7)] show ?thesis
    by (cases r) (auto simp: services.stands_def never_effects)
qed


definition sample_terminal_world :: "DetailedAllocationRecord \<Rightarrow> DetailedOwnershipRecord \<Rightarrow> ServiceWorld" where
  "sample_terminal_world a d = \<lparr>sw_allocation = Some \<lparr>sa_Record = DetailedA a, sa_UID = ''uid'', sa_ResourceVersion = ''1''\<rparr>,
     sw_ownership = Some (DetailedO d), sw_version = 2, sw_outcomes = [], sw_identifiers = [], sw_instants = [sample_moment],
     sw_answers = [], sw_effects = []\<rparr>"






text \<open>The same request, accepted while the ownership record of the volume still says Deleting.\<close>

lemma sample_unfinished_pair: "startup_consistent (Some (DetailedA sample_collectable)) (Some (DetailedO (sample_ownership sample_deleting)))"
proof -
  have deleting: "o_State (sample_ownership sample_deleting) = StateDeleting"
    by (simp add: sample_ownership_def ownership_payload_def sample_deleting_def)
  have "validateDeleteProgressPair sample_collectable (sample_ownership sample_deleting) = None"
    using sample_collectable_ok sample_deleting_ownership_ok
    by (simp add: validateDeleteProgressPair_def identity_pair_iff)
      (simp add: detailed_pair_identity_def sample_ownership_def ownership_payload_def equal_create_parameters sample_collectable_def
        sample_archived_def)
  then show ?thesis using deleting by (simp add: consistent_detailed startup_detailed_pair_def sample_collectable_fields)
qed

theorem gc_leaves_untouched_witness:
  "startup_consistent (Some (DetailedA sample_collectable)) (Some (DetailedO (sample_ownership sample_deleting)))
   \<and> (\<exists>e w'. Reconcile (service_gc sample_volume sample_driver sample_uuid ''cluster-1'') sample_volume
        (sample_terminal_world sample_collectable (sample_ownership sample_deleting)) = (Inl e, w')
      \<and> map_option sa_Record (sw_allocation w') = Some (DetailedA sample_collectable)
      \<and> sw_ownership w' = Some (DetailedO (sample_ownership sample_deleting)))"
proof -
  let ?w = "sample_terminal_world sample_collectable (sample_ownership sample_deleting)"
  let ?s = "\<lparr>sa_Record = DetailedA sample_collectable, sa_UID = ''uid'', sa_ResourceVersion = ''1''\<rparr>"
  obtain r w' where run: "Reconcile (service_gc sample_volume sample_driver sample_uuid ''cluster-1'') sample_volume ?w = (r, w')"
    by (rule prod.exhaust)
  have deleting: "o_State (sample_ownership sample_deleting) = StateDeleting"
    by (simp add: sample_ownership_def ownership_payload_def sample_deleting_def)
  have start: "sw_allocation ?w = Some ?s" "sa_Record ?s = DetailedA sample_collectable" "a_State sample_collectable \<noteq> StateDeleted"
    "sw_ownership ?w = Some (DetailedO (sample_ownership sample_deleting))"
    "a_GCRequestedMode sample_collectable \<noteq> ''execute'' \<or> o_State (sample_ownership sample_deleting) = StateDeleting" "sw_effects ?w = []"
    using deleting by (simp_all add: sample_terminal_world_def sample_collectable_fields)
  from gc_leaves_untouched [OF start run] deleting run sample_unfinished_pair show ?thesis by auto
qed

end
