(* ===== verification/Spec2Isabelle.thy ===== *)
theory Spec2Isabelle
  imports Decommission Selection LifecyclePairs KubernetesStore DataLifecycle ParentBackend KeyedLock Leadership GCController
begin

text \<open>
  A verification library for the Scaleway File Storage subdirectory CSI driver.

  \<^bold>\<open>The program.\<close> The driver serves many small persistent volumes from few large parent filesystems:
  a volume is a subdirectory of a parent. Two records describe a volume. The allocation record is a
  ConfigMap of the Kubernetes API and reserves capacity; the ownership record is a checksummed JSON
  file inside the parent and authenticates the directory. The controller moves both through one
  lifecycle (Reserved, CreatingDirectory, Ready, Deleting, Archived, Retained, Deleted) in an order that
  leaves, after a crash at any point, a pair of records that the startup check accepts.

  \<^bold>\<open>Theories and sources.\<close>
  \<^item> \<open>Prelude\<close>: errors with the sentinels of \<^verbatim>\<open>errors.Is\<close>, validators as \<open>error option\<close>, fallible
    functions as \<open>error + 'a\<close>. \<open>GoLib\<close>: what the sources use of \<^verbatim>\<open>strings\<close>, \<^verbatim>\<open>utf8\<close>, \<^verbatim>\<open>path\<close>, \<^verbatim>\<open>strconv\<close> and
    \<^verbatim>\<open>time\<close>. \<open>Digest\<close>: SHA-256, hexadecimal text and canonical JSON with its string reader.
    \<open>StrictJson\<close>: \<^verbatim>\<open>internal/strictjson\<close> over the JSON grammar and the field matching of \<^verbatim>\<open>encoding/json\<close>.
    \<open>Effects\<close>: actions on a world with Hoare triples.
  \<^item> \<open>Identifiers\<close>, \<open>Handle\<close>, \<open>Request\<close>, \<open>Context\<close>: \<^verbatim>\<open>pkg/volume\<close>, files \<^verbatim>\<open>identifiers.go\<close>, \<^verbatim>\<open>path.go\<close>,
    \<^verbatim>\<open>handle.go\<close>, \<^verbatim>\<open>request.go\<close>, \<^verbatim>\<open>capability.go\<close>, \<^verbatim>\<open>context.go\<close>.
  \<^item> \<open>Allocation\<close>, \<open>Ownership\<close>, \<open>Transition\<close>, \<open>Pairing\<close>, \<open>Codec\<close>: the two record families of \<^verbatim>\<open>pkg/volume\<close>,
    their validation, update checks, pairing, reconstruction, encoding and decoding.
  \<^item> \<open>Accounting\<close>, \<open>PoolConfig\<close>, \<open>Selection\<close>, \<open>Decommission\<close>: \<^verbatim>\<open>pkg/pool\<close>.
  \<^item> \<open>LifecyclePairs\<close>: the record steps of \<^verbatim>\<open>pkg/driver\<close> (creation, published-node fences, delete, garbage
    collection, compaction) and \<^verbatim>\<open>ValidateLifecyclePairForStartup\<close>.
  \<^item> \<open>Services\<close>: the interfaces the controllers of \<^verbatim>\<open>pkg/driver\<close> call and their contract. \<open>DeleteResolver\<close>:
    \<^verbatim>\<open>internal/driverapp/delete_resolver.go\<close>, the search for a volume whose allocation is missing.
    \<open>DeleteController\<close>: \<^verbatim>\<open>delete.go\<close>, the archive, delete and retain state machine over that resolver.
    \<open>GCController\<close>: \<^verbatim>\<open>gc.go\<close> and \<^verbatim>\<open>gc_request.go\<close>, the collection of archived and retained volumes.
  \<^item> \<open>KubernetesStore\<close>: \<^verbatim>\<open>pkg/k8s\<close>, the allocation store over the ConfigMap client and the in-memory client.
  \<^item> \<open>MetadataWriter\<close>: \<^verbatim>\<open>pkg/safety\<close>, relative paths, the durable metadata writer and the in-memory
    filesystem that separates live, synced and durable bytes. \<open>DataLifecycle\<close>: the directory lifecycle of
    \<^verbatim>\<open>pkg/safety\<close> with the state-driven delete and garbage-collection filesystems of \<^verbatim>\<open>pkg/driver\<close>, over a
    boundary of directory operations and the in-memory tree.
  \<^item> \<open>ParentBackend\<close>: \<^verbatim>\<open>pkg/parentfs\<close>, the ownership stores and the inventory below a mounted parent, with the
    creation reconciler of \<^verbatim>\<open>pkg/driver\<close>.
  \<^item> \<open>Interleaving\<close>: concurrent callers of a shared object. \<open>MutationGate\<close> and \<open>KeyedLock\<close>: \<^verbatim>\<open>pkg/coordination\<close>,
    files \<^verbatim>\<open>gate.go\<close> and \<^verbatim>\<open>lock.go\<close>, one step per critical section, counter or channel operation.
  \<^item> \<open>LeaseEvidence\<close>: the annotation groups of the leadership Lease (\<^verbatim>\<open>lease_evidence.go\<close>, \<^verbatim>\<open>bootstrap.go\<close>, \<^verbatim>\<open>discovery.go\<close>,
    \<^verbatim>\<open>fresh_bootstrap.go\<close>, \<^verbatim>\<open>approval.go\<close>). \<open>LeaseProtocol\<close>: the planners of \<^verbatim>\<open>lease_protocol.go\<close>. \<open>LeaseRuntime\<close>:
    the operations of \<^verbatim>\<open>runtime.go\<close> over a boundary of Lease store, provider fence and clock. \<open>Leadership\<close>:
    the abstract leadership protocol, the refinement of it by those operations and the cluster of Pods.

  \<^bold>\<open>What the lemmas show.\<close> Validators are characterised on every branch, and each record family has an
  update check whose chains keep the identity of a volume, raise the revision by one and follow the
  lifecycle graph (\<open>Transition\<close>). Encoders and decoders are inverse on text (\<open>Codec\<close>, through the locale
  \<open>record_codec\<close>). Capacity arithmetic on 64-bit words equals exact rational arithmetic or reports
  overflow (\<open>Accounting\<close>); placement picks the best admissible parent independently of map order
  (\<open>Selection\<close>). The store is a compare-and-swap under any faults (locale \<open>configmap_client\<close>). An ownership
  update is atomic under a crash behind any filesystem operation and can always be resumed (locales
  \<open>generation_protocol\<close> and \<open>durable_fs\<close>). The disposal of one volume changes only entries of its own
  directory and of the lifecycle paths derived from its record, and removes only with evidence (locale
  \<open>lifecycle_fs\<close>). The delete controller and the garbage collector leave, whatever
  call fails, a pair of records that the startup check accepts, and move or remove data only with the
  evidence in both records (locales \<open>record_services\<close>, \<open>resolver_services\<close>, \<open>delete_services\<close>, \<open>gc_readers\<close>,
  \<open>gc_services\<close> and \<open>gc_requests\<close>); a dry run changes nothing. Under every interleaving the mutation gate keeps its bound, its barrier lets no ordinary
  mutation through and no waiter misses its wake-up; the keyed lock excludes and leaves no entry behind
  (locale \<open>interleaving\<close>). Each annotation group of the Lease is written and read independently of the others
  (locale \<open>annotation_group\<close>), and the planners grant mutation leadership only on the evidence of the current
  holder or of its graceful release. Every update the runtime attempts is a step of the abstract
  protocol for every behaviour of its boundary (locale \<open>lease_boundary\<close>, interpreted on the boundary that
  answers from an arbitrary script), so that at most one Pod that is not fenced leads.

  \<^bold>\<open>Modelling choices.\<close> Go strings are byte lists. Error messages are abbreviated, their sentinels are
  exact. A Go map is a function or an association list; where the code iterates over one, the result
  is proved independent of the order or the code sorts. Functions of \<^verbatim>\<open>strconv.Quote\<close> appear as the
  parameter \<open>quote\<close>. Interfaces of the sources (\<^verbatim>\<open>ConfigMapClient\<close>, \<^verbatim>\<open>DurableFS\<close>) are records of actions; a
  call that returns an error may have been applied, and a cancelled context is such an error. The
  JSON parser recurses on fuel equal to the length of its input plus one, which \<open>parse_fuel\<close> shows to be
  enough. A record is \<open>text\<close> when its strings are valid UTF-8: \<^verbatim>\<open>encoding/json\<close> replaces other bytes, and
  the strings of a gRPC request are UTF-8.

  \<^bold>\<open>Not modelled.\<close> The system call adapters, client-go adapters and the cloud SDK; the create
  and publish controllers, the startup dispatch of the controllers, the renewal timer of the Lease, recovery apart from the
  evidence of a PersistentVolume, node operations, the administration protocol, process wiring apart from the delete resolver, command line, release tooling and the end-to-end harness.
\<close>

end
